(* ===== verification/Prelude.thy ===== *)
theory Prelude
  imports Main "HOL-Library.Word"
begin

text \<open>
  Shared vocabulary of the development: the machine integer types of
  \<^verbatim>\<open>Common/CommonTypes.h\<close>, the results of fallible operations, sixteen-bit lanes of a
  wider word (how the anonymous structs inside the register unions of
  \<^verbatim>\<open>Core/DSP/DSPCore.h\<close> overlay their \<^verbatim>\<open>val\<close> member), sign extension from
  40 bits, and the theorem collections that the component theories extend and use.

  Signed C integers are kept as words of their width: \<open>+\<close>, \<open>-\<close>, \<open>*\<close> and the shifts act on
  the bits, and \<open>sint\<close> reads the two's complement value where the code compares.
\<close>

unbundle bit_operations_syntax

type_synonym u8 = "8 word"
type_synonym u16 = "16 word"
type_synonym u32 = "32 word"
type_synonym u64 = "64 word"
type_synonym s64 = "64 word"

text \<open>The opcode type of \<^verbatim>\<open>Core/DSP/DSPCommon.h\<close>.\<close>

type_synonym UDSPInstruction = u16

named_theorems dsp_frame
  \<open>what an operation leaves unchanged\<close>
named_theorems dsp_ops
  \<open>definitions of the instruction handlers\<close>

section \<open>Fallible operations\<close>

text \<open>
  Two things end a run of the emulated processor for good: \<^verbatim>\<open>gdsp_do_dma\<close> calls
  \<^verbatim>\<open>exit(0)\<close> on an oversized transfer, and a transfer or a null table entry makes the
  emulator access memory outside the objects it owns (undefined behaviour in C++).
\<close>

datatype dsp_error = ProcessExit | MemoryFault

type_synonym 'a result = "dsp_error + 'a"

definition bind_res :: "'a result \<Rightarrow> ('a \<Rightarrow> 'b result) \<Rightarrow> 'b result" where
  "bind_res m f = (case m of Inl e \<Rightarrow> Inl e | Inr x \<Rightarrow> f x)"

lemma bind_res_simps [simp]:
  "bind_res (Inl e) f = Inl e"
  "bind_res (Inr x) f = f x"
  by (simp_all add: bind_res_def)

lemma bind_res_assoc:
  "bind_res (bind_res m f) g = bind_res m (\<lambda>x. bind_res (f x) g)"
  by (cases m) simp_all

lemma bind_res_eq_Inl: "bind_res m f = Inl e \<longleftrightarrow> m = Inl e \<or> (\<exists>x. m = Inr x \<and> f x = Inl e)"
  by (cases m) auto

lemma bind_res_eq_Inr:
  "bind_res m f = Inr y \<longleftrightarrow> (\<exists>x. m = Inr x \<and> f x = Inr y)"
  by (cases m) auto

section \<open>Ranges, masks and shifts\<close>

lemma unat_u8_less: "unat (w :: u8) < 256"
proof -
  have "unat w < 2 ^ LENGTH(8)" by (rule unsigned_less)
  then show ?thesis by simp
qed

lemma unat_u16_less: "unat (w :: u16) < 65536"
proof -
  have "unat w < 2 ^ LENGTH(16)" by (rule unsigned_less)
  then show ?thesis by simp
qed

lemma unat_u32_less: "unat (w :: u32) < 4294967296"
proof -
  have "unat w < 2 ^ LENGTH(32)" by (rule unsigned_less)
  then show ?thesis by simp
qed

lemma unat_drop_bit: "unat (drop_bit n (w :: 'a::len word)) = unat w div 2 ^ n"
  by (simp only: unat_drop_bit_eq) (simp only: drop_bit_eq_div)

lemma unat_push_bit: "unat w * 2 ^ n < 2 ^ LENGTH('a) \<Longrightarrow> unat (push_bit n (w :: 'a::len word)) = unat w * 2 ^ n"
  by (simp only: unsigned_push_bit_eq) (simp only: push_bit_eq_mult take_bit_nat_eq_self)

lemma and_mask_self: "unat (w :: 'a::len word) < 2 ^ n \<Longrightarrow> w AND mask n = w"
  unfolding take_bit_eq_mask [symmetric]
  by (metis take_bit_nat_eq_self unsigned_take_bit_eq word_unat_eq_iff)

lemma unat_and_mask: "unat ((w :: 'a::len word) AND mask n) = unat w mod 2 ^ n"
  by (simp only: take_bit_eq_mask [symmetric] unsigned_take_bit_eq) (simp add: take_bit_eq_mod)

lemma and_push_bit_1: "(w :: 'a::len word) AND push_bit n 1 \<noteq> 0 \<longleftrightarrow> bit w n"
  by (simp add: bit_iff_and_push_bit_not_eq_0)

text \<open>
  Bits of the constants the code masks with. The simplifier reads a bit of a numeral word as the bit
  of the integer numeral, so these are facts on integers.
\<close>

lemma bit_int_low_mask:
  "bit (0xff :: int) n \<longleftrightarrow> n < 8"
  "bit (0xffff :: int) n \<longleftrightarrow> n < 16"
  "bit (0xffffffff :: int) n \<longleftrightarrow> n < 32"
  "bit (0xffffffffff :: int) n \<longleftrightarrow> n < 40"
  using bit_mask_iff [where 'a = int, of 8 n] bit_mask_iff [where 'a = int, of 16 n]
    bit_mask_iff [where 'a = int, of 32 n] bit_mask_iff [where 'a = int, of 40 n]
  by (simp_all add: mask_eq_exp_minus_1)

lemma bit_int_single:
  "bit (0x8000 :: int) n \<longleftrightarrow> n = 15"
  "bit (0x10000 :: int) n \<longleftrightarrow> n = 16"
  "bit (0x80000000 :: int) n \<longleftrightarrow> n = 31"
  using bit_exp_iff [where 'a = int, of 15 n] bit_exp_iff [where 'a = int, of 16 n]
    bit_exp_iff [where 'a = int, of 31 n]
  by auto

lemma bit_int_not:
  "bit (- 0x10000 :: int) n \<longleftrightarrow> 16 \<le> n"
  "bit (- 0x80000001 :: int) n \<longleftrightarrow> n \<noteq> 31"
  "bit (0xff00 :: int) n \<longleftrightarrow> 8 \<le> n \<and> n < 16"
  using bit_not_iff [where 'a = int, of "0xffff" n] bit_not_iff [where 'a = int, of "0x80000000" n]
    bit_and_iff [of "0xffff :: int" "NOT 0xff" n] bit_not_iff [where 'a = int, of "0xff" n]
  by (auto simp: bit_int_low_mask bit_int_single not_less)

lemmas bit_const_simps = bit_int_low_mask bit_int_single bit_int_not

lemmas word_bit_simps = bit_or_iff bit_and_iff bit_xor_iff bit_not_iff bit_push_bit_iff
  bit_drop_bit_eq bit_ucast_iff bit_take_bit_iff

section \<open>Sixteen-bit lanes of a word\<close>

definition lane16 :: "nat \<Rightarrow> 'a::len word \<Rightarrow> u16" where
  "lane16 i w = ucast (drop_bit (16 * i) w)"

definition set_lane16 :: "nat \<Rightarrow> u16 \<Rightarrow> 'a::len word \<Rightarrow> 'a word" where
  "set_lane16 i v w = (w AND NOT (push_bit (16 * i) (mask 16))) OR push_bit (16 * i) (ucast v)"

lemma bit_lane16:
  "bit (lane16 i (w :: 'a::len word)) n \<longleftrightarrow> n < 16 \<and> bit w (16 * i + n)"
  by (auto simp: lane16_def bit_ucast_iff bit_drop_bit_eq)

lemma bit_set_lane16:
  "bit (set_lane16 i v (w :: 'a::len word)) n \<longleftrightarrow>
     n < LENGTH('a) \<and>
     (if 16 * i \<le> n \<and> n < 16 * i + 16 then bit v (n - 16 * i) else bit w n)"
  by (auto simp: set_lane16_def bit_or_iff bit_and_iff bit_not_iff bit_push_bit_iff bit_mask_iff
      bit_ucast_iff dest: bit_imp_le_length)

lemma lane16_set_same [simp]:
  "16 * i + 16 \<le> LENGTH('a) \<Longrightarrow> lane16 i (set_lane16 i v (w :: 'a::len word)) = v"
  by (rule bit_word_eqI) (auto simp: bit_lane16 bit_set_lane16 dest: bit_imp_le_length)

lemma lane16_set_other [simp]:
  "i \<noteq> j \<Longrightarrow> lane16 i (set_lane16 j v (w :: 'a::len word)) = lane16 i w"
  by (rule bit_word_eqI) (auto simp: bit_lane16 bit_set_lane16 dest: bit_imp_le_length)

lemma set_lane16_set_same [simp]:
  "set_lane16 i v (set_lane16 i v' w) = set_lane16 i v w"
  by (rule bit_word_eqI) (auto simp: bit_set_lane16)

lemma set_lane16_lane16 [simp]:
  "set_lane16 i (lane16 i w) w = (w :: 'a::len word)"
  by (rule bit_word_eqI) (auto simp: bit_set_lane16 bit_lane16 dest: bit_imp_le_length)

lemma word64_eq_lanes:
  assumes "lane16 0 v = lane16 0 w" "lane16 1 v = lane16 1 w"
    and "lane16 2 v = lane16 2 w" "lane16 3 v = lane16 3 w"
  shows "v = (w :: u64)"
proof (rule bit_word_eqI)
  fix n assume n: "n < LENGTH(64)"
  have lane: "bit v n = bit w n" if "lane16 i v = lane16 i w" "16 * i \<le> n" "n < 16 * i + 16" for i
  proof -
    from that(1) have "bit (lane16 i v) (n - 16 * i) = bit (lane16 i w) (n - 16 * i)" by simp
    with that(2,3) show ?thesis by (simp add: bit_lane16 less_diff_conv2)
  qed
  consider "n < 16" | "16 \<le> n" "n < 32" | "32 \<le> n" "n < 48" | "48 \<le> n" "n < 64"
    using n by force
  then show "bit v n = bit w n"
    by cases (use lane [of 0] lane [of 1] lane [of 2] lane [of 3] assms in auto)
qed

end
