(* ===== verification/DSP_Tables.thy ===== *)
theory DSP_Tables
  imports Prelude
begin

text \<open>
  The opcode tables of \<^verbatim>\<open>Core/DSP/DSPTables.h\<close> and \<^verbatim>\<open>Core/DSP/DSPTables.cpp\<close>:
  the rows \<^verbatim>\<open>DSPOPCTemplate\<close> (aggregate-initialised constants, so a datatype whose
  constructor takes the members in the source's order), the master table \<open>s_opcodes\<close>, the
  table \<open>s_opcodes_ext\<close> of extension opcodes, the fallback row \<open>cw\<close>, and the lookup
  \<open>FindByOpcode\<close> from which \<^verbatim>\<open>InitInstructionTable\<close> fills the 65536-entry table.

  The locale \<open>opcode_table\<close> states what a decoder may rely on: every row's opcode lies inside its
  mask and no two rows accept a common instruction word, so that the order of the rows is
  immaterial.
\<close>

section \<open>Rows\<close>

datatype partype_t =
    P_NONE | P_VAL | P_IMM | P_MEM | P_STR | P_ADDR_I | P_ADDR_D
  | P_REG | P_REG04 | P_REG08 | P_REG18 | P_REGM18 | P_REG19 | P_REGM19 | P_REG1A
  | P_ACCL | P_REG1C | P_ACCM | P_ACCM_D | P_ACC | P_ACC_D | P_AX | P_REF | P_PRG

datatype param2_t =
  Param (par_type: partype_t) (par_size: nat) (par_loc: nat) (par_lshift: int) (par_mask: u16)

datatype DSPOPCTemplate =
  Template (tname: string) (opcode: u16) (opcode_mask: u16) (tsize: nat) (param_count: nat)
    (params: "param2_t list") (extended: bool) (branch: bool) (uncond_branch: bool)
    (reads_pc: bool) (updates_sr: bool)

section \<open>The tables\<close>

definition s_opcodes_ret :: "DSPOPCTemplate list" where
  "s_opcodes_ret =
    [Template ''NOP'' 0x0000 0xfffc 1 0 [] False False False False False,
     Template ''DAR'' 0x0004 0xfffc 1 1 [Param P_REG 1 0 0 0x0003] False False False False False,
     Template ''IAR'' 0x0008 0xfffc 1 1 [Param P_REG 1 0 0 0x0003] False False False False False,
     Template ''SUBARN'' 0x000c 0xfffc 1 1 [Param P_REG 1 0 0 0x0003] False False False False False,
     Template ''ADDARN'' 0x0010 0xfff0 1 2 [Param P_REG 1 0 0 0x0003, Param P_REG04 1 0 2 0x000c] False False False False False,
     Template ''HALT'' 0x0021 0xffff 1 0 [] False True True False False,
     Template ''RETGE'' 0x02d0 0xffff 1 0 [] False True False True False,
     Template ''RETL'' 0x02d1 0xffff 1 0 [] False True False True False,
     Template ''RETG'' 0x02d2 0xffff 1 0 [] False True False True False,
     Template ''RETLE'' 0x02d3 0xffff 1 0 [] False True False True False,
     Template ''RETNZ'' 0x02d4 0xffff 1 0 [] False True False True False,
     Template ''RETZ'' 0x02d5 0xffff 1 0 [] False True False True False,
     Template ''RETNC'' 0x02d6 0xffff 1 0 [] False True False True False,
     Template ''RETC'' 0x02d7 0xffff 1 0 [] False True False True False,
     Template ''RETx8'' 0x02d8 0xffff 1 0 [] False True False True False,
     Template ''RETx9'' 0x02d9 0xffff 1 0 [] False True False True False,
     Template ''RETxA'' 0x02da 0xffff 1 0 [] False True False True False,
     Template ''RETxB'' 0x02db 0xffff 1 0 [] False True False True False,
     Template ''RETLNZ'' 0x02dc 0xffff 1 0 [] False True False True False,
     Template ''RETLZ'' 0x02dd 0xffff 1 0 [] False True False True False,
     Template ''RETO'' 0x02de 0xffff 1 0 [] False True False True False,
     Template ''RET'' 0x02df 0xffff 1 0 [] False True True False False,
     Template ''RTI'' 0x02ff 0xffff 1 0 [] False True True False False]"

definition s_opcodes_call_if :: "DSPOPCTemplate list" where
  "s_opcodes_call_if =
    [Template ''CALLGE'' 0x02b0 0xffff 2 1 [Param P_ADDR_I 2 1 0 0xffff] False True False True False,
     Template ''CALLL'' 0x02b1 0xffff 2 1 [Param P_ADDR_I 2 1 0 0xffff] False True False True False,
     Template ''CALLG'' 0x02b2 0xffff 2 1 [Param P_ADDR_I 2 1 0 0xffff] False True False True False,
     Template ''CALLLE'' 0x02b3 0xffff 2 1 [Param P_ADDR_I 2 1 0 0xffff] False True False True False,
     Template ''CALLNZ'' 0x02b4 0xffff 2 1 [Param P_ADDR_I 2 1 0 0xffff] False True False True False,
     Template ''CALLZ'' 0x02b5 0xffff 2 1 [Param P_ADDR_I 2 1 0 0xffff] False True False True False,
     Template ''CALLNC'' 0x02b6 0xffff 2 1 [Param P_ADDR_I 2 1 0 0xffff] False True False True False,
     Template ''CALLC'' 0x02b7 0xffff 2 1 [Param P_ADDR_I 2 1 0 0xffff] False True False True False,
     Template ''CALLx8'' 0x02b8 0xffff 2 1 [Param P_ADDR_I 2 1 0 0xffff] False True False True False,
     Template ''CALLx9'' 0x02b9 0xffff 2 1 [Param P_ADDR_I 2 1 0 0xffff] False True False True False,
     Template ''CALLxA'' 0x02ba 0xffff 2 1 [Param P_ADDR_I 2 1 0 0xffff] False True False True False,
     Template ''CALLxB'' 0x02bb 0xffff 2 1 [Param P_ADDR_I 2 1 0 0xffff] False True False True False,
     Template ''CALLLNZ'' 0x02bc 0xffff 2 1 [Param P_ADDR_I 2 1 0 0xffff] False True False True False,
     Template ''CALLLZ'' 0x02bd 0xffff 2 1 [Param P_ADDR_I 2 1 0 0xffff] False True False True False,
     Template ''CALLO'' 0x02be 0xffff 2 1 [Param P_ADDR_I 2 1 0 0xffff] False True False True False,
     Template ''CALL'' 0x02bf 0xffff 2 1 [Param P_ADDR_I 2 1 0 0xffff] False True True True False,
     Template ''IFGE'' 0x0270 0xffff 1 0 [] False True False True False,
     Template ''IFL'' 0x0271 0xffff 1 0 [] False True False True False,
     Template ''IFG'' 0x0272 0xffff 1 0 [] False True False True False,
     Template ''IFLE'' 0x0273 0xffff 1 0 [] False True False True False,
     Template ''IFNZ'' 0x0274 0xffff 1 0 [] False True False True False,
     Template ''IFZ'' 0x0275 0xffff 1 0 [] False True False True False,
     Template ''IFNC'' 0x0276 0xffff 1 0 [] False True False True False,
     Template ''IFC'' 0x0277 0xffff 1 0 [] False True False True False,
     Template ''IFx8'' 0x0278 0xffff 1 0 [] False True False True False,
     Template ''IFx9'' 0x0279 0xffff 1 0 [] False True False True False,
     Template ''IFxA'' 0x027a 0xffff 1 0 [] False True False True False,
     Template ''IFxB'' 0x027b 0xffff 1 0 [] False True False True False,
     Template ''IFLNZ'' 0x027c 0xffff 1 0 [] False True False True False,
     Template ''IFLZ'' 0x027d 0xffff 1 0 [] False True False True False,
     Template ''IFO'' 0x027e 0xffff 1 0 [] False True False True False,
     Template ''IF'' 0x027f 0xffff 1 0 [] False True True True False]"

definition s_opcodes_jump :: "DSPOPCTemplate list" where
  "s_opcodes_jump =
    [Template ''JGE'' 0x0290 0xffff 2 1 [Param P_ADDR_I 2 1 0 0xffff] False True False True False,
     Template ''JL'' 0x0291 0xffff 2 1 [Param P_ADDR_I 2 1 0 0xffff] False True False True False,
     Template ''JG'' 0x0292 0xffff 2 1 [Param P_ADDR_I 2 1 0 0xffff] False True False True False,
     Template ''JLE'' 0x0293 0xffff 2 1 [Param P_ADDR_I 2 1 0 0xffff] False True False True False,
     Template ''JNZ'' 0x0294 0xffff 2 1 [Param P_ADDR_I 2 1 0 0xffff] False True False True False,
     Template ''JZ'' 0x0295 0xffff 2 1 [Param P_ADDR_I 2 1 0 0xffff] False True False True False,
     Template ''JNC'' 0x0296 0xffff 2 1 [Param P_ADDR_I 2 1 0 0xffff] False True False True False,
     Template ''JC'' 0x0297 0xffff 2 1 [Param P_ADDR_I 2 1 0 0xffff] False True False True False,
     Template ''JMPx8'' 0x0298 0xffff 2 1 [Param P_ADDR_I 2 1 0 0xffff] False True False True False,
     Template ''JMPx9'' 0x0299 0xffff 2 1 [Param P_ADDR_I 2 1 0 0xffff] False True False True False,
     Template ''JMPxA'' 0x029a 0xffff 2 1 [Param P_ADDR_I 2 1 0 0xffff] False True False True False,
     Template ''JMPxB'' 0x029b 0xffff 2 1 [Param P_ADDR_I 2 1 0 0xffff] False True False True False,
     Template ''JLNZ'' 0x029c 0xffff 2 1 [Param P_ADDR_I 2 1 0 0xffff] False True False True False,
     Template ''JLZ'' 0x029d 0xffff 2 1 [Param P_ADDR_I 2 1 0 0xffff] False True False True False,
     Template ''JO'' 0x029e 0xffff 2 1 [Param P_ADDR_I 2 1 0 0xffff] False True False True False,
     Template ''JMP'' 0x029f 0xffff 2 1 [Param P_ADDR_I 2 1 0 0xffff] False True True True False,
     Template ''JRGE'' 0x1700 0xff1f 1 1 [Param P_REG 1 0 5 0x00e0] False True False False False,
     Template ''JRL'' 0x1701 0xff1f 1 1 [Param P_REG 1 0 5 0x00e0] False True False False False,
     Template ''JRG'' 0x1702 0xff1f 1 1 [Param P_REG 1 0 5 0x00e0] False True False False False,
     Template ''JRLE'' 0x1703 0xff1f 1 1 [Param P_REG 1 0 5 0x00e0] False True False False False,
     Template ''JRNZ'' 0x1704 0xff1f 1 1 [Param P_REG 1 0 5 0x00e0] False True False False False,
     Template ''JRZ'' 0x1705 0xff1f 1 1 [Param P_REG 1 0 5 0x00e0] False True False False False,
     Template ''JRNC'' 0x1706 0xff1f 1 1 [Param P_REG 1 0 5 0x00e0] False True False False False,
     Template ''JRC'' 0x1707 0xff1f 1 1 [Param P_REG 1 0 5 0x00e0] False True False False False,
     Template ''JMPRx8'' 0x1708 0xff1f 1 1 [Param P_REG 1 0 5 0x00e0] False True False False False,
     Template ''JMPRx9'' 0x1709 0xff1f 1 1 [Param P_REG 1 0 5 0x00e0] False True False False False,
     Template ''JMPRxA'' 0x170a 0xff1f 1 1 [Param P_REG 1 0 5 0x00e0] False True False False False,
     Template ''JMPRxB'' 0x170b 0xff1f 1 1 [Param P_REG 1 0 5 0x00e0] False True False False False,
     Template ''JRLNZ'' 0x170c 0xff1f 1 1 [Param P_REG 1 0 5 0x00e0] False True False False False,
     Template ''JRLZ'' 0x170d 0xff1f 1 1 [Param P_REG 1 0 5 0x00e0] False True False False False,
     Template ''JRO'' 0x170e 0xff1f 1 1 [Param P_REG 1 0 5 0x00e0] False True False False False,
     Template ''JMPR'' 0x170f 0xff1f 1 1 [Param P_REG 1 0 5 0x00e0] False True True False False,
     Template ''CALLRGE'' 0x1710 0xff1f 1 1 [Param P_REG 1 0 5 0x00e0] False True False True False,
     Template ''CALLRL'' 0x1711 0xff1f 1 1 [Param P_REG 1 0 5 0x00e0] False True False True False,
     Template ''CALLRG'' 0x1712 0xff1f 1 1 [Param P_REG 1 0 5 0x00e0] False True False True False,
     Template ''CALLRLE'' 0x1713 0xff1f 1 1 [Param P_REG 1 0 5 0x00e0] False True False True False,
     Template ''CALLRNZ'' 0x1714 0xff1f 1 1 [Param P_REG 1 0 5 0x00e0] False True False True False,
     Template ''CALLRZ'' 0x1715 0xff1f 1 1 [Param P_REG 1 0 5 0x00e0] False True False True False,
     Template ''CALLRNC'' 0x1716 0xff1f 1 1 [Param P_REG 1 0 5 0x00e0] False True False True False,
     Template ''CALLRC'' 0x1717 0xff1f 1 1 [Param P_REG 1 0 5 0x00e0] False True False True False,
     Template ''CALLRx8'' 0x1718 0xff1f 1 1 [Param P_REG 1 0 5 0x00e0] False True False True False,
     Template ''CALLRx9'' 0x1719 0xff1f 1 1 [Param P_REG 1 0 5 0x00e0] False True False True False,
     Template ''CALLRxA'' 0x171a 0xff1f 1 1 [Param P_REG 1 0 5 0x00e0] False True False True False,
     Template ''CALLRxB'' 0x171b 0xff1f 1 1 [Param P_REG 1 0 5 0x00e0] False True False True False,
     Template ''CALLRLNZ'' 0x171c 0xff1f 1 1 [Param P_REG 1 0 5 0x00e0] False True False True False,
     Template ''CALLRLZ'' 0x171d 0xff1f 1 1 [Param P_REG 1 0 5 0x00e0] False True False True False,
     Template ''CALLRO'' 0x171e 0xff1f 1 1 [Param P_REG 1 0 5 0x00e0] False True False True False,
     Template ''CALLR'' 0x171f 0xff1f 1 1 [Param P_REG 1 0 5 0x00e0] False True True True False]"

definition s_opcodes_short :: "DSPOPCTemplate list" where
  "s_opcodes_short =
    [Template ''SBCLR'' 0x1200 0xff00 1 1 [Param P_IMM 1 0 0 0x0007] False False False False False,
     Template ''SBSET'' 0x1300 0xff00 1 1 [Param P_IMM 1 0 0 0x0007] False False False False False,
     Template ''LSL'' 0x1400 0xfec0 1 2 [Param P_ACC 1 0 8 0x0100, Param P_IMM 1 0 0 0x003f] False False False False True,
     Template ''LSR'' 0x1440 0xfec0 1 2 [Param P_ACC 1 0 8 0x0100, Param P_IMM 1 0 0 0x003f] False False False False True,
     Template ''ASL'' 0x1480 0xfec0 1 2 [Param P_ACC 1 0 8 0x0100, Param P_IMM 1 0 0 0x003f] False False False False True,
     Template ''ASR'' 0x14c0 0xfec0 1 2 [Param P_ACC 1 0 8 0x0100, Param P_IMM 1 0 0 0x003f] False False False False True,
     Template ''LSRN'' 0x02ca 0xffff 1 0 [] False False False False True,
     Template ''ASRN'' 0x02cb 0xffff 1 0 [] False False False False True,
     Template ''LRI'' 0x0080 0xffe0 2 2 [Param P_REG 1 0 0 0x001f, Param P_IMM 2 1 0 0xffff] False False False True False,
     Template ''LR'' 0x00c0 0xffe0 2 2 [Param P_REG 1 0 0 0x001f, Param P_MEM 2 1 0 0xffff] False False False True False,
     Template ''SR'' 0x00e0 0xffe0 2 2 [Param P_MEM 2 1 0 0xffff, Param P_REG 1 0 0 0x001f] False False False True False,
     Template ''MRR'' 0x1c00 0xfc00 1 2 [Param P_REG 1 0 5 0x03e0, Param P_REG 1 0 0 0x001f] False False False False False,
     Template ''SI'' 0x1600 0xff00 2 2 [Param P_MEM 1 0 0 0x00ff, Param P_IMM 2 1 0 0xffff] False False False True False,
     Template ''ADDIS'' 0x0400 0xfe00 1 2 [Param P_ACCM 1 0 8 0x0100, Param P_IMM 1 0 0 0x00ff] False False False False True,
     Template ''CMPIS'' 0x0600 0xfe00 1 2 [Param P_ACCM 1 0 8 0x0100, Param P_IMM 1 0 0 0x00ff] False False False False True,
     Template ''LRIS'' 0x0800 0xf800 1 2 [Param P_REG18 1 0 8 0x0700, Param P_IMM 1 0 0 0x00ff] False False False False True,
     Template ''ADDI'' 0x0200 0xfeff 2 2 [Param P_ACCM 1 0 8 0x0100, Param P_IMM 2 1 0 0xffff] False False False True True,
     Template ''XORI'' 0x0220 0xfeff 2 2 [Param P_ACCM 1 0 8 0x0100, Param P_IMM 2 1 0 0xffff] False False False True True,
     Template ''ANDI'' 0x0240 0xfeff 2 2 [Param P_ACCM 1 0 8 0x0100, Param P_IMM 2 1 0 0xffff] False False False True True,
     Template ''ORI'' 0x0260 0xfeff 2 2 [Param P_ACCM 1 0 8 0x0100, Param P_IMM 2 1 0 0xffff] False False False True True,
     Template ''CMPI'' 0x0280 0xfeff 2 2 [Param P_ACCM 1 0 8 0x0100, Param P_IMM 2 1 0 0xffff] False False False True True,
     Template ''ANDF'' 0x02a0 0xfeff 2 2 [Param P_ACCM 1 0 8 0x0100, Param P_IMM 2 1 0 0xffff] False False False True True,
     Template ''ANDCF'' 0x02c0 0xfeff 2 2 [Param P_ACCM 1 0 8 0x0100, Param P_IMM 2 1 0 0xffff] False False False True True,
     Template ''ILRR'' 0x0210 0xfefc 1 2 [Param P_ACCM 1 0 8 0x0100, Param P_PRG 1 0 0 0x0003] False False False False False,
     Template ''ILRRD'' 0x0214 0xfefc 1 2 [Param P_ACCM 1 0 8 0x0100, Param P_PRG 1 0 0 0x0003] False False False False False,
     Template ''ILRRI'' 0x0218 0xfefc 1 2 [Param P_ACCM 1 0 8 0x0100, Param P_PRG 1 0 0 0x0003] False False False False False,
     Template ''ILRRN'' 0x021c 0xfefc 1 2 [Param P_ACCM 1 0 8 0x0100, Param P_PRG 1 0 0 0x0003] False False False False False,
     Template ''LOOP'' 0x0040 0xffe0 1 1 [Param P_REG 1 0 0 0x001f] False True True True False,
     Template ''BLOOP'' 0x0060 0xffe0 2 2 [Param P_REG 1 0 0 0x001f, Param P_ADDR_I 2 1 0 0xffff] False True True True False,
     Template ''LOOPI'' 0x1000 0xff00 1 1 [Param P_IMM 1 0 0 0x00ff] False True True True False,
     Template ''BLOOPI'' 0x1100 0xff00 2 2 [Param P_IMM 1 0 0 0x00ff, Param P_ADDR_I 2 1 0 0xffff] False True True True False,
     Template ''LRR'' 0x1800 0xff80 1 2 [Param P_REG 1 0 0 0x001f, Param P_PRG 1 0 5 0x0060] False False False False False,
     Template ''LRRD'' 0x1880 0xff80 1 2 [Param P_REG 1 0 0 0x001f, Param P_PRG 1 0 5 0x0060] False False False False False,
     Template ''LRRI'' 0x1900 0xff80 1 2 [Param P_REG 1 0 0 0x001f, Param P_PRG 1 0 5 0x0060] False False False False False,
     Template ''LRRN'' 0x1980 0xff80 1 2 [Param P_REG 1 0 0 0x001f, Param P_PRG 1 0 5 0x0060] False False False False False,
     Template ''SRR'' 0x1a00 0xff80 1 2 [Param P_PRG 1 0 5 0x0060, Param P_REG 1 0 0 0x001f] False False False False False,
     Template ''SRRD'' 0x1a80 0xff80 1 2 [Param P_PRG 1 0 5 0x0060, Param P_REG 1 0 0 0x001f] False False False False False,
     Template ''SRRI'' 0x1b00 0xff80 1 2 [Param P_PRG 1 0 5 0x0060, Param P_REG 1 0 0 0x001f] False False False False False,
     Template ''SRRN'' 0x1b80 0xff80 1 2 [Param P_PRG 1 0 5 0x0060, Param P_REG 1 0 0 0x001f] False False False False False,
     Template ''LRS'' 0x2000 0xf800 1 2 [Param P_REG18 1 0 8 0x0700, Param P_MEM 1 0 0 0x00ff] False False False False False,
     Template ''SRS'' 0x2800 0xf800 1 2 [Param P_MEM 1 0 0 0x00ff, Param P_REG18 1 0 8 0x0700] False False False False False]"

definition s_opcodes_ext_34567 :: "DSPOPCTemplate list" where
  "s_opcodes_ext_34567 =
    [Template ''XORR'' 0x3000 0xfc80 1 2 [Param P_ACCM 1 0 8 0x0100, Param P_REG1A 1 0 9 0x0200] True False False False True,
     Template ''ANDR'' 0x3400 0xfc80 1 2 [Param P_ACCM 1 0 8 0x0100, Param P_REG1A 1 0 9 0x0200] True False False False True,
     Template ''ORR'' 0x3800 0xfc80 1 2 [Param P_ACCM 1 0 8 0x0100, Param P_REG1A 1 0 9 0x0200] True False False False True,
     Template ''ANDC'' 0x3c00 0xfe80 1 2 [Param P_ACCM 1 0 8 0x0100, Param P_ACCM_D 1 0 8 0x0100] True False False False True,
     Template ''ORC'' 0x3e00 0xfe80 1 2 [Param P_ACCM 1 0 8 0x0100, Param P_ACCM_D 1 0 8 0x0100] True False False False True,
     Template ''XORC'' 0x3080 0xfe80 1 2 [Param P_ACCM 1 0 8 0x0100, Param P_ACCM_D 1 0 8 0x0100] True False False False True,
     Template ''NOT'' 0x3280 0xfe80 1 1 [Param P_ACCM 1 0 8 0x0100] True False False False True,
     Template ''LSRNRX'' 0x3480 0xfc80 1 2 [Param P_ACC 1 0 8 0x0100, Param P_REG1A 1 0 9 0x0200] True False False False True,
     Template ''ASRNRX'' 0x3880 0xfc80 1 2 [Param P_ACC 1 0 8 0x0100, Param P_REG1A 1 0 9 0x0200] True False False False True,
     Template ''LSRNR'' 0x3c80 0xfe80 1 2 [Param P_ACC 1 0 8 0x0100, Param P_ACCM_D 1 0 8 0x0100] True False False False True,
     Template ''ASRNR'' 0x3e80 0xfe80 1 2 [Param P_ACC 1 0 8 0x0100, Param P_ACCM_D 1 0 8 0x0100] True False False False True,
     Template ''ADDR'' 0x4000 0xf800 1 2 [Param P_ACC 1 0 8 0x0100, Param P_REG18 1 0 9 0x0600] True False False False True,
     Template ''ADDAX'' 0x4800 0xfc00 1 2 [Param P_ACC 1 0 8 0x0100, Param P_AX 1 0 9 0x0200] True False False False True,
     Template ''ADD'' 0x4c00 0xfe00 1 2 [Param P_ACC 1 0 8 0x0100, Param P_ACC_D 1 0 8 0x0100] True False False False True,
     Template ''ADDP'' 0x4e00 0xfe00 1 1 [Param P_ACC 1 0 8 0x0100] True False False False True,
     Template ''SUBR'' 0x5000 0xf800 1 2 [Param P_ACC 1 0 8 0x0100, Param P_REG18 1 0 9 0x0600] True False False False True,
     Template ''SUBAX'' 0x5800 0xfc00 1 2 [Param P_ACC 1 0 8 0x0100, Param P_AX 1 0 9 0x0200] True False False False True,
     Template ''SUB'' 0x5c00 0xfe00 1 2 [Param P_ACC 1 0 8 0x0100, Param P_ACC_D 1 0 8 0x0100] True False False False True,
     Template ''SUBP'' 0x5e00 0xfe00 1 1 [Param P_ACC 1 0 8 0x0100] True False False False True,
     Template ''MOVR'' 0x6000 0xf800 1 2 [Param P_ACC 1 0 8 0x0100, Param P_REG18 1 0 9 0x0600] True False False False True,
     Template ''MOVAX'' 0x6800 0xfc00 1 2 [Param P_ACC 1 0 8 0x0100, Param P_AX 1 0 9 0x0200] True False False False True,
     Template ''MOV'' 0x6c00 0xfe00 1 2 [Param P_ACC 1 0 8 0x0100, Param P_ACC_D 1 0 8 0x0100] True False False False True,
     Template ''MOVP'' 0x6e00 0xfe00 1 1 [Param P_ACC 1 0 8 0x0100] True False False False True,
     Template ''ADDAXL'' 0x7000 0xfc00 1 2 [Param P_ACC 1 0 8 0x0100, Param P_REG18 1 0 9 0x0200] True False False False True,
     Template ''INCM'' 0x7400 0xfe00 1 1 [Param P_ACCM 1 0 8 0x0100] True False False False True,
     Template ''INC'' 0x7600 0xfe00 1 1 [Param P_ACC 1 0 8 0x0100] True False False False True,
     Template ''DECM'' 0x7800 0xfe00 1 1 [Param P_ACCM 1 0 8 0x0100] True False False False True,
     Template ''DEC'' 0x7a00 0xfe00 1 1 [Param P_ACC 1 0 8 0x0100] True False False False True,
     Template ''NEG'' 0x7c00 0xfe00 1 1 [Param P_ACC 1 0 8 0x0100] True False False False True,
     Template ''MOVNP'' 0x7e00 0xfe00 1 1 [Param P_ACC 1 0 8 0x0100] True False False False True]"

definition s_opcodes_ext_89abcdef :: "DSPOPCTemplate list" where
  "s_opcodes_ext_89abcdef =
    [Template ''NX'' 0x8000 0xf700 1 0 [] True False False False False,
     Template ''CLR'' 0x8100 0xf700 1 1 [Param P_ACC 1 0 11 0x0800] True False False False True,
     Template ''CMP'' 0x8200 0xff00 1 0 [] True False False False True,
     Template ''MULAXH'' 0x8300 0xff00 1 0 [] True False False False True,
     Template ''CLRP'' 0x8400 0xff00 1 0 [] True False False False True,
     Template ''TSTPROD'' 0x8500 0xff00 1 0 [] True False False False True,
     Template ''TSTAXH'' 0x8600 0xfe00 1 1 [Param P_REG1A 1 0 8 0x0100] True False False False True,
     Template ''M2'' 0x8a00 0xff00 1 0 [] True False False False False,
     Template ''M0'' 0x8b00 0xff00 1 0 [] True False False False False,
     Template ''CLR15'' 0x8c00 0xff00 1 0 [] True False False False False,
     Template ''SET15'' 0x8d00 0xff00 1 0 [] True False False False False,
     Template ''SET16'' 0x8e00 0xff00 1 0 [] True False False False False,
     Template ''SET40'' 0x8f00 0xff00 1 0 [] True False False False False,
     Template ''MUL'' 0x9000 0xf700 1 2 [Param P_REG18 1 0 11 0x0800, Param P_REG1A 1 0 11 0x0800] True False False False True,
     Template ''ASR16'' 0x9100 0xf700 1 1 [Param P_ACC 1 0 11 0x0800] True False False False True,
     Template ''MULMVZ'' 0x9200 0xf600 1 3 [Param P_REG18 1 0 11 0x0800, Param P_REG1A 1 0 11 0x0800, Param P_ACC 1 0 8 0x0100] True False False False True,
     Template ''MULAC'' 0x9400 0xf600 1 3 [Param P_REG18 1 0 11 0x0800, Param P_REG1A 1 0 11 0x0800, Param P_ACC 1 0 8 0x0100] True False False False True,
     Template ''MULMV'' 0x9600 0xf600 1 3 [Param P_REG18 1 0 11 0x0800, Param P_REG1A 1 0 11 0x0800, Param P_ACC 1 0 8 0x0100] True False False False True,
     Template ''MULX'' 0xa000 0xe700 1 2 [Param P_REGM18 1 0 11 0x1000, Param P_REGM19 1 0 10 0x0800] True False False False True,
     Template ''ABS'' 0xa100 0xf700 1 1 [Param P_ACC 1 0 11 0x0800] True False False False True,
     Template ''MULXMVZ'' 0xa200 0xe600 1 3 [Param P_REGM18 1 0 11 0x1000, Param P_REGM19 1 0 10 0x0800, Param P_ACC 1 0 8 0x0100] True False False False True,
     Template ''MULXAC'' 0xa400 0xe600 1 3 [Param P_REGM18 1 0 11 0x1000, Param P_REGM19 1 0 10 0x0800, Param P_ACC 1 0 8 0x0100] True False False False True,
     Template ''MULXMV'' 0xa600 0xe600 1 3 [Param P_REGM18 1 0 11 0x1000, Param P_REGM19 1 0 10 0x0800, Param P_ACC 1 0 8 0x0100] True False False False True,
     Template ''TST'' 0xb100 0xf700 1 1 [Param P_ACC 1 0 11 0x0800] True False False False True,
     Template ''MULC'' 0xc000 0xe700 1 2 [Param P_ACCM 1 0 12 0x1000, Param P_REG1A 1 0 11 0x0800] True False False False True,
     Template ''CMPAR'' 0xc100 0xe700 1 2 [Param P_ACC 1 0 11 0x0800, Param P_REG1A 1 0 12 0x1000] True False False False True,
     Template ''MULCMVZ'' 0xc200 0xe600 1 3 [Param P_ACCM 1 0 12 0x1000, Param P_REG1A 1 0 11 0x0800, Param P_ACC 1 0 8 0x0100] True False False False True,
     Template ''MULCAC'' 0xc400 0xe600 1 3 [Param P_ACCM 1 0 12 0x1000, Param P_REG1A 1 0 11 0x0800, Param P_ACC 1 0 8 0x0100] True False False False True,
     Template ''MULCMV'' 0xc600 0xe600 1 3 [Param P_ACCM 1 0 12 0x1000, Param P_REG1A 1 0 11 0x0800, Param P_ACC 1 0 8 0x0100] True False False False True,
     Template ''MADDX'' 0xe000 0xfc00 1 2 [Param P_REGM18 1 0 8 0x0200, Param P_REGM19 1 0 7 0x0100] True False False False True,
     Template ''MSUBX'' 0xe400 0xfc00 1 2 [Param P_REGM18 1 0 8 0x0200, Param P_REGM19 1 0 7 0x0100] True False False False True,
     Template ''MADDC'' 0xe800 0xfc00 1 2 [Param P_ACCM 1 0 9 0x0200, Param P_REG19 1 0 7 0x0100] True False False False True,
     Template ''MSUBC'' 0xec00 0xfc00 1 2 [Param P_ACCM 1 0 9 0x0200, Param P_REG19 1 0 7 0x0100] True False False False True,
     Template ''LSL16'' 0xf000 0xfe00 1 1 [Param P_ACC 1 0 8 0x0100] True False False False True,
     Template ''MADD'' 0xf200 0xfe00 1 2 [Param P_REG18 1 0 8 0x0100, Param P_REG1A 1 0 8 0x0100] True False False False True,
     Template ''LSR16'' 0xf400 0xfe00 1 1 [Param P_ACC 1 0 8 0x0100] True False False False True,
     Template ''MSUB'' 0xf600 0xfe00 1 2 [Param P_REG18 1 0 8 0x0100, Param P_REG1A 1 0 8 0x0100] True False False False True,
     Template ''ADDPAXZ'' 0xf800 0xfc00 1 2 [Param P_ACC 1 0 9 0x0200, Param P_AX 1 0 8 0x0100] True False False False True,
     Template ''CLRL'' 0xfc00 0xfe00 1 1 [Param P_ACCL 1 0 11 0x0800] True False False False True,
     Template ''MOVPZ'' 0xfe00 0xfe00 1 1 [Param P_ACC 1 0 8 0x0100] True False False False True]"

definition s_opcodes :: "DSPOPCTemplate list" where
  "s_opcodes = s_opcodes_ret @ s_opcodes_call_if @ s_opcodes_jump @ s_opcodes_short @
     s_opcodes_ext_34567 @ s_opcodes_ext_89abcdef"

definition cw :: DSPOPCTemplate where
  "cw = Template ''CW'' 0x0000 0x0000 1 1 [Param P_VAL 2 0 0 0xffff] False False False False False"

definition s_opcodes_ext :: "DSPOPCTemplate list" where
  "s_opcodes_ext =
    [Template ''XXX'' 0x0000 0x00fc 1 1 [Param P_VAL 1 0 0 0x00ff] False False False False False,
     Template ''DR'' 0x0004 0x00fc 1 1 [Param P_REG 1 0 0 0x0003] False False False False False,
     Template ''IR'' 0x0008 0x00fc 1 1 [Param P_REG 1 0 0 0x0003] False False False False False,
     Template ''NR'' 0x000c 0x00fc 1 1 [Param P_REG 1 0 0 0x0003] False False False False False,
     Template ''MV'' 0x0010 0x00f0 1 2 [Param P_REG18 1 0 2 0x000c, Param P_REG1C 1 0 0 0x0003] False False False False False,
     Template ''S'' 0x0020 0x00e4 1 2 [Param P_PRG 1 0 0 0x0003, Param P_REG1C 1 0 3 0x0018] False False False False False,
     Template ''SN'' 0x0024 0x00e4 1 2 [Param P_PRG 1 0 0 0x0003, Param P_REG1C 1 0 3 0x0018] False False False False False,
     Template ''L'' 0x0040 0x00c4 1 2 [Param P_REG18 1 0 3 0x0038, Param P_PRG 1 0 0 0x0003] False False False False False,
     Template ''LN'' 0x0044 0x00c4 1 2 [Param P_REG18 1 0 3 0x0038, Param P_PRG 1 0 0 0x0003] False False False False False,
     Template ''LS'' 0x0080 0x00ce 1 2 [Param P_REG18 1 0 4 0x0030, Param P_ACCM 1 0 0 0x0001] False False False False False,
     Template ''SL'' 0x0082 0x00ce 1 2 [Param P_ACCM 1 0 0 0x0001, Param P_REG18 1 0 4 0x0030] False False False False False,
     Template ''LSN'' 0x0084 0x00ce 1 2 [Param P_REG18 1 0 4 0x0030, Param P_ACCM 1 0 0 0x0001] False False False False False,
     Template ''SLN'' 0x0086 0x00ce 1 2 [Param P_ACCM 1 0 0 0x0001, Param P_REG18 1 0 4 0x0030] False False False False False,
     Template ''LSM'' 0x0088 0x00ce 1 2 [Param P_REG18 1 0 4 0x0030, Param P_ACCM 1 0 0 0x0001] False False False False False,
     Template ''SLM'' 0x008a 0x00ce 1 2 [Param P_ACCM 1 0 0 0x0001, Param P_REG18 1 0 4 0x0030] False False False False False,
     Template ''LSNM'' 0x008c 0x00ce 1 2 [Param P_REG18 1 0 4 0x0030, Param P_ACCM 1 0 0 0x0001] False False False False False,
     Template ''SLNM'' 0x008e 0x00ce 1 2 [Param P_ACCM 1 0 0 0x0001, Param P_REG18 1 0 4 0x0030] False False False False False,
     Template ''LDAX'' 0x00c3 0x00cf 1 2 [Param P_AX 1 0 4 0x0010, Param P_PRG 1 0 5 0x0020] False False False False False,
     Template ''LDAXN'' 0x00c7 0x00cf 1 2 [Param P_AX 1 0 4 0x0010, Param P_PRG 1 0 5 0x0020] False False False False False,
     Template ''LDAXM'' 0x00cb 0x00cf 1 2 [Param P_AX 1 0 4 0x0010, Param P_PRG 1 0 5 0x0020] False False False False False,
     Template ''LDAXNM'' 0x00cf 0x00cf 1 2 [Param P_AX 1 0 4 0x0010, Param P_PRG 1 0 5 0x0020] False False False False False,
     Template ''LD'' 0x00c0 0x00cc 1 3 [Param P_REGM18 1 0 4 0x0020, Param P_REGM19 1 0 3 0x0010, Param P_PRG 1 0 0 0x0003] False False False False False,
     Template ''LDN'' 0x00c4 0x00cc 1 3 [Param P_REGM18 1 0 4 0x0020, Param P_REGM19 1 0 3 0x0010, Param P_PRG 1 0 0 0x0003] False False False False False,
     Template ''LDM'' 0x00c8 0x00cc 1 3 [Param P_REGM18 1 0 4 0x0020, Param P_REGM19 1 0 3 0x0010, Param P_PRG 1 0 0 0x0003] False False False False False,
     Template ''LDNM'' 0x00cc 0x00cc 1 3 [Param P_REGM18 1 0 4 0x0020, Param P_REGM19 1 0 3 0x0010, Param P_PRG 1 0 0 0x0003] False False False False False]"

section \<open>Lookup\<close>

definition FindByOpcode :: "('r \<Rightarrow> u16) \<Rightarrow> ('r \<Rightarrow> u16) \<Rightarrow> UDSPInstruction \<Rightarrow> 'r list \<Rightarrow> 'r option" where
  "FindByOpcode opc msk inst data = find (\<lambda>info. inst AND msk info = opc info) data"

definition FindOpInfoByOpcode :: "UDSPInstruction \<Rightarrow> DSPOPCTemplate option" where
  "FindOpInfoByOpcode inst = FindByOpcode opcode opcode_mask inst s_opcodes"

definition FindExtOpInfoByOpcode :: "UDSPInstruction \<Rightarrow> DSPOPCTemplate option" where
  "FindExtOpInfoByOpcode inst = FindByOpcode opcode opcode_mask inst s_opcodes_ext"

definition FindByName :: "string \<Rightarrow> DSPOPCTemplate list \<Rightarrow> DSPOPCTemplate option" where
  "FindByName nm data = find (\<lambda>info. nm = tname info) data"

definition FindOpInfoByName :: "string \<Rightarrow> DSPOPCTemplate option" where
  "FindOpInfoByName nm = FindByName nm s_opcodes"

definition FindExtOpInfoByName :: "string \<Rightarrow> DSPOPCTemplate option" where
  "FindExtOpInfoByName nm = FindByName nm s_opcodes_ext"

text \<open>
  \<^verbatim>\<open>InitInstructionTable\<close> stores, at every instruction word, the first matching row, or \<open>cw\<close>.
\<close>

definition init_op_table :: "UDSPInstruction \<Rightarrow> DSPOPCTemplate" where
  "init_op_table inst = (case FindOpInfoByOpcode inst of None \<Rightarrow> cw | Some t \<Rightarrow> t)"

definition init_ext_op_table :: "UDSPInstruction \<Rightarrow> DSPOPCTemplate" where
  "init_ext_op_table i = (case FindExtOpInfoByOpcode i of None \<Rightarrow> cw | Some t \<Rightarrow> t)"

section \<open>The decoding contract\<close>

locale opcode_table =
  fixes opc msk :: "'r \<Rightarrow> u16" and tbl :: "'r list"
  assumes within_mask: "r \<in> set tbl \<Longrightarrow> opc r AND msk r = opc r"
    and exclusive: "r \<in> set tbl \<Longrightarrow> r' \<in> set tbl \<Longrightarrow>
      x AND msk r = opc r \<Longrightarrow> x AND msk r' = opc r' \<Longrightarrow> r = r'"
begin

lemma FindByOpcode_unique:
  assumes "r \<in> set tbl" "x AND msk r = opc r"
  shows "FindByOpcode opc msk x tbl = Some r"
proof -
  from assms obtain r' where r': "find (\<lambda>info. x AND msk info = opc info) tbl = Some r'"
    by (metis (mono_tags, lifting) find_None_iff not_Some_eq)
  then have "r' \<in> set tbl" "x AND msk r' = opc r'"
    by (metis (mono_tags, lifting) find_Some_iff nth_mem)+
  with assms have "r' = r" by (blast intro: exclusive)
  with r' show ?thesis by (simp add: FindByOpcode_def)
qed

lemma FindByOpcode_own: "r \<in> set tbl \<Longrightarrow> FindByOpcode opc msk (opc r) tbl = Some r"
  by (rule FindByOpcode_unique) (auto simp: within_mask)

end

section \<open>The master table satisfies it\<close>

text \<open>
  The contract is checked by computation on a decision tree over the bits of the instruction word:
  at bit \<open>n\<close> the rows split into those that accept a clear bit and those that accept a set bit
  (a row whose mask leaves the bit open goes to both sides), and no leaf holds two rows.
\<close>

function tree_ok :: "('r \<Rightarrow> u16) \<Rightarrow> ('r \<Rightarrow> u16) \<Rightarrow> nat \<Rightarrow> 'r list \<Rightarrow> bool" where
  "tree_ok opc msk n [] = True"
| "tree_ok opc msk n [p] = True"
| "tree_ok opc msk 0 (p # q # ps) = False"
| "tree_ok opc msk (Suc n) (p # q # ps) =
     (tree_ok opc msk n (filter (\<lambda>r. bit (msk r) n \<longrightarrow> \<not> bit (opc r) n) (p # q # ps)) \<and>
      tree_ok opc msk n (filter (\<lambda>r. bit (msk r) n \<longrightarrow> bit (opc r) n) (p # q # ps)))"
  by pat_completeness auto
termination
  by (relation "measure (\<lambda>(opc, msk, n, ps). n)") auto

lemma and_eq_bitD: "x AND m = (c :: u16) \<Longrightarrow> bit m n \<Longrightarrow> bit c n = bit x n"
  by (auto simp: bit_and_iff)

lemma tree_ok_exclusive:
  "tree_ok opc msk n rs \<Longrightarrow> r \<in> set rs \<Longrightarrow> r' \<in> set rs \<Longrightarrow>
     x AND msk r = opc r \<Longrightarrow> x AND msk r' = opc r' \<Longrightarrow> r = r'"
proof (induction opc msk n rs rule: tree_ok.induct)
  case (4 opc msk n p q ps)
  define rs where "rs = p # q # ps"
  have mem: "r \<in> set (filter (\<lambda>r. bit (msk r) n \<longrightarrow> bit (opc r) n = bit x n) rs)"
    "r' \<in> set (filter (\<lambda>r. bit (msk r) n \<longrightarrow> bit (opc r) n = bit x n) rs)"
    using "4.prems"(2-5) and_eq_bitD [of x "msk r" "opc r" n] and_eq_bitD [of x "msk r'" "opc r'" n]
    by (auto simp: rs_def)
  show ?case
  proof (cases "bit x n")
    case True
    with mem "4.prems" show ?thesis by (intro "4.IH"(2)) (auto simp: rs_def)
  next
    case False
    with mem "4.prems" show ?thesis by (intro "4.IH"(1)) (auto simp: rs_def)
  qed
qed auto

lemma tree_ok_s_opcodes: "tree_ok opcode opcode_mask 16 s_opcodes"
  by code_simp

lemma within_mask_s_opcodes: "list_all (\<lambda>r. opcode r AND opcode_mask r = opcode r) s_opcodes"
  by code_simp

interpretation main_ops: opcode_table opcode opcode_mask s_opcodes
proof
  fix r assume "r \<in> set s_opcodes"
  with within_mask_s_opcodes show "opcode r AND opcode_mask r = opcode r" by (simp add: list_all_iff)
next
  fix r r' x
  assume "r \<in> set s_opcodes" "r' \<in> set s_opcodes"
    "x AND opcode_mask r = opcode r" "x AND opcode_mask r' = opcode r'"
  with tree_ok_s_opcodes show "r = r'" by (rule tree_ok_exclusive)
qed

lemma tsize_s_opcodes: "list_all (\<lambda>t. tsize t = 1 \<or> tsize t = 2) s_opcodes"
  by code_simp

lemma FindOpInfoByOpcode_mem: "FindOpInfoByOpcode i = Some t \<Longrightarrow> t \<in> set s_opcodes"
  by (auto simp: FindOpInfoByOpcode_def FindByOpcode_def find_Some_iff)

lemma tsize_init_op_table: "tsize (init_op_table i) = 1 \<or> tsize (init_op_table i) = 2"
  using tsize_s_opcodes FindOpInfoByOpcode_mem [of i]
  by (auto simp: init_op_table_def cw_def list_all_iff split: option.split)

lemma init_op_table_row:
  "r \<in> set s_opcodes \<Longrightarrow> inst AND opcode_mask r = opcode r \<Longrightarrow> init_op_table inst = r"
  by (simp add: init_op_table_def FindOpInfoByOpcode_def main_ops.FindByOpcode_unique)

end
