(* ===== verification/DSP_State.thy ===== *)
theory DSP_State
  imports DSP_Tables
begin

text \<open>
  The state of the emulated DSP: the constants and the structs \<^verbatim>\<open>DSP_Regs\<close> and \<^verbatim>\<open>SDSP\<close> of
  \<^verbatim>\<open>Core/DSP/DSPCore.h\<close>, the members of \<^verbatim>\<open>Accelerator\<close> (\<^verbatim>\<open>Core/DSP/DSPAccelerator.h\<close>),
  and the file-level variables the DSP core uses (\<^verbatim>\<open>g_init_hax\<close>, \<^verbatim>\<open>code_flags\<close>,
  \<^verbatim>\<open>writeBackLog\<close>, \<^verbatim>\<open>s_op_table\<close>, \<^verbatim>\<open>s_ARAM\<close>). A member \<^verbatim>\<open>g_dsp.r.x\<close> is the field
  \<open>r_x\<close>, a member \<^verbatim>\<open>g_dsp.x\<close> the field \<open>g_x\<close>; arrays are functions of the index, and every
  index the code uses is computed under a mask.

  The unions \<^verbatim>\<open>ac\<close>, \<^verbatim>\<open>ax\<close> and \<^verbatim>\<open>prod\<close> keep their \<^verbatim>\<open>val\<close> member; the 16-bit members
  \<^verbatim>\<open>l\<close>, \<^verbatim>\<open>m\<close>, \<^verbatim>\<open>h\<close>, \<^verbatim>\<open>m2\<close> are lanes of it (little-endian host).
\<close>

section \<open>Constants\<close>

abbreviation (input) DSP_IRAM_BYTE_SIZE :: nat where "DSP_IRAM_BYTE_SIZE \<equiv> 0x2000"
abbreviation (input) DSP_DRAM_BYTE_SIZE :: nat where "DSP_DRAM_BYTE_SIZE \<equiv> 0x2000"
abbreviation (input) DSP_IRAM_MASK :: u16 where "DSP_IRAM_MASK \<equiv> 0x0fff"
abbreviation (input) DSP_IROM_MASK :: u16 where "DSP_IROM_MASK \<equiv> 0x0fff"
abbreviation (input) DSP_DRAM_MASK :: u16 where "DSP_DRAM_MASK \<equiv> 0x0fff"
abbreviation (input) DSP_COEF_MASK :: u16 where "DSP_COEF_MASK \<equiv> 0x7ff"
abbreviation (input) DSP_RESET_VECTOR :: u16 where "DSP_RESET_VECTOR \<equiv> 0x8000"
abbreviation (input) DSP_STACK_MASK :: u8 where "DSP_STACK_MASK \<equiv> 0x1f"

abbreviation (input) DSP_REG_AR0 :: nat where "DSP_REG_AR0 \<equiv> 0x00"
abbreviation (input) DSP_REG_AR3 :: nat where "DSP_REG_AR3 \<equiv> 0x03"
abbreviation (input) DSP_REG_IX0 :: nat where "DSP_REG_IX0 \<equiv> 0x04"
abbreviation (input) DSP_REG_WR0 :: nat where "DSP_REG_WR0 \<equiv> 0x08"
abbreviation (input) DSP_REG_ST0 :: nat where "DSP_REG_ST0 \<equiv> 0x0c"
abbreviation (input) DSP_REG_ACH0 :: nat where "DSP_REG_ACH0 \<equiv> 0x10"
abbreviation (input) DSP_REG_CR :: nat where "DSP_REG_CR \<equiv> 0x12"
abbreviation (input) DSP_REG_SR :: nat where "DSP_REG_SR \<equiv> 0x13"
abbreviation (input) DSP_REG_PRODL :: nat where "DSP_REG_PRODL \<equiv> 0x14"
abbreviation (input) DSP_REG_PRODM :: nat where "DSP_REG_PRODM \<equiv> 0x15"
abbreviation (input) DSP_REG_PRODH :: nat where "DSP_REG_PRODH \<equiv> 0x16"
abbreviation (input) DSP_REG_PRODM2 :: nat where "DSP_REG_PRODM2 \<equiv> 0x17"
abbreviation (input) DSP_REG_AXL0 :: nat where "DSP_REG_AXL0 \<equiv> 0x18"
abbreviation (input) DSP_REG_AXL1 :: nat where "DSP_REG_AXL1 \<equiv> 0x19"
abbreviation (input) DSP_REG_AXH0 :: nat where "DSP_REG_AXH0 \<equiv> 0x1a"
abbreviation (input) DSP_REG_ACL0 :: nat where "DSP_REG_ACL0 \<equiv> 0x1c"
abbreviation (input) DSP_REG_ACM0 :: nat where "DSP_REG_ACM0 \<equiv> 0x1e"

abbreviation (input) DSP_COEF_A1_0 :: u16 where "DSP_COEF_A1_0 \<equiv> 0xa0"
abbreviation (input) DSP_DSCR :: u16 where "DSP_DSCR \<equiv> 0xc9"
abbreviation (input) DSP_DSPA :: u16 where "DSP_DSPA \<equiv> 0xcd"
abbreviation (input) DSP_DSBL :: u16 where "DSP_DSBL \<equiv> 0xcb"
abbreviation (input) DSP_DSMAH :: u16 where "DSP_DSMAH \<equiv> 0xce"
abbreviation (input) DSP_DSMAL :: u16 where "DSP_DSMAL \<equiv> 0xcf"
abbreviation (input) DSP_FORMAT :: u16 where "DSP_FORMAT \<equiv> 0xd1"
abbreviation (input) DSP_ACDATA1 :: u16 where "DSP_ACDATA1 \<equiv> 0xd3"
abbreviation (input) DSP_ACSAH :: u16 where "DSP_ACSAH \<equiv> 0xd4"
abbreviation (input) DSP_ACSAL :: u16 where "DSP_ACSAL \<equiv> 0xd5"
abbreviation (input) DSP_ACEAH :: u16 where "DSP_ACEAH \<equiv> 0xd6"
abbreviation (input) DSP_ACEAL :: u16 where "DSP_ACEAL \<equiv> 0xd7"
abbreviation (input) DSP_ACCAH :: u16 where "DSP_ACCAH \<equiv> 0xd8"
abbreviation (input) DSP_ACCAL :: u16 where "DSP_ACCAL \<equiv> 0xd9"
abbreviation (input) DSP_PRED_SCALE :: u16 where "DSP_PRED_SCALE \<equiv> 0xda"
abbreviation (input) DSP_YN1 :: u16 where "DSP_YN1 \<equiv> 0xdb"
abbreviation (input) DSP_YN2 :: u16 where "DSP_YN2 \<equiv> 0xdc"
abbreviation (input) DSP_ACCELERATOR :: u16 where "DSP_ACCELERATOR \<equiv> 0xdd"
abbreviation (input) DSP_GAIN :: u16 where "DSP_GAIN \<equiv> 0xde"
abbreviation (input) DSP_AMDM :: u16 where "DSP_AMDM \<equiv> 0xef"
abbreviation (input) DSP_DIRQ :: u16 where "DSP_DIRQ \<equiv> 0xfb"
abbreviation (input) DSP_DMBH :: u16 where "DSP_DMBH \<equiv> 0xfc"
abbreviation (input) DSP_DMBL :: u16 where "DSP_DMBL \<equiv> 0xfd"
abbreviation (input) DSP_CMBH :: u16 where "DSP_CMBH \<equiv> 0xfe"
abbreviation (input) DSP_CMBL :: u16 where "DSP_CMBL \<equiv> 0xff"

abbreviation (input) CR_EXTERNAL_INT :: u16 where "CR_EXTERNAL_INT \<equiv> 0x0002"
abbreviation (input) CR_HALT :: u16 where "CR_HALT \<equiv> 0x0004"

abbreviation (input) SR_CARRY :: u16 where "SR_CARRY \<equiv> 0x0001"
abbreviation (input) SR_OVERFLOW :: u16 where "SR_OVERFLOW \<equiv> 0x0002"
abbreviation (input) SR_ARITH_ZERO :: u16 where "SR_ARITH_ZERO \<equiv> 0x0004"
abbreviation (input) SR_SIGN :: u16 where "SR_SIGN \<equiv> 0x0008"
abbreviation (input) SR_OVER_S32 :: u16 where "SR_OVER_S32 \<equiv> 0x0010"
abbreviation (input) SR_TOP2BITS :: u16 where "SR_TOP2BITS \<equiv> 0x0020"
abbreviation (input) SR_LOGIC_ZERO :: u16 where "SR_LOGIC_ZERO \<equiv> 0x0040"
abbreviation (input) SR_OVERFLOW_STICKY :: u16 where "SR_OVERFLOW_STICKY \<equiv> 0x0080"
abbreviation (input) SR_INT_ENABLE :: u16 where "SR_INT_ENABLE \<equiv> 0x0200"
abbreviation (input) SR_EXT_INT_ENABLE :: u16 where "SR_EXT_INT_ENABLE \<equiv> 0x0800"
abbreviation (input) SR_MUL_MODIFY :: u16 where "SR_MUL_MODIFY \<equiv> 0x2000"
abbreviation (input) SR_40_MODE_BIT :: u16 where "SR_40_MODE_BIT \<equiv> 0x4000"
abbreviation (input) SR_MUL_UNSIGNED :: u16 where "SR_MUL_UNSIGNED \<equiv> 0x8000"
abbreviation (input) SR_CMP_MASK :: u16 where "SR_CMP_MASK \<equiv> 0x3f"

section \<open>Enumerations\<close>

datatype StackRegister = Call | Data | LoopAddress | LoopCounter

text \<open>\<^verbatim>\<open>static_cast<size_t>(stack_reg)\<close>\<close>

fun stack_index :: "StackRegister \<Rightarrow> nat" where
  "stack_index Call = 0"
| "stack_index Data = 1"
| "stack_index LoopAddress = 2"
| "stack_index LoopCounter = 3"

datatype ExceptionType =
    StackOverflow | EXP_2 | EXP_3 | EXP_4 | AcceleratorOverflow | EXP_6 | ExternalInterrupt

text \<open>The enumerators' values.\<close>

fun exception_value :: "ExceptionType \<Rightarrow> nat" where
  "exception_value StackOverflow = 1"
| "exception_value EXP_2 = 2"
| "exception_value EXP_3 = 3"
| "exception_value EXP_4 = 4"
| "exception_value AcceleratorOverflow = 5"
| "exception_value EXP_6 = 6"
| "exception_value ExternalInterrupt = 7"

datatype Mailbox = MAILBOX_CPU | MAILBOX_DSP

datatype CoreState = Stopped | Running | Stepping

text \<open>
  What the core hands to the host: an interrupt scheduled on the PowerPC
  (\<^verbatim>\<open>GenerateDSPInterruptFromDSPEmu\<close>).
\<close>

datatype host_event = ScheduleDSPInterrupt u16

section \<open>Records\<close>

record Accelerator =
  m_start_address :: u32
  m_end_address :: u32
  m_current_address :: u32
  m_sample_format :: u16
  m_yn1 :: u16
  m_yn2 :: u16
  m_pred_scale :: u16
  m_reads_stopped :: bool

record ARAMInfo =
  aram_wii_mode :: bool
  aram_size :: u32
  aram_mask :: u32
  aram_ptr :: "u32 \<Rightarrow> u8"

record DSP_Regs =
  r_ar :: "nat \<Rightarrow> u16"
  r_ix :: "nat \<Rightarrow> u16"
  r_wr :: "nat \<Rightarrow> u16"
  r_st :: "nat \<Rightarrow> u16"
  r_cr :: u16
  r_sr :: u16
  r_prod :: u64
  r_ax :: "nat \<Rightarrow> u32"
  r_ac :: "nat \<Rightarrow> u64"

record SDSP = DSP_Regs +
  g_pc :: u16
  g_cr :: u16
  g_reg_stack_ptr :: "nat \<Rightarrow> u8"
  g_exceptions :: u8
  g_external_interrupt_waiting :: bool
  g_reg_stack :: "nat \<Rightarrow> u8 \<Rightarrow> u16"
  g_iram_crc :: u32
  g_step_counter :: u64
  g_mbox :: "Mailbox \<Rightarrow> u32"
  g_ifx_regs :: "u16 \<Rightarrow> u16"
  g_accelerator :: Accelerator
  g_iram :: "u16 \<Rightarrow> u16"
  g_dram :: "u16 \<Rightarrow> u16"
  g_irom :: "u16 \<Rightarrow> u16"
  g_coef :: "u16 \<Rightarrow> u16"
  g_cpu_ram :: "u32 \<Rightarrow> u8"

record DSP = SDSP +
  g_init_hax :: bool
  code_flags :: "u16 \<Rightarrow> u8"
  writeBackLog :: "nat \<Rightarrow> u16"
  writeBackLogIdx :: "nat \<Rightarrow> int"
  s_op_table :: "UDSPInstruction \<Rightarrow> DSPOPCTemplate option"
  s_tables_initialized :: bool
  s_ARAM :: ARAMInfo
  cpu_bSSSE3 :: bool
  core_state :: CoreState
  host_events :: "host_event list"

section \<open>Members of the register unions\<close>

definition prod_l :: "DSP \<Rightarrow> u16" where "prod_l s = lane16 0 (r_prod s)"
definition prod_m :: "DSP \<Rightarrow> u16" where "prod_m s = lane16 1 (r_prod s)"
definition prod_h :: "DSP \<Rightarrow> u16" where "prod_h s = lane16 2 (r_prod s)"
definition prod_m2 :: "DSP \<Rightarrow> u16" where "prod_m2 s = lane16 3 (r_prod s)"

definition set_prod_l :: "u16 \<Rightarrow> DSP \<Rightarrow> DSP" where
  "set_prod_l v s = s\<lparr>r_prod := set_lane16 0 v (r_prod s)\<rparr>"
definition set_prod_m :: "u16 \<Rightarrow> DSP \<Rightarrow> DSP" where
  "set_prod_m v s = s\<lparr>r_prod := set_lane16 1 v (r_prod s)\<rparr>"
definition set_prod_h :: "u16 \<Rightarrow> DSP \<Rightarrow> DSP" where
  "set_prod_h v s = s\<lparr>r_prod := set_lane16 2 v (r_prod s)\<rparr>"
definition set_prod_m2 :: "u16 \<Rightarrow> DSP \<Rightarrow> DSP" where
  "set_prod_m2 v s = s\<lparr>r_prod := set_lane16 3 v (r_prod s)\<rparr>"

definition ax_l :: "nat \<Rightarrow> DSP \<Rightarrow> u16" where "ax_l i s = lane16 0 (r_ax s i)"
definition ax_h :: "nat \<Rightarrow> DSP \<Rightarrow> u16" where "ax_h i s = lane16 1 (r_ax s i)"

definition set_ax_l :: "nat \<Rightarrow> u16 \<Rightarrow> DSP \<Rightarrow> DSP" where
  "set_ax_l i v s = s\<lparr>r_ax := (r_ax s)(i := set_lane16 0 v (r_ax s i))\<rparr>"
definition set_ax_h :: "nat \<Rightarrow> u16 \<Rightarrow> DSP \<Rightarrow> DSP" where
  "set_ax_h i v s = s\<lparr>r_ax := (r_ax s)(i := set_lane16 1 v (r_ax s i))\<rparr>"

definition ac_l :: "nat \<Rightarrow> DSP \<Rightarrow> u16" where "ac_l i s = lane16 0 (r_ac s i)"
definition ac_m :: "nat \<Rightarrow> DSP \<Rightarrow> u16" where "ac_m i s = lane16 1 (r_ac s i)"
definition ac_h :: "nat \<Rightarrow> DSP \<Rightarrow> u16" where "ac_h i s = lane16 2 (r_ac s i)"

definition set_ac_l :: "nat \<Rightarrow> u16 \<Rightarrow> DSP \<Rightarrow> DSP" where
  "set_ac_l i v s = s\<lparr>r_ac := (r_ac s)(i := set_lane16 0 v (r_ac s i))\<rparr>"
definition set_ac_m :: "nat \<Rightarrow> u16 \<Rightarrow> DSP \<Rightarrow> DSP" where
  "set_ac_m i v s = s\<lparr>r_ac := (r_ac s)(i := set_lane16 1 v (r_ac s i))\<rparr>"
definition set_ac_h :: "nat \<Rightarrow> u16 \<Rightarrow> DSP \<Rightarrow> DSP" where
  "set_ac_h i v s = s\<lparr>r_ac := (r_ac s)(i := set_lane16 2 v (r_ac s i))\<rparr>"

lemmas union_defs =
  prod_l_def prod_m_def prod_h_def prod_m2_def
  set_prod_l_def set_prod_m_def set_prod_h_def set_prod_m2_def
  ax_l_def ax_h_def set_ax_l_def set_ax_h_def
  ac_l_def ac_m_def ac_h_def set_ac_l_def set_ac_m_def set_ac_h_def

section \<open>Initial values used by witnesses\<close>

text \<open>All-zero memory and registers, tables built, wrapping registers at \<open>0xFFFF\<close>.\<close>

definition zero_accelerator :: Accelerator where
  "zero_accelerator = \<lparr>m_start_address = 0, m_end_address = 0, m_current_address = 0,
     m_sample_format = 0, m_yn1 = 0, m_yn2 = 0, m_pred_scale = 0, m_reads_stopped = False\<rparr>"

definition blank_dsp :: DSP where
  "blank_dsp = \<lparr>r_ar = (\<lambda>_. 0), r_ix = (\<lambda>_. 0), r_wr = (\<lambda>_. 0xffff), r_st = (\<lambda>_. 0),
     r_cr = 0, r_sr = 0, r_prod = 0, r_ax = (\<lambda>_. 0), r_ac = (\<lambda>_. 0),
     g_pc = 0, g_cr = 0, g_reg_stack_ptr = (\<lambda>_. 0), g_exceptions = 0,
     g_external_interrupt_waiting = False, g_reg_stack = (\<lambda>_ _. 0), g_iram_crc = 0,
     g_step_counter = 0, g_mbox = (\<lambda>_. 0), g_ifx_regs = (\<lambda>_. 0),
     g_accelerator = zero_accelerator, g_iram = (\<lambda>_. 0), g_dram = (\<lambda>_. 0),
     g_irom = (\<lambda>_. 0), g_coef = (\<lambda>_. 0), g_cpu_ram = (\<lambda>_. 0),
     g_init_hax = False, code_flags = (\<lambda>_. 0), writeBackLog = (\<lambda>_. 0),
     writeBackLogIdx = (\<lambda>_. -1), s_op_table = (\<lambda>i. Some (init_op_table i)),
     s_tables_initialized = True,
     s_ARAM = \<lparr>aram_wii_mode = False, aram_size = 0x1000000, aram_mask = 0xffffff,
       aram_ptr = (\<lambda>_. 0)\<rparr>,
     cpu_bSSSE3 = False, core_state = Running, host_events = []\<rparr>"

end
