(* ===== verification/DSP_Stacks.thy ===== *)
theory DSP_Stacks
  imports DSP_State
begin

text \<open>
  The four hardware stacks of \<^verbatim>\<open>Core/DSP/DSPStacks.cpp\<close>. The top of stack \<open>k\<close> is the register
  \<^verbatim>\<open>st[k]\<close>; below it 32 entries live in a ring indexed by \<^verbatim>\<open>reg_stack_ptr[k]\<close>.

  The locale \<open>hw_stack\<close> is the contract the branch, loop and interrupt code relies on: seen as a
  list of 33 values, a store pushes in front and drops the oldest value, a load returns the front
  and leaves the rest, with the ring repeating its last value at the far end. It is interpreted on
  each of the four stacks.
\<close>

section \<open>Operations\<close>

definition dsp_reg_stack_push :: "nat \<Rightarrow> DSP \<Rightarrow> DSP" where
  "dsp_reg_stack_push stack_reg s =
    (let p = (g_reg_stack_ptr s stack_reg + 1) AND DSP_STACK_MASK
     in s\<lparr>g_reg_stack_ptr := (g_reg_stack_ptr s)(stack_reg := p),
          g_reg_stack := (g_reg_stack s)(stack_reg := (g_reg_stack s stack_reg)(p := r_st s stack_reg))\<rparr>)"

definition dsp_reg_stack_pop :: "nat \<Rightarrow> DSP \<Rightarrow> DSP" where
  "dsp_reg_stack_pop stack_reg s =
    s\<lparr>r_st := (r_st s)(stack_reg := g_reg_stack s stack_reg (g_reg_stack_ptr s stack_reg)),
      g_reg_stack_ptr := (g_reg_stack_ptr s)
        (stack_reg := (g_reg_stack_ptr s stack_reg - 1) AND DSP_STACK_MASK)\<rparr>"

definition dsp_reg_store_stack :: "StackRegister \<Rightarrow> u16 \<Rightarrow> DSP \<Rightarrow> DSP" where
  "dsp_reg_store_stack stack_reg val s =
    (let reg_index = stack_index stack_reg; s1 = dsp_reg_stack_push reg_index s
     in s1\<lparr>r_st := (r_st s1)(reg_index := val)\<rparr>)"

definition dsp_reg_load_stack :: "StackRegister \<Rightarrow> DSP \<Rightarrow> u16 \<times> DSP" where
  "dsp_reg_load_stack stack_reg s =
    (let reg_index = stack_index stack_reg; val = r_st s reg_index
     in (val, dsp_reg_stack_pop reg_index s))"

lemmas stack_defs =
  dsp_reg_stack_push_def dsp_reg_stack_pop_def dsp_reg_store_stack_def dsp_reg_load_stack_def

section \<open>The contract of a bounded stack\<close>

locale hw_stack =
  fixes store :: "'v \<Rightarrow> 's \<Rightarrow> 's" and load :: "'s \<Rightarrow> 'v \<times> 's"
    and view :: "'s \<Rightarrow> 'v list" and inv :: "'s \<Rightarrow> bool" and depth :: nat
  assumes depth_pos: "0 < depth"
    and length_view: "length (view s) = Suc depth"
    and view_store: "inv s \<Longrightarrow> view (store v s) = v # butlast (view s)"
    and load_value: "fst (load s) = hd (view s)"
    and view_load: "inv s \<Longrightarrow> view (snd (load s)) = tl (view s) @ [view s ! 1]"
    and inv_store: "inv s \<Longrightarrow> inv (store v s)"
    and inv_load: "inv s \<Longrightarrow> inv (snd (load s))"
begin

fun loads :: "nat \<Rightarrow> 's \<Rightarrow> 'v list \<times> 's" where
  "loads 0 s = ([], s)"
| "loads (Suc n) s = (let (v, s1) = load s; (vs, s2) = loads n s1 in (v # vs, s2))"

lemma inv_stores: "inv s \<Longrightarrow> inv (fold store vs s)"
  by (induction vs arbitrary: s) (simp_all add: inv_store)

lemma view_stores: "inv s \<Longrightarrow> view (fold store vs s) = take (Suc depth) (rev vs @ view s)"
proof (induction vs arbitrary: s)
  case Nil
  then show ?case by (simp add: length_view)
next
  case (Cons v vs)
  have "view (fold store vs (store v s)) = take (Suc depth) (rev vs @ v # butlast (view s))"
    using Cons by (simp add: inv_store view_store)
  also have "\<dots> = take (Suc depth) (rev vs @ v # view s)"
    using length_view [of s] by (simp add: take_butlast take_Cons' butlast_conv_take)
  finally show ?case by simp
qed

lemma loads_values:
  "inv s \<Longrightarrow> n \<le> Suc depth \<Longrightarrow> fst (loads n s) = take n (view s)"
proof (induction n arbitrary: s)
  case (Suc n)
  have IH: "fst (loads n (snd (load s))) = take n (tl (view s) @ [view s ! 1])"
    using Suc by (simp add: inv_load view_load)
  have "view s \<noteq> []" using length_view [of s] by auto
  then have "take (Suc n) (view s) = hd (view s) # take n (tl (view s))"
    by (cases "view s") auto
  moreover have "take n (tl (view s) @ [view s ! 1]) = take n (tl (view s))"
    using Suc.prems length_view [of s] by simp
  ultimately show ?case
    using IH load_value [of s] by (auto simp: case_prod_beta)
qed simp

text \<open>What was stored comes back, last in first out, as long as the ring does not overflow.\<close>

lemma stores_loads:
  assumes "inv s" "length vs \<le> Suc depth"
  shows "fst (loads (length vs) (fold store vs s)) = rev vs"
  using assms by (simp add: loads_values inv_stores view_stores)

lemma loads_map: "fst (loads n s) = map (\<lambda>i. fst (load (((\<lambda>t. snd (load t)) ^^ i) s))) [0..<n]"
proof (induction n arbitrary: s)
  case (Suc n)
  have "((\<lambda>t. snd (load t)) ^^ i) (snd (load s)) = snd (load (((\<lambda>t. snd (load t)) ^^ i) s))" for i
    using funpow_swap1 [of "\<lambda>t. snd (load t)" i s] by simp
  with Suc show ?case
    by (simp add: case_prod_beta upt_conv_Cons map_Suc_upt [symmetric] del: upt_Suc)
qed simp

text \<open>One store and one load leave the list of values as it was, but for the oldest one.\<close>

lemma store_load_view:
  assumes "inv s"
  shows "butlast (view (snd (load (store v s)))) = butlast (view s)"
  using assms length_view [of s] by (simp add: view_load inv_store view_store)

end

section \<open>The four stacks satisfy it\<close>

definition stack_wf :: "StackRegister \<Rightarrow> DSP \<Rightarrow> bool" where
  "stack_wf k s \<longleftrightarrow> g_reg_stack_ptr s (stack_index k) AND DSP_STACK_MASK = g_reg_stack_ptr s (stack_index k)"

definition stack_view :: "StackRegister \<Rightarrow> DSP \<Rightarrow> u16 list" where
  "stack_view k s = r_st s (stack_index k) #
     map (\<lambda>j. g_reg_stack s (stack_index k)
               ((g_reg_stack_ptr s (stack_index k) - of_nat j) AND DSP_STACK_MASK)) [0..<32]"

lemma uint_and_31: "uint ((p :: u8) AND 31) = uint p mod 32"
proof -
  have "uint (p AND 31) = uint p AND 31" by (simp add: uint_and)
  also have "\<dots> = take_bit 5 (uint p)" by (simp add: take_bit_eq_mask mask_eq_exp_minus_1)
  finally show ?thesis by (simp add: take_bit_eq_mod)
qed

lemma and_31_eqI: "uint (p :: u8) mod 32 = uint q mod 32 \<Longrightarrow> p AND 31 = q AND 31"
  by (metis uint_and_31 word_uint_eqI)

lemma uint_minus_mod_32: "uint ((p :: u8) - q) mod 32 = (uint p - uint q) mod 32"
  by (simp add: uint_word_ariths mod_mod_cancel)

lemma uint_plus_mod_32: "uint ((p :: u8) + q) mod 32 = (uint p + uint q) mod 32"
  by (simp add: uint_word_ariths mod_mod_cancel)

lemma ring_index_minus: "((p AND 31) - q) AND 31 = (p - q) AND (31 :: u8)"
  by (rule and_31_eqI) (simp add: uint_minus_mod_32 uint_and_31 mod_diff_left_eq)

lemma ring_index_minus_right [simp]: "(p AND 31) AND (31 :: u8) = p AND 31"
  by (simp add: and.assoc)

lemma uint_of_nat_u8: "j < 32 \<Longrightarrow> uint (of_nat j :: u8) = int j"
  by (simp add: uint_nat unat_of_nat)

lemma mod_32_shift: "0 < j \<Longrightarrow> j < 32 \<Longrightarrow> (a - j) mod 32 \<noteq> a mod (32 :: int)"
  by (auto simp: mod_eq_dvd_iff dest: zdvd_imp_le)

lemma ring_index_distinct:
  assumes "0 < j" "j < 32"
  shows "(p - of_nat j) AND 31 \<noteq> p AND (31 :: u8)"
proof
  assume "(p - of_nat j) AND 31 = p AND 31"
  then have "uint (p - of_nat j) mod 32 = uint p mod 32" by (metis uint_and_31)
  then have "(uint p - int j) mod 32 = uint p mod 32"
    using assms(2) by (simp only: uint_minus_mod_32 uint_of_nat_u8)
  with assms mod_32_shift [of "int j" "uint p"] show False by simp
qed

lemma stack_view_store:
  "stack_view k (dsp_reg_store_stack k v s) = v # butlast (stack_view k s)"
proof (rule nth_equalityI)
  fix i assume i: "i < length (stack_view k (dsp_reg_store_stack k v s))"
  let ?p = "g_reg_stack_ptr s (stack_index k)"
  have next_index: "((?p + 1) AND 31) - of_nat (Suc j) = ((?p + 1) AND 31) - 1 - of_nat j" for j
    by simp
  have same: "(((?p + 1) AND 31) - 1 - of_nat j) AND 31 = (?p - of_nat j) AND 31" for j
    using ring_index_minus [of "?p + 1" "1 + of_nat j"] by (simp add: algebra_simps)
  have other: "(((?p + 1) AND 31) - 1 - of_nat j) AND 31 \<noteq> (?p + 1) AND 31" if "j < 31" for j
    using ring_index_distinct [of "Suc j" "(?p + 1) AND 31"] that by (simp add: algebra_simps)
  consider "i = 0" | "i = 1" | j where "i = Suc (Suc j)" "j < 31"
    using i by (cases i; cases "i - 1") (auto simp: stack_view_def)
  then show "stack_view k (dsp_reg_store_stack k v s) ! i = (v # butlast (stack_view k s)) ! i"
  proof cases
    case (3 j)
    then show ?thesis
      using same [of j] other [of j]
      by (simp add: stack_view_def stack_defs Let_def nth_butlast algebra_simps)
  qed (simp_all add: stack_view_def stack_defs Let_def nth_butlast)
qed (simp add: stack_view_def)

lemma stack_view_load:
  assumes "stack_wf k s"
  shows "stack_view k (snd (dsp_reg_load_stack k s)) = tl (stack_view k s) @ [stack_view k s ! 1]"
proof (rule nth_equalityI)
  fix i assume i: "i < length (stack_view k (snd (dsp_reg_load_stack k s)))"
  let ?p = "g_reg_stack_ptr s (stack_index k)"
  have wf: "?p AND 31 = ?p" using assms by (simp add: stack_wf_def)
  have same: "(((?p - 1) AND 31) - of_nat j) AND 31 = (?p - of_nat (Suc j)) AND 31" for j
    using ring_index_minus [of "?p - 1" "of_nat j"] by (simp add: algebra_simps)
  have last: "(?p - 32) AND 31 = ?p"
    using wf by (subst (2) wf [symmetric]) (rule and_31_eqI, simp add: uint_minus_mod_32)
  consider "i = 0" | j where "i = Suc j" "j < 31" | "i = 32"
    using i by (cases i) (force simp: stack_view_def)+
  then show "stack_view k (snd (dsp_reg_load_stack k s)) ! i = (tl (stack_view k s) @ [stack_view k s ! 1]) ! i"
  proof cases
    case (2 j)
    then show ?thesis
      using same [of j] by (simp add: stack_view_def stack_defs nth_append Let_def)
  next
    case 3
    then show ?thesis
      using same [of 31] last wf by (simp add: stack_view_def stack_defs nth_append Let_def)
  qed (simp_all add: stack_view_def stack_defs nth_append wf Let_def)
qed (simp add: stack_view_def)

lemma stack_wf_store: "stack_wf k (dsp_reg_store_stack k' v s) \<longleftrightarrow> stack_index k = stack_index k' \<or> stack_wf k s"
  by (auto simp: stack_wf_def stack_defs Let_def)

lemma stack_wf_load: "stack_wf k (snd (dsp_reg_load_stack k' s)) \<longleftrightarrow> stack_index k = stack_index k' \<or> stack_wf k s"
  by (auto simp: stack_wf_def stack_defs Let_def)

lemma hw_stack_dsp:
  "hw_stack (dsp_reg_store_stack k) (dsp_reg_load_stack k) (stack_view k) (stack_wf k) 32"
  by unfold_locales
    (simp_all add: stack_view_store stack_view_load stack_wf_store stack_wf_load,
     simp_all add: stack_view_def dsp_reg_load_stack_def Let_def)

interpretation call_stack: hw_stack "dsp_reg_store_stack Call" "dsp_reg_load_stack Call"
  "stack_view Call" "stack_wf Call" 32
  by (rule hw_stack_dsp)

interpretation data_stack: hw_stack "dsp_reg_store_stack Data" "dsp_reg_load_stack Data"
  "stack_view Data" "stack_wf Data" 32
  by (rule hw_stack_dsp)

interpretation loop_address_stack: hw_stack "dsp_reg_store_stack LoopAddress"
  "dsp_reg_load_stack LoopAddress" "stack_view LoopAddress" "stack_wf LoopAddress" 32
  by (rule hw_stack_dsp)

interpretation loop_counter_stack: hw_stack "dsp_reg_store_stack LoopCounter"
  "dsp_reg_load_stack LoopCounter" "stack_view LoopCounter" "stack_wf LoopCounter" 32
  by (rule hw_stack_dsp)

section \<open>Frame\<close>

text \<open>The stacks are independent of each other.\<close>

lemma stack_index_inject [simp]: "stack_index k = stack_index k' \<longleftrightarrow> k = k'"
  by (cases k; cases k') simp_all

lemma stack_view_store_other:
  "k \<noteq> k' \<Longrightarrow> stack_view k (dsp_reg_store_stack k' v s) = stack_view k s"
  by (simp add: stack_view_def stack_defs Let_def)

lemma stack_view_load_other:
  "k \<noteq> k' \<Longrightarrow> stack_view k (snd (dsp_reg_load_stack k' s)) = stack_view k s"
  by (simp add: stack_view_def stack_defs Let_def)

lemma store_stack_frame [dsp_frame]:
  "g_pc (dsp_reg_store_stack k v s) = g_pc s"
  "r_sr (dsp_reg_store_stack k v s) = r_sr s"
  "g_exceptions (dsp_reg_store_stack k v s) = g_exceptions s"
  "s_op_table (dsp_reg_store_stack k v s) = s_op_table s"
  "r_st (dsp_reg_store_stack k v s) = (r_st s)(stack_index k := v)"
  by (simp_all add: stack_defs Let_def)

lemma load_stack_frame [dsp_frame]:
  "g_pc (snd (dsp_reg_load_stack k s)) = g_pc s"
  "r_sr (snd (dsp_reg_load_stack k s)) = r_sr s"
  "g_exceptions (snd (dsp_reg_load_stack k s)) = g_exceptions s"
  "s_op_table (snd (dsp_reg_load_stack k s)) = s_op_table s"
  by (simp_all add: stack_defs Let_def)

section \<open>Property\<close>

text \<open>
  C36. Each of the four register stacks keeps its 33 newest values (the register and 32 cells of
  memory), older ones are overwritten on overflow; popping gives the pushed values back, newest
  first, as long as no more than 33 were pushed; and the other stacks do not change.
\<close>

theorem stacks_lifo:
  assumes "stack_wf k s"
  shows "stack_view k (fold (dsp_reg_store_stack k) vs s) = take 33 (rev vs @ stack_view k s) \<and>
    (length vs \<le> 33 \<longrightarrow>
      map (\<lambda>i. fst (dsp_reg_load_stack k
          (((\<lambda>t. snd (dsp_reg_load_stack k t)) ^^ i) (fold (dsp_reg_store_stack k) vs s))))
        [0..<length vs] = rev vs) \<and>
    (k' \<noteq> k \<longrightarrow> stack_view k' (fold (dsp_reg_store_stack k) vs s) = stack_view k' s)"
proof -
  have "stack_view k' (fold (dsp_reg_store_stack k) vs s) = stack_view k' s" if "k' \<noteq> k"
    using that by (induction vs arbitrary: s) (simp_all add: stack_view_store_other)
  then show ?thesis
    using hw_stack.view_stores [OF hw_stack_dsp assms, of vs]
      hw_stack.stores_loads [OF hw_stack_dsp assms, of vs]
      hw_stack.loads_map [OF hw_stack_dsp, of k "length vs" "fold (dsp_reg_store_stack k) vs s"]
    by simp
qed

theorem stacks_lifo_witness:
  "stack_view LoopCounter (fold (dsp_reg_store_stack LoopCounter) [7, 8, 9] blank_dsp) = [9, 8, 7] @ replicate 30 0 \<and>
   map (\<lambda>i. fst (dsp_reg_load_stack LoopCounter (((\<lambda>t. snd (dsp_reg_load_stack LoopCounter t)) ^^ i)
      (fold (dsp_reg_store_stack LoopCounter) [7, 8, 9] blank_dsp)))) [0..<3] = [9, 8, 7] \<and>
   stack_view Call (fold (dsp_reg_store_stack LoopCounter) [7, 8, 9] blank_dsp) = stack_view Call blank_dsp"
proof -
  have v: "stack_view LoopCounter blank_dsp = replicate 33 0"
    by (rule nth_equalityI) (auto simp: stack_view_def nth_Cons' blank_dsp_def)
  have wf: "stack_wf LoopCounter blank_dsp" by (simp add: stack_wf_def blank_dsp_def)
  show ?thesis using stacks_lifo [OF wf, of "[7, 8, 9]" Call] v by (simp add: numeral_eq_Suc)
qed

end
