(* ===== verification/DSP_Analyzer.thy ===== *)
theory DSP_Analyzer
  imports DSP_State
begin

text \<open>
  Instruction memory (\<^verbatim>\<open>dsp_imem_read\<close>, \<^verbatim>\<open>dsp_fetch_code\<close>, \<^verbatim>\<open>dsp_peek_code\<close>,
  \<^verbatim>\<open>dsp_skip_inst\<close> of \<^verbatim>\<open>Core/DSP/DSPMemoryMap.cpp\<close>) and the static analysis of
  \<^verbatim>\<open>Core/DSP/DSPAnalyzer.cpp\<close> that runs over it whenever code is loaded. The interpreter ends a
  hardware loop only at addresses the analysis flagged, and skips idle loops only where a signature
  matched, so the lemmas characterise both flags exactly.

  The instruction scan recurses on a bound. Every row of the opcode table has one or two words, so
  the distance to the end of the range is enough: the scan ends because it passed the end, not
  because the bound ran out (\<open>analyze_scan_finishes\<close>).
\<close>

section \<open>Instruction memory\<close>

definition dsp_imem_read :: "u16 \<Rightarrow> DSP \<Rightarrow> u16" where
  "dsp_imem_read addr s =
    (if drop_bit 12 addr = 0 then g_iram s (addr AND DSP_IRAM_MASK)
     else if drop_bit 12 addr = 8 then g_irom s (addr AND DSP_IROM_MASK)
     else 0)"

definition dsp_fetch_code :: "DSP \<Rightarrow> u16 \<times> DSP" where
  "dsp_fetch_code s = (dsp_imem_read (g_pc s) s, s\<lparr>g_pc := g_pc s + 1\<rparr>)"

definition dsp_peek_code :: "DSP \<Rightarrow> u16" where
  "dsp_peek_code s = dsp_imem_read (g_pc s) s"

text \<open>A null table entry is dereferenced here, hence the result type.\<close>

definition dsp_skip_inst :: "DSP \<Rightarrow> DSP result" where
  "dsp_skip_inst s =
    (case s_op_table s (dsp_peek_code s) of
       None \<Rightarrow> Inl MemoryFault
     | Some t \<Rightarrow> Inr (s\<lparr>g_pc := g_pc s + of_nat (tsize t)\<rparr>))"

section \<open>Flags\<close>

abbreviation (input) CODE_START_OF_INST :: u8 where "CODE_START_OF_INST \<equiv> 1"
abbreviation (input) CODE_IDLE_SKIP :: u8 where "CODE_IDLE_SKIP \<equiv> 2"
abbreviation (input) CODE_LOOP_START :: u8 where "CODE_LOOP_START \<equiv> 4"
abbreviation (input) CODE_LOOP_END :: u8 where "CODE_LOOP_END \<equiv> 8"
abbreviation (input) CODE_UPDATE_SR :: u8 where "CODE_UPDATE_SR \<equiv> 16"
abbreviation (input) CODE_CHECK_INT :: u8 where "CODE_CHECK_INT \<equiv> 32"

definition or_flag :: "u16 \<Rightarrow> u8 \<Rightarrow> (u16 \<Rightarrow> u8) \<Rightarrow> u16 \<Rightarrow> u8" where
  "or_flag addr f fl = fl(addr := fl addr OR f)"

definition idle_skip_sigs :: "u16 list list" where
  "idle_skip_sigs =
    [[0x26fc, 0x02c0, 0x8000, 0x029d, 0xFFFF, 0, 0],
     [0x27fc, 0x03c0, 0x8000, 0x029d, 0xFFFF, 0, 0],
     [0x26fe, 0x02c0, 0x8000, 0x029c, 0xFFFF, 0, 0],
     [0x27fe, 0x03c0, 0x8000, 0x029c, 0xFFFF, 0, 0],
     [0x26fc, 0x02a0, 0x8000, 0x029c, 0xFFFF, 0, 0],
     [0x27fc, 0x03a0, 0x8000, 0x029c, 0xFFFF, 0, 0],
     [0x00de, 0xFFFE, 0x02c0, 0x8000, 0x029c, 0xFFFF, 0],
     [0x00da, 0x0352, 0x8600, 0x0295, 0xFFFF, 0, 0]]"

definition is_bloop :: "UDSPInstruction \<Rightarrow> bool" where
  "is_bloop inst \<longleftrightarrow> inst AND 0xffe0 = 0x0060 \<or> inst AND 0xff00 = 0x1100"

definition is_loop :: "UDSPInstruction \<Rightarrow> bool" where
  "is_loop inst \<longleftrightarrow> inst AND 0xffe0 = 0x0040 \<or> inst AND 0xff00 = 0x1000"

definition may_raise :: "DSPOPCTemplate \<Rightarrow> bool" where
  "may_raise t \<longleftrightarrow> opcode t = 0x00c0 \<or> opcode t = 0x1800 \<or> opcode t = 0x1880 \<or>
     opcode t = 0x1900 \<or> opcode t = 0x1980 \<or> opcode t = 0x2000 \<or> extended t"

section \<open>The scan\<close>

text \<open>The body of the first loop of \<^verbatim>\<open>AnalyzeRange\<close> at an instruction with a template.\<close>

definition analyze_inst :: "(u16 \<Rightarrow> u16) \<Rightarrow> DSPOPCTemplate \<Rightarrow> u16 \<Rightarrow> u16 \<Rightarrow> (u16 \<Rightarrow> u8) \<Rightarrow>
    u16 \<times> (u16 \<Rightarrow> u8)" where
  "analyze_inst imem t addr last_arithmetic fl =
    (let inst = imem addr;
         fl1 = or_flag addr CODE_START_OF_INST fl;
         fl2 = (if is_bloop inst then
                  or_flag (imem (addr + 1)) CODE_LOOP_END (or_flag addr CODE_LOOP_START fl1)
                else if is_loop inst then
                  or_flag (addr + 1) CODE_LOOP_END (or_flag addr CODE_LOOP_START fl1)
                else fl1);
         last1 = (if updates_sr t then addr else last_arithmetic);
         fl3 = (if branch t \<and> \<not> uncond_branch t then or_flag last1 CODE_UPDATE_SR fl2 else fl2);
         fl4 = (if may_raise t then or_flag (addr + of_nat (tsize t)) CODE_CHECK_INT fl3 else fl3)
     in (last1, fl4))"

fun analyze_scan :: "nat \<Rightarrow> (u16 \<Rightarrow> u16) \<Rightarrow> (UDSPInstruction \<Rightarrow> DSPOPCTemplate option) \<Rightarrow>
    u16 \<Rightarrow> u16 \<Rightarrow> u16 \<Rightarrow> (u16 \<Rightarrow> u8) \<Rightarrow> u16 \<times> (u16 \<Rightarrow> u8)" where
  "analyze_scan 0 imem tbl end_addr addr last_arithmetic fl = (addr, fl)"
| "analyze_scan (Suc n) imem tbl end_addr addr last_arithmetic fl =
    (if addr < end_addr then
       (case tbl (imem addr) of
          None \<Rightarrow> analyze_scan n imem tbl end_addr (addr + 1) last_arithmetic fl
        | Some t \<Rightarrow>
            (let (last1, fl1) = analyze_inst imem t addr last_arithmetic fl
             in analyze_scan n imem tbl end_addr (addr + of_nat (tsize t)) last1 fl1))
     else (addr, fl))"

text \<open>The innermost loop of the idle scan: \<open>i\<close> is the position in the signature.\<close>

fun sig_found :: "(u16 \<Rightarrow> u16) \<Rightarrow> u16 \<Rightarrow> u16 list \<Rightarrow> bool \<Rightarrow> bool" where
  "sig_found imem addr [] found = found"
| "sig_found imem addr (x # xs) found =
    (let found1 = (found \<or> x = 0)
     in if x = 0xFFFF then sig_found imem (addr + 1) xs found1
        else if x \<noteq> imem addr then found1
        else sig_found imem (addr + 1) xs found1)"

definition idle_scan :: "(u16 \<Rightarrow> u16) \<Rightarrow> u16 \<Rightarrow> u16 \<Rightarrow> (u16 \<Rightarrow> u8) \<Rightarrow> u16 \<Rightarrow> u8" where
  "idle_scan imem start_addr end_addr fl =
    fold (\<lambda>sig. fold (\<lambda>addr fl. if sig_found imem addr sig False then or_flag addr CODE_IDLE_SKIP fl else fl)
                    (map of_nat [unat start_addr..<unat end_addr]))
      idle_skip_sigs fl"

definition AnalyzeRange :: "u16 \<Rightarrow> u16 \<Rightarrow> DSP \<Rightarrow> DSP" where
  "AnalyzeRange start_addr end_addr s =
    (let imem = (\<lambda>a. dsp_imem_read a s);
         (_, fl) = analyze_scan (unat (end_addr - start_addr)) imem (s_op_table s) end_addr start_addr 0
                     (code_flags s)
     in s\<lparr>code_flags := idle_scan imem start_addr end_addr fl\<rparr>)"

definition Analyze :: "DSP \<Rightarrow> DSP" where
  "Analyze s = AnalyzeRange 0x8000 0x9000 (AnalyzeRange 0x0000 0x1000 (s\<lparr>code_flags := (\<lambda>_. 0)\<rparr>))"

definition GetCodeFlags :: "u16 \<Rightarrow> DSP \<Rightarrow> u8" where
  "GetCodeFlags address s = code_flags s address"

section \<open>The scan reaches the end of the range\<close>

definition sizes_ok :: "(UDSPInstruction \<Rightarrow> DSPOPCTemplate option) \<Rightarrow> bool" where
  "sizes_ok tbl \<longleftrightarrow> (\<forall>i. case tbl i of None \<Rightarrow> True | Some t \<Rightarrow> tsize t = 1 \<or> tsize t = 2)"

lemma sizes_ok_init: "sizes_ok (\<lambda>i. Some (init_op_table i))"
  using tsize_init_op_table by (simp add: sizes_ok_def)

lemma unat_advance:
  assumes "(addr :: u16) < e" "e \<le> 0xFFF0" "k = 1 \<or> k = 2"
  shows "unat (addr + of_nat k) = unat addr + k"
proof -
  have "unat addr + k < 2 ^ 16" using assms by (auto simp: word_less_nat_alt word_le_nat_alt)
  moreover have "unat (of_nat k :: u16) = k" using assms(3) by auto
  ultimately show ?thesis by (subst unat_add_lem [THEN iffD1]) auto
qed

lemma analyze_scan_finishes:
  assumes "sizes_ok tbl" "end_addr \<le> 0xFFF0" "unat end_addr \<le> unat addr + n"
  shows "end_addr \<le> fst (analyze_scan n imem tbl end_addr addr last_arithmetic fl)"
  using assms(3)
proof (induction n arbitrary: addr last_arithmetic fl)
  case 0
  then show ?case by (simp add: word_le_nat_alt)
next
  case (Suc n)
  have adv: "unat end_addr \<le> unat (addr + of_nat k) + n" if "addr < end_addr" "k = 1 \<or> k = 2" for k
    using that unat_advance [OF that(1) assms(2) that(2)] Suc.prems by auto
  have sz: "tsize t = 1 \<or> tsize t = 2" if "tbl (imem addr) = Some t" for t
    using assms(1) that by (auto simp: sizes_ok_def split: option.splits dest: spec [of _ "imem addr"])
  show ?case
  proof (cases "addr < end_addr")
    case True
    show ?thesis
    proof (cases "tbl (imem addr)")
      case None
      then show ?thesis using True Suc.IH [OF adv [OF True, of 1]] by simp
    next
      case (Some t)
      then show ?thesis
        using True Suc.IH [OF adv [OF True sz [OF Some]]] by (simp add: case_prod_beta)
    qed
  qed (auto simp: not_less)
qed

section \<open>What the flags mean\<close>

text \<open>The last word of the loop body that a loop instruction at \<open>addr\<close> opens.\<close>

definition loop_end_of :: "(u16 \<Rightarrow> u16) \<Rightarrow> u16 \<Rightarrow> u16 option" where
  "loop_end_of imem addr =
    (if is_bloop (imem addr) then Some (imem (addr + 1))
     else if is_loop (imem addr) then Some (addr + 1) else None)"

lemma bit_or_flag: "bit (or_flag a f fl x) n \<longleftrightarrow> bit (fl x) n \<or> x = a \<and> bit f n"
  by (auto simp: or_flag_def bit_or_iff)

lemma analyze_inst_bits:
  "bit (snd (analyze_inst imem t addr last_arithmetic fl) x) 0 \<longleftrightarrow> bit (fl x) 0 \<or> x = addr"
  "bit (snd (analyze_inst imem t addr last_arithmetic fl) x) (Suc 0) \<longleftrightarrow> bit (fl x) (Suc 0)"
  "bit (snd (analyze_inst imem t addr last_arithmetic fl) x) 2 \<longleftrightarrow>
     bit (fl x) 2 \<or> x = addr \<and> loop_end_of imem addr \<noteq> None"
  "bit (snd (analyze_inst imem t addr last_arithmetic fl) x) 3 \<longleftrightarrow>
     bit (fl x) 3 \<or> loop_end_of imem addr = Some x"
  by (auto simp: analyze_inst_def Let_def loop_end_of_def bit_or_flag)

lemma analyze_inst_check:
  "bit (snd (analyze_inst imem t addr last_arithmetic fl) x) 5 \<longleftrightarrow>
     bit (fl x) 5 \<or> may_raise t \<and> x = addr + of_nat (tsize t)"
  by (auto simp: analyze_inst_def Let_def bit_or_flag)

text \<open>
  The words a program counter steps over from the start \<open>b\<close> of a range to its end \<open>e\<close>, word by word where there is no
  template; the ones with a template are where the instructions start.
\<close>

definition inst_size :: "(u16 \<Rightarrow> u16) \<Rightarrow> (UDSPInstruction \<Rightarrow> DSPOPCTemplate option) \<Rightarrow> u16 \<Rightarrow> u16" where
  "inst_size imem tbl a = (case tbl (imem a) of None \<Rightarrow> 1 | Some t \<Rightarrow> of_nat (tsize t))"

inductive visited :: "(u16 \<Rightarrow> u16) \<Rightarrow> (UDSPInstruction \<Rightarrow> DSPOPCTemplate option) \<Rightarrow> u16 \<Rightarrow> u16 \<Rightarrow> u16 \<Rightarrow> bool"
  for imem tbl e b where
  visited_first: "b < e \<Longrightarrow> visited imem tbl e b b"
| visited_next: "visited imem tbl e b a \<Longrightarrow> a + inst_size imem tbl a < e \<Longrightarrow> visited imem tbl e b (a + inst_size imem tbl a)"

definition inst_start :: "(u16 \<Rightarrow> u16) \<Rightarrow> (UDSPInstruction \<Rightarrow> DSPOPCTemplate option) \<Rightarrow> u16 \<Rightarrow> u16 \<Rightarrow> u16 \<Rightarrow> bool" where
  "inst_start imem tbl e b x \<longleftrightarrow> visited imem tbl e b x \<and> tbl (imem x) \<noteq> None"

lemma visited_unfold:
  assumes "b < e"
  shows "visited imem tbl e b x \<longleftrightarrow> x = b \<or> visited imem tbl e (b + inst_size imem tbl b) x"
proof
  assume "visited imem tbl e b x"
  then show "x = b \<or> visited imem tbl e (b + inst_size imem tbl b) x"
    by induction (auto intro: visited.intros)
next
  assume "x = b \<or> visited imem tbl e (b + inst_size imem tbl b) x"
  moreover have "visited imem tbl e b x" if "visited imem tbl e (b + inst_size imem tbl b) x"
    using that by induction (use assms in \<open>auto intro: visited.intros\<close>)
  ultimately show "visited imem tbl e b x" using assms by (auto intro: visited_first)
qed

lemma visited_none: "\<not> b < e \<Longrightarrow> \<not> visited imem tbl e b x"
proof
  assume "visited imem tbl e b x" "\<not> b < e"
  then show False by induction simp_all
qed

text \<open>What a scan of \<open>[b, e)\<close> adds to the flags.\<close>

lemma scan_flags:
  fixes imem :: "u16 \<Rightarrow> u16"
  assumes "sizes_ok tbl" "e \<le> 0xFFF0" "unat e \<le> unat b + n"
  defines "st \<equiv> inst_start imem tbl e"
  shows "bit (snd (analyze_scan n imem tbl e b last_arithmetic fl) x) 0 \<longleftrightarrow> bit (fl x) 0 \<or> st b x"
    "bit (snd (analyze_scan n imem tbl e b last_arithmetic fl) x) 2 \<longleftrightarrow> bit (fl x) 2 \<or> st b x \<and> loop_end_of imem x \<noteq> None"
    "bit (snd (analyze_scan n imem tbl e b last_arithmetic fl) x) 3 \<longleftrightarrow> bit (fl x) 3 \<or> (\<exists>a. st b a \<and> loop_end_of imem a = Some x)"
    "bit (snd (analyze_scan n imem tbl e b last_arithmetic fl) x) 5 \<longleftrightarrow>
       bit (fl x) 5 \<or> (\<exists>a t. st b a \<and> tbl (imem a) = Some t \<and> may_raise t \<and> x = a + of_nat (tsize t))"
  using assms(3)
proof (induction n arbitrary: b last_arithmetic fl)
  case 0
  {
    case 1
    then show ?case using visited_none [of b e] by (simp add: st_def inst_start_def word_less_nat_alt)
  next
    case 2
    then show ?case using visited_none [of b e] by (simp add: st_def inst_start_def word_less_nat_alt)
  next
    case 3
    then show ?case using visited_none [of b e] by (simp add: st_def inst_start_def word_less_nat_alt)
  next
    case 4
    then show ?case using visited_none [of b e] by (simp add: st_def inst_start_def word_less_nat_alt)
  }
next
  case (Suc n)
  note IH = Suc.IH
  have adv: "unat e \<le> unat (b + inst_size imem tbl b) + n" if "b < e" "unat e \<le> unat b + Suc n" for b
  proof -
    obtain k where k: "inst_size imem tbl b = of_nat k" "k = 1 \<or> k = 2"
      using assms(1) by (force simp: inst_size_def sizes_ok_def split: option.splits dest: spec [of _ "imem b"])
    show ?thesis using unat_advance [OF that(1) assms(2) k(2)] that(2) k by auto
  qed
  have none: "\<not> st b y" if "\<not> b < e" for b y using visited_none [OF that] by (simp add: st_def inst_start_def)
  have step: "st b y \<longleftrightarrow> y = b \<and> tbl (imem b) \<noteq> None \<or> st (b + inst_size imem tbl b) y" if "b < e" for b y
    using visited_unfold [OF that] by (auto simp: st_def inst_start_def)
  have size: "tbl (imem b) = None \<Longrightarrow> inst_size imem tbl b = 1" "tbl (imem b) = Some t \<Longrightarrow> inst_size imem tbl b = of_nat (tsize t)" for b t
    by (simp_all add: inst_size_def)
  note cases = case_prod_beta analyze_inst_bits analyze_inst_check
  {
    case 1
    then have "b < e \<Longrightarrow> unat e \<le> unat (b + inst_size imem tbl b) + n" using adv by blast
    then show ?case using IH(1) none step size by (cases "b < e"; cases "tbl (imem b)") (auto simp: cases)
  next
    case 2
    then have "b < e \<Longrightarrow> unat e \<le> unat (b + inst_size imem tbl b) + n" using adv by blast
    then show ?case using IH(2) none step size by (cases "b < e"; cases "tbl (imem b)") (auto simp: cases)
  next
    case 3
    then have "b < e \<Longrightarrow> unat e \<le> unat (b + inst_size imem tbl b) + n" using adv by blast
    then show ?case using IH(3) none step size by (cases "b < e"; cases "tbl (imem b)") (auto simp: cases)
  next
    case 4
    then have "b < e \<Longrightarrow> unat e \<le> unat (b + inst_size imem tbl b) + n" using adv by blast
    then show ?case using IH(4) none step size by (cases "b < e"; cases "tbl (imem b)") (auto simp: cases)
  }
qed

lemma scan_keeps_idle:
  "bit (snd (analyze_scan n imem tbl end_addr addr last_arithmetic fl) x) (Suc 0) \<longleftrightarrow> bit (fl x) (Suc 0)"
proof (induction n arbitrary: addr last_arithmetic fl)
  case (Suc n)
  then show ?case by (simp add: case_prod_beta analyze_inst_bits split: option.split)
qed simp

lemma scan_no_templates:
  assumes "\<And>i. tbl i = None"
  shows "snd (analyze_scan n imem tbl end_addr addr last_arithmetic fl) = fl"
proof (induction n arbitrary: addr)
  case (Suc n)
  then show ?case by (simp add: assms)
qed simp

text \<open>A signature matches up to its terminating zero, with \<open>0xFFFF\<close> as a wildcard.\<close>

definition sig_matches :: "(u16 \<Rightarrow> u16) \<Rightarrow> u16 \<Rightarrow> u16 list \<Rightarrow> bool" where
  "sig_matches imem addr sig \<longleftrightarrow>
    (\<exists>k < length sig. sig ! k = 0 \<and>
       (\<forall>j < k. sig ! j = 0xFFFF \<or> sig ! j = imem (addr + of_nat j)))"

lemma sig_matches_Cons:
  "sig_matches imem addr (x # xs) \<longleftrightarrow>
     x = 0 \<or> (x = 0xFFFF \<or> x = imem addr) \<and> sig_matches imem (addr + 1) xs"
  by (auto simp: sig_matches_def Ex_less_Suc2 All_less_Suc2 add.assoc)

lemma sig_found_iff: "sig_found imem addr sig found \<longleftrightarrow> found \<or> sig_matches imem addr sig"
proof (induction sig arbitrary: addr found)
  case Nil
  then show ?case by (simp add: sig_matches_def)
next
  case (Cons x xs)
  then show ?case by (auto simp: sig_matches_Cons Let_def)
qed

lemma fold_or_flag_bits:
  "bit (fold (\<lambda>addr fl. if P addr then or_flag addr f fl else fl) addrs fl x) n \<longleftrightarrow>
     bit (fl x) n \<or> bit f n \<and> x \<in> set addrs \<and> P x"
  by (induction addrs arbitrary: fl) (auto simp: bit_or_flag)

lemma fold_fold_or_flag_bits:
  "bit (fold (\<lambda>sig. fold (\<lambda>addr fl. if P sig addr then or_flag addr f fl else fl) addrs) sigs fl x) n \<longleftrightarrow>
     bit (fl x) n \<or> bit f n \<and> x \<in> set addrs \<and> (\<exists>sig \<in> set sigs. P sig x)"
  by (induction sigs arbitrary: fl) (auto simp: fold_or_flag_bits)

lemma in_range_list:
  "(x :: u16) \<in> set (map of_nat [unat a..<unat e]) \<longleftrightarrow> a \<le> x \<and> x < e"
proof
  assume "a \<le> x \<and> x < e"
  then show "x \<in> set (map of_nat [unat a..<unat e])"
    by (auto simp: word_le_nat_alt word_less_nat_alt image_iff intro!: bexI [of _ "unat x"])
next
  assume "x \<in> set (map of_nat [unat a..<unat e])"
  then obtain i where i: "x = of_nat i" "unat a \<le> i" "i < unat e" by auto
  have "unat e < 2 ^ LENGTH(16)" by (rule unsigned_less)
  with i(3) have "i < 2 ^ 16" by simp
  then have "unat x = i" using i(1) by (simp add: unat_of_nat)
  with i show "a \<le> x \<and> x < e" by (simp add: word_le_nat_alt word_less_nat_alt)
qed

definition idle_at :: "(u16 \<Rightarrow> u16) \<Rightarrow> u16 \<Rightarrow> bool" where
  "idle_at imem x \<longleftrightarrow> (\<exists>sig \<in> set idle_skip_sigs. sig_matches imem x sig)"

lemma idle_scan_bits:
  "bit (idle_scan imem a e fl x) n \<longleftrightarrow> bit (fl x) n \<or> n = Suc 0 \<and> a \<le> x \<and> x < e \<and> idle_at imem x"
proof -
  have "bit (2 :: u8) n \<longleftrightarrow> n = Suc 0"
    using bit_2_iff [where 'a = "8 word", of n] by auto
  then show ?thesis
    by (simp add: idle_scan_def fold_fold_or_flag_bits sig_found_iff in_range_list idle_at_def
        del: set_map)
qed

lemma imem_read_code_flags [simp]: "dsp_imem_read a (s\<lparr>code_flags := f\<rparr>) = dsp_imem_read a s"
  by (simp add: dsp_imem_read_def)

lemma AnalyzeRange_flags:
  assumes "sizes_ok (s_op_table s)" "b \<le> e" "e \<le> 0xFFF0"
  defines "imem \<equiv> \<lambda>a. dsp_imem_read a s"
  defines "st \<equiv> inst_start imem (s_op_table s) e b"
  shows "bit (code_flags (AnalyzeRange b e s) x) 0 \<longleftrightarrow> bit (code_flags s x) 0 \<or> st x"
    "bit (code_flags (AnalyzeRange b e s) x) 2 \<longleftrightarrow> bit (code_flags s x) 2 \<or> st x \<and> loop_end_of imem x \<noteq> None"
    "bit (code_flags (AnalyzeRange b e s) x) 3 \<longleftrightarrow> bit (code_flags s x) 3 \<or> (\<exists>a. st a \<and> loop_end_of imem a = Some x)"
    "bit (code_flags (AnalyzeRange b e s) x) 5 \<longleftrightarrow>
       bit (code_flags s x) 5 \<or> (\<exists>a t. st a \<and> s_op_table s (imem a) = Some t \<and> may_raise t \<and> x = a + of_nat (tsize t))"
proof -
  have "unat e \<le> unat b + unat (e - b)" using assms(2) by (simp add: unat_sub word_le_nat_alt)
  note F = scan_flags [OF assms(1,3) this, of imem 0 "code_flags s" x]
  show "bit (code_flags (AnalyzeRange b e s) x) 0 \<longleftrightarrow> bit (code_flags s x) 0 \<or> st x"
    "bit (code_flags (AnalyzeRange b e s) x) 2 \<longleftrightarrow> bit (code_flags s x) 2 \<or> st x \<and> loop_end_of imem x \<noteq> None"
    "bit (code_flags (AnalyzeRange b e s) x) 3 \<longleftrightarrow> bit (code_flags s x) 3 \<or> (\<exists>a. st a \<and> loop_end_of imem a = Some x)"
    "bit (code_flags (AnalyzeRange b e s) x) 5 \<longleftrightarrow>
       bit (code_flags s x) 5 \<or> (\<exists>a t. st a \<and> s_op_table s (imem a) = Some t \<and> may_raise t \<and> x = a + of_nat (tsize t))"
    using F by (simp_all add: AnalyzeRange_def idle_scan_bits case_prod_beta Let_def imem_def st_def)
qed

lemma AnalyzeRange_idle:
  "bit (code_flags (AnalyzeRange a e s) x) (Suc 0) \<longleftrightarrow>
     bit (code_flags s x) (Suc 0) \<or> a \<le> x \<and> x < e \<and> idle_at (\<lambda>a. dsp_imem_read a s) x"
  by (simp add: AnalyzeRange_def idle_scan_bits case_prod_beta Let_def scan_keeps_idle)

lemma AnalyzeRange_frame: "\<exists>f. AnalyzeRange a e s = s\<lparr>code_flags := f\<rparr>"
  by (auto simp: AnalyzeRange_def Let_def case_prod_beta)

lemma imem_read_AnalyzeRange [simp]: "dsp_imem_read a (AnalyzeRange b e s) = dsp_imem_read a s"
  using AnalyzeRange_frame [of b e s] by auto

lemma Analyze_frame: "\<exists>f. Analyze s = s\<lparr>code_flags := f\<rparr>"
proof -
  obtain f where "AnalyzeRange 0 0x1000 (s\<lparr>code_flags := \<lambda>_. 0\<rparr>) = s\<lparr>code_flags := f\<rparr>"
    using AnalyzeRange_frame [of 0 "0x1000" "s\<lparr>code_flags := \<lambda>_. 0\<rparr>"] by auto
  then show ?thesis
    using AnalyzeRange_frame [of "0x8000" "0x9000" "s\<lparr>code_flags := f\<rparr>"] by (auto simp: Analyze_def)
qed

lemma imem_read_Analyze [simp]: "dsp_imem_read a (Analyze s) = dsp_imem_read a s"
  using Analyze_frame [of s] by auto

lemma op_table_AnalyzeRange [simp]: "s_op_table (AnalyzeRange b e s) = s_op_table s"
  using AnalyzeRange_frame [of b e s] by auto

text \<open>The starts of instructions in instruction RAM and ROM.\<close>

definition starts :: "DSP \<Rightarrow> u16 \<Rightarrow> bool" where
  "starts s x \<longleftrightarrow> inst_start (\<lambda>a. dsp_imem_read a s) (s_op_table s) 0x1000 0 x \<or> inst_start (\<lambda>a. dsp_imem_read a s) (s_op_table s) 0x9000 0x8000 x"

lemma Analyze_flags:
  assumes "sizes_ok (s_op_table s)"
  shows "bit (code_flags (Analyze s) x) 0 \<longleftrightarrow> starts s x"
    "bit (code_flags (Analyze s) x) 2 \<longleftrightarrow> starts s x \<and> loop_end_of (\<lambda>a. dsp_imem_read a s) x \<noteq> None"
    "bit (code_flags (Analyze s) x) 3 \<longleftrightarrow> (\<exists>a. starts s a \<and> loop_end_of (\<lambda>a. dsp_imem_read a s) a = Some x)"
    "bit (code_flags (Analyze s) x) 5 \<longleftrightarrow>
       (\<exists>a t. starts s a \<and> s_op_table s (dsp_imem_read a s) = Some t \<and> may_raise t \<and> x = a + of_nat (tsize t))"
proof -
  let ?s0 = "s\<lparr>code_flags := \<lambda>_. 0\<rparr>"
  note R = AnalyzeRange_flags [where s = "AnalyzeRange 0 0x1000 ?s0" and b = "0x8000" and e = "0x9000" and x = x]
    AnalyzeRange_flags [where s = ?s0 and b = 0 and e = "0x1000" and x = x]
  show "bit (code_flags (Analyze s) x) 0 \<longleftrightarrow> starts s x" using R(1,5) assms by (auto simp: Analyze_def starts_def)
  show "bit (code_flags (Analyze s) x) 2 \<longleftrightarrow> starts s x \<and> loop_end_of (\<lambda>a. dsp_imem_read a s) x \<noteq> None"
    using R(2,6) assms by (auto simp: Analyze_def starts_def)
  show "bit (code_flags (Analyze s) x) 3 \<longleftrightarrow> (\<exists>a. starts s a \<and> loop_end_of (\<lambda>a. dsp_imem_read a s) a = Some x)"
    using R(3,7) assms by (auto simp: Analyze_def starts_def)
  show "bit (code_flags (Analyze s) x) 5 \<longleftrightarrow>
      (\<exists>a t. starts s a \<and> s_op_table s (dsp_imem_read a s) = Some t \<and> may_raise t \<and> x = a + of_nat (tsize t))"
    using R(4,8) assms by (auto simp: Analyze_def starts_def)
qed

lemma Analyze_idle:
  "bit (code_flags (Analyze s) x) (Suc 0) \<longleftrightarrow>
     (x < 0x1000 \<or> 0x8000 \<le> x \<and> x < 0x9000) \<and> idle_at (\<lambda>a. dsp_imem_read a s) x"
  by (auto simp: Analyze_def AnalyzeRange_idle)

text \<open>
  C39. The analyzer's flags are exact. With opcode templates of one or two words, a word is flagged as the start of an instruction
  iff the walk from the first word of instruction RAM or ROM to the end, each step as long as the instruction, comes to
  it and it has a template; as the end of a loop iff some instruction
  start opens a loop (LOOP, LOOPI, BLOOP, BLOOPI) whose last word it is; as the start of a
  loop iff it is an instruction start that opens one; for a check of exceptions iff it follows an instruction that may raise one; and as an idle loop iff it lies in instruction RAM or
  ROM and one of the idle signatures matches there.
\<close>

theorem analyzer_exact:
  assumes "sizes_ok (s_op_table s)"
  shows "(bit (code_flags (Analyze s) x) 0 \<longleftrightarrow> starts s x) \<and>
   (bit (code_flags (Analyze s) x) 3 \<longleftrightarrow> (\<exists>a. starts s a \<and> loop_end_of (\<lambda>a. dsp_imem_read a s) a = Some x)) \<and>
   (bit (code_flags (Analyze s) x) 2 \<longleftrightarrow> starts s x \<and> loop_end_of (\<lambda>a. dsp_imem_read a s) x \<noteq> None) \<and>
   (bit (code_flags (Analyze s) x) 5 \<longleftrightarrow>
      (\<exists>a t. starts s a \<and> s_op_table s (dsp_imem_read a s) = Some t \<and> may_raise t \<and> x = a + of_nat (tsize t))) \<and>
   (bit (code_flags (Analyze s) x) 1 \<longleftrightarrow>
      (x < 0x1000 \<or> 0x8000 \<le> x \<and> x < 0x9000) \<and> idle_at (\<lambda>a. dsp_imem_read a s) x)"
  using Analyze_flags [OF assms, of x] Analyze_idle [of s x] by simp

text \<open>BLOOPI with end 3 at 0.\<close>

theorem analyzer_exact_witness:
  "(let s = blank_dsp\<lparr>g_iram := (\<lambda>_. 0)(0 := 0x1105, 1 := 3)\<rparr>
    in bit (code_flags (Analyze s) 0) 0 \<and> bit (code_flags (Analyze s) 0) 2 \<and> bit (code_flags (Analyze s) 3) 3)"
proof -
  let ?s = "blank_dsp\<lparr>g_iram := (\<lambda>_. 0)(0 := 0x1105, 1 := 3)\<rparr>"
  have ok: "sizes_ok (s_op_table ?s)" using sizes_ok_init by (simp add: blank_dsp_def)
  have m: "dsp_imem_read 0 ?s = 0x1105" "dsp_imem_read 1 ?s = 3" by (simp_all add: dsp_imem_read_def)
  have l: "loop_end_of (\<lambda>a. dsp_imem_read a ?s) 0 = Some 3" by (simp add: loop_end_of_def m is_bloop_def)
  have st: "starts ?s 0" by (simp add: starts_def inst_start_def visited_first) (simp add: blank_dsp_def)
  show ?thesis
    using analyzer_exact [OF ok, of 0] analyzer_exact [OF ok, of 3] l st by (auto simp: Let_def)
qed

end
