(* ===== verification/DSP_Accelerator.thy ===== *)
theory DSP_Accelerator
  imports DSP_Stacks
begin

text \<open>
  The sample-fetching accelerator of \<^verbatim>\<open>Core/DSP/DSPAccelerator.cpp\<close>. The virtual methods
  \<^verbatim>\<open>ReadMemory\<close> and \<^verbatim>\<open>WriteMemory\<close> are arguments of the operations; a call of
  \<^verbatim>\<open>OnEndException\<close> is reported by a boolean result, and the override of
  \<^verbatim>\<open>LLEAccelerator\<close> acts on it. A read may fault (see \<open>DSP_Core\<close>), so it returns a result.

  C's \<^verbatim>\<open>int\<close> arithmetic of the ADPCM decoder is 32-bit word arithmetic; the arithmetic shift is
  \<open>signed_drop_bit\<close>.
\<close>

section \<open>Setters\<close>

abbreviation (input) START_END_ADDRESS_MASK :: u32 where "START_END_ADDRESS_MASK \<equiv> 0x3fffffff"
abbreviation (input) CURRENT_ADDRESS_MASK :: u32 where "CURRENT_ADDRESS_MASK \<equiv> 0xbfffffff"

definition SetStartAddress :: "u32 \<Rightarrow> Accelerator \<Rightarrow> Accelerator" where
  "SetStartAddress address a = a\<lparr>m_start_address := address AND START_END_ADDRESS_MASK\<rparr>"

definition SetEndAddress :: "u32 \<Rightarrow> Accelerator \<Rightarrow> Accelerator" where
  "SetEndAddress address a = a\<lparr>m_end_address := address AND START_END_ADDRESS_MASK\<rparr>"

definition SetCurrentAddress :: "u32 \<Rightarrow> Accelerator \<Rightarrow> Accelerator" where
  "SetCurrentAddress address a = a\<lparr>m_current_address := address AND CURRENT_ADDRESS_MASK\<rparr>"

definition SetSampleFormat :: "u16 \<Rightarrow> Accelerator \<Rightarrow> Accelerator" where
  "SetSampleFormat format a = a\<lparr>m_sample_format := format\<rparr>"

definition SetYn1 :: "u16 \<Rightarrow> Accelerator \<Rightarrow> Accelerator" where
  "SetYn1 yn1 a = a\<lparr>m_yn1 := yn1\<rparr>"

definition SetYn2 :: "u16 \<Rightarrow> Accelerator \<Rightarrow> Accelerator" where
  "SetYn2 yn2 a = a\<lparr>m_yn2 := yn2, m_reads_stopped := False\<rparr>"

definition SetPredScale :: "u16 \<Rightarrow> Accelerator \<Rightarrow> Accelerator" where
  "SetPredScale pred_scale a = a\<lparr>m_pred_scale := pred_scale AND 0x7f\<rparr>"

lemmas accel_setters = SetStartAddress_def SetEndAddress_def SetCurrentAddress_def
  SetSampleFormat_def SetYn1_def SetYn2_def SetPredScale_def

section \<open>Raw access (D3)\<close>

text \<open>Two bytes, most significant first.\<close>

definition read_be16 :: "(u32 \<Rightarrow> u8 result) \<Rightarrow> u32 \<Rightarrow> u16 result" where
  "read_be16 ReadMemory adr =
    bind_res (ReadMemory adr) (\<lambda>hi. bind_res (ReadMemory (adr + 1)) (\<lambda>lo.
      Inr (push_bit 8 (ucast hi) OR ucast lo)))"

definition ReadD3 :: "(u32 \<Rightarrow> u8 result) \<Rightarrow> Accelerator \<Rightarrow> (u16 \<times> Accelerator) result" where
  "ReadD3 ReadMemory a =
    bind_res
      (if m_sample_format a = 0x5 then
         bind_res (ReadMemory (m_current_address a)) (\<lambda>b.
           Inr (ucast b, a\<lparr>m_current_address := m_current_address a + 1\<rparr>))
       else if m_sample_format a = 0x6 then
         bind_res (read_be16 ReadMemory (m_current_address a * 2)) (\<lambda>v.
           Inr (v, a\<lparr>m_current_address := m_current_address a + 1\<rparr>))
       else Inr (0, a))
      (\<lambda>(val, a1).
        Inr (val, if m_current_address a1 \<ge> m_end_address a1
                  then a1\<lparr>m_current_address := m_start_address a1\<rparr> else a1))"

definition WriteD3 :: "(u32 \<Rightarrow> u8 \<Rightarrow> 's \<Rightarrow> 's) \<Rightarrow> u16 \<Rightarrow> Accelerator \<Rightarrow> 's \<Rightarrow> Accelerator \<times> 's" where
  "WriteD3 WriteMemory val a s =
    (if m_sample_format a = 0xA then
       (a\<lparr>m_current_address := m_current_address a + 1\<rparr>,
        WriteMemory (m_current_address a * 2 + 1) (ucast (val AND 0xFF))
          (WriteMemory (m_current_address a * 2) (ucast (drop_bit 8 val)) s))
     else (a, s))"

section \<open>Decoding reads\<close>

definition Clamp :: "int \<Rightarrow> int \<Rightarrow> int \<Rightarrow> int" where
  "Clamp val lo hi = max lo (min val hi)"

text \<open>One ADPCM sample from a nibble and the two previous samples.\<close>

definition adpcm_sample :: "u16 \<Rightarrow> (nat \<Rightarrow> u16) \<Rightarrow> u16 \<Rightarrow> u16 \<Rightarrow> u8 \<Rightarrow> u16" where
  "adpcm_sample pred_scale coefs yn1 yn2 nibble =
    (let scale = push_bit (unat (pred_scale AND 0xF)) (1 :: u32);
         coef_idx = unat (drop_bit 4 pred_scale AND 0x7);
         coef1 = scast (coefs (coef_idx * 2 + 0)) :: u32;
         coef2 = scast (coefs (coef_idx * 2 + 1)) :: u32;
         temp0 = ucast nibble :: u32;
         temp = (if temp0 \<ge> 8 then temp0 - 16 else temp0);
         val32 = scale * temp + signed_drop_bit 11 (0x400 + coef1 * scast yn1 + coef2 * scast yn2)
     in word_of_int (Clamp (sint val32) (-0x7FFF) 0x7FFF))"

text \<open>
  The switch of \<^verbatim>\<open>Accelerator::Read\<close>: the value, the updated registers and
  \<^verbatim>\<open>step_size_bytes\<close>.
\<close>

definition Read_adpcm ::
  "(u32 \<Rightarrow> u8 result) \<Rightarrow> (nat \<Rightarrow> u16) \<Rightarrow> Accelerator \<Rightarrow> (u16 \<times> Accelerator \<times> u32) result" where
  "Read_adpcm ReadMemory coefs a =
    bind_res (ReadMemory (drop_bit 1 (m_current_address a))) (\<lambda>byte.
      let val = adpcm_sample (m_pred_scale a) coefs (m_yn1 a) (m_yn2 a)
                  (if m_current_address a AND 1 \<noteq> 0 then byte AND 0xF else drop_bit 4 byte);
          cur = m_current_address a + 1;
          a1 = a\<lparr>m_yn2 := m_yn1 a, m_yn1 := val, m_current_address := cur\<rparr>
      in if m_end_address a AND 0xf = 0x0 \<and> cur = m_end_address a then
           Inr (val, a1\<lparr>m_current_address := m_start_address a + 1\<rparr>, 2)
         else if m_end_address a AND 0xf = 0x1 \<and> cur = m_end_address a - 1 then
           Inr (val, a1\<lparr>m_current_address := m_start_address a\<rparr>, 2)
         else if cur AND 15 = 0 then
           bind_res (ReadMemory (drop_bit 1 (cur AND NOT 15))) (\<lambda>ps.
             Inr (val, a1\<lparr>m_pred_scale := ucast ps, m_current_address := cur + 2\<rparr>, 4))
         else Inr (val, a1, 2))"

definition Read_pcm :: "u16 \<Rightarrow> Accelerator \<Rightarrow> u16 \<times> Accelerator \<times> u32" where
  "Read_pcm val a =
    (val, a\<lparr>m_yn2 := m_yn1 a, m_yn1 := val, m_current_address := m_current_address a + 1\<rparr>, 2)"

definition Read_sample ::
  "(u32 \<Rightarrow> u8 result) \<Rightarrow> (nat \<Rightarrow> u16) \<Rightarrow> Accelerator \<Rightarrow> (u16 \<times> Accelerator \<times> u32) result" where
  "Read_sample ReadMemory coefs a =
    (if m_sample_format a = 0x00 then Read_adpcm ReadMemory coefs a
     else if m_sample_format a = 0x0A then
       bind_res (read_be16 ReadMemory (m_current_address a * 2)) (\<lambda>v. Inr (Read_pcm v a))
     else if m_sample_format a = 0x19 then
       bind_res (ReadMemory (m_current_address a)) (\<lambda>b. Inr (Read_pcm (push_bit 8 (ucast b)) a))
     else Inr (0, a\<lparr>m_current_address := m_current_address a + 1\<rparr>, 2))"

text \<open>\<^verbatim>\<open>Accelerator::Read\<close>; the last component says whether \<^verbatim>\<open>OnEndException\<close> was called.\<close>

definition Read :: "(u32 \<Rightarrow> u8 result) \<Rightarrow> (nat \<Rightarrow> u16) \<Rightarrow> Accelerator \<Rightarrow>
    (u16 \<times> Accelerator \<times> bool) result" where
  "Read ReadMemory coefs a =
    (if m_reads_stopped a then Inr (0x0000, a, False)
     else bind_res (Read_sample ReadMemory coefs a) (\<lambda>(val, a1, step_size_bytes).
       if m_current_address a1 = m_end_address a1 + step_size_bytes - 1 then
         Inr (val, SetCurrentAddress (m_start_address a1) (a1\<lparr>m_reads_stopped := True\<rparr>), True)
       else Inr (val, SetCurrentAddress (m_current_address a1) a1, False)))"

section \<open>Behaviour\<close>

lemma Clamp_bounds: "lo \<le> hi \<Longrightarrow> lo \<le> Clamp v lo hi \<and> Clamp v lo hi \<le> hi"
  by (simp add: Clamp_def)

lemma sint_word16_of_int: "-0x8000 \<le> v \<Longrightarrow> v \<le> 0x7FFF \<Longrightarrow> sint (word_of_int v :: u16) = v"
  by (simp add: sint_sbintrunc' signed_take_bit_int_eq_self)

lemma adpcm_sample_clamped:
  "-0x7FFF \<le> sint (adpcm_sample ps coefs yn1 yn2 nib) \<and>
   sint (adpcm_sample ps coefs yn1 yn2 nib) \<le> 0x7FFF"
proof -
  have "sint (word_of_int (Clamp v (-0x7FFF) 0x7FFF) :: u16) = Clamp v (-0x7FFF) 0x7FFF" for v
    using Clamp_bounds [of "-0x7FFF" "0x7FFF" v] by (intro sint_word16_of_int) auto
  then show ?thesis
    using Clamp_bounds [of "-0x7FFF" "0x7FFF"] by (simp add: adpcm_sample_def Let_def)
qed

lemma and_30_self: "(w :: u32) \<le> 0x3fffffff \<Longrightarrow> w AND 0x3fffffff = w"
  using and_mask_self [of w 30] by (simp add: mask_eq_exp_minus_1 word_le_nat_alt)

lemma and_current_mask_self: "(w :: u32) \<le> 0x3fffffff \<Longrightarrow> w AND 0xbfffffff = w"
proof -
  assume "w \<le> 0x3fffffff"
  then have "w AND 0xbfffffff = (w AND 0x3fffffff) AND 0xbfffffff" by (simp only: and_30_self)
  also have "\<dots> = w AND 0x3fffffff" by (simp add: and.assoc)
  also have "\<dots> = w" using \<open>w \<le> 0x3fffffff\<close> by (rule and_30_self)
  finally show ?thesis .
qed

text \<open>Once reading stopped, every read is zero and changes nothing, until \<open>SetYn2\<close>.\<close>

lemma Read_stopped: "m_reads_stopped a \<Longrightarrow> Read ReadMemory coefs a = Inr (0, a, False)"
  by (simp add: Read_def)

text \<open>\<open>n\<close> reads in a row: the samples, the final registers, the number of exceptions raised.\<close>

fun Reads :: "(u32 \<Rightarrow> u8 result) \<Rightarrow> (nat \<Rightarrow> u16) \<Rightarrow> nat \<Rightarrow> Accelerator \<Rightarrow>
    (u16 list \<times> Accelerator \<times> nat) result" where
  "Reads ReadMemory coefs 0 a = Inr ([], a, 0)"
| "Reads ReadMemory coefs (Suc n) a =
     bind_res (Read ReadMemory coefs a) (\<lambda>(v, a1, e).
       bind_res (Reads ReadMemory coefs n a1) (\<lambda>(vs, a2, m).
         Inr (v # vs, a2, (if e then 1 else 0) + m)))"

definition be16_at :: "(u32 \<Rightarrow> u8) \<Rightarrow> u32 \<Rightarrow> u16" where
  "be16_at mem adr = push_bit 8 (ucast (mem adr)) OR ucast (mem (adr + 1))"

lemma read_be16_total [simp]: "read_be16 (\<lambda>a. Inr (mem a)) adr = Inr (be16_at mem adr)"
  by (simp add: read_be16_def be16_at_def)

lemma Read_pcm16_step:
  assumes "m_sample_format a = 0x0A" "\<not> m_reads_stopped a"
    and "m_current_address a < m_end_address a" "m_end_address a \<le> 0x3fffffff"
  shows "Read (\<lambda>a. Inr (mem a)) coefs a =
    Inr (be16_at mem (m_current_address a * 2),
         a\<lparr>m_yn2 := m_yn1 a, m_yn1 := be16_at mem (m_current_address a * 2),
           m_current_address := m_current_address a + 1\<rparr>, False)"
proof -
  have "m_current_address a + 1 \<le> m_end_address a" using assms(3) by (rule inc_le)
  then have "(m_current_address a + 1) AND 0xbfffffff = m_current_address a + 1"
    using assms(4) by (intro and_current_mask_self) order
  moreover have "m_current_address a + 1 \<noteq> m_end_address a + 1" using assms(3) by auto
  ultimately show ?thesis
    using assms by (simp add: Read_def Read_sample_def Read_pcm_def SetCurrentAddress_def)
qed

lemma Read_pcm16_end:
  assumes "m_sample_format a = 0x0A" "\<not> m_reads_stopped a"
    and "m_current_address a = m_end_address a" "m_start_address a \<le> 0x3fffffff"
  shows "Read (\<lambda>a. Inr (mem a)) coefs a =
    Inr (be16_at mem (m_current_address a * 2),
         a\<lparr>m_yn2 := m_yn1 a, m_yn1 := be16_at mem (m_current_address a * 2),
           m_current_address := m_start_address a, m_reads_stopped := True\<rparr>, True)"
  using assms and_current_mask_self [of "m_start_address a"]
  by (simp add: Read_def Read_sample_def Read_pcm_def SetCurrentAddress_def)

lemma Reads_pcm16:
  assumes "m_sample_format a = 0x0A" "\<not> m_reads_stopped a"
    and "m_current_address a \<le> m_end_address a" "m_end_address a \<le> 0x3fffffff"
    and "m_start_address a \<le> 0x3fffffff"
    and "n = unat (m_end_address a - m_current_address a)"
  shows "\<exists>a'. Reads (\<lambda>a. Inr (mem a)) coefs (Suc n) a =
      Inr (map (\<lambda>i. be16_at mem ((m_current_address a + of_nat i) * 2)) [0..<Suc n], a', 1) \<and>
    m_current_address a' = m_start_address a \<and> m_reads_stopped a'"
  using assms
proof (induction n arbitrary: a)
  case 0
  then have "m_current_address a = m_end_address a" by (simp add: unat_eq_0)
  with 0 show ?case by (simp add: Read_pcm16_end)
next
  case (Suc n)
  then have less: "m_current_address a < m_end_address a"
    by (metis Suc_neq_Zero diff_self order_le_less unat_0)
  let ?b = "a\<lparr>m_yn2 := m_yn1 a, m_yn1 := be16_at mem (m_current_address a * 2),
    m_current_address := m_current_address a + 1\<rparr>"
  have "n = unat (m_end_address a - (m_current_address a + 1))"
    using Suc.prems(6) unat_minus_one [of "m_end_address a - m_current_address a"] less
    by (simp add: diff_diff_eq)
  moreover have "m_current_address a + 1 \<le> m_end_address a" using less by (rule inc_le)
  ultimately obtain a' where IH: "Reads (\<lambda>a. Inr (mem a)) coefs (Suc n) ?b =
      Inr (map (\<lambda>i. be16_at mem ((m_current_address ?b + of_nat i) * 2)) [0..<Suc n], a', 1)"
    "m_current_address a' = m_start_address ?b" "m_reads_stopped a'"
    using Suc.IH [of ?b] Suc.prems by auto
  have "map (\<lambda>i. be16_at mem ((m_current_address a + of_nat i) * 2)) [0..<Suc (Suc n)] =
    be16_at mem (m_current_address a * 2) #
      map (\<lambda>i. be16_at mem ((m_current_address a + 1 + of_nat i) * 2)) [0..<Suc n]"
    by (subst upt_conv_Cons) (simp_all add: map_Suc_upt [symmetric] add.assoc del: upt_Suc)
  then show ?case
    using IH Read_pcm16_step [OF Suc.prems(1,2) less Suc.prems(4)]
    by (simp del: upt_Suc Reads.simps(2) add: Reads.simps(2) [of _ _ "Suc n"])
qed

section \<open>ADPCM samples\<close>

lemma sint_u32_of_int: "-0x80000000 \<le> v \<Longrightarrow> v \<le> 0x7FFFFFFF \<Longrightarrow> sint (word_of_int v :: u32) = v"
  by (simp add: sint_sbintrunc' signed_take_bit_int_eq_self)

lemma sint_u16_bounds: "-0x8000 \<le> sint (w :: u16)" "sint (w :: u16) \<le> 0x7FFF"
  using sint_ge [of w] sint_lt [of w] by simp_all

lemma coef_mult_bounds:
  assumes "\<bar>c\<bar> \<le> 0x8000" "\<bar>y\<bar> \<le> (0x7FFF :: int)"
  shows "\<bar>c * y\<bar> \<le> 0x3FFF8000"
proof -
  have "\<bar>c\<bar> * \<bar>y\<bar> \<le> 0x8000 * 0x7FFF" using assms by (intro mult_mono) auto
  then show ?thesis by (simp add: abs_mult)
qed

text \<open>The prediction, as an exact integer.\<close>

definition adpcm_prediction :: "u16 \<Rightarrow> (nat \<Rightarrow> u16) \<Rightarrow> u16 \<Rightarrow> u16 \<Rightarrow> int" where
  "adpcm_prediction ps coefs yn1 yn2 =
    (let k = unat (drop_bit 4 ps AND 0x7)
     in 0x400 + sint (coefs (2 * k)) * sint yn1 + sint (coefs (2 * k + 1)) * sint yn2)"

lemma adpcm_prediction_bounds:
  assumes "\<bar>sint yn1\<bar> \<le> 0x7FFF" "\<bar>sint yn2\<bar> \<le> 0x7FFF"
  shows "\<bar>adpcm_prediction ps coefs yn1 yn2\<bar> \<le> 0x7FFF0400"
proof -
  have c: "\<bar>sint (coefs n)\<bar> \<le> 0x8000" for n using sint_u16_bounds [of "coefs n"] by (simp add: abs_le_iff)
  show ?thesis
    using coef_mult_bounds [OF c assms(1)] coef_mult_bounds [OF c assms(2)]
    by (simp add: adpcm_prediction_def Let_def abs_le_iff) (smt (verit))
qed

lemma signed_drop_bit_of_int:
  assumes "-0x80000000 \<le> v" "v \<le> 0x7FFFFFFF"
  shows "signed_drop_bit n (word_of_int v :: u32) = word_of_int (v div 2 ^ n)"
proof -
  have "sint (signed_drop_bit n (word_of_int v :: u32)) = v div 2 ^ n"
    using assms by (simp add: sint_signed_drop_bit_eq sint_u32_of_int drop_bit_eq_div)
  then show ?thesis by (metis of_int_sint scast_id)
qed

text \<open>
  C38. ADPCM decoding is exact: as long as the two previous samples are in the symmetric 16-bit
  range, which every decoded sample is, no 32-bit operation of the decoder wraps and the sample
  is the clamped sum of the scaled signed nibble and the rounded prediction.
\<close>

theorem adpcm_exact:
  assumes "\<bar>sint yn1\<bar> \<le> 0x7FFF" "\<bar>sint yn2\<bar> \<le> 0x7FFF" "nib < 16"
  shows "sint (adpcm_sample ps coefs yn1 yn2 nib) =
      max (-0x7FFF) (min 0x7FFF (2 ^ unat (ps AND 0xF) * (if nib < 8 then uint nib else uint nib - 16) +
        adpcm_prediction ps coefs yn1 yn2 div 2048)) \<and>
    \<bar>sint (adpcm_sample ps coefs yn1 yn2 nib)\<bar> \<le> 0x7FFF"
proof -
  define k where "k = unat (drop_bit 4 ps AND 0x7)"
  define e where "e = unat (ps AND 0xF)"
  define T where "T = (if nib < 8 then uint nib else uint nib - 16)"
  define P where "P = adpcm_prediction ps coefs yn1 yn2"
  have P: "\<bar>P\<bar> \<le> 0x7FFF0400" unfolding P_def by (rule adpcm_prediction_bounds [OF assms(1,2)])
  have "word_of_int P = (0x400 + scast (coefs (k * 2 + 0)) * scast yn1 + scast (coefs (k * 2 + 1)) * scast yn2 :: u32)"
    by (simp add: P_def adpcm_prediction_def Let_def k_def mult.commute)
  then have shift: "signed_drop_bit 11 (0x400 + scast (coefs (k * 2 + 0)) * scast yn1 +
      scast (coefs (k * 2 + 1)) * scast yn2 :: u32) = word_of_int (P div 2048)"
    using signed_drop_bit_of_int [of P 11] P by (simp add: abs_le_iff)
  have temp: "(if (ucast nib :: u32) \<ge> 8 then ucast nib - 16 else ucast nib) = (word_of_int T :: u32)"
    using assms(3) by (simp add: T_def word_less_nat_alt word_le_nat_alt unsigned_ucast_eq take_bit_nat_eq_self)
  have "e < 16"
    using unat_and_mask [of ps 4] by (simp add: e_def mask_eq_exp_minus_1)
  then have "(2 :: int) ^ e \<le> 2 ^ 15" by (intro power_increasing) simp_all
  moreover have "\<bar>T\<bar> \<le> 8" using assms(3) by (auto simp: T_def word_less_def)
  ultimately have "2 ^ e * \<bar>T\<bar> \<le> 2 ^ 15 * 8" by (intro mult_mono) simp_all
  then have "\<bar>2 ^ e * T\<bar> \<le> 0x40000" by (simp add: abs_mult)
  moreover have "\<bar>P div 2048\<bar> \<le> 0x100000" using P by linarith
  ultimately have "sint (word_of_int (2 ^ e * T + P div 2048) :: u32) = 2 ^ e * T + P div 2048"
    by (intro sint_u32_of_int) (simp_all add: abs_le_iff)
  then have "adpcm_sample ps coefs yn1 yn2 nib = word_of_int (Clamp (2 ^ e * T + P div 2048) (-0x7FFF) 0x7FFF)"
    unfolding adpcm_sample_def Let_def k_def [symmetric] e_def [symmetric] shift temp
    by (simp add: push_bit_eq_mult)
  moreover note Clamp_bounds [of "-0x7FFF" "0x7FFF" "2 ^ e * T + P div 2048"]
  ultimately have "sint (adpcm_sample ps coefs yn1 yn2 nib) = Clamp (2 ^ e * T + P div 2048) (-0x7FFF) 0x7FFF"
    by (simp add: sint_word16_of_int)
  then show ?thesis by (simp add: Clamp_def T_def P_def e_def abs_le_iff min.commute)
qed

theorem adpcm_exact_witness:
  "sint (adpcm_sample 0x13 (\<lambda>n. if n = 2 then 0x800 else 0xfc00) 100 (-50) 0xe) = 109"
proof -
  have "adpcm_prediction 0x13 (\<lambda>n. if n = 2 then 0x800 else 0xfc00) 100 (-50) = 0x400 + 2048 * 100 + 1024 * 50"
    by (simp add: adpcm_prediction_def Let_def)
  then show ?thesis
    using adpcm_exact [of 100 "-50" "0xe" "0x13" "\<lambda>n. if n = 2 then 0x800 else 0xfc00"] by simp
qed

text \<open>
  Playing a 16-bit PCM buffer from the current to the end address (inclusive) returns its big-endian samples
  in order, raises the end exception exactly once, at the last sample, goes back to the start
  address and stops: after that every read is zero and changes nothing.
\<close>

theorem pcm16_playback:
  assumes "m_sample_format a = 0x0A" "\<not> m_reads_stopped a"
    and "m_current_address a \<le> m_end_address a" "m_end_address a \<le> 0x3fffffff"
    and "m_start_address a \<le> 0x3fffffff"
    and "n = unat (m_end_address a - m_current_address a)"
  shows "\<exists>a'. Reads (\<lambda>a. Inr (mem a)) coefs (Suc n) a =
      Inr (map (\<lambda>i. be16_at mem ((m_current_address a + of_nat i) * 2)) [0..<Suc n], a', 1) \<and>
    m_current_address a' = m_start_address a \<and>
    Read (\<lambda>a. Inr (mem a)) coefs a' = Inr (0, a', False)"
  using Reads_pcm16 [OF assms, of mem coefs] Read_stopped by blast

theorem pcm16_playback_witness:
  "\<exists>a'. Reads (\<lambda>a. Inr (ucast a)) (\<lambda>_. 0) (Suc 2)
      (zero_accelerator\<lparr>m_sample_format := 0x0A, m_start_address := 0x10, m_current_address := 0x11,
         m_end_address := 0x13\<rparr>) = Inr ([0x2223, 0x2425, 0x2627], a', 1) \<and> m_current_address a' = 0x10"
proof -
  let ?a = "zero_accelerator\<lparr>m_sample_format := 0x0A, m_start_address := 0x10, m_current_address := 0x11,
    m_end_address := 0x13\<rparr>"
  have f: "m_current_address ?a = 0x11" "m_start_address ?a = 0x10" by simp_all
  have "map (\<lambda>i. be16_at ucast ((0x11 + of_nat i) * 2)) [0..<Suc 2] = [0x2223, 0x2425, 0x2627]"
    by (simp add: be16_at_def upt_rec)
  moreover have "\<exists>a'. Reads (\<lambda>a. Inr (ucast a)) (\<lambda>_. 0) (Suc 2) ?a =
      Inr (map (\<lambda>i. be16_at ucast ((m_current_address ?a + of_nat i) * 2)) [0..<Suc 2], a', 1) \<and>
    m_current_address a' = m_start_address ?a \<and> Read (\<lambda>a. Inr (ucast a)) (\<lambda>_. 0) a' = Inr (0, a', False)"
    by (rule pcm16_playback) (simp_all add: zero_accelerator_def)
  ultimately show ?thesis unfolding f by metis
qed

end
