(* ===== verification/Common_Hash.thy ===== *)
theory Common_Hash
  imports Prelude
begin

text \<open>
  The two hash functions of \<^verbatim>\<open>Common/Hash.cpp\<close> that the DSP core uses: \<^verbatim>\<open>HashAdler32\<close>
  identifies ROM images, \<^verbatim>\<open>HashEctor\<close> names microcode. A pointer and a length are the list of
  the bytes they denote.

  \<^verbatim>\<open>HashAdler32\<close> defers the reductions modulo 65521 to the end of blocks of 5550 bytes; the
  lemmas show that the 32-bit sums never wrap and that the result is the checksum computed with a
  reduction at every byte.
\<close>

section \<open>HashEctor\<close>

definition HashEctor :: "u8 list \<Rightarrow> u32" where
  "HashEctor data = fold (\<lambda>x crc. let c = crc XOR ucast x in push_bit 3 c OR drop_bit 29 c) data 0"

section \<open>HashAdler32\<close>

abbreviation (input) MOD_ADLER :: u32 where "MOD_ADLER \<equiv> 65521"

text \<open>The \<^verbatim>\<open>do\<close> loop over one block, and the partial reduction after it.\<close>

fun adler_block :: "u8 list \<Rightarrow> u32 \<Rightarrow> u32 \<Rightarrow> u32 \<times> u32" where
  "adler_block [] a b = (a, b)"
| "adler_block (x # xs) a b = adler_block xs (a + ucast x) (b + (a + ucast x))"

definition adler_fold :: "u32 \<Rightarrow> u32" where
  "adler_fold a = (a AND 0xffff) + drop_bit 16 a * (65536 - MOD_ADLER)"

function adler_loop :: "u8 list \<Rightarrow> u32 \<Rightarrow> u32 \<Rightarrow> u32 \<times> u32" where
  "adler_loop data a b =
    (if data = [] then (a, b)
     else let (a1, b1) = adler_block (take 5550 data) a b
          in adler_loop (drop 5550 data) (adler_fold a1) (adler_fold b1))"
  by auto
termination
  by (relation "measure (\<lambda>(data, a, b). length data)") auto

declare adler_loop.simps [simp del]

definition HashAdler32 :: "u8 list \<Rightarrow> u32" where
  "HashAdler32 data =
    (let (a, b) = adler_loop data 1 0;
         a1 = (if a \<ge> MOD_ADLER then a - MOD_ADLER else a);
         b1 = adler_fold b;
         b2 = (if b1 \<ge> MOD_ADLER then b1 - MOD_ADLER else b1)
     in push_bit 16 b2 OR a1)"

section \<open>The reference checksum\<close>

fun adler_spec :: "u8 list \<Rightarrow> nat \<Rightarrow> nat \<Rightarrow> nat \<times> nat" where
  "adler_spec [] a b = (a, b)"
| "adler_spec (x # xs) a b =
    (let a1 = (a + unat x) mod 65521 in adler_spec xs a1 ((b + a1) mod 65521))"

definition Adler32 :: "u8 list \<Rightarrow> nat" where
  "Adler32 data = (let (a, b) = adler_spec data 1 0 in b * 65536 + a)"

lemma adler_spec_append:
  "adler_spec (xs @ ys) a b = (case adler_spec xs a b of (a1, b1) \<Rightarrow> adler_spec ys a1 b1)"
  by (induction xs arbitrary: a b) (simp_all add: Let_def)

section \<open>No wrap-around inside a block\<close>

fun adler_sums :: "u8 list \<Rightarrow> nat \<Rightarrow> nat \<Rightarrow> nat \<times> nat" where
  "adler_sums [] a b = (a, b)"
| "adler_sums (x # xs) a b = adler_sums xs (a + unat x) (b + (a + unat x))"

lemma adler_sums_bound:
  "adler_sums xs a b = (a1, b1) \<Longrightarrow>
     a1 \<le> a + 255 * length xs \<and>
     2 * b1 \<le> 2 * b + 2 * length xs * a + 255 * length xs * (length xs + 1)"
proof (induction xs arbitrary: a b)
  case (Cons x xs)
  have x: "unat x \<le> 255" using unat_u8_less [of x] by simp
  have IH: "a1 \<le> a + unat x + 255 * length xs"
    "2 * b1 \<le> 2 * (b + (a + unat x)) + 2 * length xs * (a + unat x) + 255 * length xs * (length xs + 1)"
    using Cons.IH [of "a + unat x" "b + (a + unat x)"] Cons.prems by simp_all
  define m where "m = length xs * unat x"
  have m: "m \<le> 255 * length xs" using x by (simp add: m_def)
  have "2 * b1 \<le> 2 * b + 2 * a + 2 * unat x + 2 * length xs * a + 2 * m +
      255 * length xs * (length xs + 1)"
    using IH(2) by (simp add: m_def algebra_simps)
  with IH(1) x m show ?case by (simp add: algebra_simps)
qed simp

lemma adler_sums_mono:
  "adler_sums xs a b = (a1, b1) \<Longrightarrow> a \<le> a1 \<and> b \<le> b1"
  by (induction xs arbitrary: a b) fastforce+

lemma adler_block_unat:
  assumes "adler_sums xs (unat a) (unat b) = (a1, b1)" "a1 < 2 ^ 32" "b1 < 2 ^ 32"
  shows "(\<lambda>(u, v). (unat u, unat v)) (adler_block xs a b) = (a1, b1)"
  using assms
proof (induction xs arbitrary: a b)
  case (Cons x xs)
  have mono: "unat a + unat x \<le> a1" "unat b + (unat a + unat x) \<le> b1"
    using Cons.prems(1) adler_sums_mono by fastforce+
  have ux: "unat (ucast x :: u32) = unat x" by (simp add: unsigned_ucast_eq take_bit_nat_eq_self unat_u8_less order.strict_trans [OF unat_u8_less])
  have ua: "unat (a + ucast x) = unat a + unat x"
    using mono(1) Cons.prems(2) by (subst unat_add_lem [THEN iffD1]) (simp_all add: ux)
  have ub: "unat (b + (a + ucast x)) = unat b + (unat a + unat x)"
    using mono(2) Cons.prems(3) by (subst unat_add_lem [THEN iffD1]) (simp_all add: ua)
  show ?case
    using Cons.IH [of "a + ucast x" "b + (a + ucast x)"] Cons.prems by (simp add: ua ub)
qed simp

section \<open>The deferred reductions are exact\<close>

lemma adler_sums_cong:
  "adler_sums xs a b = (a1, b1) \<Longrightarrow> adler_spec xs (a mod 65521) (b mod 65521) = (a1 mod 65521, b1 mod 65521)"
proof (induction xs arbitrary: a b)
  case (Cons x xs)
  have "(a mod 65521 + unat x) mod 65521 = (a + unat x) mod 65521" by (simp add: mod_add_left_eq)
  moreover have "(b mod 65521 + (a + unat x) mod 65521) mod 65521 = (b + (a + unat x)) mod 65521"
    by (simp add: mod_add_eq)
  ultimately show ?case
    using Cons.IH [of "a + unat x" "b + (a + unat x)"] Cons.prems by (simp add: Let_def)
qed simp

definition nat_fold :: "nat \<Rightarrow> nat" where "nat_fold v = v mod 65536 + v div 65536 * 15"

lemma nat_fold_mod: "nat_fold v mod 65521 = v mod 65521"
proof -
  have "v = nat_fold v + 65521 * (v div 65536)"
    using div_mult_mod_eq [of v 65536] by (simp add: nat_fold_def)
  then show ?thesis by (metis mod_mult_self2)
qed

lemma nat_fold_a: "v \<le> 1481100 \<Longrightarrow> nat_fold v \<le> 65850"
proof -
  assume v: "v \<le> 1481100"
  define h l where "h = v div 65536" and "l = v mod 65536"
  have eq: "v = h * 65536 + l" by (simp add: h_def l_def)
  have l: "l \<le> 65535" by (simp add: l_def)
  have "l + h * 15 \<le> 65850" using v eq l by (cases "h \<le> 21") linarith+
  then show ?thesis by (simp add: nat_fold_def h_def l_def)
qed

lemma nat_fold_b: "v < 2 ^ 32 \<Longrightarrow> nat_fold v \<le> 1048560"
proof -
  assume "v < 2 ^ 32"
  then have "v div 65536 \<le> 65535" by simp
  moreover have "v mod 65536 \<le> 65535" by simp
  ultimately show ?thesis by (simp add: nat_fold_def)
qed

lemma unat_adler_fold: "unat (adler_fold a) = nat_fold (unat a)"
proof -
  have lo: "unat (a AND 0xffff) = unat a mod 65536"
    using unat_and_mask [of a 16] by (simp add: mask_eq_exp_minus_1)
  have hi: "unat (drop_bit 16 a) = unat a div 65536"
    by (simp add: unat_drop_bit)
  have "unat a < 2 ^ LENGTH(32)" by (rule unsigned_less)
  then have b: "unat a < 2 ^ 32" by simp
  then have h: "unat a div 65536 \<le> 65535" by simp
  have m: "unat (drop_bit 16 a * 15) = unat a div 65536 * 15"
    using h by (subst unat_mult_lem [THEN iffD1]) (simp_all add: hi)
  have "unat a mod 65536 + unat a div 65536 * 15 < 2 ^ 32"
    using nat_fold_b [OF b] by (simp add: nat_fold_def)
  then show ?thesis
    by (simp add: adler_fold_def nat_fold_def) (subst unat_add_lem [THEN iffD1], simp_all add: lo m)
qed

lemma adler_block_step:
  assumes "unat a \<le> 65850" "unat b \<le> 1048560" "length xs \<le> 5550"
    and "adler_block xs a b = (a1, b1)"
  shows "unat (adler_fold a1) \<le> 65850" "unat (adler_fold b1) \<le> 1048560"
    "adler_spec xs (unat a mod 65521) (unat b mod 65521) =
       (unat (adler_fold a1) mod 65521, unat (adler_fold b1) mod 65521)"
proof -
  obtain u v where s: "adler_sums xs (unat a) (unat b) = (u, v)" by fastforce
  have len: "length xs * (length xs + 1) \<le> 5550 * 5551" using assms(3) by (intro mult_le_mono) auto
  have la: "length xs * unat a \<le> 5550 * 65850" using assms by (intro mult_le_mono) auto
  have bounds: "u \<le> unat a + 255 * length xs"
    "2 * v \<le> 2 * unat b + 2 * (length xs * unat a) + 255 * (length xs * (length xs + 1))"
    using adler_sums_bound [OF s] by (auto simp: mult.assoc)
  have u: "u \<le> 1481100" using bounds(1) assms by linarith
  have v: "v < 2 ^ 32" using bounds(2) len la assms(2) by simp
  have "(\<lambda>(u, v). (unat u, unat v)) (adler_block xs a b) = (u, v)"
    using u v by (intro adler_block_unat [OF s]) auto
  then have eq: "unat a1 = u" "unat b1 = v" using assms(4) by auto
  show "unat (adler_fold a1) \<le> 65850" "unat (adler_fold b1) \<le> 1048560"
    using nat_fold_a [OF u] nat_fold_b [OF v] by (simp_all add: unat_adler_fold eq)
  show "adler_spec xs (unat a mod 65521) (unat b mod 65521) =
      (unat (adler_fold a1) mod 65521, unat (adler_fold b1) mod 65521)"
    using adler_sums_cong [OF s] by (simp add: unat_adler_fold eq nat_fold_mod)
qed

lemma adler_loop_spec:
  assumes "unat a \<le> 65850" "unat b \<le> 1048560" "adler_loop data a b = (a1, b1)"
  shows "unat a1 \<le> 65850 \<and> unat b1 \<le> 1048560 \<and>
    adler_spec data (unat a mod 65521) (unat b mod 65521) = (unat a1 mod 65521, unat b1 mod 65521)"
  using assms
proof (induction data a b rule: adler_loop.induct)
  case (1 data a b)
  show ?case
  proof (cases "data = []")
    case True
    with 1 show ?thesis by (auto simp: adler_loop.simps [of "[]"])
  next
    case False
    obtain a2 b2 where blk: "adler_block (take 5550 data) a b = (a2, b2)" by fastforce
    note st = adler_block_step [OF "1.prems"(1,2) _ blk, simplified]
    have "adler_loop (drop 5550 data) (adler_fold a2) (adler_fold b2) = (a1, b1)"
      using "1.prems"(3) False by (simp add: adler_loop.simps [of data] blk)
    then have IH: "unat a1 \<le> 65850 \<and> unat b1 \<le> 1048560 \<and>
        adler_spec (drop 5550 data) (unat (adler_fold a2) mod 65521) (unat (adler_fold b2) mod 65521) =
        (unat a1 mod 65521, unat b1 mod 65521)"
      by (intro "1.IH" [OF False blk [symmetric] refl st(1,2)])
    have "adler_spec data (unat a mod 65521) (unat b mod 65521) =
        adler_spec (drop 5550 data) (unat (adler_fold a2) mod 65521) (unat (adler_fold b2) mod 65521)"
      using adler_spec_append [of "take 5550 data" "drop 5550 data"] st(3) by simp
    with IH show ?thesis by simp
  qed
qed

lemma reduce_once: "unat (w :: u32) < 2 * 65521 \<Longrightarrow>
   unat (if w \<ge> 65521 then w - 65521 else w) = unat w mod 65521"
proof (cases "w \<ge> 65521")
  case True
  assume b: "unat w < 2 * 65521"
  from True have "unat (w - 65521) = unat w - 65521" by (simp add: unat_sub)
  moreover have "65521 \<le> unat w" using True by (simp add: word_le_nat_alt)
  ultimately show ?thesis using True b by (simp add: le_mod_geq)
qed (simp add: word_le_nat_alt not_le)

lemma unat_push16_or:
  assumes "unat (h :: u32) < 65536" "unat (l :: u32) < 65536"
  shows "unat (push_bit 16 h OR l) = unat h * 65536 + unat l"
proof -
  have "unat h * 65536 < 2 ^ 32" using assms(1) by simp
  then have p: "unat (push_bit 16 h) = unat h * 65536"
    using unat_push_bit [of h 16] by simp
  have "push_bit 16 h AND l = 0"
  proof (rule bit_word_eqI)
    fix n assume "n < LENGTH(32)"
    have "l = take_bit 16 l"
      using and_mask_self [of l 16] assms(2) by (simp add: take_bit_eq_mask)
    then have "bit l n \<Longrightarrow> n < 16" by (metis bit_take_bit_iff)
    then show "bit (push_bit 16 h AND l) n = bit (0 :: u32) n"
      by (auto simp: bit_and_iff bit_push_bit_iff)
  qed
  then have "push_bit 16 h OR l = push_bit 16 h + l" by (simp add: disjunctive_add_eq_or)
  moreover have "unat (push_bit 16 h) + unat l < 2 ^ 32" using assms p by simp
  then have "unat (push_bit 16 h + l) = unat (push_bit 16 h) + unat l"
    by (subst unat_add_lem [THEN iffD1]) simp_all
  ultimately show ?thesis by (simp only: p)
qed

text \<open>
  C40. HashAdler32, which delays the reductions modulo 65521 to the end of blocks of 5550 bytes,
  computes the Adler-32 checksum that reduces at every byte, for every input: no 32-bit sum wraps.
\<close>

theorem adler_exact: "unat (HashAdler32 data) = Adler32 data"
proof -
  obtain a b where l: "adler_loop data 1 0 = (a, b)" by fastforce
  have spec: "unat a \<le> 65850" "unat b \<le> 1048560"
    "adler_spec data 1 0 = (unat a mod 65521, unat b mod 65521)"
    using adler_loop_spec [OF _ _ l] by auto
  have fb: "unat (adler_fold b) < 2 * 65521"
  proof -
    have "unat b div 65536 \<le> 15" using spec(2) by simp
    moreover have "unat b mod 65536 \<le> 65535" by simp
    ultimately show ?thesis by (simp add: unat_adler_fold nat_fold_def)
  qed
  have ra: "unat (if a \<ge> 65521 then a - 65521 else a) = unat a mod 65521"
    using spec(1) by (intro reduce_once) simp
  have rb: "unat (if adler_fold b \<ge> 65521 then adler_fold b - 65521 else adler_fold b) = unat b mod 65521"
    using reduce_once [OF fb] by (simp add: unat_adler_fold nat_fold_mod)
  have small: "unat a mod 65521 < 65536" "unat b mod 65521 < 65536"
    using mod_less_divisor [of 65521 "unat a"] mod_less_divisor [of 65521 "unat b"] by simp_all
  have "unat (push_bit 16 (if adler_fold b \<ge> 65521 then adler_fold b - 65521 else adler_fold b) OR
      (if a \<ge> 65521 then a - 65521 else a)) = unat b mod 65521 * 65536 + unat a mod 65521"
    using small by (subst unat_push16_or) (simp_all only: ra rb)
  then show ?thesis using spec(3) by (simp add: HashAdler32_def l Let_def Adler32_def)
qed

end
