(* ===== verification/DSP_Core.thy ===== *)
theory DSP_Core
  imports DSP_Stacks DSP_Analyzer DSP_Accelerator Common_Hash
begin

text \<open>
  The operations of \<^verbatim>\<open>Core/DSP/DSPCore.cpp\<close> that do not run instructions: initialisation and
  ROM verification, reset, the exception logic, the debugger's register file, and
  \<^verbatim>\<open>InitInstructionTable\<close> of \<^verbatim>\<open>Core/DSP/DSPTables.cpp\<close>.

  The locale \<open>register_file\<close> is the read/write contract of a bank of registers; it is interpreted
  on \<^verbatim>\<open>DSPCore_ReadRegister\<close> and \<^verbatim>\<open>DSPCore_WriteRegister\<close>, whose registers are partly lanes
  of the same 64-bit unions.
\<close>

section \<open>Status register flags\<close>

definition dsp_SR_set_flag :: "u16 \<Rightarrow> DSP \<Rightarrow> DSP" where
  "dsp_SR_set_flag flag s = s\<lparr>r_sr := r_sr s OR flag\<rparr>"

definition dsp_SR_is_flag_set :: "u16 \<Rightarrow> DSP \<Rightarrow> bool" where
  "dsp_SR_is_flag_set flag s \<longleftrightarrow> r_sr s AND flag \<noteq> 0"

section \<open>Tables\<close>

definition InitInstructionTable :: "DSP \<Rightarrow> DSP" where
  "InitInstructionTable s =
    s\<lparr>s_op_table := (\<lambda>i. Some (init_op_table i)), writeBackLogIdx := (\<lambda>_. -1),
      s_tables_initialized := True\<rparr>"

definition GetOpTemplate :: "UDSPInstruction \<Rightarrow> DSP \<Rightarrow> DSPOPCTemplate option" where
  "GetOpTemplate inst s = s_op_table s inst"

section \<open>Reset and exceptions\<close>

definition DSPCore_Reset :: "DSP \<Rightarrow> DSP" where
  "DSPCore_Reset s = Analyze (s\<lparr>g_pc := DSP_RESET_VECTOR, r_wr := (\<lambda>_. 0xffff)\<rparr>)"

definition DSPCore_SetException :: "ExceptionType \<Rightarrow> DSP \<Rightarrow> DSP" where
  "DSPCore_SetException exception s =
    s\<lparr>g_exceptions := g_exceptions s OR push_bit (exception_value exception) 1\<rparr>"

definition DSPCore_SetExternalInterrupt :: "bool \<Rightarrow> DSP \<Rightarrow> DSP" where
  "DSPCore_SetExternalInterrupt val s = s\<lparr>g_external_interrupt_waiting := val\<rparr>"

definition DSPCore_CheckExternalInterrupt :: "DSP \<Rightarrow> DSP" where
  "DSPCore_CheckExternalInterrupt s =
    (if \<not> dsp_SR_is_flag_set SR_EXT_INT_ENABLE s then s
     else let s1 = DSPCore_SetException ExternalInterrupt s
          in s1\<lparr>g_cr := g_cr s1 AND NOT CR_EXTERNAL_INT\<rparr>)"

text \<open>The taken branch inside the loop of \<^verbatim>\<open>DSPCore_CheckExceptions\<close>.\<close>

definition fire_exception :: "nat \<Rightarrow> DSP \<Rightarrow> DSP" where
  "fire_exception i s =
    (let s1 = dsp_reg_store_stack Call (g_pc s) s;
         s2 = dsp_reg_store_stack Data (r_sr s1) s1
     in s2\<lparr>g_pc := of_nat (i * 2),
           g_exceptions := g_exceptions s2 AND NOT (push_bit i 1),
           r_sr := r_sr s2 AND NOT (if i = 7 then SR_EXT_INT_ENABLE else SR_INT_ENABLE)\<rparr>)"

fun check_exceptions_from :: "nat \<Rightarrow> DSP \<Rightarrow> DSP" where
  "check_exceptions_from 0 s = s"
| "check_exceptions_from (Suc n) s =
    (let i = Suc n
     in if g_exceptions s AND push_bit i 1 \<noteq> 0 then
          (if dsp_SR_is_flag_set SR_INT_ENABLE s \<or> i = exception_value ExternalInterrupt
           then fire_exception i s
           else check_exceptions_from n s)
        else check_exceptions_from n s)"

definition DSPCore_CheckExceptions :: "DSP \<Rightarrow> DSP" where
  "DSPCore_CheckExceptions s = (if g_exceptions s = 0 then s else check_exceptions_from 7 s)"

section \<open>Run state\<close>

definition DSPCore_SetState :: "CoreState \<Rightarrow> DSP \<Rightarrow> DSP" where
  "DSPCore_SetState new_state s = s\<lparr>core_state := new_state\<rparr>"

definition DSPCore_Shutdown :: "DSP \<Rightarrow> DSP" where
  "DSPCore_Shutdown s = (if core_state s = Stopped then s else s\<lparr>core_state := Stopped\<rparr>)"

section \<open>Initialisation\<close>

record DSPInitOptions =
  irom_contents :: "u16 \<Rightarrow> u16"
  coef_contents :: "u16 \<Rightarrow> u16"

definition known_roms :: "(u32 \<times> u32) list" where
  "known_roms =
    [(0x66f334fe, 0xf3b93527),
     (0x9c8f593c, 0x10000001),
     (0xd9907f71, 0xb019c2fb),
     (0xd9907f71, 0xdb6880c1),
     (0x3aa4a793, 0xa4a575f5),
     (0x128ea7a2, 0xa4a575f5)]"

text \<open>The bytes of the first \<open>n\<close> halfwords of an array on the little-endian host.\<close>

definition host_bytes :: "nat \<Rightarrow> (u16 \<Rightarrow> u16) \<Rightarrow> u8 list" where
  "host_bytes n mem =
    concat (map (\<lambda>i. [ucast (mem (of_nat i)), ucast (drop_bit 8 (mem (of_nat i)))]) [0..<n])"

definition rom_index :: "u32 \<Rightarrow> u32 \<Rightarrow> int" where
  "rom_index hash_irom hash_drom =
    fold (\<lambda>i idx. if known_roms ! i = (hash_irom, hash_drom) then int i else idx)
      [0..<length known_roms] (-1)"

text \<open>\<open>stop_now\<close> is the user's answer to the question about wrong hashes.\<close>

definition VerifyRoms :: "bool \<Rightarrow> DSP \<Rightarrow> bool" where
  "VerifyRoms stop_now s =
    (let rom_idx = rom_index (HashAdler32 (host_bytes 0x1000 (g_irom s)))
                     (HashAdler32 (host_bytes 0x800 (g_coef s)))
     in \<not> (rom_idx < 0 \<and> stop_now))"

definition gdsp_ifx_init :: "DSP \<Rightarrow> DSP" where
  "gdsp_ifx_init s = s\<lparr>g_ifx_regs := (\<lambda>_. 0), g_mbox := (\<lambda>_. 0)\<rparr>"

text \<open>\<open>None\<close> is the return value \<^verbatim>\<open>false\<close>: the memory pages are freed and nothing runs.\<close>

definition DSPCore_Init :: "DSPInitOptions \<Rightarrow> bool \<Rightarrow> DSP \<Rightarrow> DSP option" where
  "DSPCore_Init opts stop_now s =
    (let s1 = s\<lparr>g_step_counter := 0, g_init_hax := False, g_accelerator := zero_accelerator,
                g_irom := irom_contents opts, g_coef := coef_contents opts\<rparr>
     in if \<not> VerifyRoms stop_now s1 then None
        else let s2 = s1\<lparr>r_ar := (\<lambda>_. 0), r_ix := (\<lambda>_. 0), r_wr := (\<lambda>_. 0), r_st := (\<lambda>_. 0),
                         r_cr := 0, r_sr := 0, r_prod := 0, r_ax := (\<lambda>_. 0), r_ac := (\<lambda>_. 0)\<rparr>;
                 s3 = s2\<lparr>g_reg_stack_ptr := (\<lambda>_. 0), g_reg_stack := (\<lambda>_ _. 0),
                         g_iram := (\<lambda>_. 0x0021), g_dram := (\<lambda>_. 0), r_wr := (\<lambda>_. 0xffff)\<rparr>;
                 s4 = dsp_SR_set_flag SR_EXT_INT_ENABLE (dsp_SR_set_flag SR_INT_ENABLE s3);
                 s5 = gdsp_ifx_init (s4\<lparr>g_cr := 0x804\<rparr>)
             in Some (s5\<lparr>core_state := Running\<rparr>))"

section \<open>The debugger's register file\<close>

definition DSPCore_ReadRegister :: "nat \<Rightarrow> DSP \<Rightarrow> u16" where
  "DSPCore_ReadRegister reg s =
    (if reg \<le> 0x03 then r_ar s (reg - DSP_REG_AR0)
     else if reg \<le> 0x07 then r_ix s (reg - DSP_REG_IX0)
     else if reg \<le> 0x0b then r_wr s (reg - DSP_REG_WR0)
     else if reg \<le> 0x0f then r_st s (reg - DSP_REG_ST0)
     else if reg \<le> 0x11 then ac_h (reg - DSP_REG_ACH0) s
     else if reg = DSP_REG_CR then r_cr s
     else if reg = DSP_REG_SR then r_sr s
     else if reg = DSP_REG_PRODL then prod_l s
     else if reg = DSP_REG_PRODM then prod_m s
     else if reg = DSP_REG_PRODH then prod_h s
     else if reg = DSP_REG_PRODM2 then prod_m2 s
     else if reg \<le> 0x19 then ax_l (reg - DSP_REG_AXL0) s
     else if reg \<le> 0x1b then ax_h (reg - DSP_REG_AXH0) s
     else if reg \<le> 0x1d then ac_l (reg - DSP_REG_ACL0) s
     else if reg \<le> 0x1f then ac_m (reg - DSP_REG_ACM0) s
     else 0)"

definition DSPCore_WriteRegister :: "nat \<Rightarrow> u16 \<Rightarrow> DSP \<Rightarrow> DSP" where
  "DSPCore_WriteRegister reg val s =
    (if reg \<le> 0x03 then s\<lparr>r_ar := (r_ar s)(reg - DSP_REG_AR0 := val)\<rparr>
     else if reg \<le> 0x07 then s\<lparr>r_ix := (r_ix s)(reg - DSP_REG_IX0 := val)\<rparr>
     else if reg \<le> 0x0b then s\<lparr>r_wr := (r_wr s)(reg - DSP_REG_WR0 := val)\<rparr>
     else if reg \<le> 0x0f then s\<lparr>r_st := (r_st s)(reg - DSP_REG_ST0 := val)\<rparr>
     else if reg \<le> 0x11 then set_ac_h (reg - DSP_REG_ACH0) val s
     else if reg = DSP_REG_CR then s\<lparr>r_cr := val\<rparr>
     else if reg = DSP_REG_SR then s\<lparr>r_sr := val\<rparr>
     else if reg = DSP_REG_PRODL then set_prod_l val s
     else if reg = DSP_REG_PRODM then set_prod_m val s
     else if reg = DSP_REG_PRODH then set_prod_h val s
     else if reg = DSP_REG_PRODM2 then set_prod_m2 val s
     else if reg \<le> 0x19 then set_ax_l (reg - DSP_REG_AXL0) val s
     else if reg \<le> 0x1b then set_ax_h (reg - DSP_REG_AXH0) val s
     else if reg \<le> 0x1d then set_ac_l (reg - DSP_REG_ACL0) val s
     else if reg \<le> 0x1f then set_ac_m (reg - DSP_REG_ACM0) val s
     else s)"

section \<open>A bank of registers\<close>

locale register_file =
  fixes rd :: "nat \<Rightarrow> 's \<Rightarrow> 'v" and wr :: "nat \<Rightarrow> 'v \<Rightarrow> 's \<Rightarrow> 's" and count :: nat
  assumes rd_wr_same: "r < count \<Longrightarrow> rd r (wr r v s) = v"
    and rd_wr_other: "r < count \<Longrightarrow> r' < count \<Longrightarrow> r \<noteq> r' \<Longrightarrow> rd r (wr r' v s) = rd r s"
begin

definition write_all :: "(nat \<times> 'v) list \<Rightarrow> 's \<Rightarrow> 's" where
  "write_all = fold (\<lambda>(r, v). wr r v)"

text \<open>After a sequence of writes a register holds the last value written to it.\<close>

lemma rd_write_all:
  assumes "r < count" "\<forall>(r', v) \<in> set ws. r' < count"
  shows "rd r (write_all ws s) = (case map_of (rev ws) r of None \<Rightarrow> rd r s | Some v \<Rightarrow> v)"
  using assms(2)
proof (induction ws arbitrary: s)
  case (Cons w ws)
  obtain r' v where w: "w = (r', v)" by fastforce
  with Cons.prems have "r' < count" by auto
  then have "rd r (wr r' v s) = (if r' = r then v else rd r s)"
    using assms(1) by (simp add: rd_wr_same rd_wr_other)
  moreover have "write_all (w # ws) s = write_all ws (wr r' v s)" by (simp add: write_all_def w)
  ultimately show ?case
    using Cons.IH [of "wr r' v s"] Cons.prems
    by (auto simp: w map_add_def split: option.splits)
qed (simp add: write_all_def)

end

lemma read_write_same:
  "r < 32 \<Longrightarrow> DSPCore_ReadRegister r (DSPCore_WriteRegister r v s) = v"
  by (simp add: DSPCore_ReadRegister_def DSPCore_WriteRegister_def union_defs)

lemma less_32_cases:
  assumes "n < 32"
  shows "n \<in> {0, 1, 2, 3, 4, 5, 6, 7, 8, 9, 10, 11, 12, 13, 14, 15, 16, 17, 18, 19, 20, 21, 22, 23,
    24, 25, 26, 27, 28, 29, 30, 31 :: nat}"
  using assms by (simp add: numeral_eq_Suc less_Suc_eq)

lemma read_write_other:
  assumes "r < 32" "r' < 32" "r \<noteq> r'"
  shows "DSPCore_ReadRegister r (DSPCore_WriteRegister r' v s) = DSPCore_ReadRegister r s"
  using less_32_cases [OF assms(2)] assms(1,3)
  by (elim insertE emptyE)
    (simp_all add: DSPCore_ReadRegister_def DSPCore_WriteRegister_def union_defs, auto)

interpretation debug_regs: register_file DSPCore_ReadRegister DSPCore_WriteRegister 32
  by unfold_locales (simp_all add: read_write_same read_write_other)

section \<open>Exceptions\<close>

definition may_fire :: "nat \<Rightarrow> DSP \<Rightarrow> bool" where
  "may_fire i s \<longleftrightarrow> bit (g_exceptions s) i \<and> (dsp_SR_is_flag_set SR_INT_ENABLE s \<or> i = 7)"

lemma check_exceptions_from_Suc:
  "check_exceptions_from (Suc n) s =
    (if may_fire (Suc n) s then fire_exception (Suc n) s else check_exceptions_from n s)"
  by (simp only: check_exceptions_from.simps Let_def and_push_bit_1 may_fire_def
      exception_value.simps) auto

declare check_exceptions_from.simps(2) [simp del]

lemma check_exceptions_from_fires:
  assumes "i \<le> n" "0 < i" "may_fire i s" "\<And>j. i < j \<Longrightarrow> j \<le> n \<Longrightarrow> \<not> may_fire j s"
  shows "check_exceptions_from n s = fire_exception i s"
  using assms
proof (induction n)
  case (Suc n)
  show ?case
  proof (cases "i = Suc n")
    case True
    with Suc.prems(3) show ?thesis by (simp add: check_exceptions_from_Suc)
  next
    case False
    with Suc have "check_exceptions_from n s = fire_exception i s" by simp
    moreover have "\<not> may_fire (Suc n) s" using Suc.prems False by simp
    ultimately show ?thesis by (simp add: check_exceptions_from_Suc)
  qed
qed simp

lemma check_exceptions_from_none:
  "(\<And>j. 0 < j \<Longrightarrow> j \<le> n \<Longrightarrow> \<not> may_fire j s) \<Longrightarrow> check_exceptions_from n s = s"
proof (induction n)
  case (Suc n)
  then have "check_exceptions_from n s = s" "\<not> may_fire (Suc n) s" by auto
  then show ?case by (simp add: check_exceptions_from_Suc)
qed simp

lemma CheckExceptions_fires:
  assumes "0 < i" "i \<le> 7" "may_fire i s" "\<And>j. i < j \<Longrightarrow> j \<le> 7 \<Longrightarrow> \<not> may_fire j s"
  shows "DSPCore_CheckExceptions s = fire_exception i s"
proof -
  have "g_exceptions s \<noteq> 0" using assms(3) by (auto simp: may_fire_def)
  then show ?thesis using check_exceptions_from_fires [OF assms(2,1,3,4)] by (simp add: DSPCore_CheckExceptions_def)
qed

lemma CheckExceptions_none:
  "(\<And>j. 0 < j \<Longrightarrow> j \<le> 7 \<Longrightarrow> \<not> may_fire j s) \<Longrightarrow> DSPCore_CheckExceptions s = s"
  by (simp add: DSPCore_CheckExceptions_def check_exceptions_from_none)

text \<open>Either nothing is taken, or exactly the highest exception that may fire.\<close>

lemma CheckExceptions_cases:
  obtains "\<And>j. 0 < j \<Longrightarrow> j \<le> 7 \<Longrightarrow> \<not> may_fire j s" "DSPCore_CheckExceptions s = s"
  | i where "0 < i" "i \<le> 7" "may_fire i s" "\<And>j. i < j \<Longrightarrow> j \<le> 7 \<Longrightarrow> \<not> may_fire j s"
      "DSPCore_CheckExceptions s = fire_exception i s"
proof (cases "\<exists>i. 0 < i \<and> i \<le> 7 \<and> may_fire i s")
  case True
  define i where "i = (GREATEST i. 0 < i \<and> i \<le> 7 \<and> may_fire i s)"
  have i: "0 < i \<and> i \<le> 7 \<and> may_fire i s"
    unfolding i_def using True by (rule GreatestI_ex_nat) auto
  have "\<not> may_fire j s" if "i < j" "j \<le> 7" for j
    using Greatest_le_nat [of "\<lambda>i. 0 < i \<and> i \<le> 7 \<and> may_fire i s" j 7] that by (auto simp: i_def)
  with i show ?thesis by (intro that(2) [of i]) (auto intro: CheckExceptions_fires)
next
  case False
  then show ?thesis by (intro that(1)) (auto intro: CheckExceptions_none)
qed

lemma fire_exception_frame:
  "g_pc (fire_exception i s) = of_nat (i * 2)"
  "r_sr (fire_exception i s) = r_sr s AND NOT (if i = 7 then SR_EXT_INT_ENABLE else SR_INT_ENABLE)"
  "g_exceptions (fire_exception i s) = g_exceptions s AND NOT (push_bit i 1)"
  "hd (stack_view Call (fire_exception i s)) = g_pc s"
  "hd (stack_view Data (fire_exception i s)) = r_sr s"
  by (simp_all add: fire_exception_def Let_def dsp_frame stack_view_def)

lemma Reset_frame: "\<exists>f. DSPCore_Reset s = s\<lparr>g_pc := 0x8000, r_wr := (\<lambda>_. 0xffff), code_flags := f\<rparr>"
  using Analyze_frame [of "s\<lparr>g_pc := 0x8000, r_wr := (\<lambda>_. 0xffff)\<rparr>"] by (auto simp: DSPCore_Reset_def)

text \<open>
  The debugger's register file: after any sequence of writes to registers 0 to 31 a register
  reads as the last value written to it, or as before when none was; the unions that overlay
  the accumulators and the product do not mix registers up.
\<close>

lemma debugger_registers:
  assumes "r < 32" "\<forall>(r', v) \<in> set ws. r' < 32"
  shows "DSPCore_ReadRegister r (fold (\<lambda>(r, v). DSPCore_WriteRegister r v) ws s) =
    (case map_of (rev ws) r of None \<Rightarrow> DSPCore_ReadRegister r s | Some v \<Rightarrow> v)"
  using debug_regs.rd_write_all [OF assms, of s] by (simp add: debug_regs.write_all_def)

lemma debugger_registers_example:
  "DSPCore_ReadRegister 0x1e (fold (\<lambda>(r, v). DSPCore_WriteRegister r v)
     [(0x1e, 5), (0x1c, 6), (0x10, 7), (0x1e, 8)] blank_dsp) = 8"
  using debugger_registers [of "0x1e" "[(0x1e, 5), (0x1c, 6), (0x10, 7), (0x1e, 8)]" blank_dsp] by simp

end
