(* ===== verification/Common_Swap.thy ===== *)
theory Common_Swap
  imports Prelude
begin

text \<open>Byte swaps of \<^verbatim>\<open>Common/Swap.h\<close>, bit by bit; each undoes itself.\<close>

definition swap16 :: "u16 \<Rightarrow> u16" where
  "swap16 data = drop_bit 8 data OR push_bit 8 data"

definition swap32 :: "u32 \<Rightarrow> u32" where
  "swap32 data = push_bit 16 (ucast (swap16 (ucast data))) OR ucast (swap16 (ucast (drop_bit 16 data)))"

definition swap64 :: "u64 \<Rightarrow> u64" where
  "swap64 data = push_bit 32 (ucast (swap32 (ucast data))) OR ucast (swap32 (ucast (drop_bit 32 data)))"

lemma swap16_swap16 [simp]: "swap16 (swap16 v) = v"
proof (rule bit_word_eqI)
  fix n assume n: "n < LENGTH(16)"
  then show "bit (swap16 (swap16 v)) n = bit v n"
    by (cases "n < 8") (auto simp: swap16_def word_bit_simps)
qed

lemma bit_swap16: "bit (swap16 v) n \<longleftrightarrow> n < 16 \<and> bit v (if n < 8 then n + 8 else n - 8)"
  by (auto simp: swap16_def word_bit_simps add.commute dest: bit_imp_le_length)

lemma bit_swap32:
  "bit (swap32 v) n \<longleftrightarrow> n < 32 \<and> bit v (if n < 8 then n + 24 else if n < 16 then n + 8 else if n < 24 then n - 8 else n - 24)"
  by (auto simp: swap32_def word_bit_simps bit_swap16 add.commute dest: bit_imp_le_length)

text \<open>Bit \<open>n\<close> of the swapped word comes from the mirrored byte.\<close>

definition mirror_byte :: "nat \<Rightarrow> nat" where
  "mirror_byte n = (if n < 8 then n + 56 else if n < 16 then n + 40 else if n < 24 then n + 24 else if n < 32 then n + 8
     else if n < 40 then n - 8 else if n < 48 then n - 24 else if n < 56 then n - 40 else n - 56)"

lemma bit_swap64: "bit (swap64 v) n \<longleftrightarrow> n < 64 \<and> bit v (mirror_byte n)"
  by (auto simp: swap64_def word_bit_simps bit_swap32 mirror_byte_def add.commute dest: bit_imp_le_length)

lemma mirror_byte: "n < 64 \<Longrightarrow> mirror_byte n < 64 \<and> mirror_byte (mirror_byte n) = n"
proof -
  have "\<forall>n\<in>set [0..<64]. mirror_byte n < 64 \<and> mirror_byte (mirror_byte n) = n" by code_simp
  then show "n < 64 \<Longrightarrow> mirror_byte n < 64 \<and> mirror_byte (mirror_byte n) = n" by simp
qed

lemma swap64_swap64 [simp]: "swap64 (swap64 v) = v"
  by (rule bit_word_eqI) (simp add: bit_swap64 mirror_byte)

lemma swap32_swap32 [simp]: "swap32 (swap32 v) = v"
  by (rule bit_word_eqI) (auto simp: bit_swap32)

end
