(* ===== verification/DSP_HW.thy ===== *)
theory DSP_HW
  imports DSP_Core Common_Swap
begin

text \<open>
  The hardware interface of \<^verbatim>\<open>Core/DSP/DSPHWInterface.cpp\<close>: the two mailboxes, the interface
  registers at \<open>0xFFxx\<close>, the instant DMA engine; the host callbacks it uses
  (\<^verbatim>\<open>Core/HW/DSPLLE/DSPHost.cpp\<close>, and \<^verbatim>\<open>ReadARAM\<close>/\<^verbatim>\<open>WriteARAM\<close> of
  \<^verbatim>\<open>Core/HW/DSP.cpp\<close>); and the data side of \<^verbatim>\<open>Core/DSP/DSPMemoryMap.cpp\<close>.

  Capture logging, the profiler and the debugger's symbol refresh do not touch the state and are
  left out. \<^verbatim>\<open>g_dsp.cpu_ram\<close> is a byte for every 32-bit address. An access outside the 8192
  bytes of DRAM or IRAM is a \<open>MemoryFault\<close>.
\<close>

section \<open>Host memory\<close>

text \<open>
  On the Wii the audio memory is the second RAM bank, which the arena maps at \<open>0x10000000\<close>.
  \<^verbatim>\<open>Memory::Read_U8\<close> dereferences a null pointer between the 24 MB of real RAM and the 32 MB
  mask.
\<close>

abbreviation (input) RAM_MASK :: u32 where "RAM_MASK \<equiv> 0x01ffffff"
abbreviation (input) REALRAM_SIZE :: u32 where "REALRAM_SIZE \<equiv> 0x01800000"

definition ReadARAM :: "u32 \<Rightarrow> DSP \<Rightarrow> u8 result" where
  "ReadARAM address s =
    (if aram_wii_mode (s_ARAM s) then
       (if address AND 0x10000000 \<noteq> 0 then
          Inr (g_cpu_ram s (0x10000000 + (address AND aram_mask (s_ARAM s))))
        else if address AND RAM_MASK < REALRAM_SIZE then Inr (g_cpu_ram s (address AND RAM_MASK))
        else Inl MemoryFault)
     else Inr (aram_ptr (s_ARAM s) (address AND aram_mask (s_ARAM s))))"

definition WriteARAM :: "u8 \<Rightarrow> u32 \<Rightarrow> DSP \<Rightarrow> DSP" where
  "WriteARAM value address s =
    (let a = address AND aram_mask (s_ARAM s)
     in if aram_wii_mode (s_ARAM s) then s\<lparr>g_cpu_ram := (g_cpu_ram s)(0x10000000 + a := value)\<rparr>
        else s\<lparr>s_ARAM := (s_ARAM s)\<lparr>aram_ptr := (aram_ptr (s_ARAM s))(a := value)\<rparr>\<rparr>)"

abbreviation (input) INT_DSP :: u16 where "INT_DSP \<equiv> 0x80"

definition InterruptRequest :: "DSP \<Rightarrow> DSP" where
  "InterruptRequest s = s\<lparr>host_events := host_events s @ [ScheduleDSPInterrupt INT_DSP]\<rparr>"

definition CodeLoaded :: "DSP \<Rightarrow> DSP" where
  "CodeLoaded s = Analyze s"

section \<open>Mailboxes\<close>

definition gdsp_mbox_peek :: "Mailbox \<Rightarrow> DSP \<Rightarrow> u32" where
  "gdsp_mbox_peek mbx s = g_mbox s mbx"

definition gdsp_mbox_write_h :: "Mailbox \<Rightarrow> u16 \<Rightarrow> DSP \<Rightarrow> DSP" where
  "gdsp_mbox_write_h mbx val s =
    (let new_value = (g_mbox s mbx AND 0xffff) OR push_bit 16 (ucast val)
     in s\<lparr>g_mbox := (g_mbox s)(mbx := new_value AND NOT 0x80000000)\<rparr>)"

definition gdsp_mbox_write_l :: "Mailbox \<Rightarrow> u16 \<Rightarrow> DSP \<Rightarrow> DSP" where
  "gdsp_mbox_write_l mbx val s =
    (let new_value = (g_mbox s mbx AND NOT 0xffff) OR ucast val
     in s\<lparr>g_mbox := (g_mbox s)(mbx := new_value OR 0x80000000)\<rparr>)"

definition gdsp_mbox_read_h :: "Mailbox \<Rightarrow> DSP \<Rightarrow> u16" where
  "gdsp_mbox_read_h mbx s =
    (if g_init_hax s \<and> mbx = MAILBOX_DSP then 0x8054 else ucast (drop_bit 16 (g_mbox s mbx)))"

definition gdsp_mbox_read_l :: "Mailbox \<Rightarrow> DSP \<Rightarrow> u16 \<times> DSP" where
  "gdsp_mbox_read_l mbx s =
    (let value = g_mbox s mbx;
         s1 = s\<lparr>g_mbox := (g_mbox s)(mbx := value AND NOT 0x80000000)\<rparr>
     in if g_init_hax s1 \<and> mbx = MAILBOX_DSP then
          (0x4348, DSPCore_Reset (s1\<lparr>g_init_hax := False\<rparr>))
        else (ucast value, s1))"

section \<open>DMA\<close>

text \<open>Bytes of a halfword array on the little-endian host.\<close>

definition mem_byte :: "nat \<Rightarrow> (u16 \<Rightarrow> u16) \<Rightarrow> u8" where
  "mem_byte n mem =
    (if even n then ucast (mem (of_nat (n div 2))) else ucast (drop_bit 8 (mem (of_nat (n div 2)))))"

definition set_mem_byte :: "nat \<Rightarrow> u8 \<Rightarrow> (u16 \<Rightarrow> u16) \<Rightarrow> u16 \<Rightarrow> u16" where
  "set_mem_byte n b mem =
    (let i = of_nat (n div 2)
     in mem(i := (if even n then (mem i AND 0xff00) OR ucast b
                  else (mem i AND 0x00ff) OR push_bit 8 (ucast b))))"

text \<open>A 16-bit access to the byte-addressed host memory.\<close>

definition host_read16 :: "u32 \<Rightarrow> (u32 \<Rightarrow> u8) \<Rightarrow> u16" where
  "host_read16 a ram = ucast (ram a) OR push_bit 8 (ucast (ram (a + 1)))"

definition host_write16 :: "u32 \<Rightarrow> u16 \<Rightarrow> (u32 \<Rightarrow> u8) \<Rightarrow> u32 \<Rightarrow> u8" where
  "host_write16 a v ram = ram(a := ucast v, a + 1 := ucast (drop_bit 8 v))"

text \<open>The shuffle \<^verbatim>\<open>_mm_shuffle_epi8\<close> with \<^verbatim>\<open>s_mask\<close>.\<close>

definition s_mask :: "nat list" where
  "s_mask = [1, 0, 3, 2, 5, 4, 7, 6, 9, 8, 11, 10, 13, 12, 15, 14]"

definition shuffle_epi8 :: "u8 list \<Rightarrow> nat list \<Rightarrow> u8 list" where
  "shuffle_epi8 v m = map (\<lambda>k. v ! k) m"

definition gdsp_ddma_in_SSSE3 :: "nat \<Rightarrow> u32 \<Rightarrow> nat \<Rightarrow> DSP \<Rightarrow> DSP" where
  "gdsp_ddma_in_SSSE3 dsp_addr addr sz s =
    s\<lparr>g_dram := fold (\<lambda>i dram.
        let base = (addr + of_nat i) AND 0x7FFFFFFF;
            v = shuffle_epi8 (map (\<lambda>k. g_cpu_ram s (base + of_nat k)) [0..<16]) s_mask
        in fold (\<lambda>k. set_mem_byte (dsp_addr + i + k) (v ! k)) [0..<16] dram)
      (map (\<lambda>n. 16 * n) [0..<sz div 16]) (g_dram s)\<rparr>"

definition gdsp_ddma_out_SSSE3 :: "nat \<Rightarrow> u32 \<Rightarrow> nat \<Rightarrow> DSP \<Rightarrow> DSP" where
  "gdsp_ddma_out_SSSE3 dsp_addr addr sz s =
    s\<lparr>g_cpu_ram := fold (\<lambda>i ram.
        let base = (addr + of_nat i) AND 0x7FFFFFFF;
            v = shuffle_epi8 (map (\<lambda>k. mem_byte (dsp_addr + i + k) (g_dram s)) [0..<16]) s_mask
        in fold (\<lambda>k ram. ram(base + of_nat k := v ! k)) [0..<16] ram)
      (map (\<lambda>n. 16 * n) [0..<sz div 16]) (g_cpu_ram s)\<rparr>"

text \<open>The halfword loops run for \<^verbatim>\<open>i = 0, 2, 4, \<dots>\<close> below \<^verbatim>\<open>size\<close>.\<close>

definition gdsp_ddma_in :: "nat \<Rightarrow> u32 \<Rightarrow> nat \<Rightarrow> DSP \<Rightarrow> DSP result" where
  "gdsp_ddma_in dsp_addr addr sz s =
    (if sz > 0 \<and> dsp_addr + (sz + sz mod 2) > DSP_DRAM_BYTE_SIZE then Inl MemoryFault
     else if cpu_bSSSE3 s \<and> sz mod 16 = 0 then Inr (gdsp_ddma_in_SSSE3 dsp_addr addr sz s)
     else Inr (s\<lparr>g_dram := fold (\<lambda>i dram.
              dram(of_nat ((dsp_addr + i) div 2) :=
                swap16 (host_read16 ((addr + of_nat i) AND 0x7FFFFFFF) (g_cpu_ram s))))
            (map (\<lambda>n. 2 * n) [0..<(sz + 1) div 2]) (g_dram s)\<rparr>))"

definition gdsp_ddma_out :: "nat \<Rightarrow> u32 \<Rightarrow> nat \<Rightarrow> DSP \<Rightarrow> DSP result" where
  "gdsp_ddma_out dsp_addr addr sz s =
    (if sz > 0 \<and> dsp_addr + (sz + sz mod 2) > DSP_DRAM_BYTE_SIZE then Inl MemoryFault
     else if cpu_bSSSE3 s \<and> sz mod 16 = 0 then Inr (gdsp_ddma_out_SSSE3 dsp_addr addr sz s)
     else Inr (s\<lparr>g_cpu_ram := fold (\<lambda>i.
              host_write16 ((addr + of_nat i) AND 0x7FFFFFFF)
                (swap16 (g_dram s (of_nat ((dsp_addr + i) div 2)))))
            (map (\<lambda>n. 2 * n) [0..<(sz + 1) div 2]) (g_cpu_ram s)\<rparr>))"

definition gdsp_idma_in :: "nat \<Rightarrow> u32 \<Rightarrow> nat \<Rightarrow> DSP \<Rightarrow> DSP result" where
  "gdsp_idma_in dsp_addr addr sz s =
    (if dsp_addr + sz > DSP_IRAM_BYTE_SIZE then Inl MemoryFault
     else let code = map (\<lambda>k. g_cpu_ram s ((addr AND 0x0fffffff) + of_nat k)) [0..<sz];
              dst = dsp_addr div 2;
              copied = fold (\<lambda>k. set_mem_byte (2 * dst + k) (code ! k)) [0..<sz] (g_iram s);
              swapped = fold (\<lambda>i iram. iram(of_nat (dst + i) := swap16 (iram (of_nat (dst + i)))))
                          [0..<sz div 2] copied
          in Inr (CodeLoaded (s\<lparr>g_iram_crc := HashEctor code, g_iram := swapped\<rparr>)))"

text \<open>\<^verbatim>\<open>gdsp_idma_out\<close> only logs an error.\<close>

definition gdsp_idma_out :: "nat \<Rightarrow> u32 \<Rightarrow> nat \<Rightarrow> DSP \<Rightarrow> DSP result" where
  "gdsp_idma_out dsp_addr addr sz s = Inr s"

abbreviation (input) DSP_CR_DMEM :: u16 where "DSP_CR_DMEM \<equiv> 0"
abbreviation (input) DSP_CR_IMEM :: u16 where "DSP_CR_IMEM \<equiv> 2"
abbreviation (input) DSP_CR_TO_CPU :: u16 where "DSP_CR_TO_CPU \<equiv> 1"
abbreviation (input) DSP_CR_FROM_CPU :: u16 where "DSP_CR_FROM_CPU \<equiv> 0"

definition gdsp_do_dma :: "DSP \<Rightarrow> DSP result" where
  "gdsp_do_dma s =
    (let addr = push_bit 16 (ucast (g_ifx_regs s DSP_DSMAH)) OR ucast (g_ifx_regs s DSP_DSMAL);
         ctl = g_ifx_regs s DSP_DSCR;
         dsp_addr = unat (g_ifx_regs s DSP_DSPA * 2);
         len = g_ifx_regs s DSP_DSBL
     in if len > 0x4000 then Inl ProcessExit
        else if ctl AND 0x3 = DSP_CR_DMEM OR DSP_CR_TO_CPU then gdsp_ddma_out dsp_addr addr (unat len) s
        else if ctl AND 0x3 = DSP_CR_DMEM OR DSP_CR_FROM_CPU then gdsp_ddma_in dsp_addr addr (unat len) s
        else if ctl AND 0x3 = DSP_CR_IMEM OR DSP_CR_TO_CPU then gdsp_idma_out dsp_addr addr (unat len) s
        else gdsp_idma_in dsp_addr addr (unat len) s)"

section \<open>Interface registers\<close>

definition set_ifx :: "u16 \<Rightarrow> u16 \<Rightarrow> DSP \<Rightarrow> DSP" where
  "set_ifx r v s = s\<lparr>g_ifx_regs := (g_ifx_regs s)(r := v)\<rparr>"

definition map_accelerator :: "(Accelerator \<Rightarrow> Accelerator) \<Rightarrow> DSP \<Rightarrow> DSP" where
  "map_accelerator f s = s\<lparr>g_accelerator := f (g_accelerator s)\<rparr>"

text \<open>The two ways a 16-bit write updates half of a 32-bit address.\<close>

definition with_high :: "u16 \<Rightarrow> u32 \<Rightarrow> u32" where
  "with_high val a = push_bit 16 (ucast val) OR ucast (ucast a :: u16)"

definition with_low :: "u16 \<Rightarrow> u32 \<Rightarrow> u32" where
  "with_low val a = push_bit 16 (ucast (ucast (drop_bit 16 a) :: u16)) OR ucast val"

text \<open>The case \<^verbatim>\<open>DSP_DSBL\<close>: writing the length starts the transfer.\<close>

definition ifx_write_dsbl :: "u16 \<Rightarrow> DSP \<Rightarrow> DSP result" where
  "ifx_write_dsbl val s =
    (let s1 = set_ifx DSP_DSBL val s;
         s2 = set_ifx DSP_DSCR (g_ifx_regs s1 DSP_DSCR OR 4) s1
     in bind_res (if g_ifx_regs s2 DSP_AMDM = 0 then gdsp_do_dma s2 else Inr s2) (\<lambda>s3.
          let s4 = set_ifx DSP_DSCR (g_ifx_regs s3 DSP_DSCR AND NOT 4) s3
          in Inr (set_ifx DSP_DSBL 0 s4)))"

definition gdsp_ifx_write :: "u16 \<Rightarrow> u16 \<Rightarrow> DSP \<Rightarrow> DSP result" where
  "gdsp_ifx_write addr val s =
    (let r = addr AND 0xff; acc = g_accelerator s
     in if r = DSP_DIRQ then Inr (if val AND 0x1 \<noteq> 0 then InterruptRequest s else s)
        else if r = DSP_DMBH then Inr (gdsp_mbox_write_h MAILBOX_DSP val s)
        else if r = DSP_DMBL then Inr (gdsp_mbox_write_l MAILBOX_DSP val s)
        else if r = DSP_CMBH then Inr (gdsp_mbox_write_h MAILBOX_CPU val s)
        else if r = DSP_CMBL then Inr (gdsp_mbox_write_l MAILBOX_CPU val s)
        else if r = DSP_DSBL then ifx_write_dsbl val s
        else if r = DSP_GAIN \<or> r = DSP_DSPA \<or> r = DSP_DSMAH \<or> r = DSP_DSMAL \<or> r = DSP_DSCR then
          Inr (set_ifx r val s)
        else if r = DSP_ACSAH then
          Inr (map_accelerator (SetStartAddress (with_high val (m_start_address acc))) s)
        else if r = DSP_ACSAL then
          Inr (map_accelerator (SetStartAddress (with_low val (m_start_address acc))) s)
        else if r = DSP_ACEAH then
          Inr (map_accelerator (SetEndAddress (with_high val (m_end_address acc))) s)
        else if r = DSP_ACEAL then
          Inr (map_accelerator (SetEndAddress (with_low val (m_end_address acc))) s)
        else if r = DSP_ACCAH then
          Inr (map_accelerator (SetCurrentAddress (with_high val (m_current_address acc))) s)
        else if r = DSP_ACCAL then
          Inr (map_accelerator (SetCurrentAddress (with_low val (m_current_address acc))) s)
        else if r = DSP_FORMAT then Inr (map_accelerator (SetSampleFormat val) s)
        else if r = DSP_YN1 then Inr (map_accelerator (SetYn1 val) s)
        else if r = DSP_YN2 then Inr (map_accelerator (SetYn2 val) s)
        else if r = DSP_PRED_SCALE then Inr (map_accelerator (SetPredScale val) s)
        else if r = DSP_ACDATA1 then
          (let (acc1, s1) = WriteD3 (\<lambda>a v. WriteARAM v a) val acc s
           in Inr (s1\<lparr>g_accelerator := acc1\<rparr>))
        else Inr (set_ifx r val s))"

definition gdsp_ifx_read :: "u16 \<Rightarrow> DSP \<Rightarrow> (u16 \<times> DSP) result" where
  "gdsp_ifx_read addr s =
    (let r = addr AND 0xff; acc = g_accelerator s
     in if r = DSP_DMBH then Inr (gdsp_mbox_read_h MAILBOX_DSP s, s)
        else if r = DSP_DMBL then Inr (gdsp_mbox_read_l MAILBOX_DSP s)
        else if r = DSP_CMBH then Inr (gdsp_mbox_read_h MAILBOX_CPU s, s)
        else if r = DSP_CMBL then Inr (gdsp_mbox_read_l MAILBOX_CPU s)
        else if r = DSP_DSCR then Inr (g_ifx_regs s r, s)
        else if r = DSP_ACSAH then Inr (ucast (drop_bit 16 (m_start_address acc)), s)
        else if r = DSP_ACSAL then Inr (ucast (m_start_address acc), s)
        else if r = DSP_ACEAH then Inr (ucast (drop_bit 16 (m_end_address acc)), s)
        else if r = DSP_ACEAL then Inr (ucast (m_end_address acc), s)
        else if r = DSP_ACCAH then Inr (ucast (drop_bit 16 (m_current_address acc)), s)
        else if r = DSP_ACCAL then Inr (ucast (m_current_address acc), s)
        else if r = DSP_FORMAT then Inr (m_sample_format acc, s)
        else if r = DSP_YN1 then Inr (m_yn1 acc, s)
        else if r = DSP_YN2 then Inr (m_yn2 acc, s)
        else if r = DSP_PRED_SCALE then Inr (m_pred_scale acc, s)
        else if r = DSP_ACCELERATOR then
          bind_res (Read (\<lambda>a. ReadARAM a s) (\<lambda>k. g_ifx_regs s (DSP_COEF_A1_0 + of_nat k)) acc)
            (\<lambda>(val, acc1, ended).
              let s1 = s\<lparr>g_accelerator := acc1\<rparr>
              in Inr (val, if ended then DSPCore_SetException AcceleratorOverflow s1 else s1))
        else if r = DSP_ACDATA1 then
          bind_res (ReadD3 (\<lambda>a. ReadARAM a s) acc) (\<lambda>(val, acc1).
            Inr (val, s\<lparr>g_accelerator := acc1\<rparr>))
        else Inr (g_ifx_regs s r, s))"

section \<open>Data memory\<close>

definition dsp_dmem_read :: "u16 \<Rightarrow> DSP \<Rightarrow> (u16 \<times> DSP) result" where
  "dsp_dmem_read addr s =
    (if drop_bit 12 addr = 0x0 then Inr (g_dram s (addr AND DSP_DRAM_MASK), s)
     else if drop_bit 12 addr = 0x1 then Inr (g_coef s (addr AND DSP_COEF_MASK), s)
     else if drop_bit 12 addr = 0xf then gdsp_ifx_read addr s
     else Inr (0, s))"

definition dsp_dmem_write :: "u16 \<Rightarrow> u16 \<Rightarrow> DSP \<Rightarrow> DSP result" where
  "dsp_dmem_write addr val s =
    (if drop_bit 12 addr = 0x0 then
       Inr (s\<lparr>g_dram := (g_dram s)(addr AND DSP_DRAM_MASK := val)\<rparr>)
     else if drop_bit 12 addr = 0xf then gdsp_ifx_write addr val s
     else Inr s)"

section \<open>Mailbox protocol\<close>

text \<open>
  A complete message (high half, then low half) marks the mailbox full; reading the low half empties
  it, and the reader gets the two halves, the top bit apart, which carries the full flag.
\<close>

lemma mbox_after_write:
  "g_mbox (gdsp_mbox_write_l mbx lo (gdsp_mbox_write_h mbx hi s)) mbx =
     push_bit 16 (ucast (hi OR 0x8000)) OR ucast lo"
  by (rule bit_word_eqI)
    (auto simp: gdsp_mbox_write_l_def gdsp_mbox_write_h_def Let_def word_bit_simps bit_const_simps
      dest: bit_imp_le_length)

lemma mbox_read_h_after_write:
  assumes "\<not> (g_init_hax s \<and> mbx = MAILBOX_DSP)"
  shows "gdsp_mbox_read_h mbx (gdsp_mbox_write_l mbx lo (gdsp_mbox_write_h mbx hi s)) = hi OR 0x8000"
proof -
  have hax: "g_init_hax (gdsp_mbox_write_l mbx lo (gdsp_mbox_write_h mbx hi s)) = g_init_hax s"
    by (simp add: gdsp_mbox_write_l_def gdsp_mbox_write_h_def Let_def)
  have "ucast (drop_bit 16 (push_bit 16 (ucast (hi OR 0x8000)) OR ucast lo :: u32)) = hi OR 0x8000"
    by (rule bit_word_eqI) (auto simp: word_bit_simps dest: bit_imp_le_length)
  then show ?thesis
    unfolding gdsp_mbox_read_h_def hax mbox_after_write using assms by auto
qed

lemma mbox_read_l_after_write:
  assumes "\<not> (g_init_hax s \<and> mbx = MAILBOX_DSP)"
  shows "fst (gdsp_mbox_read_l mbx (gdsp_mbox_write_l mbx lo (gdsp_mbox_write_h mbx hi s))) = lo"
proof -
  have hax: "g_init_hax (gdsp_mbox_write_l mbx lo (gdsp_mbox_write_h mbx hi s)) = g_init_hax s"
    by (simp add: gdsp_mbox_write_l_def gdsp_mbox_write_h_def Let_def)
  have "ucast (push_bit 16 (ucast (hi OR 0x8000)) OR ucast lo :: u32) = lo"
    by (rule bit_word_eqI) (auto simp: word_bit_simps dest: bit_imp_le_length)
  then show ?thesis
    unfolding gdsp_mbox_read_l_def mbox_after_write Let_def using assms hax by auto
qed

lemma mbox_emptied:
  "g_mbox (snd (gdsp_mbox_read_l mbx s)) mbx = g_mbox s mbx AND NOT 0x80000000"
proof (cases "g_init_hax s \<and> mbx = MAILBOX_DSP")
  case True
  obtain f where "DSPCore_Reset (s\<lparr>g_mbox := (g_mbox s)(mbx := g_mbox s mbx AND NOT 0x80000000),
      g_init_hax := False\<rparr>) = s\<lparr>g_mbox := (g_mbox s)(mbx := g_mbox s mbx AND NOT 0x80000000),
      g_init_hax := False, g_pc := 0x8000, r_wr := (\<lambda>_. 0xffff), code_flags := f\<rparr>"
    using Reset_frame by blast
  with True show ?thesis by (simp add: gdsp_mbox_read_l_def Let_def)
qed (auto simp: gdsp_mbox_read_l_def Let_def)

lemma mbox_half_written:
  "gdsp_mbox_peek mbx (gdsp_mbox_write_h mbx hi s) AND 0x80000000 = 0"
  by (rule bit_word_eqI)
    (auto simp: gdsp_mbox_peek_def gdsp_mbox_write_h_def Let_def word_bit_simps bit_const_simps)

section \<open>Data RAM is a memory\<close>

lemma dram_index:
  assumes "r < 0x1000"
  shows "drop_bit 12 (of_nat r :: u16) = 0" "(of_nat r :: u16) AND 0x0fff = of_nat r"
proof -
  have u: "unat (of_nat r :: u16) = r" using assms by (simp add: unat_of_nat)
  then have "unat (drop_bit 12 (of_nat r :: u16)) = 0" using assms by (simp only: unat_drop_bit) simp
  then show "drop_bit 12 (of_nat r :: u16) = 0" by (simp only: unat_eq_0)
  show "(of_nat r :: u16) AND 0x0fff = of_nat r"
    using and_mask_self [of "of_nat r :: u16" 12] assms u by (simp add: mask_eq_exp_minus_1)
qed

definition dram_read :: "nat \<Rightarrow> DSP \<Rightarrow> u16" where
  "dram_read r s = fst (projr (dsp_dmem_read (of_nat r) s))"

definition dram_write :: "nat \<Rightarrow> u16 \<Rightarrow> DSP \<Rightarrow> DSP" where
  "dram_write r v s = projr (dsp_dmem_write (of_nat r) v s)"

lemma of_nat_u16_inject: "i < 65536 \<Longrightarrow> j < 65536 \<Longrightarrow> (of_nat i :: u16) = of_nat j \<longleftrightarrow> i = j"
  by (auto simp: word_unat_eq_iff unat_of_nat)

interpretation dram: register_file dram_read dram_write "0x1000"
  by unfold_locales
    (simp_all add: dram_read_def dram_write_def dsp_dmem_read_def dsp_dmem_write_def dram_index
      of_nat_u16_inject)

section \<open>Closed form of a data transfer\<close>

lemma fold_fun_upd_hit:
  "inj_on g (set is) \<Longrightarrow> i \<in> set is \<Longrightarrow> fold (\<lambda>i f. f(g i := h i)) is f (g i) = h i"
proof (induction "is" rule: rev_induct)
  case (snoc j js)
  then show ?case by (cases "i = j") (auto simp: inj_on_def)
qed simp

lemma fold_fun_upd_miss:
  "x \<notin> g ` set is \<Longrightarrow> fold (\<lambda>i f. f(g i := h i)) is f x = f x"
  by (induction "is" arbitrary: f) auto

lemma even_add_div2: "even a \<Longrightarrow> (a + 2 * n) div 2 = a div 2 + (n :: nat)"
  by simp

lemma swap16_host_read: "swap16 (host_read16 a ram) = push_bit 8 (ucast (ram a)) OR ucast (ram (a + 1))"
  by (rule bit_word_eqI)
    (auto simp: swap16_def host_read16_def word_bit_simps dest: bit_imp_le_length)


text \<open>What a transfer of \<open>n\<close> halfwords into DRAM leaves there.\<close>

definition ddma_in_result :: "nat \<Rightarrow> u32 \<Rightarrow> nat \<Rightarrow> DSP \<Rightarrow> u16 \<Rightarrow> u16" where
  "ddma_in_result dsp_addr addr n s =
    fold (\<lambda>j dram. dram(of_nat (dsp_addr div 2 + j) :=
        swap16 (host_read16 ((addr + of_nat (2 * j)) AND 0x7FFFFFFF) (g_cpu_ram s)))) [0..<n] (g_dram s)"

lemma ddma_in_result_at:
  assumes "dsp_addr div 2 + n \<le> 0x1000" "j < n"
  shows "ddma_in_result dsp_addr addr n s (of_nat (dsp_addr div 2 + j)) =
    swap16 (host_read16 ((addr + of_nat (2 * j)) AND 0x7FFFFFFF) (g_cpu_ram s))"
  unfolding ddma_in_result_def
  using assms
  by (intro fold_fun_upd_hit [where g = "\<lambda>j. of_nat (dsp_addr div 2 + j)"])
    (auto simp: inj_on_def of_nat_u16_inject simp del: of_nat_add)

lemma ddma_in_result_outside:
  assumes "\<And>j. j < n \<Longrightarrow> x \<noteq> of_nat (dsp_addr div 2 + j)"
  shows "ddma_in_result dsp_addr addr n s x = g_dram s x"
  unfolding ddma_in_result_def
proof (rule fold_fun_upd_miss, rule notI)
  assume "x \<in> (\<lambda>j. of_nat (dsp_addr div 2 + j)) ` set [0..<n]"
  then obtain j where "j < n" "x = of_nat (dsp_addr div 2 + j)" by (auto simp del: of_nat_add)
  with assms show False by blast
qed

lemma ddma_in_scalar:
  assumes "even dsp_addr" "dsp_addr + (sz + sz mod 2) \<le> 0x2000" "\<not> (cpu_bSSSE3 s \<and> sz mod 16 = 0)"
  shows "gdsp_ddma_in dsp_addr addr sz s =
    Inr (s\<lparr>g_dram := ddma_in_result dsp_addr addr ((sz + 1) div 2) s\<rparr>)"
  using assms by (auto simp: gdsp_ddma_in_def ddma_in_result_def fold_map comp_def even_add_div2)

section \<open>The vector path computes the same transfer\<close>

lemma set_mem_byte_pair:
  "set_mem_byte (Suc (2 * m)) b1 (set_mem_byte (2 * m) b0 mem) =
     mem(of_nat m := ucast b0 OR push_bit 8 (ucast b1))"
proof -
  have "(((mem (of_nat m) AND 0xff00) OR ucast b0) AND 0x00ff) OR push_bit 8 (ucast b1) =
      (ucast b0 OR push_bit 8 (ucast b1) :: u16)"
    by (rule bit_word_eqI) (auto simp: word_bit_simps bit_const_simps dest: bit_imp_le_length)
  then show ?thesis by (simp add: set_mem_byte_def Let_def)
qed

lemma fold_set_mem_bytes:
  "fold (\<lambda>k. set_mem_byte (2 * m + k) (v ! k)) [0..<2 * n] mem =
   fold (\<lambda>j mem. mem(of_nat (m + j) := ucast (v ! (2 * j)) OR push_bit 8 (ucast (v ! Suc (2 * j)))))
     [0..<n] mem"
proof (induction n)
  case (Suc n)
  then show ?case using set_mem_byte_pair [of "m + n"] by (simp add: distrib_left)
qed simp

lemma upt_16: "[0..<16] = [0, 1, 2, 3, 4, 5, 6, 7, 8, 9, 10, 11, 12, 13, 14, 15 :: nat]"
  by (simp add: upt_rec)

lemma shuffle_swaps:
  assumes "j < 8"
  shows "shuffle_epi8 (map f [0..<16]) s_mask ! (2 * j) = f (Suc (2 * j))"
    "shuffle_epi8 (map f [0..<16]) s_mask ! Suc (2 * j) = f (2 * j)"
proof -
  from assms have "j \<in> {0, 1, 2, 3, 4, 5, 6, 7}" by auto
  then show "shuffle_epi8 (map f [0..<16]) s_mask ! (2 * j) = f (Suc (2 * j))"
    "shuffle_epi8 (map f [0..<16]) s_mask ! Suc (2 * j) = f (2 * j)"
    by (auto simp: shuffle_epi8_def s_mask_def upt_16)
qed

lemma and_aligned_add:
  assumes "(a :: u32) AND 0xF = 0" "t < 16"
  shows "(a + of_nat t) AND 0x7FFFFFFF = (a AND 0x7FFFFFFF) + of_nat t"
proof -
  have t: "(of_nat t :: u32) AND 0xF = of_nat t"
    using and_mask_self [of "of_nat t :: u32" 4] assms(2) by (simp add: mask_eq_exp_minus_1 unat_of_nat)
  have a0: "b AND of_nat t = 0" if "b AND 0xF = 0" for b :: u32
  proof -
    have "b AND of_nat t = b AND (of_nat t AND 0xF)" by (simp only: t)
    also have "\<dots> = (b AND 0xF) AND of_nat t" by (simp only: ac_simps)
    finally show ?thesis by (simp add: that)
  qed
  have tm: "(of_nat t :: u32) AND 0x7FFFFFFF = of_nat t"
    by (subst t [symmetric], subst and.assoc) (simp add: t)
  have "(a + of_nat t) AND 0x7FFFFFFF = (a OR of_nat t) AND 0x7FFFFFFF"
    by (simp only: disjunctive_add_eq_or [OF a0 [OF assms(1)]])
  also have "\<dots> = (a AND 0x7FFFFFFF) OR of_nat t"
    by (simp only: bit.conj_disj_distrib2 tm)
  also have "\<dots> = (a AND 0x7FFFFFFF) + of_nat t"
  proof (rule disjunctive_add_eq_or [symmetric], rule a0)
    have "(a AND 0x7FFFFFFF) AND 0xF = (a AND 0xF) AND 0x7FFFFFFF" by (simp only: ac_simps)
    then show "(a AND 0x7FFFFFFF) AND 0xF = 0" by (simp add: assms(1))
  qed
  finally show ?thesis .
qed

lemma aligned_plus_16: "(a :: u32) AND 0xF = 0 \<Longrightarrow> (a + of_nat (16 * n)) AND 0xF = 0"
proof -
  assume a: "a AND 0xF = 0"
  have m: "unat (b AND 0xF) = unat b mod 16" for b :: u32
    using unat_and_mask [of b 4] by (simp add: mask_eq_exp_minus_1)
  have "unat a mod 16 = 0" using m [of a] a by simp
  moreover have "unat (of_nat (16 * n) :: u32) mod 16 = 0"
    by (simp only: unat_of_nat) (simp add: mod_mod_cancel)
  ultimately have "(unat a + unat (of_nat (16 * n) :: u32)) mod 16 = 0" by presburger
  then have "unat (a + of_nat (16 * n)) mod 16 = 0"
    by (simp only: unat_word_ariths) (simp add: mod_mod_cancel)
  then show ?thesis using m [of "a + of_nat (16 * n)"] by (simp only: unat_eq_0 [symmetric])
qed

lemma fold_blocks:
  "fold (\<lambda>n. fold (\<lambda>j. F (8 * n + j)) [0..<8]) [0..<B] d = fold F [0..<8 * B] d"
proof (induction B)
  case (Suc B)
  have "[0..<8 * B + 8] = [0..<8 * B] @ [8 * B..<8 * B + 8]" by (rule upt_add_eq_append) simp
  moreover have "[8 * B..<8 * B + 8] = map (\<lambda>j. 8 * B + j) [0..<8]"
    using map_add_upt [of "8 * B" 8] by (simp only: add.commute)
  moreover have "8 * Suc B = 8 * B + 8" by simp
  ultimately have "[0..<8 * Suc B] = [0..<8 * B] @ map (\<lambda>j. 8 * B + j) [0..<8]" by (simp only:)
  with Suc show ?case by (simp add: fold_map comp_def)
qed simp

lemma ddma_in_SSSE3_result:
  assumes "even dsp_addr" "addr AND 0xF = 0"
  shows "gdsp_ddma_in_SSSE3 dsp_addr addr (16 * B) s =
    s\<lparr>g_dram := ddma_in_result dsp_addr addr (8 * B) s\<rparr>"
proof -
  let ?F = "\<lambda>j dram. dram(of_nat (dsp_addr div 2 + j) :=
    swap16 (host_read16 ((addr + of_nat (2 * j)) AND 0x7FFFFFFF) (g_cpu_ram s)))"
  let ?v = "\<lambda>i. shuffle_epi8
    (map (\<lambda>k. g_cpu_ram s (((addr + of_nat i) AND 0x7FFFFFFF) + of_nat k)) [0..<16]) s_mask"
  have block: "fold (\<lambda>k. set_mem_byte (dsp_addr + 16 * n + k) (?v (16 * n) ! k)) [0..<16] =
      fold (\<lambda>j. ?F (8 * n + j)) [0..<8]" for n
  proof
    fix d
    have val: "ucast (?v (16 * n) ! (2 * j)) OR push_bit 8 (ucast (?v (16 * n) ! Suc (2 * j))) =
        swap16 (host_read16 ((addr + of_nat (2 * (8 * n + j))) AND 0x7FFFFFFF) (g_cpu_ram s))"
      if "j < 8" for j
    proof -
      have "(addr + of_nat (2 * (8 * n + j))) AND 0x7FFFFFFF =
          ((addr + of_nat (16 * n)) AND 0x7FFFFFFF) + of_nat (2 * j)"
        using and_aligned_add [OF aligned_plus_16 [OF assms(2)], of "2 * j" n] that
        by (simp add: add.assoc)
      then show ?thesis
        by (simp only: shuffle_swaps [OF that] swap16_host_read) (simp add: or.commute algebra_simps)
    qed
    have "dsp_addr + 16 * n = 2 * (dsp_addr div 2 + 8 * n)" using assms(1) by auto
    then have "fold (\<lambda>k. set_mem_byte (dsp_addr + 16 * n + k) (?v (16 * n) ! k)) [0..<16] d =
        fold (\<lambda>j d. d(of_nat (dsp_addr div 2 + 8 * n + j) :=
          ucast (?v (16 * n) ! (2 * j)) OR push_bit 8 (ucast (?v (16 * n) ! Suc (2 * j))))) [0..<8] d"
      using fold_set_mem_bytes [of "dsp_addr div 2 + 8 * n" "?v (16 * n)" 8 d] by simp
    also have "\<dots> = fold (\<lambda>j. ?F (8 * n + j)) [0..<8] d"
      by (rule fold_cong) (simp_all add: val add.assoc del: of_nat_add of_nat_mult)
    finally show "fold (\<lambda>k. set_mem_byte (dsp_addr + 16 * n + k) (?v (16 * n) ! k)) [0..<16] d =
      fold (\<lambda>j. ?F (8 * n + j)) [0..<8] d" .
  qed
  have "fold (\<lambda>i dram. let base = (addr + of_nat i) AND 0x7FFFFFFF;
          v = shuffle_epi8 (map (\<lambda>k. g_cpu_ram s (base + of_nat k)) [0..<16]) s_mask
        in fold (\<lambda>k. set_mem_byte (dsp_addr + i + k) (v ! k)) [0..<16] dram)
      (map (\<lambda>n. 16 * n) [0..<16 * B div 16]) (g_dram s) =
      fold (\<lambda>n. fold (\<lambda>j. ?F (8 * n + j)) [0..<8]) [0..<B] (g_dram s)"
    by (simp only: fold_map comp_def Let_def block) simp
  then show ?thesis
    unfolding gdsp_ddma_in_SSSE3_def ddma_in_result_def by (simp only: fold_blocks [of ?F B "g_dram s"])
qed

text \<open>Both paths: within bounds and on an aligned address, a transfer copies big-endian halfwords.\<close>

lemma ddma_in_correct:
  assumes "even dsp_addr" "addr AND 0xF = 0" "dsp_addr + (sz + sz mod 2) \<le> 0x2000"
  shows "gdsp_ddma_in dsp_addr addr sz s =
    Inr (s\<lparr>g_dram := ddma_in_result dsp_addr addr ((sz + 1) div 2) s\<rparr>)"
proof (cases "cpu_bSSSE3 s \<and> sz mod 16 = 0")
  case True
  then obtain B where B: "sz = 16 * B" by (auto simp: mod_eq_0_iff_dvd elim: dvdE)
  then have "gdsp_ddma_in dsp_addr addr sz s = Inr (gdsp_ddma_in_SSSE3 dsp_addr addr sz s)"
    using True assms(3) by (simp add: gdsp_ddma_in_def)
  moreover have "(sz + 1) div 2 = 8 * B" using B by simp
  ultimately show ?thesis using ddma_in_SSSE3_result [OF assms(1,2)] B by simp
next
  case False
  then show ?thesis using assms by (intro ddma_in_scalar) auto
qed

section \<open>Error paths of the DMA engine\<close>

definition dma_len :: "DSP \<Rightarrow> nat" where
  "dma_len s = unat (g_ifx_regs s DSP_DSBL)"

definition dma_dsp_addr :: "DSP \<Rightarrow> nat" where
  "dma_dsp_addr s = unat (g_ifx_regs s DSP_DSPA * 2)"

lemma do_dma_exit: "gdsp_do_dma s = Inl ProcessExit \<longleftrightarrow> 0x4000 < dma_len s"
  by (auto simp: gdsp_do_dma_def dma_len_def Let_def gdsp_ddma_out_def gdsp_ddma_in_def
      gdsp_idma_out_def gdsp_idma_in_def word_less_nat_alt split: if_splits)

text \<open>
  A transfer that passes the length check still overruns the 8 KB of DRAM or IRAM when it starts
  near their end: the code only bounds the length.
\<close>

lemma and_3_cases: "(c :: u16) AND 3 = 0 \<or> c AND 3 = 1 \<or> c AND 3 = 2 \<or> c AND 3 = 3"
proof -
  have "unat (c AND 3) = unat c mod 4" using unat_and_mask [of c 2] by (simp add: mask_eq_exp_minus_1)
  then have "unat (c AND 3) < 4" by simp
  then have "unat (c AND 3) \<in> {0, 1, 2, 3}" by auto
  then show ?thesis by (auto simp: word_unat_eq_iff)
qed

lemma do_dma_fault:
  assumes "dma_len s \<le> 0x4000"
  shows "gdsp_do_dma s = Inl MemoryFault \<longleftrightarrow>
    (if g_ifx_regs s DSP_DSCR AND 2 = 0
     then 0 < dma_len s \<and> 0x2000 < dma_dsp_addr s + (dma_len s + dma_len s mod 2)
     else g_ifx_regs s DSP_DSCR AND 1 = 0 \<and> 0x2000 < dma_dsp_addr s + dma_len s)"
proof -
  define c where "c = g_ifx_regs s DSP_DSCR"
  have len: "\<not> g_ifx_regs s DSP_DSBL > 0x4000" using assms by (simp add: dma_len_def word_less_nat_alt)
  have low: "c AND 2 = (c AND 3) AND 2" "c AND 1 = (c AND 3) AND 1" by (simp_all add: and.assoc)
  from and_3_cases [of c] show ?thesis
    using len low unfolding gdsp_do_dma_def c_def [symmetric] dma_len_def dma_dsp_addr_def Let_def
    by (elim disjE) (simp_all add: gdsp_ddma_out_def gdsp_ddma_in_def gdsp_idma_out_def gdsp_idma_in_def Let_def)
qed

section \<open>Properties\<close>

text \<open>
  A DMA transfer from main memory into data RAM that starts at a 16-byte aligned address and
  stays inside the 8 KB of data RAM copies big-endian halfwords: the same result on the vector
  path (SSSE3) and on the scalar path, every halfword of the range comes from its place in main memory, and
  no other word of data RAM changes.
\<close>

theorem dma_in_copies:
  assumes "even dsp_addr" "addr AND 0xF = 0" "dsp_addr + (sz + sz mod 2) \<le> 0x2000"
  shows "\<exists>dram. gdsp_ddma_in dsp_addr addr sz s = Inr (s\<lparr>g_dram := dram\<rparr>) \<and>
    gdsp_ddma_in dsp_addr addr sz (s\<lparr>cpu_bSSSE3 := \<not> cpu_bSSSE3 s\<rparr>) =
      Inr (s\<lparr>cpu_bSSSE3 := \<not> cpu_bSSSE3 s, g_dram := dram\<rparr>) \<and>
    (\<forall>j < (sz + 1) div 2. dram (of_nat (dsp_addr div 2 + j)) =
       push_bit 8 (ucast (g_cpu_ram s ((addr + of_nat (2 * j)) AND 0x7FFFFFFF))) OR
       ucast (g_cpu_ram s (((addr + of_nat (2 * j)) AND 0x7FFFFFFF) + 1))) \<and>
    (\<forall>x. (\<forall>j < (sz + 1) div 2. x \<noteq> of_nat (dsp_addr div 2 + j)) \<longrightarrow> dram x = g_dram s x)"
proof -
  let ?n = "(sz + 1) div 2"
  let ?d = "ddma_in_result dsp_addr addr ?n s"
  have bound: "dsp_addr div 2 + ?n \<le> 0x1000" using assms(3) by presburger
  have other: "ddma_in_result dsp_addr addr n (s\<lparr>cpu_bSSSE3 := b\<rparr>) = ddma_in_result dsp_addr addr n s" for n b
    by (simp add: ddma_in_result_def)
  show ?thesis
  proof (intro exI [of _ ?d] conjI allI impI)
    show "gdsp_ddma_in dsp_addr addr sz s = Inr (s\<lparr>g_dram := ?d\<rparr>)" by (rule ddma_in_correct [OF assms])
    show "gdsp_ddma_in dsp_addr addr sz (s\<lparr>cpu_bSSSE3 := \<not> cpu_bSSSE3 s\<rparr>) =
      Inr (s\<lparr>cpu_bSSSE3 := \<not> cpu_bSSSE3 s, g_dram := ?d\<rparr>)"
      using ddma_in_correct [OF assms] by (simp add: other)
    show "?d x = g_dram s x" if "\<forall>j < ?n. x \<noteq> of_nat (dsp_addr div 2 + j)" for x
      using that by (intro ddma_in_result_outside) blast
  qed (simp_all only: ddma_in_result_at [OF bound] swap16_host_read)
qed

theorem dma_in_copies_witness:
  "\<exists>dram. gdsp_ddma_in 0x100 0x20 33 (blank_dsp\<lparr>g_cpu_ram := (\<lambda>a. ucast a)\<rparr>) =
      Inr (blank_dsp\<lparr>g_cpu_ram := (\<lambda>a. ucast a), g_dram := dram\<rparr>) \<and> dram 0x81 = 0x2223"
proof -
  let ?s = "blank_dsp\<lparr>g_cpu_ram := (\<lambda>a. ucast a)\<rparr>"
  obtain dram where d: "gdsp_ddma_in 0x100 0x20 33 ?s = Inr (?s\<lparr>g_dram := dram\<rparr>)"
    "\<forall>j < (33 + 1) div 2. dram (of_nat (0x100 div 2 + j)) =
       push_bit 8 (ucast (g_cpu_ram ?s ((0x20 + of_nat (2 * j)) AND 0x7FFFFFFF))) OR
       ucast (g_cpu_ram ?s (((0x20 + of_nat (2 * j)) AND 0x7FFFFFFF) + 1))"
    using dma_in_copies [of "0x100" "0x20" 33 ?s] by auto
  from d(2) [rule_format, of 1] have "dram 0x81 = 0x2223" by simp
  with d(1) show ?thesis by auto
qed

text \<open>
  The ways a DMA request goes wrong, exactly: a length above 0x4000 bytes ends the emulator process; a
  shorter transfer leaves the array it accesses iff it runs past the 8 KB of data RAM (or, into
  instruction memory, the 8 KB of instruction RAM). The code checks the length only, so such
  requests exist.
\<close>

theorem dma_errors:
  "(gdsp_do_dma s = Inl ProcessExit \<longleftrightarrow> 0x4000 < dma_len s) \<and>
   (gdsp_do_dma s = Inl MemoryFault \<longleftrightarrow> dma_len s \<le> 0x4000 \<and>
     (if g_ifx_regs s DSP_DSCR AND 2 = 0
      then 0 < dma_len s \<and> 0x2000 < dma_dsp_addr s + (dma_len s + dma_len s mod 2)
      else g_ifx_regs s DSP_DSCR AND 1 = 0 \<and> 0x2000 < dma_dsp_addr s + dma_len s))"
  using do_dma_exit [of s] do_dma_fault [of s] by (cases "dma_len s \<le> 0x4000") auto

end
