(* ===== verification/DSP_IntUtil.thy ===== *)
theory DSP_IntUtil
  imports DSP_HW
begin

text \<open>
  The helpers the instruction handlers share: \<^verbatim>\<open>Core/DSP/Interpreter/DSPIntUtil.h\<close> (address
  registers, register access, products and accumulators) and
  \<^verbatim>\<open>Core/DSP/Interpreter/DSPIntCCUtil.cpp\<close> and \<^verbatim>\<open>.h\<close> (status flags, conditions).

  An accumulator is 40 bits wide; the 64-bit \<^verbatim>\<open>val\<close> may hold anything above bit 39, and
  \<open>dsp_get_long_acc\<close> sign-extends from bit 39.
\<close>

section \<open>Fields of an instruction word\<close>

text \<open>\<^verbatim>\<open>(opc >> sh) & msk\<close> used as an index.\<close>

definition opc_field :: "UDSPInstruction \<Rightarrow> nat \<Rightarrow> u16 \<Rightarrow> nat" where
  "opc_field opc sh msk = unat (drop_bit sh opc AND msk)"

section \<open>Address registers\<close>

definition dsp_increase_addr_reg :: "nat \<Rightarrow> u16 \<Rightarrow> DSP \<Rightarrow> u16" where
  "dsp_increase_addr_reg reg ix16 s =
    (let ar = ucast (r_ar s reg) :: u32;
         wr = ucast (r_wr s reg) :: u32;
         ix = scast ix16 :: u32;
         mx = push_bit 1 (wr OR 1);
         nar = ar + ix;
         dar = (nar XOR ar XOR ix) AND mx;
         nar1 = (if sint ix \<ge> 0
                 then (if dar > wr then nar - (wr + 1) else nar)
                 else (if ((nar + wr + 1) XOR nar) AND dar \<le> wr then nar + (wr + 1) else nar))
     in ucast nar1)"

definition dsp_decrease_addr_reg :: "nat \<Rightarrow> u16 \<Rightarrow> DSP \<Rightarrow> u16" where
  "dsp_decrease_addr_reg reg ix16 s =
    (let ar = ucast (r_ar s reg) :: u32;
         wr = ucast (r_wr s reg) :: u32;
         ix = scast ix16 :: u32;
         mx = push_bit 1 (wr OR 1);
         nar = ar - ix;
         dar = (nar XOR ar XOR NOT ix) AND mx;
         nar1 = (if ix > 0xFFFF8000
                 then (if dar > wr then nar - (wr + 1) else nar)
                 else (if ((nar + wr + 1) XOR nar) AND dar \<le> wr then nar + (wr + 1) else nar))
     in ucast nar1)"

definition dsp_increment_addr_reg :: "nat \<Rightarrow> DSP \<Rightarrow> u16" where
  "dsp_increment_addr_reg reg s =
    (let ar = ucast (r_ar s reg) :: u32;
         wr = ucast (r_wr s reg) :: u32;
         nar = ar + 1
     in ucast (if nar XOR ar > push_bit 1 (wr OR 1) then nar - (wr + 1) else nar))"

definition dsp_decrement_addr_reg :: "nat \<Rightarrow> DSP \<Rightarrow> u16" where
  "dsp_decrement_addr_reg reg s =
    (let ar = ucast (r_ar s reg) :: u32;
         wr = ucast (r_wr s reg) :: u32;
         nar = ar + wr
     in ucast (if (nar XOR ar) AND push_bit 1 (wr OR 1) > wr then nar - (wr + 1) else nar))"

text \<open>\<^verbatim>\<open>g_dsp.r.ar[reg] = \<dots>\<close>\<close>

definition set_ar :: "nat \<Rightarrow> u16 \<Rightarrow> DSP \<Rightarrow> DSP" where
  "set_ar reg v s = s\<lparr>r_ar := (r_ar s)(reg := v)\<rparr>"

section \<open>Register access\<close>

definition stack_register :: "nat \<Rightarrow> StackRegister" where
  "stack_register i = (if i = 0 then Call else if i = 1 then Data else if i = 2 then LoopAddress
     else LoopCounter)"

text \<open>Reading a stack register pops it.\<close>

definition dsp_op_read_reg :: "nat \<Rightarrow> DSP \<Rightarrow> u16 \<times> DSP" where
  "dsp_op_read_reg rg s =
    (let reg = rg mod 0x20
     in if reg \<le> 0x03 then (r_ar s (reg - DSP_REG_AR0), s)
        else if reg \<le> 0x07 then (r_ix s (reg - DSP_REG_IX0), s)
        else if reg \<le> 0x0b then (r_wr s (reg - DSP_REG_WR0), s)
        else if reg \<le> 0x0f then dsp_reg_load_stack (stack_register (reg - DSP_REG_ST0)) s
        else if reg \<le> 0x11 then (ac_h (reg - DSP_REG_ACH0) s, s)
        else if reg = DSP_REG_CR then (r_cr s, s)
        else if reg = DSP_REG_SR then (r_sr s, s)
        else if reg = DSP_REG_PRODL then (prod_l s, s)
        else if reg = DSP_REG_PRODM then (prod_m s, s)
        else if reg = DSP_REG_PRODH then (prod_h s, s)
        else if reg = DSP_REG_PRODM2 then (prod_m2 s, s)
        else if reg \<le> 0x19 then (ax_l (reg - DSP_REG_AXL0) s, s)
        else if reg \<le> 0x1b then (ax_h (reg - DSP_REG_AXH0) s, s)
        else if reg \<le> 0x1d then (ac_l (reg - DSP_REG_ACL0) s, s)
        else (ac_m (reg - DSP_REG_ACM0) s, s))"

text \<open>Writing a stack register pushes; the high part of an accumulator keeps eight bits.\<close>

definition dsp_op_write_reg :: "nat \<Rightarrow> u16 \<Rightarrow> DSP \<Rightarrow> DSP" where
  "dsp_op_write_reg rg val s =
    (let reg = rg mod 0x20
     in if reg \<le> 0x03 then s\<lparr>r_ar := (r_ar s)(reg - DSP_REG_AR0 := val)\<rparr>
        else if reg \<le> 0x07 then s\<lparr>r_ix := (r_ix s)(reg - DSP_REG_IX0 := val)\<rparr>
        else if reg \<le> 0x0b then s\<lparr>r_wr := (r_wr s)(reg - DSP_REG_WR0 := val)\<rparr>
        else if reg \<le> 0x0f then dsp_reg_store_stack (stack_register (reg - DSP_REG_ST0)) val s
        else if reg \<le> 0x11 then set_ac_h (reg - DSP_REG_ACH0) (scast (ucast val :: u8)) s
        else if reg = DSP_REG_CR then s\<lparr>r_cr := val\<rparr>
        else if reg = DSP_REG_SR then s\<lparr>r_sr := val\<rparr>
        else if reg = DSP_REG_PRODL then set_prod_l val s
        else if reg = DSP_REG_PRODM then set_prod_m val s
        else if reg = DSP_REG_PRODH then set_prod_h val s
        else if reg = DSP_REG_PRODM2 then set_prod_m2 val s
        else if reg \<le> 0x19 then set_ax_l (reg - DSP_REG_AXL0) val s
        else if reg \<le> 0x1b then set_ax_h (reg - DSP_REG_AXH0) val s
        else if reg \<le> 0x1d then set_ac_l (reg - DSP_REG_ACL0) val s
        else set_ac_m (reg - DSP_REG_ACM0) val s)"

definition dsp_conditional_extend_accum :: "nat \<Rightarrow> DSP \<Rightarrow> DSP" where
  "dsp_conditional_extend_accum reg s =
    (if (reg = 0x1e \<or> reg = 0x1f) \<and> r_sr s AND SR_40_MODE_BIT \<noteq> 0 then
       (let i = reg - DSP_REG_ACM0; val = ac_m i s
        in set_ac_l i 0 (set_ac_h i (if val AND 0x8000 \<noteq> 0 then 0xFFFF else 0x0000) s))
     else s)"

section \<open>Products\<close>

definition dsp_get_long_prod :: "DSP \<Rightarrow> s64" where
  "dsp_get_long_prod s =
    (let val = push_bit 32 (scast (ucast (prod_h s) :: u8) :: s64);
         low_prod = push_bit 16 (ucast (prod_m s) + ucast (prod_m2 s)) OR ucast (prod_l s)
     in val + low_prod)"

definition dsp_get_long_prod_round_prodl :: "DSP \<Rightarrow> s64" where
  "dsp_get_long_prod_round_prodl s =
    (let prod = dsp_get_long_prod s
     in if prod AND 0x10000 \<noteq> 0 then (prod + 0x8000) AND NOT 0xffff
        else (prod + 0x7fff) AND NOT 0xffff)"

definition dsp_set_long_prod :: "s64 \<Rightarrow> DSP \<Rightarrow> DSP" where
  "dsp_set_long_prod val s = s\<lparr>r_prod := val AND 0x000000FFFFFFFFFF\<rparr>"

section \<open>Accumulators\<close>

definition dsp_get_long_acc :: "nat \<Rightarrow> DSP \<Rightarrow> s64" where
  "dsp_get_long_acc reg s = signed_drop_bit 24 (push_bit 24 (r_ac s reg))"

definition dsp_set_long_acc :: "nat \<Rightarrow> s64 \<Rightarrow> DSP \<Rightarrow> DSP" where
  "dsp_set_long_acc reg val s = s\<lparr>r_ac := (r_ac s)(reg := val)\<rparr>"

definition dsp_convert_long_acc :: "s64 \<Rightarrow> s64" where
  "dsp_convert_long_acc val = signed_drop_bit 24 (push_bit 24 val)"

definition dsp_round_long_acc :: "s64 \<Rightarrow> s64" where
  "dsp_round_long_acc val =
    (if val AND 0x10000 \<noteq> 0 then (val + 0x8000) AND NOT 0xffff
     else (val + 0x7fff) AND NOT 0xffff)"

definition dsp_get_acc_l :: "nat \<Rightarrow> DSP \<Rightarrow> u16" where "dsp_get_acc_l reg s = ac_l reg s"
definition dsp_get_acc_m :: "nat \<Rightarrow> DSP \<Rightarrow> u16" where "dsp_get_acc_m reg s = ac_m reg s"
definition dsp_get_acc_h :: "nat \<Rightarrow> DSP \<Rightarrow> u16" where "dsp_get_acc_h reg s = ac_h reg s"

text \<open>\<^verbatim>\<open>acc != (s32)acc\<close>\<close>

definition isOverS32 :: "s64 \<Rightarrow> bool" where
  "isOverS32 acc \<longleftrightarrow> acc \<noteq> scast (ucast acc :: u32)"

definition dsp_op_read_reg_and_saturate :: "nat \<Rightarrow> DSP \<Rightarrow> u16" where
  "dsp_op_read_reg_and_saturate reg s =
    (if r_sr s AND SR_40_MODE_BIT \<noteq> 0 then
       (let acc = dsp_get_long_acc reg s
        in if isOverS32 acc then (if sint acc > 0 then 0x7fff else 0x8000) else ac_m reg s)
     else ac_m reg s)"

section \<open>Extra accumulators\<close>

text \<open>The result is used as a 64-bit operand, so the sign extension is part of it.\<close>

definition dsp_get_long_acx :: "nat \<Rightarrow> DSP \<Rightarrow> s64" where
  "dsp_get_long_acx reg s = scast (push_bit 16 (ucast (ax_h reg s)) OR ucast (ax_l reg s) :: u32)"

definition dsp_get_ax_l :: "nat \<Rightarrow> DSP \<Rightarrow> u16" where "dsp_get_ax_l reg s = ax_l reg s"
definition dsp_get_ax_h :: "nat \<Rightarrow> DSP \<Rightarrow> u16" where "dsp_get_ax_h reg s = ax_h reg s"

section \<open>Flags\<close>

definition Update_SR_Register64 :: "s64 \<Rightarrow> bool \<Rightarrow> bool \<Rightarrow> DSP \<Rightarrow> DSP" where
  "Update_SR_Register64 v carry overflow s =
    s\<lparr>r_sr :=
      (r_sr s AND NOT SR_CMP_MASK)
      OR (if carry then SR_CARRY else 0)
      OR (if overflow then SR_OVERFLOW OR SR_OVERFLOW_STICKY else 0)
      OR (if v = 0 then SR_ARITH_ZERO else 0)
      OR (if sint v < 0 then SR_SIGN else 0)
      OR (if isOverS32 v then SR_OVER_S32 else 0)
      OR (if v AND 0xc0000000 = 0 \<or> v AND 0xc0000000 = 0xc0000000 then SR_TOP2BITS else 0)\<rparr>"

definition Update_SR_Register16 :: "u16 \<Rightarrow> bool \<Rightarrow> bool \<Rightarrow> bool \<Rightarrow> DSP \<Rightarrow> DSP" where
  "Update_SR_Register16 v carry overflow overS32 s =
    s\<lparr>r_sr :=
      (r_sr s AND NOT SR_CMP_MASK)
      OR (if carry then SR_CARRY else 0)
      OR (if overflow then SR_OVERFLOW OR SR_OVERFLOW_STICKY else 0)
      OR (if v = 0 then SR_ARITH_ZERO else 0)
      OR (if sint v < 0 then SR_SIGN else 0)
      OR (if overS32 then SR_OVER_S32 else 0)
      OR (if drop_bit 14 v = 0 \<or> drop_bit 14 v = 3 then SR_TOP2BITS else 0)\<rparr>"

definition Update_SR_LZ :: "bool \<Rightarrow> DSP \<Rightarrow> DSP" where
  "Update_SR_LZ value s =
    (if value then s\<lparr>r_sr := r_sr s OR SR_LOGIC_ZERO\<rparr>
     else s\<lparr>r_sr := r_sr s AND NOT SR_LOGIC_ZERO\<rparr>)"

definition isCarry :: "u64 \<Rightarrow> u64 \<Rightarrow> bool" where "isCarry val result \<longleftrightarrow> val > result"
definition isCarry2 :: "u64 \<Rightarrow> u64 \<Rightarrow> bool" where "isCarry2 val result \<longleftrightarrow> val \<ge> result"

definition isOverflow :: "s64 \<Rightarrow> s64 \<Rightarrow> s64 \<Rightarrow> bool" where
  "isOverflow val1 val2 res \<longleftrightarrow> sint ((val1 XOR res) AND (val2 XOR res)) < 0"

section \<open>Conditions\<close>

definition IsCarry :: "DSP \<Rightarrow> bool" where "IsCarry s \<longleftrightarrow> r_sr s AND SR_CARRY \<noteq> 0"
definition IsOverflow :: "DSP \<Rightarrow> bool" where "IsOverflow s \<longleftrightarrow> r_sr s AND SR_OVERFLOW \<noteq> 0"
definition IsOverS32 :: "DSP \<Rightarrow> bool" where "IsOverS32 s \<longleftrightarrow> r_sr s AND SR_OVER_S32 \<noteq> 0"
definition IsLess :: "DSP \<Rightarrow> bool" where
  "IsLess s \<longleftrightarrow> (r_sr s AND SR_OVERFLOW = 0) \<noteq> (r_sr s AND SR_SIGN = 0)"
definition IsZero :: "DSP \<Rightarrow> bool" where "IsZero s \<longleftrightarrow> r_sr s AND SR_ARITH_ZERO \<noteq> 0"
definition IsLogicZero :: "DSP \<Rightarrow> bool" where "IsLogicZero s \<longleftrightarrow> r_sr s AND SR_LOGIC_ZERO \<noteq> 0"
definition IsConditionA :: "DSP \<Rightarrow> bool" where
  "IsConditionA s \<longleftrightarrow> (r_sr s AND SR_OVER_S32 \<noteq> 0 \<or> r_sr s AND SR_TOP2BITS \<noteq> 0) \<and>
     r_sr s AND SR_ARITH_ZERO = 0"

definition CheckCondition :: "nat \<Rightarrow> DSP \<Rightarrow> bool" where
  "CheckCondition cond s =
    (let c = cond mod 16
     in if c = 0xf then True
        else if c = 0x0 then \<not> IsLess s
        else if c = 0x1 then IsLess s
        else if c = 0x2 then \<not> IsLess s \<and> \<not> IsZero s
        else if c = 0x3 then IsLess s \<or> IsZero s
        else if c = 0x4 then \<not> IsZero s
        else if c = 0x5 then IsZero s
        else if c = 0x6 then \<not> IsCarry s
        else if c = 0x7 then IsCarry s
        else if c = 0x8 then \<not> IsOverS32 s
        else if c = 0x9 then IsOverS32 s
        else if c = 0xa then IsConditionA s
        else if c = 0xb then \<not> IsConditionA s
        else if c = 0xc then \<not> IsLogicZero s
        else if c = 0xd then IsLogicZero s
        else IsOverflow s)"

section \<open>Forty-bit two's complement\<close>

text \<open>The value of an integer reduced to a signed 40-bit number.\<close>

abbreviation s40 :: "int \<Rightarrow> int" where "s40 \<equiv> signed_take_bit 39"

abbreviation acc_val :: "nat \<Rightarrow> DSP \<Rightarrow> int" where "acc_val i s \<equiv> sint (dsp_get_long_acc i s)"

definition in_s40 :: "int \<Rightarrow> bool" where
  "in_s40 x \<longleftrightarrow> - (2 ^ 39) \<le> x \<and> x < 2 ^ 39"

lemma s40_eq: "s40 x = (x + 2 ^ 39) mod 2 ^ 40 - 2 ^ 39"
  by (simp add: signed_take_bit_eq_take_bit_shift take_bit_eq_mod)

lemma s40_range: "in_s40 (s40 x)"
proof -
  have "0 \<le> (x + 2 ^ 39) mod 2 ^ 40" "(x + 2 ^ 39) mod 2 ^ 40 < 2 ^ 40" by simp_all
  then show ?thesis unfolding in_s40_def s40_eq by simp
qed

lemma s40_self: "in_s40 x \<Longrightarrow> s40 x = x"
  by (simp add: s40_eq in_s40_def)

lemma mod_one_down: "m \<le> y \<Longrightarrow> y < 2 * m \<Longrightarrow> y mod m = y - (m :: int)"
  using minus_mod_self2 [of y m] mod_pos_pos_trivial [of "y - m" m] by simp

lemma mod_one_up: "- m \<le> y \<Longrightarrow> y < 0 \<Longrightarrow> y mod m = y + (m :: int)"
  using mod_add_self2 [of y m] mod_pos_pos_trivial [of "y + m" m] by simp

lemma s40_over: "2 ^ 39 \<le> x \<Longrightarrow> x < 3 * 2 ^ 39 \<Longrightarrow> s40 x = x - 2 ^ 40"
  using mod_one_down [of "2 ^ 40" "x + 2 ^ 39"] by (simp add: s40_eq)

lemma s40_under: "- 3 * 2 ^ 39 \<le> x \<Longrightarrow> x < - (2 ^ 39) \<Longrightarrow> s40 x = x + 2 ^ 40"
  using mod_one_up [of "2 ^ 40" "x + 2 ^ 39"] by (simp add: s40_eq)

lemma sext40_eq: "signed_drop_bit 24 (push_bit 24 w) = signed_take_bit 39 (w :: s64)"
proof (rule bit_word_eqI)
  fix n assume "n < LENGTH(64)"
  then show "bit (signed_drop_bit 24 (push_bit 24 w)) n = bit (signed_take_bit 39 w) n"
    by (cases "n = 39")
      (auto simp: bit_signed_drop_bit_iff bit_push_bit_iff bit_signed_take_bit_iff min_def)
qed

lemma sint_signed_take_bit_39: "sint (signed_take_bit 39 (w :: s64)) = s40 (sint w)"
  by (rule bit_eqI)
    (auto simp: bit_sint_iff bit_signed_take_bit_iff min_def dest: bit_imp_le_length)

lemma acc_val_eq: "acc_val i s = s40 (sint (r_ac s i))"
  by (simp only: dsp_get_long_acc_def sext40_eq sint_signed_take_bit_39)

lemma sint_convert_long_acc: "sint (dsp_convert_long_acc v) = s40 (sint v)"
  by (simp only: dsp_convert_long_acc_def sext40_eq sint_signed_take_bit_39)

lemma acc_val_range: "in_s40 (acc_val i s)"
  by (simp only: acc_val_eq s40_range)

lemma s40_sint_add: "s40 (sint ((v :: s64) + w)) = s40 (sint v + sint w)"
  by (simp add: sint_word_add signed_take_bit_signed_take_bit)

lemma s40_sint_diff: "s40 (sint ((v :: s64) - w)) = s40 (sint v - sint w)"
  by (simp add: sint_word_diff signed_take_bit_signed_take_bit)

lemma acc_val_set: "acc_val i (dsp_set_long_acc j v s) = (if i = j then s40 (sint v) else acc_val i s)"
  by (simp add: acc_val_eq dsp_set_long_acc_def)

section \<open>Overflow and carry are exact\<close>

lemma sint_neg_iff_bit: "sint (w :: s64) < 0 \<longleftrightarrow> bit w 63"
  using bit_last_iff [of w] by simp

lemma isOverflow_signs:
  "isOverflow a b r \<longleftrightarrow> (sint a < 0) \<noteq> (sint r < 0) \<and> (sint b < 0) \<noteq> (sint r < 0)"
  by (auto simp: isOverflow_def sint_neg_iff_bit bit_and_iff bit_xor_iff)

lemma isOverflow_add:
  assumes "in_s40 (sint a)" "- (2 ^ 39) \<le> sint b" "sint b \<le> 2 ^ 39" "sint r = s40 (sint a + sint b)"
  shows "isOverflow a b r \<longleftrightarrow> \<not> in_s40 (sint a + sint b)"
proof -
  consider "in_s40 (sint a + sint b)" | "2 ^ 39 \<le> sint a + sint b" | "sint a + sint b < - (2 ^ 39)"
    by (fastforce simp: in_s40_def)
  then show ?thesis
  proof cases
    case 1
    then show ?thesis using assms by (auto simp: isOverflow_signs s40_self in_s40_def)
  next
    case 2
    then have "s40 (sint a + sint b) = sint a + sint b - 2 ^ 40"
      using assms by (intro s40_over) (auto simp: in_s40_def)
    with 2 show ?thesis using assms by (auto simp: isOverflow_signs in_s40_def)
  next
    case 3
    then have "s40 (sint a + sint b) = sint a + sint b + 2 ^ 40"
      using assms by (intro s40_under) (auto simp: in_s40_def)
    with 3 show ?thesis using assms by (auto simp: isOverflow_signs in_s40_def)
  qed
qed

text \<open>The unsigned reading of the low 40 bits.\<close>

abbreviation u40 :: "int \<Rightarrow> int" where "u40 x \<equiv> x mod 2 ^ 40"

lemma uint_less_s40:
  assumes "in_s40 (sint (a :: s64))" "in_s40 (sint b)"
  shows "a < b \<longleftrightarrow> u40 (sint a) < u40 (sint b)"
proof -
  have u: "uint w = (if sint w < 0 then sint w + 2 ^ 64 else sint w)" for w :: s64
  proof -
    have r: "- (2 ^ 63) \<le> sint w" "sint w < 2 ^ 63"
      using sint_greater_eq [of w] sint_less [of w] by simp_all
    have "uint w = sint w mod 2 ^ 64" by (simp add: uint_sint take_bit_eq_mod)
    with r show ?thesis using mod_one_up [of "2 ^ 64" "sint w"] by auto
  qed
  have m: "u40 x = (if x < 0 then x + 2 ^ 40 else x)" if "in_s40 x" for x
    using that mod_one_up [of "2 ^ 40" x] by (auto simp: in_s40_def)
  show ?thesis
    unfolding word_less_def u m [OF assms(1)] m [OF assms(2)] using assms by (auto simp: in_s40_def)
qed

lemma u40_s40: "u40 (s40 x) = u40 x"
proof -
  have "((x + 2 ^ 39) mod 2 ^ 40 - 2 ^ 39) mod 2 ^ 40 = (x + 2 ^ 39 - 2 ^ 39) mod (2 ^ 40 :: int)"
    by (rule mod_diff_left_eq)
  then show ?thesis by (simp only: s40_eq) simp
qed

lemma isCarry_add:
  assumes "in_s40 (sint a)" "sint r = s40 (sint a + b)"
  shows "isCarry a r \<longleftrightarrow> 2 ^ 40 \<le> u40 (sint a) + u40 b"
proof -
  define x y where "x = u40 (sint a)" and "y = u40 b"
  have xy: "0 \<le> x" "x < 2 ^ 40" "0 \<le> y" "y < 2 ^ 40" by (simp_all add: x_def y_def)
  have "u40 (sint r) = u40 (sint a + b)" unfolding assms(2) by (rule u40_s40)
  also have "\<dots> = (x + y) mod 2 ^ 40" unfolding x_def y_def by (rule mod_add_eq [symmetric])
  finally have "isCarry a r \<longleftrightarrow> (x + y) mod 2 ^ 40 < x"
    using uint_less_s40 [of r a] assms s40_range by (simp add: isCarry_def x_def)
  moreover have "(x + y) mod 2 ^ 40 < x \<longleftrightarrow> 2 ^ 40 \<le> x + y"
    using xy mod_one_down [of "2 ^ 40" "x + y"] by (cases "2 ^ 40 \<le> x + y") auto
  ultimately show ?thesis by (simp only: x_def y_def)
qed

lemma isCarry2_sub:
  assumes "in_s40 (sint a)" "sint r = s40 (sint a - b)"
  shows "isCarry2 a r \<longleftrightarrow> u40 b \<le> u40 (sint a)"
proof -
  define x y where "x = u40 (sint a)" and "y = u40 b"
  have xy: "0 \<le> x" "x < 2 ^ 40" "0 \<le> y" "y < 2 ^ 40" by (simp_all add: x_def y_def)
  have "u40 (sint r) = u40 (sint a - b)" unfolding assms(2) by (rule u40_s40)
  also have "\<dots> = (x - y) mod 2 ^ 40" unfolding x_def y_def by (rule mod_diff_eq [symmetric])
  finally have "isCarry2 a r \<longleftrightarrow> \<not> x < (x - y) mod 2 ^ 40"
    using uint_less_s40 [of a r] assms s40_range unfolding isCarry2_def x_def not_less [symmetric] by simp
  moreover have "x < (x - y) mod 2 ^ 40 \<longleftrightarrow> x < y"
    using xy mod_one_up [of "2 ^ 40" "x - y"] by (cases "x < y") auto
  ultimately show ?thesis unfolding x_def y_def linorder_not_less [symmetric] by blast
qed

section \<open>What the flags say\<close>

lemma flag_bit:
  "(w :: u16) AND 1 = 0 \<longleftrightarrow> \<not> bit w 0"
  "w AND 2 = 0 \<longleftrightarrow> \<not> bit w (Suc 0)"
  "w AND 4 = 0 \<longleftrightarrow> \<not> bit w 2"
  "w AND 8 = 0 \<longleftrightarrow> \<not> bit w 3"
  "w AND 16 = 0 \<longleftrightarrow> \<not> bit w 4"
  "w AND 32 = 0 \<longleftrightarrow> \<not> bit w 5"
  "w AND 64 = 0 \<longleftrightarrow> \<not> bit w 6"
  "w AND 128 = 0 \<longleftrightarrow> \<not> bit w 7"
  "w AND 0x0200 = 0 \<longleftrightarrow> \<not> bit w 9"
  "w AND 0x0800 = 0 \<longleftrightarrow> \<not> bit w 11"
  "w AND 0x2000 = 0 \<longleftrightarrow> \<not> bit w 13"
  "w AND 0x4000 = 0 \<longleftrightarrow> \<not> bit w 14"
  "w AND 0x8000 = 0 \<longleftrightarrow> \<not> bit w 15"
  using and_push_bit_1 [of w 0] and_push_bit_1 [of w 1] and_push_bit_1 [of w 2]
    and_push_bit_1 [of w 3] and_push_bit_1 [of w 4] and_push_bit_1 [of w 5]
    and_push_bit_1 [of w 6] and_push_bit_1 [of w 7] and_push_bit_1 [of w 9]
    and_push_bit_1 [of w 11] and_push_bit_1 [of w 13] and_push_bit_1 [of w 14]
    and_push_bit_1 [of w 15]
  by simp_all blast+

lemma bit_if: "bit (if c then a else b) n = (if c then bit a n else bit b n)"
  by simp

lemma Update_SR64_flags:
  "IsCarry (Update_SR_Register64 v c f s) \<longleftrightarrow> c"
  "IsOverflow (Update_SR_Register64 v c f s) \<longleftrightarrow> f"
  "IsZero (Update_SR_Register64 v c f s) \<longleftrightarrow> v = 0"
  "r_sr (Update_SR_Register64 v c f s) AND SR_SIGN \<noteq> 0 \<longleftrightarrow> sint v < 0"
  "IsOverS32 (Update_SR_Register64 v c f s) \<longleftrightarrow> isOverS32 v"
  "r_sr (Update_SR_Register64 v c f s) AND SR_OVERFLOW_STICKY \<noteq> 0 \<longleftrightarrow>
     f \<or> r_sr s AND SR_OVERFLOW_STICKY \<noteq> 0"
  by (simp_all add: Update_SR_Register64_def IsCarry_def IsOverflow_def IsZero_def IsOverS32_def
      flag_bit bit_or_iff bit_and_iff bit_not_iff bit_if)

end
