(* ===== verification/DSP_Arithmetic.thy ===== *)
theory DSP_Arithmetic
  imports DSP_IntUtil
begin

text \<open>
  The arithmetic, logic, shift and move instructions of
  \<^verbatim>\<open>Core/DSP/Interpreter/DSPIntArithmetic.cpp\<close>, one handler per instruction, named after the
  source with the prefix \<open>op_\<close>. \<^verbatim>\<open>ZeroWriteBackLog\<close> and
  \<^verbatim>\<open>ZeroWriteBackLogPreserveAcc\<close> have empty bodies (\<^verbatim>\<open>PRECISE_BACKLOG\<close> is not defined), so
  the handlers have no trace of them.

  The locales \<open>acc_adder\<close> and \<open>acc_subtractor\<close> state what all additions and all subtractions
  promise: the 40-bit result, an overflow flag that is set exactly when the signed result does not
  fit 40 bits, a carry flag that is exactly the unsigned carry (no borrow), a sticky overflow flag.
\<close>

section \<open>Operands\<close>

text \<open>The \<^verbatim>\<open>switch (sreg)\<close> of \<^verbatim>\<open>addr\<close>, \<^verbatim>\<open>subr\<close> and \<^verbatim>\<open>movr\<close>, sign-extended.\<close>

definition ax_operand :: "UDSPInstruction \<Rightarrow> DSP \<Rightarrow> s64" where
  "ax_operand opc s =
    (let sreg = opc_field opc 9 0x3 + DSP_REG_AXL0
     in if sreg = 0x18 \<or> sreg = 0x19 then scast (ax_l (sreg - DSP_REG_AXL0) s)
        else if sreg = 0x1a \<or> sreg = 0x1b then scast (ax_h (sreg - DSP_REG_AXH0) s)
        else 0)"

text \<open>The signed shift count of the six variable shifts, and the shift by it.\<close>

definition n_shift :: "u16 \<Rightarrow> int" where
  "n_shift v =
    (if v AND 0x3f = 0 then 0
     else if v AND 0x40 \<noteq> 0 then -0x40 + uint (v AND 0x3f)
     else uint (v AND 0x3f))"

definition shift_right_by :: "(nat \<Rightarrow> s64 \<Rightarrow> s64) \<Rightarrow> int \<Rightarrow> s64 \<Rightarrow> s64" where
  "shift_right_by shr shift acc =
    (if shift > 0 then shr (nat shift) acc
     else if shift < 0 then push_bit (nat (- shift)) acc else acc)"

definition shift_left_by :: "(nat \<Rightarrow> s64 \<Rightarrow> s64) \<Rightarrow> int \<Rightarrow> s64 \<Rightarrow> s64" where
  "shift_left_by shr shift acc =
    (if shift > 0 then push_bit (nat shift) acc
     else if shift < 0 then shr (nat (- shift)) acc else acc)"

section \<open>Handlers\<close>

definition op_clr :: "UDSPInstruction \<Rightarrow> DSP \<Rightarrow> DSP" where
  "op_clr opc s =
    (let reg = opc_field opc 11 0x1
     in Update_SR_Register64 0 False False (dsp_set_long_acc reg 0 s))"

definition op_clrl :: "UDSPInstruction \<Rightarrow> DSP \<Rightarrow> DSP" where
  "op_clrl opc s =
    (let reg = opc_field opc 8 0x1;
         acc = dsp_round_long_acc (dsp_get_long_acc reg s)
     in Update_SR_Register64 acc False False (dsp_set_long_acc reg acc s))"

definition op_andcf :: "UDSPInstruction \<Rightarrow> DSP \<Rightarrow> DSP" where
  "op_andcf opc s =
    (let reg = opc_field opc 8 0x1;
         (imm, s1) = dsp_fetch_code s;
         val = dsp_get_acc_m reg s1
     in Update_SR_LZ (val AND imm = imm) s1)"

definition op_andf :: "UDSPInstruction \<Rightarrow> DSP \<Rightarrow> DSP" where
  "op_andf opc s =
    (let reg = opc_field opc 8 0x1;
         (imm, s1) = dsp_fetch_code s;
         val = dsp_get_acc_m reg s1
     in Update_SR_LZ (val AND imm = 0) s1)"

definition op_tst :: "UDSPInstruction \<Rightarrow> DSP \<Rightarrow> DSP" where
  "op_tst opc s =
    (let reg = opc_field opc 11 0x1
     in Update_SR_Register64 (dsp_get_long_acc reg s) False False s)"

definition op_tstaxh :: "UDSPInstruction \<Rightarrow> DSP \<Rightarrow> DSP" where
  "op_tstaxh opc s =
    (let reg = opc_field opc 8 0x1
     in Update_SR_Register16 (dsp_get_ax_h reg s) False False False s)"

definition op_cmp :: "UDSPInstruction \<Rightarrow> DSP \<Rightarrow> DSP" where
  "op_cmp opc s =
    (let acc0 = dsp_get_long_acc 0 s;
         acc1 = dsp_get_long_acc 1 s;
         res = dsp_convert_long_acc (acc0 - acc1)
     in Update_SR_Register64 res (isCarry2 acc0 res) (isOverflow acc0 (- acc1) res) s)"

definition op_cmpar :: "UDSPInstruction \<Rightarrow> DSP \<Rightarrow> DSP" where
  "op_cmpar opc s =
    (let rreg = opc_field opc 12 0x1;
         sreg = opc_field opc 11 0x1;
         sr = dsp_get_long_acc sreg s;
         rr = push_bit 16 (scast (ax_h rreg s)) :: s64;
         res = dsp_convert_long_acc (sr - rr)
     in Update_SR_Register64 res (isCarry2 sr res) (isOverflow sr (- rr) res) s)"

definition op_cmpi :: "UDSPInstruction \<Rightarrow> DSP \<Rightarrow> DSP" where
  "op_cmpi opc s =
    (let reg = opc_field opc 8 0x1;
         val = dsp_get_long_acc reg s;
         (code, s1) = dsp_fetch_code s;
         imm = push_bit 16 (scast code) :: s64;
         res = dsp_convert_long_acc (val - imm)
     in Update_SR_Register64 res (isCarry2 val res) (isOverflow val (- imm) res) s1)"

definition op_cmpis :: "UDSPInstruction \<Rightarrow> DSP \<Rightarrow> DSP" where
  "op_cmpis opc s =
    (let areg = opc_field opc 8 0x1;
         acc = dsp_get_long_acc areg s;
         val = push_bit 16 (scast (ucast opc :: u8)) :: s64;
         res = dsp_convert_long_acc (acc - val)
     in Update_SR_Register64 res (isCarry2 acc res) (isOverflow acc (- val) res) s)"

definition op_xorr :: "UDSPInstruction \<Rightarrow> DSP \<Rightarrow> DSP" where
  "op_xorr opc s =
    (let dreg = opc_field opc 8 0x1;
         sreg = opc_field opc 9 0x1;
         accm = ac_m dreg s XOR ax_h sreg s;
         s1 = set_ac_m dreg accm s
     in Update_SR_Register16 accm False False (isOverS32 (dsp_get_long_acc dreg s1)) s1)"

definition op_andr :: "UDSPInstruction \<Rightarrow> DSP \<Rightarrow> DSP" where
  "op_andr opc s =
    (let dreg = opc_field opc 8 0x1;
         sreg = opc_field opc 9 0x1;
         accm = ac_m dreg s AND ax_h sreg s;
         s1 = set_ac_m dreg accm s
     in Update_SR_Register16 accm False False (isOverS32 (dsp_get_long_acc dreg s1)) s1)"

definition op_orr :: "UDSPInstruction \<Rightarrow> DSP \<Rightarrow> DSP" where
  "op_orr opc s =
    (let dreg = opc_field opc 8 0x1;
         sreg = opc_field opc 9 0x1;
         accm = ac_m dreg s OR ax_h sreg s;
         s1 = set_ac_m dreg accm s
     in Update_SR_Register16 accm False False (isOverS32 (dsp_get_long_acc dreg s1)) s1)"

definition op_andc :: "UDSPInstruction \<Rightarrow> DSP \<Rightarrow> DSP" where
  "op_andc opc s =
    (let dreg = opc_field opc 8 0x1;
         accm = ac_m dreg s AND ac_m (1 - dreg) s;
         s1 = set_ac_m dreg accm s
     in Update_SR_Register16 accm False False (isOverS32 (dsp_get_long_acc dreg s1)) s1)"

definition op_orc :: "UDSPInstruction \<Rightarrow> DSP \<Rightarrow> DSP" where
  "op_orc opc s =
    (let dreg = opc_field opc 8 0x1;
         accm = ac_m dreg s OR ac_m (1 - dreg) s;
         s1 = set_ac_m dreg accm s
     in Update_SR_Register16 accm False False (isOverS32 (dsp_get_long_acc dreg s1)) s1)"

definition op_xorc :: "UDSPInstruction \<Rightarrow> DSP \<Rightarrow> DSP" where
  "op_xorc opc s =
    (let dreg = opc_field opc 8 0x1;
         accm = ac_m dreg s XOR ac_m (1 - dreg) s;
         s1 = set_ac_m dreg accm s
     in Update_SR_Register16 accm False False (isOverS32 (dsp_get_long_acc dreg s1)) s1)"

definition op_notc :: "UDSPInstruction \<Rightarrow> DSP \<Rightarrow> DSP" where
  "op_notc opc s =
    (let dreg = opc_field opc 8 0x1;
         accm = ac_m dreg s XOR 0xffff;
         s1 = set_ac_m dreg accm s
     in Update_SR_Register16 accm False False (isOverS32 (dsp_get_long_acc dreg s1)) s1)"

definition op_xori :: "UDSPInstruction \<Rightarrow> DSP \<Rightarrow> DSP" where
  "op_xori opc s =
    (let reg = opc_field opc 8 0x1;
         (imm, s1) = dsp_fetch_code s;
         s2 = set_ac_m reg (ac_m reg s1 XOR imm) s1
     in Update_SR_Register16 (ac_m reg s2) False False (isOverS32 (dsp_get_long_acc reg s2)) s2)"

definition op_andi :: "UDSPInstruction \<Rightarrow> DSP \<Rightarrow> DSP" where
  "op_andi opc s =
    (let reg = opc_field opc 8 0x1;
         (imm, s1) = dsp_fetch_code s;
         s2 = set_ac_m reg (ac_m reg s1 AND imm) s1
     in Update_SR_Register16 (ac_m reg s2) False False (isOverS32 (dsp_get_long_acc reg s2)) s2)"

definition op_ori :: "UDSPInstruction \<Rightarrow> DSP \<Rightarrow> DSP" where
  "op_ori opc s =
    (let reg = opc_field opc 8 0x1;
         (imm, s1) = dsp_fetch_code s;
         s2 = set_ac_m reg (ac_m reg s1 OR imm) s1
     in Update_SR_Register16 (ac_m reg s2) False False (isOverS32 (dsp_get_long_acc reg s2)) s2)"

definition op_addr :: "UDSPInstruction \<Rightarrow> DSP \<Rightarrow> DSP" where
  "op_addr opc s =
    (let dreg = opc_field opc 8 0x1;
         acc = dsp_get_long_acc dreg s;
         v = push_bit 16 (ax_operand opc s);
         s1 = dsp_set_long_acc dreg (acc + v) s;
         res = dsp_get_long_acc dreg s1
     in Update_SR_Register64 res (isCarry acc res) (isOverflow acc v res) s1)"

definition op_addax :: "UDSPInstruction \<Rightarrow> DSP \<Rightarrow> DSP" where
  "op_addax opc s =
    (let dreg = opc_field opc 8 0x1;
         sreg = opc_field opc 9 0x1;
         acc = dsp_get_long_acc dreg s;
         v = dsp_get_long_acx sreg s;
         s1 = dsp_set_long_acc dreg (acc + v) s;
         res = dsp_get_long_acc dreg s1
     in Update_SR_Register64 res (isCarry acc res) (isOverflow acc v res) s1)"

definition op_add :: "UDSPInstruction \<Rightarrow> DSP \<Rightarrow> DSP" where
  "op_add opc s =
    (let dreg = opc_field opc 8 0x1;
         acc = dsp_get_long_acc dreg s;
         v = dsp_get_long_acc (1 - dreg) s;
         s1 = dsp_set_long_acc dreg (acc + v) s;
         res = dsp_get_long_acc dreg s1
     in Update_SR_Register64 res (isCarry acc res) (isOverflow acc v res) s1)"

definition op_addp :: "UDSPInstruction \<Rightarrow> DSP \<Rightarrow> DSP" where
  "op_addp opc s =
    (let dreg = opc_field opc 8 0x1;
         acc = dsp_get_long_acc dreg s;
         v = dsp_get_long_prod s;
         s1 = dsp_set_long_acc dreg (acc + v) s;
         res = dsp_get_long_acc dreg s1
     in Update_SR_Register64 res (isCarry acc res) (isOverflow acc v res) s1)"

definition op_addaxl :: "UDSPInstruction \<Rightarrow> DSP \<Rightarrow> DSP" where
  "op_addaxl opc s =
    (let dreg = opc_field opc 8 0x1;
         sreg = opc_field opc 9 0x1;
         acc = dsp_get_long_acc dreg s;
         v = ucast (dsp_get_ax_l sreg s) :: s64;
         s1 = dsp_set_long_acc dreg (acc + v) s;
         res = dsp_get_long_acc dreg s1
     in Update_SR_Register64 res (isCarry acc res) (isOverflow acc v res) s1)"

definition op_addi :: "UDSPInstruction \<Rightarrow> DSP \<Rightarrow> DSP" where
  "op_addi opc s =
    (let dreg = opc_field opc 8 0x1;
         acc = dsp_get_long_acc dreg s;
         (code, s1) = dsp_fetch_code s;
         v = push_bit 16 (scast code) :: s64;
         s2 = dsp_set_long_acc dreg (acc + v) s1;
         res = dsp_get_long_acc dreg s2
     in Update_SR_Register64 res (isCarry acc res) (isOverflow acc v res) s2)"

definition op_addis :: "UDSPInstruction \<Rightarrow> DSP \<Rightarrow> DSP" where
  "op_addis opc s =
    (let dreg = opc_field opc 8 0x1;
         acc = dsp_get_long_acc dreg s;
         v = push_bit 16 (scast (ucast opc :: u8)) :: s64;
         s1 = dsp_set_long_acc dreg (acc + v) s;
         res = dsp_get_long_acc dreg s1
     in Update_SR_Register64 res (isCarry acc res) (isOverflow acc v res) s1)"

definition op_incm :: "UDSPInstruction \<Rightarrow> DSP \<Rightarrow> DSP" where
  "op_incm opc s =
    (let dreg = opc_field opc 8 0x1;
         acc = dsp_get_long_acc dreg s;
         v = 0x10000 :: s64;
         s1 = dsp_set_long_acc dreg (acc + v) s;
         res = dsp_get_long_acc dreg s1
     in Update_SR_Register64 res (isCarry acc res) (isOverflow acc v res) s1)"

definition op_inc :: "UDSPInstruction \<Rightarrow> DSP \<Rightarrow> DSP" where
  "op_inc opc s =
    (let dreg = opc_field opc 8 0x1;
         acc = dsp_get_long_acc dreg s;
         v = 1 :: s64;
         s1 = dsp_set_long_acc dreg (acc + v) s;
         res = dsp_get_long_acc dreg s1
     in Update_SR_Register64 res (isCarry acc res) (isOverflow acc v res) s1)"

definition op_subr :: "UDSPInstruction \<Rightarrow> DSP \<Rightarrow> DSP" where
  "op_subr opc s =
    (let dreg = opc_field opc 8 0x1;
         acc = dsp_get_long_acc dreg s;
         v = push_bit 16 (ax_operand opc s);
         s1 = dsp_set_long_acc dreg (acc - v) s;
         res = dsp_get_long_acc dreg s1
     in Update_SR_Register64 res (isCarry2 acc res) (isOverflow acc (- v) res) s1)"

definition op_subax :: "UDSPInstruction \<Rightarrow> DSP \<Rightarrow> DSP" where
  "op_subax opc s =
    (let dreg = opc_field opc 8 0x1;
         sreg = opc_field opc 9 0x1;
         acc = dsp_get_long_acc dreg s;
         v = dsp_get_long_acx sreg s;
         s1 = dsp_set_long_acc dreg (acc - v) s;
         res = dsp_get_long_acc dreg s1
     in Update_SR_Register64 res (isCarry2 acc res) (isOverflow acc (- v) res) s1)"

definition op_sub :: "UDSPInstruction \<Rightarrow> DSP \<Rightarrow> DSP" where
  "op_sub opc s =
    (let dreg = opc_field opc 8 0x1;
         acc = dsp_get_long_acc dreg s;
         v = dsp_get_long_acc (1 - dreg) s;
         s1 = dsp_set_long_acc dreg (acc - v) s;
         res = dsp_get_long_acc dreg s1
     in Update_SR_Register64 res (isCarry2 acc res) (isOverflow acc (- v) res) s1)"

definition op_subp :: "UDSPInstruction \<Rightarrow> DSP \<Rightarrow> DSP" where
  "op_subp opc s =
    (let dreg = opc_field opc 8 0x1;
         acc = dsp_get_long_acc dreg s;
         v = dsp_get_long_prod s;
         s1 = dsp_set_long_acc dreg (acc - v) s;
         res = dsp_get_long_acc dreg s1
     in Update_SR_Register64 res (isCarry2 acc res) (isOverflow acc (- v) res) s1)"

definition op_decm :: "UDSPInstruction \<Rightarrow> DSP \<Rightarrow> DSP" where
  "op_decm opc s =
    (let dreg = opc_field opc 8 0x1;
         acc = dsp_get_long_acc dreg s;
         v = 0x10000 :: s64;
         s1 = dsp_set_long_acc dreg (acc - v) s;
         res = dsp_get_long_acc dreg s1
     in Update_SR_Register64 res (isCarry2 acc res) (isOverflow acc (- v) res) s1)"

definition op_dec :: "UDSPInstruction \<Rightarrow> DSP \<Rightarrow> DSP" where
  "op_dec opc s =
    (let dreg = opc_field opc 8 0x1;
         acc = dsp_get_long_acc dreg s;
         v = 1 :: s64;
         s1 = dsp_set_long_acc dreg (acc - v) s;
         res = dsp_get_long_acc dreg s1
     in Update_SR_Register64 res (isCarry2 acc res) (isOverflow acc (- v) res) s1)"

definition op_neg :: "UDSPInstruction \<Rightarrow> DSP \<Rightarrow> DSP" where
  "op_neg opc s =
    (let dreg = opc_field opc 8 0x1;
         acc = 0 - dsp_get_long_acc dreg s;
         s1 = dsp_set_long_acc dreg acc s
     in Update_SR_Register64 (dsp_get_long_acc dreg s1) False False s1)"

definition op_abs :: "UDSPInstruction \<Rightarrow> DSP \<Rightarrow> DSP" where
  "op_abs opc s =
    (let dreg = opc_field opc 11 0x1;
         acc = (let a = dsp_get_long_acc dreg s in if sint a < 0 then 0 - a else a);
         s1 = dsp_set_long_acc dreg acc s
     in Update_SR_Register64 (dsp_get_long_acc dreg s1) False False s1)"

definition op_movr :: "UDSPInstruction \<Rightarrow> DSP \<Rightarrow> DSP" where
  "op_movr opc s =
    (let dreg = opc_field opc 8 0x1;
         acc = push_bit 16 (ax_operand opc s) AND NOT 0xffff;
         s1 = dsp_set_long_acc dreg acc s
     in Update_SR_Register64 acc False False s1)"

definition op_movax :: "UDSPInstruction \<Rightarrow> DSP \<Rightarrow> DSP" where
  "op_movax opc s =
    (let dreg = opc_field opc 8 0x1;
         acc = dsp_get_long_acx (opc_field opc 9 0x1) s;
         s1 = dsp_set_long_acc dreg acc s
     in Update_SR_Register64 acc False False s1)"

definition op_mov :: "UDSPInstruction \<Rightarrow> DSP \<Rightarrow> DSP" where
  "op_mov opc s =
    (let dreg = opc_field opc 8 0x1;
         acc = dsp_get_long_acc (1 - dreg) s;
         s1 = dsp_set_long_acc dreg acc s
     in Update_SR_Register64 acc False False s1)"

definition op_lsl16 :: "UDSPInstruction \<Rightarrow> DSP \<Rightarrow> DSP" where
  "op_lsl16 opc s =
    (let dreg = opc_field opc 8 0x1;
         acc = push_bit 16 (dsp_get_long_acc dreg s);
         s1 = dsp_set_long_acc dreg acc s
     in Update_SR_Register64 (dsp_get_long_acc dreg s1) False False s1)"

definition op_lsr16 :: "UDSPInstruction \<Rightarrow> DSP \<Rightarrow> DSP" where
  "op_lsr16 opc s =
    (let dreg = opc_field opc 8 0x1;
         acc = drop_bit 16 (dsp_get_long_acc dreg s AND 0x000000FFFFFFFFFF);
         s1 = dsp_set_long_acc dreg acc s
     in Update_SR_Register64 (dsp_get_long_acc dreg s1) False False s1)"

definition op_asr16 :: "UDSPInstruction \<Rightarrow> DSP \<Rightarrow> DSP" where
  "op_asr16 opc s =
    (let dreg = opc_field opc 11 0x1;
         acc = signed_drop_bit 16 (dsp_get_long_acc dreg s);
         s1 = dsp_set_long_acc dreg acc s
     in Update_SR_Register64 (dsp_get_long_acc dreg s1) False False s1)"

definition op_lsl :: "UDSPInstruction \<Rightarrow> DSP \<Rightarrow> DSP" where
  "op_lsl opc s =
    (let dreg = opc_field opc 8 0x1;
         acc = push_bit (opc_field opc 0 0x3f) (dsp_get_long_acc dreg s);
         s1 = dsp_set_long_acc dreg acc s
     in Update_SR_Register64 (dsp_get_long_acc dreg s1) False False s1)"

definition op_lsr :: "UDSPInstruction \<Rightarrow> DSP \<Rightarrow> DSP" where
  "op_lsr opc s =
    (let dreg = opc_field opc 8 0x1;
         acc = drop_bit (if opc_field opc 0 0x3f = 0 then 0 else 0x40 - opc_field opc 0 0x3f)
                 (dsp_get_long_acc dreg s AND 0x000000FFFFFFFFFF);
         s1 = dsp_set_long_acc dreg acc s
     in Update_SR_Register64 (dsp_get_long_acc dreg s1) False False s1)"

definition op_asl :: "UDSPInstruction \<Rightarrow> DSP \<Rightarrow> DSP" where
  "op_asl opc s =
    (let dreg = opc_field opc 8 0x1;
         acc = push_bit (opc_field opc 0 0x3f) (dsp_get_long_acc dreg s);
         s1 = dsp_set_long_acc dreg acc s
     in Update_SR_Register64 (dsp_get_long_acc dreg s1) False False s1)"

definition op_asr :: "UDSPInstruction \<Rightarrow> DSP \<Rightarrow> DSP" where
  "op_asr opc s =
    (let dreg = opc_field opc 8 0x1;
         acc = signed_drop_bit (if opc_field opc 0 0x3f = 0 then 0 else 0x40 - opc_field opc 0 0x3f)
                 (dsp_get_long_acc dreg s);
         s1 = dsp_set_long_acc dreg acc s
     in Update_SR_Register64 (dsp_get_long_acc dreg s1) False False s1)"

definition op_lsrn :: "UDSPInstruction \<Rightarrow> DSP \<Rightarrow> DSP" where
  "op_lsrn opc s =
    (let dreg = 0;
         acc = shift_right_by drop_bit (n_shift (dsp_get_acc_m 1 s))
                 (dsp_get_long_acc dreg s AND 0x000000FFFFFFFFFF);
         s1 = dsp_set_long_acc dreg acc s
     in Update_SR_Register64 (dsp_get_long_acc dreg s1) False False s1)"

definition op_asrn :: "UDSPInstruction \<Rightarrow> DSP \<Rightarrow> DSP" where
  "op_asrn opc s =
    (let dreg = 0;
         acc = shift_right_by signed_drop_bit (n_shift (dsp_get_acc_m 1 s)) (dsp_get_long_acc dreg s);
         s1 = dsp_set_long_acc dreg acc s
     in Update_SR_Register64 (dsp_get_long_acc dreg s1) False False s1)"

definition op_lsrnrx :: "UDSPInstruction \<Rightarrow> DSP \<Rightarrow> DSP" where
  "op_lsrnrx opc s =
    (let dreg = opc_field opc 8 0x1;
         acc = shift_left_by drop_bit (n_shift (ax_h (opc_field opc 9 0x1) s))
                 (dsp_get_long_acc dreg s AND 0x000000FFFFFFFFFF);
         s1 = dsp_set_long_acc dreg acc s
     in Update_SR_Register64 (dsp_get_long_acc dreg s1) False False s1)"

definition op_asrnrx :: "UDSPInstruction \<Rightarrow> DSP \<Rightarrow> DSP" where
  "op_asrnrx opc s =
    (let dreg = opc_field opc 8 0x1;
         acc = shift_left_by signed_drop_bit (n_shift (ax_h (opc_field opc 9 0x1) s)) (dsp_get_long_acc dreg s);
         s1 = dsp_set_long_acc dreg acc s
     in Update_SR_Register64 (dsp_get_long_acc dreg s1) False False s1)"

definition op_lsrnr :: "UDSPInstruction \<Rightarrow> DSP \<Rightarrow> DSP" where
  "op_lsrnr opc s =
    (let dreg = opc_field opc 8 0x1;
         acc = shift_left_by drop_bit (n_shift (dsp_get_acc_m (1 - dreg) s))
                 (dsp_get_long_acc dreg s AND 0x000000FFFFFFFFFF);
         s1 = dsp_set_long_acc dreg acc s
     in Update_SR_Register64 (dsp_get_long_acc dreg s1) False False s1)"

definition op_asrnr :: "UDSPInstruction \<Rightarrow> DSP \<Rightarrow> DSP" where
  "op_asrnr opc s =
    (let dreg = opc_field opc 8 0x1;
         acc = shift_left_by signed_drop_bit (n_shift (dsp_get_acc_m (1 - dreg) s)) (dsp_get_long_acc dreg s);
         s1 = dsp_set_long_acc dreg acc s
     in Update_SR_Register64 (dsp_get_long_acc dreg s1) False False s1)"

section \<open>What additions and subtractions promise\<close>

text \<open>
  \<open>op\<close> changes the accumulator \<open>dest opc\<close> by the integer \<open>change opc s\<close>, on the states \<open>valid\<close>
  allows.
\<close>

locale acc_alu =
  fixes op :: "UDSPInstruction \<Rightarrow> DSP \<Rightarrow> DSP" and dest :: "UDSPInstruction \<Rightarrow> nat"
    and change :: "UDSPInstruction \<Rightarrow> DSP \<Rightarrow> int" and valid :: "DSP \<Rightarrow> bool"
  assumes change_bound: "valid s \<Longrightarrow> - (2 ^ 39) \<le> change opc s \<and> change opc s \<le> 2 ^ 39"
    and result: "acc_val (dest opc) (op opc s) = s40 (acc_val (dest opc) s + change opc s)"
    and other: "i \<noteq> dest opc \<Longrightarrow> acc_val i (op opc s) = acc_val i s"
    and overflow: "valid s \<Longrightarrow> IsOverflow (op opc s) \<longleftrightarrow> \<not> in_s40 (acc_val (dest opc) s + change opc s)"
    and zero: "IsZero (op opc s) \<longleftrightarrow> acc_val (dest opc) (op opc s) = 0"
    and sign: "r_sr (op opc s) AND SR_SIGN \<noteq> 0 \<longleftrightarrow> acc_val (dest opc) (op opc s) < 0"
    and sticky: "r_sr (op opc s) AND SR_OVERFLOW_STICKY \<noteq> 0 \<longleftrightarrow>
      IsOverflow (op opc s) \<or> r_sr s AND SR_OVERFLOW_STICKY \<noteq> 0"
begin

lemma exact:
  "valid s \<Longrightarrow> \<not> IsOverflow (op opc s) \<Longrightarrow>
     acc_val (dest opc) (op opc s) = acc_val (dest opc) s + change opc s"
  by (simp add: result overflow s40_self)

text \<open>
  The condition \<open>L\<close> (sign differs from overflow) is the sign of the true sum, also when the
  40-bit result wrapped.
\<close>

lemma less_iff:
  assumes "valid s"
  shows "IsLess (op opc s) \<longleftrightarrow> acc_val (dest opc) s + change opc s < 0"
proof -
  let ?x = "acc_val (dest opc) s + change opc s"
  have less: "IsLess (op opc s) \<longleftrightarrow> (\<not> in_s40 ?x) \<noteq> (s40 ?x < 0)"
    using overflow [OF assms, of opc] sign [of opc s] by (auto simp: IsLess_def IsOverflow_def result)
  have range: "- (2 ^ 40) \<le> ?x" "?x < 2 ^ 40"
    using change_bound [OF assms, of opc] acc_val_range [of "dest opc" s] by (auto simp: in_s40_def)
  consider "in_s40 ?x" | "2 ^ 39 \<le> ?x" | "?x < - (2 ^ 39)" by (fastforce simp: in_s40_def)
  then show ?thesis
    unfolding less
    by cases (use range in \<open>auto simp: s40_self s40_over s40_under in_s40_def\<close>)
qed

end

locale acc_adder = acc_alu op dest "\<lambda>opc s. sint (operand opc s)" valid
  for op :: "UDSPInstruction \<Rightarrow> DSP \<Rightarrow> DSP" and dest :: "UDSPInstruction \<Rightarrow> nat"
    and operand :: "UDSPInstruction \<Rightarrow> DSP \<Rightarrow> s64" and valid :: "DSP \<Rightarrow> bool" +
  assumes carry: "IsCarry (op opc s) \<longleftrightarrow>
    2 ^ 40 \<le> u40 (acc_val (dest opc) s) + u40 (sint (operand opc s))"
begin

text \<open>Carry and result together are the full 41-bit unsigned sum.\<close>

lemma full_sum:
  "u40 (acc_val (dest opc) (op opc s)) + (if IsCarry (op opc s) then 2 ^ 40 else 0) =
   u40 (acc_val (dest opc) s) + u40 (sint (operand opc s))"
proof -
  let ?x = "u40 (acc_val (dest opc) s)" and ?y = "u40 (sint (operand opc s))"
  have "u40 (acc_val (dest opc) (op opc s)) = (?x + ?y) mod 2 ^ 40"
    unfolding result u40_s40 by (rule mod_add_eq [symmetric])
  moreover have "(?x + ?y) mod 2 ^ 40 = (if 2 ^ 40 \<le> ?x + ?y then ?x + ?y - 2 ^ 40 else ?x + ?y)"
    using mod_one_down [of "2 ^ 40" "?x + ?y"] by (auto simp: mod_pos_pos_trivial not_le)
  ultimately show ?thesis by (simp add: carry)
qed

end

locale acc_subtractor = acc_alu op dest "\<lambda>opc s. - sint (operand opc s)" valid
  for op :: "UDSPInstruction \<Rightarrow> DSP \<Rightarrow> DSP" and dest :: "UDSPInstruction \<Rightarrow> nat"
    and operand :: "UDSPInstruction \<Rightarrow> DSP \<Rightarrow> s64" and valid :: "DSP \<Rightarrow> bool" +
  assumes carry: "IsCarry (op opc s) \<longleftrightarrow>
    u40 (sint (operand opc s)) \<le> u40 (acc_val (dest opc) s)"

section \<open>All additions and subtractions keep it\<close>

text \<open>The common shape of the addition handlers and of the subtraction handlers.\<close>

definition acc_add :: "nat \<Rightarrow> s64 \<Rightarrow> DSP \<Rightarrow> DSP" where
  "acc_add dreg v s =
    (let acc = dsp_get_long_acc dreg s;
         s1 = dsp_set_long_acc dreg (acc + v) s;
         res = dsp_get_long_acc dreg s1
     in Update_SR_Register64 res (isCarry acc res) (isOverflow acc v res) s1)"

definition acc_sub :: "nat \<Rightarrow> s64 \<Rightarrow> DSP \<Rightarrow> DSP" where
  "acc_sub dreg v s =
    (let acc = dsp_get_long_acc dreg s;
         s1 = dsp_set_long_acc dreg (acc - v) s;
         res = dsp_get_long_acc dreg s1
     in Update_SR_Register64 res (isCarry2 acc res) (isOverflow acc (- v) res) s1)"

lemma acc_val_Update_SR [simp]: "dsp_get_long_acc i (Update_SR_Register64 v c f s) = dsp_get_long_acc i s"
  by (simp add: dsp_get_long_acc_def Update_SR_Register64_def)

lemma r_sr_set_long_acc [simp]: "r_sr (dsp_set_long_acc i v s) = r_sr s"
  by (simp add: dsp_set_long_acc_def)

lemma get_set_long_acc:
  "sint (dsp_get_long_acc i (dsp_set_long_acc i v s)) = s40 (sint v)"
  using acc_val_set [of i i v s] by simp

lemma s64_eq_0_iff: "(w :: s64) = 0 \<longleftrightarrow> sint w = 0"
  using signed_word_eqI [where 'a = int, of w 0] by auto

lemma sint_uminus_s40: "in_s40 (sint (v :: s64)) \<Longrightarrow> sint (- v) = - sint v"
  by (simp add: sint_word_minus signed_take_bit_int_eq_self in_s40_def)

lemma acc_add_laws:
  "acc_val d (acc_add d v s) = s40 (acc_val d s + sint v)"
  "i \<noteq> d \<Longrightarrow> acc_val i (acc_add d v s) = acc_val i s"
  "in_s40 (sint v) \<Longrightarrow> IsOverflow (acc_add d v s) \<longleftrightarrow> \<not> in_s40 (acc_val d s + sint v)"
  "IsCarry (acc_add d v s) \<longleftrightarrow> 2 ^ 40 \<le> u40 (acc_val d s) + u40 (sint v)"
  "IsZero (acc_add d v s) \<longleftrightarrow> acc_val d (acc_add d v s) = 0"
  "r_sr (acc_add d v s) AND SR_SIGN \<noteq> 0 \<longleftrightarrow> acc_val d (acc_add d v s) < 0"
  "r_sr (acc_add d v s) AND SR_OVERFLOW_STICKY \<noteq> 0 \<longleftrightarrow>
     IsOverflow (acc_add d v s) \<or> r_sr s AND SR_OVERFLOW_STICKY \<noteq> 0"
proof -
  note simps = acc_add_def Let_def Update_SR64_flags s64_eq_0_iff get_set_long_acc s40_sint_add
  show "acc_val d (acc_add d v s) = s40 (acc_val d s + sint v)" by (simp add: simps)
  show "i \<noteq> d \<Longrightarrow> acc_val i (acc_add d v s) = acc_val i s" by (simp add: simps acc_val_set)
  show "in_s40 (sint v) \<Longrightarrow> IsOverflow (acc_add d v s) \<longleftrightarrow> \<not> in_s40 (acc_val d s + sint v)"
    unfolding acc_add_def Let_def Update_SR64_flags
    by (rule isOverflow_add) (use acc_val_range [of d s] in \<open>auto simp: simps in_s40_def\<close>)
  show "IsCarry (acc_add d v s) \<longleftrightarrow> 2 ^ 40 \<le> u40 (acc_val d s) + u40 (sint v)"
    unfolding acc_add_def Let_def Update_SR64_flags
    by (rule isCarry_add) (auto simp: simps acc_val_range)
  show "IsZero (acc_add d v s) \<longleftrightarrow> acc_val d (acc_add d v s) = 0" by (simp add: simps)
  show "r_sr (acc_add d v s) AND SR_SIGN \<noteq> 0 \<longleftrightarrow> acc_val d (acc_add d v s) < 0" by (simp add: simps)
  show "r_sr (acc_add d v s) AND SR_OVERFLOW_STICKY \<noteq> 0 \<longleftrightarrow>
     IsOverflow (acc_add d v s) \<or> r_sr s AND SR_OVERFLOW_STICKY \<noteq> 0" by (simp add: simps)
qed

lemma acc_sub_laws:
  "acc_val d (acc_sub d v s) = s40 (acc_val d s - sint v)"
  "i \<noteq> d \<Longrightarrow> acc_val i (acc_sub d v s) = acc_val i s"
  "in_s40 (sint v) \<Longrightarrow> IsOverflow (acc_sub d v s) \<longleftrightarrow> \<not> in_s40 (acc_val d s - sint v)"
  "IsCarry (acc_sub d v s) \<longleftrightarrow> u40 (sint v) \<le> u40 (acc_val d s)"
  "IsZero (acc_sub d v s) \<longleftrightarrow> acc_val d (acc_sub d v s) = 0"
  "r_sr (acc_sub d v s) AND SR_SIGN \<noteq> 0 \<longleftrightarrow> acc_val d (acc_sub d v s) < 0"
  "r_sr (acc_sub d v s) AND SR_OVERFLOW_STICKY \<noteq> 0 \<longleftrightarrow>
     IsOverflow (acc_sub d v s) \<or> r_sr s AND SR_OVERFLOW_STICKY \<noteq> 0"
proof -
  note simps = acc_sub_def Let_def Update_SR64_flags s64_eq_0_iff get_set_long_acc s40_sint_diff
  show "acc_val d (acc_sub d v s) = s40 (acc_val d s - sint v)" by (simp add: simps)
  show "i \<noteq> d \<Longrightarrow> acc_val i (acc_sub d v s) = acc_val i s" by (simp add: simps acc_val_set)
  show "IsOverflow (acc_sub d v s) \<longleftrightarrow> \<not> in_s40 (acc_val d s - sint v)" if v: "in_s40 (sint v)"
  proof -
    have "isOverflow (dsp_get_long_acc d s) (- v)
        (dsp_get_long_acc d (dsp_set_long_acc d (dsp_get_long_acc d s - v) s)) \<longleftrightarrow>
      \<not> in_s40 (acc_val d s + sint (- v))"
      by (rule isOverflow_add)
        (use v acc_val_range [of d s] in \<open>auto simp: simps sint_uminus_s40 in_s40_def\<close>)
    then show ?thesis using v by (simp add: simps sint_uminus_s40)
  qed
  show "IsCarry (acc_sub d v s) \<longleftrightarrow> u40 (sint v) \<le> u40 (acc_val d s)"
    unfolding acc_sub_def Let_def Update_SR64_flags
    by (rule isCarry2_sub) (auto simp: simps acc_val_range)
  show "IsZero (acc_sub d v s) \<longleftrightarrow> acc_val d (acc_sub d v s) = 0" by (simp add: simps)
  show "r_sr (acc_sub d v s) AND SR_SIGN \<noteq> 0 \<longleftrightarrow> acc_val d (acc_sub d v s) < 0" by (simp add: simps)
  show "r_sr (acc_sub d v s) AND SR_OVERFLOW_STICKY \<noteq> 0 \<longleftrightarrow>
     IsOverflow (acc_sub d v s) \<or> r_sr s AND SR_OVERFLOW_STICKY \<noteq> 0" by (simp add: simps)
qed

text \<open>A handler whose body is the common shape satisfies the contract.\<close>

lemma acc_adderI:
  assumes eq: "\<And>opc s. op opc s = acc_add (dest opc) (operand opc s) (pre opc s)"
    and pre: "\<And>opc s i. dsp_get_long_acc i (pre opc s) = dsp_get_long_acc i s"
      "\<And>opc s. r_sr (pre opc s) = r_sr s"
    and fits: "\<And>opc s. valid s \<Longrightarrow> in_s40 (sint (operand opc s))"
  shows "acc_adder op dest operand valid"
proof
  fix s opc
  assume "valid s"
  from fits [OF this, of opc]
  show "- (2 ^ 39) \<le> sint (operand opc s) \<and> sint (operand opc s) \<le> 2 ^ 39" by (simp add: in_s40_def)
qed (simp_all add: eq acc_add_laws pre fits)

lemma acc_subtractorI:
  assumes eq: "\<And>opc s. op opc s = acc_sub (dest opc) (operand opc s) (pre opc s)"
    and pre: "\<And>opc s i. dsp_get_long_acc i (pre opc s) = dsp_get_long_acc i s"
      "\<And>opc s. r_sr (pre opc s) = r_sr s"
    and fits: "\<And>opc s. valid s \<Longrightarrow> in_s40 (sint (operand opc s))"
  shows "acc_subtractor op dest operand valid"
proof
  fix s opc
  assume "valid s"
  from fits [OF this, of opc]
  show "- (2 ^ 39) \<le> - sint (operand opc s) \<and> - sint (operand opc s) \<le> 2 ^ 39" by (simp add: in_s40_def)
qed (simp_all add: eq acc_sub_laws pre fits)

text \<open>The operands.\<close>

abbreviation dreg8 :: "UDSPInstruction \<Rightarrow> nat" where "dreg8 opc \<equiv> opc_field opc 8 0x1"

abbreviation any_state :: "DSP \<Rightarrow> bool" where "any_state \<equiv> (\<lambda>_. True)"

text \<open>
  The product register read as a number may exceed 40 bits when both middle parts are large;
  \<open>prod_fits\<close> excludes that. It holds after every multiplication.
\<close>

definition prod_fits :: "DSP \<Rightarrow> bool" where
  "prod_fits s \<longleftrightarrow> in_s40 (sint (dsp_get_long_prod s))"

definition imm_operand :: "UDSPInstruction \<Rightarrow> DSP \<Rightarrow> s64" where
  "imm_operand opc s = push_bit 16 (scast (dsp_imem_read (g_pc s) s))"

definition short_imm_operand :: "UDSPInstruction \<Rightarrow> DSP \<Rightarrow> s64" where
  "short_imm_operand opc s = push_bit 16 (scast (ucast opc :: u8))"

lemma sint_scast_u32: "sint (scast (w :: u32) :: s64) = sint w"
  using sint_greater_eq [of w] sint_less [of w] by (simp add: signed_scast_eq signed_take_bit_int_eq_self)

lemma sint_scast_u16: "sint (scast (w :: u16) :: s64) = sint w"
  using sint_greater_eq [of w] sint_less [of w] by (simp add: signed_scast_eq signed_take_bit_int_eq_self)

lemma in_s40_scast32: "in_s40 (sint (scast (w :: u32) :: s64))"
  using sint_greater_eq [of w] sint_less [of w] by (simp add: in_s40_def sint_scast_u32)

lemma in_s40_shifted16: "in_s40 (sint (push_bit 16 (scast (w :: u16) :: s64)))"
proof -
  have r: "- 32768 \<le> sint w" "sint w < 32768" using sint_greater_eq [of w] sint_less [of w] by simp_all
  have "sint (push_bit 16 (scast w :: s64)) = signed_take_bit 63 (sint w * 65536)"
    by (simp add: push_bit_eq_mult sint_word_mult sint_scast_u16)
  also have "\<dots> = sint w * 65536" using r by (intro signed_take_bit_int_eq_self) simp_all
  finally show ?thesis using r by (simp add: in_s40_def)
qed

lemma in_s40_ax_operand: "in_s40 (sint (push_bit 16 (ax_operand opc s)))"
  using in_s40_shifted16 by (simp add: ax_operand_def Let_def in_s40_def)

lemma in_s40_acx: "in_s40 (sint (dsp_get_long_acx i s))"
  unfolding dsp_get_long_acx_def by (rule in_s40_scast32)

lemma in_s40_short_imm: "in_s40 (sint (short_imm_operand opc s))"
proof -
  have "scast (w :: u8) = (scast (scast w :: u16) :: s64)" for w 
    by (rule bit_word_eqI) (auto simp: bit_simps min_def)
  then show ?thesis unfolding short_imm_operand_def by (metis in_s40_shifted16)
qed

lemma in_s40_axl: "in_s40 (sint (ucast (w :: u16) :: s64))"
proof -
  have r: "0 \<le> uint w" "uint w < 65536" using uint_lt2p [of w] by simp_all
  have "sint (ucast w :: s64) = signed_take_bit 63 (uint w)" by (simp add: signed_ucast_eq)
  also have "\<dots> = uint w" using r order_trans [OF _ r(1), of "- (2 ^ 63)"]
    by (intro signed_take_bit_int_eq_self) simp_all
  finally have "sint (ucast w :: s64) = uint w" .
  then show ?thesis
    unfolding in_s40_def using r order_trans [OF _ r(1), of "- (2 ^ 39)"] by simp
qed

lemma fetch_frame [dsp_frame]:
  "dsp_get_long_acc i (snd (dsp_fetch_code s)) = dsp_get_long_acc i s"
  "r_sr (snd (dsp_fetch_code s)) = r_sr s"
  by (simp_all add: dsp_fetch_code_def dsp_get_long_acc_def)

interpretation addr: acc_adder op_addr dreg8 "\<lambda>opc s. push_bit 16 (ax_operand opc s)" any_state
  by (rule acc_adderI [where pre = "\<lambda>_ s. s"])
    (simp_all add: op_addr_def acc_add_def Let_def in_s40_ax_operand)

interpretation addax: acc_adder op_addax dreg8 "\<lambda>opc. dsp_get_long_acx (opc_field opc 9 0x1)" any_state
  by (rule acc_adderI [where pre = "\<lambda>_ s. s"]) (simp_all add: op_addax_def acc_add_def Let_def in_s40_acx)

interpretation add: acc_adder op_add dreg8 "\<lambda>opc. dsp_get_long_acc (1 - dreg8 opc)" any_state
  by (rule acc_adderI [where pre = "\<lambda>_ s. s"]) (simp_all add: op_add_def acc_add_def Let_def acc_val_range)

interpretation addp: acc_adder op_addp dreg8 "\<lambda>_. dsp_get_long_prod" prod_fits
  by (rule acc_adderI [where pre = "\<lambda>_ s. s"]) (simp_all add: op_addp_def acc_add_def Let_def prod_fits_def)

interpretation addaxl: acc_adder op_addaxl dreg8
  "\<lambda>opc s. ucast (dsp_get_ax_l (opc_field opc 9 0x1) s)" any_state
  by (rule acc_adderI [where pre = "\<lambda>_ s. s"])
    (simp_all only: op_addaxl_def acc_add_def Let_def in_s40_axl)

interpretation addi: acc_adder op_addi dreg8 imm_operand any_state
  by (rule acc_adderI [where pre = "\<lambda>_ s. snd (dsp_fetch_code s)"])
    (simp_all add: op_addi_def acc_add_def Let_def dsp_frame imm_operand_def in_s40_shifted16
      case_prod_beta, simp add: dsp_fetch_code_def)

interpretation addis: acc_adder op_addis dreg8 short_imm_operand any_state
  by (rule acc_adderI [where pre = "\<lambda>_ s. s"])
    (simp_all add: op_addis_def acc_add_def Let_def in_s40_short_imm, simp add: short_imm_operand_def)

interpretation incm: acc_adder op_incm dreg8 "\<lambda>_ _. 0x10000" any_state
  by (rule acc_adderI [where pre = "\<lambda>_ s. s"]) (simp_all add: op_incm_def acc_add_def Let_def in_s40_def)

interpretation inc: acc_adder op_inc dreg8 "\<lambda>_ _. 1" any_state
  by (rule acc_adderI [where pre = "\<lambda>_ s. s"]) (simp_all add: op_inc_def acc_add_def Let_def in_s40_def)

interpretation subr: acc_subtractor op_subr dreg8 "\<lambda>opc s. push_bit 16 (ax_operand opc s)" any_state
  by (rule acc_subtractorI [where pre = "\<lambda>_ s. s"])
    (simp_all add: op_subr_def acc_sub_def Let_def in_s40_ax_operand)

interpretation subax: acc_subtractor op_subax dreg8 "\<lambda>opc. dsp_get_long_acx (opc_field opc 9 0x1)" any_state
  by (rule acc_subtractorI [where pre = "\<lambda>_ s. s"]) (simp_all add: op_subax_def acc_sub_def Let_def in_s40_acx)

interpretation sub: acc_subtractor op_sub dreg8 "\<lambda>opc. dsp_get_long_acc (1 - dreg8 opc)" any_state
  by (rule acc_subtractorI [where pre = "\<lambda>_ s. s"]) (simp_all add: op_sub_def acc_sub_def Let_def acc_val_range)

interpretation subp: acc_subtractor op_subp dreg8 "\<lambda>_. dsp_get_long_prod" prod_fits
  by (rule acc_subtractorI [where pre = "\<lambda>_ s. s"]) (simp_all add: op_subp_def acc_sub_def Let_def prod_fits_def)

interpretation decm: acc_subtractor op_decm dreg8 "\<lambda>_ _. 0x10000" any_state
  by (rule acc_subtractorI [where pre = "\<lambda>_ s. s"]) (simp_all add: op_decm_def acc_sub_def Let_def in_s40_def)

interpretation dec: acc_subtractor op_dec dreg8 "\<lambda>_ _. 1" any_state
  by (rule acc_subtractorI [where pre = "\<lambda>_ s. s"]) (simp_all add: op_dec_def acc_sub_def Let_def in_s40_def)

text \<open>The two families: handler, operand, and the states the contract speaks about.\<close>

definition adders :: "((UDSPInstruction \<Rightarrow> DSP \<Rightarrow> DSP) \<times> (UDSPInstruction \<Rightarrow> DSP \<Rightarrow> s64) \<times> (DSP \<Rightarrow> bool)) list" where
  "adders =
    [(op_addr, \<lambda>opc s. push_bit 16 (ax_operand opc s), any_state),
     (op_addax, \<lambda>opc. dsp_get_long_acx (opc_field opc 9 0x1), any_state),
     (op_add, \<lambda>opc. dsp_get_long_acc (1 - dreg8 opc), any_state),
     (op_addp, \<lambda>_. dsp_get_long_prod, prod_fits),
     (op_addaxl, \<lambda>opc s. ucast (dsp_get_ax_l (opc_field opc 9 0x1) s), any_state),
     (op_addi, imm_operand, any_state),
     (op_addis, short_imm_operand, any_state),
     (op_incm, \<lambda>_ _. 0x10000, any_state),
     (op_inc, \<lambda>_ _. 1, any_state)]"

definition subtractors :: "((UDSPInstruction \<Rightarrow> DSP \<Rightarrow> DSP) \<times> (UDSPInstruction \<Rightarrow> DSP \<Rightarrow> s64) \<times> (DSP \<Rightarrow> bool)) list" where
  "subtractors =
    [(op_subr, \<lambda>opc s. push_bit 16 (ax_operand opc s), any_state),
     (op_subax, \<lambda>opc. dsp_get_long_acx (opc_field opc 9 0x1), any_state),
     (op_sub, \<lambda>opc. dsp_get_long_acc (1 - dreg8 opc), any_state),
     (op_subp, \<lambda>_. dsp_get_long_prod, prod_fits),
     (op_decm, \<lambda>_ _. 0x10000, any_state),
     (op_dec, \<lambda>_ _. 1, any_state)]"

lemma adders_contract: "list_all (\<lambda>(op, v, ok). acc_adder op dreg8 v ok) adders"
  by (simp add: adders_def addr.acc_adder_axioms addax.acc_adder_axioms add.acc_adder_axioms
      addp.acc_adder_axioms addaxl.acc_adder_axioms addi.acc_adder_axioms addis.acc_adder_axioms
      incm.acc_adder_axioms inc.acc_adder_axioms del: One_nat_def)

lemma subtractors_contract: "list_all (\<lambda>(op, v, ok). acc_subtractor op dreg8 v ok) subtractors"
  by (simp add: subtractors_def subr.acc_subtractor_axioms subax.acc_subtractor_axioms
      sub.acc_subtractor_axioms subp.acc_subtractor_axioms decm.acc_subtractor_axioms
      dec.acc_subtractor_axioms del: One_nat_def)

section \<open>Comparisons\<close>

definition cmp_flags :: "s64 \<Rightarrow> s64 \<Rightarrow> DSP \<Rightarrow> DSP" where
  "cmp_flags a b s =
    (let res = dsp_convert_long_acc (a - b)
     in Update_SR_Register64 res (isCarry2 a res) (isOverflow a (- b) res) s)"

lemma cmp_flags_conditions:
  assumes "in_s40 (sint a)" "in_s40 (sint b)"
  shows "IsLess (cmp_flags a b s) \<longleftrightarrow> sint a < sint b"
    and "IsZero (cmp_flags a b s) \<longleftrightarrow> sint a = sint b"
    and "IsCarry (cmp_flags a b s) \<longleftrightarrow> u40 (sint b) \<le> u40 (sint a)"
proof -
  let ?r = "dsp_convert_long_acc (a - b)" and ?x = "sint a - sint b"
  have r: "sint ?r = s40 ?x" by (simp add: sint_convert_long_acc s40_sint_diff)
  have range: "- (2 ^ 40) < ?x" "?x < 2 ^ 40" using assms by (auto simp: in_s40_def)
  have "isOverflow a (- b) ?r \<longleftrightarrow> \<not> in_s40 (sint a + sint (- b))"
    by (rule isOverflow_add) (use assms r in \<open>auto simp: sint_uminus_s40 in_s40_def\<close>)
  then have over: "isOverflow a (- b) ?r \<longleftrightarrow> \<not> in_s40 ?x"
    using assms(2) by (simp add: sint_uminus_s40)
  have less: "IsLess (cmp_flags a b s) \<longleftrightarrow> (\<not> in_s40 ?x) \<noteq> (s40 ?x < 0)"
    using Update_SR64_flags(2,4) [of ?r "isCarry2 a ?r" "isOverflow a (- b) ?r" s]
    by (auto simp: IsLess_def cmp_flags_def Let_def over r IsOverflow_def)
  consider "in_s40 ?x" | "2 ^ 39 \<le> ?x" | "?x < - (2 ^ 39)" by (fastforce simp: in_s40_def)
  note cases = this
  from cases show "IsLess (cmp_flags a b s) \<longleftrightarrow> sint a < sint b"
    unfolding less by cases (use range in \<open>auto simp: s40_self s40_over s40_under in_s40_def\<close>)
  have zero: "IsZero (cmp_flags a b s) \<longleftrightarrow> s40 ?x = 0"
    by (simp add: cmp_flags_def Let_def Update_SR64_flags s64_eq_0_iff r)
  from cases show "IsZero (cmp_flags a b s) \<longleftrightarrow> sint a = sint b"
    unfolding zero by cases (use range in \<open>auto simp: s40_self s40_over s40_under\<close>)
  show "IsCarry (cmp_flags a b s) \<longleftrightarrow> u40 (sint b) \<le> u40 (sint a)"
    unfolding cmp_flags_def Let_def Update_SR64_flags
    by (rule isCarry2_sub) (simp_all add: assms r)
qed

text \<open>The four comparison instructions with their two sides.\<close>

definition comparers :: "((UDSPInstruction \<Rightarrow> DSP \<Rightarrow> DSP) \<times> (UDSPInstruction \<Rightarrow> DSP \<Rightarrow> s64) \<times>
    (UDSPInstruction \<Rightarrow> DSP \<Rightarrow> s64)) list" where
  "comparers =
    [(op_cmp, \<lambda>_. dsp_get_long_acc 0, \<lambda>_. dsp_get_long_acc 1),
     (op_cmpar, \<lambda>opc. dsp_get_long_acc (opc_field opc 11 0x1),
        \<lambda>opc s. push_bit 16 (scast (ax_h (opc_field opc 12 0x1) s))),
     (op_cmpi, \<lambda>opc. dsp_get_long_acc (dreg8 opc), imm_operand),
     (op_cmpis, \<lambda>opc. dsp_get_long_acc (dreg8 opc), short_imm_operand)]"

lemma comparers_shape:
  assumes "(op, a, b) \<in> set comparers"
  obtains s' where "op opc s = cmp_flags (a opc s) (b opc s) s'" "r_ac s' = r_ac s"
    "in_s40 (sint (a opc s))" "in_s40 (sint (b opc s))"
proof -
  have "op opc s = cmp_flags (a opc s) (b opc s) s \<or>
      op opc s = cmp_flags (a opc s) (b opc s) (snd (dsp_fetch_code s))"
    using assms
    by (auto simp: comparers_def cmp_flags_def op_cmp_def op_cmpar_def op_cmpi_def op_cmpis_def
        Let_def dsp_fetch_code_def imm_operand_def short_imm_operand_def)
  then have "\<exists>s'. op opc s = cmp_flags (a opc s) (b opc s) s' \<and> r_ac s' = r_ac s"
    by (auto simp: dsp_fetch_code_def)
  moreover have "in_s40 (sint (a opc s))"
    using assms by (auto simp: comparers_def acc_val_range)
  moreover have "in_s40 (sint (b opc s))"
    using assms in_s40_short_imm in_s40_shifted16
    by (auto simp: comparers_def acc_val_range imm_operand_def)
  ultimately show ?thesis using that by blast
qed

section \<open>Shifts\<close>

text \<open>A left shift multiplies modulo \<open>2 ^ 40\<close>, a right shift divides, rounding down.\<close>

definition shl40 :: "int \<Rightarrow> nat \<Rightarrow> int" where "shl40 x n = s40 (x * 2 ^ n)"
definition asr40 :: "int \<Rightarrow> nat \<Rightarrow> int" where "asr40 x n = x div 2 ^ n"
definition lsr40 :: "int \<Rightarrow> nat \<Rightarrow> int" where "lsr40 x n = s40 (u40 x div 2 ^ n)"

text \<open>By a signed count: \<open>shr\<close> to the right when it is positive, else to the left.\<close>

definition shift40 :: "(int \<Rightarrow> nat \<Rightarrow> int) \<Rightarrow> int \<Rightarrow> int \<Rightarrow> int" where
  "shift40 shr n x = (if n > 0 then shr x (nat n) else shl40 x (nat (- n)))"

lemma s40_mod_cong: "x mod 2 ^ 40 = y mod 2 ^ 40 \<Longrightarrow> s40 x = s40 y"
  unfolding s40_eq by (metis mod_add_left_eq)

lemma s40_push_bit: "s40 (sint (push_bit n (w :: s64))) = s40 (sint w * 2 ^ n)"
proof -
  have "sint (push_bit n w) = signed_take_bit 63 (push_bit n (sint w))"
    by (simp add: signed_push_bit_eq)
  then show ?thesis by (simp add: signed_take_bit_signed_take_bit push_bit_eq_mult)
qed

lemma sint_signed_drop: "sint (signed_drop_bit n (w :: s64)) = sint w div 2 ^ n"
  by (simp add: sint_signed_drop_bit_eq drop_bit_eq_div)

lemma sint_mask40: "sint ((w :: s64) AND 0xFFFFFFFFFF) = u40 (sint w)"
proof -
  have "sint (w AND 0xFFFFFFFFFF) = sint w AND 0xFFFFFFFFFF" by (simp add: signed_and_eq)
  also have "\<dots> = take_bit 40 (sint w)" by (simp add: take_bit_eq_mask mask_eq_exp_minus_1)
  finally show ?thesis by (simp add: take_bit_eq_mod)
qed

lemma drop_bit_nonneg: "\<not> bit (w :: s64) 63 \<Longrightarrow> drop_bit n w = signed_drop_bit n w"
  by (rule bit_word_eqI)
    (auto simp: bit_drop_bit_eq bit_signed_drop_bit_iff dest: bit_imp_le_length)

lemma sint_drop_mask40: "sint (drop_bit n ((w :: s64) AND 0xFFFFFFFFFF)) = u40 (sint w) div 2 ^ n"
proof -
  have "\<not> bit (w AND 0xFFFFFFFFFF) 63" by (simp add: bit_and_iff bit_const_simps)
  then have "drop_bit n (w AND 0xFFFFFFFFFF) = signed_drop_bit n (w AND 0xFFFFFFFFFF)"
    by (rule drop_bit_nonneg)
  then show ?thesis by (simp only: sint_signed_drop sint_mask40)
qed

lemma s40_div_self: "in_s40 x \<Longrightarrow> s40 (x div 2 ^ n) = x div 2 ^ n"
proof (rule s40_self)
  assume x: "in_s40 x"
  show "in_s40 (x div 2 ^ n)"
  proof (cases "0 \<le> x")
    case True
    then have "0 \<le> x div 2 ^ n" "x div 2 ^ n \<le> x"
      using zdiv_mono2 [of x 1 "2 ^ n"] by (simp_all add: pos_imp_zdiv_nonneg_iff)
    with x show ?thesis by (simp add: in_s40_def)
  next
    case False
    then have "x div 2 ^ n < 0" "x \<le> x div 2 ^ n"
      using zdiv_mono2_neg [of x 1 "2 ^ n"] by (simp_all add: pos_imp_zdiv_neg_iff)
    with x show ?thesis by (simp add: in_s40_def)
  qed
qed

text \<open>The common shape of the shift handlers.\<close>

definition acc_put :: "nat \<Rightarrow> s64 \<Rightarrow> DSP \<Rightarrow> DSP" where
  "acc_put dreg acc s =
    (let s1 = dsp_set_long_acc dreg acc s
     in Update_SR_Register64 (dsp_get_long_acc dreg s1) False False s1)"

lemma acc_put_val: "acc_val d (acc_put d v s) = s40 (sint v)"
  by (simp add: acc_put_def Let_def get_set_long_acc)

lemma acc_put_shl: "acc_val d (acc_put d (push_bit n (dsp_get_long_acc i s)) s) = shl40 (acc_val i s) n"
  by (simp add: acc_put_val s40_push_bit shl40_def)

lemma acc_put_asr: "acc_val d (acc_put d (signed_drop_bit n (dsp_get_long_acc i s)) s) = asr40 (acc_val i s) n"
  by (simp add: acc_put_val sint_signed_drop asr40_def s40_div_self acc_val_range)

lemma acc_put_lsr:
  "acc_val d (acc_put d (drop_bit n (dsp_get_long_acc i s AND 0xFFFFFFFFFF)) s) = lsr40 (acc_val i s) n"
  by (simp only: acc_put_val sint_drop_mask40 lsr40_def)

lemma acc_put_masked_shl:
  "acc_val d (acc_put d (push_bit n (dsp_get_long_acc i s AND 0xFFFFFFFFFF)) s) = shl40 (acc_val i s) n"
  unfolding acc_put_val s40_push_bit sint_mask40 shl40_def
  by (rule s40_mod_cong) (rule mod_mult_left_eq)

lemma shl40_0: "shl40 (acc_val i s) 0 = acc_val i s"
  by (simp add: shl40_def s40_self acc_val_range)

lemma acc_put_n_shift:
  "acc_val d (acc_put d (shift_right_by signed_drop_bit n (dsp_get_long_acc i s)) s) = shift40 asr40 n (acc_val i s)"
  "acc_val d (acc_put d (shift_left_by signed_drop_bit n (dsp_get_long_acc i s)) s) = shift40 asr40 (- n) (acc_val i s)"
  "acc_val d (acc_put d (shift_right_by drop_bit n (dsp_get_long_acc i s AND 0xFFFFFFFFFF)) s) =
     shift40 lsr40 n (acc_val i s)"
  "acc_val d (acc_put d (shift_left_by drop_bit n (dsp_get_long_acc i s AND 0xFFFFFFFFFF)) s) =
     shift40 lsr40 (- n) (acc_val i s)"
  using acc_put_shl [of d 0 i s] acc_put_masked_shl [of d 0 i s]
  by (auto simp: shift_right_by_def shift_left_by_def shift40_def acc_put_shl acc_put_asr acc_put_lsr
      acc_put_masked_shl simp del: drop_bit_and push_bit_and)

section \<open>Rounding\<close>

lemma clear_low_16: "sint ((w :: s64) AND NOT 0xffff) = 65536 * (sint w div 65536)"
proof -
  have "sint (w AND NOT 0xffff) = sint w AND NOT (mask 16)"
    by (simp add: signed_and_eq mask_eq_exp_minus_1)
  also have "\<dots> = push_bit 16 (drop_bit 16 (sint w))"
    by (rule bit_eqI) (auto simp: bit_simps)
  finally show ?thesis by (simp add: push_bit_eq_mult drop_bit_eq_div)
qed

lemma bit_16_odd: "(w :: s64) AND 0x10000 \<noteq> 0 \<longleftrightarrow> odd (sint w div 65536)"
proof -
  have "w AND 0x10000 \<noteq> 0 \<longleftrightarrow> bit w 16" using and_push_bit_1 [of w 16] by simp
  also have "\<dots> \<longleftrightarrow> bit (sint w) 16" by (simp add: bit_sint_iff)
  finally show ?thesis by (simp add: bit_iff_odd)
qed

text \<open>
  The nearest multiple of \<open>2 ^ 16\<close>; of two equally near ones the even multiple.
\<close>

definition nearest16 :: "int \<Rightarrow> int \<Rightarrow> bool" where
  "nearest16 x r \<longleftrightarrow> (\<exists>q. r = 65536 * q \<and> \<bar>r - x\<bar> \<le> 32768 \<and> (\<bar>r - x\<bar> = 32768 \<longrightarrow> even q))"

lemma nearest16_round:
  "nearest16 x (65536 * ((x + (if odd (x div 65536) then 32768 else 32767)) div 65536))"
proof -
  define q m where "q = x div 65536" and "m = x mod 65536"
  have x: "x = 65536 * q + m" "0 \<le> m" "m < 65536" by (simp_all add: q_def m_def)
  let ?c = "if odd q then 32768 else 32767 :: int"
  have "(x + ?c) div 65536 = (if m + ?c < 65536 then q else q + 1)"
    using x by (auto intro!: div_pos_pos_trivial simp: div_add1_eq [of "65536 * q"])
  then show ?thesis
    unfolding nearest16_def q_def [symmetric] using x
    by (cases "odd q") (auto intro!: exI [of _ q] exI [of _ "q + 1"])
qed

lemma sint_add_small:
  assumes "- (2 ^ 40) \<le> sint (v :: s64)" "sint v \<le> 2 ^ 40"
  shows "sint (v + 0x8000) = sint v + 0x8000" "sint (v + 0x7fff) = sint v + 0x7fff"
  using assms by (simp_all add: sint_word_add signed_take_bit_int_eq_self)

lemma round_nearest:
  assumes "- (2 ^ 40) \<le> sint (v :: s64)" "sint v \<le> 2 ^ 40"
  shows "nearest16 (sint v) (sint (if v AND 0x10000 \<noteq> 0 then (v + 0x8000) AND NOT 0xffff
     else (v + 0x7fff) AND NOT 0xffff))"
  using nearest16_round [of "sint v"] unfolding bit_16_odd
  by (simp only: clear_low_16 sint_add_small [OF assms] split: if_split) auto

lemma round_long_acc_nearest: "nearest16 (acc_val i s) (sint (dsp_round_long_acc (dsp_get_long_acc i s)))"
  unfolding dsp_round_long_acc_def
  by (rule round_nearest) (use acc_val_range [of i s] in \<open>auto simp: in_s40_def\<close>)

section \<open>Properties\<close>

text \<open>
  C3. Every addition instruction (ADDR, ADDAX, ADD, ADDP, ADDAXL, ADDI, ADDIS, INCM, INC) leaves the
  40-bit two's complement sum in its destination and the other accumulator alone; the overflow flag
  is set exactly when the true sum does not fit 40 signed bits; result and carry flag are the full
  unsigned sum; condition \<open>L\<close> is the sign of the true sum even after an overflow, condition \<open>Z\<close>
  says that the result is zero, and the sticky overflow flag only accumulates. ADDP needs a product
  register whose value fits 40 bits.
\<close>

theorem additions_exact:
  assumes "(op, v, ok) \<in> set adders" "ok s"
  shows "acc_val (dreg8 opc) (op opc s) = s40 (acc_val (dreg8 opc) s + sint (v opc s)) \<and>
    (\<forall>i. i \<noteq> dreg8 opc \<longrightarrow> acc_val i (op opc s) = acc_val i s) \<and>
    (IsOverflow (op opc s) \<longleftrightarrow> \<not> in_s40 (acc_val (dreg8 opc) s + sint (v opc s))) \<and>
    u40 (acc_val (dreg8 opc) (op opc s)) + (if IsCarry (op opc s) then 2 ^ 40 else 0) =
      u40 (acc_val (dreg8 opc) s) + u40 (sint (v opc s)) \<and>
    (CheckCondition 0x1 (op opc s) \<longleftrightarrow> acc_val (dreg8 opc) s + sint (v opc s) < 0) \<and>
    (CheckCondition 0x5 (op opc s) \<longleftrightarrow> acc_val (dreg8 opc) (op opc s) = 0) \<and>
    (r_sr (op opc s) AND SR_OVERFLOW_STICKY \<noteq> 0 \<longleftrightarrow>
      IsOverflow (op opc s) \<or> r_sr s AND SR_OVERFLOW_STICKY \<noteq> 0)"
proof -
  have "acc_adder op dreg8 v ok" using adders_contract assms(1) by (auto simp: list_all_iff)
  then have alu: "acc_alu op dreg8 (\<lambda>opc s. sint (v opc s)) ok" by (rule acc_adder.axioms(1))
  have cond: "CheckCondition 0x1 x \<longleftrightarrow> IsLess x" "CheckCondition 0x5 x \<longleftrightarrow> IsZero x" for x
    by (simp_all add: CheckCondition_def)
  show ?thesis
    unfolding cond
    by (intro conjI acc_alu.result [OF alu] acc_alu.overflow [OF alu assms(2)]
        acc_adder.full_sum [OF \<open>acc_adder op dreg8 v ok\<close>] acc_alu.less_iff [OF alu assms(2)]
        acc_alu.zero [OF alu] acc_alu.sticky [OF alu] allI impI acc_alu.other [OF alu])
qed

theorem additions_exact_witness:
  "(op_inc, \<lambda>_ _. 1, any_state) \<in> set adders \<and>
   IsOverflow (op_inc 0x7600 (blank_dsp\<lparr>r_ac := (\<lambda>_. 0x7FFFFFFFFF)\<rparr>)) \<and>
   acc_val 0 (op_inc 0x7600 (blank_dsp\<lparr>r_ac := (\<lambda>_. 0x7FFFFFFFFF)\<rparr>)) = - (2 ^ 39)"
  using additions_exact [of op_inc "\<lambda>_ _. 1" any_state "blank_dsp\<lparr>r_ac := (\<lambda>_. 0x7FFFFFFFFF)\<rparr>" "0x7600"]
  by (simp add: adders_def opc_field_def acc_val_eq in_s40_def)

text \<open>
  Every subtraction instruction (SUBR, SUBAX, SUB, SUBP, DECM, DEC) leaves the 40-bit difference
  in its destination and the other accumulator alone; overflow is set exactly when the true
  difference does not fit 40 signed bits, carry exactly when the unsigned subtraction does not
  borrow, and condition \<open>L\<close> is the sign of the true difference. SUBP needs a product register whose
  value fits 40 bits.
\<close>

theorem subtractions_exact:
  assumes "(op, v, ok) \<in> set subtractors" "ok s"
  shows "acc_val (dreg8 opc) (op opc s) = s40 (acc_val (dreg8 opc) s - sint (v opc s)) \<and>
    (\<forall>i. i \<noteq> dreg8 opc \<longrightarrow> acc_val i (op opc s) = acc_val i s) \<and>
    (IsOverflow (op opc s) \<longleftrightarrow> \<not> in_s40 (acc_val (dreg8 opc) s - sint (v opc s))) \<and>
    (IsCarry (op opc s) \<longleftrightarrow> u40 (sint (v opc s)) \<le> u40 (acc_val (dreg8 opc) s)) \<and>
    (CheckCondition 0x1 (op opc s) \<longleftrightarrow> acc_val (dreg8 opc) s < sint (v opc s)) \<and>
    (CheckCondition 0x5 (op opc s) \<longleftrightarrow> acc_val (dreg8 opc) (op opc s) = 0)"
proof -
  have sub: "acc_subtractor op dreg8 v ok" using subtractors_contract assms(1) by (auto simp: list_all_iff)
  then have alu: "acc_alu op dreg8 (\<lambda>opc s. - sint (v opc s)) ok" by (rule acc_subtractor.axioms(1))
  have cond: "CheckCondition 0x1 x \<longleftrightarrow> IsLess x" "CheckCondition 0x5 x \<longleftrightarrow> IsZero x" for x
    by (simp_all add: CheckCondition_def)
  show ?thesis
    unfolding cond
    using acc_alu.result [OF alu, of opc s] acc_alu.overflow [OF alu assms(2), of opc]
      acc_subtractor.carry [OF sub, of opc s] acc_alu.less_iff [OF alu assms(2), of opc]
      acc_alu.zero [OF alu, of opc s] acc_alu.other [OF alu, of _ opc s]
    by simp
qed

theorem subtractions_exact_witness:
  "(op_dec, \<lambda>_ _. 1, any_state) \<in> set subtractors \<and>
   \<not> IsCarry (op_dec 0x7a00 blank_dsp) \<and> acc_val 0 (op_dec 0x7a00 blank_dsp) = - 1"
  using subtractions_exact [of op_dec "\<lambda>_ _. 1" any_state blank_dsp "0x7a00"]
  by (simp add: subtractors_def opc_field_def acc_val_eq blank_dsp_def)

text \<open>
  After each comparison instruction (CMP, CMPAR, CMPI, CMPIS) the branch conditions decide the
  comparison of the two sides: GE, L, G, LE, NZ and Z the signed one, also where the 40-bit
  difference overflows, NC and C the unsigned one. The accumulators are unchanged.
\<close>

theorem comparisons_decide:
  assumes "(op, a, b) \<in> set comparers"
  shows "(CheckCondition 0x0 (op opc s) \<longleftrightarrow> sint (a opc s) \<ge> sint (b opc s)) \<and>
    (CheckCondition 0x1 (op opc s) \<longleftrightarrow> sint (a opc s) < sint (b opc s)) \<and>
    (CheckCondition 0x2 (op opc s) \<longleftrightarrow> sint (a opc s) > sint (b opc s)) \<and>
    (CheckCondition 0x3 (op opc s) \<longleftrightarrow> sint (a opc s) \<le> sint (b opc s)) \<and>
    (CheckCondition 0x4 (op opc s) \<longleftrightarrow> sint (a opc s) \<noteq> sint (b opc s)) \<and>
    (CheckCondition 0x5 (op opc s) \<longleftrightarrow> sint (a opc s) = sint (b opc s)) \<and>
    (CheckCondition 0x6 (op opc s) \<longleftrightarrow> u40 (sint (a opc s)) < u40 (sint (b opc s))) \<and>
    (CheckCondition 0x7 (op opc s) \<longleftrightarrow> u40 (sint (b opc s)) \<le> u40 (sint (a opc s))) \<and>
    r_ac (op opc s) = r_ac s"
proof -
  obtain s' where s': "op opc s = cmp_flags (a opc s) (b opc s) s'" "r_ac s' = r_ac s"
    "in_s40 (sint (a opc s))" "in_s40 (sint (b opc s))"
    using comparers_shape [OF assms] .
  have "r_ac (cmp_flags (a opc s) (b opc s) s') = r_ac s"
    by (simp add: cmp_flags_def Let_def Update_SR_Register64_def s'(2))
  then show ?thesis
    unfolding s'(1) using cmp_flags_conditions [OF s'(3,4), of s']
    by (auto simp: CheckCondition_def not_le)
qed

theorem comparisons_decide_witness:
  "(op_cmp, \<lambda>_. dsp_get_long_acc 0, \<lambda>_. dsp_get_long_acc 1) \<in> set comparers \<and>
   CheckCondition 0x1 (op_cmp 0x8200 (blank_dsp\<lparr>r_ac := (\<lambda>i. if i = 0 then 0x8000000000 else 1)\<rparr>))"
  using comparisons_decide [of op_cmp "\<lambda>_. dsp_get_long_acc 0" "\<lambda>_. dsp_get_long_acc 1" "0x8200"
      "blank_dsp\<lparr>r_ac := (\<lambda>i. if i = 0 then 0x8000000000 else 1)\<rparr>"]
  by (simp add: comparers_def acc_val_eq)

text \<open>
  The shift instructions on the 40-bit accumulators: immediate left shifts multiply by a power of
  two modulo \<open>2 ^ 40\<close>, arithmetic right shifts divide the signed value rounding down, logical
  right shifts divide the unsigned value; the shifts by a register take a signed seven-bit count,
  LSRN and ASRN to the right, LSRNR, ASRNR, LSRNRX and ASRNRX to the left for positive counts.
\<close>

theorem shifts_exact:
  "acc_val (dreg8 opc) (op_lsl opc s) = shl40 (acc_val (dreg8 opc) s) (opc_field opc 0 0x3f) \<and>
   acc_val (dreg8 opc) (op_asl opc s) = shl40 (acc_val (dreg8 opc) s) (opc_field opc 0 0x3f) \<and>
   acc_val (dreg8 opc) (op_lsr opc s) = lsr40 (acc_val (dreg8 opc) s)
     (if opc_field opc 0 0x3f = 0 then 0 else 0x40 - opc_field opc 0 0x3f) \<and>
   acc_val (dreg8 opc) (op_asr opc s) = asr40 (acc_val (dreg8 opc) s)
     (if opc_field opc 0 0x3f = 0 then 0 else 0x40 - opc_field opc 0 0x3f) \<and>
   acc_val (dreg8 opc) (op_lsl16 opc s) = shl40 (acc_val (dreg8 opc) s) 16 \<and>
   acc_val (dreg8 opc) (op_lsr16 opc s) = lsr40 (acc_val (dreg8 opc) s) 16 \<and>
   acc_val (opc_field opc 11 0x1) (op_asr16 opc s) = asr40 (acc_val (opc_field opc 11 0x1) s) 16 \<and>
   acc_val 0 (op_lsrn opc s) = shift40 lsr40 (n_shift (ac_m 1 s)) (acc_val 0 s) \<and>
   acc_val 0 (op_asrn opc s) = shift40 asr40 (n_shift (ac_m 1 s)) (acc_val 0 s) \<and>
   acc_val (dreg8 opc) (op_lsrnr opc s) =
     shift40 lsr40 (- n_shift (ac_m (1 - dreg8 opc) s)) (acc_val (dreg8 opc) s) \<and>
   acc_val (dreg8 opc) (op_asrnr opc s) =
     shift40 asr40 (- n_shift (ac_m (1 - dreg8 opc) s)) (acc_val (dreg8 opc) s) \<and>
   acc_val (dreg8 opc) (op_lsrnrx opc s) =
     shift40 lsr40 (- n_shift (ax_h (opc_field opc 9 0x1) s)) (acc_val (dreg8 opc) s) \<and>
   acc_val (dreg8 opc) (op_asrnrx opc s) =
     shift40 asr40 (- n_shift (ax_h (opc_field opc 9 0x1) s)) (acc_val (dreg8 opc) s)"
  unfolding op_lsl_def op_asl_def op_lsr_def op_asr_def op_lsl16_def op_lsr16_def op_asr16_def
    op_lsrn_def op_asrn_def op_lsrnr_def op_asrnr_def op_lsrnrx_def op_asrnrx_def Let_def
    dsp_get_acc_m_def acc_put_def [unfolded Let_def, symmetric]
  by (intro conjI acc_put_shl acc_put_asr acc_put_lsr acc_put_n_shift)

text \<open>
  CLRL rounds its accumulator to the nearest multiple of \<open>2 ^ 16\<close>, ties to the even multiple,
  within 40 bits.
\<close>

theorem clrl_rounds:
  "\<exists>r. nearest16 (acc_val (dreg8 opc) s) r \<and> acc_val (dreg8 opc) (op_clrl opc s) = s40 r"
  using round_long_acc_nearest [of "dreg8 opc" s]
  by (auto simp: op_clrl_def Let_def get_set_long_acc)

end
