(* ===== verification/DSP_Multiplier.thy ===== *)
theory DSP_Multiplier
  imports DSP_Arithmetic
begin

text \<open>
  The multiplier of \<^verbatim>\<open>Core/DSP/Interpreter/DSPIntMultiplier.cpp\<close>: the three signedness modes,
  the doubling controlled by \<^verbatim>\<open>SR_MUL_MODIFY\<close>, the product register and the instructions that
  multiply, accumulate and move products. \<^verbatim>\<open>(u32)(a * b)\<close> is the product modulo
  \<open>2 ^ 32\<close>; the mixed and signed products fit C's \<^verbatim>\<open>int\<close>.
\<close>

section \<open>Products\<close>

definition dsp_get_multiply_prod :: "u16 \<Rightarrow> u16 \<Rightarrow> nat \<Rightarrow> DSP \<Rightarrow> s64" where
  "dsp_get_multiply_prod a b sign s =
    (let prod =
       (if sign = 1 \<and> r_sr s AND SR_MUL_UNSIGNED \<noteq> 0 then ucast (ucast a * ucast b :: u32)
        else if sign = 2 \<and> r_sr s AND SR_MUL_UNSIGNED \<noteq> 0 then scast (ucast a * scast b :: u32)
        else scast (scast a * scast b :: u32)) :: s64
     in if r_sr s AND SR_MUL_MODIFY = 0 then push_bit 1 prod else prod)"

definition dsp_multiply :: "u16 \<Rightarrow> u16 \<Rightarrow> nat \<Rightarrow> DSP \<Rightarrow> s64" where
  "dsp_multiply a b sign s = dsp_get_multiply_prod a b sign s"

definition dsp_multiply_add :: "u16 \<Rightarrow> u16 \<Rightarrow> nat \<Rightarrow> DSP \<Rightarrow> s64" where
  "dsp_multiply_add a b sign s = dsp_get_long_prod s + dsp_get_multiply_prod a b sign s"

definition dsp_multiply_sub :: "u16 \<Rightarrow> u16 \<Rightarrow> nat \<Rightarrow> DSP \<Rightarrow> s64" where
  "dsp_multiply_sub a b sign s = dsp_get_long_prod s - dsp_get_multiply_prod a b sign s"

definition dsp_multiply_mulx :: "nat \<Rightarrow> nat \<Rightarrow> u16 \<Rightarrow> u16 \<Rightarrow> DSP \<Rightarrow> s64" where
  "dsp_multiply_mulx axh0 axh1 val1 val2 s =
    (if axh0 = 0 \<and> axh1 = 0 then dsp_multiply val1 val2 1 s
     else if axh0 = 0 \<and> axh1 = 1 then dsp_multiply val1 val2 2 s
     else if axh0 = 1 \<and> axh1 = 0 then dsp_multiply val2 val1 2 s
     else dsp_multiply val1 val2 0 s)"

text \<open>The low or the high half of an extra accumulator.\<close>

definition ax_part :: "nat \<Rightarrow> nat \<Rightarrow> DSP \<Rightarrow> u16" where
  "ax_part reg high s = (if high = 0 then dsp_get_ax_l reg s else dsp_get_ax_h reg s)"

section \<open>Handlers\<close>

definition op_clrp :: "UDSPInstruction \<Rightarrow> DSP \<Rightarrow> DSP" where
  "op_clrp opc s =
    set_prod_m2 0x0010 (set_prod_h 0x00ff (set_prod_m 0xfff0 (set_prod_l 0x0000 s)))"

definition op_tstprod :: "UDSPInstruction \<Rightarrow> DSP \<Rightarrow> DSP" where
  "op_tstprod opc s =
    Update_SR_Register64 (dsp_get_long_prod s) False False s"

definition op_movp :: "UDSPInstruction \<Rightarrow> DSP \<Rightarrow> DSP" where
  "op_movp opc s =
    (let dreg = opc_field opc 8 0x1;
         acc = dsp_get_long_prod s
     in Update_SR_Register64 acc False False (dsp_set_long_acc dreg acc s))"

definition op_movnp :: "UDSPInstruction \<Rightarrow> DSP \<Rightarrow> DSP" where
  "op_movnp opc s =
    (let dreg = opc_field opc 8 0x1;
         acc = - dsp_get_long_prod s
     in Update_SR_Register64 acc False False (dsp_set_long_acc dreg acc s))"

definition op_movpz :: "UDSPInstruction \<Rightarrow> DSP \<Rightarrow> DSP" where
  "op_movpz opc s =
    (let dreg = opc_field opc 8 0x1;
         acc = dsp_get_long_prod_round_prodl s
     in Update_SR_Register64 acc False False (dsp_set_long_acc dreg acc s))"

definition op_addpaxz :: "UDSPInstruction \<Rightarrow> DSP \<Rightarrow> DSP" where
  "op_addpaxz opc s =
    (let dreg = opc_field opc 8 0x1;
         sreg = opc_field opc 9 0x1;
         oldprod = dsp_get_long_prod s;
         prod = dsp_get_long_prod_round_prodl s;
         ax = dsp_get_long_acx sreg s;
         s1 = dsp_set_long_acc dreg (prod + (ax AND NOT 0xffff)) s;
         res = dsp_get_long_acc dreg s1
     in Update_SR_Register64 res (isCarry oldprod res) False s1)"

definition op_mulaxh :: "UDSPInstruction \<Rightarrow> DSP \<Rightarrow> DSP" where
  "op_mulaxh opc s =
    dsp_set_long_prod (dsp_multiply (dsp_get_ax_h 0 s) (dsp_get_ax_h 0 s) 0 s) s"

definition op_mul :: "UDSPInstruction \<Rightarrow> DSP \<Rightarrow> DSP" where
  "op_mul opc s =
    (let sreg = opc_field opc 11 0x1
     in dsp_set_long_prod (dsp_multiply (dsp_get_ax_h sreg s) (dsp_get_ax_l sreg s) 0 s) s)"

definition op_mulac :: "UDSPInstruction \<Rightarrow> DSP \<Rightarrow> DSP" where
  "op_mulac opc s =
    (let rreg = opc_field opc 8 0x1;
         sreg = opc_field opc 11 0x1;
         acc = dsp_get_long_acc rreg s + dsp_get_long_prod s;
         prod = dsp_multiply (dsp_get_ax_l sreg s) (dsp_get_ax_h sreg s) 0 s;
         s1 = dsp_set_long_acc rreg acc (dsp_set_long_prod prod s)
     in Update_SR_Register64 (dsp_get_long_acc rreg s1) False False s1)"

definition op_mulmv :: "UDSPInstruction \<Rightarrow> DSP \<Rightarrow> DSP" where
  "op_mulmv opc s =
    (let rreg = opc_field opc 8 0x1;
         sreg = opc_field opc 11 0x1;
         acc = dsp_get_long_prod s;
         prod = dsp_multiply (dsp_get_ax_l sreg s) (dsp_get_ax_h sreg s) 0 s;
         s1 = dsp_set_long_acc rreg acc (dsp_set_long_prod prod s)
     in Update_SR_Register64 (dsp_get_long_acc rreg s1) False False s1)"

definition op_mulmvz :: "UDSPInstruction \<Rightarrow> DSP \<Rightarrow> DSP" where
  "op_mulmvz opc s =
    (let rreg = opc_field opc 8 0x1;
         sreg = opc_field opc 11 0x1;
         acc = dsp_get_long_prod_round_prodl s;
         prod = dsp_multiply (dsp_get_ax_l sreg s) (dsp_get_ax_h sreg s) 0 s;
         s1 = dsp_set_long_acc rreg acc (dsp_set_long_prod prod s)
     in Update_SR_Register64 (dsp_get_long_acc rreg s1) False False s1)"

definition op_mulx :: "UDSPInstruction \<Rightarrow> DSP \<Rightarrow> DSP" where
  "op_mulx opc s =
    (let treg = opc_field opc 11 0x1;
         sreg = opc_field opc 12 0x1
     in dsp_set_long_prod (dsp_multiply_mulx sreg treg (ax_part 0 sreg s) (ax_part 1 treg s) s) s)"

definition op_mulxac :: "UDSPInstruction \<Rightarrow> DSP \<Rightarrow> DSP" where
  "op_mulxac opc s =
    (let rreg = opc_field opc 8 0x1;
         treg = opc_field opc 11 0x1;
         sreg = opc_field opc 12 0x1;
         acc = dsp_get_long_acc rreg s + dsp_get_long_prod s;
         prod = dsp_multiply_mulx sreg treg (ax_part 0 sreg s) (ax_part 1 treg s) s;
         s1 = dsp_set_long_acc rreg acc (dsp_set_long_prod prod s)
     in Update_SR_Register64 (dsp_get_long_acc rreg s1) False False s1)"

definition op_mulxmv :: "UDSPInstruction \<Rightarrow> DSP \<Rightarrow> DSP" where
  "op_mulxmv opc s =
    (let rreg = opc_field opc 8 0x1;
         treg = opc_field opc 11 0x1;
         sreg = opc_field opc 12 0x1;
         acc = dsp_get_long_prod s;
         prod = dsp_multiply_mulx sreg treg (ax_part 0 sreg s) (ax_part 1 treg s) s;
         s1 = dsp_set_long_acc rreg acc (dsp_set_long_prod prod s)
     in Update_SR_Register64 (dsp_get_long_acc rreg s1) False False s1)"

definition op_mulxmvz :: "UDSPInstruction \<Rightarrow> DSP \<Rightarrow> DSP" where
  "op_mulxmvz opc s =
    (let rreg = opc_field opc 8 0x1;
         treg = opc_field opc 11 0x1;
         sreg = opc_field opc 12 0x1;
         acc = dsp_get_long_prod_round_prodl s;
         prod = dsp_multiply_mulx sreg treg (ax_part 0 sreg s) (ax_part 1 treg s) s;
         s1 = dsp_set_long_acc rreg acc (dsp_set_long_prod prod s)
     in Update_SR_Register64 (dsp_get_long_acc rreg s1) False False s1)"

definition op_mulc :: "UDSPInstruction \<Rightarrow> DSP \<Rightarrow> DSP" where
  "op_mulc opc s =
    (let treg = opc_field opc 11 0x1;
         sreg = opc_field opc 12 0x1
     in dsp_set_long_prod (dsp_multiply (dsp_get_acc_m sreg s) (dsp_get_ax_h treg s) 0 s) s)"

definition op_mulcac :: "UDSPInstruction \<Rightarrow> DSP \<Rightarrow> DSP" where
  "op_mulcac opc s =
    (let rreg = opc_field opc 8 0x1;
         treg = opc_field opc 11 0x1;
         sreg = opc_field opc 12 0x1;
         acc = dsp_get_long_acc rreg s + dsp_get_long_prod s;
         prod = dsp_multiply (dsp_get_acc_m sreg s) (dsp_get_ax_h treg s) 0 s;
         s1 = dsp_set_long_acc rreg acc (dsp_set_long_prod prod s)
     in Update_SR_Register64 (dsp_get_long_acc rreg s1) False False s1)"

definition op_mulcmv :: "UDSPInstruction \<Rightarrow> DSP \<Rightarrow> DSP" where
  "op_mulcmv opc s =
    (let rreg = opc_field opc 8 0x1;
         treg = opc_field opc 11 0x1;
         sreg = opc_field opc 12 0x1;
         acc = dsp_get_long_prod s;
         prod = dsp_multiply (dsp_get_acc_m sreg s) (dsp_get_ax_h treg s) 0 s;
         s1 = dsp_set_long_acc rreg acc (dsp_set_long_prod prod s)
     in Update_SR_Register64 (dsp_get_long_acc rreg s1) False False s1)"

definition op_mulcmvz :: "UDSPInstruction \<Rightarrow> DSP \<Rightarrow> DSP" where
  "op_mulcmvz opc s =
    (let rreg = opc_field opc 8 0x1;
         treg = opc_field opc 11 0x1;
         sreg = opc_field opc 12 0x1;
         acc = dsp_get_long_prod_round_prodl s;
         prod = dsp_multiply (dsp_get_acc_m sreg s) (dsp_get_ax_h treg s) 0 s;
         s1 = dsp_set_long_acc rreg acc (dsp_set_long_prod prod s)
     in Update_SR_Register64 (dsp_get_long_acc rreg s1) False False s1)"

definition op_maddx :: "UDSPInstruction \<Rightarrow> DSP \<Rightarrow> DSP" where
  "op_maddx opc s =
    (let treg = opc_field opc 8 0x1;
         sreg = opc_field opc 9 0x1
     in dsp_set_long_prod (dsp_multiply_add (ax_part 0 sreg s) (ax_part 1 treg s) 0 s) s)"

definition op_msubx :: "UDSPInstruction \<Rightarrow> DSP \<Rightarrow> DSP" where
  "op_msubx opc s =
    (let treg = opc_field opc 8 0x1;
         sreg = opc_field opc 9 0x1
     in dsp_set_long_prod (dsp_multiply_sub (ax_part 0 sreg s) (ax_part 1 treg s) 0 s) s)"

definition op_maddc :: "UDSPInstruction \<Rightarrow> DSP \<Rightarrow> DSP" where
  "op_maddc opc s =
    (let treg = opc_field opc 8 0x1;
         sreg = opc_field opc 9 0x1
     in dsp_set_long_prod (dsp_multiply_add (dsp_get_acc_m sreg s) (dsp_get_ax_h treg s) 0 s) s)"

definition op_msubc :: "UDSPInstruction \<Rightarrow> DSP \<Rightarrow> DSP" where
  "op_msubc opc s =
    (let treg = opc_field opc 8 0x1;
         sreg = opc_field opc 9 0x1
     in dsp_set_long_prod (dsp_multiply_sub (dsp_get_acc_m sreg s) (dsp_get_ax_h treg s) 0 s) s)"

definition op_madd :: "UDSPInstruction \<Rightarrow> DSP \<Rightarrow> DSP" where
  "op_madd opc s =
    (let sreg = opc_field opc 8 0x1
     in dsp_set_long_prod (dsp_multiply_add (dsp_get_ax_l sreg s) (dsp_get_ax_h sreg s) 0 s) s)"

definition op_msub :: "UDSPInstruction \<Rightarrow> DSP \<Rightarrow> DSP" where
  "op_msub opc s =
    (let sreg = opc_field opc 8 0x1
     in dsp_set_long_prod (dsp_multiply_sub (dsp_get_ax_l sreg s) (dsp_get_ax_h sreg s) 0 s) s)"

section \<open>Exact products\<close>

text \<open>The factor two of the fractional mode.\<close>

definition mul_factor :: "DSP \<Rightarrow> int" where
  "mul_factor s = (if r_sr s AND SR_MUL_MODIFY = 0 then 2 else 1)"

definition exact_prod :: "u16 \<Rightarrow> u16 \<Rightarrow> nat \<Rightarrow> DSP \<Rightarrow> int" where
  "exact_prod a b sign s =
    (if sign = 1 \<and> r_sr s AND SR_MUL_UNSIGNED \<noteq> 0 then uint a * uint b
     else if sign = 2 \<and> r_sr s AND SR_MUL_UNSIGNED \<noteq> 0 then uint a * sint b
     else sint a * sint b)"

lemma sint16_bounds: "- 32768 \<le> sint (a :: u16)" "sint a \<le> 32767"
  using sint_greater_eq [of a] sint_less [of a] by simp_all

lemma uint16_bounds: "0 \<le> uint (a :: u16)" "uint a \<le> 65535"
  using uint_lt2p [of a] by simp_all

lemma mult_bounds:
  fixes x y :: int
  assumes "- m \<le> x" "x \<le> m" "- n \<le> y" "y \<le> n"
  shows "- (m * n) \<le> x * y" "x * y \<le> m * n"
proof -
  have "\<bar>x * y\<bar> \<le> m * n" unfolding abs_mult using assms by (intro mult_mono) auto
  then show "- (m * n) \<le> x * y" "x * y \<le> m * n" by auto
qed

lemma signed_take_bit_nonneg: "0 \<le> x \<Longrightarrow> x < 2 ^ n \<Longrightarrow> signed_take_bit n x = (x :: int)"
  using order_trans [of "- (2 ^ n)" 0 x] by (simp add: signed_take_bit_int_eq_self)

lemma exact_prod_bounds: "- (2 ^ 31) \<le> exact_prod a b sign s" "exact_prod a b sign s < 2 ^ 32"
  using mult_bounds [of 32768 "sint a" 32768 "sint b"] mult_bounds [of 65535 "uint a" 65535 "uint b"]
    mult_bounds [of 65535 "uint a" 32768 "sint b"]
    sint16_bounds [of a] sint16_bounds [of b] uint16_bounds [of a] uint16_bounds [of b]
    order_trans [of "- (2 ^ 31)" 0 "uint a * uint b"]
  by (auto simp: exact_prod_def)

lemma sint_scast32: "sint (scast (a :: u16) :: u32) = sint a"
  using sint16_bounds [of a] by (simp add: signed_scast_eq signed_take_bit_int_eq_self)

lemma sint_ucast32: "sint (ucast (a :: u16) :: u32) = uint a"
  using uint16_bounds [of a] by (simp add: signed_ucast_eq signed_take_bit_nonneg)

lemma unsigned_prod:
  "sint (ucast (ucast (a :: u16) * ucast (b :: u16) :: u32) :: s64) = uint a * uint b"
proof -
  have b: "0 \<le> uint a * uint b" "uint a * uint b < 2 ^ 32"
    using mult_bounds [of 65535 "uint a" 65535 "uint b"] uint16_bounds [of a] uint16_bounds [of b]
    by auto
  have "take_bit 32 (uint a) = uint a" "take_bit 32 (uint b) = uint b"
    using uint16_bounds [of a] uint16_bounds [of b] by (simp_all add: take_bit_int_eq_self_iff)
  then have "uint (ucast a * ucast b :: u32) = uint a * uint b"
    using b by (simp add: uint_word_ariths unsigned_ucast_eq)
  then show ?thesis
    using b by (simp add: signed_ucast_eq signed_take_bit_nonneg)
qed

lemma signed_prod:
  assumes "- (2 ^ 31) \<le> sint x * sint y" "sint x * sint y < 2 ^ 31"
  shows "sint (scast (x * y :: u32) :: s64) = sint x * sint y"
  using assms by (simp add: sint_scast_u32 sint_word_mult signed_take_bit_int_eq_self)

lemma multiply_prod_exact: "sint (dsp_get_multiply_prod a b sign s) = mul_factor s * exact_prod a b sign s"
proof -
  let ?p = "if sign = 1 \<and> r_sr s AND SR_MUL_UNSIGNED \<noteq> 0 then ucast (ucast a * ucast b :: u32)
        else if sign = 2 \<and> r_sr s AND SR_MUL_UNSIGNED \<noteq> 0 then scast (ucast a * scast b :: u32)
        else scast (scast a * scast b :: u32) :: s64"
  have mixed: "sint (scast (ucast a * scast b :: u32) :: s64) = uint a * sint b"
    using mult_bounds [of 65535 "uint a" 32768 "sint b"] uint16_bounds [of a] sint16_bounds [of b]
    by (subst signed_prod) (auto simp: sint_scast32 sint_ucast32)
  have signed: "sint (scast (scast a * scast b :: u32) :: s64) = sint a * sint b"
    using mult_bounds [of 32768 "sint a" 32768 "sint b"] sint16_bounds [of a] sint16_bounds [of b]
    by (subst signed_prod) (auto simp: sint_scast32)
  have p: "sint ?p = exact_prod a b sign s"
    unfolding exact_prod_def by (simp only: unsigned_prod mixed signed if_distrib [of sint])
  have "sint (push_bit 1 ?p) = 2 * exact_prod a b sign s"
    unfolding signed_push_bit_eq p using exact_prod_bounds [of a b sign s]
    by (subst signed_take_bit_int_eq_self) (simp_all add: push_bit_eq_mult)
  with p show ?thesis by (simp only: dsp_get_multiply_prod_def mul_factor_def Let_def split: if_split) simp
qed

section \<open>The product register\<close>

lemma long_prod_of_set: "dsp_get_long_prod (dsp_set_long_prod v s) = signed_take_bit 39 v"
proof -
  let ?w = "v AND 0xFFFFFFFFFF" and ?s = "dsp_set_long_prod v s"
  let ?hi = "push_bit 32 (scast (ucast (prod_h ?s) :: u8) :: s64)"
  let ?lo = "push_bit 16 (ucast (prod_m ?s) + ucast (prod_m2 ?s)) OR ucast (prod_l ?s) :: s64"
  have m2: "prod_m2 ?s = 0"
    by (rule bit_word_eqI)
      (simp add: prod_m2_def dsp_set_long_prod_def bit_lane16 bit_and_iff bit_const_simps)
  have lanes: "bit (prod_l ?s) n \<longleftrightarrow> n < 16 \<and> bit v n"
      "bit (prod_m ?s) n \<longleftrightarrow> n < 16 \<and> bit v (16 + n)"
      "bit (prod_h ?s) n \<longleftrightarrow> n < 8 \<and> bit v (32 + n)" for n
    by (auto simp: prod_l_def prod_m_def prod_h_def dsp_set_long_prod_def bit_lane16 bit_and_iff
        bit_const_simps)
  have lo: "bit ?lo n \<longleftrightarrow> n < 32 \<and> bit v n" for n
    by (auto simp: m2 bit_simps lanes)
  have hi: "bit ?hi n \<longleftrightarrow> 32 \<le> n \<and> n < 64 \<and> bit v (min 39 n)" for n
    by (auto simp: bit_simps lanes min_def)
  have "?hi AND ?lo = 0" by (rule bit_word_eqI) (simp add: bit_and_iff hi lo)
  then have "dsp_get_long_prod ?s = ?hi OR ?lo"
    unfolding dsp_get_long_prod_def Let_def by (rule disjunctive_add_eq_or)
  also have "\<dots> = signed_take_bit 39 v"
  proof (rule bit_word_eqI)
    fix n assume "n < LENGTH(64)"
    have "bit (?hi OR ?lo) n \<longleftrightarrow> 32 \<le> n \<and> n < 64 \<and> bit v (min 39 n) \<or> n < 32 \<and> bit v n"
      by (simp only: bit_or_iff [of ?hi ?lo] hi lo)
    then show "bit (?hi OR ?lo) n = bit (signed_take_bit 39 v) n"
      using \<open>n < LENGTH(64)\<close> by (auto simp: bit_signed_take_bit_iff min_def)
  qed
  finally show ?thesis .
qed

lemma get_set_long_prod: "sint (dsp_get_long_prod (dsp_set_long_prod v s)) = s40 (sint v)"
  by (simp only: long_prod_of_set sint_signed_take_bit_39)

lemma in_s40_multiply: "in_s40 (sint (dsp_get_multiply_prod a b sign s))"
  using exact_prod_bounds [of a b sign s] unfolding multiply_prod_exact
  by (simp add: mul_factor_def in_s40_def)

abbreviation prod_val :: "DSP \<Rightarrow> int" where "prod_val s \<equiv> sint (dsp_get_long_prod s)"

text \<open>After a multiplication or an accumulation the register holds a 40-bit number.\<close>

lemma prod_fits_set: "prod_fits (dsp_set_long_prod v s)"
  by (simp add: prod_fits_def get_set_long_prod s40_range)

lemma prod_val_mul: "prod_val (dsp_set_long_prod (dsp_multiply a b sign s) s') = mul_factor s * exact_prod a b sign s"
  using in_s40_multiply [of a b sign s]
  by (simp add: dsp_multiply_def get_set_long_prod s40_self) (simp add: multiply_prod_exact)

lemma prod_val_madd:
  "prod_val (dsp_set_long_prod (dsp_multiply_add a b sign s) s') = s40 (prod_val s + mul_factor s * exact_prod a b sign s)"
  by (simp add: dsp_multiply_add_def get_set_long_prod s40_sint_add multiply_prod_exact)

lemma prod_val_msub:
  "prod_val (dsp_set_long_prod (dsp_multiply_sub a b sign s) s') = s40 (prod_val s - mul_factor s * exact_prod a b sign s)"
  by (simp add: dsp_multiply_sub_def get_set_long_prod s40_sint_diff multiply_prod_exact)

lemma exact_prod_signed [simp]: "exact_prod a b 0 s = sint a * sint b"
  by (simp add: exact_prod_def)

lemma prod_val_set_acc [simp]:
  "dsp_get_long_prod (Update_SR_Register64 v c f s) = dsp_get_long_prod s"
  "dsp_get_long_prod (dsp_set_long_acc i w s) = dsp_get_long_prod s"
  by (simp_all add: dsp_get_long_prod_def union_defs Update_SR_Register64_def dsp_set_long_acc_def)

lemma clrp_value: "dsp_get_long_prod (op_clrp opc s) = 0"
  by (simp add: op_clrp_def dsp_get_long_prod_def union_defs mask_eq_exp_minus_1)

lemma opc_bit_cases: "opc_field opc n 0x1 = 0 \<or> opc_field opc n 0x1 = 1"
  using unat_and_mask [of "drop_bit n opc" 1] by (auto simp: opc_field_def mask_eq_exp_minus_1)

lemma prod_range:
  fixes h m m2 l :: int
  assumes "- 128 \<le> h" "h < 128" "m \<le> 65535" "m2 \<le> 65535" "l \<le> 65535" "0 \<le> m" "0 \<le> m2" "0 \<le> l"
  shows "- (2 ^ 40) \<le> 2 ^ 32 * h + (2 ^ 16 * (m + m2) + l)" "2 ^ 32 * h + (2 ^ 16 * (m + m2) + l) \<le> 2 ^ 40"
  using assms by simp_all

lemma prod_val_sum:
  "prod_val s = 2 ^ 32 * sint (ucast (prod_h s) :: u8) + 2 ^ 16 * (uint (prod_m s) + uint (prod_m2 s)) + uint (prod_l s)"
proof -
  let ?h = "sint (ucast (prod_h s) :: u8)" and ?m = "ucast (prod_m s) + ucast (prod_m2 s) :: s64"
  have h: "- 128 \<le> ?h" "?h < 128"
    using sint_greater_eq [of "ucast (prod_h s) :: u8"] sint_less [of "ucast (prod_h s) :: u8"] by simp_all
  have b: "uint (prod_m s) \<le> 65535" "uint (prod_m2 s) \<le> 65535" "uint (prod_l s) \<le> 65535"
    "0 \<le> uint (prod_m s)" "0 \<le> uint (prod_m2 s)" "0 \<le> uint (prod_l s)"
    by (rule uint16_bounds)+
  have u: "sint (ucast (x :: u16) :: s64) = uint x" for x
    using uint16_bounds [of x] by (simp add: signed_ucast_eq signed_take_bit_nonneg)
  have m: "sint ?m = uint (prod_m s) + uint (prod_m2 s)"
    using b by (simp add: sint_word_add u signed_take_bit_nonneg)
  have pm: "sint (push_bit 16 ?m) = 2 ^ 16 * (uint (prod_m s) + uint (prod_m2 s))"
    unfolding signed_push_bit_eq m using b
    by (subst signed_take_bit_nonneg) (simp_all add: push_bit_eq_mult)
  have "push_bit 16 ?m AND ucast (prod_l s) = 0"
    by (rule bit_word_eqI) (auto simp: bit_and_iff bit_push_bit_iff bit_ucast_iff dest: bit_imp_le_length)
  then have "push_bit 16 ?m OR ucast (prod_l s) = push_bit 16 ?m + ucast (prod_l s)"
    by (simp add: disjunctive_add_eq_or)
  then have lo: "sint (push_bit 16 ?m OR ucast (prod_l s)) =
      2 ^ 16 * (uint (prod_m s) + uint (prod_m2 s)) + uint (prod_l s)"
    using b pm by (simp only: sint_word_add u) (simp add: signed_take_bit_nonneg)
  have "sint (scast (ucast (prod_h s) :: u8) :: s64) = ?h"
    using h by (simp add: signed_scast_eq signed_take_bit_int_eq_self)
  then have hi: "sint (push_bit 32 (scast (ucast (prod_h s) :: u8)) :: s64) = 2 ^ 32 * ?h"
    unfolding signed_push_bit_eq using h
    by (simp only:) (subst signed_take_bit_int_eq_self, simp_all add: push_bit_eq_mult)
  show ?thesis
    unfolding dsp_get_long_prod_def Let_def sint_word_add hi lo
    using prod_range [OF h b] by (subst signed_take_bit_int_eq_self) simp_all
qed

lemma prod_val_bounds: "- (2 ^ 40) \<le> prod_val s" "prod_val s \<le> 2 ^ 40"
proof -
  have h: "- 128 \<le> sint (ucast (prod_h s) :: u8)" "sint (ucast (prod_h s) :: u8) < 128"
    using sint_greater_eq [of "ucast (prod_h s) :: u8"] sint_less [of "ucast (prod_h s) :: u8"] by simp_all
  show "- (2 ^ 40) \<le> prod_val s" "prod_val s \<le> 2 ^ 40"
    using prod_range [OF h uint16_bounds(2) [of "prod_m s"] uint16_bounds(2) [of "prod_m2 s"]
        uint16_bounds(2) [of "prod_l s"] uint16_bounds(1) uint16_bounds(1) uint16_bounds(1)]
    unfolding prod_val_sum by simp_all
qed

section \<open>Properties\<close>

text \<open>
  C35. The multiply instructions put the exact product into the product register, doubled unless the
  mode bit M2 is set: MUL and MULAXH multiply signed halves of an extra accumulator, MULC an
  accumulator's middle part with an extra accumulator's high part, MULX any two halves, where with
  the bit SU set a low half counts as unsigned. CLRP makes the register read as zero.
\<close>

theorem products_exact:
  "prod_val (op_mul opc s) = mul_factor s *
     (sint (ax_h (opc_field opc 11 0x1) s) * sint (ax_l (opc_field opc 11 0x1) s)) \<and>
   prod_val (op_mulaxh opc s) = mul_factor s * (sint (ax_h 0 s) * sint (ax_h 0 s)) \<and>
   prod_val (op_mulc opc s) = mul_factor s *
     (sint (ac_m (opc_field opc 12 0x1) s) * sint (ax_h (opc_field opc 11 0x1) s)) \<and>
   prod_val (op_mulx opc s) = mul_factor s *
     (let a = ax_part 0 (opc_field opc 12 0x1) s; b = ax_part 1 (opc_field opc 11 0x1) s;
          unsigned = (r_sr s AND SR_MUL_UNSIGNED \<noteq> 0)
      in (if opc_field opc 12 0x1 = 0 \<and> unsigned then uint a else sint a) *
         (if opc_field opc 11 0x1 = 0 \<and> unsigned then uint b else sint b)) \<and>
   prod_val (op_clrp opc s) = 0"
proof (intro conjI)
  note prods = prod_val_mul dsp_get_ax_h_def dsp_get_ax_l_def dsp_get_acc_m_def Let_def
  let ?S = "opc_field opc 12 0x1" and ?T = "opc_field opc 11 0x1"
  show "prod_val (op_mulx opc s) = mul_factor s *
     (let a = ax_part 0 ?S s; b = ax_part 1 ?T s; unsigned = (r_sr s AND SR_MUL_UNSIGNED \<noteq> 0)
      in (if ?S = 0 \<and> unsigned then uint a else sint a) * (if ?T = 0 \<and> unsigned then uint b else sint b))"
    using opc_bit_cases [of opc 12] opc_bit_cases [of opc 11]
    by (auto simp: op_mulx_def dsp_multiply_mulx_def prods exact_prod_def)
  show "prod_val (op_clrp opc s) = 0" by (simp add: clrp_value)
qed (simp_all add: op_mul_def op_mulaxh_def op_mulc_def prod_val_mul dsp_get_ax_h_def
    dsp_get_ax_l_def dsp_get_acc_m_def Let_def)

text \<open>Loading both halves of an extra accumulator, as the load instructions between MADDs do.\<close>

definition load_ax :: "nat \<Rightarrow> u16 \<times> u16 \<Rightarrow> DSP \<Rightarrow> DSP" where
  "load_ax i p s = set_ax_h i (snd p) (set_ax_l i (fst p) s)"

definition dot :: "(u16 \<times> u16) list \<Rightarrow> int" where
  "dot ps = (\<Sum>p\<leftarrow>ps. sint (fst p) * sint (snd p))"

lemma load_ax_frame:
  "ax_l i (load_ax i p s) = fst p" "ax_h i (load_ax i p s) = snd p"
  "r_sr (load_ax i p s) = r_sr s" "dsp_get_long_prod (load_ax i p s) = dsp_get_long_prod s"
  by (simp_all add: load_ax_def union_defs dsp_get_long_prod_def)

lemma mul_factor_madd [simp]:
  "mul_factor (op_madd opc s) = mul_factor s" "mul_factor (op_msub opc s) = mul_factor s"
  "mul_factor (load_ax i p s) = mul_factor s" "mul_factor (op_clrp opc s) = mul_factor s"
  by (simp_all add: mul_factor_def op_madd_def op_clrp_def union_defs op_msub_def dsp_set_long_prod_def load_ax_frame Let_def)

lemma madd_step:
  "prod_val (op_madd opc (load_ax (dreg8 opc) p s)) =
     s40 (prod_val s + mul_factor s * (sint (fst p) * sint (snd p)))"
  "prod_val (op_msub opc (load_ax (dreg8 opc) p s)) =
     s40 (prod_val s - mul_factor s * (sint (fst p) * sint (snd p)))"
  by (simp_all add: op_madd_def op_msub_def Let_def prod_val_madd prod_val_msub dsp_get_ax_l_def
      dsp_get_ax_h_def load_ax_frame)

lemma s40_add_s40: "s40 (s40 x + y) = s40 (x + y)" "s40 (y + s40 x) = s40 (y + x)"
  by (rule s40_mod_cong, metis mod_add_left_eq u40_s40)
    (rule s40_mod_cong, metis mod_add_right_eq u40_s40)

lemma madd_fold:
  "s40 (prod_val (fold (\<lambda>p. op_madd opc \<circ> load_ax (dreg8 opc) p) ps s)) = s40 (prod_val s + mul_factor s * dot ps)"
proof (induction ps arbitrary: s)
  case (Cons p ps)
  then show ?case by (simp add: madd_step s40_add_s40 dot_def algebra_simps)
qed (simp add: dot_def)

lemma msub_fold:
  "s40 (prod_val (fold (\<lambda>p. op_msub opc \<circ> load_ax (dreg8 opc) p) ps s)) = s40 (prod_val s - mul_factor s * dot ps)"
proof (induction ps arbitrary: s)
  case (Cons p ps)
  have "s40 (s40 (prod_val s - x) - y) = s40 (prod_val s - (x + y))" for x y
    using s40_add_s40(1) [of "prod_val s - x" "- y"] by (simp add: algebra_simps)
  with Cons show ?case by (simp add: madd_step dot_def algebra_simps)
qed (simp add: dot_def)

lemma prod_fits_fold:
  "prod_fits s \<Longrightarrow> prod_fits (fold (\<lambda>p. op_madd opc \<circ> load_ax (dreg8 opc) p) ps s)"
  "prod_fits s \<Longrightarrow> prod_fits (fold (\<lambda>p. op_msub opc \<circ> load_ax (dreg8 opc) p) ps s)"
  by (induction ps arbitrary: s) (simp_all add: op_madd_def op_msub_def Let_def prod_fits_set)

text \<open>
  A run of MADD instructions computes a dot product: with the halves of an extra accumulator
  loaded with the pairs of a list in turn, the product register accumulates the signed products of
  the pairs, doubled unless M2 is set, modulo \<open>2 ^ 40\<close>; MSUB subtracts instead. The register has
  to hold a 40-bit value at the start.
\<close>

theorem madd_dot_product:
  assumes "prod_fits s"
  shows "prod_val (fold (\<lambda>p. op_madd opc \<circ> load_ax (dreg8 opc) p) ps s) = s40 (prod_val s + mul_factor s * dot ps) \<and>
    prod_val (fold (\<lambda>p. op_msub opc \<circ> load_ax (dreg8 opc) p) ps s) = s40 (prod_val s - mul_factor s * dot ps)"
  using prod_fits_fold [OF assms] madd_fold [of opc ps s] msub_fold [of opc ps s]
  by (simp add: prod_fits_def s40_self)

theorem madd_dot_product_witness:
  "prod_fits (op_clrp 0x8400 blank_dsp) \<and>
   prod_val (fold (\<lambda>p. op_madd 0xf200 \<circ> load_ax (dreg8 0xf200) p) [(3, 5), (0xffff, 2)]
     (op_clrp 0x8400 blank_dsp)) = 26"
  using madd_dot_product [of "op_clrp 0x8400 blank_dsp" "0xf200" "[(3, 5), (0xffff, 2)]"]
  by (simp add: prod_fits_def clrp_value in_s40_def dot_def) (simp add: mul_factor_def blank_dsp_def)

text \<open>
  The multiply-and-move instructions work as a pipeline: MULAC adds the old product to the
  accumulator and MULMV moves it there while the new product of the extra accumulator's halves
  enters the product register. MOVP and MOVNP move the product and its negation, MOVPZ and MULMVZ
  the product rounded to the nearest multiple of \<open>2 ^ 16\<close> (ties to even), all modulo \<open>2 ^ 40\<close>.
\<close>

theorem product_moves:
  "acc_val (dreg8 opc) (op_mulac opc s) = s40 (acc_val (dreg8 opc) s + prod_val s) \<and>
   acc_val (dreg8 opc) (op_mulmv opc s) = s40 (prod_val s) \<and>
   prod_val (op_mulac opc s) = mul_factor s *
     (sint (ax_l (opc_field opc 11 0x1) s) * sint (ax_h (opc_field opc 11 0x1) s)) \<and>
   prod_val (op_mulmv opc s) = prod_val (op_mulac opc s) \<and>
   acc_val (dreg8 opc) (op_movp opc s) = s40 (prod_val s) \<and>
   acc_val (dreg8 opc) (op_movnp opc s) = s40 (- prod_val s) \<and>
   (\<exists>r. nearest16 (prod_val s) r \<and> acc_val (dreg8 opc) (op_movpz opc s) = s40 r \<and>
        acc_val (dreg8 opc) (op_mulmvz opc s) = s40 r)"
proof (intro conjI exI)
  note defs = dsp_get_ax_l_def dsp_get_ax_h_def Let_def
  show "nearest16 (prod_val s) (sint (dsp_get_long_prod_round_prodl s))"
    unfolding dsp_get_long_prod_round_prodl_def Let_def by (rule round_nearest) (rule prod_val_bounds)+
  show "acc_val (dreg8 opc) (op_movpz opc s) = s40 (sint (dsp_get_long_prod_round_prodl s))"
    "acc_val (dreg8 opc) (op_mulmvz opc s) = s40 (sint (dsp_get_long_prod_round_prodl s))"
    by (simp_all add: op_movpz_def op_mulmvz_def defs get_set_long_acc)
  show "acc_val (dreg8 opc) (op_movnp opc s) = s40 (- prod_val s)"
    using s40_sint_diff [of 0 "dsp_get_long_prod s"] by (simp add: op_movnp_def defs get_set_long_acc)
qed (simp_all add: op_mulac_def op_mulmv_def op_movp_def dsp_get_ax_l_def dsp_get_ax_h_def Let_def
    get_set_long_acc s40_sint_add prod_val_mul)
end
