(* ===== verification/DSP_LoadStore.thy ===== *)
theory DSP_LoadStore
  imports DSP_Arithmetic
begin

text \<open>
  The load and store instructions of \<^verbatim>\<open>Core/DSP/Interpreter/DSPIntLoadStore.cpp\<close> and the
  instructions of \<^verbatim>\<open>Core/DSP/Interpreter/DSPIntMisc.cpp\<close>. A handler that touches data memory
  returns a result, because a hardware register behind the address can end the run.
\<close>

section \<open>The stored value\<close>

text \<open>
  The middle part of an accumulator is saturated in 40-bit mode; any other register is read
  (which pops a stack register).
\<close>

definition store_value :: "nat \<Rightarrow> DSP \<Rightarrow> u16 \<times> DSP" where
  "store_value reg s =
    (if reg \<ge> DSP_REG_ACM0 then (dsp_op_read_reg_and_saturate (reg - DSP_REG_ACM0) s, s)
     else dsp_op_read_reg reg s)"

section \<open>Loads and stores\<close>

definition op_srs :: "UDSPInstruction \<Rightarrow> DSP \<Rightarrow> DSP result" where
  "op_srs opc s =
    (let reg = opc_field opc 8 0x7 + 0x18;
         addr = push_bit 8 (r_cr s) OR (opc AND 0xFF);
         (v, s1) = store_value reg s
     in dsp_dmem_write addr v s1)"

definition op_lrs :: "UDSPInstruction \<Rightarrow> DSP \<Rightarrow> DSP result" where
  "op_lrs opc s =
    (let reg = opc_field opc 8 0x7 + 0x18;
         addr = push_bit 8 (r_cr s) OR (opc AND 0xFF)
     in bind_res (dsp_dmem_read addr s) (\<lambda>(val, s1).
          Inr (dsp_conditional_extend_accum reg (dsp_op_write_reg reg val s1))))"

definition op_lr :: "UDSPInstruction \<Rightarrow> DSP \<Rightarrow> DSP result" where
  "op_lr opc s =
    (let reg = opc_field opc 0 0x1F;
         (addr, s1) = dsp_fetch_code s
     in bind_res (dsp_dmem_read addr s1) (\<lambda>(val, s2).
          Inr (dsp_conditional_extend_accum reg (dsp_op_write_reg reg val s2))))"

definition op_sr :: "UDSPInstruction \<Rightarrow> DSP \<Rightarrow> DSP result" where
  "op_sr opc s =
    (let reg = opc_field opc 0 0x1F;
         (addr, s1) = dsp_fetch_code s;
         (v, s2) = store_value reg s1
     in dsp_dmem_write addr v s2)"

definition op_si :: "UDSPInstruction \<Rightarrow> DSP \<Rightarrow> DSP result" where
  "op_si opc s =
    (let addr = scast (ucast opc :: u8) :: u16;
         (imm, s1) = dsp_fetch_code s
     in dsp_dmem_write addr imm s1)"

definition op_lrr :: "UDSPInstruction \<Rightarrow> DSP \<Rightarrow> DSP result" where
  "op_lrr opc s =
    (let sreg = opc_field opc 5 0x3;
         dreg = opc_field opc 0 0x1f;
         (addr, s0) = dsp_op_read_reg sreg s
     in bind_res (dsp_dmem_read addr s0) (\<lambda>(val, s1).
          let s2 = dsp_conditional_extend_accum dreg (dsp_op_write_reg dreg val s1)
          in Inr s2))"

definition op_lrrd :: "UDSPInstruction \<Rightarrow> DSP \<Rightarrow> DSP result" where
  "op_lrrd opc s =
    (let sreg = opc_field opc 5 0x3;
         dreg = opc_field opc 0 0x1f;
         (addr, s0) = dsp_op_read_reg sreg s
     in bind_res (dsp_dmem_read addr s0) (\<lambda>(val, s1).
          let s2 = dsp_conditional_extend_accum dreg (dsp_op_write_reg dreg val s1)
          in Inr (set_ar sreg (dsp_decrement_addr_reg sreg s2) s2)))"

definition op_lrri :: "UDSPInstruction \<Rightarrow> DSP \<Rightarrow> DSP result" where
  "op_lrri opc s =
    (let sreg = opc_field opc 5 0x3;
         dreg = opc_field opc 0 0x1f;
         (addr, s0) = dsp_op_read_reg sreg s
     in bind_res (dsp_dmem_read addr s0) (\<lambda>(val, s1).
          let s2 = dsp_conditional_extend_accum dreg (dsp_op_write_reg dreg val s1)
          in Inr (set_ar sreg (dsp_increment_addr_reg sreg s2) s2)))"

definition op_lrrn :: "UDSPInstruction \<Rightarrow> DSP \<Rightarrow> DSP result" where
  "op_lrrn opc s =
    (let sreg = opc_field opc 5 0x3;
         dreg = opc_field opc 0 0x1f;
         (addr, s0) = dsp_op_read_reg sreg s
     in bind_res (dsp_dmem_read addr s0) (\<lambda>(val, s1).
          let s2 = dsp_conditional_extend_accum dreg (dsp_op_write_reg dreg val s1)
          in Inr (set_ar sreg (dsp_increase_addr_reg sreg (r_ix s2 sreg) s2) s2)))"

definition op_srr :: "UDSPInstruction \<Rightarrow> DSP \<Rightarrow> DSP result" where
  "op_srr opc s =
    (let dreg = opc_field opc 5 0x3;
         sreg = opc_field opc 0 0x1f;
         (v, s1) = store_value sreg s
     in dsp_dmem_write (r_ar s dreg) v s1)"

definition op_srrd :: "UDSPInstruction \<Rightarrow> DSP \<Rightarrow> DSP result" where
  "op_srrd opc s =
    (let dreg = opc_field opc 5 0x3;
         sreg = opc_field opc 0 0x1f;
         (v, s1) = store_value sreg s
     in bind_res (dsp_dmem_write (r_ar s dreg) v s1) (\<lambda>s2.
          Inr (set_ar dreg (dsp_decrement_addr_reg dreg s2) s2)))"

definition op_srri :: "UDSPInstruction \<Rightarrow> DSP \<Rightarrow> DSP result" where
  "op_srri opc s =
    (let dreg = opc_field opc 5 0x3;
         sreg = opc_field opc 0 0x1f;
         (v, s1) = store_value sreg s
     in bind_res (dsp_dmem_write (r_ar s dreg) v s1) (\<lambda>s2.
          Inr (set_ar dreg (dsp_increment_addr_reg dreg s2) s2)))"

definition op_srrn :: "UDSPInstruction \<Rightarrow> DSP \<Rightarrow> DSP result" where
  "op_srrn opc s =
    (let dreg = opc_field opc 5 0x3;
         sreg = opc_field opc 0 0x1f;
         (v, s1) = store_value sreg s
     in bind_res (dsp_dmem_write (r_ar s dreg) v s1) (\<lambda>s2.
          Inr (set_ar dreg (dsp_increase_addr_reg dreg (r_ix s2 dreg) s2) s2)))"

definition op_ilrr :: "UDSPInstruction \<Rightarrow> DSP \<Rightarrow> DSP" where
  "op_ilrr opc s =
    (let reg = opc_field opc 0 0x3;
         dreg = DSP_REG_ACM0 + opc_field opc 8 0x1;
         s1 = set_ac_m (dreg - DSP_REG_ACM0) (dsp_imem_read (r_ar s reg) s) s;
         s2 = dsp_conditional_extend_accum dreg s1
     in s2)"

definition op_ilrrd :: "UDSPInstruction \<Rightarrow> DSP \<Rightarrow> DSP" where
  "op_ilrrd opc s =
    (let reg = opc_field opc 0 0x3;
         dreg = DSP_REG_ACM0 + opc_field opc 8 0x1;
         s1 = set_ac_m (dreg - DSP_REG_ACM0) (dsp_imem_read (r_ar s reg) s) s;
         s2 = dsp_conditional_extend_accum dreg s1
     in set_ar reg (dsp_decrement_addr_reg reg s2) s2)"

definition op_ilrri :: "UDSPInstruction \<Rightarrow> DSP \<Rightarrow> DSP" where
  "op_ilrri opc s =
    (let reg = opc_field opc 0 0x3;
         dreg = DSP_REG_ACM0 + opc_field opc 8 0x1;
         s1 = set_ac_m (dreg - DSP_REG_ACM0) (dsp_imem_read (r_ar s reg) s) s;
         s2 = dsp_conditional_extend_accum dreg s1
     in set_ar reg (dsp_increment_addr_reg reg s2) s2)"

definition op_ilrrn :: "UDSPInstruction \<Rightarrow> DSP \<Rightarrow> DSP" where
  "op_ilrrn opc s =
    (let reg = opc_field opc 0 0x3;
         dreg = DSP_REG_ACM0 + opc_field opc 8 0x1;
         s1 = set_ac_m (dreg - DSP_REG_ACM0) (dsp_imem_read (r_ar s reg) s) s;
         s2 = dsp_conditional_extend_accum dreg s1
     in set_ar reg (dsp_increase_addr_reg reg (r_ix s2 reg) s2) s2)"

section \<open>Register moves, address registers, mode bits\<close>

definition op_mrr :: "UDSPInstruction \<Rightarrow> DSP \<Rightarrow> DSP" where
  "op_mrr opc s =
    (let sreg = opc_field opc 0 0x1f;
         dreg = opc_field opc 5 0x1f;
         (v, s1) = store_value sreg s
     in dsp_conditional_extend_accum dreg (dsp_op_write_reg dreg v s1))"

definition op_lri :: "UDSPInstruction \<Rightarrow> DSP \<Rightarrow> DSP" where
  "op_lri opc s =
    (let reg = opc_field opc 0 0x1F;
         (imm, s1) = dsp_fetch_code s
     in dsp_conditional_extend_accum reg (dsp_op_write_reg reg imm s1))"

definition op_lris :: "UDSPInstruction \<Rightarrow> DSP \<Rightarrow> DSP" where
  "op_lris opc s =
    (let reg = opc_field opc 8 0x7 + DSP_REG_AXL0;
         imm = scast (ucast opc :: u8) :: u16
     in dsp_conditional_extend_accum reg (dsp_op_write_reg reg imm s))"

definition op_nx :: "UDSPInstruction \<Rightarrow> DSP \<Rightarrow> DSP" where
  "op_nx opc s =
    s"

definition op_dar :: "UDSPInstruction \<Rightarrow> DSP \<Rightarrow> DSP" where
  "op_dar opc s =
    set_ar (opc_field opc 0 0x3) (dsp_decrement_addr_reg (opc_field opc 0 0x3) s) s"

definition op_iar :: "UDSPInstruction \<Rightarrow> DSP \<Rightarrow> DSP" where
  "op_iar opc s =
    set_ar (opc_field opc 0 0x3) (dsp_increment_addr_reg (opc_field opc 0 0x3) s) s"

definition op_subarn :: "UDSPInstruction \<Rightarrow> DSP \<Rightarrow> DSP" where
  "op_subarn opc s =
    (let dreg = opc_field opc 0 0x3
     in set_ar dreg (dsp_decrease_addr_reg dreg (r_ix s dreg) s) s)"

definition op_addarn :: "UDSPInstruction \<Rightarrow> DSP \<Rightarrow> DSP" where
  "op_addarn opc s =
    (let dreg = opc_field opc 0 0x3;
         sreg = opc_field opc 2 0x3
     in set_ar dreg (dsp_increase_addr_reg dreg (r_ix s sreg) s) s)"

definition op_sbclr :: "UDSPInstruction \<Rightarrow> DSP \<Rightarrow> DSP" where
  "op_sbclr opc s =
    (let b = opc_field opc 0 0x7 + 6
     in s\<lparr>r_sr := r_sr s AND NOT (push_bit b 1)\<rparr>)"

definition op_sbset :: "UDSPInstruction \<Rightarrow> DSP \<Rightarrow> DSP" where
  "op_sbset opc s =
    (let b = opc_field opc 0 0x7 + 6
     in s\<lparr>r_sr := r_sr s OR push_bit b 1\<rparr>)"

definition op_srbith :: "UDSPInstruction \<Rightarrow> DSP \<Rightarrow> DSP" where
  "op_srbith opc s =
    (let c = opc_field opc 8 0xf
     in if c = 0xa then s\<lparr>r_sr := r_sr s AND NOT SR_MUL_MODIFY\<rparr>
        else if c = 0xb then s\<lparr>r_sr := r_sr s OR SR_MUL_MODIFY\<rparr>
        else if c = 0xc then s\<lparr>r_sr := r_sr s AND NOT SR_MUL_UNSIGNED\<rparr>
        else if c = 0xd then s\<lparr>r_sr := r_sr s OR SR_MUL_UNSIGNED\<rparr>
        else if c = 0xe then s\<lparr>r_sr := r_sr s AND NOT SR_40_MODE_BIT\<rparr>
        else if c = 0xf then s\<lparr>r_sr := r_sr s OR SR_40_MODE_BIT\<rparr>
        else s)"

section \<open>The machine's own register access\<close>

text \<open>Reading never looks below the top of a stack, so it agrees with the debugger's view.\<close>

lemma read_reg_value: "fst (dsp_op_read_reg r s) = DSPCore_ReadRegister (r mod 32) s"
proof -
  have "r mod 32 < 32" by simp
  then show ?thesis
    unfolding dsp_op_read_reg_def Let_def
    by (elim less_32_cases [THEN insertE] insertE emptyE)
      (simp_all add: DSPCore_ReadRegister_def dsp_reg_load_stack_def stack_register_def Let_def)
qed

lemma read_store_stack:
  "DSPCore_ReadRegister r (dsp_reg_store_stack k v s) =
   DSPCore_ReadRegister r (s\<lparr>r_st := (r_st s)(stack_index k := v)\<rparr>)"
  by (simp add: DSPCore_ReadRegister_def stack_defs Let_def union_defs)

text \<open>A write is the debugger's write, with the high part of an accumulator cut to eight bits.\<close>

definition reg_stored :: "nat \<Rightarrow> u16 \<Rightarrow> u16" where
  "reg_stored r v = (if r = 0x10 \<or> r = 0x11 then scast (ucast v :: u8) else v)"

lemma write_reg_value:
  assumes "r < 32"
  shows "DSPCore_ReadRegister r' (dsp_op_write_reg r v s) =
    DSPCore_ReadRegister r' (DSPCore_WriteRegister r (reg_stored r v) s)"
  using less_32_cases [OF assms]
  by (elim insertE emptyE)
    (simp_all add: dsp_op_write_reg_def DSPCore_WriteRegister_def reg_stored_def stack_register_def
      read_store_stack)

lemma write_reg_mod: "dsp_op_write_reg r v s = dsp_op_write_reg (r mod 32) v s"
  by (simp add: dsp_op_write_reg_def)

section \<open>Saturation\<close>

lemma isOverS32_iff: "isOverS32 a \<longleftrightarrow> \<not> (- (2 ^ 31) \<le> sint a \<and> sint a < 2 ^ 31)"
proof -
  have "signed_take_bit 31 (uint a) = signed_take_bit 31 (sint a)"
    by (rule bit_eqI) (auto simp: bit_signed_take_bit_iff bit_uint_iff bit_sint_iff min_def)
  then have "sint (scast (ucast a :: u32) :: s64) = signed_take_bit 31 (sint a)"
    unfolding sint_scast_u32 by (simp add: signed_ucast_eq)
  moreover have "a = scast (ucast a :: u32) \<longleftrightarrow> sint a = sint (scast (ucast a :: u32) :: s64)"
    using signed_word_eqI [where 'a = int, of a "scast (ucast a :: u32)"] by auto
  ultimately show ?thesis
    unfolding isOverS32_def using signed_take_bit_int_eq_self_iff [of 31 "sint a"] by auto
qed

lemma sint_ac_m: "sint (ac_m i s) = signed_take_bit 15 (acc_val i s div 65536)"
proof -
  have "sint (ac_m i s) = signed_take_bit 15 (drop_bit 16 (acc_val i s))"
  proof (rule bit_eqI)
    show "bit (sint (ac_m i s)) n = bit (signed_take_bit 15 (drop_bit 16 (acc_val i s))) n" for n
      by (cases "n = 15")
        (auto simp: acc_val_eq bit_sint_iff bit_signed_take_bit_iff bit_drop_bit_eq ac_m_def bit_lane16 min_def)
  qed
  then show ?thesis by (simp add: drop_bit_eq_div)
qed

lemma saturate_value:
  assumes "r_sr s AND SR_40_MODE_BIT \<noteq> 0"
  shows "sint (dsp_op_read_reg_and_saturate i s) = Clamp (acc_val i s) (- (2 ^ 31)) (2 ^ 31 - 1) div 65536"
proof -
  consider "- (2 ^ 31) \<le> acc_val i s" "acc_val i s < 2 ^ 31" | "2 ^ 31 \<le> acc_val i s" | "acc_val i s < - (2 ^ 31)"
    by fastforce
  then show ?thesis
  proof cases
    case 1
    then have "- 32768 \<le> acc_val i s div 65536" "acc_val i s div 65536 < 32768" by auto
    then have "sint (ac_m i s) = acc_val i s div 65536"
      by (simp add: sint_ac_m signed_take_bit_int_eq_self)
    with 1 assms show ?thesis
      by (simp add: dsp_op_read_reg_and_saturate_def isOverS32_iff Clamp_def)
  qed (use assms in \<open>simp_all add: dsp_op_read_reg_and_saturate_def isOverS32_iff Clamp_def Let_def\<close>)
qed

text \<open>Loading a middle part in 40-bit mode sets the whole accumulator.\<close>

lemma extended_load_value:
  assumes "r_sr s AND SR_40_MODE_BIT \<noteq> 0" "i < 2"
  shows "acc_val i (dsp_conditional_extend_accum (0x1e + i) (dsp_op_write_reg (0x1e + i) v s)) = 65536 * sint v"
proof -
  let ?s = "dsp_conditional_extend_accum (0x1e + i) (dsp_op_write_reg (0x1e + i) v s)"
  let ?h = "if v AND 0x8000 \<noteq> 0 then 0xffff else 0 :: u16"
  have ac: "r_ac ?s i = set_lane16 0 0 (set_lane16 2 ?h (set_lane16 1 v (r_ac s i)))"
    using assms by (auto simp: dsp_conditional_extend_accum_def dsp_op_write_reg_def union_defs Let_def
        less_2_cases_iff)
  have h: "bit ?h n \<longleftrightarrow> n < 16 \<and> bit v 15" for n
    by (auto simp: flag_bit(13) bit_const_simps)
  have "s40 (sint (r_ac ?s i)) = push_bit 16 (sint v)"
    unfolding ac
    by (rule bit_eqI)
      (auto simp: bit_signed_take_bit_iff bit_sint_iff bit_push_bit_iff bit_set_lane16 h min_def
        dest: bit_imp_le_length)
  then show ?thesis by (simp add: acc_val_eq push_bit_eq_mult)
qed

section \<open>Properties\<close>

text \<open>
  A register read by an instruction returns the last value an instruction wrote to it, and no
  write to one register changes another, although parts of accumulators, products and extra
  accumulators share storage and the stack registers push and pop; the high part of an accumulator
  keeps the sign-extended low byte.
\<close>

theorem register_write_read:
  "fst (dsp_op_read_reg r' (dsp_op_write_reg r v s)) =
    (if r' mod 32 = r mod 32 then reg_stored (r mod 32) v else fst (dsp_op_read_reg r' s))"
proof -
  have "r mod 32 < 32" "r' mod 32 < 32" by simp_all
  then show ?thesis
    unfolding write_reg_mod [of r] read_reg_value write_reg_value [OF \<open>r mod 32 < 32\<close>]
    by (simp add: read_write_same read_write_other)
qed

text \<open>
  In 40-bit mode the store of an accumulator's middle part saturates, and the load of a middle
  part sign-extends: storing accumulator \<open>j\<close> with SRR to data memory and loading the word with LRR
  into accumulator \<open>k\<close> gives the old value clamped to 32 bits and rounded down to a multiple of
  \<open>2 ^ 16\<close>.
\<close>

theorem store_load_saturates:
  assumes "r_sr s AND SR_40_MODE_BIT \<noteq> 0" "drop_bit 12 (r_ar s a) = 0" "j < 2" "k < 2"
    and "opc_field st 5 0x3 = a" "opc_field st 0 0x1f = 0x1e + j"
    and "opc_field ld 5 0x3 = a" "opc_field ld 0 0x1f = 0x1e + k" "a < 4"
  shows "\<exists>s1 s2. op_srr st s = Inr s1 \<and> op_lrr ld s1 = Inr s2 \<and>
    acc_val k s2 = 65536 * (Clamp (acc_val j s) (- (2 ^ 31)) (2 ^ 31 - 1) div 65536)"
proof -
  let ?v = "dsp_op_read_reg_and_saturate j s"
  let ?s1 = "s\<lparr>g_dram := (g_dram s)(r_ar s a AND 0xfff := ?v)\<rparr>"
  let ?s2 = "dsp_conditional_extend_accum (0x1e + k) (dsp_op_write_reg (0x1e + k) ?v ?s1)"
  have "op_srr st s = Inr ?s1"
    using assms by (simp add: op_srr_def store_value_def dsp_dmem_write_def Let_def)
  moreover have "op_lrr ld ?s1 = Inr ?s2"
    using assms by (simp add: op_lrr_def dsp_op_read_reg_def dsp_dmem_read_def Let_def)
  moreover have "acc_val k ?s2 = 65536 * sint ?v"
    using assms by (intro extended_load_value) simp_all
  ultimately show ?thesis using saturate_value [OF assms(1), of j] by auto
qed

theorem store_load_saturates_witness:
  "\<exists>s1 s2. op_srr 0x1a1e (blank_dsp\<lparr>r_sr := 0x4000, r_ac := (\<lambda>_. 0x7000000000)\<rparr>) = Inr s1 \<and>
     op_lrr 0x181f s1 = Inr s2 \<and> acc_val 1 s2 = 0x7fff0000"
  using store_load_saturates [of "blank_dsp\<lparr>r_sr := 0x4000, r_ac := (\<lambda>_. 0x7000000000)\<rparr>" 0 0 1 "0x1a1e" "0x181f"]
  by (simp add: opc_field_def acc_val_eq Clamp_def blank_dsp_def)
end
