(* ===== verification/DSP_Branch.thy ===== *)
theory DSP_Branch
  imports DSP_Arithmetic
begin

text \<open>
  Calls, returns, jumps, conditional execution, interrupts and the hardware loops of
  \<^verbatim>\<open>Core/DSP/Interpreter/DSPIntBranch.cpp\<close>. A handler that skips an instruction looks its size
  up in the opcode table and faults on a null entry.
\<close>

section \<open>Handlers\<close>

definition op_call :: "UDSPInstruction \<Rightarrow> DSP \<Rightarrow> DSP" where
  "op_call opc s =
    (let (dest, s1) = dsp_fetch_code s
     in if CheckCondition (opc_field opc 0 0xf) s1
        then (dsp_reg_store_stack Call (g_pc s1) s1)\<lparr>g_pc := dest\<rparr>
        else s1)"

definition op_callr :: "UDSPInstruction \<Rightarrow> DSP \<Rightarrow> DSP" where
  "op_callr opc s =
    (if CheckCondition (opc_field opc 0 0xf) s
     then let reg = opc_field opc 5 0x7;
              (addr, s1) = dsp_op_read_reg reg s
          in (dsp_reg_store_stack Call (g_pc s1) s1)\<lparr>g_pc := addr\<rparr>
     else s)"

definition op_ifcc :: "UDSPInstruction \<Rightarrow> DSP \<Rightarrow> DSP result" where
  "op_ifcc opc s =
    (if \<not> CheckCondition (opc_field opc 0 0xf) s then dsp_skip_inst s else Inr s)"

definition op_jcc :: "UDSPInstruction \<Rightarrow> DSP \<Rightarrow> DSP" where
  "op_jcc opc s =
    (let (dest, s1) = dsp_fetch_code s
     in if CheckCondition (opc_field opc 0 0xf) s1 then s1\<lparr>g_pc := dest\<rparr> else s1)"

definition op_jmprcc :: "UDSPInstruction \<Rightarrow> DSP \<Rightarrow> DSP" where
  "op_jmprcc opc s =
    (if CheckCondition (opc_field opc 0 0xf) s
     then let reg = opc_field opc 5 0x7;
              (addr, s1) = dsp_op_read_reg reg s
          in s1\<lparr>g_pc := addr\<rparr>
     else s)"

definition op_ret :: "UDSPInstruction \<Rightarrow> DSP \<Rightarrow> DSP" where
  "op_ret opc s =
    (if CheckCondition (opc_field opc 0 0xf) s
     then let (addr, s1) = dsp_reg_load_stack Call s in s1\<lparr>g_pc := addr\<rparr>
     else s)"

definition op_rti :: "UDSPInstruction \<Rightarrow> DSP \<Rightarrow> DSP" where
  "op_rti opc s =
    (let (sr, s1) = dsp_reg_load_stack Data s;
         s2 = s1\<lparr>r_sr := sr\<rparr>;
         (addr, s3) = dsp_reg_load_stack Call s2
     in s3\<lparr>g_pc := addr\<rparr>)"

definition op_halt :: "UDSPInstruction \<Rightarrow> DSP \<Rightarrow> DSP" where
  "op_halt opc s = s\<lparr>g_cr := g_cr s OR 0x4, g_pc := g_pc s - 1\<rparr>"

text \<open>The comparison \<^verbatim>\<open>g_dsp.pc - 1 == rLoopAddress\<close> is on \<^verbatim>\<open>int\<close>.\<close>

definition HandleLoop :: "DSP \<Rightarrow> DSP" where
  "HandleLoop s =
    (let rCallAddress = r_st s 0;
         rLoopAddress = r_st s 2
     in if rLoopAddress > 0 \<and> r_st s 3 > 0 then
          (if uint (g_pc s) - 1 = uint rLoopAddress then
             (let s1 = s\<lparr>r_st := (r_st s)(3 := r_st s 3 - 1)\<rparr>
              in if r_st s1 3 > 0 then s1\<lparr>g_pc := rCallAddress\<rparr>
                 else snd (dsp_reg_load_stack LoopCounter
                        (snd (dsp_reg_load_stack LoopAddress (snd (dsp_reg_load_stack Call s1))))))
           else s)
        else s)"

text \<open>The three pushes that open a loop.\<close>

definition open_loop :: "u16 \<Rightarrow> u16 \<Rightarrow> DSP \<Rightarrow> DSP" where
  "open_loop loop_pc cnt s =
    dsp_reg_store_stack LoopCounter cnt
      (dsp_reg_store_stack LoopAddress loop_pc (dsp_reg_store_stack Call (g_pc s) s))"

definition op_loop :: "UDSPInstruction \<Rightarrow> DSP \<Rightarrow> DSP result" where
  "op_loop opc s =
    (let reg = opc_field opc 0 0x1f;
         (cnt, s1) = dsp_op_read_reg reg s;
         loop_pc = g_pc s1
     in if cnt \<noteq> 0 then Inr (open_loop loop_pc cnt s1) else dsp_skip_inst s1)"

definition op_loopi :: "UDSPInstruction \<Rightarrow> DSP \<Rightarrow> DSP result" where
  "op_loopi opc s =
    (let cnt = opc AND 0xff;
         loop_pc = g_pc s
     in if cnt \<noteq> 0 then Inr (open_loop loop_pc cnt s) else dsp_skip_inst s)"

definition op_bloop :: "UDSPInstruction \<Rightarrow> DSP \<Rightarrow> DSP result" where
  "op_bloop opc s =
    (let reg = opc_field opc 0 0x1f;
         (cnt, s1) = dsp_op_read_reg reg s;
         (loop_pc, s2) = dsp_fetch_code s1
     in if cnt \<noteq> 0 then Inr (open_loop loop_pc cnt s2)
        else dsp_skip_inst (s2\<lparr>g_pc := loop_pc\<rparr>))"

definition op_bloopi :: "UDSPInstruction \<Rightarrow> DSP \<Rightarrow> DSP result" where
  "op_bloopi opc s =
    (let cnt = opc AND 0xff;
         (loop_pc, s1) = dsp_fetch_code s
     in if cnt \<noteq> 0 then Inr (open_loop loop_pc cnt s1)
        else dsp_skip_inst (s1\<lparr>g_pc := loop_pc\<rparr>))"

section \<open>Stack views under record updates\<close>

lemma stack_view_other_fields [simp]:
  "stack_view k (s\<lparr>g_pc := v\<rparr>) = stack_view k s" "stack_view k (s\<lparr>r_sr := w\<rparr>) = stack_view k s"
  "stack_wf k (s\<lparr>g_pc := v\<rparr>) = stack_wf k s" "stack_wf k (s\<lparr>r_sr := w\<rparr>) = stack_wf k s"
  "stack_view k (s\<lparr>g_exceptions := e\<rparr>) = stack_view k s"
  "stack_wf k (s\<lparr>g_exceptions := e\<rparr>) = stack_wf k s"
  by (simp_all add: stack_view_def stack_wf_def)

lemma load_stack_eq: "fst (dsp_reg_load_stack k s) = hd (stack_view k s)"
  by (simp add: dsp_reg_load_stack_def stack_view_def Let_def)

lemma length_stack_view [simp]: "length (stack_view k s) = 33"
  by (simp add: stack_view_def)

lemma top_of_view: "r_st s (stack_index k) = hd (stack_view k s)"
  by (simp add: stack_view_def)

text \<open>What a pop leaves after a push, when the stack was used in between only above it.\<close>

lemma pop_pushed:
  assumes "stack_wf k s'" "stack_view k s' = v # butlast (stack_view k s)"
  shows "butlast (stack_view k (snd (dsp_reg_load_stack k s'))) = butlast (stack_view k s)"
  using assms length_stack_view [of k s] by (simp add: stack_view_load)

section \<open>Returning from an exception\<close>

lemma fire_exception_views:
  "stack_view Call (fire_exception i s) = g_pc s # butlast (stack_view Call s)"
  "stack_view Data (fire_exception i s) = r_sr s # butlast (stack_view Data s)"
  "k \<noteq> Call \<Longrightarrow> k \<noteq> Data \<Longrightarrow> stack_view k (fire_exception i s) = stack_view k s"
  by (simp_all add: fire_exception_def Let_def stack_view_store stack_view_store_other dsp_frame)

lemma rti_effect:
  "g_pc (op_rti opc s) = hd (stack_view Call s)" "r_sr (op_rti opc s) = hd (stack_view Data s)"
  "stack_view Call (op_rti opc s) = stack_view Call (snd (dsp_reg_load_stack Call s))"
  "stack_view Data (op_rti opc s) = stack_view Data (snd (dsp_reg_load_stack Data s))"
  by (simp_all add: op_rti_def stack_defs stack_view_def Let_def)

section \<open>Hardware loops\<close>

text \<open>
  The state at the start of a round: \<open>left\<close> rounds to go, the loop's own entries on top of what the
  three stacks held before (\<open>vc\<close>, \<open>va\<close>, \<open>vn\<close>).
\<close>

definition loop_state :: "u16 \<Rightarrow> u16 \<Rightarrow> u16 \<Rightarrow> u16 list \<times> u16 list \<times> u16 list \<Rightarrow> DSP \<Rightarrow> bool" where
  "loop_state start loop_pc left olds s \<longleftrightarrow>
     stack_view Call s = start # fst olds \<and>
     stack_view LoopAddress s = loop_pc # fst (snd olds) \<and>
     stack_view LoopCounter s = left # snd (snd olds) \<and>
     stack_wf Call s \<and> stack_wf LoopAddress s \<and> stack_wf LoopCounter s"

lemma loop_state_tops:
  assumes "loop_state start loop_pc left olds s"
  shows "r_st s 0 = start" "r_st s 2 = loop_pc" "r_st s 3 = left"
  using assms top_of_view [of s Call] top_of_view [of s LoopAddress] top_of_view [of s LoopCounter]
  by (simp_all add: loop_state_def)

lemma loop_state_pc [simp]:
  "loop_state start loop_pc left olds (s\<lparr>g_pc := v\<rparr>) = loop_state start loop_pc left olds s"
  by (simp add: loop_state_def)

lemma stack_view_set_top:
  "stack_view k (s\<lparr>r_st := (r_st s)(stack_index k' := v)\<rparr>) =
     (if k = k' then v # tl (stack_view k s) else stack_view k s)"
  "stack_wf k (s\<lparr>r_st := (r_st s)(stack_index k' := v)\<rparr>) = stack_wf k s"
  by (simp_all add: stack_view_def stack_wf_def)

lemma loop_state_count:
  assumes "loop_state start loop_pc left olds s"
  shows "loop_state start loop_pc v olds (s\<lparr>r_st := (r_st s)(3 := v)\<rparr>)"
  using assms stack_view_set_top [of _ s LoopCounter v] by (simp add: loop_state_def)

lemma HandleLoop_again:
  assumes "loop_state start loop_pc left olds s" "0 < loop_pc" "1 < left"
    and "uint (g_pc s) = uint loop_pc + 1"
  shows "loop_state start loop_pc (left - 1) olds (HandleLoop s)" "g_pc (HandleLoop s) = start"
proof -
  have "0 < left - 1" "0 < left" using assms(3) by (auto simp: word_gt_0)
  then have "HandleLoop s = (s\<lparr>r_st := (r_st s)(3 := left - 1)\<rparr>)\<lparr>g_pc := start\<rparr>"
    using assms by (simp add: HandleLoop_def loop_state_tops [OF assms(1)] Let_def)
  with assms show "loop_state start loop_pc (left - 1) olds (HandleLoop s)" "g_pc (HandleLoop s) = start"
    by (simp_all add: loop_state_count)
qed

text \<open>The last round pops the loop's entries.\<close>

lemma HandleLoop_last:
  assumes "loop_state start loop_pc 1 olds s" "0 < loop_pc" "uint (g_pc s) = uint loop_pc + 1"
  shows "g_pc (HandleLoop s) = g_pc s"
    and "butlast (stack_view Call (HandleLoop s)) = fst olds"
    and "butlast (stack_view LoopAddress (HandleLoop s)) = fst (snd olds)"
    and "butlast (stack_view LoopCounter (HandleLoop s)) = snd (snd olds)"
proof -
  let ?s = "s\<lparr>r_st := (r_st s)(3 := 0)\<rparr>"
  let ?c = "snd (dsp_reg_load_stack Call ?s)" let ?a = "snd (dsp_reg_load_stack LoopAddress ?c)"
  have eq: "HandleLoop s = snd (dsp_reg_load_stack LoopCounter ?a)"
    using assms by (simp add: HandleLoop_def loop_state_tops [OF assms(1)] Let_def)
  note st = loop_state_count [OF assms(1), of 0, unfolded loop_state_def]
  have "butlast (stack_view Call ?c) = fst olds" using st by (simp add: stack_view_load)
  moreover have "butlast (stack_view LoopAddress ?a) = fst (snd olds)"
    using st by (simp add: stack_view_load stack_wf_load stack_view_load_other)
  moreover have "butlast (stack_view LoopCounter (snd (dsp_reg_load_stack LoopCounter ?a))) = snd (snd olds)"
    using st by (simp add: stack_view_load stack_wf_load stack_view_load_other)
  ultimately show "butlast (stack_view Call (HandleLoop s)) = fst olds"
    "butlast (stack_view LoopAddress (HandleLoop s)) = fst (snd olds)"
    "butlast (stack_view LoopCounter (HandleLoop s)) = snd (snd olds)"
    by (simp_all add: eq stack_view_load_other)
  show "g_pc (HandleLoop s) = g_pc s" by (simp add: eq dsp_frame)
qed

text \<open>\<open>n\<close> rounds: the body, then the check the interpreter makes at the loop's end.\<close>

primrec run_rounds :: "(DSP \<Rightarrow> DSP) \<Rightarrow> nat \<Rightarrow> DSP \<Rightarrow> DSP" where
  "run_rounds body 0 s = s"
| "run_rounds body (Suc n) s = HandleLoop (body (run_rounds body n s))"

text \<open>
  A loop body runs from the loop's start to the instruction after its end and leaves the three
  stacks as it found them.
\<close>

definition runs_body :: "(DSP \<Rightarrow> DSP) \<Rightarrow> u16 \<Rightarrow> u16 \<Rightarrow> bool" where
  "runs_body body start loop_pc \<longleftrightarrow>
    (\<forall>s. g_pc s = start \<longrightarrow> uint (g_pc (body s)) = uint loop_pc + 1 \<and>
       (\<forall>k. k \<noteq> Data \<longrightarrow> stack_view k (body s) = stack_view k s \<and> stack_wf k (body s) = stack_wf k s))"

lemma runs_body_state:
  assumes "runs_body body start loop_pc" "loop_state start loop_pc left olds s" "g_pc s = start"
  shows "loop_state start loop_pc left olds (body s)" "uint (g_pc (body s)) = uint loop_pc + 1"
  using assms by (simp_all add: runs_body_def loop_state_def)

lemma loop_rounds:
  assumes "runs_body body start loop_pc" "0 < loop_pc" "loop_state start loop_pc cnt olds s" "g_pc s = start"
    and "k < unat cnt"
  shows "loop_state start loop_pc (cnt - of_nat k) olds (run_rounds body k s) \<and>
    g_pc (run_rounds body k s) = start"
  using assms(5)
proof (induction k)
  case (Suc k)
  let ?s = "run_rounds body k s"
  have st: "loop_state start loop_pc (cnt - of_nat k) olds ?s" "g_pc ?s = start"
    using Suc.IH Suc.prems Suc_lessD by blast+
  have "unat (cnt - of_nat k) = unat cnt - k" "1 < unat cnt - k"
    using Suc.prems unat_u16_less [of cnt] by (simp_all add: unat_sub word_le_nat_alt unat_of_nat)
  then have "1 < cnt - of_nat k" by (simp add: word_less_nat_alt)
  then have "loop_state start loop_pc (cnt - of_nat k - 1) olds (HandleLoop (body ?s)) \<and>
      g_pc (HandleLoop (body ?s)) = start"
    using HandleLoop_again runs_body_state [OF assms(1) st] assms(2) by blast
  then show ?case by (simp add: algebra_simps)
qed (use assms in simp)

lemma open_loop_state:
  "loop_state (g_pc s) loop_pc cnt
     (butlast (stack_view Call s), butlast (stack_view LoopAddress s), butlast (stack_view LoopCounter s))
     (open_loop loop_pc cnt s)"
  "g_pc (open_loop loop_pc cnt s) = g_pc s"
  by (simp_all add: open_loop_def loop_state_def stack_view_store stack_view_store_other stack_wf_store dsp_frame)

lemma loop_complete:
  fixes s :: DSP
  assumes "runs_body body (g_pc s) loop_pc" "0 < loop_pc" "cnt \<noteq> 0"
  defines "s' \<equiv> run_rounds body (unat cnt) (open_loop loop_pc cnt s)"
  shows "uint (g_pc s') = uint loop_pc + 1"
    and "k \<noteq> Data \<Longrightarrow> butlast (stack_view k s') = butlast (stack_view k s)"
proof -
  obtain n where n: "unat cnt = Suc n" using assms(3) by (metis not0_implies_Suc unat_eq_zero)
  let ?s = "run_rounds body n (open_loop loop_pc cnt s)"
  let ?olds = "(butlast (stack_view Call s), butlast (stack_view LoopAddress s), butlast (stack_view LoopCounter s))"
  have "cnt = of_nat (Suc n)" by (subst n [symmetric]) simp
  then have "cnt - of_nat n = 1" by simp
  then have st: "loop_state (g_pc s) loop_pc 1 ?olds ?s" "g_pc ?s = g_pc s"
    using loop_rounds [OF assms(1,2) open_loop_state(1) [of s loop_pc cnt] open_loop_state(2), of n] n
    by simp_all
  note body = runs_body_state [OF assms(1) st]
  from HandleLoop_last [OF body(1) assms(2) body(2)] body(2)
  show "uint (g_pc s') = uint loop_pc + 1"
    "k \<noteq> Data \<Longrightarrow> butlast (stack_view k s') = butlast (stack_view k s)"
    by (cases k; simp add: s'_def n)+
qed

section \<open>Properties\<close>

text \<open>
  A taken CALL continues at the address in the following word, and the RET of a subroutine that
  leaves the call stack as it found it continues right after the CALL's two words, with the call
  stack as before the CALL.
\<close>

theorem call_return:
  assumes "CheckCondition (opc_field c 0 0xf) s" "CheckCondition (opc_field r 0 0xf) s2"
    and "stack_view Call s2 = stack_view Call (op_call c s)" "stack_wf Call s2"
  shows "g_pc (op_call c s) = dsp_imem_read (g_pc s) s \<and> g_pc (op_ret r s2) = g_pc s + 1 \<and>
    butlast (stack_view Call (op_ret r s2)) = butlast (stack_view Call s)"
proof -
  have cond: "CheckCondition n (s\<lparr>g_pc := v\<rparr>) = CheckCondition n s" for n v
    by (simp add: CheckCondition_def IsLess_def IsZero_def IsCarry_def IsOverS32_def IsConditionA_def
        IsLogicZero_def IsOverflow_def)
  have call: "op_call c s = (dsp_reg_store_stack Call (g_pc s + 1) (s\<lparr>g_pc := g_pc s + 1\<rparr>))
      \<lparr>g_pc := dsp_imem_read (g_pc s) s\<rparr>"
    using assms(1) by (simp add: op_call_def dsp_fetch_code_def cond)
  then have view: "stack_view Call s2 = (g_pc s + 1) # butlast (stack_view Call s)"
    using assms(3) by (simp add: stack_view_store)
  then show ?thesis
    using assms(2) pop_pushed [OF assms(4) view] call
    by (simp add: op_ret_def case_prod_beta load_stack_eq)
qed

theorem call_return_witness:
  "g_pc (op_ret 0x02df (op_call 0x02bf (blank_dsp\<lparr>g_pc := 0x21\<rparr>))) = 0x22"
  using call_return [of "0x02bf" "blank_dsp\<lparr>g_pc := 0x21\<rparr>" "0x02df" "op_call 0x02bf (blank_dsp\<lparr>g_pc := 0x21\<rparr>)"]
  by (simp add: opc_field_def CheckCondition_def op_call_def dsp_fetch_code_def stack_wf_store)

text \<open>
  C5. Of the pending exceptions that may be taken, the one with the highest number is: the DSP
  continues at twice its number with that exception acknowledged and further ones of its kind
  disabled, and the RTI of a handler that leaves the call and data stacks as it found them restores
  the program counter, the status register and both stacks. The external interrupt (7) is taken
  whatever the interrupt enable flag says, the others only when it is set.
\<close>

theorem exception_return:
  assumes "0 < i" "i \<le> 7" "may_fire i s" "\<forall>j. i < j \<longrightarrow> j \<le> 7 \<longrightarrow> \<not> may_fire j s"
    and "\<forall>k \<in> {Call, Data}. stack_view k s2 = stack_view k (DSPCore_CheckExceptions s) \<and> stack_wf k s2"
  shows "g_pc (DSPCore_CheckExceptions s) = of_nat (2 * i) \<and>
    g_exceptions (DSPCore_CheckExceptions s) = g_exceptions s AND NOT (push_bit i 1) \<and>
    r_sr (DSPCore_CheckExceptions s) =
      r_sr s AND NOT (if i = 7 then SR_EXT_INT_ENABLE else SR_INT_ENABLE) \<and>
    g_pc (op_rti opc s2) = g_pc s \<and> r_sr (op_rti opc s2) = r_sr s \<and>
    (\<forall>k \<in> {Call, Data}. butlast (stack_view k (op_rti opc s2)) = butlast (stack_view k s))"
proof -
  have fire: "DSPCore_CheckExceptions s = fire_exception i s"
    using assms(1-4) by (intro CheckExceptions_fires) auto
  have views: "stack_view Call s2 = g_pc s # butlast (stack_view Call s)"
    "stack_view Data s2 = r_sr s # butlast (stack_view Data s)"
    using assms(5) by (simp_all add: fire fire_exception_views)
  have wf: "stack_wf Call s2" "stack_wf Data s2" using assms(5) by simp_all
  show ?thesis
    using pop_pushed [OF wf(1) views(1)] pop_pushed [OF wf(2) views(2)]
    by (simp add: fire fire_exception_frame rti_effect views mult.commute)
qed

text \<open>
  C4. BLOOPI with a nonzero count runs its body exactly that many times: after each of the first
  rounds the end-of-loop check continues at the loop's first instruction, after the last one it
  falls through behind the loop's end with the call, loop address and loop counter stacks as before
  the instruction. The body is any run of instructions from the loop's start to its end that leaves
  those stacks as it found them.
\<close>

theorem bloopi_runs_count:
  assumes "opc AND 0xff \<noteq> 0" "runs_body body (g_pc s + 1) (dsp_imem_read (g_pc s) s)" "0 < dsp_imem_read (g_pc s) s"
  shows "\<exists>s0. op_bloopi opc s = Inr s0 \<and>
    (\<forall>n < unat (opc AND 0xff). g_pc (run_rounds body n s0) = g_pc s + 1) \<and>
    uint (g_pc (run_rounds body (unat (opc AND 0xff)) s0)) = uint (dsp_imem_read (g_pc s) s) + 1 \<and>
    (\<forall>k. k \<noteq> Data \<longrightarrow> butlast (stack_view k (run_rounds body (unat (opc AND 0xff)) s0)) =
       butlast (stack_view k s))"
proof -
  let ?loop_pc = "dsp_imem_read (g_pc s) s" and ?s = "s\<lparr>g_pc := g_pc s + 1\<rparr>" and ?cnt = "opc AND 0xff"
  have "op_bloopi opc s = Inr (open_loop ?loop_pc ?cnt ?s)"
    using assms(1) by (simp add: op_bloopi_def dsp_fetch_code_def Let_def)
  moreover have body: "runs_body body (g_pc ?s) ?loop_pc" using assms(2) by simp
  moreover have "g_pc (run_rounds body n (open_loop ?loop_pc ?cnt ?s)) = g_pc s + 1" if "n < unat ?cnt" for n
    using loop_rounds [OF body assms(3) open_loop_state(1) [where s = ?s] open_loop_state(2) that]
    by simp
  ultimately show ?thesis
    using loop_complete [OF body assms(3,1)] by simp
qed

theorem exception_return_witness:
  "may_fire 7 (blank_dsp\<lparr>g_pc := 0x123, r_sr := 0x0a00, g_exceptions := 0xa0\<rparr>) \<and>
   g_pc (DSPCore_CheckExceptions (blank_dsp\<lparr>g_pc := 0x123, r_sr := 0x0a00, g_exceptions := 0xa0\<rparr>)) = 14 \<and>
   g_pc (op_rti 0x02ff (DSPCore_CheckExceptions
     (blank_dsp\<lparr>g_pc := 0x123, r_sr := 0x0a00, g_exceptions := 0xa0\<rparr>))) = 0x123"
proof -
  let ?s = "blank_dsp\<lparr>g_pc := 0x123, r_sr := 0x0a00, g_exceptions := 0xa0\<rparr>"
  have fire: "may_fire 7 ?s" by (simp add: may_fire_def)
  then have eq: "DSPCore_CheckExceptions ?s = fire_exception 7 ?s" by (intro CheckExceptions_fires) auto
  have "stack_wf Call (fire_exception 7 ?s)" "stack_wf Data (fire_exception 7 ?s)"
    by (simp_all add: fire_exception_def Let_def stack_wf_store)
  with fire eq show ?thesis
    using exception_return [of 7 ?s "DSPCore_CheckExceptions ?s" "0x02ff"] by auto
qed

theorem bloopi_runs_count_witness:
  "\<exists>s0. op_bloopi 0x1103 (blank_dsp\<lparr>g_pc := 1, g_iram := (\<lambda>_. 2)\<rparr>) = Inr s0 \<and>
     g_pc (run_rounds (\<lambda>s. op_inc 0x7600 (snd (dsp_fetch_code s))) 2 s0) = 2 \<and>
     uint (g_pc (run_rounds (\<lambda>s. op_inc 0x7600 (snd (dsp_fetch_code s))) 3 s0)) = 3"
proof -
  let ?s = "blank_dsp\<lparr>g_pc := 1, g_iram := (\<lambda>_. 2)\<rparr>"
  let ?body = "\<lambda>s. op_inc 0x7600 (snd (dsp_fetch_code s))"
  have "dsp_imem_read (g_pc ?s) ?s = 2" by (simp add: dsp_imem_read_def)
  moreover have "runs_body ?body 2 2"
    by (simp add: runs_body_def op_inc_def Let_def Update_SR_Register64_def dsp_set_long_acc_def
        dsp_fetch_code_def stack_view_def stack_wf_def)
  ultimately show ?thesis
    using bloopi_runs_count [of "0x1103" ?body ?s] by force
qed
end
