(* ===== verification/DSP_ExtOps.thy ===== *)
theory DSP_ExtOps
  imports DSP_IntUtil
begin

text \<open>
  The extension opcodes of \<^verbatim>\<open>Core/DSP/Interpreter/DSPIntExtOps.cpp\<close> (prefix \<open>Ext_\<close>) and the
  write-back log. An extension opcode runs before the main opcode on the same registers and leaves
  its results in the log; \<open>ApplyWriteBackLog\<close> stores them after the main opcode.

  The log has five entries and its reader stops at the first index \<open>-1\<close>; five used entries would
  make it read past the array, a \<open>MemoryFault\<close>.
\<close>

section \<open>The write-back log\<close>

definition WriteToBackLog :: "nat \<Rightarrow> nat \<Rightarrow> u16 \<Rightarrow> DSP \<Rightarrow> DSP" where
  "WriteToBackLog i idx value s =
    s\<lparr>writeBackLog := (writeBackLog s)(i := value),
      writeBackLogIdx := (writeBackLogIdx s)(i := int idx)\<rparr>"

text \<open>The first argument counts the array elements that are left from index \<open>i\<close> on.\<close>

fun apply_log :: "nat \<Rightarrow> nat \<Rightarrow> DSP \<Rightarrow> DSP result" where
  "apply_log 0 i s = Inl MemoryFault"
| "apply_log (Suc n) i s =
    (if writeBackLogIdx s i = -1 then Inr s
     else let s1 = dsp_op_write_reg (nat (writeBackLogIdx s i)) (writeBackLog s i) s
          in apply_log n (Suc i) (s1\<lparr>writeBackLogIdx := (writeBackLogIdx s1)(i := -1)\<rparr>))"

definition ApplyWriteBackLog :: "DSP \<Rightarrow> DSP result" where
  "ApplyWriteBackLog s = apply_log 5 0 s"

section \<open>Helpers\<close>

definition IsSameMemArea :: "u16 \<Rightarrow> u16 \<Rightarrow> bool" where
  "IsSameMemArea a b \<longleftrightarrow> drop_bit 10 a = drop_bit 10 b"

text \<open>The \<^verbatim>\<open>switch (sreg)\<close> of \<^verbatim>\<open>mv\<close>, \<^verbatim>\<open>s\<close> and \<^verbatim>\<open>sn\<close>.\<close>

definition ac_part :: "nat \<Rightarrow> DSP \<Rightarrow> u16" where
  "ac_part sreg s =
    (if sreg = 0x1c \<or> sreg = 0x1d then ac_l (sreg - DSP_REG_ACL0) s
     else dsp_op_read_reg_and_saturate (sreg - DSP_REG_ACM0) s)"

text \<open>
  The two loads of the \<^verbatim>\<open>ld\<close> and \<^verbatim>\<open>ldax\<close> families: when both addresses lie in the same page
  the second load repeats the first address.
\<close>

definition load_pair :: "nat \<Rightarrow> nat \<Rightarrow> nat \<Rightarrow> DSP \<Rightarrow> DSP result" where
  "load_pair sreg dst0 dst1 s =
    bind_res (dsp_dmem_read (r_ar s sreg) s) (\<lambda>(val0, s1).
      let s2 = WriteToBackLog 0 dst0 val0 s1
      in bind_res (dsp_dmem_read
             (if IsSameMemArea (r_ar s2 sreg) (r_ar s2 3) then r_ar s2 sreg else r_ar s2 3) s2)
           (\<lambda>(val1, s3). Inr (WriteToBackLog 1 dst1 val1 s3)))"

section \<open>Handlers\<close>

definition Ext_dr :: "UDSPInstruction \<Rightarrow> DSP \<Rightarrow> DSP result" where
  "Ext_dr opc s =
    (let reg = opc_field opc 0 0x3
     in Inr (WriteToBackLog 0 reg (dsp_decrement_addr_reg reg s) s))"

definition Ext_ir :: "UDSPInstruction \<Rightarrow> DSP \<Rightarrow> DSP result" where
  "Ext_ir opc s =
    (let reg = opc_field opc 0 0x3
     in Inr (WriteToBackLog 0 reg (dsp_increment_addr_reg reg s) s))"

definition Ext_nr :: "UDSPInstruction \<Rightarrow> DSP \<Rightarrow> DSP result" where
  "Ext_nr opc s =
    (let reg = opc_field opc 0 0x3
     in Inr (WriteToBackLog 0 reg (dsp_increase_addr_reg reg (r_ix s reg) s) s))"

definition Ext_mv :: "UDSPInstruction \<Rightarrow> DSP \<Rightarrow> DSP result" where
  "Ext_mv opc s =
    (let sreg = opc_field opc 0 0x3 + DSP_REG_ACL0;
         dreg = opc_field opc 2 0x3
     in Inr (WriteToBackLog 0 (dreg + DSP_REG_AXL0) (ac_part sreg s) s))"

definition Ext_s :: "UDSPInstruction \<Rightarrow> DSP \<Rightarrow> DSP result" where
  "Ext_s opc s =
    (let dreg = opc_field opc 0 0x3;
         sreg = opc_field opc 3 0x3 + DSP_REG_ACL0
     in bind_res (dsp_dmem_write (r_ar s dreg) (ac_part sreg s) s) (\<lambda>s1.
          Inr (WriteToBackLog 0 dreg (dsp_increment_addr_reg dreg s1) s1)))"

definition Ext_sn :: "UDSPInstruction \<Rightarrow> DSP \<Rightarrow> DSP result" where
  "Ext_sn opc s =
    (let dreg = opc_field opc 0 0x3;
         sreg = opc_field opc 3 0x3 + DSP_REG_ACL0
     in bind_res (dsp_dmem_write (r_ar s dreg) (ac_part sreg s) s) (\<lambda>s1.
          Inr (WriteToBackLog 0 dreg (dsp_increase_addr_reg dreg (r_ix s1 dreg) s1) s1)))"

definition Ext_l :: "UDSPInstruction \<Rightarrow> DSP \<Rightarrow> DSP result" where
  "Ext_l opc s =
    (let sreg = opc_field opc 0 0x3;
         dreg = opc_field opc 3 0x7 + DSP_REG_AXL0
     in if dreg \<ge> DSP_REG_ACM0 \<and> r_sr s AND SR_40_MODE_BIT \<noteq> 0 then
          bind_res (dsp_dmem_read (r_ar s sreg) s) (\<lambda>(val, s1).
            let s2 = WriteToBackLog 0 (dreg - DSP_REG_ACM0 + DSP_REG_ACH0)
                       (if val AND 0x8000 \<noteq> 0 then 0xFFFF else 0x0000) s1;
                s3 = WriteToBackLog 1 dreg val s2;
                s4 = WriteToBackLog 2 (dreg - DSP_REG_ACM0 + DSP_REG_ACL0) 0 s3
            in Inr (WriteToBackLog 3 sreg (dsp_increment_addr_reg sreg s4) s4))
        else
          bind_res (dsp_dmem_read (r_ar s sreg) s) (\<lambda>(val, s1).
            let s2 = WriteToBackLog 0 dreg val s1
            in Inr (WriteToBackLog 1 sreg (dsp_increment_addr_reg sreg s2) s2)))"

definition Ext_ln :: "UDSPInstruction \<Rightarrow> DSP \<Rightarrow> DSP result" where
  "Ext_ln opc s =
    (let sreg = opc_field opc 0 0x3;
         dreg = opc_field opc 3 0x7 + DSP_REG_AXL0
     in if dreg \<ge> DSP_REG_ACM0 \<and> r_sr s AND SR_40_MODE_BIT \<noteq> 0 then
          bind_res (dsp_dmem_read (r_ar s sreg) s) (\<lambda>(val, s1).
            let s2 = WriteToBackLog 0 (dreg - DSP_REG_ACM0 + DSP_REG_ACH0)
                       (if val AND 0x8000 \<noteq> 0 then 0xFFFF else 0x0000) s1;
                s3 = WriteToBackLog 1 dreg val s2;
                s4 = WriteToBackLog 2 (dreg - DSP_REG_ACM0 + DSP_REG_ACL0) 0 s3
            in Inr (WriteToBackLog 3 sreg (dsp_increase_addr_reg sreg (r_ix s4 sreg) s4) s4))
        else
          bind_res (dsp_dmem_read (r_ar s sreg) s) (\<lambda>(val, s1).
            let s2 = WriteToBackLog 0 dreg val s1
            in Inr (WriteToBackLog 1 sreg (dsp_increase_addr_reg sreg (r_ix s2 sreg) s2) s2)))"

definition Ext_ls :: "UDSPInstruction \<Rightarrow> DSP \<Rightarrow> DSP result" where
  "Ext_ls opc s =
    (let sreg = opc_field opc 0 0x1;
         dreg = opc_field opc 4 0x3 + DSP_REG_AXL0
     in bind_res (dsp_dmem_write (r_ar s 3) (dsp_op_read_reg_and_saturate sreg s) s) (\<lambda>s1.
          bind_res (dsp_dmem_read (r_ar s1 0) s1) (\<lambda>(val, s2).
            let s3 = WriteToBackLog 0 dreg val s2;
                s4 = WriteToBackLog 1 DSP_REG_AR3 (dsp_increment_addr_reg 3 s3) s3
            in Inr (WriteToBackLog 2 DSP_REG_AR0 (dsp_increment_addr_reg 0 s4) s4))))"

definition Ext_lsn :: "UDSPInstruction \<Rightarrow> DSP \<Rightarrow> DSP result" where
  "Ext_lsn opc s =
    (let sreg = opc_field opc 0 0x1;
         dreg = opc_field opc 4 0x3 + DSP_REG_AXL0
     in bind_res (dsp_dmem_write (r_ar s 3) (dsp_op_read_reg_and_saturate sreg s) s) (\<lambda>s1.
          bind_res (dsp_dmem_read (r_ar s1 0) s1) (\<lambda>(val, s2).
            let s3 = WriteToBackLog 0 dreg val s2;
                s4 = WriteToBackLog 1 DSP_REG_AR3 (dsp_increment_addr_reg 3 s3) s3
            in Inr (WriteToBackLog 2 DSP_REG_AR0 (dsp_increase_addr_reg 0 (r_ix s4 0) s4) s4))))"

definition Ext_lsm :: "UDSPInstruction \<Rightarrow> DSP \<Rightarrow> DSP result" where
  "Ext_lsm opc s =
    (let sreg = opc_field opc 0 0x1;
         dreg = opc_field opc 4 0x3 + DSP_REG_AXL0
     in bind_res (dsp_dmem_write (r_ar s 3) (dsp_op_read_reg_and_saturate sreg s) s) (\<lambda>s1.
          bind_res (dsp_dmem_read (r_ar s1 0) s1) (\<lambda>(val, s2).
            let s3 = WriteToBackLog 0 dreg val s2;
                s4 = WriteToBackLog 1 DSP_REG_AR3 (dsp_increase_addr_reg 3 (r_ix s3 3) s3) s3
            in Inr (WriteToBackLog 2 DSP_REG_AR0 (dsp_increment_addr_reg 0 s4) s4))))"

definition Ext_lsnm :: "UDSPInstruction \<Rightarrow> DSP \<Rightarrow> DSP result" where
  "Ext_lsnm opc s =
    (let sreg = opc_field opc 0 0x1;
         dreg = opc_field opc 4 0x3 + DSP_REG_AXL0
     in bind_res (dsp_dmem_write (r_ar s 3) (dsp_op_read_reg_and_saturate sreg s) s) (\<lambda>s1.
          bind_res (dsp_dmem_read (r_ar s1 0) s1) (\<lambda>(val, s2).
            let s3 = WriteToBackLog 0 dreg val s2;
                s4 = WriteToBackLog 1 DSP_REG_AR3 (dsp_increase_addr_reg 3 (r_ix s3 3) s3) s3
            in Inr (WriteToBackLog 2 DSP_REG_AR0 (dsp_increase_addr_reg 0 (r_ix s4 0) s4) s4))))"

definition Ext_sl :: "UDSPInstruction \<Rightarrow> DSP \<Rightarrow> DSP result" where
  "Ext_sl opc s =
    (let sreg = opc_field opc 0 0x1;
         dreg = opc_field opc 4 0x3 + DSP_REG_AXL0
     in bind_res (dsp_dmem_write (r_ar s 0) (dsp_op_read_reg_and_saturate sreg s) s) (\<lambda>s1.
          bind_res (dsp_dmem_read (r_ar s1 3) s1) (\<lambda>(val, s2).
            let s3 = WriteToBackLog 0 dreg val s2;
                s4 = WriteToBackLog 1 DSP_REG_AR3 (dsp_increment_addr_reg 3 s3) s3
            in Inr (WriteToBackLog 2 DSP_REG_AR0 (dsp_increment_addr_reg 0 s4) s4))))"

definition Ext_sln :: "UDSPInstruction \<Rightarrow> DSP \<Rightarrow> DSP result" where
  "Ext_sln opc s =
    (let sreg = opc_field opc 0 0x1;
         dreg = opc_field opc 4 0x3 + DSP_REG_AXL0
     in bind_res (dsp_dmem_write (r_ar s 0) (dsp_op_read_reg_and_saturate sreg s) s) (\<lambda>s1.
          bind_res (dsp_dmem_read (r_ar s1 3) s1) (\<lambda>(val, s2).
            let s3 = WriteToBackLog 0 dreg val s2;
                s4 = WriteToBackLog 1 DSP_REG_AR3 (dsp_increment_addr_reg 3 s3) s3
            in Inr (WriteToBackLog 2 DSP_REG_AR0 (dsp_increase_addr_reg 0 (r_ix s4 0) s4) s4))))"

definition Ext_slm :: "UDSPInstruction \<Rightarrow> DSP \<Rightarrow> DSP result" where
  "Ext_slm opc s =
    (let sreg = opc_field opc 0 0x1;
         dreg = opc_field opc 4 0x3 + DSP_REG_AXL0
     in bind_res (dsp_dmem_write (r_ar s 0) (dsp_op_read_reg_and_saturate sreg s) s) (\<lambda>s1.
          bind_res (dsp_dmem_read (r_ar s1 3) s1) (\<lambda>(val, s2).
            let s3 = WriteToBackLog 0 dreg val s2;
                s4 = WriteToBackLog 1 DSP_REG_AR3 (dsp_increase_addr_reg 3 (r_ix s3 3) s3) s3
            in Inr (WriteToBackLog 2 DSP_REG_AR0 (dsp_increment_addr_reg 0 s4) s4))))"

definition Ext_slnm :: "UDSPInstruction \<Rightarrow> DSP \<Rightarrow> DSP result" where
  "Ext_slnm opc s =
    (let sreg = opc_field opc 0 0x1;
         dreg = opc_field opc 4 0x3 + DSP_REG_AXL0
     in bind_res (dsp_dmem_write (r_ar s 0) (dsp_op_read_reg_and_saturate sreg s) s) (\<lambda>s1.
          bind_res (dsp_dmem_read (r_ar s1 3) s1) (\<lambda>(val, s2).
            let s3 = WriteToBackLog 0 dreg val s2;
                s4 = WriteToBackLog 1 DSP_REG_AR3 (dsp_increase_addr_reg 3 (r_ix s3 3) s3) s3
            in Inr (WriteToBackLog 2 DSP_REG_AR0 (dsp_increase_addr_reg 0 (r_ix s4 0) s4) s4))))"

definition Ext_ld :: "UDSPInstruction \<Rightarrow> DSP \<Rightarrow> DSP result" where
  "Ext_ld opc s =
    (let dreg = opc_field opc 5 0x1;
         rreg = opc_field opc 4 0x1;
         sreg = opc_field opc 0 0x3
     in bind_res (load_pair sreg (2 * dreg + DSP_REG_AXL0) (2 * rreg + DSP_REG_AXL1) s) (\<lambda>s2.
          let s3 = WriteToBackLog 2 sreg (dsp_increment_addr_reg sreg s2) s2
          in Inr (WriteToBackLog 3 DSP_REG_AR3 (dsp_increment_addr_reg 3 s3) s3)))"

definition Ext_ldax :: "UDSPInstruction \<Rightarrow> DSP \<Rightarrow> DSP result" where
  "Ext_ldax opc s =
    (let sreg = opc_field opc 5 0x1;
         rreg = opc_field opc 4 0x1
     in bind_res (load_pair sreg (rreg + DSP_REG_AXH0) (rreg + DSP_REG_AXL0) s) (\<lambda>s2.
          let s3 = WriteToBackLog 2 sreg (dsp_increment_addr_reg sreg s2) s2
          in Inr (WriteToBackLog 3 DSP_REG_AR3 (dsp_increment_addr_reg 3 s3) s3)))"

definition Ext_ldn :: "UDSPInstruction \<Rightarrow> DSP \<Rightarrow> DSP result" where
  "Ext_ldn opc s =
    (let dreg = opc_field opc 5 0x1;
         rreg = opc_field opc 4 0x1;
         sreg = opc_field opc 0 0x3
     in bind_res (load_pair sreg (2 * dreg + DSP_REG_AXL0) (2 * rreg + DSP_REG_AXL1) s) (\<lambda>s2.
          let s3 = WriteToBackLog 2 sreg (dsp_increase_addr_reg sreg (r_ix s2 sreg) s2) s2
          in Inr (WriteToBackLog 3 DSP_REG_AR3 (dsp_increment_addr_reg 3 s3) s3)))"

definition Ext_ldaxn :: "UDSPInstruction \<Rightarrow> DSP \<Rightarrow> DSP result" where
  "Ext_ldaxn opc s =
    (let sreg = opc_field opc 5 0x1;
         rreg = opc_field opc 4 0x1
     in bind_res (load_pair sreg (rreg + DSP_REG_AXH0) (rreg + DSP_REG_AXL0) s) (\<lambda>s2.
          let s3 = WriteToBackLog 2 sreg (dsp_increase_addr_reg sreg (r_ix s2 sreg) s2) s2
          in Inr (WriteToBackLog 3 DSP_REG_AR3 (dsp_increment_addr_reg 3 s3) s3)))"

definition Ext_ldm :: "UDSPInstruction \<Rightarrow> DSP \<Rightarrow> DSP result" where
  "Ext_ldm opc s =
    (let dreg = opc_field opc 5 0x1;
         rreg = opc_field opc 4 0x1;
         sreg = opc_field opc 0 0x3
     in bind_res (load_pair sreg (2 * dreg + DSP_REG_AXL0) (2 * rreg + DSP_REG_AXL1) s) (\<lambda>s2.
          let s3 = WriteToBackLog 2 sreg (dsp_increment_addr_reg sreg s2) s2
          in Inr (WriteToBackLog 3 DSP_REG_AR3 (dsp_increase_addr_reg 3 (r_ix s3 3) s3) s3)))"

definition Ext_ldaxm :: "UDSPInstruction \<Rightarrow> DSP \<Rightarrow> DSP result" where
  "Ext_ldaxm opc s =
    (let sreg = opc_field opc 5 0x1;
         rreg = opc_field opc 4 0x1
     in bind_res (load_pair sreg (rreg + DSP_REG_AXH0) (rreg + DSP_REG_AXL0) s) (\<lambda>s2.
          let s3 = WriteToBackLog 2 sreg (dsp_increment_addr_reg sreg s2) s2
          in Inr (WriteToBackLog 3 DSP_REG_AR3 (dsp_increase_addr_reg 3 (r_ix s3 3) s3) s3)))"

definition Ext_ldnm :: "UDSPInstruction \<Rightarrow> DSP \<Rightarrow> DSP result" where
  "Ext_ldnm opc s =
    (let dreg = opc_field opc 5 0x1;
         rreg = opc_field opc 4 0x1;
         sreg = opc_field opc 0 0x3
     in bind_res (load_pair sreg (2 * dreg + DSP_REG_AXL0) (2 * rreg + DSP_REG_AXL1) s) (\<lambda>s2.
          let s3 = WriteToBackLog 2 sreg (dsp_increase_addr_reg sreg (r_ix s2 sreg) s2) s2
          in Inr (WriteToBackLog 3 DSP_REG_AR3 (dsp_increase_addr_reg 3 (r_ix s3 3) s3) s3)))"

definition Ext_ldaxnm :: "UDSPInstruction \<Rightarrow> DSP \<Rightarrow> DSP result" where
  "Ext_ldaxnm opc s =
    (let sreg = opc_field opc 5 0x1;
         rreg = opc_field opc 4 0x1
     in bind_res (load_pair sreg (rreg + DSP_REG_AXH0) (rreg + DSP_REG_AXL0) s) (\<lambda>s2.
          let s3 = WriteToBackLog 2 sreg (dsp_increase_addr_reg sreg (r_ix s2 sreg) s2) s2
          in Inr (WriteToBackLog 3 DSP_REG_AR3 (dsp_increase_addr_reg 3 (r_ix s3 3) s3) s3)))"

definition Ext_nop :: "UDSPInstruction \<Rightarrow> DSP \<Rightarrow> DSP result" where
  "Ext_nop opc s =
    Inr s"

end
