(* ===== verification/DSP_AddrReg.thy ===== *)
theory DSP_AddrReg
  imports DSP_IntUtil
begin

text \<open>
  Circular addressing. A wrapping register \<^verbatim>\<open>wr[i]\<close> turns \<^verbatim>\<open>ar[i]\<close> into a cursor of a ring
  buffer of \<^verbatim>\<open>wr[i] + 1\<close> words whose last word has all its low bits set. The bit tricks of
  \<^verbatim>\<open>dsp_increment_addr_reg\<close> and \<^verbatim>\<open>dsp_decrement_addr_reg\<close> are shown to be the two directions
  of that ring.

  The locale \<open>ring_cursor\<close> is the contract of a cursor that can move both ways; it is
  interpreted on the instructions' state change for each address register.
\<close>

section \<open>A cursor on a ring\<close>

locale ring_cursor =
  fixes fwd bwd :: "'s \<Rightarrow> 's" and inside :: "'s \<Rightarrow> bool"
  assumes inside_fwd: "inside s \<Longrightarrow> inside (fwd s)"
    and inside_bwd: "inside s \<Longrightarrow> inside (bwd s)"
    and bwd_fwd: "inside s \<Longrightarrow> bwd (fwd s) = s"
    and fwd_bwd: "inside s \<Longrightarrow> fwd (bwd s) = s"
begin

lemma inside_fwds: "inside s \<Longrightarrow> inside ((fwd ^^ n) s)"
  by (induction n) (simp_all add: inside_fwd)

lemma inside_bwds: "inside s \<Longrightarrow> inside ((bwd ^^ n) s)"
  by (induction n) (simp_all add: inside_bwd)

lemma bwds_fwds: "inside s \<Longrightarrow> (bwd ^^ n) ((fwd ^^ n) s) = s"
proof (induction n)
  case (Suc n)
  have "(bwd ^^ Suc n) ((fwd ^^ Suc n) s) = (bwd ^^ n) (bwd (fwd ((fwd ^^ n) s)))"
    by (simp add: funpow_swap1)
  with Suc show ?case by (simp add: bwd_fwd inside_fwds)
qed simp

lemma fwds_bwds: "inside s \<Longrightarrow> (fwd ^^ n) ((bwd ^^ n) s) = s"
proof (induction n)
  case (Suc n)
  have "(fwd ^^ Suc n) ((bwd ^^ Suc n) s) = (fwd ^^ n) (fwd (bwd ((bwd ^^ n) s)))"
    by (simp add: funpow_swap1)
  with Suc show ?case by (simp add: fwd_bwd inside_bwds)
qed simp

end

section \<open>The ring of a wrapping register\<close>

text \<open>How many low bits the ring occupies.\<close>

function wrap_bits :: "nat \<Rightarrow> nat" where
  "wrap_bits w = (if w \<le> 1 then 1 else Suc (wrap_bits (w div 2)))"
  by auto
termination by (relation "measure id") auto

declare wrap_bits.simps [simp del]

definition in_window :: "nat \<Rightarrow> nat \<Rightarrow> bool" where
  "in_window a w \<longleftrightarrow> 2 ^ wrap_bits w - 1 - a mod 2 ^ wrap_bits w \<le> w"

definition ring_next :: "nat \<Rightarrow> nat \<Rightarrow> nat" where
  "ring_next w a = (if a mod 2 ^ wrap_bits w = 2 ^ wrap_bits w - 1 then a - w else a + 1)"

definition ring_prev :: "nat \<Rightarrow> nat \<Rightarrow> nat" where
  "ring_prev w a = (if a mod 2 ^ wrap_bits w + w = 2 ^ wrap_bits w - 1 then a + w else a - 1)"

lemma wrap_bits_less: "w < 2 ^ wrap_bits w"
proof (induction w rule: wrap_bits.induct)
  case (1 w)
  then show ?case by (cases "w \<le> 1") (auto simp: wrap_bits.simps [of w])
qed

lemma wrap_bits_pos: "0 < wrap_bits w"
  by (simp add: wrap_bits.simps [of w])

lemma wrap_bits_lower: "1 < w \<Longrightarrow> 2 ^ wrap_bits w \<le> 2 * w"
proof (induction w rule: wrap_bits.induct)
  case (1 w)
  show ?case
  proof (cases "1 < w div 2")
    case True
    then have "2 ^ wrap_bits (w div 2) \<le> 2 * (w div 2)" using 1 by simp
    then show ?thesis using 1(2) by (simp add: wrap_bits.simps [of w])
  next
    case False
    then have "w div 2 = 1" using 1(2) by linarith
    then show ?thesis using 1(2) by (simp add: wrap_bits.simps [of w] wrap_bits.simps [of "Suc 0"])
  qed
qed

lemma or_1_cases: "(w :: nat) OR Suc 0 = (if even w then w + 1 else w)"
  by (simp add: or_Suc_0_eq)

lemma wrap_bits_or:
  "(w OR 1) < 2 ^ wrap_bits w" "2 ^ wrap_bits w \<le> 2 * (w OR 1)"
proof -
  have e: "even (2 ^ wrap_bits w :: nat)" using wrap_bits_pos [of w] by simp
  have "Suc w < 2 ^ wrap_bits w" if "even w"
    using wrap_bits_less [of w] e that by (intro Suc_lessI) (metis even_Suc)+
  then show "(w OR 1) < 2 ^ wrap_bits w"
    using wrap_bits_less [of w] by (simp add: or_1_cases)
  show "2 ^ wrap_bits w \<le> 2 * (w OR 1)"
    using wrap_bits_lower [of w] by (cases "1 < w") (auto simp: or_1_cases wrap_bits.simps [of w] not_less le_Suc_eq)
qed

lemma wrap_bits_le_16: "w < 65536 \<Longrightarrow> wrap_bits w \<le> 16"
proof -
  assume "w < 65536"
  have "2 ^ wrap_bits w < (2 :: nat) ^ 17"
  proof (cases "1 < w")
    case True
    then show ?thesis using wrap_bits_lower [of w] \<open>w < 65536\<close> by simp
  qed (simp add: wrap_bits.simps [of w])
  then have "wrap_bits w < 17" by (subst (asm) power_strict_increasing_iff) simp_all
  then show ?thesis by simp
qed

section \<open>The exclusive-or tests\<close>

lemma div_mod_unique_nat:
  assumes "n = q * d + r" "r < (d :: nat)"
  shows "n div d = q" "n mod d = r"
  using assms by simp_all

lemma bit_imp_ge:
  assumes "bit (x :: nat) L"
  shows "2 ^ L \<le> x"
proof (rule ccontr)
  assume "\<not> 2 ^ L \<le> x"
  then have "x div 2 ^ L = 0" by simp
  with assms show False by (simp add: bit_iff_odd)
qed

lemma less_exp_of_div: "x div 2 ^ L = 0 \<Longrightarrow> x < (2 ^ L :: nat)"
  by (simp add: div_eq_0_iff)

lemma xor_succ_inside:
  assumes "a mod 2 ^ L \<noteq> 2 ^ L - (1 :: nat)"
  shows "(a + 1) XOR a < 2 ^ L"
proof -
  have "(a + 1) div 2 ^ L = a div 2 ^ L"
    using assms by (auto simp: div_Suc mod_Suc)
  then have "drop_bit L ((a + 1) XOR a) = 0"
    by (simp only: drop_bit_xor) (simp add: drop_bit_eq_div)
  then show ?thesis by (intro less_exp_of_div) (simp add: drop_bit_eq_div)
qed

lemma xor_succ_top:
  assumes "a mod 2 ^ L = 2 ^ L - (1 :: nat)"
  shows "2 ^ Suc L - 1 \<le> (a + 1) XOR a"
proof -
  let ?x = "(a + 1) XOR a"
  have p: "(0 :: nat) < 2 ^ L" by simp
  have suc: "(a + 1) mod 2 ^ L = 0" "(a + 1) div 2 ^ L = a div 2 ^ L + 1"
    using assms p by (auto simp: mod_Suc div_Suc)
  have "take_bit L ?x = 2 ^ L - 1"
    using suc(1) assms by (simp only: take_bit_xor) (simp add: take_bit_eq_mod)
  moreover have "drop_bit L ?x \<noteq> 0"
  proof -
    have "drop_bit L ?x = (a div 2 ^ L + 1) XOR (a div 2 ^ L)"
      using suc(2) by (simp only: drop_bit_xor) (simp add: drop_bit_eq_div)
    moreover have "bit ((n + 1) XOR n) 0" for n :: nat by (simp only: bit_xor_iff) (simp add: bit_0)
    ultimately have "bit (drop_bit L ?x) 0" by (simp only:)
    then show ?thesis by (metis bit_0 dvd_0_right)
  qed
  moreover have "?x = drop_bit L ?x * 2 ^ L + take_bit L ?x"
    by (simp only: drop_bit_eq_div take_bit_eq_mod div_mult_mod_eq)
  ultimately have "1 * 2 ^ L + (2 ^ L - 1) \<le> ?x"
    by (metis add_le_mono1 less_one mult_le_mono1 not_less)
  then show ?thesis by simp
qed

lemma and_le_nat: "(x :: nat) AND y \<le> x"
  by (metis AND_upper1 of_nat_0_le_iff of_nat_and_eq of_nat_le_iff)

lemma mask_xor_low:
  assumes "x < 2 ^ L"
  shows "(2 ^ L - 1) XOR x = 2 ^ L - 1 - (x :: nat)"
proof -
  have tx: "take_bit L (int x) = int x" using assms by (simp add: take_bit_int_eq_self)
  have "mask L XOR int x = take_bit L (NOT (int x))"
    by (rule bit_eqI) (subst tx [symmetric], auto simp: bit_xor_iff bit_mask_iff bit_take_bit_iff bit_not_iff)
  also have "\<dots> = mask L - int x" by (simp only: take_bit_not_eq_mask_diff tx)
  finally have "int ((2 ^ L - 1) XOR x) = int (2 ^ L - 1 - x)"
    using assms by (simp add: of_nat_xor_eq mask_eq_exp_minus_1 of_nat_diff)
  then show ?thesis by (simp only: of_nat_eq_iff)
qed

text \<open>Going back: the test tells whether adding \<^verbatim>\<open>wr\<close> carries out of the ring's bits.\<close>

lemma xor_plus_inside:
  assumes "a mod 2 ^ L + w = 2 ^ L - (1 :: nat)"
  shows "(a + w) XOR a = w"
proof -
  have p: "(0 :: nat) < 2 ^ L" by simp
  have w: "w < 2 ^ L" using assms p by linarith
  have sum: "(a + w) mod 2 ^ L = 2 ^ L - 1" "(a + w) div 2 ^ L = a div 2 ^ L"
  proof -
    have "a + w = a div 2 ^ L * 2 ^ L + (a mod 2 ^ L + w)"
      by (simp only: add.assoc [symmetric] div_mult_mod_eq)
    then have "a + w = a div 2 ^ L * 2 ^ L + (2 ^ L - 1)" by (simp only: assms)
    from div_mod_unique_nat [OF this]
    show "(a + w) mod 2 ^ L = 2 ^ L - 1" "(a + w) div 2 ^ L = a div 2 ^ L" using p by simp_all
  qed
  have "take_bit L ((a + w) XOR a) = w"
    using sum(1) mask_xor_low [of "a mod 2 ^ L" L] assms by (simp only: take_bit_xor) (simp add: take_bit_eq_mod)
  moreover have "drop_bit L ((a + w) XOR a) = 0"
    using sum(2) by (simp only: drop_bit_xor) (simp add: drop_bit_eq_div)
  ultimately show ?thesis
    by (metis bits_ident add_0 push_bit_of_0)
qed

lemma xor_plus_carry:
  assumes "w < 2 ^ L" "2 ^ L \<le> a mod 2 ^ L + (w :: nat)"
  shows "bit ((a + w) XOR a) L"
proof -
  have p: "(0 :: nat) < 2 ^ L" by simp
  have m: "a mod 2 ^ L < 2 ^ L" by simp
  have "a + w = a div 2 ^ L * 2 ^ L + (a mod 2 ^ L + w)"
    by (simp only: add.assoc [symmetric] div_mult_mod_eq)
  also have "\<dots> = (a div 2 ^ L + 1) * 2 ^ L + (a mod 2 ^ L + w - 2 ^ L)" using assms(2) by simp
  finally have "(a + w) div 2 ^ L = a div 2 ^ L + 1"
    by (rule div_mod_unique_nat) (use m assms(1) in linarith)
  then show ?thesis by (simp only: bit_xor_iff) (simp add: bit_iff_odd)
qed

section \<open>The code moves along the ring\<close>

lemma unat_ucast_u16: "unat (ucast (x :: u16) :: u32) = unat x"
  using unat_u16_less [of x] by (simp add: unsigned_ucast_eq take_bit_nat_eq_self)

lemma unat_mx: "unat (push_bit 1 (ucast (x :: u16) OR 1) :: u32) = 2 * (unat x OR 1)"
proof -
  have "unat x OR 1 < 65536" using unat_u16_less [of x] by (simp add: or_1_cases) presburger
  moreover have u: "unat (ucast x OR 1 :: u32) = unat x OR 1"
    by (simp only: unsigned_or_eq unat_ucast_u16) simp
  ultimately show ?thesis using unat_push_bit [of "ucast x OR 1 :: u32" 1] by simp
qed

lemma top_mod: "L \<le> 16 \<Longrightarrow> 65535 mod 2 ^ L = 2 ^ L - (1 :: nat)"
proof -
  assume "L \<le> 16"
  then have "take_bit L (mask 16 :: nat) = mask L" by (simp add: take_bit_of_mask min_def)
  then show ?thesis by (simp add: take_bit_eq_mod mask_eq_exp_minus_1)
qed

lemma ring_top_le:
  assumes "a < 65536" "L \<le> 16"
  shows "a - a mod 2 ^ L + (2 ^ L - 1) < (65536 :: nat)"
proof -
  have "(65535 :: nat) = 65535 div 2 ^ L * 2 ^ L + (2 ^ L - 1)"
    using div_mult_mod_eq [of 65535 "2 ^ L :: nat"] top_mod [OF assms(2)] by simp
  moreover have "a div 2 ^ L \<le> 65535 div 2 ^ L" using assms(1) by (intro div_le_mono) simp
  then have "a div 2 ^ L * 2 ^ L \<le> 65535 div 2 ^ L * 2 ^ L" by (rule mult_le_mono1)
  ultimately have "a div 2 ^ L * 2 ^ L + (2 ^ L - 1) \<le> 65535" by linarith
  then show ?thesis by (simp add: minus_mod_eq_div_mult)
qed

lemma increment_ring:
  "unat (dsp_increment_addr_reg reg s) = ring_next (unat (r_wr s reg)) (unat (r_ar s reg))"
proof -
  define a w L where "a = unat (r_ar s reg)" and "w = unat (r_wr s reg)" and "L = wrap_bits w"
  let ?ar = "ucast (r_ar s reg) :: u32" and ?wr = "ucast (r_wr s reg) :: u32"
  have a: "a < 65536" and w: "w < 65536" unfolding a_def w_def by (rule unat_u16_less)+
  have n: "unat (?ar + 1) = a + 1"
    using a by (subst unat_add_lem [THEN iffD1]) (simp_all add: unat_ucast_u16 a_def)
  have test: "?ar + 1 XOR ?ar > push_bit 1 (?wr OR 1) \<longleftrightarrow> 2 * (w OR 1) < (a + 1 XOR a)"
    by (simp only: word_less_nat_alt unat_mx unsigned_xor_eq n unat_ucast_u16 w_def a_def)
  have test2: "2 * (w OR 1) < (a + 1 XOR a) \<longleftrightarrow> a mod 2 ^ L = 2 ^ L - 1"
    using wrap_bits_or [of w] xor_succ_inside [of a L] xor_succ_top [of a L]
    by (cases "a mod 2 ^ L = 2 ^ L - 1") (auto simp: L_def)
  have L: "(2 :: nat) ^ L \<le> 65536"
    using power_increasing [of L 16 "2 :: nat"] wrap_bits_le_16 [OF w] by (simp add: L_def)
  show ?thesis
  proof (cases "a mod 2 ^ L = 2 ^ L - 1")
    case True
    have le: "w \<le> a" using wrap_bits_less [of w] True mod_less_eq_dividend [of a "2 ^ L"] by (simp add: L_def)
    have "unat (?ar + 1 - (?wr + 1)) = a - w"
      using le by (simp add: unat_sub word_le_nat_alt unat_ucast_u16 a_def w_def)
    then have "unat (ucast (?ar + 1 - (?wr + 1)) :: u16) = a - w"
      using a by (simp add: unsigned_ucast_eq take_bit_nat_eq_self)
    then show ?thesis
      using True test test2 by (simp add: dsp_increment_addr_reg_def Let_def ring_next_def a_def w_def L_def)
  next
    case False
    have "a \<noteq> 65535"
    proof
      assume "a = 65535"
      then have "a mod 2 ^ L = 2 ^ L - 1"
        using wrap_bits_le_16 [OF w] top_mod [of L] by (simp add: L_def)
      with False show False by simp
    qed
    then have "unat (ucast (?ar + 1) :: u16) = a + 1"
      using a n by (simp add: unsigned_ucast_eq take_bit_nat_eq_self)
    then show ?thesis
      using False test test2 by (simp add: dsp_increment_addr_reg_def Let_def ring_next_def a_def w_def L_def)
  qed
qed

lemma decrement_ring:
  assumes "in_window (unat (r_ar s reg)) (unat (r_wr s reg))"
  shows "unat (dsp_decrement_addr_reg reg s) = ring_prev (unat (r_wr s reg)) (unat (r_ar s reg))"
proof -
  define a w L where "a = unat (r_ar s reg)" and "w = unat (r_wr s reg)" and "L = wrap_bits w"
  let ?ar = "ucast (r_ar s reg) :: u32" and ?wr = "ucast (r_wr s reg) :: u32"
  have a: "a < 65536" and w: "w < 65536" unfolding a_def w_def by (rule unat_u16_less)+
  have wL: "w < 2 ^ L" and L16: "L \<le> 16"
    using wrap_bits_less wrap_bits_le_16 [OF w] by (simp_all add: L_def)
  have n: "unat (?ar + ?wr) = a + w"
    using a w by (subst unat_add_lem [THEN iffD1]) (simp_all add: unat_ucast_u16 a_def w_def)
  have win: "2 ^ L - 1 \<le> a mod 2 ^ L + w" using assms by (simp add: in_window_def a_def w_def L_def)
  have test: "(?ar + ?wr XOR ?ar) AND push_bit 1 (?wr OR 1) > ?wr \<longleftrightarrow>
      w < ((a + w XOR a) AND 2 * (w OR 1))"
    by (simp only: word_less_nat_alt unat_mx unsigned_xor_eq unsigned_and_eq n unat_ucast_u16 w_def a_def)
  show ?thesis
  proof (cases "a mod 2 ^ L + w = 2 ^ L - 1")
    case True
    have "\<not> w < ((a + w XOR a) AND 2 * (w OR 1))"
      using xor_plus_inside [OF True] and_le_nat [of w "2 * (w OR 1)"] by (simp add: not_less)
    moreover have "a + w = a - a mod 2 ^ L + (2 ^ L - 1)"
      using True mod_less_eq_dividend [of a "2 ^ L"] by linarith
    then have "a + w < 65536" using ring_top_le [OF a L16] by simp
    then have "unat (ucast (?ar + ?wr) :: u16) = a + w"
      using n by (simp add: unsigned_ucast_eq take_bit_nat_eq_self)
    ultimately show ?thesis
      using True test by (simp add: dsp_decrement_addr_reg_def Let_def ring_prev_def a_def w_def L_def)
  next
    case False
    then have carry: "2 ^ L \<le> a mod 2 ^ L + w" using win by linarith
    then have pos: "1 \<le> a" using wL by (cases a) auto
    have "bit (2 * (w OR 1)) L"
    proof -
      obtain k where k: "L = Suc k" using wrap_bits_pos [of w] by (cases L) (auto simp: L_def)
      then have "(w OR 1) div 2 ^ k = 1"
        using wrap_bits_or [of w] by (intro div_nat_eqI) (auto simp: L_def)
      then show ?thesis by (simp add: k bit_iff_odd div_mult2_eq)
    qed
    then have "bit ((a + w XOR a) AND 2 * (w OR 1)) L"
      using xor_plus_carry [OF wL carry] by (simp add: bit_and_iff)
    then have "2 ^ L \<le> ((a + w XOR a) AND 2 * (w OR 1))" by (rule bit_imp_ge)
    then have t: "w < ((a + w XOR a) AND 2 * (w OR 1))" using wL by linarith
    have "unat (?ar + ?wr - (?wr + 1)) = a - 1"
      using pos unat_minus_one [of ?ar] unat_eq_0 [of ?ar] by (simp add: unat_ucast_u16 a_def)
    then have "unat (ucast (?ar + ?wr - (?wr + 1)) :: u16) = a - 1"
      using a by (simp add: unsigned_ucast_eq take_bit_nat_eq_self)
    then show ?thesis
      using False test t by (simp add: dsp_decrement_addr_reg_def Let_def ring_prev_def a_def w_def L_def)
  qed
qed

section \<open>Both directions are inverse\<close>

lemma ring_next_prev:
  assumes "in_window a w"
  shows "in_window (ring_next w a) w" "ring_prev w (ring_next w a) = a"
proof -
  define d q r where "d = (2 :: nat) ^ wrap_bits w" and "q = a div d" and "r = a mod d"
  have d: "0 < d" and w: "w < d" using wrap_bits_less by (simp_all add: d_def)
  have a: "a = q * d + r" and r: "r < d" using d by (simp_all add: q_def r_def)
  have win: "d - 1 - r \<le> w" using assms by (simp add: in_window_def d_def r_def)
  have "in_window (ring_next w a) w \<and> ring_prev w (ring_next w a) = a"
  proof (cases "r = d - 1")
    case True
    then have nx: "ring_next w a = q * d + (d - 1 - w)" unfolding ring_next_def d_def [symmetric] r_def [symmetric] using a w by simp
    have m: "(q * d + (d - 1 - w)) mod d = d - 1 - w" using d by (intro div_mod_unique_nat(2) [OF refl]) simp
    show "in_window (ring_next w a) w \<and> ring_prev w (ring_next w a) = a"
      unfolding nx in_window_def ring_prev_def d_def [symmetric] m using w a True by simp_all
  next
    case False
    then have nx: "ring_next w a = q * d + (r + 1)" unfolding ring_next_def d_def [symmetric] r_def [symmetric] using a by simp
    have m: "(q * d + (r + 1)) mod d = r + 1" using r False by simp
    show "in_window (ring_next w a) w \<and> ring_prev w (ring_next w a) = a"
      unfolding nx in_window_def ring_prev_def d_def [symmetric] m using win r a False by (simp, linarith)
  qed
  then show "in_window (ring_next w a) w" "ring_prev w (ring_next w a) = a" by simp_all
qed

lemma ring_prev_next:
  assumes "in_window a w"
  shows "in_window (ring_prev w a) w" "ring_next w (ring_prev w a) = a"
proof -
  define d q r where "d = (2 :: nat) ^ wrap_bits w" and "q = a div d" and "r = a mod d"
  have d: "0 < d" and w: "w < d" using wrap_bits_less by (simp_all add: d_def)
  have a: "a = q * d + r" and r: "r < d" using d by (simp_all add: q_def r_def)
  have win: "d - 1 - r \<le> w" using assms by (simp add: in_window_def d_def r_def)
  have "in_window (ring_prev w a) w \<and> ring_next w (ring_prev w a) = a"
  proof (cases "r + w = d - 1")
    case True
    then have pv: "ring_prev w a = q * d + (d - 1)" unfolding ring_prev_def d_def [symmetric] r_def [symmetric] using a by simp
    have m: "(q * d + (d - 1)) mod d = d - 1" using d by (intro div_mod_unique_nat(2) [OF refl]) simp
    show "in_window (ring_prev w a) w \<and> ring_next w (ring_prev w a) = a"
      unfolding pv in_window_def ring_next_def d_def [symmetric] m using w a True by simp_all
  next
    case False
    then have r1: "1 \<le> r" using win w by linarith
    have pv: "ring_prev w a = q * d + (r - 1)"
      unfolding ring_prev_def d_def [symmetric] r_def [symmetric] using a r1 False by simp
    have m: "(q * d + (r - 1)) mod d = r - 1" using r by simp
    show "in_window (ring_prev w a) w \<and> ring_next w (ring_prev w a) = a"
      unfolding pv in_window_def ring_next_def d_def [symmetric] m using win r a r1 False by (simp, linarith)
  qed
  then show "in_window (ring_prev w a) w" "ring_next w (ring_prev w a) = a" by simp_all
qed

definition ar_in_window :: "nat \<Rightarrow> DSP \<Rightarrow> bool" where
  "ar_in_window reg s \<longleftrightarrow> in_window (unat (r_ar s reg)) (unat (r_wr s reg))"

definition ar_fwd :: "nat \<Rightarrow> DSP \<Rightarrow> DSP" where
  "ar_fwd reg s = set_ar reg (dsp_increment_addr_reg reg s) s"

definition ar_bwd :: "nat \<Rightarrow> DSP \<Rightarrow> DSP" where
  "ar_bwd reg s = set_ar reg (dsp_decrement_addr_reg reg s) s"

lemma set_ar_back: "v = r_ar s reg \<Longrightarrow> set_ar reg v (set_ar reg u s) = s"
  by (simp add: set_ar_def)

lemma ar_set_ar: "r_ar (set_ar reg v s) reg = v" "r_wr (set_ar reg v s) = r_wr s"
  by (simp_all add: set_ar_def)

lemma ring_cursor_ar: "ring_cursor (ar_fwd reg) (ar_bwd reg) (ar_in_window reg)"
proof
  fix s assume win: "ar_in_window reg s"
  note w = win [unfolded ar_in_window_def]
  show f: "ar_in_window reg (ar_fwd reg s)"
    using ring_next_prev [OF w] by (simp add: ar_in_window_def ar_fwd_def ar_set_ar increment_ring)
  show b: "ar_in_window reg (ar_bwd reg s)"
    using ring_prev_next [OF w] by (simp add: ar_in_window_def ar_bwd_def ar_set_ar decrement_ring w)
  have "unat (dsp_decrement_addr_reg reg (ar_fwd reg s)) = unat (r_ar s reg)"
    using decrement_ring [OF f [unfolded ar_in_window_def]] ring_next_prev(2) [OF w]
    by (simp add: ar_fwd_def ar_set_ar increment_ring)
  then show "ar_bwd reg (ar_fwd reg s) = s"
    unfolding ar_bwd_def by (subst (2) ar_fwd_def, intro set_ar_back) (simp add: word_unat_eq_iff)
  have "unat (dsp_increment_addr_reg reg (ar_bwd reg s)) = unat (r_ar s reg)"
    using increment_ring [of reg "ar_bwd reg s"] ring_prev_next(2) [OF w]
    by (simp add: ar_bwd_def ar_set_ar decrement_ring w)
  then show "ar_fwd reg (ar_bwd reg s) = s"
    unfolding ar_fwd_def by (subst (2) ar_bwd_def, intro set_ar_back) (simp add: word_unat_eq_iff)
qed

interpretation ar0: ring_cursor "ar_fwd 0" "ar_bwd 0" "ar_in_window 0" by (rule ring_cursor_ar)
interpretation ar1: ring_cursor "ar_fwd 1" "ar_bwd 1" "ar_in_window 1" by (rule ring_cursor_ar)
interpretation ar2: ring_cursor "ar_fwd 2" "ar_bwd 2" "ar_in_window 2" by (rule ring_cursor_ar)
interpretation ar3: ring_cursor "ar_fwd 3" "ar_bwd 3" "ar_in_window 3" by (rule ring_cursor_ar)

text \<open>
  C37. Address register stepping by one walks a ring: within the window that the wrapping register
  selects, incrementing and decrementing an address register are inverse to each other for any number of
  steps and stay in the window, and a step changes the register to its ring neighbour.
\<close>

theorem address_ring:
  assumes "ar_in_window reg s"
  shows "unat (dsp_increment_addr_reg reg s) = ring_next (unat (r_wr s reg)) (unat (r_ar s reg)) \<and>
    unat (dsp_decrement_addr_reg reg s) = ring_prev (unat (r_wr s reg)) (unat (r_ar s reg)) \<and>
    ((\<lambda>t. set_ar reg (dsp_decrement_addr_reg reg t) t) ^^ n)
      (((\<lambda>t. set_ar reg (dsp_increment_addr_reg reg t) t) ^^ n) s) = s \<and>
    ar_in_window reg (((\<lambda>t. set_ar reg (dsp_increment_addr_reg reg t) t) ^^ n) s)"
  using ring_cursor.bwds_fwds [OF ring_cursor_ar assms, of n] ring_cursor.inside_fwds [OF ring_cursor_ar assms, of n]
    increment_ring [of reg s] decrement_ring [of s reg] assms
  by (simp add: ar_fwd_def [abs_def] ar_bwd_def [abs_def] ar_in_window_def)

theorem address_ring_witness:
  "unat (dsp_increment_addr_reg 2 (blank_dsp\<lparr>r_ar := (\<lambda>_. 0x107), r_wr := (\<lambda>_. 7)\<rparr>)) = 0x100 \<and>
   ((\<lambda>t. set_ar 2 (dsp_decrement_addr_reg 2 t) t) ^^ 5)
      (((\<lambda>t. set_ar 2 (dsp_increment_addr_reg 2 t) t) ^^ 5) (blank_dsp\<lparr>r_ar := (\<lambda>_. 0x107), r_wr := (\<lambda>_. 7)\<rparr>)) =
     blank_dsp\<lparr>r_ar := (\<lambda>_. 0x107), r_wr := (\<lambda>_. 7)\<rparr>"
proof -
  have w: "wrap_bits 7 = 3" by (simp add: wrap_bits.simps)
  have "ar_in_window 2 (blank_dsp\<lparr>r_ar := (\<lambda>_. 0x107), r_wr := (\<lambda>_. 7)\<rparr>)"
    by (simp add: ar_in_window_def in_window_def w)
  from address_ring [OF this, of 5] show ?thesis by (simp add: ring_next_def w)
qed

end
