(* ===== verification/DSP_Interpreter.thy ===== *)
theory DSP_Interpreter
  imports DSP_Arithmetic DSP_Multiplier DSP_LoadStore DSP_Branch DSP_ExtOps DSP_AddrReg
begin

text \<open>
  The interpreter: the dispatch tables of \<^verbatim>\<open>Core/DSP/Interpreter/DSPIntTables.cpp\<close>, and
  \<^verbatim>\<open>ExecuteInstruction\<close>, \<^verbatim>\<open>Step\<close> and the run loops of
  \<^verbatim>\<open>Core/DSP/Interpreter/DSPInterpreter.cpp\<close>, with \<^verbatim>\<open>DSPCore_RunCycles\<close> of
  \<^verbatim>\<open>Core/DSP/DSPCore.cpp\<close>.

  The run loops recurse on the cycle budget, which every step decreases, so they are total
  functions. \<^verbatim>\<open>DSPCore_RunCycles\<close> may spin (state \<open>Stopped\<close>) or block (state \<open>Stepping\<close>);
  it takes a bound on the rounds of its \<^verbatim>\<open>while\<close> loop, and not returning is \<open>None\<close>.
\<close>

section \<open>Dispatch tables\<close>

type_synonym InterpreterFunction = "UDSPInstruction \<Rightarrow> DSP \<Rightarrow> DSP result"

datatype InterpreterOpInfo =
  OpInfo (io_opcode: u16) (io_opcode_mask: u16) (io_function: InterpreterFunction)

definition total :: "(UDSPInstruction \<Rightarrow> DSP \<Rightarrow> DSP) \<Rightarrow> InterpreterFunction" where
  "total f opc s = Inr (f opc s)"

text \<open>\<^verbatim>\<open>nop\<close> also handles unknown words; it only logs them.\<close>

definition op_nop :: "UDSPInstruction \<Rightarrow> DSP \<Rightarrow> DSP" where
  "op_nop opc s = s"

definition int_opcodes_1 :: "InterpreterOpInfo list" where
  "int_opcodes_1 =
    [OpInfo 0x0000 0xfffc (total op_nop),
     OpInfo 0x0004 0xfffc (total op_dar),
     OpInfo 0x0008 0xfffc (total op_iar),
     OpInfo 0x000c 0xfffc (total op_subarn),
     OpInfo 0x0010 0xfff0 (total op_addarn),
     OpInfo 0x0021 0xffff (total op_halt),
     OpInfo 0x02d0 0xffff (total op_ret),
     OpInfo 0x02d1 0xffff (total op_ret),
     OpInfo 0x02d2 0xffff (total op_ret),
     OpInfo 0x02d3 0xffff (total op_ret),
     OpInfo 0x02d4 0xffff (total op_ret),
     OpInfo 0x02d5 0xffff (total op_ret),
     OpInfo 0x02d6 0xffff (total op_ret),
     OpInfo 0x02d7 0xffff (total op_ret),
     OpInfo 0x02d8 0xffff (total op_ret),
     OpInfo 0x02d9 0xffff (total op_ret),
     OpInfo 0x02da 0xffff (total op_ret),
     OpInfo 0x02db 0xffff (total op_ret),
     OpInfo 0x02dc 0xffff (total op_ret),
     OpInfo 0x02dd 0xffff (total op_ret),
     OpInfo 0x02de 0xffff (total op_ret),
     OpInfo 0x02df 0xffff (total op_ret),
     OpInfo 0x02ff 0xffff (total op_rti),
     OpInfo 0x02b0 0xffff (total op_call),
     OpInfo 0x02b1 0xffff (total op_call),
     OpInfo 0x02b2 0xffff (total op_call),
     OpInfo 0x02b3 0xffff (total op_call),
     OpInfo 0x02b4 0xffff (total op_call),
     OpInfo 0x02b5 0xffff (total op_call),
     OpInfo 0x02b6 0xffff (total op_call),
     OpInfo 0x02b7 0xffff (total op_call),
     OpInfo 0x02b8 0xffff (total op_call),
     OpInfo 0x02b9 0xffff (total op_call),
     OpInfo 0x02ba 0xffff (total op_call),
     OpInfo 0x02bb 0xffff (total op_call),
     OpInfo 0x02bc 0xffff (total op_call),
     OpInfo 0x02bd 0xffff (total op_call),
     OpInfo 0x02be 0xffff (total op_call),
     OpInfo 0x02bf 0xffff (total op_call)]"

definition int_opcodes_2 :: "InterpreterOpInfo list" where
  "int_opcodes_2 =
    [OpInfo 0x0270 0xffff op_ifcc,
     OpInfo 0x0271 0xffff op_ifcc,
     OpInfo 0x0272 0xffff op_ifcc,
     OpInfo 0x0273 0xffff op_ifcc,
     OpInfo 0x0274 0xffff op_ifcc,
     OpInfo 0x0275 0xffff op_ifcc,
     OpInfo 0x0276 0xffff op_ifcc,
     OpInfo 0x0277 0xffff op_ifcc,
     OpInfo 0x0278 0xffff op_ifcc,
     OpInfo 0x0279 0xffff op_ifcc,
     OpInfo 0x027a 0xffff op_ifcc,
     OpInfo 0x027b 0xffff op_ifcc,
     OpInfo 0x027c 0xffff op_ifcc,
     OpInfo 0x027d 0xffff op_ifcc,
     OpInfo 0x027e 0xffff op_ifcc,
     OpInfo 0x027f 0xffff op_ifcc,
     OpInfo 0x0290 0xffff (total op_jcc),
     OpInfo 0x0291 0xffff (total op_jcc),
     OpInfo 0x0292 0xffff (total op_jcc),
     OpInfo 0x0293 0xffff (total op_jcc),
     OpInfo 0x0294 0xffff (total op_jcc),
     OpInfo 0x0295 0xffff (total op_jcc),
     OpInfo 0x0296 0xffff (total op_jcc),
     OpInfo 0x0297 0xffff (total op_jcc),
     OpInfo 0x0298 0xffff (total op_jcc),
     OpInfo 0x0299 0xffff (total op_jcc),
     OpInfo 0x029a 0xffff (total op_jcc),
     OpInfo 0x029b 0xffff (total op_jcc),
     OpInfo 0x029c 0xffff (total op_jcc),
     OpInfo 0x029d 0xffff (total op_jcc),
     OpInfo 0x029e 0xffff (total op_jcc),
     OpInfo 0x029f 0xffff (total op_jcc),
     OpInfo 0x1700 0xff1f (total op_jmprcc),
     OpInfo 0x1701 0xff1f (total op_jmprcc),
     OpInfo 0x1702 0xff1f (total op_jmprcc),
     OpInfo 0x1703 0xff1f (total op_jmprcc),
     OpInfo 0x1704 0xff1f (total op_jmprcc),
     OpInfo 0x1705 0xff1f (total op_jmprcc),
     OpInfo 0x1706 0xff1f (total op_jmprcc),
     OpInfo 0x1707 0xff1f (total op_jmprcc),
     OpInfo 0x1708 0xff1f (total op_jmprcc),
     OpInfo 0x1709 0xff1f (total op_jmprcc),
     OpInfo 0x170a 0xff1f (total op_jmprcc),
     OpInfo 0x170b 0xff1f (total op_jmprcc),
     OpInfo 0x170c 0xff1f (total op_jmprcc),
     OpInfo 0x170d 0xff1f (total op_jmprcc),
     OpInfo 0x170e 0xff1f (total op_jmprcc),
     OpInfo 0x170f 0xff1f (total op_jmprcc),
     OpInfo 0x1710 0xff1f (total op_callr),
     OpInfo 0x1711 0xff1f (total op_callr),
     OpInfo 0x1712 0xff1f (total op_callr),
     OpInfo 0x1713 0xff1f (total op_callr),
     OpInfo 0x1714 0xff1f (total op_callr),
     OpInfo 0x1715 0xff1f (total op_callr),
     OpInfo 0x1716 0xff1f (total op_callr),
     OpInfo 0x1717 0xff1f (total op_callr),
     OpInfo 0x1718 0xff1f (total op_callr),
     OpInfo 0x1719 0xff1f (total op_callr),
     OpInfo 0x171a 0xff1f (total op_callr),
     OpInfo 0x171b 0xff1f (total op_callr),
     OpInfo 0x171c 0xff1f (total op_callr),
     OpInfo 0x171d 0xff1f (total op_callr),
     OpInfo 0x171e 0xff1f (total op_callr),
     OpInfo 0x171f 0xff1f (total op_callr)]"

definition int_opcodes_3 :: "InterpreterOpInfo list" where
  "int_opcodes_3 =
    [OpInfo 0x1200 0xff00 (total op_sbclr),
     OpInfo 0x1300 0xff00 (total op_sbset),
     OpInfo 0x1400 0xfec0 (total op_lsl),
     OpInfo 0x1440 0xfec0 (total op_lsr),
     OpInfo 0x1480 0xfec0 (total op_asl),
     OpInfo 0x14c0 0xfec0 (total op_asr),
     OpInfo 0x02ca 0xffff (total op_lsrn),
     OpInfo 0x02cb 0xffff (total op_asrn),
     OpInfo 0x0080 0xffe0 (total op_lri),
     OpInfo 0x00c0 0xffe0 op_lr,
     OpInfo 0x00e0 0xffe0 op_sr,
     OpInfo 0x1c00 0xfc00 (total op_mrr),
     OpInfo 0x1600 0xff00 op_si,
     OpInfo 0x0400 0xfe00 (total op_addis),
     OpInfo 0x0600 0xfe00 (total op_cmpis),
     OpInfo 0x0800 0xf800 (total op_lris),
     OpInfo 0x0200 0xfeff (total op_addi),
     OpInfo 0x0220 0xfeff (total op_xori),
     OpInfo 0x0240 0xfeff (total op_andi),
     OpInfo 0x0260 0xfeff (total op_ori),
     OpInfo 0x0280 0xfeff (total op_cmpi),
     OpInfo 0x02a0 0xfeff (total op_andf),
     OpInfo 0x02c0 0xfeff (total op_andcf),
     OpInfo 0x0210 0xfefc (total op_ilrr),
     OpInfo 0x0214 0xfefc (total op_ilrrd),
     OpInfo 0x0218 0xfefc (total op_ilrri),
     OpInfo 0x021c 0xfefc (total op_ilrrn),
     OpInfo 0x0040 0xffe0 op_loop,
     OpInfo 0x0060 0xffe0 op_bloop,
     OpInfo 0x1000 0xff00 op_loopi,
     OpInfo 0x1100 0xff00 op_bloopi,
     OpInfo 0x1800 0xff80 op_lrr,
     OpInfo 0x1880 0xff80 op_lrrd,
     OpInfo 0x1900 0xff80 op_lrri,
     OpInfo 0x1980 0xff80 op_lrrn,
     OpInfo 0x1a00 0xff80 op_srr,
     OpInfo 0x1a80 0xff80 op_srrd]"

definition int_opcodes_4 :: "InterpreterOpInfo list" where
  "int_opcodes_4 =
    [OpInfo 0x1b00 0xff80 op_srri,
     OpInfo 0x1b80 0xff80 op_srrn,
     OpInfo 0x2000 0xf800 op_lrs,
     OpInfo 0x2800 0xf800 op_srs,
     OpInfo 0x3000 0xfc80 (total op_xorr),
     OpInfo 0x3400 0xfc80 (total op_andr),
     OpInfo 0x3800 0xfc80 (total op_orr),
     OpInfo 0x3c00 0xfe80 (total op_andc),
     OpInfo 0x3e00 0xfe80 (total op_orc),
     OpInfo 0x3080 0xfe80 (total op_xorc),
     OpInfo 0x3280 0xfe80 (total op_notc),
     OpInfo 0x3480 0xfc80 (total op_lsrnrx),
     OpInfo 0x3880 0xfc80 (total op_asrnrx),
     OpInfo 0x3c80 0xfe80 (total op_lsrnr),
     OpInfo 0x3e80 0xfe80 (total op_asrnr),
     OpInfo 0x4000 0xf800 (total op_addr),
     OpInfo 0x4800 0xfc00 (total op_addax),
     OpInfo 0x4c00 0xfe00 (total op_add),
     OpInfo 0x4e00 0xfe00 (total op_addp),
     OpInfo 0x5000 0xf800 (total op_subr),
     OpInfo 0x5800 0xfc00 (total op_subax),
     OpInfo 0x5c00 0xfe00 (total op_sub),
     OpInfo 0x5e00 0xfe00 (total op_subp),
     OpInfo 0x6000 0xf800 (total op_movr),
     OpInfo 0x6800 0xfc00 (total op_movax),
     OpInfo 0x6c00 0xfe00 (total op_mov),
     OpInfo 0x6e00 0xfe00 (total op_movp),
     OpInfo 0x7000 0xfc00 (total op_addaxl),
     OpInfo 0x7400 0xfe00 (total op_incm),
     OpInfo 0x7600 0xfe00 (total op_inc),
     OpInfo 0x7800 0xfe00 (total op_decm),
     OpInfo 0x7a00 0xfe00 (total op_dec),
     OpInfo 0x7c00 0xfe00 (total op_neg),
     OpInfo 0x7e00 0xfe00 (total op_movnp),
     OpInfo 0x8000 0xf700 (total op_nx),
     OpInfo 0x8100 0xf700 (total op_clr),
     OpInfo 0x8200 0xff00 (total op_cmp),
     OpInfo 0x8300 0xff00 (total op_mulaxh),
     OpInfo 0x8400 0xff00 (total op_clrp),
     OpInfo 0x8500 0xff00 (total op_tstprod),
     OpInfo 0x8600 0xfe00 (total op_tstaxh),
     OpInfo 0x8a00 0xff00 (total op_srbith),
     OpInfo 0x8b00 0xff00 (total op_srbith),
     OpInfo 0x8c00 0xff00 (total op_srbith),
     OpInfo 0x8d00 0xff00 (total op_srbith),
     OpInfo 0x8e00 0xff00 (total op_srbith),
     OpInfo 0x8f00 0xff00 (total op_srbith),
     OpInfo 0x9000 0xf700 (total op_mul),
     OpInfo 0x9100 0xf700 (total op_asr16),
     OpInfo 0x9200 0xf600 (total op_mulmvz),
     OpInfo 0x9400 0xf600 (total op_mulac),
     OpInfo 0x9600 0xf600 (total op_mulmv),
     OpInfo 0xa000 0xe700 (total op_mulx),
     OpInfo 0xa100 0xf700 (total op_abs),
     OpInfo 0xa200 0xe600 (total op_mulxmvz),
     OpInfo 0xa400 0xe600 (total op_mulxac),
     OpInfo 0xa600 0xe600 (total op_mulxmv),
     OpInfo 0xb100 0xf700 (total op_tst),
     OpInfo 0xc000 0xe700 (total op_mulc),
     OpInfo 0xc100 0xe700 (total op_cmpar),
     OpInfo 0xc200 0xe600 (total op_mulcmvz),
     OpInfo 0xc400 0xe600 (total op_mulcac),
     OpInfo 0xc600 0xe600 (total op_mulcmv),
     OpInfo 0xe000 0xfc00 (total op_maddx),
     OpInfo 0xe400 0xfc00 (total op_msubx),
     OpInfo 0xe800 0xfc00 (total op_maddc),
     OpInfo 0xec00 0xfc00 (total op_msubc),
     OpInfo 0xf000 0xfe00 (total op_lsl16),
     OpInfo 0xf200 0xfe00 (total op_madd),
     OpInfo 0xf400 0xfe00 (total op_lsr16),
     OpInfo 0xf600 0xfe00 (total op_msub),
     OpInfo 0xf800 0xfc00 (total op_addpaxz),
     OpInfo 0xfc00 0xfe00 (total op_clrl),
     OpInfo 0xfe00 0xfe00 (total op_movpz)]"

definition int_opcodes_ext :: "InterpreterOpInfo list" where
  "int_opcodes_ext =
    [OpInfo 0x0000 0x00fc Ext_nop,
     OpInfo 0x0004 0x00fc Ext_dr,
     OpInfo 0x0008 0x00fc Ext_ir,
     OpInfo 0x000c 0x00fc Ext_nr,
     OpInfo 0x0010 0x00f0 Ext_mv,
     OpInfo 0x0020 0x00e4 Ext_s,
     OpInfo 0x0024 0x00e4 Ext_sn,
     OpInfo 0x0040 0x00c4 Ext_l,
     OpInfo 0x0044 0x00c4 Ext_ln,
     OpInfo 0x0080 0x00ce Ext_ls,
     OpInfo 0x0082 0x00ce Ext_sl,
     OpInfo 0x0084 0x00ce Ext_lsn,
     OpInfo 0x0086 0x00ce Ext_sln,
     OpInfo 0x0088 0x00ce Ext_lsm,
     OpInfo 0x008a 0x00ce Ext_slm,
     OpInfo 0x008c 0x00ce Ext_lsnm,
     OpInfo 0x008e 0x00ce Ext_slnm,
     OpInfo 0x00c3 0x00cf Ext_ldax,
     OpInfo 0x00c7 0x00cf Ext_ldaxn,
     OpInfo 0x00cb 0x00cf Ext_ldaxm,
     OpInfo 0x00cf 0x00cf Ext_ldaxnm,
     OpInfo 0x00c0 0x00cc Ext_ld,
     OpInfo 0x00c4 0x00cc Ext_ldn,
     OpInfo 0x00c8 0x00cc Ext_ldm,
     OpInfo 0x00cc 0x00cc Ext_ldnm]"

definition int_opcodes :: "InterpreterOpInfo list" where
  "int_opcodes = int_opcodes_1 @ int_opcodes_2 @ int_opcodes_3 @ int_opcodes_4"

text \<open>
  \<^verbatim>\<open>InitInstructionTables\<close> fills the arrays with the first matching row, or \<^verbatim>\<open>nop\<close>; before
  that the arrays hold null pointers.
\<close>

definition find_function :: "UDSPInstruction \<Rightarrow> InterpreterOpInfo list \<Rightarrow> InterpreterFunction" where
  "find_function i tbl =
    (case FindByOpcode io_opcode io_opcode_mask i tbl of
       None \<Rightarrow> total op_nop | Some r \<Rightarrow> io_function r)"

definition GetOp :: "UDSPInstruction \<Rightarrow> DSP \<Rightarrow> InterpreterFunction option" where
  "GetOp inst s = (if s_tables_initialized s then Some (find_function inst int_opcodes) else None)"

definition GetExtOp :: "UDSPInstruction \<Rightarrow> DSP \<Rightarrow> InterpreterFunction option" where
  "GetExtOp inst s =
    (let has_seven_bit_extension = (drop_bit 12 inst = 0x3);
         i = (if has_seven_bit_extension then inst AND 0x7F else inst AND 0xFF)
     in if s_tables_initialized s then Some (find_function i int_opcodes_ext) else None)"

text \<open>Calling through a null pointer faults.\<close>

definition call_op :: "InterpreterFunction option \<Rightarrow> UDSPInstruction \<Rightarrow> DSP \<Rightarrow> DSP result" where
  "call_op f inst s = (case f of None \<Rightarrow> Inl MemoryFault | Some g \<Rightarrow> g inst s)"

section \<open>One instruction\<close>

definition ExecuteInstruction :: "UDSPInstruction \<Rightarrow> DSP \<Rightarrow> DSP result" where
  "ExecuteInstruction inst s =
    (case GetOpTemplate inst s of
       None \<Rightarrow> Inl MemoryFault
     | Some t \<Rightarrow>
         bind_res (if extended t then call_op (GetExtOp inst s) inst s else Inr s) (\<lambda>s1.
           bind_res (call_op (GetOp inst s1) inst s1) (\<lambda>s2.
             if extended t then ApplyWriteBackLog s2 else Inr s2)))"

definition Step :: "DSP \<Rightarrow> DSP result" where
  "Step s =
    (let s1 = DSPCore_CheckExceptions s;
         s2 = s1\<lparr>g_step_counter := g_step_counter s1 + 1\<rparr>;
         (opc, s3) = dsp_fetch_code s2
     in bind_res (ExecuteInstruction opc s3) (\<lambda>s4.
          if GetCodeFlags (g_pc s4 - 1) s4 AND CODE_LOOP_END \<noteq> 0
          then Inr (HandleLoop s4) else Inr s4))"

section \<open>Control register\<close>

definition WriteCR :: "u16 \<Rightarrow> DSP \<Rightarrow> DSP" where
  "WriteCR val s =
    (if val AND 1 \<noteq> 0 then (DSPCore_Reset s)\<lparr>g_cr := val AND NOT 1\<rparr>
     else if val = 4 then s\<lparr>g_init_hax := True, g_cr := val OR 0x800\<rparr>
     else s\<lparr>g_cr := val\<rparr>)"

definition ReadCR :: "DSP \<Rightarrow> u16 \<times> DSP" where
  "ReadCR s =
    (let s1 = (if g_pc s AND 0x8000 \<noteq> 0 then s\<lparr>g_cr := g_cr s OR 0x800\<rparr>
               else s\<lparr>g_cr := g_cr s AND NOT 0x800\<rparr>)
     in (g_cr s1, s1))"

section \<open>Run loops\<close>

text \<open>
  The body shared by the \<^verbatim>\<open>for\<close> loops of \<^verbatim>\<open>RunCycles\<close> and \<^verbatim>\<open>RunCyclesDebug\<close>: \<open>n\<close> rounds,
  with the halt test, the breakpoint test (none in \<^verbatim>\<open>RunCycles\<close>) and the idle test switched per
  loop. The first component says that the function returned, with the second as its value.
\<close>

fun run_phase :: "(u16 \<Rightarrow> bool) \<Rightarrow> bool \<Rightarrow> bool \<Rightarrow> nat \<Rightarrow> int \<Rightarrow> DSP \<Rightarrow> (bool \<times> int \<times> DSP) result" where
  "run_phase bp check_halt check_idle 0 cycles s = Inr (False, cycles, s)"
| "run_phase bp check_halt check_idle (Suc n) cycles s =
    (if check_halt \<and> g_cr s AND CR_HALT \<noteq> 0 then Inr (True, 0, s)
     else if bp (g_pc s) then Inr (True, cycles, DSPCore_SetState Stepping s)
     else if check_idle \<and> GetCodeFlags (g_pc s) s AND CODE_IDLE_SKIP \<noteq> 0 then Inr (True, 0, s)
     else bind_res (Step s) (\<lambda>s1.
       if cycles - 1 < 0 then Inr (True, 0, s1)
       else run_phase bp check_halt check_idle n (cycles - 1) s1))"

lemma run_phase_continues:
  "run_phase bp h i n cycles s = Inr (False, cycles1, s1) \<Longrightarrow>
     cycles1 = cycles - int n \<and> (0 < n \<longrightarrow> 0 \<le> cycles1)"
proof (induction n arbitrary: cycles s)
  case (Suc n)
  obtain x where x: "1 \<le> cycles" "run_phase bp h i n (cycles - 1) x = Inr (False, cycles1, s1)"
    using Suc.prems by (auto simp: bind_res_eq_Inr split: if_splits)
  with Suc.IH [OF x(2)] show ?case by (cases n) auto
qed simp

lemma bind_res_cong [fundef_cong]:
  "m = m' \<Longrightarrow> (\<And>x. m' = Inr x \<Longrightarrow> f x = g x) \<Longrightarrow> bind_res m f = bind_res m' g"
  by (cases m') auto

function run_main :: "(u16 \<Rightarrow> bool) \<Rightarrow> int \<Rightarrow> DSP \<Rightarrow> (int \<times> DSP) result" where
  "run_main bp cycles s =
    bind_res (run_phase bp True True 8 cycles s) (\<lambda>(returned, cycles1, s1).
      if returned then Inr (cycles1, s1)
      else bind_res (run_phase bp False False 200 cycles1 s1) (\<lambda>(returned2, cycles2, s2).
        if returned2 then Inr (cycles2, s2) else run_main bp cycles2 s2))"
  by auto
termination
  by (relation "measure (\<lambda>(bp, cycles, s). nat (cycles + 1))")
    (auto dest!: run_phase_continues)

declare run_main.simps [simp del]

definition RunCyclesDebug :: "(u16 \<Rightarrow> bool) \<Rightarrow> int \<Rightarrow> DSP \<Rightarrow> (int \<times> DSP) result" where
  "RunCyclesDebug bp cycles s =
    bind_res (run_phase bp True False 8 cycles s) (\<lambda>(returned, cycles1, s1).
      if returned then Inr (cycles1, s1) else run_main bp cycles1 s1)"

definition RunCycles :: "int \<Rightarrow> DSP \<Rightarrow> (int \<times> DSP) result" where
  "RunCycles cycles s = RunCyclesDebug (\<lambda>_. False) cycles s"

text \<open>The thread-mode loop; its return value is always 0.\<close>

function RunCyclesThread :: "int \<Rightarrow> DSP \<Rightarrow> DSP result" where
  "RunCyclesThread cycles s =
    (if g_cr s AND CR_HALT \<noteq> 0 then Inr s
     else let s1 = (if g_external_interrupt_waiting s
                    then DSPCore_SetExternalInterrupt False (DSPCore_CheckExternalInterrupt s) else s)
          in bind_res (Step s1) (\<lambda>s2.
               if cycles - 1 < 0 then Inr s2 else RunCyclesThread (cycles - 1) s2))"
  by auto
termination
  by (relation "measure (\<lambda>(cycles, s). nat (cycles + 1))") auto

declare RunCyclesThread.simps [simp del]

text \<open>
  \<open>waits\<close> lists the values of \<^verbatim>\<open>core_state\<close> after each \<^verbatim>\<open>step_event.Wait()\<close>; the thread
  blocks for good when it is exhausted.
\<close>

fun DSPCore_RunCycles :: "nat \<Rightarrow> CoreState list \<Rightarrow> int \<Rightarrow> DSP \<Rightarrow> (int \<times> DSP) result option" where
  "DSPCore_RunCycles 0 waits cycles s = None"
| "DSPCore_RunCycles (Suc n) waits cycles s =
    (if cycles \<le> 0 then Some (Inr (cycles, s))
     else case core_state s of
        Running \<Rightarrow>
          (case RunCycles cycles s of
             Inl e \<Rightarrow> Some (Inl e)
           | Inr (cycles1, s1) \<Rightarrow> DSPCore_RunCycles n waits cycles1 s1)
      | Stepping \<Rightarrow>
          (case waits of
             [] \<Rightarrow> None
           | st # waits1 \<Rightarrow>
               if st \<noteq> Stepping then DSPCore_RunCycles n waits1 cycles (s\<lparr>core_state := st\<rparr>)
               else (case Step s of
                       Inl e \<Rightarrow> Some (Inl e)
                     | Inr s1 \<Rightarrow> DSPCore_RunCycles n waits1 (cycles - 1) s1))
      | Stopped \<Rightarrow> DSPCore_RunCycles n waits cycles s)"

end
