(* ===== verification/DSP_Dispatch.thy ===== *)
theory DSP_Dispatch
  imports DSP_Interpreter
begin

text \<open>
  The two opcode tables and the handlers fit together. \<open>kept\<close> says what a handler leaves alone; every
  handler of an instruction without the branch flag moves the program counter on by exactly the
  size its template gives (\<open>straight\<close>), every handler keeps the tables, the run state and the
  write-back log (\<open>contained\<close>), and the extension opcodes fill the log from the front and never its
  last entry. From this follow the machine invariant and the program counter after a step.
\<close>

section \<open>What instructions leave alone\<close>

text \<open>
  The part of the state that belongs to the interpreter itself: the write-back log, the opcode tables
  and the run state.
\<close>

definition ctl :: "DSP \<Rightarrow> (nat \<Rightarrow> u16) \<times> (nat \<Rightarrow> int)" where
  "ctl s = (writeBackLog s, writeBackLogIdx s)"

definition stacks_ok :: "DSP \<Rightarrow> bool" where
  "stacks_ok s \<longleftrightarrow> (\<forall>k. stack_wf k s)"

text \<open>
  \<open>same_machine s s'\<close>: the opcode tables and the run state are those of \<open>s\<close>, the stack pointers are
  in range if those of \<open>s\<close> are.
\<close>

definition same_machine :: "DSP \<Rightarrow> DSP \<Rightarrow> bool" where
  "same_machine s s' \<longleftrightarrow> s_op_table s' = s_op_table s \<and> s_tables_initialized s' = s_tables_initialized s \<and>
     core_state s' = core_state s \<and> (stacks_ok s \<longrightarrow> stacks_ok s')"

text \<open>
  \<open>same_pc s s'\<close>: the program counter is the same, unless the boot hack \<^verbatim>\<open>g_init_hax\<close> is armed
  (then a read of the mailbox resets the DSP).
\<close>

definition same_pc :: "DSP \<Rightarrow> DSP \<Rightarrow> bool" where
  "same_pc s s' \<longleftrightarrow> (\<not> g_init_hax s \<longrightarrow> \<not> g_init_hax s' \<and> g_pc s' = g_pc s)"

definition kept :: "DSP \<Rightarrow> DSP \<Rightarrow> bool" where
  "kept s s' \<longleftrightarrow> ctl s' = ctl s \<and> same_machine s s' \<and> same_pc s s'"

lemmas kept_unfold = kept_def ctl_def same_machine_def same_pc_def stacks_ok_def stack_wf_def

lemma kept_refl [simp]: "kept s s"
  by (simp add: kept_unfold)

lemma kept_trans: "kept s s1 \<Longrightarrow> kept s1 s2 \<Longrightarrow> kept s s2"
  by (auto simp: kept_unfold)

text \<open>Register, flag and memory updates.\<close>

lemma kept_updates [simp]:
  "kept s0 (s\<lparr>r_sr := a\<rparr>) = kept s0 s"
  "kept s0 (Update_SR_Register64 v c f s) = kept s0 s"
  "kept s0 (Update_SR_Register16 w c f b s) = kept s0 s"
  "kept s0 (Update_SR_LZ b s) = kept s0 s"
  "kept s0 (dsp_set_long_acc i v s) = kept s0 s"
  "kept s0 (dsp_set_long_prod v s) = kept s0 s"
  "kept s0 (set_ar i w s) = kept s0 s"
  "kept s0 (set_ac_l i w s) = kept s0 s" "kept s0 (set_ac_m i w s) = kept s0 s" "kept s0 (set_ac_h i w s) = kept s0 s"
  "kept s0 (set_ax_l i w s) = kept s0 s" "kept s0 (set_ax_h i w s) = kept s0 s"
  "kept s0 (set_prod_l w s) = kept s0 s" "kept s0 (set_prod_m w s) = kept s0 s"
  "kept s0 (set_prod_h w s) = kept s0 s" "kept s0 (set_prod_m2 w s) = kept s0 s"
  by (simp_all add: kept_unfold Update_SR_Register64_def Update_SR_Register16_def Update_SR_LZ_def
      dsp_set_long_acc_def dsp_set_long_prod_def set_ar_def union_defs)

lemma kept_extend [simp]: "kept s0 (dsp_conditional_extend_accum r s) = kept s0 s"
  by (simp add: dsp_conditional_extend_accum_def Let_def)

lemma kept_store_stack: "kept s0 s \<Longrightarrow> kept s0 (dsp_reg_store_stack k v s)"
  by (auto simp: kept_def ctl_def same_machine_def same_pc_def stacks_ok_def stack_wf_store) (auto simp: stack_defs Let_def)

lemma kept_load_stack: "kept s0 s \<Longrightarrow> kept s0 (snd (dsp_reg_load_stack k s))"
  by (auto simp: kept_def ctl_def same_machine_def same_pc_def stacks_ok_def stack_wf_load) (auto simp: stack_defs Let_def)

lemma kept_write_reg [simp]: "kept s0 s \<Longrightarrow> kept s0 (dsp_op_write_reg r v s)"
  by (simp add: dsp_op_write_reg_def Let_def kept_store_stack) (simp add: kept_unfold)

lemma kept_read_reg [simp]: "kept s0 s \<Longrightarrow> kept s0 (snd (dsp_op_read_reg r s))"
  by (simp add: dsp_op_read_reg_def Let_def kept_load_stack)

lemma kept_store_value [simp]: "kept s0 s \<Longrightarrow> kept s0 (snd (store_value r s))"
  by (simp add: store_value_def)

section \<open>Data memory and the interface registers\<close>

lemma kept_hw [simp]:
  "kept s0 (InterruptRequest s) = kept s0 s"
  "kept s0 (gdsp_mbox_write_h m v s) = kept s0 s" "kept s0 (gdsp_mbox_write_l m v s) = kept s0 s"
  "kept s0 (set_ifx r v s) = kept s0 s" "kept s0 (map_accelerator f s) = kept s0 s"
  "kept s0 (s\<lparr>g_accelerator := a\<rparr>) = kept s0 s"
  "kept s0 (DSPCore_SetException e s) = kept s0 s"
  "kept s0 (WriteARAM b adr s) = kept s0 s"
  "kept s0 (s\<lparr>g_dram := mem\<rparr>) = kept s0 s" "kept s0 (s\<lparr>g_cpu_ram := ram\<rparr>) = kept s0 s"
  "kept s0 (s\<lparr>g_iram_crc := crc, g_iram := mem\<rparr>) = kept s0 s"
  by (simp_all add: kept_unfold InterruptRequest_def gdsp_mbox_write_h_def gdsp_mbox_write_l_def
      set_ifx_def map_accelerator_def DSPCore_SetException_def WriteARAM_def Let_def)

lemma kept_Analyze [simp]: "kept s0 (Analyze s) = kept s0 s"
proof -
  obtain f where "Analyze s = s\<lparr>code_flags := f\<rparr>" using Analyze_frame by blast
  then show ?thesis by (simp add: kept_unfold)
qed

lemma kept_do_dma: "gdsp_do_dma s = Inr s' \<Longrightarrow> kept s0 s \<Longrightarrow> kept s0 s'"
  by (auto simp: gdsp_do_dma_def gdsp_ddma_in_def gdsp_ddma_out_def gdsp_idma_in_def gdsp_idma_out_def
      gdsp_ddma_in_SSSE3_def gdsp_ddma_out_SSSE3_def CodeLoaded_def Let_def split: if_splits)

lemma kept_WriteD3: "kept s0 s \<Longrightarrow> kept s0 (snd (WriteD3 (\<lambda>a v. WriteARAM v a) val acc s))"
  by (simp add: WriteD3_def Let_def)

lemma kept_mbox_read_l: "kept s0 s \<Longrightarrow> kept s0 (snd (gdsp_mbox_read_l m s))"
proof -
  assume k: "kept s0 s"
  obtain f where f: "DSPCore_Reset t = t\<lparr>g_pc := 0x8000, r_wr := (\<lambda>_. 0xffff), code_flags := f t\<rparr>" for t
    using Reset_frame by metis
  from k show ?thesis by (auto simp: gdsp_mbox_read_l_def Let_def f kept_unfold)
qed

lemma kept_ifx_dsbl: "ifx_write_dsbl v s = Inr s' \<Longrightarrow> kept s0 s \<Longrightarrow> kept s0 s'"
  by (auto simp: ifx_write_dsbl_def Let_def bind_res_eq_Inr dest!: kept_do_dma split: if_splits)

lemma kept_ifx_write: "gdsp_ifx_write a v s = Inr s' \<Longrightarrow> kept s0 s \<Longrightarrow> kept s0 s'"
  using kept_WriteD3 [of s0 s]
  by (auto simp: gdsp_ifx_write_def Let_def case_prod_beta dest: kept_ifx_dsbl split: if_splits)

lemma kept_ifx_read: "gdsp_ifx_read a s = Inr (v, s') \<Longrightarrow> kept s0 s \<Longrightarrow> kept s0 s'"
  using kept_mbox_read_l [of s0 s]
  by (auto simp: gdsp_ifx_read_def Let_def bind_res_eq_Inr case_prod_beta split: if_splits) (metis snd_conv)+

lemma kept_dmem_write: "dsp_dmem_write a v s = Inr s' \<Longrightarrow> kept s0 s \<Longrightarrow> kept s0 s'"
  by (auto simp: dsp_dmem_write_def dest: kept_ifx_write split: if_splits)

lemma kept_dmem_read: "dsp_dmem_read a s = Inr (v, s') \<Longrightarrow> kept s0 s \<Longrightarrow> kept s0 s'"
  by (auto simp: dsp_dmem_read_def dest: kept_ifx_read split: if_splits)

section \<open>Straight-line instructions\<close>

text \<open>A handler that, besides its own work, moves the program counter \<open>n\<close> words on.\<close>

definition straight :: "u16 \<Rightarrow> InterpreterFunction \<Rightarrow> bool" where
  "straight n f \<longleftrightarrow> (\<forall>opc s s'. f opc s = Inr s' \<longrightarrow> kept (s\<lparr>g_pc := g_pc s + n\<rparr>) s')"

lemma fetch_snd: "dsp_fetch_code s = (dsp_imem_read (g_pc s) s, s\<lparr>g_pc := g_pc s + 1\<rparr>)"
  by (simp add: dsp_fetch_code_def)

lemma straight_total: "(\<And>opc s. kept (s\<lparr>g_pc := g_pc s + n\<rparr>) (f opc s)) \<Longrightarrow> straight n (total f)"
  by (simp add: straight_def total_def)

lemma kept_pc_0 [simp]: "kept (s\<lparr>g_pc := g_pc s\<rparr>) = kept s"
  by simp

lemmas short_handlers [dsp_ops] =
  op_clr_def op_clrl_def op_tst_def op_tstaxh_def op_cmp_def op_cmpar_def op_cmpis_def op_xorr_def
  op_andr_def op_orr_def op_andc_def op_orc_def op_xorc_def op_notc_def op_addr_def op_addax_def
  op_add_def op_addp_def op_addaxl_def op_addis_def op_incm_def op_inc_def op_subr_def op_subax_def
  op_sub_def op_subp_def op_decm_def op_dec_def op_neg_def op_abs_def op_movr_def op_movax_def
  op_mov_def op_lsl16_def op_lsr16_def op_asr16_def op_lsl_def op_lsr_def op_asl_def op_asr_def
  op_lsrn_def op_asrn_def op_lsrnrx_def op_asrnrx_def op_lsrnr_def op_asrnr_def
  op_clrp_def op_tstprod_def op_movp_def op_movnp_def op_movpz_def op_addpaxz_def op_mulaxh_def
  op_mul_def op_mulac_def op_mulmv_def op_mulmvz_def op_mulx_def op_mulxac_def op_mulxmv_def
  op_mulxmvz_def op_mulc_def op_mulcac_def op_mulcmv_def op_mulcmvz_def op_maddx_def op_msubx_def
  op_maddc_def op_msubc_def op_madd_def op_msub_def
  op_ilrr_def op_ilrrd_def op_ilrri_def op_ilrrn_def op_mrr_def op_lris_def op_nx_def op_dar_def
  op_iar_def op_subarn_def op_addarn_def op_sbclr_def op_sbset_def op_srbith_def op_nop_def
  op_srs_def op_lrs_def op_lrr_def op_lrrd_def op_lrri_def op_lrrn_def op_srr_def op_srrd_def
  op_srri_def op_srrn_def

lemmas long_handlers [dsp_ops] =
  op_andcf_def op_andf_def op_cmpi_def op_xori_def op_andi_def op_ori_def op_addi_def op_lri_def
  op_lr_def op_sr_def op_si_def

lemma straight_short:
  "straight 0 (total op_clr)" "straight 0 (total op_clrl)" "straight 0 (total op_tst)"
  "straight 0 (total op_tstaxh)" "straight 0 (total op_cmp)" "straight 0 (total op_cmpar)"
  "straight 0 (total op_cmpis)" "straight 0 (total op_xorr)" "straight 0 (total op_andr)"
  "straight 0 (total op_orr)" "straight 0 (total op_andc)" "straight 0 (total op_orc)"
  "straight 0 (total op_xorc)" "straight 0 (total op_notc)" "straight 0 (total op_addr)"
  "straight 0 (total op_addax)" "straight 0 (total op_add)" "straight 0 (total op_addp)"
  "straight 0 (total op_addaxl)" "straight 0 (total op_addis)" "straight 0 (total op_incm)"
  "straight 0 (total op_inc)" "straight 0 (total op_subr)" "straight 0 (total op_subax)"
  "straight 0 (total op_sub)" "straight 0 (total op_subp)" "straight 0 (total op_decm)"
  "straight 0 (total op_dec)" "straight 0 (total op_neg)" "straight 0 (total op_abs)"
  "straight 0 (total op_movr)" "straight 0 (total op_movax)" "straight 0 (total op_mov)"
  "straight 0 (total op_lsl16)" "straight 0 (total op_lsr16)" "straight 0 (total op_asr16)"
  "straight 0 (total op_lsl)" "straight 0 (total op_lsr)" "straight 0 (total op_asl)"
  "straight 0 (total op_asr)" "straight 0 (total op_lsrn)" "straight 0 (total op_asrn)"
  "straight 0 (total op_lsrnrx)" "straight 0 (total op_asrnrx)" "straight 0 (total op_lsrnr)"
  "straight 0 (total op_asrnr)" "straight 0 (total op_clrp)" "straight 0 (total op_tstprod)"
  "straight 0 (total op_movp)" "straight 0 (total op_movnp)" "straight 0 (total op_movpz)"
  "straight 0 (total op_addpaxz)" "straight 0 (total op_mulaxh)" "straight 0 (total op_mul)"
  "straight 0 (total op_mulac)" "straight 0 (total op_mulmv)" "straight 0 (total op_mulmvz)"
  "straight 0 (total op_mulx)" "straight 0 (total op_mulxac)" "straight 0 (total op_mulxmv)"
  "straight 0 (total op_mulxmvz)" "straight 0 (total op_mulc)" "straight 0 (total op_mulcac)"
  "straight 0 (total op_mulcmv)" "straight 0 (total op_mulcmvz)" "straight 0 (total op_maddx)"
  "straight 0 (total op_msubx)" "straight 0 (total op_maddc)" "straight 0 (total op_msubc)"
  "straight 0 (total op_madd)" "straight 0 (total op_msub)" "straight 0 (total op_ilrr)"
  "straight 0 (total op_ilrrd)" "straight 0 (total op_ilrri)" "straight 0 (total op_ilrrn)"
  "straight 0 (total op_mrr)" "straight 0 (total op_lris)" "straight 0 (total op_nx)"
  "straight 0 (total op_dar)" "straight 0 (total op_iar)" "straight 0 (total op_subarn)"
  "straight 0 (total op_addarn)" "straight 0 (total op_sbclr)" "straight 0 (total op_sbset)"
  "straight 0 (total op_srbith)" "straight 0 (total op_nop)"
  by (rule straight_total, simp add: dsp_ops Let_def case_prod_beta)+

lemma straight_short_memory:
  "straight 0 op_srs" "straight 0 op_lrs" "straight 0 op_lrr" "straight 0 op_lrrd"
  "straight 0 op_lrri" "straight 0 op_lrrn" "straight 0 op_srr" "straight 0 op_srrd"
  "straight 0 op_srri" "straight 0 op_srrn"
  by (auto simp: straight_def dsp_ops Let_def case_prod_beta bind_res_eq_Inr
      intro!: kept_write_reg elim!: kept_dmem_read kept_dmem_write)

lemma straight_long:
  "straight 1 (total op_andcf)" "straight 1 (total op_andf)" "straight 1 (total op_cmpi)"
  "straight 1 (total op_xori)" "straight 1 (total op_andi)" "straight 1 (total op_ori)"
  "straight 1 (total op_addi)" "straight 1 (total op_lri)"
  by (rule straight_total, simp add: dsp_ops fetch_snd Let_def)+

lemma straight_long_memory:
  "straight 1 op_lr" "straight 1 op_sr" "straight 1 op_si"
  by (auto simp: straight_def dsp_ops fetch_snd Let_def case_prod_beta bind_res_eq_Inr
      intro!: kept_write_reg elim!: kept_dmem_read kept_dmem_write)

section \<open>Branches and loops\<close>

text \<open>Handlers that may continue anywhere.\<close>

definition contained :: "InterpreterFunction \<Rightarrow> bool" where
  "contained f \<longleftrightarrow> (\<forall>opc s s'. f opc s = Inr s' \<longrightarrow> ctl s' = ctl s \<and> same_machine s s')"

lemma same_machine_pc [simp]:
  "same_machine s0 (s\<lparr>g_pc := v\<rparr>) = same_machine s0 s" "ctl (s\<lparr>g_pc := v\<rparr>) = ctl s"
  "same_machine (s\<lparr>g_pc := v\<rparr>) s' = same_machine s s'"
  by (simp_all add: kept_unfold)

lemma straight_contained: "straight n f \<Longrightarrow> contained f"
  by (force simp: straight_def contained_def kept_def)

lemma skip_inst_pc: "dsp_skip_inst s = Inr s' \<Longrightarrow> \<exists>v. s' = s\<lparr>g_pc := v\<rparr>"
  by (auto simp: dsp_skip_inst_def split: option.splits)

lemma same_machine_trans: "same_machine s0 s1 \<Longrightarrow> same_machine s1 s2 \<Longrightarrow> same_machine s0 s2"
  by (simp add: same_machine_def)

text \<open>An operation that keeps everything keeps the machine and the log.\<close>

lemma kept_op:
  assumes "kept s (f s)"
  shows "same_machine s0 s \<Longrightarrow> same_machine s0 (f s)" "ctl (f s) = ctl s"
  using assms by (auto simp: kept_def intro: same_machine_trans)

lemma stack_ops:
  "same_machine s0 s \<Longrightarrow> same_machine s0 (dsp_reg_store_stack k v s)"
  "ctl (dsp_reg_store_stack k v s) = ctl s"
  "same_machine s0 s \<Longrightarrow> same_machine s0 (snd (dsp_reg_load_stack k s))"
  "ctl (snd (dsp_reg_load_stack k s)) = ctl s"
  "same_machine s0 s \<Longrightarrow> same_machine s0 (snd (dsp_op_read_reg r s))"
  "ctl (snd (dsp_op_read_reg r s)) = ctl s"
  "same_machine s0 s \<Longrightarrow> same_machine s0 (s\<lparr>r_sr := w\<rparr>)" "ctl (s\<lparr>r_sr := w\<rparr>) = ctl s"
  using kept_op [of s "dsp_reg_store_stack k v"] kept_op [of s "\<lambda>s. snd (dsp_reg_load_stack k s)"]
    kept_op [of s "\<lambda>s. snd (dsp_op_read_reg r s)"] kept_op [of s "\<lambda>s. s\<lparr>r_sr := w\<rparr>"]
  by (simp_all add: kept_store_stack kept_load_stack)

lemma same_machine_refl [simp]: "same_machine s s"
  by (simp add: same_machine_def)

lemma same_machine_g_cr [simp]: "same_machine s0 (s\<lparr>g_cr := v\<rparr>) = same_machine s0 s" "ctl (s\<lparr>g_cr := v\<rparr>) = ctl s"
  by (simp_all add: kept_unfold)

lemma contained_branches:
  "contained (total op_call)" "contained (total op_callr)" "contained op_ifcc" "contained (total op_jcc)"
  "contained (total op_jmprcc)" "contained (total op_ret)" "contained (total op_rti)"
  "contained (total op_halt)" "contained op_loop" "contained op_loopi" "contained op_bloop"
  "contained op_bloopi"
  by (auto simp: contained_def total_def op_call_def op_callr_def op_ifcc_def op_jcc_def op_jmprcc_def
      op_ret_def op_rti_def op_halt_def op_loop_def op_loopi_def op_bloop_def op_bloopi_def open_loop_def
      fetch_snd case_prod_beta Let_def stack_ops
      dest!: skip_inst_pc split: if_splits)

section \<open>The dispatch tables agree\<close>

text \<open>
  Row by row, the tables of \<^verbatim>\<open>DSPTables.cpp\<close> and \<^verbatim>\<open>DSPIntTables.cpp\<close> have the same opcodes and masks,
  and the handler of an instruction without the branch flag moves on by the size in its template.
\<close>

definition row_agrees :: "DSPOPCTemplate \<Rightarrow> InterpreterOpInfo \<Rightarrow> bool" where
  "row_agrees t r \<longleftrightarrow> opcode t = io_opcode r \<and> opcode_mask t = io_opcode_mask r \<and>
     (\<not> branch t \<longrightarrow> straight (of_nat (tsize t) - 1) (io_function r)) \<and> contained (io_function r)"

lemmas contained_straight = straight_short [THEN straight_contained]
  straight_short_memory [THEN straight_contained] straight_long [THEN straight_contained]
  straight_long_memory [THEN straight_contained]

lemma tables_agree: "list_all2 row_agrees s_opcodes int_opcodes"
  unfolding s_opcodes_def int_opcodes_def s_opcodes_ret_def s_opcodes_call_if_def s_opcodes_jump_def
    s_opcodes_short_def s_opcodes_ext_34567_def s_opcodes_ext_89abcdef_def int_opcodes_1_def
    int_opcodes_2_def int_opcodes_3_def int_opcodes_4_def append.simps list_all2_Cons
  by (simp add: row_agrees_def straight_short straight_short_memory straight_long straight_long_memory
      contained_straight contained_branches)

lemma find_agrees:
  "list_all2 row_agrees ts rs \<Longrightarrow>
     rel_option row_agrees (FindByOpcode opcode opcode_mask i ts) (FindByOpcode io_opcode io_opcode_mask i rs)"
proof (induction rule: list_all2_induct)
  case (Cons t ts r rs)
  then show ?case by (simp add: FindByOpcode_def row_agrees_def)
qed (simp add: FindByOpcode_def)

text \<open>The handler the interpreter calls for an instruction word.\<close>

lemma handler_agrees:
  "contained (find_function i int_opcodes)"
  "\<not> branch (init_op_table i) \<Longrightarrow> straight (of_nat (tsize (init_op_table i)) - 1) (find_function i int_opcodes)"
proof -
  have cases: "FindOpInfoByOpcode i = None \<and> FindByOpcode io_opcode io_opcode_mask i int_opcodes = None \<or>
      (\<exists>t r. FindOpInfoByOpcode i = Some t \<and> FindByOpcode io_opcode io_opcode_mask i int_opcodes = Some r \<and>
        row_agrees t r)"
    using find_agrees [OF tables_agree, of i]
    by (auto simp: FindOpInfoByOpcode_def option_rel_Some1 option_rel_Some2 elim: option.rel_cases)
  then show "contained (find_function i int_opcodes)"
    "\<not> branch (init_op_table i) \<Longrightarrow> straight (of_nat (tsize (init_op_table i)) - 1) (find_function i int_opcodes)"
    by (auto simp: find_function_def init_op_table_def row_agrees_def cw_def straight_short contained_straight)
qed

section \<open>Extension opcodes and the write-back log\<close>

definition log_clear :: "DSP \<Rightarrow> bool" where
  "log_clear s \<longleftrightarrow> writeBackLogIdx s = (\<lambda>_. -1)"

text \<open>Used entries first, and the last of the five never used.\<close>

definition log_shape :: "(nat \<Rightarrow> int) \<Rightarrow> bool" where
  "log_shape x \<longleftrightarrow> x 4 = -1 \<and> (\<forall>i. x i = -1 \<longrightarrow> x (Suc i) = -1)"

definition log_ok :: "DSP \<Rightarrow> bool" where
  "log_ok s \<longleftrightarrow> log_shape (writeBackLogIdx s)"

lemma log_shapes:
  "log_shape (\<lambda>_. -1)" "0 \<le> a \<Longrightarrow> log_shape ((\<lambda>_. -1)(0 := a))"
  "0 \<le> a \<Longrightarrow> 0 \<le> b \<Longrightarrow> log_shape ((\<lambda>_. -1)(0 := a, Suc 0 := b))"
  "0 \<le> a \<Longrightarrow> 0 \<le> b \<Longrightarrow> 0 \<le> c \<Longrightarrow> log_shape ((\<lambda>_. -1)(0 := a, Suc 0 := b, 2 := c))"
  "0 \<le> a \<Longrightarrow> 0 \<le> b \<Longrightarrow> 0 \<le> c \<Longrightarrow> 0 \<le> d \<Longrightarrow>
     log_shape ((\<lambda>_. -1)(0 := a, Suc 0 := b, 2 := c, 3 := d))"
  by (auto simp: log_shape_def)

lemma same_log [simp]:
  "same_machine s0 (WriteToBackLog i r v s) = same_machine s0 s"
  "same_pc s0 (WriteToBackLog i r v s) = same_pc s0 s"
  "same_machine s0 (s\<lparr>writeBackLogIdx := x\<rparr>) = same_machine s0 s"
  "same_pc s0 (s\<lparr>writeBackLogIdx := x\<rparr>) = same_pc s0 s"
  "writeBackLogIdx (WriteToBackLog i r v s) = (writeBackLogIdx s)(i := int r)"
  by (simp_all add: kept_unfold WriteToBackLog_def)

lemma dmem_same:
  "dsp_dmem_read a s = Inr (v, s') \<Longrightarrow> same_machine s0 s \<Longrightarrow> same_machine s0 s'"
  "dsp_dmem_read a s = Inr (v, s') \<Longrightarrow> same_pc s0 s \<Longrightarrow> same_pc s0 s'"
  "dsp_dmem_write a v s = Inr s' \<Longrightarrow> same_machine s0 s \<Longrightarrow> same_machine s0 s'"
  "dsp_dmem_write a v s = Inr s' \<Longrightarrow> same_pc s0 s \<Longrightarrow> same_pc s0 s'"
  using kept_dmem_read [of a s v s' s] kept_dmem_write [of a v s s' s] by (auto simp: kept_unfold)

lemma dmem_log:
  "dsp_dmem_read a s = Inr (v, s') \<Longrightarrow> writeBackLogIdx s' = writeBackLogIdx s"
  "dsp_dmem_write a v s = Inr s' \<Longrightarrow> writeBackLogIdx s' = writeBackLogIdx s"
  using kept_dmem_read [of a s v s' s] kept_dmem_write [of a v s s' s] by (auto simp: kept_unfold)

lemma same_pc_refl [simp]: "same_pc s s"
  by (simp add: same_pc_def)

lemma load_pair_same:
  "load_pair a b c s = Inr s' \<Longrightarrow> same_machine s0 s \<Longrightarrow> same_machine s0 s'"
  "load_pair a b c s = Inr s' \<Longrightarrow> same_pc s0 s \<Longrightarrow> same_pc s0 s'"
  by (auto simp: load_pair_def bind_res_eq_Inr Let_def elim!: dmem_same split: if_splits)

lemma load_pair_log:
  "load_pair a b c s = Inr s' \<Longrightarrow> writeBackLogIdx s' = (writeBackLogIdx s)(0 := int b, 1 := int c)"
  by (auto simp: load_pair_def bind_res_eq_Inr Let_def dest!: dmem_log split: if_splits)

lemmas ext_handlers = Ext_dr_def Ext_ir_def Ext_nr_def Ext_mv_def Ext_s_def Ext_sn_def Ext_l_def
  Ext_ln_def Ext_ls_def Ext_lsn_def Ext_lsm_def Ext_lsnm_def Ext_sl_def Ext_sln_def Ext_slm_def
  Ext_slnm_def Ext_ld_def Ext_ldax_def Ext_ldn_def Ext_ldaxn_def Ext_ldm_def Ext_ldaxm_def
  Ext_ldnm_def Ext_ldaxnm_def Ext_nop_def

definition ext_handler_list :: "InterpreterFunction list" where
  "ext_handler_list = [Ext_dr, Ext_ir, Ext_nr, Ext_mv, Ext_s, Ext_sn, Ext_l, Ext_ln, Ext_ls, Ext_lsn, Ext_lsm,
     Ext_lsnm, Ext_sl, Ext_sln, Ext_slm, Ext_slnm, Ext_ld, Ext_ldax, Ext_ldn, Ext_ldaxn, Ext_ldm, Ext_ldaxm,
     Ext_ldnm, Ext_ldaxnm, Ext_nop, total op_nop]"

lemma ext_same: "list_all (\<lambda>f. f opc s = Inr s' \<longrightarrow> same_machine s s' \<and> same_pc s s') ext_handler_list"
  by (auto simp: ext_handler_list_def ext_handlers total_def op_nop_def Let_def bind_res_eq_Inr
      elim!: dmem_same load_pair_same split: if_splits)

lemma ext_log: "log_clear s \<Longrightarrow> list_all (\<lambda>f. f opc s = Inr s' \<longrightarrow> log_ok s') ext_handler_list"
  by (simp add: ext_handler_list_def ext_handlers total_def op_nop_def Let_def bind_res_eq_Inr log_clear_def)
    (auto simp: log_ok_def dest!: dmem_log load_pair_log simp: log_shapes)
lemma ext_handler_mem: "find_function i int_opcodes_ext \<in> set ext_handler_list"
proof (cases "FindByOpcode io_opcode io_opcode_mask i int_opcodes_ext")
  case (Some r)
  then have "r \<in> set int_opcodes_ext" by (auto simp: FindByOpcode_def find_Some_iff)
  then have "io_function r \<in> set ext_handler_list"
    by (auto simp: int_opcodes_ext_def ext_handler_list_def)
  with Some show ?thesis by (simp add: find_function_def)
qed (simp add: find_function_def ext_handler_list_def)

lemma closed_tail:
  assumes "\<And>j. i \<le> j \<Longrightarrow> x j = -1 \<Longrightarrow> x (Suc j) = (-1 :: int)" "x i = -1"
  shows "(\<lambda>j. if i \<le> j then -1 else x j) = x"
proof
  have "x j = -1" if "i \<le> j" for j using that assms by (induction j rule: dec_induct) auto
  then show "(if i \<le> j then -1 else x j) = x j" for j by simp
qed

lemma apply_log_ok:
  assumes "writeBackLogIdx s (i + n) = -1"
    and "\<And>j. i \<le> j \<Longrightarrow> writeBackLogIdx s j = -1 \<Longrightarrow> writeBackLogIdx s (Suc j) = -1"
  shows "\<exists>s'. apply_log (Suc n) i s = Inr s' \<and> same_machine s s' \<and> same_pc s s' \<and>
    writeBackLogIdx s' = (\<lambda>j. if i \<le> j then -1 else writeBackLogIdx s j)"
  using assms
proof (induction n arbitrary: i s)
  case (0 i s)
  then show ?case using closed_tail [of i "writeBackLogIdx s"] by simp
next
  case (Suc n i s)
  show ?case
  proof (cases "writeBackLogIdx s i = -1")
    case True
    then show ?thesis using closed_tail [of i "writeBackLogIdx s"] Suc.prems(2) by simp
  next
    case False
    let ?s1 = "dsp_op_write_reg (nat (writeBackLogIdx s i)) (writeBackLog s i) s"
    let ?s2 = "?s1\<lparr>writeBackLogIdx := (writeBackLogIdx ?s1)(i := -1)\<rparr>"
    have k: "kept s ?s1" by simp
    then have idx: "writeBackLogIdx ?s2 = (writeBackLogIdx s)(i := -1)" by (simp add: kept_def ctl_def)
    have "\<exists>s'. apply_log (Suc n) (Suc i) ?s2 = Inr s' \<and> same_machine ?s2 s' \<and> same_pc ?s2 s' \<and>
        writeBackLogIdx s' = (\<lambda>j. if Suc i \<le> j then -1 else writeBackLogIdx ?s2 j)"
      by (rule Suc.IH) (use Suc.prems in \<open>auto simp: idx\<close>)
    then obtain s' where s': "apply_log (Suc n) (Suc i) ?s2 = Inr s'" "same_machine ?s2 s'" "same_pc ?s2 s'"
      "writeBackLogIdx s' = (\<lambda>j. if Suc i \<le> j then -1 else writeBackLogIdx ?s2 j)" by blast
    have "same_machine s s'" "same_pc s s'"
      using k s'(2,3) by (auto simp: kept_unfold)
    moreover have "writeBackLogIdx s' = (\<lambda>j. if i \<le> j then -1 else writeBackLogIdx s j)"
      unfolding s'(4) idx by auto
    moreover have "apply_log (Suc (Suc n)) i s = Inr s'" using False s'(1) by (simp add: Let_def)
    ultimately show ?thesis by blast
  qed
qed

text \<open>Applying the log succeeds and clears it.\<close>

lemma ApplyWriteBackLog_ok:
  assumes "log_ok s"
  obtains s' where "ApplyWriteBackLog s = Inr s'" "same_machine s s'" "same_pc s s'" "log_clear s'"
proof -
  have "\<exists>s'. apply_log (Suc 4) 0 s = Inr s' \<and> same_machine s s' \<and> same_pc s s' \<and>
    writeBackLogIdx s' = (\<lambda>j. if 0 \<le> j then -1 else writeBackLogIdx s j)"
    by (rule apply_log_ok) (use assms in \<open>auto simp: log_ok_def log_shape_def\<close>)
  then show ?thesis using that by (auto simp: ApplyWriteBackLog_def log_clear_def numeral_eq_Suc)
qed

section \<open>One instruction\<close>

text \<open>The tables are set up, the log is empty and the stack pointers are in range.\<close>

definition machine_ok :: "DSP \<Rightarrow> bool" where
  "machine_ok s \<longleftrightarrow> s_op_table s = (\<lambda>i. Some (init_op_table i)) \<and> s_tables_initialized s \<and>
     log_clear s \<and> stacks_ok s"

lemma machine_ok_same:
  "machine_ok s \<Longrightarrow> same_machine s s' \<Longrightarrow> log_clear s' \<Longrightarrow> machine_ok s'"
  by (simp add: machine_ok_def same_machine_def)

lemma same_pc_trans: "same_pc s s1 \<Longrightarrow> same_pc s1 s2 \<Longrightarrow> same_pc s s2"
  by (auto simp: same_pc_def)

text \<open>The extension part of an instruction, if it has one.\<close>

lemma ext_part:
  assumes "machine_ok s" "(if x then call_op (GetExtOp inst s) inst s else Inr s) = Inr s1"
  shows "same_machine s s1" "same_pc s s1" "log_ok s1" "\<not> x \<Longrightarrow> log_clear s1"
proof -
  have "same_machine s s1 \<and> same_pc s s1 \<and> log_ok s1" if x
  proof -
    define i where "i = (if drop_bit 12 inst = 3 then inst AND 0x7f else inst AND 0xff)"
    have f: "find_function i int_opcodes_ext inst s = Inr s1"
      using assms that by (simp add: GetExtOp_def call_op_def machine_ok_def Let_def i_def split: if_splits)
    show ?thesis
      using ext_handler_mem [of i] ext_same [of inst s s1] ext_log [of s inst s1] assms(1) f
      by (auto simp: list_all_iff machine_ok_def)
  qed
  then show "same_machine s s1" "same_pc s s1" "log_ok s1" "\<not> x \<Longrightarrow> log_clear s1"
    using assms log_shapes(1) by (cases x; auto simp: machine_ok_def log_clear_def log_ok_def)+
qed

lemma ExecuteInstruction_ok:
  assumes "machine_ok s" "ExecuteInstruction inst s = Inr s'"
  shows "machine_ok s'" "same_machine s s'"
    and "\<not> branch (init_op_table inst) \<Longrightarrow> \<not> g_init_hax s \<Longrightarrow>
      \<not> g_init_hax s' \<and> g_pc s' = g_pc s + of_nat (tsize (init_op_table inst)) - 1"
proof -
  let ?t = "init_op_table inst"
  obtain s1 s2 where s1: "(if extended ?t then call_op (GetExtOp inst s) inst s else Inr s) = Inr s1"
    and s2: "call_op (GetOp inst s1) inst s1 = Inr s2"
    and s': "(if extended ?t then ApplyWriteBackLog s2 else Inr s2) = Inr s'"
    using assms by (auto simp: ExecuteInstruction_def GetOpTemplate_def machine_ok_def bind_res_eq_Inr)
  note ext = ext_part [OF assms(1) s1]
  have "s_tables_initialized s1" using ext(1) assms(1) by (simp add: machine_ok_def same_machine_def)
  then have f: "find_function inst int_opcodes inst s1 = Inr s2"
    using s2 by (simp add: call_op_def GetOp_def)
  then have main: "ctl s2 = ctl s1" "same_machine s1 s2"
    using handler_agrees(1) [of inst] by (auto simp: contained_def)
  have "log_ok s2" "\<not> extended ?t \<Longrightarrow> log_clear s2"
    using main(1) ext(3,4) by (auto simp: log_ok_def log_clear_def ctl_def)
  then have post: "same_machine s2 s' \<and> same_pc s2 s' \<and> log_clear s'"
    using s' ApplyWriteBackLog_ok [of s2] by (cases "extended ?t") force+
  show "same_machine s s'" using ext(1) main(2) post by (blast intro: same_machine_trans)
  with post show "machine_ok s'" using assms(1) by (blast intro: machine_ok_same)
  assume "\<not> branch ?t" "\<not> g_init_hax s"
  then have "kept (s1\<lparr>g_pc := g_pc s1 + (of_nat (tsize ?t) - 1)\<rparr>) s2"
    using handler_agrees(2) f by (simp add: straight_def)
  then show "\<not> g_init_hax s' \<and> g_pc s' = g_pc s + of_nat (tsize ?t) - 1"
    using ext(2) post \<open>\<not> g_init_hax s\<close> by (auto simp: kept_def same_pc_def)
qed

section \<open>One step\<close>

lemma machine_ok_updates [simp]:
  "machine_ok (s\<lparr>g_pc := v\<rparr>) = machine_ok s" "machine_ok (s\<lparr>g_step_counter := c\<rparr>) = machine_ok s"
  "machine_ok (s\<lparr>r_st := st\<rparr>) = machine_ok s"
  by (simp_all add: machine_ok_def log_clear_def stacks_ok_def stack_wf_def)

lemma machine_ok_kept: "kept s s' \<Longrightarrow> machine_ok s \<Longrightarrow> machine_ok s'"
  by (auto simp: kept_def ctl_def machine_ok_def same_machine_def log_clear_def)

lemma machine_ok_fire: "machine_ok s \<Longrightarrow> machine_ok (fire_exception i s)"
proof -
  assume "machine_ok s"
  then have "machine_ok (dsp_reg_store_stack Data (r_sr s) (dsp_reg_store_stack Call (g_pc s) s))"
    by (rule machine_ok_kept [of s, rotated]) (intro kept_store_stack kept_refl)
  then show ?thesis
    by (simp add: fire_exception_def Let_def dsp_frame machine_ok_def log_clear_def stacks_ok_def stack_wf_def)
qed

lemma machine_ok_CheckExceptions: "machine_ok s \<Longrightarrow> machine_ok (DSPCore_CheckExceptions s)"
  by (rule CheckExceptions_cases [of s]) (auto simp: machine_ok_fire)

lemma machine_ok_load: "machine_ok s \<Longrightarrow> machine_ok (snd (dsp_reg_load_stack k s))"
  by (rule machine_ok_kept [of s]) (simp_all add: kept_load_stack)

lemma machine_ok_HandleLoop: "machine_ok s \<Longrightarrow> machine_ok (HandleLoop s)"
  by (simp add: HandleLoop_def Let_def machine_ok_load)

lemma Step_ok:
  assumes "machine_ok s" "Step s = Inr s'"
  shows "machine_ok s'"
proof -
  let ?s1 = "DSPCore_CheckExceptions s"
  let ?s2 = "?s1\<lparr>g_step_counter := g_step_counter ?s1 + 1\<rparr>"
  obtain s4 where s4: "ExecuteInstruction (dsp_imem_read (g_pc ?s2) ?s2) (?s2\<lparr>g_pc := g_pc ?s2 + 1\<rparr>) = Inr s4"
    and s': "s' = (if GetCodeFlags (g_pc s4 - 1) s4 AND CODE_LOOP_END \<noteq> 0 then HandleLoop s4 else s4)"
    using assms(2)
    unfolding Step_def Let_def fetch_snd prod.case bind_res_eq_Inr if_distrib [of Inr, symmetric] sum.inject
    by blast
  have "machine_ok (?s2\<lparr>g_pc := g_pc ?s2 + 1\<rparr>)" using assms(1) by (simp add: machine_ok_CheckExceptions)
  then have "machine_ok s4" using s4 by (rule ExecuteInstruction_ok(1))
  then show ?thesis unfolding s' by (simp add: machine_ok_HandleLoop)
qed

text \<open>Runs of the interpreter as sequences of steps.\<close>

inductive steps :: "nat \<Rightarrow> DSP \<Rightarrow> DSP \<Rightarrow> bool" where
  steps_0: "steps 0 s s"
| steps_Suc: "Step s = Inr s1 \<Longrightarrow> steps n s1 s2 \<Longrightarrow> steps (Suc n) s s2"

inductive_cases steps_0E: "steps 0 s s'"

lemma steps_trans: "steps m s s1 \<Longrightarrow> steps n s1 s2 \<Longrightarrow> steps (m + n) s s2"
  by (induction rule: steps.induct) (auto intro: steps_Suc)

lemma steps_ok: "steps n s s' \<Longrightarrow> machine_ok s \<Longrightarrow> machine_ok s'"
  by (induction rule: steps.induct) (auto intro: Step_ok)

text \<open>Without breakpoints a phase takes at most one step per round and leaves no negative budget.\<close>

lemma run_phase_steps:
  assumes "run_phase (\<lambda>_. False) h i n cycles s = Inr (ret, c, s')" "0 \<le> cycles"
  shows "\<exists>k. steps k s s' \<and> (if ret then c = 0 \<and> int k \<le> cycles + 1 else c = cycles - int k \<and> 0 \<le> c)"
  using assms
proof (induction n arbitrary: cycles s)
  case 0
  then show ?case by (auto intro!: exI [of _ 0] steps_0)
next
  case (Suc n)
  consider "ret" "c = 0" "s' = s" | s1 where "Step s = Inr s1" "cycles = 0" "ret" "c = 0" "s' = s1"
    | s1 where "Step s = Inr s1" "0 \<le> cycles - 1" "run_phase (\<lambda>_. False) h i n (cycles - 1) s1 = Inr (ret, c, s')"
    using Suc.prems by (fastforce simp: bind_res_eq_Inr split: if_splits)
  then show ?case
  proof cases
    case 1
    then show ?thesis using Suc.prems by (auto intro!: exI [of _ 0] steps_0)
  next
    case (2 s1)
    then show ?thesis by (auto intro!: exI [of _ 1] steps_Suc [of s s1] steps_0)
  next
    case (3 s1)
    from Suc.IH [OF 3(3,2)] obtain k where
      "steps k s1 s'" "if ret then c = 0 \<and> int k \<le> cycles else c = cycles - 1 - int k \<and> 0 \<le> c" by (auto split: if_splits)
    then show ?thesis using 3(1) by (auto intro!: exI [of _ "Suc k"] steps_Suc [of s s1] split: if_splits)
  qed
qed

section \<open>The cycle loop\<close>


lemma run_main_steps:
  assumes "run_main (\<lambda>_. False) cycles s = Inr (c, s')" "0 \<le> cycles"
  shows "c = 0 \<and> (\<exists>k. steps k s s' \<and> int k \<le> cycles + 1)"
  using assms
proof (induction "nat cycles" arbitrary: cycles s rule: less_induct)
  case less
  obtain r1 c1 s1 where p1: "run_phase (\<lambda>_. False) True True 8 cycles s = Inr (r1, c1, s1)"
    using less.prems(1) by (subst (asm) run_main.simps) (auto simp: bind_res_eq_Inr)
  obtain k1 where k1: "steps k1 s s1" "if r1 then c1 = 0 \<and> int k1 \<le> cycles + 1 else c1 = cycles - int k1 \<and> 0 \<le> c1"
    using run_phase_steps [OF p1 less.prems(2)] by blast
  show ?case
  proof (cases r1)
    case True
    then have "c = c1" "s' = s1" using less.prems(1) p1 by (subst (asm) run_main.simps, simp)+
    with True k1 show ?thesis by auto
  next
    case False
    have less1: "c1 = cycles - 8" using run_phase_continues [of "\<lambda>_. False" True True 8 cycles s c1 s1] p1 False by simp
    obtain r2 c2 s2 where p2: "run_phase (\<lambda>_. False) False False 200 c1 s1 = Inr (r2, c2, s2)"
      using less.prems(1) p1 False by (subst (asm) run_main.simps) (auto simp: bind_res_eq_Inr)
    have c1: "0 \<le> c1" "c1 = cycles - int k1" using k1(2) False by simp_all
    obtain k2 where k2: "steps k2 s1 s2" "if r2 then c2 = 0 \<and> int k2 \<le> c1 + 1 else c2 = c1 - int k2 \<and> 0 \<le> c2"
      using run_phase_steps [OF p2 c1(1)] by blast
    have s12: "steps (k1 + k2) s s2" using k1(1) k2(1) by (rule steps_trans)
    show ?thesis
    proof (cases r2)
      case True
      then have "c = c2" "s' = s2" using less.prems(1) p1 p2 False by (subst (asm) run_main.simps, simp)+
      with True k2 s12 c1 show ?thesis by (auto intro!: exI [of _ "k1 + k2"])
    next
      case r2: False
      have "run_main (\<lambda>_. False) c2 s2 = Inr (c, s')"
        using less.prems(1) p1 p2 False r2 by (subst (asm) run_main.simps) simp
      moreover have "nat c2 < nat cycles" "0 \<le> c2" using k2(2) r2 less1 c1 by auto
      ultimately obtain k where "c = 0" "steps k s2 s'" "int k \<le> c2 + 1" using less.hyps by blast
      with s12 show ?thesis using k2(2) r2 c1 by (auto intro!: exI [of _ "k1 + k2 + k"] intro: steps_trans [OF s12])
    qed
  qed
qed

lemma RunCycles_steps:
  assumes "RunCycles cycles s = Inr (c, s')" "0 \<le> cycles"
  shows "c = 0 \<and> (\<exists>k. steps k s s' \<and> int k \<le> cycles + 1)"
proof -
  obtain r1 c1 s1 where p1: "run_phase (\<lambda>_. False) True False 8 cycles s = Inr (r1, c1, s1)"
    and rest: "(if r1 then Inr (c1, s1) else run_main (\<lambda>_. False) c1 s1) = Inr (c, s')"
    using assms(1) by (auto simp: RunCycles_def RunCyclesDebug_def bind_res_eq_Inr)
  obtain k1 where k1: "steps k1 s s1" "if r1 then c1 = 0 \<and> int k1 \<le> cycles + 1 else c1 = cycles - int k1 \<and> 0 \<le> c1"
    using run_phase_steps [OF p1 assms(2)] by blast
  show ?thesis
  proof (cases r1)
    case False
    with k1(2) have "0 \<le> c1" "c1 = cycles - int k1" by simp_all
    with run_main_steps [of c1 s1 c s'] rest False obtain k where "c = 0" "steps k s1 s'" "int k \<le> c1 + 1" by auto
    with k1(1) \<open>c1 = cycles - int k1\<close> show ?thesis by (auto intro!: exI [of _ "k1 + k"] steps_trans)
  qed (use k1 rest in auto)
qed

text \<open>An error of the loop is the error of the first step that fails.\<close>

definition step_fails :: "DSP \<Rightarrow> dsp_error \<Rightarrow> bool" where
  "step_fails s e \<longleftrightarrow> (\<exists>k t. steps k s t \<and> Step t = Inl e)"

lemma step_fails_later: "steps k s t \<Longrightarrow> step_fails t e \<Longrightarrow> step_fails s e"
  by (auto simp: step_fails_def intro: steps_trans)

lemma run_phase_fails: "run_phase bp h i n cycles s = Inl e \<Longrightarrow> step_fails s e"
proof (induction n arbitrary: cycles s)
  case (Suc n)
  then consider "Step s = Inl e" | s1 where "Step s = Inr s1" "step_fails s1 e"
    by (auto simp: bind_res_eq_Inl split: if_splits)
  then show ?case
    by cases (auto simp: step_fails_def intro: steps_0 steps_Suc)
qed simp

lemma run_main_fails:
  "run_main (\<lambda>_. False) cycles s = Inl e \<Longrightarrow> 0 \<le> cycles \<Longrightarrow> step_fails s e"
proof (induction "nat cycles" arbitrary: cycles s rule: less_induct)
  case less
  from less.prems(1) consider "run_phase (\<lambda>_. False) True True 8 cycles s = Inl e"
    | c1 s1 where "run_phase (\<lambda>_. False) True True 8 cycles s = Inr (False, c1, s1)"
        "run_phase (\<lambda>_. False) False False 200 c1 s1 = Inl e"
    | c1 s1 c2 s2 where "run_phase (\<lambda>_. False) True True 8 cycles s = Inr (False, c1, s1)"
        "run_phase (\<lambda>_. False) False False 200 c1 s1 = Inr (False, c2, s2)" "run_main (\<lambda>_. False) c2 s2 = Inl e"
    by (subst (asm) run_main.simps) (auto simp: bind_res_eq_Inl split: if_splits)
  then show ?case
  proof cases
    case 1
    then show ?thesis by (rule run_phase_fails)
  next
    case (2 c1 s1)
    from run_phase_steps [OF 2(1) less.prems(2)] run_phase_fails [OF 2(2)] show ?thesis
      by (auto intro: step_fails_later)
  next
    case (3 c1 s1 c2 s2)
    obtain k1 where k1: "steps k1 s s1" "0 \<le> c1" using run_phase_steps [OF 3(1) less.prems(2)] by auto
    obtain k2 where k2: "steps k2 s1 s2" "0 \<le> c2" using run_phase_steps [OF 3(2) k1(2)] by auto
    have "nat c2 < nat cycles"
      using run_phase_continues [OF 3(1)] run_phase_continues [OF 3(2)] k2(2) by simp
    then have "step_fails s2 e" using less.hyps 3(3) k2(2) by blast
    then show ?thesis using k1 k2 by (blast intro: step_fails_later)
  qed
qed

lemma RunCycles_fails: "RunCycles cycles s = Inl e \<Longrightarrow> 0 \<le> cycles \<Longrightarrow> step_fails s e"
  unfolding RunCycles_def RunCyclesDebug_def bind_res_eq_Inl
  by (auto dest!: run_main_fails run_phase_steps dest: run_phase_fails intro: step_fails_later split: if_splits)

lemma machine_ok_blank: "machine_ok blank_dsp"
  by (simp add: machine_ok_def log_clear_def stacks_ok_def stack_wf_def blank_dsp_def)

text \<open>
  The two opcode tables decode alike and without ambiguity: an instruction word that matches the row of
  the template table has that row as its template, and the interpreter calls the handler of
  the row with the same opcode and mask in its own table.
\<close>

theorem instruction_decoding:
  assumes "t \<in> set s_opcodes" "inst AND opcode_mask t = opcode t"
  shows "init_op_table inst = t \<and>
    (\<exists>r \<in> set int_opcodes. io_opcode r = opcode t \<and> io_opcode_mask r = opcode_mask t \<and>
       find_function inst int_opcodes = io_function r)"
proof -
  have f: "FindByOpcode opcode opcode_mask inst s_opcodes = Some t"
    using assms by (rule main_ops.FindByOpcode_unique)
  from find_agrees [OF tables_agree, of inst] f obtain r where
    r: "FindByOpcode io_opcode io_opcode_mask inst int_opcodes = Some r" "row_agrees t r"
    by (auto simp: option_rel_Some1)
  then have "r \<in> set int_opcodes" by (auto simp: FindByOpcode_def find_Some_iff)
  with r init_op_table_row [OF assms] show ?thesis by (auto simp: row_agrees_def find_function_def)
qed

text \<open>
  Every instruction that is not a branch moves the program counter on by exactly the size its
  template gives (the first word has been fetched already), and every instruction leaves the
  write-back log of the extension opcodes empty. (The boot hack, which resets the DSP when
  the mailbox is read, is excluded.)
\<close>

theorem instruction_size:
  assumes "machine_ok s" "ExecuteInstruction inst s = Inr s'"
    and "\<not> branch (init_op_table inst)" "\<not> g_init_hax s"
  shows "g_pc s' = g_pc s + of_nat (tsize (init_op_table inst)) - 1 \<and> writeBackLogIdx s' = (\<lambda>_. -1)"
  using ExecuteInstruction_ok [OF assms(1,2)] assms(3,4) by (auto simp: machine_ok_def log_clear_def)

abbreviation (input) lri_row :: DSPOPCTemplate where
  "lri_row \<equiv> Template ''LRI'' 0x0080 0xffe0 2 2 [Param P_REG 1 0 0 0x001f, Param P_IMM 2 1 0 0xffff]
     False False False True False"

lemma lri_row_mem: "lri_row \<in> set s_opcodes"
  by (simp add: s_opcodes_def s_opcodes_ret_def s_opcodes_call_if_def s_opcodes_jump_def s_opcodes_short_def)

lemma lri_handler: "find_function 0x0084 int_opcodes = total op_lri"
  by (simp add: find_function_def FindByOpcode_def int_opcodes_def int_opcodes_1_def int_opcodes_2_def int_opcodes_3_def)

theorem instruction_decoding_witness:
  "init_op_table 0x0084 = lri_row \<and>
   (\<exists>r \<in> set int_opcodes. io_opcode r = 0x0080 \<and> io_opcode_mask r = 0xffe0 \<and>
      find_function 0x0084 int_opcodes = io_function r)"
  using instruction_decoding [OF lri_row_mem, of "0x0084"] by simp

theorem instruction_size_witness:
  "\<exists>s'. ExecuteInstruction 0x0084 (blank_dsp\<lparr>g_pc := 0x30\<rparr>) = Inr s' \<and> g_pc s' = 0x31"
proof -
  let ?s = "blank_dsp\<lparr>g_pc := 0x30\<rparr>"
  have t: "init_op_table 0x0084 = lri_row" by (rule init_op_table_row [OF lri_row_mem]) simp
  have "machine_ok ?s" using machine_ok_blank by simp
  moreover obtain s' where "ExecuteInstruction 0x0084 ?s = Inr s'"
    by (simp add: ExecuteInstruction_def GetOpTemplate_def blank_dsp_def t call_op_def GetOp_def lri_handler total_def)
  ultimately show ?thesis
    using instruction_size [of ?s "0x0084" s'] t by (simp add: blank_dsp_def)
qed

end
