(* ===== verification/DSP_Progress.thy ===== *)
theory DSP_Progress
  imports DSP_Dispatch
begin

text \<open>
  When the processor cannot get stuck: in GameCube mode and with the DMA engine masked
  (\<^verbatim>\<open>DSP_AMDM\<close> nonzero) no instruction faults, since the only other sources of errors are null
  table entries and an overflow of the write-back log, which the machine invariant excludes.
\<close>

section \<open>Operations that succeed\<close>

definition succeeds :: "'a result \<Rightarrow> bool" where
  "succeeds m \<longleftrightarrow> (\<exists>x. m = Inr x)"

lemma succeeds_Inr [simp]: "succeeds (Inr x)" "\<not> succeeds (Inl e)"
  by (simp_all add: succeeds_def)

lemma succeeds_bind: "succeeds m \<Longrightarrow> (\<And>x. m = Inr x \<Longrightarrow> succeeds (f x)) \<Longrightarrow> succeeds (bind_res m f)"
  by (auto simp: succeeds_def)

definition gc_mode :: "DSP \<Rightarrow> bool" where
  "gc_mode s \<longleftrightarrow> \<not> aram_wii_mode (s_ARAM s)"

text \<open>The accelerator never fails over a memory that always answers.\<close>

lemma succeeds_Read: "succeeds (Read (\<lambda>a. Inr (mem a)) coefs acc)"
  by (auto simp: Read_def Read_sample_def Read_adpcm_def Let_def case_prod_beta intro!: succeeds_bind)

lemma succeeds_ReadD3: "succeeds (ReadD3 (\<lambda>a. Inr (mem a)) acc)"
  by (auto simp: ReadD3_def case_prod_beta intro!: succeeds_bind)

lemma ReadARAM_gc: "gc_mode s \<Longrightarrow> (\<lambda>a. ReadARAM a s) = (\<lambda>a. Inr (aram_ptr (s_ARAM s) (a AND aram_mask (s_ARAM s))))"
  by (simp add: fun_eq_iff ReadARAM_def gc_mode_def)

lemma succeeds_dmem_read: "gc_mode s \<Longrightarrow> succeeds (dsp_dmem_read a s)"
  by (auto simp: dsp_dmem_read_def gdsp_ifx_read_def Let_def ReadARAM_gc case_prod_beta
      intro!: succeeds_bind succeeds_Read succeeds_ReadD3)

lemma succeeds_dmem_write: "g_ifx_regs s DSP_AMDM \<noteq> 0 \<Longrightarrow> succeeds (dsp_dmem_write a v s)"
  by (auto simp: dsp_dmem_write_def gdsp_ifx_write_def ifx_write_dsbl_def set_ifx_def Let_def case_prod_beta)

section \<open>The mode does not change\<close>

lemma Analyze_mode: "s_ARAM (Analyze s) = s_ARAM s"
  using Analyze_frame [of s] by auto

lemma gc_mode_updates [simp]:
  "gc_mode (s\<lparr>g_pc := pc\<rparr>) = gc_mode s" "gc_mode (set_ar i w s) = gc_mode s"
  "gc_mode (WriteToBackLog i r v s) = gc_mode s" "gc_mode (snd (store_value r s)) = gc_mode s"
  "gc_mode (snd (dsp_op_read_reg r s)) = gc_mode s" "gc_mode (Analyze s) = gc_mode s"
  "gc_mode (WriteARAM b adr s) = gc_mode s" "gc_mode (s\<lparr>g_accelerator := acc\<rparr>) = gc_mode s"
  by (simp_all add: gc_mode_def set_ar_def WriteToBackLog_def store_value_def dsp_op_read_reg_def
      Let_def stack_defs Analyze_mode WriteARAM_def)

lemma do_dma_mode: "gdsp_do_dma s = Inr s' \<Longrightarrow> gc_mode s' = gc_mode s"
  by (auto simp: gdsp_do_dma_def gdsp_ddma_in_def gdsp_ddma_out_def gdsp_idma_in_def gdsp_idma_out_def
      gdsp_ddma_in_SSSE3_def gdsp_ddma_out_SSSE3_def CodeLoaded_def Let_def gc_mode_def Analyze_mode
      split: if_splits)

lemma ifx_write_mode: "gdsp_ifx_write a v s = Inr s' \<Longrightarrow> gc_mode s' = gc_mode s"
  by (auto simp: gdsp_ifx_write_def ifx_write_dsbl_def WriteD3_def Let_def case_prod_beta bind_res_eq_Inr
      dest!: do_dma_mode split: if_splits)
    (auto simp: gc_mode_def set_ifx_def map_accelerator_def InterruptRequest_def gdsp_mbox_write_h_def
      gdsp_mbox_write_l_def Let_def)

lemma dmem_write_mode: "dsp_dmem_write a v s = Inr s' \<Longrightarrow> gc_mode s' = gc_mode s"
  by (auto simp: dsp_dmem_write_def dest: ifx_write_mode split: if_splits) (auto simp: gc_mode_def)

lemma mbox_read_mode: "gc_mode (snd (gdsp_mbox_read_l m s)) = gc_mode s"
  by (simp add: gdsp_mbox_read_l_def Let_def DSPCore_Reset_def) (simp add: gc_mode_def)

lemma ifx_read_mode: "gdsp_ifx_read a s = Inr (v, s') \<Longrightarrow> gc_mode s' = gc_mode s"
  using mbox_read_mode [of MAILBOX_DSP s] mbox_read_mode [of MAILBOX_CPU s]
  by (auto simp: gdsp_ifx_read_def Let_def case_prod_beta bind_res_eq_Inr split: if_splits)
    (auto simp: gc_mode_def DSPCore_SetException_def)

lemma dmem_read_mode: "dsp_dmem_read a s = Inr (v, s') \<Longrightarrow> gc_mode s' = gc_mode s"
  by (auto simp: dsp_dmem_read_def dest: ifx_read_mode split: if_splits)

section \<open>Handlers\<close>

text \<open>The condition under which a handler cannot fail.\<close>

definition quiet :: "DSP \<Rightarrow> bool" where
  "quiet s \<longleftrightarrow> gc_mode s \<and> g_ifx_regs s DSP_AMDM \<noteq> 0 \<and> s_op_table s = (\<lambda>i. Some (init_op_table i))"

lemma quiet_updates [simp]:
  "quiet (s\<lparr>g_pc := pc\<rparr>) = quiet s" "quiet (snd (store_value r s)) = quiet s"
  "quiet (snd (dsp_op_read_reg r s)) = quiet s"
  by (simp_all add: quiet_def set_ar_def store_value_def dsp_op_read_reg_def Let_def stack_defs gc_mode_def)

lemma quiet_succeeds:
  "quiet s \<Longrightarrow> succeeds (dsp_dmem_read a s)" "quiet s \<Longrightarrow> succeeds (dsp_dmem_write a v s)"
  "quiet s \<Longrightarrow> succeeds (dsp_skip_inst s)"
  by (simp_all add: quiet_def succeeds_dmem_read succeeds_dmem_write dsp_skip_inst_def)

definition progresses :: "InterpreterFunction \<Rightarrow> bool" where
  "progresses f \<longleftrightarrow> (\<forall>opc s. quiet s \<longrightarrow> succeeds (f opc s))"

lemma progresses_total [simp]: "progresses (total f)"
  by (simp add: progresses_def total_def)

lemma progresses_memory:
  "progresses op_srs" "progresses op_lrs" "progresses op_lrr" "progresses op_lrrd" "progresses op_lrri"
  "progresses op_lrrn" "progresses op_srr" "progresses op_srrd" "progresses op_srri" "progresses op_srrn"
  "progresses op_lr" "progresses op_sr" "progresses op_si"
  by (auto simp: progresses_def dsp_ops fetch_snd Let_def case_prod_beta intro!: succeeds_bind quiet_succeeds)

lemma progresses_branches:
  "progresses op_ifcc" "progresses op_loop" "progresses op_loopi" "progresses op_bloop" "progresses op_bloopi"
  by (auto simp: progresses_def op_ifcc_def op_loop_def op_loopi_def op_bloop_def op_bloopi_def fetch_snd
      Let_def case_prod_beta intro!: quiet_succeeds)

definition row_progresses :: "DSPOPCTemplate \<Rightarrow> InterpreterOpInfo \<Rightarrow> bool" where
  "row_progresses t r \<longleftrightarrow> progresses (io_function r) \<and>
     (extended t \<longrightarrow> (\<forall>opc s. succeeds (io_function r opc s)))"

lemma succeeds_total [simp]: "succeeds (total f opc s)"
  by (simp add: total_def)

lemma rows_progress: "list_all2 row_progresses s_opcodes int_opcodes"
  unfolding s_opcodes_def int_opcodes_def s_opcodes_ret_def s_opcodes_call_if_def s_opcodes_jump_def
    s_opcodes_short_def s_opcodes_ext_34567_def s_opcodes_ext_89abcdef_def int_opcodes_1_def
    int_opcodes_2_def int_opcodes_3_def int_opcodes_4_def append.simps list_all2_Cons
  by (simp add: row_progresses_def progresses_memory progresses_branches)

lemma progresses_ext:
  assumes "f \<in> set ext_handler_list" "quiet s"
  shows "succeeds (f opc s)"
proof -
  have pair: "succeeds (load_pair a b c s)" for a b c
    using assms(2) unfolding quiet_def
    by (auto simp: load_pair_def Let_def intro!: succeeds_bind succeeds_dmem_read dest!: dmem_read_mode)
  show ?thesis
    using assms unfolding ext_handler_list_def
    by (auto simp: ext_handlers Let_def quiet_def intro!: succeeds_bind succeeds_dmem_read succeeds_dmem_write pair
        dest!: dmem_write_mode)
qed

section \<open>Steps\<close>

lemma find_progresses:
  "list_all2 row_progresses ts rs \<Longrightarrow> list_all2 row_agrees ts rs \<Longrightarrow>
     rel_option row_progresses (FindByOpcode opcode opcode_mask i ts) (FindByOpcode io_opcode io_opcode_mask i rs)"
proof (induction rule: list_all2_induct)
  case (Cons t ts r rs)
  then show ?case by (simp add: FindByOpcode_def row_agrees_def)
qed (simp add: FindByOpcode_def)

lemma handler_progresses:
  "progresses (find_function i int_opcodes)"
  "extended (init_op_table i) \<Longrightarrow> succeeds (find_function i int_opcodes i s)"
proof -
  have "rel_option row_progresses (FindOpInfoByOpcode i) (FindByOpcode io_opcode io_opcode_mask i int_opcodes)"
    using find_progresses [OF rows_progress tables_agree] by (simp add: FindOpInfoByOpcode_def)
  then show "progresses (find_function i int_opcodes)"
    "extended (init_op_table i) \<Longrightarrow> succeeds (find_function i int_opcodes i s)"
    by (auto simp: find_function_def init_op_table_def row_progresses_def cw_def option_rel_Some1 option_rel_Some2 split: option.splits)
qed

lemma ExecuteInstruction_progress:
  assumes "machine_ok s" "quiet s"
  shows "succeeds (ExecuteInstruction inst s)"
proof -
  let ?t = "init_op_table inst"
  have ext: "succeeds (if extended ?t then call_op (GetExtOp inst s) inst s else Inr s)"
    using assms ext_handler_mem progresses_ext by (auto simp: call_op_def GetExtOp_def machine_ok_def Let_def)
  have main: "succeeds (call_op (GetOp inst s1) inst s1)"
    if s1: "(if extended ?t then call_op (GetExtOp inst s) inst s else Inr s) = Inr s1" for s1
  proof -
    have "s_tables_initialized s1"
      using ext_part(1) [OF assms(1) s1] assms(1) by (simp add: machine_ok_def same_machine_def)
    then show ?thesis
      using s1 handler_progresses [of inst] assms(2)
      by (cases "extended ?t") (auto simp: call_op_def GetOp_def progresses_def)
  qed
  have post: "succeeds (if extended ?t then ApplyWriteBackLog s2 else Inr s2)"
    if s1: "(if extended ?t then call_op (GetExtOp inst s) inst s else Inr s) = Inr s1"
      and s2: "call_op (GetOp inst s1) inst s1 = Inr s2" for s1 s2
  proof -
    have "ctl s2 = ctl s1"
      using s2 handler_agrees(1) [of inst] by (auto simp: call_op_def GetOp_def contained_def split: if_splits)
    then have "log_ok s2" using ext_part(3) [OF assms(1) s1] by (simp add: log_ok_def ctl_def)
    then show ?thesis using ApplyWriteBackLog_ok [of s2] by (auto simp: succeeds_def)
  qed
  show ?thesis
  proof -
    have "GetOpTemplate inst s = Some ?t" using assms(1) by (simp add: GetOpTemplate_def machine_ok_def)
    then show ?thesis
      unfolding ExecuteInstruction_def by (simp only: option.case) (intro succeeds_bind ext main post)
  qed
qed

lemma quiet_CheckExceptions: "quiet s \<Longrightarrow> quiet (DSPCore_CheckExceptions s)"
  by (rule CheckExceptions_cases [of s])
    (simp_all add: fire_exception_def Let_def quiet_def gc_mode_def stack_defs)

text \<open>
  C2. The processor never gets stuck on its own: with the machine invariant, in GameCube mode and with the
  DMA engine masked, every step succeeds and keeps the invariant, whatever instruction the
  program counter points to.
\<close>

theorem step_progress:
  assumes "machine_ok s" "\<not> aram_wii_mode (s_ARAM s)" "g_ifx_regs s DSP_AMDM \<noteq> 0"
  shows "\<exists>s'. Step s = Inr s' \<and> machine_ok s'"
proof -
  let ?s2 = "DSPCore_CheckExceptions s\<lparr>g_step_counter := g_step_counter (DSPCore_CheckExceptions s) + 1\<rparr>"
  have "quiet s" using assms by (simp add: quiet_def gc_mode_def machine_ok_def)
  then have "quiet ?s2" using quiet_CheckExceptions [of s] by (simp add: quiet_def gc_mode_def)
  moreover have "machine_ok ?s2" using assms(1) by (simp add: machine_ok_CheckExceptions)
  ultimately have "succeeds (ExecuteInstruction inst (?s2\<lparr>g_pc := pc\<rparr>))" for inst pc
    by (intro ExecuteInstruction_progress) simp_all
  then have "succeeds (Step s)"
    unfolding Step_def Let_def fetch_snd prod.case by (intro succeeds_bind) simp_all
  then show ?thesis using Step_ok [OF assms(1)] by (auto simp: succeeds_def)
qed

theorem step_progress_witness:
  "\<exists>s'. Step (blank_dsp\<lparr>g_iram := (\<lambda>_. 0x1b1f), g_ifx_regs := (\<lambda>_. 1)\<rparr>) = Inr s' \<and> machine_ok s'"
proof (rule step_progress)
  show "machine_ok (blank_dsp\<lparr>g_iram := (\<lambda>_. 0x1b1f), g_ifx_regs := (\<lambda>_. 1)\<rparr>)"
    using machine_ok_blank by (simp add: machine_ok_def log_clear_def stacks_ok_def stack_wf_def)
qed (simp_all add: blank_dsp_def)

end
