(* ===== verification/DSP_LLE.thy ===== *)
theory DSP_LLE
  imports DSP_Dispatch
begin

text \<open>
  The low-level emulation engine \<^verbatim>\<open>DSPLLE\<close> of \<^verbatim>\<open>Core/HW/DSPLLE/DSPLLE.cpp\<close> in its interpreter
  configuration: \<^verbatim>\<open>Initialize\<close> clears \<^verbatim>\<open>dsp_thread\<close> when there is no JIT, so the interpreter
  always runs on the calling thread and the thread branches are never taken. The ROM files are an
  argument: \<open>roms\<close> gives the bytes of \<^verbatim>\<open>dsp_rom.bin\<close> and \<^verbatim>\<open>dsp_coef.bin\<close>, or \<open>None\<close> for a file
  that cannot be read.
\<close>

section \<open>Initialisation\<close>

text \<open>\<^verbatim>\<open>LoadDSPRom\<close>: the file holds big-endian halfwords.\<close>

definition LoadDSPRom :: "u8 list option \<Rightarrow> nat \<Rightarrow> (u16 \<Rightarrow> u16) option" where
  "LoadDSPRom file size_in_bytes =
    (case file of
       None \<Rightarrow> None
     | Some bytes \<Rightarrow>
         if length bytes \<noteq> size_in_bytes then None
         else Some (\<lambda>i. if unat i < size_in_bytes div 2
                        then swap16 (ucast (bytes ! (2 * unat i)) OR
                                     push_bit 8 (ucast (bytes ! (2 * unat i + 1))))
                        else 0))"

definition FillDSPInitOptions :: "u8 list option \<times> u8 list option \<Rightarrow> DSPInitOptions option" where
  "FillDSPInitOptions roms =
    (case LoadDSPRom (fst roms) 0x2000 of
       None \<Rightarrow> None
     | Some irom \<Rightarrow>
         (case LoadDSPRom (snd roms) 0x1000 of
            None \<Rightarrow> None
          | Some coef \<Rightarrow> Some \<lparr>irom_contents = irom, coef_contents = coef\<rparr>))"

definition Initialize :: "u8 list option \<times> u8 list option \<Rightarrow> bool \<Rightarrow> DSP \<Rightarrow> DSP option" where
  "Initialize roms stop_now s =
    (case FillDSPInitOptions roms of
       None \<Rightarrow> None
     | Some opts \<Rightarrow>
         (case DSPCore_Init opts stop_now s of
            None \<Rightarrow> None
          | Some s1 \<Rightarrow> Some (InitInstructionTable (DSPCore_Reset s1))))"

section \<open>The interface to the bus\<close>

definition DSP_WriteControlRegister :: "u16 \<Rightarrow> DSP \<Rightarrow> u16 \<times> DSP" where
  "DSP_WriteControlRegister value s =
    (let s1 = WriteCR value s;
         s2 = (if value AND 2 \<noteq> 0
               then DSPCore_CheckExceptions (DSPCore_CheckExternalInterrupt s1) else s1)
     in ReadCR s2)"

definition DSP_ReadControlRegister :: "DSP \<Rightarrow> u16 \<times> DSP" where
  "DSP_ReadControlRegister s = ReadCR s"

definition DSP_ReadMailBoxHigh :: "bool \<Rightarrow> DSP \<Rightarrow> u16" where
  "DSP_ReadMailBoxHigh cpu_mailbox s =
    gdsp_mbox_read_h (if cpu_mailbox then MAILBOX_CPU else MAILBOX_DSP) s"

definition DSP_ReadMailBoxLow :: "bool \<Rightarrow> DSP \<Rightarrow> u16 \<times> DSP" where
  "DSP_ReadMailBoxLow cpu_mailbox s =
    gdsp_mbox_read_l (if cpu_mailbox then MAILBOX_CPU else MAILBOX_DSP) s"

definition DSP_WriteMailBoxHigh :: "bool \<Rightarrow> u16 \<Rightarrow> DSP \<Rightarrow> DSP" where
  "DSP_WriteMailBoxHigh cpu_mailbox value s =
    (if cpu_mailbox then gdsp_mbox_write_h MAILBOX_CPU value s else s)"

definition DSP_WriteMailBoxLow :: "bool \<Rightarrow> u16 \<Rightarrow> DSP \<Rightarrow> DSP" where
  "DSP_WriteMailBoxLow cpu_mailbox value s =
    (if cpu_mailbox then gdsp_mbox_write_l MAILBOX_CPU value s else s)"

text \<open>C's \<^verbatim>\<open>cycles / 6\<close> truncates towards zero.\<close>

definition DSP_Update :: "nat \<Rightarrow> CoreState list \<Rightarrow> int \<Rightarrow> DSP \<Rightarrow> DSP result option" where
  "DSP_Update n waits cycles s =
    (let dsp_cycles = (if cycles < 0 then - ((- cycles) div 6) else cycles div 6)
     in if dsp_cycles \<le> 0 then Some (Inr s)
        else case DSPCore_RunCycles n waits dsp_cycles s of
               None \<Rightarrow> None
             | Some (Inl e) \<Rightarrow> Some (Inl e)
             | Some (Inr (_, s1)) \<Rightarrow> Some (Inr s1))"

definition DSPLLE_Shutdown :: "DSP \<Rightarrow> DSP" where
  "DSPLLE_Shutdown s = DSPCore_Shutdown s"

section \<open>Initialisation establishes the machine invariant\<close>

lemma Init_fields:
  assumes "DSPCore_Init opts stop_now s0 = Some s"
  shows "core_state s = Running" "r_sr s = SR_INT_ENABLE OR SR_EXT_INT_ENABLE" "g_cr s = 0x804"
    "g_reg_stack_ptr s = (\<lambda>_. 0)" "g_irom s = irom_contents opts" "g_coef s = coef_contents opts"
    "g_iram s = (\<lambda>_. 0x0021)" "g_dram s = (\<lambda>_. 0)" "g_mbox s = (\<lambda>_. 0)" "\<not> g_init_hax s"
    "s_op_table s = s_op_table s0"
  using assms by (auto simp: DSPCore_Init_def Let_def gdsp_ifx_init_def dsp_SR_set_flag_def split: if_splits)

lemma machine_ok_Initialize:
  assumes "Initialize roms stop_now s0 = Some s"
  shows "machine_ok s"
proof -
  obtain opts s1 where i: "DSPCore_Init opts stop_now s0 = Some s1" "s = InitInstructionTable (DSPCore_Reset s1)"
    using assms by (auto simp: Initialize_def split: option.splits)
  obtain f where "DSPCore_Reset s1 = s1\<lparr>g_pc := 0x8000, r_wr := (\<lambda>_. 0xffff), code_flags := f\<rparr>"
    using Reset_frame by blast
  with i show ?thesis
    by (simp add: machine_ok_def InitInstructionTable_def log_clear_def stacks_ok_def stack_wf_def Init_fields(4) [OF i(1)])
qed

text \<open>ROM files of the right size load, and the engine starts unless the user stops it.\<close>

lemma Initialize_starts:
  assumes "length irom = 0x2000" "length coef = 0x1000"
  shows "\<exists>s. Initialize (Some irom, Some coef) False s0 = Some s"
  using assms
  by (simp add: Initialize_def FillDSPInitOptions_def LoadDSPRom_def DSPCore_Init_def VerifyRoms_def Let_def)

text \<open>
  Starting the engine: it fails exactly when a ROM file is missing or has the wrong size, or when the hashes are
  unknown and the user decides to stop; otherwise the processor is Running at the reset vector
  with both interrupt enables set, empty mailboxes, instruction RAM full of HALT, the ROM
  contents in place and the machine invariant established.
\<close>

theorem engine_start:
  "(Initialize roms stop_now s0 = None \<longleftrightarrow>
     FillDSPInitOptions roms = None \<or>
     (\<exists>opts. FillDSPInitOptions roms = Some opts \<and> stop_now \<and>
        rom_index (HashAdler32 (host_bytes 0x1000 (irom_contents opts)))
          (HashAdler32 (host_bytes 0x800 (coef_contents opts))) < 0)) \<and>
   (\<forall>s. Initialize roms stop_now s0 = Some s \<longrightarrow>
     machine_ok s \<and> core_state s = Running \<and> g_pc s = 0x8000 \<and> r_wr s = (\<lambda>_. 0xffff) \<and>
     r_sr s = SR_INT_ENABLE OR SR_EXT_INT_ENABLE \<and> g_iram s = (\<lambda>_. 0x0021) \<and> g_mbox s = (\<lambda>_. 0) \<and>
     (\<exists>opts. FillDSPInitOptions roms = Some opts \<and> g_irom s = irom_contents opts \<and> g_coef s = coef_contents opts))"
proof (intro conjI allI impI)
  show "Initialize roms stop_now s0 = None \<longleftrightarrow>
     FillDSPInitOptions roms = None \<or>
     (\<exists>opts. FillDSPInitOptions roms = Some opts \<and> stop_now \<and>
        rom_index (HashAdler32 (host_bytes 0x1000 (irom_contents opts)))
          (HashAdler32 (host_bytes 0x800 (coef_contents opts))) < 0)"
    by (auto simp: Initialize_def DSPCore_Init_def VerifyRoms_def Let_def split: option.splits)
next
  fix s assume s: "Initialize roms stop_now s0 = Some s"
  then obtain opts s1 where i: "DSPCore_Init opts stop_now s0 = Some s1" "s = InitInstructionTable (DSPCore_Reset s1)"
    and o: "FillDSPInitOptions roms = Some opts"
    by (auto simp: Initialize_def split: option.splits)
  obtain f where r: "DSPCore_Reset s1 = s1\<lparr>g_pc := 0x8000, r_wr := (\<lambda>_. 0xffff), code_flags := f\<rparr>"
    using Reset_frame by blast
  show "machine_ok s" using s by (rule machine_ok_Initialize)
  show "core_state s = Running" "g_pc s = 0x8000" "r_wr s = (\<lambda>_. 0xffff)"
    "r_sr s = SR_INT_ENABLE OR SR_EXT_INT_ENABLE" "g_iram s = (\<lambda>_. 0x0021)" "g_mbox s = (\<lambda>_. 0)"
    "\<exists>opts. FillDSPInitOptions roms = Some opts \<and> g_irom s = irom_contents opts \<and> g_coef s = coef_contents opts"
    using Init_fields [OF i(1)] o by (simp_all add: i(2) r InitInstructionTable_def)
qed

theorem engine_start_witness:
  "\<exists>s. Initialize (Some (replicate 0x2000 0x21), Some (replicate 0x1000 7)) False blank_dsp = Some s \<and>
     g_pc s = 0x8000 \<and> machine_ok s"
proof -
  let ?roms = "(Some (replicate 0x2000 0x21), Some (replicate 0x1000 7))"
  obtain s where "Initialize ?roms False blank_dsp = Some s"
    using Initialize_starts [of "replicate 0x2000 0x21" "replicate 0x1000 7" blank_dsp] by auto
  then show ?thesis using engine_start [of ?roms False blank_dsp] by blast
qed

section \<open>Everything the engine can do\<close>

text \<open>
  The states of the engine: it is started (also again after a shutdown), the processor steps, and the
  CPU reads and writes the control register and the mailboxes in any order between steps.
\<close>

inductive engine_state :: "DSP \<Rightarrow> bool" where
  engine_initialize: "Initialize roms stop_now s0 = Some s \<Longrightarrow> engine_state s"
| engine_step: "engine_state s \<Longrightarrow> Step s = Inr s' \<Longrightarrow> engine_state s'"
| engine_run: "engine_state s \<Longrightarrow> 0 \<le> cycles \<Longrightarrow> RunCycles cycles s = Inr (c, s') \<Longrightarrow> engine_state s'"
| engine_write_control: "engine_state s \<Longrightarrow> engine_state (snd (DSP_WriteControlRegister v s))"
| engine_read_control: "engine_state s \<Longrightarrow> engine_state (snd (DSP_ReadControlRegister s))"
| engine_write_high: "engine_state s \<Longrightarrow> engine_state (DSP_WriteMailBoxHigh cpu v s)"
| engine_write_low: "engine_state s \<Longrightarrow> engine_state (DSP_WriteMailBoxLow cpu v s)"
| engine_read_low: "engine_state s \<Longrightarrow> engine_state (snd (DSP_ReadMailBoxLow cpu s))"

lemma machine_ok_Reset: "machine_ok (DSPCore_Reset s) = machine_ok s"
proof -
  obtain f where "DSPCore_Reset s = s\<lparr>g_pc := 0x8000, r_wr := (\<lambda>_. 0xffff), code_flags := f\<rparr>"
    using Reset_frame by blast
  then show ?thesis by (simp add: machine_ok_def log_clear_def stacks_ok_def stack_wf_def)
qed

lemma machine_ok_flags:
  "machine_ok (s\<lparr>g_cr := v\<rparr>) = machine_ok s" "machine_ok (s\<lparr>g_init_hax := b\<rparr>) = machine_ok s"
  "machine_ok (DSPCore_SetException e s) = machine_ok s"
  by (simp_all add: machine_ok_def log_clear_def stacks_ok_def stack_wf_def DSPCore_SetException_def)

lemma machine_ok_ReadCR: "machine_ok (snd (ReadCR s)) = machine_ok s"
  by (simp add: ReadCR_def Let_def machine_ok_flags)

lemma machine_ok_WriteControl: "machine_ok s \<Longrightarrow> machine_ok (snd (DSP_WriteControlRegister v s))"
  by (simp add: DSP_WriteControlRegister_def Let_def machine_ok_ReadCR WriteCR_def machine_ok_flags
      machine_ok_Reset DSPCore_CheckExternalInterrupt_def machine_ok_CheckExceptions)

lemma machine_ok_mailbox:
  "machine_ok s \<Longrightarrow> machine_ok (DSP_WriteMailBoxHigh cpu v s)"
  "machine_ok s \<Longrightarrow> machine_ok (DSP_WriteMailBoxLow cpu v s)"
  "machine_ok s \<Longrightarrow> machine_ok (snd (DSP_ReadMailBoxLow cpu s))"
  using kept_mbox_read_l [of s s]
  by (auto simp: DSP_WriteMailBoxHigh_def DSP_WriteMailBoxLow_def DSP_ReadMailBoxLow_def elim!: machine_ok_kept [rotated])

text \<open>
  C1. In every state the engine can reach, through any interleaving of processor steps, runs of the cycle loop and CPU
  accesses to the control register and the mailboxes, the opcode tables are in place, the
  write-back log is empty between instructions and the four stack pointers are in range.
\<close>

theorem engine_invariant:
  assumes "engine_state s"
  shows "machine_ok s"
  using assms
proof (induction rule: engine_state.induct)
  case (engine_run s cycles c s')
  then show ?case using RunCycles_steps [of cycles s c s'] steps_ok by blast
qed (auto intro: machine_ok_Initialize Step_ok machine_ok_WriteControl machine_ok_mailbox
    simp: DSP_ReadControlRegister_def machine_ok_ReadCR)

theorem engine_invariant_witness:
  "\<exists>s. engine_state s \<and> machine_ok (DSP_WriteMailBoxLow True 5 (snd (DSP_WriteControlRegister 2 s)))"
proof -
  obtain s where "Initialize (Some (replicate 0x2000 0x21), Some (replicate 0x1000 7)) False blank_dsp = Some s"
    using Initialize_starts [of "replicate 0x2000 0x21" "replicate 0x1000 7" blank_dsp] by auto
  then have "engine_state s" by (rule engine_initialize)
  moreover have "engine_state (DSP_WriteMailBoxLow True 5 (snd (DSP_WriteControlRegister 2 s)))"
    using calculation by (intro engine_write_low engine_write_control)
  ultimately show ?thesis using engine_invariant by blast
qed

section \<open>Running\<close>

lemma RunCycles_returns:
  assumes "core_state s = Running"
  shows "DSPCore_RunCycles (Suc (Suc n)) waits cycles s =
    Some (if cycles \<le> 0 then Inr (cycles, s) else RunCycles cycles s)"
proof (cases "RunCycles cycles s")
  case (Inr r)
  then obtain c s' where r: "RunCycles cycles s = Inr (c, s')" by (cases r) auto
  show ?thesis using RunCycles_steps [OF r] r assms by simp
qed (use assms in simp)

lemma stopped_never_returns:
  "core_state s = Stopped \<Longrightarrow> 0 < cycles \<Longrightarrow> DSPCore_RunCycles n waits cycles s = None"
  by (induction n) simp_all

text \<open>
  C6. Running the engine for a slice of the CPU's cycles returns when the processor is Running:
  two rounds of the loop of DSPCore_RunCycles are enough, the processor takes at most one step per six
  CPU cycles and one more, and an error is that of the first failing step.
\<close>

theorem update_returns:
  assumes "core_state s = Running"
  shows "\<exists>r. DSP_Update (Suc (Suc n)) waits cycles s = Some r \<and>
    (case r of
       Inl e \<Rightarrow> \<exists>k t. steps k s t \<and> Step t = Inl e
     | Inr s' \<Rightarrow> \<exists>k. steps k s s' \<and> int k \<le> max 0 (cycles div 6) + 1)"
proof -
  define d where "d = (if cycles < 0 then - ((- cycles) div 6) else cycles div 6)"
  show ?thesis
  proof (cases "d \<le> 0")
    case True
    then have "DSP_Update (Suc (Suc n)) waits cycles s = Some (Inr s)" by (simp add: DSP_Update_def d_def Let_def)
    then show ?thesis by (auto intro!: exI [of _ 0] steps_0)
  next
    case False
    then have pos: "0 < d" "d = cycles div 6" by (auto simp: d_def)
    then have u: "DSP_Update (Suc (Suc n)) waits cycles s =
        Some (case RunCycles d s of Inl e \<Rightarrow> Inl e | Inr (c, s1) \<Rightarrow> Inr s1)"
      using RunCycles_returns [OF assms, of n waits d]
      by (simp add: DSP_Update_def d_def [symmetric] Let_def split: sum.split)
    show ?thesis
    proof (cases "RunCycles d s")
      case (Inl e)
      then show ?thesis using u RunCycles_fails [OF Inl] pos(1) by (simp add: step_fails_def)
    next
      case (Inr r)
      then obtain c s' where r: "RunCycles d s = Inr (c, s')" by (cases r) auto
      then show ?thesis using u RunCycles_steps [OF r] pos by auto
    qed
  qed
qed

theorem update_returns_witness:
  "\<exists>r. DSP_Update (Suc (Suc 0)) [] 60 (blank_dsp\<lparr>g_cr := 4\<rparr>) = Some r \<and>
    (case r of
       Inl e \<Rightarrow> \<exists>k t. steps k (blank_dsp\<lparr>g_cr := 4\<rparr>) t \<and> Step t = Inl e
     | Inr s' \<Rightarrow> \<exists>k. steps k (blank_dsp\<lparr>g_cr := 4\<rparr>) s' \<and> int k \<le> max 0 (60 div 6) + 1)"
  by (rule update_returns) (simp add: blank_dsp_def)

text \<open>
  A processor that was shut down hangs its caller: with cycles left to run, the loop of
  DSPCore_RunCycles makes no progress in the state Stopped and never returns, whatever the bound on its rounds.
\<close>

theorem stopped_hangs:
  assumes "0 < cycles"
  shows "DSPCore_RunCycles n waits cycles (DSPCore_Shutdown s) = None"
  using assms by (intro stopped_never_returns) (auto simp: DSPCore_Shutdown_def)

theorem stopped_hangs_witness: "DSPCore_RunCycles 1000 [] 1 (DSPCore_Shutdown blank_dsp) = None"
  by (rule stopped_hangs) simp

section \<open>Mail\<close>

lemma mail_flag:
  "\<not> (g_init_hax s \<and> mbx = MAILBOX_DSP) \<Longrightarrow> bit (gdsp_mbox_read_h mbx s) 15 \<longleftrightarrow> bit (g_mbox s mbx) 31"
  by (auto simp: gdsp_mbox_read_h_def bit_unsigned_iff bit_drop_bit_eq)

lemma mail_flag_half: "\<not> bit (g_mbox (gdsp_mbox_write_h mbx hi s) mbx) 31"
  by (simp add: gdsp_mbox_write_h_def Let_def word_bit_simps bit_const_simps)

lemma mail_flag_read: "\<not> bit (g_mbox (snd (gdsp_mbox_read_l mbx s)) mbx) 31"
  by (simp add: mbox_emptied word_bit_simps bit_const_simps)

lemma mbox_init_hax [simp]:
  "g_init_hax (gdsp_mbox_write_h mbx v s) = g_init_hax s" "g_init_hax (gdsp_mbox_write_l mbx v s) = g_init_hax s"
  by (simp_all add: gdsp_mbox_write_h_def gdsp_mbox_write_l_def Let_def)

lemma read_l_init_hax: "\<not> g_init_hax s \<Longrightarrow> \<not> g_init_hax (snd (gdsp_mbox_read_l mbx s))"
  by (simp add: gdsp_mbox_read_l_def Let_def)

lemma bit_15_flag: "bit ((hi :: u16) OR 0x8000) 15"
  by (simp add: bit_or_iff)

lemma half_masks: "(0x7FFF :: u16) = mask 15" "(0x80000000 :: u32) = push_bit 31 1" "(0xffff :: u32) = mask 16"
  by (simp_all add: mask_eq_exp_minus_1)

lemma mbox_high_half:
  "gdsp_mbox_read_h MAILBOX_CPU (gdsp_mbox_write_h MAILBOX_CPU hi s) = hi AND 0x7FFF"
  "gdsp_mbox_read_h MAILBOX_CPU (snd (gdsp_mbox_read_l MAILBOX_CPU (gdsp_mbox_write_l MAILBOX_CPU lo (gdsp_mbox_write_h MAILBOX_CPU hi s)))) = hi AND 0x7FFF"
  by (simp_all add: gdsp_mbox_read_h_def gdsp_mbox_write_h_def gdsp_mbox_write_l_def gdsp_mbox_read_l_def Let_def half_masks del: push_bit_of_1)
    (rule bit_word_eqI; auto simp: bit_unsigned_iff bit_drop_bit_eq bit_and_iff bit_or_iff bit_not_iff bit_push_bit_iff bit_mask_iff bit_1_iff simp del: push_bit_of_1 dest: bit_imp_le_length)+
text \<open>
  C7. Mail from the CPU arrives: after the CPU writes the high and then the low half, the DSP reads the two
  halves at its addresses 0xFFFE and 0xFFFF, the top bit as the flag that mail is there. Between the
  two writes the DSP reads the new high half with the flag clear, and after it has read the low half it reads the high
  half with the flag clear; the CPU reads the same flag each time.
\<close>

theorem mail_to_dsp:
  "\<exists>s1 s2 s3. DSP_WriteMailBoxHigh True hi s = s1 \<and> DSP_WriteMailBoxLow True lo s1 = s2 \<and>
     dsp_dmem_read 0xFFFE s1 = Inr (hi AND 0x7FFF, s1) \<and>
     dsp_dmem_read 0xFFFE s2 = Inr (hi OR 0x8000, s2) \<and> dsp_dmem_read 0xFFFF s2 = Inr (lo, s3) \<and>
     dsp_dmem_read 0xFFFE s3 = Inr (hi AND 0x7FFF, s3) \<and>
     \<not> bit (DSP_ReadMailBoxHigh True s1) 15 \<and> bit (DSP_ReadMailBoxHigh True s2) 15 \<and>
     \<not> bit (DSP_ReadMailBoxHigh True s3) 15"
proof -
  let ?s1 = "gdsp_mbox_write_h MAILBOX_CPU hi s"
  let ?s2 = "gdsp_mbox_write_l MAILBOX_CPU lo ?s1"
  let ?s3 = "snd (gdsp_mbox_read_l MAILBOX_CPU ?s2)"
  have h: "gdsp_mbox_read_h MAILBOX_CPU ?s1 = hi AND 0x7FFF" "gdsp_mbox_read_h MAILBOX_CPU ?s3 = hi AND 0x7FFF"
    by (simp_all add: mbox_high_half)
  have "gdsp_mbox_read_h MAILBOX_CPU ?s2 = hi OR 0x8000" "fst (gdsp_mbox_read_l MAILBOX_CPU ?s2) = lo"
    using mbox_read_h_after_write [of s MAILBOX_CPU lo hi] mbox_read_l_after_write [of s MAILBOX_CPU lo hi] by simp_all
  moreover have "dsp_dmem_read 0xFFFE ?s2 = Inr (gdsp_mbox_read_h MAILBOX_CPU ?s2, ?s2)"
    "dsp_dmem_read 0xFFFF ?s2 = Inr (gdsp_mbox_read_l MAILBOX_CPU ?s2)"
    "dsp_dmem_read 0xFFFE ?s1 = Inr (gdsp_mbox_read_h MAILBOX_CPU ?s1, ?s1)"
    "dsp_dmem_read 0xFFFE ?s3 = Inr (gdsp_mbox_read_h MAILBOX_CPU ?s3, ?s3)"
    by (simp_all add: dsp_dmem_read_def gdsp_ifx_read_def)
  moreover have "\<not> bit (gdsp_mbox_read_h MAILBOX_CPU ?s1) 15" "\<not> bit (gdsp_mbox_read_h MAILBOX_CPU ?s3) 15"
    by (simp_all add: mail_flag mail_flag_half mail_flag_read)
  ultimately show ?thesis
    by (intro exI [of _ ?s1] exI [of _ ?s2] exI [of _ ?s3])
      (simp add: DSP_WriteMailBoxHigh_def DSP_WriteMailBoxLow_def DSP_ReadMailBoxHigh_def bit_15_flag prod_eq_iff h)
qed

text \<open>
  Mail to the CPU arrives: after the DSP writes the high and the low half at its addresses 0xFFFC
  and 0xFFFD, the CPU reads the two halves, the top bit as the flag that mail is there, and
  reading the low half clears the flag. (Except while the boot hack is armed, which answers
  in the DSP's place.)
\<close>

theorem mail_to_cpu:
  assumes "\<not> g_init_hax s"
  shows "\<exists>s1 s2. dsp_dmem_write 0xFFFC hi s = Inr s1 \<and> dsp_dmem_write 0xFFFD lo s1 = Inr s2 \<and>
     \<not> bit (DSP_ReadMailBoxHigh False s1) 15 \<and>
     DSP_ReadMailBoxHigh False s2 = hi OR 0x8000 \<and> fst (DSP_ReadMailBoxLow False s2) = lo \<and>
     \<not> bit (DSP_ReadMailBoxHigh False (snd (DSP_ReadMailBoxLow False s2))) 15"
proof -
  let ?s1 = "gdsp_mbox_write_h MAILBOX_DSP hi s"
  let ?s2 = "gdsp_mbox_write_l MAILBOX_DSP lo ?s1"
  have "gdsp_mbox_read_h MAILBOX_DSP ?s2 = hi OR 0x8000" "fst (gdsp_mbox_read_l MAILBOX_DSP ?s2) = lo"
    using assms mbox_read_h_after_write [of s MAILBOX_DSP lo hi] mbox_read_l_after_write [of s MAILBOX_DSP lo hi] by simp_all
  moreover have "dsp_dmem_write 0xFFFC hi s = Inr ?s1" "dsp_dmem_write 0xFFFD lo ?s1 = Inr ?s2"
    by (simp_all add: dsp_dmem_write_def gdsp_ifx_write_def)
  moreover have "\<not> bit (gdsp_mbox_read_h MAILBOX_DSP ?s1) 15"
    "\<not> bit (gdsp_mbox_read_h MAILBOX_DSP (snd (gdsp_mbox_read_l MAILBOX_DSP ?s2))) 15"
    using assms by (simp_all add: mail_flag mail_flag_half mail_flag_read read_l_init_hax)
  ultimately show ?thesis
    by (intro exI [of _ ?s1] exI [of _ ?s2]) (simp add: DSP_ReadMailBoxHigh_def DSP_ReadMailBoxLow_def)
qed

theorem mail_to_cpu_witness:
  "\<exists>s1 s2. dsp_dmem_write 0xFFFC 0x1234 blank_dsp = Inr s1 \<and> dsp_dmem_write 0xFFFD 0x5678 s1 = Inr s2 \<and>
     DSP_ReadMailBoxHigh False s2 = 0x9234 \<and> fst (DSP_ReadMailBoxLow False s2) = 0x5678"
  using mail_to_cpu [of blank_dsp "0x1234" "0x5678"] by (auto simp: blank_dsp_def)

section \<open>The external interrupt\<close>

text \<open>
  The CPU interrupts the DSP through bit 1 of the control register: with external interrupts
  enabled the DSP continues at 0x0E with the interrupted address and status on top of the call
  and data stacks, external interrupts disabled and no external interrupt left pending; with them
  disabled nothing happens to the DSP's registers.
\<close>

theorem external_interrupt:
  assumes "bit v 1" "\<not> bit v 0" "g_exceptions s = 0"
  shows "if dsp_SR_is_flag_set SR_EXT_INT_ENABLE s then
      g_pc (snd (DSP_WriteControlRegister v s)) = 0x0E \<and>
      hd (stack_view Call (snd (DSP_WriteControlRegister v s))) = g_pc s \<and>
      hd (stack_view Data (snd (DSP_WriteControlRegister v s))) = r_sr s \<and>
      r_sr (snd (DSP_WriteControlRegister v s)) = r_sr s AND NOT SR_EXT_INT_ENABLE \<and>
      g_exceptions (snd (DSP_WriteControlRegister v s)) = 0 \<and>
      fst (DSP_WriteControlRegister v s) = v AND NOT 0x802
    else g_pc (snd (DSP_WriteControlRegister v s)) = g_pc s \<and>
      r_sr (snd (DSP_WriteControlRegister v s)) = r_sr s \<and>
      g_exceptions (snd (DSP_WriteControlRegister v s)) = 0"
proof -
  have v: "v AND 1 = 0" "v AND 2 \<noteq> 0" "v \<noteq> 4"
    using assms(1,2) and_push_bit_1 [of v 0] and_push_bit_1 [of v 1] by auto
  then have cr: "WriteCR v s = s\<lparr>g_cr := v\<rparr>" by (simp add: WriteCR_def)
  show ?thesis
  proof (cases "dsp_SR_is_flag_set SR_EXT_INT_ENABLE s")
    case False
    then have "DSPCore_CheckExternalInterrupt (s\<lparr>g_cr := v\<rparr>) = s\<lparr>g_cr := v\<rparr>"
      by (simp add: DSPCore_CheckExternalInterrupt_def dsp_SR_is_flag_set_def)
    then show ?thesis
      using False v cr assms(3) by (simp add: DSP_WriteControlRegister_def ReadCR_def DSPCore_CheckExceptions_def Let_def)
  next
    case True
    let ?t = "s\<lparr>g_exceptions := 0x80, g_cr := v AND NOT 2\<rparr>"
    have "DSPCore_CheckExternalInterrupt (s\<lparr>g_cr := v\<rparr>) = ?t"
      using True assms(3)
      by (simp add: DSPCore_CheckExternalInterrupt_def dsp_SR_is_flag_set_def DSPCore_SetException_def)
    moreover have "DSPCore_CheckExceptions ?t = fire_exception 7 ?t"
      by (rule CheckExceptions_fires) (simp_all add: may_fire_def)
    ultimately have w: "DSP_WriteControlRegister v s = ReadCR (fire_exception 7 ?t)"
      using v cr by (simp add: DSP_WriteControlRegister_def Let_def)
    have "g_cr (fire_exception 7 ?t) = v AND NOT 2"
      by (simp add: fire_exception_def Let_def stack_defs)
    then have "ReadCR (fire_exception 7 ?t) =
        (v AND NOT 0x802, (fire_exception 7 ?t)\<lparr>g_cr := v AND NOT 0x802\<rparr>)"
      by (simp add: ReadCR_def fire_exception_frame Let_def and.assoc)
    then show ?thesis
      using True fire_exception_frame [of 7 ?t] by (simp add: w stack_view_def)
  qed
qed

theorem external_interrupt_witness:
  "g_pc (snd (DSP_WriteControlRegister 2 (blank_dsp\<lparr>g_pc := 0x123, r_sr := 0x0a00\<rparr>))) = 0x0E \<and>
   hd (stack_view Call (snd (DSP_WriteControlRegister 2 (blank_dsp\<lparr>g_pc := 0x123, r_sr := 0x0a00\<rparr>)))) = 0x123"
  using external_interrupt [of 2 "blank_dsp\<lparr>g_pc := 0x123, r_sr := 0x0a00\<rparr>"]
  by (simp add: blank_dsp_def dsp_SR_is_flag_set_def bit_2_iff)

text \<open>
  On the first start the engine runs without any loop information: Initialize analyses the code before it
  builds the opcode tables, so the analyzer finds no templates and no word is flagged as the
  end of a loop, whatever the ROMs contain.
\<close>

theorem first_start_unanalyzed:
  assumes "s_op_table s0 = (\<lambda>_. None)" "Initialize roms stop_now s0 = Some s"
  shows "GetCodeFlags x s AND CODE_LOOP_END = 0"
proof -
  obtain opts s1 where i: "DSPCore_Init opts stop_now s0 = Some s1" "s = InitInstructionTable (DSPCore_Reset s1)"
    using assms(2) by (auto simp: Initialize_def split: option.splits)
  let ?t = "s1\<lparr>g_pc := 0x8000, r_wr := \<lambda>_. 0xffff\<rparr>"
  have tbl: "s_op_table ?t i = None" for i using Init_fields(11) [OF i(1)] assms(1) by simp
  have range: "bit (code_flags (AnalyzeRange a e u) y) 3 \<longleftrightarrow> bit (code_flags u y) 3"
    if "\<And>i. s_op_table u i = None" for a e u y
    using that by (simp add: AnalyzeRange_def Let_def case_prod_beta scan_no_templates idle_scan_bits)
  have "s_op_table (AnalyzeRange a e u) = s_op_table u" for a e u using AnalyzeRange_frame [of a e u] by auto
  then have "\<not> bit (code_flags (Analyze ?t) x) 3"
    using tbl by (simp add: Analyze_def range)
  then have "\<not> bit (GetCodeFlags x s) 3" by (simp add: i(2) InitInstructionTable_def GetCodeFlags_def DSPCore_Reset_def)
  then show ?thesis using and_push_bit_1 [of "GetCodeFlags x s" 3] by auto
qed

theorem first_start_unanalyzed_witness:
  "\<exists>s. Initialize (Some (replicate 0x2000 0x11), Some (replicate 0x1000 7)) False (blank_dsp\<lparr>s_op_table := \<lambda>_. None\<rparr>) =
     Some s \<and> GetCodeFlags 0x8002 s AND CODE_LOOP_END = 0"
proof -
  let ?s0 = "blank_dsp\<lparr>s_op_table := \<lambda>_. None\<rparr>"
  obtain s where s: "Initialize (Some (replicate 0x2000 0x11), Some (replicate 0x1000 7)) False ?s0 = Some s"
    using Initialize_starts [of "replicate 0x2000 0x11" "replicate 0x1000 7" ?s0] by auto
  then show ?thesis using first_start_unanalyzed [OF _ s, of "0x8002"] by simp
qed

end
