(* ===== verification/PPC_Exceptions.thy ===== *)
theory PPC_Exceptions
  imports Prelude
begin

text \<open>
  The exception mechanism of the main processor, \<^verbatim>\<open>PowerPC::CheckExceptions\<close>,
  \<^verbatim>\<open>PowerPC::CheckExternalExceptions\<close> (\<^verbatim>\<open>Core/PowerPC/PowerPC.cpp\<close>) and the instruction
  \<^verbatim>\<open>rfi\<close> (\<^verbatim>\<open>Interpreter_Branch.cpp\<close>). The record holds the part of \<^verbatim>\<open>PowerPCState\<close> they use
  and the cycle counter \<^verbatim>\<open>downcount\<close> of the scheduler. The bits of \<^verbatim>\<open>MSR\<close> are numbered from the
  least significant one.
\<close>

record PowerPCState =
  ppc_pc :: u32
  ppc_npc :: u32
  ppc_msr :: u32
  ppc_srr0 :: u32
  ppc_srr1 :: u32
  ppc_Exceptions :: u32
  ppc_downcount :: int
  ppc_end_block :: bool

abbreviation (input) EXCEPTION_DECREMENTER :: u32 where "EXCEPTION_DECREMENTER \<equiv> 0x001"
abbreviation (input) EXCEPTION_SYSCALL :: u32 where "EXCEPTION_SYSCALL \<equiv> 0x002"
abbreviation (input) EXCEPTION_EXTERNAL_INT :: u32 where "EXCEPTION_EXTERNAL_INT \<equiv> 0x004"
abbreviation (input) EXCEPTION_DSI :: u32 where "EXCEPTION_DSI \<equiv> 0x008"
abbreviation (input) EXCEPTION_ISI :: u32 where "EXCEPTION_ISI \<equiv> 0x010"
abbreviation (input) EXCEPTION_ALIGNMENT :: u32 where "EXCEPTION_ALIGNMENT \<equiv> 0x020"
abbreviation (input) EXCEPTION_FPU_UNAVAILABLE :: u32 where "EXCEPTION_FPU_UNAVAILABLE \<equiv> 0x040"
abbreviation (input) EXCEPTION_PROGRAM :: u32 where "EXCEPTION_PROGRAM \<equiv> 0x080"
abbreviation (input) EXCEPTION_PERFORMANCE_MONITOR :: u32 where "EXCEPTION_PERFORMANCE_MONITOR \<equiv> 0x100"
abbreviation (input) EXCEPTION_FAKE_MEMCHECK_HIT :: u32 where "EXCEPTION_FAKE_MEMCHECK_HIT \<equiv> 0x200"

abbreviation MSR_EE :: "'a PowerPCState_scheme \<Rightarrow> bool" where "MSR_EE s \<equiv> bit (ppc_msr s) 15"
abbreviation MSR_PR :: "'a PowerPCState_scheme \<Rightarrow> bool" where "MSR_PR s \<equiv> bit (ppc_msr s) 14"
abbreviation MSR_ILE :: "u32 \<Rightarrow> bool" where "MSR_ILE m \<equiv> bit m 16"

section \<open>Taking an exception\<close>

text \<open>
  The sequence all branches share: save the return address and the machine state, copy
  \<^verbatim>\<open>ILE\<close> to \<^verbatim>\<open>LE\<close>, clear the specified bits, continue at the vector, acknowledge.
\<close>

definition enter_exception :: "u32 \<Rightarrow> u32 \<Rightarrow> u32 \<Rightarrow> u32 \<Rightarrow> 'a PowerPCState_scheme \<Rightarrow> 'a PowerPCState_scheme" where
  "enter_exception ret srr1_bits vector exc s =
    (let msr1 = (if MSR_ILE (ppc_msr s) then ppc_msr s OR 1 else ppc_msr s AND NOT 1)
     in s\<lparr>ppc_srr0 := ret, ppc_srr1 := (ppc_msr s AND 0x87C0FFFF) OR srr1_bits,
          ppc_msr := msr1 AND NOT 0x04EF36, ppc_pc := vector, ppc_npc := vector,
          ppc_Exceptions := ppc_Exceptions s AND NOT exc\<rparr>)"

definition CheckExternalExceptions :: "'a PowerPCState_scheme \<Rightarrow> 'a PowerPCState_scheme" where
  "CheckExternalExceptions s =
    (let exceptions = ppc_Exceptions s
     in if exceptions \<noteq> 0 \<and> MSR_EE s then
          (if exceptions AND EXCEPTION_EXTERNAL_INT \<noteq> 0
           then enter_exception (ppc_npc s) 0 0x500 EXCEPTION_EXTERNAL_INT s
           else if exceptions AND EXCEPTION_PERFORMANCE_MONITOR \<noteq> 0
           then enter_exception (ppc_npc s) 0 0xF00 EXCEPTION_PERFORMANCE_MONITOR s
           else if exceptions AND EXCEPTION_DECREMENTER \<noteq> 0
           then enter_exception (ppc_npc s) 0 0x900 EXCEPTION_DECREMENTER s
           else s)
        else s)"

definition CheckExceptions :: "'a PowerPCState_scheme \<Rightarrow> 'a PowerPCState_scheme" where
  "CheckExceptions s =
    (let exceptions = ppc_Exceptions s
     in if exceptions AND EXCEPTION_ISI \<noteq> 0 then
          enter_exception (ppc_npc s) (push_bit 30 1) 0x400 EXCEPTION_ISI s
        else if exceptions AND EXCEPTION_PROGRAM \<noteq> 0 then
          enter_exception (ppc_pc s) 0x20000 0x700 EXCEPTION_PROGRAM s
        else if exceptions AND EXCEPTION_SYSCALL \<noteq> 0 then
          enter_exception (ppc_npc s) 0 0xC00 EXCEPTION_SYSCALL s
        else if exceptions AND EXCEPTION_FPU_UNAVAILABLE \<noteq> 0 then
          enter_exception (ppc_pc s) 0 0x800 EXCEPTION_FPU_UNAVAILABLE s
        else if exceptions AND EXCEPTION_FAKE_MEMCHECK_HIT \<noteq> 0 then
          s\<lparr>ppc_Exceptions := ppc_Exceptions s AND (NOT EXCEPTION_DSI AND NOT EXCEPTION_FAKE_MEMCHECK_HIT)\<rparr>
        else if exceptions AND EXCEPTION_DSI \<noteq> 0 then
          enter_exception (ppc_pc s) 0 0x300 EXCEPTION_DSI s
        else if exceptions AND EXCEPTION_ALIGNMENT \<noteq> 0 then
          enter_exception (ppc_pc s) 0 0x600 EXCEPTION_ALIGNMENT s
        else CheckExternalExceptions s)"

definition GenerateProgramException :: "'a PowerPCState_scheme \<Rightarrow> 'a PowerPCState_scheme" where
  "GenerateProgramException s = s\<lparr>ppc_Exceptions := ppc_Exceptions s OR EXCEPTION_PROGRAM\<rparr>"

definition rfi :: "'a PowerPCState_scheme \<Rightarrow> 'a PowerPCState_scheme" where
  "rfi s =
    (if MSR_PR s then GenerateProgramException s
     else let mask = 0x87C0FFFF;
              msr1 = (ppc_msr s AND NOT mask) OR (ppc_srr1 s AND mask)
          in s\<lparr>ppc_msr := msr1 AND 0xFFFBFFFF, ppc_npc := ppc_srr0 s, ppc_end_block := True\<rparr>)"

section \<open>Returning\<close>

lemma enter_exception_fields:
  "ppc_npc (enter_exception r b v e s) = v" "ppc_pc (enter_exception r b v e s) = v"
  "ppc_srr0 (enter_exception r b v e s) = r" "ppc_srr1 (enter_exception r b v e s) = (ppc_msr s AND 0x87C0FFFF) OR b"
  "ppc_Exceptions (enter_exception r b v e s) = ppc_Exceptions s AND NOT e"
  by (simp_all add: enter_exception_def Let_def)

text \<open>Exceptions and problem state are off in the handler.\<close>

lemma enter_exception_msr: "\<not> MSR_EE (enter_exception r b v e s)" "\<not> MSR_PR (enter_exception r b v e s)"
  by (simp_all add: enter_exception_def Let_def bit_and_iff bit_not_iff)

text \<open>The handler's \<^verbatim>\<open>rfi\<close> restores the machine state, the power management bit apart.\<close>

lemma rfi_restores:
  assumes "ppc_msr t = ppc_msr (enter_exception r b v e s)"
    "ppc_srr0 t = ppc_srr0 (enter_exception r b v e s)" "ppc_srr1 t = ppc_srr1 (enter_exception r b v e s)"
    and "b AND 0x87C0FFFF = 0"
  shows "ppc_npc (rfi t) = r" "ppc_msr (rfi t) = ppc_msr s AND NOT 0x40000"
proof -
  let ?e = "enter_exception r b v e s"
  have pr: "\<not> MSR_PR t" using assms(1) enter_exception_msr by simp
  then show "ppc_npc (rfi t) = r" using assms(2) by (simp add: rfi_def Let_def enter_exception_fields)
  have "((ppc_msr s AND 0x87C0FFFF) OR b) AND 0x87C0FFFF = ppc_msr s AND 0x87C0FFFF"
    using assms(4) by (simp add: bit.conj_disj_distrib2 and.assoc)
  then have m: "ppc_msr (rfi t) = ((ppc_msr ?e AND NOT 0x87C0FFFF) OR (ppc_msr s AND 0x87C0FFFF)) AND 0xFFFBFFFF"
    using pr assms(1,3) by (simp add: rfi_def Let_def enter_exception_fields)
  have "(x AND NOT 0x04EF36) AND NOT 0x87C0FFFF = (ppc_msr s AND NOT 0x04EF36) AND NOT 0x87C0FFFF"
    if "x = ppc_msr s OR 1 \<or> x = ppc_msr s AND NOT 1" for x :: u32
    using that by (elim disjE) (simp_all add: bit.conj_disj_distrib2 and.assoc)
  then have "ppc_msr ?e AND NOT 0x87C0FFFF = (ppc_msr s AND NOT 0x04EF36) AND NOT 0x87C0FFFF"
    by (simp add: enter_exception_def Let_def)
  moreover have k: "(0xFFFBFFFF :: u32) = - 0x40001" by simp
  ultimately show "ppc_msr (rfi t) = ppc_msr s AND NOT 0x40000"
    unfolding m by (simp add: bit.conj_disj_distrib2 and.assoc k flip: bit.conj_disj_distrib)
qed

lemma CheckExternal_external:
  "MSR_EE s \<Longrightarrow> ppc_Exceptions s AND EXCEPTION_EXTERNAL_INT \<noteq> 0 \<Longrightarrow>
     CheckExternalExceptions s = enter_exception (ppc_npc s) 0 0x500 EXCEPTION_EXTERNAL_INT s"
  by (auto simp: CheckExternalExceptions_def Let_def)

end
