(* ===== verification/ProcessorInterface.thy ===== *)
theory ProcessorInterface
  imports PPC_Exceptions
begin

text \<open>
  The interrupt controller of \<^verbatim>\<open>Core/HW/ProcessorInterface.cpp\<close>: devices raise and drop their
  cause, the CPU masks and acknowledges causes through memory-mapped registers, and the processor's
  external exception follows. Delays of scheduled events and the number of ticks per second are
  arguments; the two callbacks that forward button presses to the Wii's operating system are
  recorded as requests.

  The locale \<open>interrupt_line\<close> is what a device relies on; it is interpreted for the cause of the
  DSP interface and for that of the reset button.
\<close>

section \<open>State\<close>

datatype pi_event = ToggleResetButton bool | IosNotifyResetButton | IosNotifyPowerButton

record PI_State = PowerPCState +
  m_InterruptCause :: u32
  m_InterruptMask :: u32
  Fifo_CPUBase :: u32
  Fifo_CPUEnd :: u32
  Fifo_CPUWritePointer :: u32
  m_ResetCode :: u32
  m_FlipperRev :: u32
  m_Unknown :: u32
  pi_scheduled :: "(int \<times> pi_event) list"

abbreviation (input) INT_CAUSE_DSP :: u32 where "INT_CAUSE_DSP \<equiv> 0x40"
abbreviation (input) INT_CAUSE_VI :: u32 where "INT_CAUSE_VI \<equiv> 0x100"
abbreviation (input) INT_CAUSE_RST_BUTTON :: u32 where "INT_CAUSE_RST_BUTTON \<equiv> 0x10000"

section \<open>Operations\<close>

definition PI_Init :: "('a) PI_State_scheme \<Rightarrow> 'a PI_State_scheme" where
  "PI_Init s = s\<lparr>m_InterruptMask := 0, m_InterruptCause := INT_CAUSE_RST_BUTTON OR INT_CAUSE_VI,
     Fifo_CPUBase := 0, Fifo_CPUEnd := 0, Fifo_CPUWritePointer := 0, m_FlipperRev := 0x246500B1,
     m_Unknown := 0, m_ResetCode := 0\<rparr>"

definition UpdateException :: "'a PI_State_scheme \<Rightarrow> 'a PI_State_scheme" where
  "UpdateException s =
    (if m_InterruptCause s AND m_InterruptMask s \<noteq> 0
     then s\<lparr>ppc_Exceptions := ppc_Exceptions s OR EXCEPTION_EXTERNAL_INT\<rparr>
     else s\<lparr>ppc_Exceptions := ppc_Exceptions s AND NOT EXCEPTION_EXTERNAL_INT\<rparr>)"

definition SetInterrupt :: "u32 \<Rightarrow> bool \<Rightarrow> 'a PI_State_scheme \<Rightarrow> 'a PI_State_scheme" where
  "SetInterrupt cause_mask set_it s =
    UpdateException (if set_it then s\<lparr>m_InterruptCause := m_InterruptCause s OR cause_mask\<rparr>
                     else s\<lparr>m_InterruptCause := m_InterruptCause s AND NOT cause_mask\<rparr>)"

definition SetResetButton :: "bool \<Rightarrow> 'a PI_State_scheme \<Rightarrow> 'a PI_State_scheme" where
  "SetResetButton set_it s = SetInterrupt INT_CAUSE_RST_BUTTON (\<not> set_it) s"

definition ToggleResetButtonCallback :: "u64 \<Rightarrow> 'a PI_State_scheme \<Rightarrow> 'a PI_State_scheme" where
  "ToggleResetButtonCallback userdata s = SetResetButton (userdata \<noteq> 0) s"

definition ResetButton_Tap :: "bool \<Rightarrow> int \<Rightarrow> 'a PI_State_scheme \<Rightarrow> 'a PI_State_scheme" where
  "ResetButton_Tap is_running ticks_per_second s =
    (if \<not> is_running then s
     else s\<lparr>pi_scheduled := pi_scheduled s @
       [(0, ToggleResetButton True), (0, IosNotifyResetButton),
        (ticks_per_second div 2, ToggleResetButton False)]\<rparr>)"

definition PowerButton_Tap :: "bool \<Rightarrow> 'a PI_State_scheme \<Rightarrow> 'a PI_State_scheme" where
  "PowerButton_Tap is_running s =
    (if \<not> is_running then s else s\<lparr>pi_scheduled := pi_scheduled s @ [(0, IosNotifyPowerButton)]\<rparr>)"

text \<open>
  The register file of \<^verbatim>\<open>RegisterMMIO\<close>: reads of unmapped and of write-only registers answer all
  ones, writes to unmapped and to read-only registers do nothing. A 16-bit read takes its half of
  the 32-bit register.
\<close>

definition PI_read32 :: "u32 \<Rightarrow> 'a PI_State_scheme \<Rightarrow> u32" where
  "PI_read32 addr s =
    (if addr = 0x00 then m_InterruptCause s
     else if addr = 0x04 then m_InterruptMask s
     else if addr = 0x0C then Fifo_CPUBase s
     else if addr = 0x10 then Fifo_CPUEnd s
     else if addr = 0x14 then Fifo_CPUWritePointer s
     else if addr = 0x24 then m_ResetCode s
     else if addr = 0x2C then m_FlipperRev s
     else 0xFFFFFFFF)"

definition PI_write32 :: "u32 \<Rightarrow> u32 \<Rightarrow> 'a PI_State_scheme \<Rightarrow> 'a PI_State_scheme" where
  "PI_write32 addr val s =
    (if addr = 0x00 then UpdateException (s\<lparr>m_InterruptCause := m_InterruptCause s AND NOT val\<rparr>)
     else if addr = 0x04 then UpdateException (s\<lparr>m_InterruptMask := val\<rparr>)
     else if addr = 0x0C then s\<lparr>Fifo_CPUBase := val AND 0xFFFFFFE0\<rparr>
     else if addr = 0x10 then s\<lparr>Fifo_CPUEnd := val AND 0xFFFFFFE0\<rparr>
     else if addr = 0x14 then s\<lparr>Fifo_CPUWritePointer := val AND 0xFFFFFFE0\<rparr>
     else if addr = 0x24 then s\<lparr>m_ResetCode := val\<rparr>
     else s)"

definition PI_read16 :: "u32 \<Rightarrow> 'a PI_State_scheme \<Rightarrow> u16" where
  "PI_read16 addr s =
    ucast (drop_bit (if addr AND 2 = 0 then 16 else 0) (PI_read32 (addr AND NOT 3) s))"

section \<open>What a device relies on\<close>

locale interrupt_line =
  fixes drive :: "bool \<Rightarrow> 's \<Rightarrow> 's" and level :: "'s \<Rightarrow> bool" and rest :: "'s \<Rightarrow> 'r"
  assumes level_drive: "level (drive b s) = b"
    and rest_drive: "rest (drive b s) = rest s"
begin

lemma level_drives: "bs \<noteq> [] \<Longrightarrow> level (fold drive bs s) = last bs"
  by (induction bs arbitrary: s) (auto simp: level_drive)

lemma rest_drives: "rest (fold drive bs s) = rest s"
  by (induction bs arbitrary: s) (simp_all add: rest_drive)

end

text \<open>The cause register with one cause left out, and the mask.\<close>

definition other_causes :: "u32 \<Rightarrow> 'a PI_State_scheme \<Rightarrow> u32 \<times> u32" where
  "other_causes c s = (m_InterruptCause s AND NOT c, m_InterruptMask s)"

lemma UpdateException_fields [simp]:
  "m_InterruptCause (UpdateException s) = m_InterruptCause s"
  "m_InterruptMask (UpdateException s) = m_InterruptMask s"
  "ppc_npc (UpdateException s) = ppc_npc s" "ppc_msr (UpdateException s) = ppc_msr s"
  by (simp_all add: UpdateException_def)

lemma SetInterrupt_cause:
  "m_InterruptCause (SetInterrupt c b s) = (if b then m_InterruptCause s OR c else m_InterruptCause s AND NOT c)"
  "m_InterruptMask (SetInterrupt c b s) = m_InterruptMask s"
  by (simp_all add: SetInterrupt_def)

lemma interrupt_line_PI:
  assumes "c \<noteq> 0"
  shows "interrupt_line (SetInterrupt c) (\<lambda>s. m_InterruptCause s AND c \<noteq> 0) (other_causes c)"
proof
  fix b and s :: "'a PI_State_scheme"
  have "(m_InterruptCause s OR c) AND c = c" by (simp add: bit.conj_disj_distrib2)
  moreover have "(m_InterruptCause s AND NOT c) AND c = 0" by (simp add: and.assoc)
  ultimately show "(m_InterruptCause (SetInterrupt c b s) AND c \<noteq> 0) = b"
    using assms by (simp add: SetInterrupt_cause)
  show "other_causes c (SetInterrupt c b s) = other_causes c s"
    by (simp add: other_causes_def SetInterrupt_cause bit.conj_disj_distrib2 and.assoc)
qed

interpretation dsp_line: interrupt_line "SetInterrupt INT_CAUSE_DSP"
  "\<lambda>s. m_InterruptCause s AND INT_CAUSE_DSP \<noteq> 0" "other_causes INT_CAUSE_DSP"
  by (rule interrupt_line_PI) simp

interpretation reset_line: interrupt_line "SetInterrupt INT_CAUSE_RST_BUTTON"
  "\<lambda>s. m_InterruptCause s AND INT_CAUSE_RST_BUTTON \<noteq> 0" "other_causes INT_CAUSE_RST_BUTTON"
  by (rule interrupt_line_PI) simp

section \<open>The external exception follows causes and mask\<close>

definition line_ok :: "'a PI_State_scheme \<Rightarrow> bool" where
  "line_ok s \<longleftrightarrow> (ppc_Exceptions s AND EXCEPTION_EXTERNAL_INT \<noteq> 0 \<longleftrightarrow> m_InterruptCause s AND m_InterruptMask s \<noteq> 0)"

lemma line_ok_UpdateException: "line_ok (UpdateException s)"
  by (simp add: line_ok_def UpdateException_def bit.conj_disj_distrib2 and.assoc)

lemma UpdateException_other:
  "ppc_Exceptions (UpdateException s) AND NOT EXCEPTION_EXTERNAL_INT = ppc_Exceptions s AND NOT EXCEPTION_EXTERNAL_INT"
  by (simp add: UpdateException_def bit.conj_disj_distrib2 and.assoc)

lemma line_ok_write: "line_ok s \<Longrightarrow> line_ok (PI_write32 a v s)"
  by (auto simp: PI_write32_def line_ok_UpdateException) (simp_all add: line_ok_def)

text \<open>What the processor interface and the devices behind it can do between two instructions.\<close>

datatype pi_op = OpSetInterrupt u32 bool | OpWrite u32 u32 | OpToggleReset u64

fun pi_run :: "pi_op \<Rightarrow> 'a PI_State_scheme \<Rightarrow> 'a PI_State_scheme" where
  "pi_run (OpSetInterrupt c b) s = SetInterrupt c b s"
| "pi_run (OpWrite a v) s = PI_write32 a v s"
| "pi_run (OpToggleReset u) s = ToggleResetButtonCallback u s"

lemma line_ok_run: "line_ok s \<Longrightarrow> line_ok (pi_run op s)"
  by (cases op) (simp_all add: SetInterrupt_def line_ok_UpdateException line_ok_write
      ToggleResetButtonCallback_def SetResetButton_def)

lemma line_ok_runs: "line_ok s \<Longrightarrow> line_ok (fold pi_run ops s)"
  by (induction ops arbitrary: s) (simp_all add: line_ok_run)

text \<open>
  Interrupt delivery: through any sequence of device interrupts, register writes and reset button
  events the external exception is pending exactly when an unmasked cause is, and when it is
  pending and the processor has external interrupts enabled the next check enters the handler at 0x500 with them
  disabled; the handler's rfi returns to the interrupted address with the machine state
  restored, the power management bit apart.
\<close>

theorem interrupt_delivery:
  assumes "line_ok s0" "s = fold pi_run ops s0"
  shows "(ppc_Exceptions s AND EXCEPTION_EXTERNAL_INT \<noteq> 0 \<longleftrightarrow> m_InterruptCause s AND m_InterruptMask s \<noteq> 0) \<and>
    (m_InterruptCause s AND m_InterruptMask s \<noteq> 0 \<longrightarrow> MSR_EE s \<longrightarrow>
      (let e = CheckExternalExceptions s
       in ppc_pc e = 0x500 \<and> ppc_srr0 e = ppc_npc s \<and> \<not> MSR_EE e \<and>
          (\<forall>t. ppc_msr t = ppc_msr e \<longrightarrow> ppc_srr0 t = ppc_srr0 e \<longrightarrow> ppc_srr1 t = ppc_srr1 e \<longrightarrow>
             ppc_npc (rfi t) = ppc_npc s \<and> ppc_msr (rfi t) = ppc_msr s AND NOT 0x40000)))"
proof -
  have ok: "line_ok s" using line_ok_runs [OF assms(1)] assms(2) by simp
  show ?thesis
    using ok CheckExternal_external [of s] enter_exception_msr(1) [of "ppc_npc s" 0 "0x500" 4 s]
      rfi_restores [of _ "ppc_npc s" 0 "0x500" 4 s]
    by (auto simp: line_ok_def enter_exception_fields Let_def)
qed

text \<open>A processor at rest with external interrupts enabled.\<close>

definition blank_pi :: PI_State where
  "blank_pi = \<lparr>ppc_pc = 0x80003100, ppc_npc = 0x80003104, ppc_msr = 0x8032, ppc_srr0 = 0, ppc_srr1 = 0,
     ppc_Exceptions = 0, ppc_downcount = 0, ppc_end_block = False, m_InterruptCause = 0, m_InterruptMask = 0,
     Fifo_CPUBase = 0, Fifo_CPUEnd = 0, Fifo_CPUWritePointer = 0, m_ResetCode = 0, m_FlipperRev = 0,
     m_Unknown = 0, pi_scheduled = []\<rparr>"

theorem interrupt_delivery_witness:
  "ppc_pc (CheckExternalExceptions
     (fold pi_run [OpWrite 4 0x40, OpSetInterrupt 0x100 True, OpSetInterrupt 0x40 True] (PI_Init blank_pi))) = 0x500"
proof -
  let ?ops = "[OpWrite 4 0x40, OpSetInterrupt 0x100 True, OpSetInterrupt 0x40 True]"
  have "line_ok (PI_Init blank_pi)" by (simp add: line_ok_def PI_Init_def blank_pi_def)
  moreover have "m_InterruptCause (fold pi_run ?ops (PI_Init blank_pi)) AND
      m_InterruptMask (fold pi_run ?ops (PI_Init blank_pi)) \<noteq> 0"
    by (simp add: PI_write32_def SetInterrupt_cause PI_Init_def blank_pi_def)
  moreover have "MSR_EE (fold pi_run ?ops (PI_Init blank_pi))"
    by (simp add: PI_write32_def SetInterrupt_def UpdateException_def PI_Init_def blank_pi_def)
  ultimately show ?thesis
    using interrupt_delivery [of "PI_Init blank_pi" "fold pi_run ?ops (PI_Init blank_pi)" ?ops]
    unfolding Let_def by blast
qed

end
