(* ===== verification/DSP_Interface.thy ===== *)
theory DSP_Interface
  imports DSP_LLE ProcessorInterface
begin

text \<open>
  The CPU's side of the audio hardware, \<^verbatim>\<open>Core/HW/DSP.cpp\<close>: the control register with its three
  interrupts, the mailbox registers that forward to the DSP engine, the DMA engine between main
  memory and audio memory (ARAM), the audio DMA that feeds the speakers, and the time slices of the
  low-level engine (the configuration \<^verbatim>\<open>s_dsp_is_lle\<close>). Events handed to the scheduler and sample
  buffers handed to the mixer are recorded in the state. A null pointer from \<^verbatim>\<open>Memory::GetPointer\<close>
  is a memory fault.
\<close>

section \<open>State\<close>

record AudioDMA =
  current_source_address :: u32
  remaining_blocks_count :: u16
  SourceAddress :: u32
  AudioDMAControl :: u16

record ARAM_DMA =
  MMAddr :: u32
  ARAddr :: u32
  Cnt :: u32

datatype dsp_event = GenerateDSPInterruptEvent u64 | CompleteARAMEvent

text \<open>\<open>ai_buffers\<close>: the source address (\<open>None\<close> for the zero samples) and length of every buffer sent.\<close>

record DSPInterface =
  s_dspState :: u16
  s_audioDMA :: AudioDMA
  s_arDMA :: ARAM_DMA
  s_ARAM_Info :: u16
  s_AR_MODE :: u16
  s_AR_REFRESH :: u16
  s_dsp_slice :: int
  s_dsp_emulator :: DSP
  s_pi :: PI_State
  dsp_events :: "(int \<times> dsp_event) list"
  ai_buffers :: "(u32 option \<times> nat) list"

abbreviation (input) INT_ARAM :: u16 where "INT_ARAM \<equiv> 0x20"
abbreviation (input) INT_AID :: u16 where "INT_AID \<equiv> 0x08"
abbreviation (input) DSP_CONTROL_MASK :: u16 where "DSP_CONTROL_MASK \<equiv> 0x0C07"
abbreviation (input) DSP_MAIL_SLICE :: int where "DSP_MAIL_SLICE \<equiv> 72"

text \<open>Bit fields: \<open>w\<close> bits of \<open>v\<close> from bit \<open>n\<close> into the same place of \<open>s\<close>.\<close>

definition put_bits :: "u16 \<Rightarrow> u16 \<Rightarrow> u16 \<Rightarrow> u16" where
  "put_bits field v s = (s AND NOT field) OR (v AND field)"

section \<open>Host memory\<close>

text \<open>A \<^verbatim>\<open>u64\<close> in the memory of the little-endian host.\<close>

definition host_read64 :: "(u32 \<Rightarrow> u8) \<Rightarrow> u32 \<Rightarrow> u64" where
  "host_read64 mem a = foldr (\<lambda>i w. ucast (mem (a + of_nat i)) OR push_bit 8 w) [0..<8] 0"

definition host_write64 :: "u64 \<Rightarrow> u32 \<Rightarrow> (u32 \<Rightarrow> u8) \<Rightarrow> u32 \<Rightarrow> u8" where
  "host_write64 v a mem = (\<lambda>x. if x - a < 8 then ucast (drop_bit (8 * unat (x - a)) v) else mem x)"

definition GetPointer :: "u32 \<Rightarrow> DSP \<Rightarrow> u32 option" where
  "GetPointer address s =
    (let a = address AND 0x3FFFFFFF
     in if a < REALRAM_SIZE then Some a
        else if aram_wii_mode (s_ARAM s) \<and> drop_bit 28 a = 1 \<and> a AND 0x0fffffff < 0x04000000
        then Some (0x10000000 + (a AND 0x03ffffff)) else None)"

definition Read_U64 :: "u32 \<Rightarrow> DSP \<Rightarrow> u64 result" where
  "Read_U64 address s =
    (case GetPointer address s of None \<Rightarrow> Inl MemoryFault | Some p \<Rightarrow> Inr (swap64 (host_read64 (g_cpu_ram s) p)))"

definition Write_U64_Swap :: "u64 \<Rightarrow> u32 \<Rightarrow> DSP \<Rightarrow> DSP result" where
  "Write_U64_Swap value address s =
    (case GetPointer address s of None \<Rightarrow> Inl MemoryFault
     | Some p \<Rightarrow> Inr (s\<lparr>g_cpu_ram := host_write64 value p (g_cpu_ram s)\<rparr>))"

definition Write_U64 :: "u64 \<Rightarrow> u32 \<Rightarrow> DSP \<Rightarrow> DSP result" where
  "Write_U64 value address s = Write_U64_Swap (swap64 value) address s"

text \<open>Eight bytes of audio memory at a masked address; on the Wii it is part of the CPU's memory.\<close>

definition aram_read64 :: "u32 \<Rightarrow> DSP \<Rightarrow> u64" where
  "aram_read64 a s =
    (if aram_wii_mode (s_ARAM s) then host_read64 (g_cpu_ram s) (0x10000000 + a)
     else host_read64 (aram_ptr (s_ARAM s)) a)"

definition aram_write64 :: "u64 \<Rightarrow> u32 \<Rightarrow> DSP \<Rightarrow> DSP" where
  "aram_write64 v a s =
    (if aram_wii_mode (s_ARAM s) then s\<lparr>g_cpu_ram := host_write64 v (0x10000000 + a) (g_cpu_ram s)\<rparr>
     else s\<lparr>s_ARAM := (s_ARAM s)\<lparr>aram_ptr := host_write64 v a (aram_ptr (s_ARAM s))\<rparr>\<rparr>)"

section \<open>Interrupts\<close>

definition UpdateInterrupts :: "DSPInterface \<Rightarrow> DSPInterface" where
  "UpdateInterrupts s =
    (let ints_set = (drop_bit 1 (s_dspState s) AND s_dspState s AND (INT_DSP OR INT_ARAM OR INT_AID) \<noteq> 0)
     in s\<lparr>s_pi := SetInterrupt INT_CAUSE_DSP ints_set (s_pi s)\<rparr>)"

definition GenerateDSPInterrupt :: "u64 \<Rightarrow> DSPInterface \<Rightarrow> DSPInterface" where
  "GenerateDSPInterrupt DSPIntType s =
    UpdateInterrupts (s\<lparr>s_dspState := s_dspState s OR (ucast DSPIntType AND (INT_DSP OR INT_ARAM OR INT_AID))\<rparr>)"

definition GenerateDSPInterruptFromDSPEmu :: "u64 \<Rightarrow> int \<Rightarrow> DSPInterface \<Rightarrow> DSPInterface" where
  "GenerateDSPInterruptFromDSPEmu ty cycles_into_future s =
    s\<lparr>dsp_events := dsp_events s @ [(cycles_into_future, GenerateDSPInterruptEvent ty)]\<rparr>"

definition CompleteARAM :: "DSPInterface \<Rightarrow> DSPInterface" where
  "CompleteARAM s = GenerateDSPInterrupt 0x20 (s\<lparr>s_dspState := s_dspState s AND NOT 0x200\<rparr>)"

section \<open>ARAM DMA\<close>

definition cnt_count :: "ARAM_DMA \<Rightarrow> u32" where
  "cnt_count d = Cnt d AND 0x7FFFFFFF"

definition set_count :: "u32 \<Rightarrow> ARAM_DMA \<Rightarrow> ARAM_DMA" where
  "set_count v d = d\<lparr>Cnt := (Cnt d AND 0x80000000) OR (v AND 0x7FFFFFFF)\<rparr>"

text \<open>The common tail of the three loop bodies.\<close>

definition dma_advance :: "DSPInterface \<Rightarrow> DSPInterface" where
  "dma_advance s =
    (let d = s_arDMA s
     in s\<lparr>s_arDMA := set_count (cnt_count d - 8) (d\<lparr>MMAddr := MMAddr d + 8, ARAddr := ARAddr d + 8\<rparr>)\<rparr>)"

definition aram_to_mram :: "DSPInterface \<Rightarrow> DSPInterface result" where
  "aram_to_mram s =
    (let e = s_dsp_emulator s; d = s_arDMA s
     in bind_res (Write_U64_Swap (aram_read64 (ARAddr d AND aram_mask (s_ARAM e)) e) (MMAddr d) e)
          (\<lambda>e1. Inr (dma_advance (s\<lparr>s_dsp_emulator := e1\<rparr>))))"

definition zeros_to_mram :: "DSPInterface \<Rightarrow> DSPInterface result" where
  "zeros_to_mram s =
    bind_res (Write_U64 0 (MMAddr (s_arDMA s)) (s_dsp_emulator s))
      (\<lambda>e1. Inr (dma_advance (s\<lparr>s_dsp_emulator := e1\<rparr>)))"

definition mram_to_aram :: "DSPInterface \<Rightarrow> DSPInterface result" where
  "mram_to_aram s =
    (let e = s_dsp_emulator s; d = s_arDMA s; mask = aram_mask (s_ARAM e)
     in bind_res (Read_U64 (MMAddr d) e) (\<lambda>v.
          let e1 = (if s_ARAM_Info s AND 0xf = 4 \<and> ARAddr d < 0x400000
                    then aram_write64 (swap64 v) ((ARAddr d + 0x400000) AND mask) e else e)
          in bind_res (Read_U64 (MMAddr d) e1) (\<lambda>v1.
               Inr (dma_advance (s\<lparr>s_dsp_emulator := aram_write64 (swap64 v1) (ARAddr d AND mask) e1\<rparr>)))))"

text \<open>\<^verbatim>\<open>while (s_arDMA.Cnt.count)\<close>, with a bound on the rounds; \<open>None\<close> when it is not enough.\<close>

fun dma_while :: "nat \<Rightarrow> (DSPInterface \<Rightarrow> DSPInterface result) \<Rightarrow> DSPInterface \<Rightarrow> DSPInterface result option" where
  "dma_while n body s =
    (if cnt_count (s_arDMA s) = 0 then Some (Inr s)
     else case n of
            0 \<Rightarrow> None
          | Suc m \<Rightarrow> (case body s of Inl e \<Rightarrow> Some (Inl e) | Inr s1 \<Rightarrow> dma_while m body s1))"

declare dma_while.simps [simp del]

definition Do_ARAM_DMA :: "nat \<Rightarrow> DSPInterface \<Rightarrow> DSPInterface result option" where
  "Do_ARAM_DMA n s0 =
    (let d0 = s_arDMA s0;
         s1 = s0\<lparr>s_dspState := s_dspState s0 OR 0x200,
                 dsp_events := dsp_events s0 @ [(sint (cnt_count d0 div 32 * 246), CompleteARAMEvent)]\<rparr>;
         d = d0\<lparr>ARAddr := ARAddr d0 AND 0x3ffffff, MMAddr := MMAddr d0 AND 0x3ffffff\<rparr>;
         s = s1\<lparr>s_arDMA := d\<rparr>;
         inside = ARAddr d < aram_size (s_ARAM (s_dsp_emulator s))
     in if Cnt d AND 0x80000000 \<noteq> 0 then dma_while n (if inside then aram_to_mram else zeros_to_mram) s
        else if inside then dma_while n mram_to_aram s
        else Some (Inr (s\<lparr>s_arDMA := set_count 0
               (d\<lparr>MMAddr := MMAddr d + cnt_count d, ARAddr := ARAddr d + cnt_count d\<rparr>)\<rparr>)))"

section \<open>Audio DMA\<close>

definition audio_enabled :: "AudioDMA \<Rightarrow> bool" where
  "audio_enabled a \<longleftrightarrow> bit (AudioDMAControl a) 15"

definition NumBlocks :: "AudioDMA \<Rightarrow> u16" where
  "NumBlocks a = AudioDMAControl a AND 0x7FFF"

definition SendAIBuffer :: "u32 option \<Rightarrow> nat \<Rightarrow> DSPInterface \<Rightarrow> DSPInterface" where
  "SendAIBuffer p n s = s\<lparr>ai_buffers := ai_buffers s @ [(p, n)]\<rparr>"

definition UpdateAudioDMA :: "DSPInterface \<Rightarrow> DSPInterface" where
  "UpdateAudioDMA s =
    (let a = s_audioDMA s
     in if audio_enabled a then
          (let a1 = (if remaining_blocks_count a \<noteq> 0
                     then a\<lparr>remaining_blocks_count := remaining_blocks_count a - 1,
                            current_source_address := current_source_address a + 32\<rparr> else a)
           in if remaining_blocks_count a1 = 0 then
                (let a2 = a1\<lparr>current_source_address := SourceAddress a1,
                             remaining_blocks_count := NumBlocks a1\<rparr>;
                     s2 = s\<lparr>s_audioDMA := a2\<rparr>;
                     s3 = (if remaining_blocks_count a2 \<noteq> 0
                           then SendAIBuffer (Some (SourceAddress a2)) (unat (NumBlocks a2) * 8) s2 else s2)
                 in GenerateDSPInterrupt 0x08 s3)
              else s\<lparr>s_audioDMA := a1\<rparr>)
        else SendAIBuffer None 8 s)"

definition write_audio_control :: "u16 \<Rightarrow> DSPInterface \<Rightarrow> DSPInterface" where
  "write_audio_control val s =
    (let already_enabled = audio_enabled (s_audioDMA s);
         a = (s_audioDMA s)\<lparr>AudioDMAControl := val\<rparr>
     in if \<not> already_enabled \<and> audio_enabled a then
          (let a1 = a\<lparr>current_source_address := SourceAddress a, remaining_blocks_count := NumBlocks a\<rparr>;
               s1 = SendAIBuffer (Some (SourceAddress a1)) (unat (NumBlocks a1) * 8) (s\<lparr>s_audioDMA := a1\<rparr>)
           in s1\<lparr>dsp_events := dsp_events s1 @ [(200, GenerateDSPInterruptEvent 0x08)]\<rparr>)
        else s\<lparr>s_audioDMA := a\<rparr>)"

section \<open>Control register\<close>

definition read_control :: "DSPInterface \<Rightarrow> u16 \<times> DSPInterface" where
  "read_control s =
    (let (cr, e) = DSP_ReadControlRegister (s_dsp_emulator s)
     in ((s_dspState s AND NOT DSP_CONTROL_MASK) OR (cr AND DSP_CONTROL_MASK), s\<lparr>s_dsp_emulator := e\<rparr>))"

definition write_control :: "u16 \<Rightarrow> DSPInterface \<Rightarrow> DSPInterface" where
  "write_control val s =
    (let (cr, e) = DSP_WriteControlRegister val (s_dsp_emulator s);
         tmp = (val AND NOT DSP_CONTROL_MASK) OR (cr AND DSP_CONTROL_MASK);
         s1 = s\<lparr>s_dsp_emulator := e\<rparr>;
         s2 = (if val AND 1 \<noteq> 0 then s1\<lparr>s_audioDMA := (s_audioDMA s1)\<lparr>AudioDMAControl := 0\<rparr>\<rparr> else s1);
         st1 = put_bits 0x0807 tmp (s_dspState s2);
         st2 = put_bits 0x0150 tmp st1;
         st3 = (if tmp AND 0x08 \<noteq> 0 then st2 AND NOT 0x08 else st2);
         st4 = (if tmp AND 0x20 \<noteq> 0 then st3 AND NOT 0x20 else st3);
         st5 = (if tmp AND 0x80 \<noteq> 0 then st4 AND NOT 0x80 else st4);
         st6 = put_bits 0xF400 tmp st5
     in UpdateInterrupts (s2\<lparr>s_dspState := st6\<rparr>))"

section \<open>Time slices and mail\<close>

text \<open>
  Running the engine; the two further arguments are those of \<open>DSP_Update\<close>. The engine's
  interrupt requests (\<^verbatim>\<open>Host::InterruptRequest\<close>) become scheduled events, in order.
\<close>

fun host_request :: "host_event \<Rightarrow> DSPInterface \<Rightarrow> DSPInterface" where
  "host_request (ScheduleDSPInterrupt ty) s = GenerateDSPInterruptFromDSPEmu (ucast ty) 0 s"

definition engine_update :: "nat \<Rightarrow> CoreState list \<Rightarrow> int \<Rightarrow> DSPInterface \<Rightarrow> DSPInterface result option" where
  "engine_update n waits cycles s =
    (case DSP_Update n waits cycles (s_dsp_emulator s) of
       None \<Rightarrow> None
     | Some (Inl e) \<Rightarrow> Some (Inl e)
     | Some (Inr e) \<Rightarrow> Some (Inr (fold host_request (host_events e) (s\<lparr>s_dsp_emulator := e\<lparr>host_events := []\<rparr>\<rparr>))))"

text \<open>C's \<^verbatim>\<open>s_dsp_slice %= 6\<close> takes the sign of the dividend.\<close>

definition UpdateDSPSlice :: "nat \<Rightarrow> CoreState list \<Rightarrow> int \<Rightarrow> DSPInterface \<Rightarrow> DSPInterface result option" where
  "UpdateDSPSlice n waits cycles s =
    (case engine_update n waits (s_dsp_slice s) s of
       None \<Rightarrow> None
     | Some (Inl e) \<Rightarrow> Some (Inl e)
     | Some (Inr s1) \<Rightarrow>
         let slice = (if s_dsp_slice s1 < 0 then - ((- s_dsp_slice s1) mod 6) else s_dsp_slice s1 mod 6)
         in Some (Inr (s1\<lparr>s_dsp_slice := slice + cycles\<rparr>)))"

definition read_mail_high :: "nat \<Rightarrow> CoreState list \<Rightarrow> bool \<Rightarrow> DSPInterface \<Rightarrow> (u16 \<times> DSPInterface) result option" where
  "read_mail_high n waits cpu_mailbox s =
    (case (if s_dsp_slice s > DSP_MAIL_SLICE
           then (case engine_update n waits DSP_MAIL_SLICE s of
                   Some (Inr s1) \<Rightarrow> Some (Inr (s1\<lparr>s_dsp_slice := s_dsp_slice s1 - DSP_MAIL_SLICE\<rparr>))
                 | r \<Rightarrow> r)
           else Some (Inr s)) of
       None \<Rightarrow> None
     | Some (Inl e) \<Rightarrow> Some (Inl e)
     | Some (Inr s1) \<Rightarrow> Some (Inr (DSP_ReadMailBoxHigh cpu_mailbox (s_dsp_emulator s1), s1)))"

definition read_mail_low :: "bool \<Rightarrow> DSPInterface \<Rightarrow> u16 \<times> DSPInterface" where
  "read_mail_low cpu_mailbox s =
    (let (v, e) = DSP_ReadMailBoxLow cpu_mailbox (s_dsp_emulator s) in (v, s\<lparr>s_dsp_emulator := e\<rparr>))"

section \<open>Memory-mapped registers\<close>

definition low_part :: "u32 \<Rightarrow> u16" where "low_part w = ucast w"
definition high_part :: "u32 \<Rightarrow> u16" where "high_part w = ucast (drop_bit 16 w)"
definition set_low_part :: "u16 \<Rightarrow> u32 \<Rightarrow> u32" where "set_low_part v w = (w AND 0xFFFF0000) OR ucast v"
definition set_high_part :: "u16 \<Rightarrow> u32 \<Rightarrow> u32" where "set_high_part v w = (w AND 0xFFFF) OR push_bit 16 (ucast v)"

definition mmio_read16 :: "nat \<Rightarrow> CoreState list \<Rightarrow> u32 \<Rightarrow> DSPInterface \<Rightarrow> (u16 \<times> DSPInterface) result option" where
  "mmio_read16 n waits addr s =
    (let ret = (\<lambda>v. Some (Inr (v, s))); ar = s_arDMA s; au = s_audioDMA s
     in if addr = 0x5000 then read_mail_high n waits True s
        else if addr = 0x5002 then Some (Inr (read_mail_low True s))
        else if addr = 0x5004 then read_mail_high n waits False s
        else if addr = 0x5006 then Some (Inr (read_mail_low False s))
        else if addr = 0x500A then Some (Inr (read_control s))
        else if addr = 0x5012 then ret (s_ARAM_Info s)
        else if addr = 0x5016 then ret (s_AR_MODE s)
        else if addr = 0x501a then ret (s_AR_REFRESH s)
        else if addr = 0x5020 then ret (high_part (MMAddr ar))
        else if addr = 0x5022 then ret (low_part (MMAddr ar))
        else if addr = 0x5024 then ret (high_part (ARAddr ar))
        else if addr = 0x5026 then ret (low_part (ARAddr ar))
        else if addr = 0x5028 then ret (high_part (Cnt ar))
        else if addr = 0x502A then ret (low_part (Cnt ar))
        else if addr = 0x5030 then ret (high_part (SourceAddress au))
        else if addr = 0x5032 then ret (low_part (SourceAddress au))
        else if addr = 0x5036 then ret (AudioDMAControl au)
        else if addr = 0x503A then
          ret (if remaining_blocks_count au > 0 then remaining_blocks_count au - 1 else 0)
        else ret 0xFFFF)"

definition write_count_low :: "nat \<Rightarrow> u16 \<Rightarrow> DSPInterface \<Rightarrow> DSPInterface result option" where
  "write_count_low n val s =
    Do_ARAM_DMA n (s\<lparr>s_arDMA := (s_arDMA s)\<lparr>Cnt := (Cnt (s_arDMA s) AND 0xFFFF0000) OR ucast (val AND NOT 31)\<rparr>\<rparr>)"

definition mmio_write16 :: "nat \<Rightarrow> u32 \<Rightarrow> u16 \<Rightarrow> DSPInterface \<Rightarrow> DSPInterface result option" where
  "mmio_write16 n addr val s =
    (let ar = s_arDMA s; au = s_audioDMA s; ok = (\<lambda>t. Some (Inr t))
     in if addr = 0x5000 then ok (s\<lparr>s_dsp_emulator := DSP_WriteMailBoxHigh True val (s_dsp_emulator s)\<rparr>)
        else if addr = 0x5002 then ok (s\<lparr>s_dsp_emulator := DSP_WriteMailBoxLow True val (s_dsp_emulator s)\<rparr>)
        else if addr = 0x500A then ok (write_control val s)
        else if addr = 0x5012 then ok (s\<lparr>s_ARAM_Info := val\<rparr>)
        else if addr = 0x5016 then ok (s\<lparr>s_AR_MODE := val\<rparr>)
        else if addr = 0x501a then ok (s\<lparr>s_AR_REFRESH := val\<rparr>)
        else if addr = 0x5020 then ok (s\<lparr>s_arDMA := ar\<lparr>MMAddr := set_high_part val (MMAddr ar)\<rparr>\<rparr>)
        else if addr = 0x5022 then ok (s\<lparr>s_arDMA := ar\<lparr>MMAddr := set_low_part (val AND 0xFFE0) (MMAddr ar)\<rparr>\<rparr>)
        else if addr = 0x5024 then ok (s\<lparr>s_arDMA := ar\<lparr>ARAddr := set_high_part val (ARAddr ar)\<rparr>\<rparr>)
        else if addr = 0x5026 then ok (s\<lparr>s_arDMA := ar\<lparr>ARAddr := set_low_part (val AND 0xFFE0) (ARAddr ar)\<rparr>\<rparr>)
        else if addr = 0x5028 then ok (s\<lparr>s_arDMA := ar\<lparr>Cnt := set_high_part val (Cnt ar)\<rparr>\<rparr>)
        else if addr = 0x502A then write_count_low n val s
        else if addr = 0x5030 then ok (s\<lparr>s_audioDMA := au\<lparr>SourceAddress := set_high_part val (SourceAddress au)\<rparr>\<rparr>)
        else if addr = 0x5032 then ok (s\<lparr>s_audioDMA := au\<lparr>SourceAddress := set_low_part val (SourceAddress au)\<rparr>\<rparr>)
        else if addr = 0x5036 then ok (write_audio_control val s)
        else ok s)"

text \<open>32-bit accesses are two 16-bit accesses, the high half first.\<close>

definition mmio_write32 :: "nat \<Rightarrow> u32 \<Rightarrow> u32 \<Rightarrow> DSPInterface \<Rightarrow> DSPInterface result option" where
  "mmio_write32 n addr val s =
    (case mmio_write16 n addr (high_part val) s of
       Some (Inr s1) \<Rightarrow> mmio_write16 n (addr + 2) (low_part val) s1
     | r \<Rightarrow> r)"

definition mmio_read32 :: "nat \<Rightarrow> CoreState list \<Rightarrow> u32 \<Rightarrow> DSPInterface \<Rightarrow> (u32 \<times> DSPInterface) result option" where
  "mmio_read32 n waits addr s =
    (case mmio_read16 n waits addr s of
       Some (Inr (hi, s1)) \<Rightarrow>
         (case mmio_read16 n waits (addr + 2) s1 of
            Some (Inr (lo, s2)) \<Rightarrow> Some (Inr (push_bit 16 (ucast hi) OR ucast lo, s2))
          | Some (Inl e) \<Rightarrow> Some (Inl e)
          | None \<Rightarrow> None)
     | Some (Inl e) \<Rightarrow> Some (Inl e)
     | None \<Rightarrow> None)"

section \<open>Initialisation\<close>

text \<open>
  \<^verbatim>\<open>Reinit\<close> for the low-level engine. Freshly allocated pages are zero.
\<close>

definition Reinit :: "bool \<Rightarrow> DSP \<Rightarrow> DSPInterface \<Rightarrow> DSPInterface" where
  "Reinit wii emulator s =
    s\<lparr>s_dsp_emulator := emulator\<lparr>s_ARAM :=
        (if wii then (s_ARAM emulator)\<lparr>aram_wii_mode := True, aram_size := 0x04000000, aram_mask := 0x03ffffff\<rparr>
         else (s_ARAM emulator)\<lparr>aram_wii_mode := False, aram_size := 0x01000000, aram_mask := 0x00FFFFFF,
                aram_ptr := (\<lambda>_. 0)\<rparr>)\<rparr>,
      s_audioDMA := \<lparr>current_source_address = 0, remaining_blocks_count = 0, SourceAddress = 0, AudioDMAControl = 0\<rparr>,
      s_arDMA := \<lparr>MMAddr = 0, ARAddr = 0, Cnt = 0\<rparr>,
      s_dspState := 4, s_ARAM_Info := 0, s_AR_MODE := 1, s_AR_REFRESH := 156\<rparr>"

definition DSPInterface_Shutdown :: "DSPInterface \<Rightarrow> DSPInterface" where
  "DSPInterface_Shutdown s = s\<lparr>s_dsp_emulator := DSPLLE_Shutdown (s_dsp_emulator s)\<rparr>"

section \<open>The interrupt line\<close>

definition int_pending :: "u16 \<Rightarrow> bool" where
  "int_pending st \<longleftrightarrow> bit st 3 \<and> bit st 4 \<or> bit st 5 \<and> bit st 6 \<or> bit st 7 \<and> bit st 8"

lemma int_bits: "(x :: u16) AND 0xA8 = 0 \<longleftrightarrow> \<not> bit x 3 \<and> \<not> bit x 5 \<and> \<not> bit x 7"
proof -
  have "(0xA8 :: u16) = push_bit 3 1 OR push_bit 5 1 OR push_bit 7 1" by simp
  then have "x AND 0xA8 = 0 \<longleftrightarrow> x AND push_bit 3 1 = 0 \<and> x AND push_bit 5 1 = 0 \<and> x AND push_bit 7 1 = 0"
    by (simp only: bit.conj_disj_distrib or_eq_0_iff)
  then show ?thesis using and_push_bit_1 [of x 3] and_push_bit_1 [of x 5] and_push_bit_1 [of x 7] by blast
qed

lemma int_pending_iff: "drop_bit (Suc 0) st AND st AND 0xA8 = 0 \<longleftrightarrow> \<not> int_pending st"
  by (auto simp: int_bits bit_and_iff bit_drop_bit_eq int_pending_def simp flip: and.assoc)

lemma UpdateInterrupts_eq:
  "UpdateInterrupts s = s\<lparr>s_pi := SetInterrupt INT_CAUSE_DSP (int_pending (s_dspState s)) (s_pi s)\<rparr>"
  by (simp add: UpdateInterrupts_def Let_def int_pending_iff)

text \<open>The DSP's cause is set exactly when an enabled interrupt is pending.\<close>

definition int_line_ok :: "DSPInterface \<Rightarrow> bool" where
  "int_line_ok s \<longleftrightarrow> (m_InterruptCause (s_pi s) AND INT_CAUSE_DSP \<noteq> 0 \<longleftrightarrow> int_pending (s_dspState s)) \<and>
     line_ok (s_pi s)"

lemma int_line_ok_UpdateInterrupts: "int_line_ok (UpdateInterrupts s)"
  using dsp_line.level_drive [of "int_pending (s_dspState s)" "s_pi s"]
  by (simp only: int_line_ok_def UpdateInterrupts_eq DSPInterface.simps)
    (simp add: SetInterrupt_def line_ok_UpdateException)

text \<open>Operations that touch neither the state register nor the interrupt controller.\<close>

definition same_line :: "DSPInterface \<Rightarrow> DSPInterface \<Rightarrow> bool" where
  "same_line s s' \<longleftrightarrow> s_pi s' = s_pi s \<and> (int_pending (s_dspState s') \<longleftrightarrow> int_pending (s_dspState s))"

lemma same_line_ok: "same_line s s' \<Longrightarrow> int_line_ok s \<Longrightarrow> int_line_ok s'"
  by (simp add: same_line_def int_line_ok_def)

lemma same_line_refl [simp]: "same_line s s"
  by (simp add: same_line_def)

lemma same_line_updates [simp]:
  "same_line s0 (s\<lparr>s_arDMA := d\<rparr>) = same_line s0 s" "same_line s0 (s\<lparr>s_audioDMA := a\<rparr>) = same_line s0 s"
  "same_line s0 (s\<lparr>s_dsp_emulator := e\<rparr>) = same_line s0 s" "same_line s0 (s\<lparr>dsp_events := q\<rparr>) = same_line s0 s"
  "same_line s0 (s\<lparr>s_dsp_slice := n\<rparr>) = same_line s0 s" "same_line s0 (SendAIBuffer p k s) = same_line s0 s"
  "same_line s0 (s\<lparr>s_ARAM_Info := v\<rparr>) = same_line s0 s" "same_line s0 (s\<lparr>s_AR_MODE := v\<rparr>) = same_line s0 s"
  "same_line s0 (s\<lparr>s_AR_REFRESH := v\<rparr>) = same_line s0 s" "same_line s0 (dma_advance s) = same_line s0 s"
  "same_line s0 (s\<lparr>s_dspState := s_dspState s OR 0x200\<rparr>) = same_line s0 s"
  by (simp_all add: same_line_def SendAIBuffer_def dma_advance_def Let_def int_pending_def bit_or_iff)

lemma same_line_bodies:
  "aram_to_mram s = Inr s' \<Longrightarrow> same_line s0 s' = same_line s0 s"
  "zeros_to_mram s = Inr s' \<Longrightarrow> same_line s0 s' = same_line s0 s"
  "mram_to_aram s = Inr s' \<Longrightarrow> same_line s0 s' = same_line s0 s"
  by (auto simp: aram_to_mram_def zeros_to_mram_def mram_to_aram_def Let_def bind_res_eq_Inr)

lemma same_line_while:
  assumes "\<And>s s'. body s = Inr s' \<Longrightarrow> same_line s0 s' = same_line s0 s"
    and "dma_while n body s = Some (Inr s')" "same_line s0 s"
  shows "same_line s0 s'"
  using assms(2,3)
proof (induction n arbitrary: s)
  case 0
  then show ?case by (subst (asm) dma_while.simps) (auto split: if_splits)
next
  case (Suc n)
  then show ?case using assms(1) by (subst (asm) dma_while.simps) (auto split: if_splits sum.splits)
qed

lemma same_line_DMA: "Do_ARAM_DMA n s = Some (Inr s') \<Longrightarrow> same_line s0 s \<Longrightarrow> same_line s0 s'"
  unfolding Do_ARAM_DMA_def Let_def
  by (auto simp: same_line_bodies split: if_splits elim!: same_line_while [rotated])

lemma host_requests:
  "fold host_request es s = s\<lparr>dsp_events := dsp_events s @
     map (\<lambda>e. case e of ScheduleDSPInterrupt ty \<Rightarrow> (0, GenerateDSPInterruptEvent (ucast ty))) es\<rparr>"
proof (induction es arbitrary: s)
  case (Cons e es)
  then show ?case by (cases e) (simp add: GenerateDSPInterruptFromDSPEmu_def)
qed simp

lemma same_line_engine: "engine_update n w c s = Some (Inr s') \<Longrightarrow> same_line s0 s' = same_line s0 s"
  by (auto simp: engine_update_def host_requests split: option.splits sum.splits)

lemma int_line_ok_ops:
  "int_line_ok (GenerateDSPInterrupt t s)" "int_line_ok (CompleteARAM s)" "int_line_ok (write_control v s)"
  by (simp_all add: GenerateDSPInterrupt_def CompleteARAM_def write_control_def Let_def case_prod_beta
      int_line_ok_UpdateInterrupts)

lemma line_audio: "same_line s (UpdateAudioDMA s) \<or> int_line_ok (UpdateAudioDMA s)"
  by (simp add: UpdateAudioDMA_def Let_def int_line_ok_ops)

lemma line_audio_end:
  "audio_enabled (s_audioDMA s) \<Longrightarrow> remaining_blocks_count (s_audioDMA s) \<in> {0, 1} \<Longrightarrow> int_line_ok (UpdateAudioDMA s)"
  by (auto simp: UpdateAudioDMA_def Let_def int_line_ok_ops)

lemma line_write:
  assumes "mmio_write16 n a v s = Some (Inr s')"
  shows "same_line s s' \<or> int_line_ok s'"
  using assms
  by (auto simp: mmio_write16_def Let_def int_line_ok_ops write_count_low_def write_audio_control_def split: if_splits
      dest!: same_line_DMA [where ?s0.0 = s])

lemma line_read: "mmio_read16 n w a s = Some (Inr (v, s')) \<Longrightarrow> same_line s s'"
  by (auto simp: mmio_read16_def Let_def read_mail_high_def read_mail_low_def read_control_def case_prod_beta
      split: if_splits option.splits sum.splits simp: same_line_engine)

lemma line_slice: "UpdateDSPSlice n w c s = Some (Inr s') \<Longrightarrow> same_line s s'"
  by (auto simp: UpdateDSPSlice_def Let_def split: if_splits option.splits sum.splits simp: same_line_engine)

section \<open>Everything that happens to the interface\<close>

text \<open>
  Accesses of the CPU to the audio hardware and to the interrupt controller, the 4 kHz audio tick,
  time slices, the two scheduled callbacks, the interrupts of other devices and the CPU taking an
  interrupt or going about its other work, in any order. The two flags say that, since the
  interface last drove its line, the CPU has cleared the interface's cause at the interrupt
  controller itself, and that, since the external exception was last computed, the CPU has looked for
  interrupts (taking the exception clears it).
\<close>

inductive iface_state :: "bool \<Rightarrow> bool \<Rightarrow> DSPInterface \<Rightarrow> bool" where
  iface_init: "m_InterruptCause (s_pi s) AND INT_CAUSE_DSP = 0 \<Longrightarrow> line_ok (s_pi s) \<Longrightarrow>
    iface_state False False (Reinit wii e s)"
| iface_write16: "iface_state acked taken s \<Longrightarrow> mmio_write16 n a v s = Some (Inr s') \<Longrightarrow> iface_state acked taken s'"
| iface_control: "iface_state acked taken s \<Longrightarrow> mmio_write16 n 0x500A v s = Some (Inr s') \<Longrightarrow>
    iface_state False False s'"
| iface_read16: "iface_state acked taken s \<Longrightarrow> mmio_read16 n w a s = Some (Inr (v, s')) \<Longrightarrow> iface_state acked taken s'"
| iface_slice: "iface_state acked taken s \<Longrightarrow> UpdateDSPSlice n w c s = Some (Inr s') \<Longrightarrow> iface_state acked taken s'"
| iface_audio: "iface_state acked taken s \<Longrightarrow> iface_state acked taken (UpdateAudioDMA s)"
| iface_audio_end: "iface_state acked taken s \<Longrightarrow> audio_enabled (s_audioDMA s) \<Longrightarrow>
    remaining_blocks_count (s_audioDMA s) \<in> {0, 1} \<Longrightarrow> iface_state False False (UpdateAudioDMA s)"
| iface_interrupt: "iface_state acked taken s \<Longrightarrow> iface_state False False (GenerateDSPInterrupt t s)"
| iface_complete: "iface_state acked taken s \<Longrightarrow> iface_state False False (CompleteARAM s)"
| iface_pi_write: "iface_state acked taken s \<Longrightarrow>
    iface_state (acked \<or> a = 0 \<and> v AND INT_CAUSE_DSP \<noteq> 0) (taken \<and> a \<notin> {0, 4}) (s\<lparr>s_pi := PI_write32 a v (s_pi s)\<rparr>)"
| iface_device: "iface_state acked taken s \<Longrightarrow> c AND INT_CAUSE_DSP = 0 \<Longrightarrow>
    iface_state acked False (s\<lparr>s_pi := SetInterrupt c b (s_pi s)\<rparr>)"
| iface_check: "iface_state acked taken s \<Longrightarrow> iface_state acked True (s\<lparr>s_pi := CheckExternalExceptions (s_pi s)\<rparr>)"
| iface_cpu: "iface_state acked taken s \<Longrightarrow> m_InterruptCause p = m_InterruptCause (s_pi s) \<Longrightarrow>
    m_InterruptMask p = m_InterruptMask (s_pi s) \<Longrightarrow>
    ppc_Exceptions p AND EXCEPTION_EXTERNAL_INT = ppc_Exceptions (s_pi s) AND EXCEPTION_EXTERNAL_INT \<Longrightarrow>
    iface_state acked taken (s\<lparr>s_pi := p\<rparr>)"

definition line_level :: "bool \<Rightarrow> bool \<Rightarrow> DSPInterface \<Rightarrow> bool" where
  "line_level acked taken s \<longleftrightarrow>
    (m_InterruptCause (s_pi s) AND INT_CAUSE_DSP \<noteq> 0 \<longrightarrow> int_pending (s_dspState s)) \<and>
    (int_pending (s_dspState s) \<longrightarrow> acked \<or> m_InterruptCause (s_pi s) AND INT_CAUSE_DSP \<noteq> 0) \<and>
    (ppc_Exceptions (s_pi s) AND EXCEPTION_EXTERNAL_INT \<noteq> 0 \<longrightarrow> m_InterruptCause (s_pi s) AND m_InterruptMask (s_pi s) \<noteq> 0) \<and>
    (m_InterruptCause (s_pi s) AND m_InterruptMask (s_pi s) \<noteq> 0 \<longrightarrow>
       taken \<or> ppc_Exceptions (s_pi s) AND EXCEPTION_EXTERNAL_INT \<noteq> 0)"

lemma line_level_ok: "int_line_ok s \<Longrightarrow> line_level acked taken s"
  by (auto simp: line_level_def int_line_ok_def line_ok_def)

lemma line_level_same: "same_line s s' \<Longrightarrow> line_level acked taken s \<Longrightarrow> line_level acked taken s'"
  by (simp add: line_level_def same_line_def)

lemma line_level_step: "same_line s s' \<or> int_line_ok s' \<Longrightarrow> line_level acked taken s \<Longrightarrow> line_level acked taken s'"
  by (auto intro: line_level_same line_level_ok)

lemma int_line_ok_Reinit:
  "m_InterruptCause (s_pi s) AND INT_CAUSE_DSP = 0 \<Longrightarrow> line_ok (s_pi s) \<Longrightarrow> int_line_ok (Reinit wii e s)"
  by (simp add: int_line_ok_def Reinit_def int_pending_def)

lemma dsp_bit: "(x :: u32) AND INT_CAUSE_DSP = 0 \<longleftrightarrow> \<not> bit x 6"
  using and_push_bit_1 [of x 6] by auto

lemma line_level_pi_write:
  assumes "line_level acked taken s"
  shows "line_level (acked \<or> a = 0 \<and> v AND INT_CAUSE_DSP \<noteq> 0) (taken \<and> a \<notin> {0, 4}) (s\<lparr>s_pi := PI_write32 a v (s_pi s)\<rparr>)"
  using assms line_ok_UpdateException [of "(s_pi s)\<lparr>m_InterruptCause := m_InterruptCause (s_pi s) AND NOT v\<rparr>"]
    line_ok_UpdateException [of "(s_pi s)\<lparr>m_InterruptMask := v\<rparr>"]
  by (auto simp: line_level_def PI_write32_def line_ok_def dsp_bit bit_and_iff bit_not_iff)

lemma line_level_device:
  assumes "line_level acked taken s" "c AND INT_CAUSE_DSP = 0"
  shows "line_level acked False (s\<lparr>s_pi := SetInterrupt c b (s_pi s)\<rparr>)"
  using assms line_ok_UpdateException [of "(s_pi s)\<lparr>m_InterruptCause := m_InterruptCause (s_pi s) OR c\<rparr>"]
    line_ok_UpdateException [of "(s_pi s)\<lparr>m_InterruptCause := m_InterruptCause (s_pi s) AND NOT c\<rparr>"]
  by (auto simp: line_level_def SetInterrupt_def line_ok_def dsp_bit bit_and_iff bit_or_iff bit_not_iff)

lemma CheckExternal_line:
  "m_InterruptCause (CheckExternalExceptions p) = m_InterruptCause p"
  "m_InterruptMask (CheckExternalExceptions p) = m_InterruptMask p"
  "ppc_Exceptions (CheckExternalExceptions p) AND EXCEPTION_EXTERNAL_INT \<noteq> 0 \<Longrightarrow>
     ppc_Exceptions p AND EXCEPTION_EXTERNAL_INT \<noteq> 0"
  by (auto simp: CheckExternalExceptions_def enter_exception_def Let_def and.assoc split: if_splits)

lemma line_level_check:
  "line_level acked taken s \<Longrightarrow> line_level acked True (s\<lparr>s_pi := CheckExternalExceptions (s_pi s)\<rparr>)"
  by (auto simp: line_level_def CheckExternal_line dest: CheckExternal_line(3))

lemmas line_level_steps = line_level_ok [OF int_line_ok_Reinit] line_level_ok [OF int_line_ok_ops(1)]
  line_level_ok [OF int_line_ok_ops(2)] line_level_step [OF line_write] line_level_same [OF line_read]
  line_level_same [OF line_slice] line_level_step [OF line_audio] line_level_ok [OF line_audio_end]

lemma iface_line_level: "iface_state acked taken s \<Longrightarrow> line_level acked taken s"
proof (induction rule: iface_state.induct)
  case (iface_control acked taken s n v s')
  then have "s' = write_control v s" by (simp add: mmio_write16_def)
  then show ?case by (simp add: line_level_ok int_line_ok_ops)
next
  case (iface_cpu acked taken s p)
  then show ?case by (simp add: line_level_def)
next
  case (iface_pi_write acked taken s a v)
  then show ?case by (intro line_level_pi_write)
next
  case (iface_device acked taken s c b)
  then show ?case by (intro line_level_device)
next
  case (iface_check acked taken s)
  then show ?case by (intro line_level_check)
qed (assumption | rule line_level_steps)+

text \<open>
  C33. The audio hardware's interrupt line is never stale. Started with its cause clear, and through any
  sequence of CPU accesses to the audio registers, audio ticks, time slices and scheduled callbacks,
  of CPU writes to the interrupt controller's registers, other devices' interrupts and the CPU taking
  interrupts: the interface's cause at the interrupt controller is set only while one of its
  three interrupts (audio DMA, ARAM DMA, DSP) is pending and enabled in the control register, and
  is set whenever one is unless the CPU has cleared that cause in the controller's own cause register
  since the interface last drove the line (a control register write does, or one of the three interrupts arriving).
  The CPU's external exception is raised only while some unmasked cause is set, and is raised
  whenever one is unless the CPU has checked for interrupts since the controller last
  computed it (a device changing its cause, or a write to the cause or mask register, does).
\<close>

theorem audio_interrupt_line:
  assumes "iface_state acked taken s"
  shows "(m_InterruptCause (s_pi s) AND INT_CAUSE_DSP \<noteq> 0 \<longrightarrow> int_pending (s_dspState s)) \<and>
    (int_pending (s_dspState s) \<longrightarrow> \<not> acked \<longrightarrow> m_InterruptCause (s_pi s) AND INT_CAUSE_DSP \<noteq> 0) \<and>
    (int_pending (s_dspState s) \<longleftrightarrow>
      bit (s_dspState s) 3 \<and> bit (s_dspState s) 4 \<or> bit (s_dspState s) 5 \<and> bit (s_dspState s) 6 \<or>
      bit (s_dspState s) 7 \<and> bit (s_dspState s) 8) \<and>
    (ppc_Exceptions (s_pi s) AND EXCEPTION_EXTERNAL_INT \<noteq> 0 \<longrightarrow>
      m_InterruptCause (s_pi s) AND m_InterruptMask (s_pi s) \<noteq> 0) \<and>
    (m_InterruptCause (s_pi s) AND m_InterruptMask (s_pi s) \<noteq> 0 \<longrightarrow> \<not> taken \<longrightarrow>
      ppc_Exceptions (s_pi s) AND EXCEPTION_EXTERNAL_INT \<noteq> 0)"
  using iface_line_level [OF assms] unfolding line_level_def int_pending_def by blast

lemma control_flags:
  "((w :: u16) AND 1 = 0) = (\<not> bit w 0)" "(w AND 8 = 0) = (\<not> bit w 3)" "(w AND 32 = 0) = (\<not> bit w 5)"
  "(w AND 128 = 0) = (\<not> bit w 7)"
  using and_push_bit_1 [of w 0] and_push_bit_1 [of w 3] and_push_bit_1 [of w 5] and_push_bit_1 [of w 7] by auto

lemmas control_bits = write_control_def Let_def case_prod_beta UpdateInterrupts_eq put_bits_def control_flags
  bit_or_iff bit_and_iff bit_not_iff

lemma write_control_pending:
  "bit (s_dspState (write_control v s)) 3 \<longleftrightarrow> bit (s_dspState s) 3 \<and> \<not> bit v 3"
  "bit (s_dspState (write_control v s)) 5 \<longleftrightarrow> bit (s_dspState s) 5 \<and> \<not> bit v 5"
  "bit (s_dspState (write_control v s)) 7 \<longleftrightarrow> bit (s_dspState s) 7 \<and> \<not> bit v 7"
  by (simp_all add: control_bits)

lemma Generate_bits:
  "bit (s_dspState (GenerateDSPInterrupt t s)) 3 \<longleftrightarrow> bit (s_dspState s) 3 \<or> bit t 3"
  "bit (s_dspState (GenerateDSPInterrupt t s)) 5 \<longleftrightarrow> bit (s_dspState s) 5 \<or> bit t 5"
  "bit (s_dspState (GenerateDSPInterrupt t s)) 7 \<longleftrightarrow> bit (s_dspState s) 7 \<or> bit t 7"
  "bit (s_dspState (GenerateDSPInterrupt t s)) 4 \<longleftrightarrow> bit (s_dspState s) 4"
  "bit (s_dspState (GenerateDSPInterrupt t s)) 6 \<longleftrightarrow> bit (s_dspState s) 6"
  "bit (s_dspState (GenerateDSPInterrupt t s)) 8 \<longleftrightarrow> bit (s_dspState s) 8"
  by (simp_all add: GenerateDSPInterrupt_def UpdateInterrupts_eq bit_or_iff bit_and_iff bit_ucast_iff)

lemma write_control_enables:
  "bit (s_dspState (write_control v s)) 4 \<longleftrightarrow> bit v 4"
  "bit (s_dspState (write_control v s)) 6 \<longleftrightarrow> bit v 6"
  "bit (s_dspState (write_control v s)) 8 \<longleftrightarrow> bit v 8"
  by (simp_all add: control_bits)

lemma line_mask:
  "m_InterruptMask (s_pi (GenerateDSPInterrupt t s)) = m_InterruptMask (s_pi s)"
  "m_InterruptMask (s_pi (write_control v s)) = m_InterruptMask (s_pi s)"
  by (simp_all add: GenerateDSPInterrupt_def write_control_def Let_def case_prod_beta UpdateInterrupts_eq SetInterrupt_cause)

text \<open>An interface at rest.\<close>

definition blank_iface :: DSPInterface where
  "blank_iface = \<lparr>s_dspState = 0,
     s_audioDMA = \<lparr>current_source_address = 0, remaining_blocks_count = 0, SourceAddress = 0, AudioDMAControl = 0\<rparr>,
     s_arDMA = \<lparr>MMAddr = 0, ARAddr = 0, Cnt = 0\<rparr>, s_ARAM_Info = 0, s_AR_MODE = 0, s_AR_REFRESH = 0,
     s_dsp_slice = 0, s_dsp_emulator = blank_dsp, s_pi = blank_pi, dsp_events = [], ai_buffers = []\<rparr>"

text \<open>
  The DSP interrupt is enabled, unmasked and arrives; the CPU takes it, and acknowledges it first at
  the interrupt controller, where it comes back with the next interrupt, and then at the interface.
\<close>

theorem audio_interrupt_line_witness:
  "let arrived = GenerateDSPInterrupt 0x80 (write_control 0x100 (Reinit False blank_dsp
       (blank_iface\<lparr>s_pi := blank_pi\<lparr>m_InterruptMask := 0x40\<rparr>\<rparr>)));
     cleared = arrived\<lparr>s_pi := PI_write32 0 0x40 (CheckExternalExceptions (s_pi arrived))\<rparr>;
     again = GenerateDSPInterrupt 0x08 cleared
   in ppc_Exceptions (s_pi arrived) AND EXCEPTION_EXTERNAL_INT \<noteq> 0 \<and> int_pending (s_dspState cleared) \<and>
      ppc_Exceptions (s_pi again) AND EXCEPTION_EXTERNAL_INT \<noteq> 0 \<and> \<not> int_pending (s_dspState (write_control 0x180 again)) \<and>
      m_InterruptCause (s_pi (write_control 0x180 again)) AND INT_CAUSE_DSP = 0"
proof -
  let ?r = "Reinit False blank_dsp (blank_iface\<lparr>s_pi := blank_pi\<lparr>m_InterruptMask := 0x40\<rparr>\<rparr>)"
  let ?arrived = "GenerateDSPInterrupt 0x80 (write_control 0x100 ?r)"
  let ?taken = "?arrived\<lparr>s_pi := CheckExternalExceptions (s_pi ?arrived)\<rparr>"
  let ?cleared = "?arrived\<lparr>s_pi := PI_write32 0 0x40 (CheckExternalExceptions (s_pi ?arrived))\<rparr>"
  let ?again = "GenerateDSPInterrupt 0x08 ?cleared"
  have ctl: "mmio_write16 0 0x500A v s = Some (Inr (write_control v s))" for v s by (simp add: mmio_write16_def)
  have arrived: "iface_state False False ?arrived"
    by (rule iface_interrupt, rule iface_control [OF iface_init ctl]) (simp_all add: blank_iface_def blank_pi_def line_ok_def)
  have again: "iface_state False False ?again"
    using iface_interrupt [OF iface_pi_write [OF iface_check [OF arrived], of 0 "0x40"]] by simp
  have over: "iface_state False False (write_control 0x180 ?again)" by (rule iface_control [OF again ctl])
  have pending: "int_pending (s_dspState ?arrived)" "int_pending (s_dspState ?again)"
    "\<not> int_pending (s_dspState (write_control 0x180 ?again))"
    by (simp_all add: int_pending_def Generate_bits write_control_pending write_control_enables)
  have mask: "m_InterruptMask (s_pi ?arrived) = 0x40" "m_InterruptMask (s_pi ?again) = 0x40"
    by (simp_all add: line_mask PI_write32_def CheckExternal_line Reinit_def)
  show ?thesis
    using audio_interrupt_line [OF arrived] audio_interrupt_line [OF again] audio_interrupt_line [OF over] pending mask
    unfolding Let_def by simp
qed

lemma dsp_cause_meets:
  assumes "(x :: u32) AND INT_CAUSE_DSP \<noteq> 0" "y AND INT_CAUSE_DSP \<noteq> 0"
  shows "x AND y \<noteq> 0"
proof -
  have "bit x 6" "bit y 6" using assms and_push_bit_1 [of x 6] and_push_bit_1 [of y 6] by auto
  then have "bit (x AND y) 6" by (simp add: bit_and_iff)
  then show ?thesis by auto
qed

text \<open>
  Writing the control register: a pending interrupt stays pending unless a one is written to it
  (which acknowledges it), the three enable bits and the padding take the written values, the DMA
  status bit keeps its value, the five bits that belong to the DSP engine take the value the
  engine answers, and a reset switches the audio DMA off.
\<close>

theorem control_write:
  "list_all (\<lambda>b. bit (s_dspState (write_control v s)) b \<longleftrightarrow> bit (s_dspState s) b \<and> \<not> bit v b) [3, 5, 7] \<and>
   list_all (\<lambda>b. bit (s_dspState (write_control v s)) b \<longleftrightarrow> bit v b) [4, 6, 8, 12, 13, 14, 15] \<and>
   (bit (s_dspState (write_control v s)) 9 \<longleftrightarrow> bit (s_dspState s) 9) \<and>
   list_all (\<lambda>b. bit (s_dspState (write_control v s)) b \<longleftrightarrow>
      bit (fst (DSP_WriteControlRegister v (s_dsp_emulator s))) b) [0, 1, 2, 10, 11] \<and>
   s_dsp_emulator (write_control v s) = snd (DSP_WriteControlRegister v (s_dsp_emulator s)) \<and>
   AudioDMAControl (s_audioDMA (write_control v s)) = (if bit v 0 then 0 else AudioDMAControl (s_audioDMA s))"
  by (simp add: control_bits)

section \<open>From the DSP to the CPU\<close>

text \<open>
  C32. An interrupt the DSP asks for reaches the CPU. The DSP asks by writing an odd value to its register
  0xFFFB; running the engine turns each of its requests into one scheduled event, in order and
  after those already there, and changes nothing else of the interface. Whenever such an event
  fires while the DSP interrupt is enabled in the control register, the interface's cause is set
  at the interrupt controller and, unmasked there, the CPU's external exception is raised. After a control
  register write with a one at the interrupt's bit, the cause is set exactly when one of the other
  two interrupts is pending, not acknowledged by that write, and enabled by it.
\<close>

theorem dsp_request_delivered:
  assumes "DSP_Update n w c (s_dsp_emulator s) = Some (Inr e)" "ScheduleDSPInterrupt 0x80 \<in> set (host_events e)"
    and "bit (s_dspState t) 8" "m_InterruptMask (s_pi t) AND INT_CAUSE_DSP \<noteq> 0" "bit v 7"
  shows "gdsp_ifx_write 0xFFFB x d =
      Inr (if bit x 0 then d\<lparr>host_events := host_events d @ [ScheduleDSPInterrupt 0x80]\<rparr> else d) \<and>
    (\<exists>q. engine_update n w c s = Some (Inr (s\<lparr>dsp_events := dsp_events s @ q, s_dsp_emulator := e\<lparr>host_events := []\<rparr>\<rparr>)) \<and>
      q = map (\<lambda>r. case r of ScheduleDSPInterrupt ty \<Rightarrow> (0, GenerateDSPInterruptEvent (ucast ty))) (host_events e) \<and>
      (0, GenerateDSPInterruptEvent 0x80) \<in> set q) \<and>
    m_InterruptCause (s_pi (GenerateDSPInterrupt 0x80 t)) AND INT_CAUSE_DSP \<noteq> 0 \<and>
    ppc_Exceptions (s_pi (GenerateDSPInterrupt 0x80 t)) AND EXCEPTION_EXTERNAL_INT \<noteq> 0 \<and>
    (m_InterruptCause (s_pi (write_control v (GenerateDSPInterrupt 0x80 t))) AND INT_CAUSE_DSP \<noteq> 0 \<longleftrightarrow>
      bit (s_dspState t) 3 \<and> \<not> bit v 3 \<and> bit v 4 \<or> bit (s_dspState t) 5 \<and> \<not> bit v 5 \<and> bit v 6)"
proof (intro conjI)
  have "(x AND 1 \<noteq> 0) = bit x 0" by (simp add: control_flags(1))
  then show "gdsp_ifx_write 0xFFFB x d =
      Inr (if bit x 0 then d\<lparr>host_events := host_events d @ [ScheduleDSPInterrupt 0x80]\<rparr> else d)"
    by (simp add: gdsp_ifx_write_def InterruptRequest_def Let_def)
  have "(0, GenerateDSPInterruptEvent 0x80) \<in>
      (\<lambda>r. case r of ScheduleDSPInterrupt ty \<Rightarrow> (0, GenerateDSPInterruptEvent (ucast ty))) ` set (host_events e)"
    by (rule image_eqI [OF _ assms(2)]) simp
  then show "\<exists>q. engine_update n w c s =
        Some (Inr (s\<lparr>dsp_events := dsp_events s @ q, s_dsp_emulator := e\<lparr>host_events := []\<rparr>\<rparr>)) \<and>
      q = map (\<lambda>r. case r of ScheduleDSPInterrupt ty \<Rightarrow> (0, GenerateDSPInterruptEvent (ucast ty))) (host_events e) \<and>
      (0, GenerateDSPInterruptEvent 0x80) \<in> set q"
    using assms(1) by (simp add: engine_update_def host_requests)
  let ?g = "GenerateDSPInterrupt 0x80 t"
  have ok: "int_line_ok ?g" "int_line_ok (write_control v ?g)" by (rule int_line_ok_ops)+
  show cause: "m_InterruptCause (s_pi ?g) AND INT_CAUSE_DSP \<noteq> 0"
    using ok(1) assms(3) by (simp add: int_line_ok_def int_pending_def Generate_bits)
  have "m_InterruptCause (s_pi ?g) AND m_InterruptMask (s_pi ?g) \<noteq> 0"
    using cause assms(4) dsp_cause_meets by (simp add: line_mask)
  then show "ppc_Exceptions (s_pi ?g) AND EXCEPTION_EXTERNAL_INT \<noteq> 0"
    using ok(1) by (simp add: int_line_ok_def line_ok_def)
  show "m_InterruptCause (s_pi (write_control v ?g)) AND INT_CAUSE_DSP \<noteq> 0 \<longleftrightarrow>
      bit (s_dspState t) 3 \<and> \<not> bit v 3 \<and> bit v 4 \<or> bit (s_dspState t) 5 \<and> \<not> bit v 5 \<and> bit v 6"
    using ok(2) assms(5)
    by (simp add: int_line_ok_def int_pending_def write_control_pending write_control_enables Generate_bits)
qed

text \<open>A DSP whose program is \<^verbatim>\<open>SI @DIRQ, #1\<close>: it asks for an interrupt.\<close>

definition asking_dsp :: DSP where
  "asking_dsp = blank_dsp\<lparr>g_iram := (\<lambda>_. 0)(0 := 0x16FB, 1 := 1)\<rparr>"

lemma asking_dsp_asks:
  "case DSP_Update 3 [] 6 asking_dsp of Some (Inr e) \<Rightarrow> host_events e = [ScheduleDSPInterrupt 0x80] | _ \<Rightarrow> False"
  unfolding asking_dsp_def by code_simp

theorem dsp_request_delivered_witness:
  "let s = (write_control 0x100 blank_iface)\<lparr>s_dsp_emulator := asking_dsp, s_pi := blank_pi\<lparr>m_InterruptMask := INT_CAUSE_DSP\<rparr>\<rparr>
   in \<exists>s'. engine_update 3 [] 6 s = Some (Inr s') \<and> dsp_events s' = [(0, GenerateDSPInterruptEvent 0x80)] \<and>
        ppc_Exceptions (s_pi (GenerateDSPInterrupt 0x80 s')) AND EXCEPTION_EXTERNAL_INT \<noteq> 0 \<and>
        m_InterruptCause (s_pi (write_control 0x180 (GenerateDSPInterrupt 0x80 s'))) AND INT_CAUSE_DSP = 0"
proof -
  define s where "s = (write_control 0x100 blank_iface)\<lparr>s_dsp_emulator := asking_dsp, s_pi := blank_pi\<lparr>m_InterruptMask := INT_CAUSE_DSP\<rparr>\<rparr>"
  obtain e where e: "DSP_Update 3 [] 6 asking_dsp = Some (Inr e)" "host_events e = [ScheduleDSPInterrupt 0x80]"
    using asking_dsp_asks by (auto split: option.splits sum.splits)
  define s' where "s' = s\<lparr>dsp_events := [(0, GenerateDSPInterruptEvent 0x80)], s_dsp_emulator := e\<lparr>host_events := []\<rparr>\<rparr>"
  have st: "bit (s_dspState s') 8" "\<not> bit (s_dspState s') 3" "\<not> bit (s_dspState s') 5" "dsp_events s = []"
    "m_InterruptMask (s_pi s') AND INT_CAUSE_DSP \<noteq> 0" "s_dsp_emulator s = asking_dsp"
    unfolding s'_def s_def by (simp_all add: control_bits blank_iface_def)
  have u: "DSP_Update 3 [] 6 (s_dsp_emulator s) = Some (Inr e)" using e(1) st(6) by simp
  have r: "ScheduleDSPInterrupt 0x80 \<in> set (host_events e)" and v: "bit (0x180 :: u16) 7" using e(2) by simp_all
  note d = dsp_request_delivered [OF u r st(1,5) v]
  have "engine_update 3 [] 6 s = Some (Inr s')" using d st(4) e(2) by (auto simp: s'_def)
  moreover have "dsp_events s' = [(0, GenerateDSPInterruptEvent 0x80)]" by (simp add: s'_def)
  ultimately show ?thesis unfolding Let_def s_def [symmetric] using d st(2,3) by blast
qed

end
