(* ===== verification/DSP_AramDMA.thy ===== *)
theory DSP_AramDMA
  imports DSP_Interface
begin

text \<open>
  The two DMA engines of \<^verbatim>\<open>Core/HW/DSP.cpp\<close>: transfers between main and audio memory end and copy
  exactly the bytes asked for, and the audio DMA is periodic. The copy loops move eight bytes a
  round through a byte-swapped 64-bit word; \<open>copied\<close> says what is left in memory.
\<close>

section \<open>Eight bytes at a time\<close>

lemma byte_foldr:
  assumes "k < length bs" "length bs \<le> 8"
  shows "(ucast (drop_bit (8 * k) (foldr (\<lambda>b w. ucast b OR push_bit 8 w) bs 0 :: u64)) :: u8) = bs ! k"
  using assms
proof (induction bs arbitrary: k)
  case (Cons b bs)
  let ?w = "foldr (\<lambda>b w. ucast b OR push_bit 8 w) bs 0 :: u64"
  show ?case
  proof (cases k)
    case 0
    have "(ucast (ucast b OR push_bit 8 ?w) :: u8) = b"
      by (rule bit_word_eqI) (auto simp: word_bit_simps)
    with 0 show ?thesis by simp
  next
    case (Suc j)
    with Cons.prems have j: "j < length bs" "length bs \<le> 7" by simp_all
    have "(ucast (drop_bit (8 * Suc j) (ucast b OR push_bit 8 ?w)) :: u8) = ucast (drop_bit (8 * j) ?w)"
      by (rule bit_word_eqI) (use j in \<open>auto simp: word_bit_simps dest: bit_imp_le_length\<close>)
    then show ?thesis using Cons.IH [of j] j Suc by simp
  qed
qed simp

lemma host_read64_byte:
  assumes "k < 8"
  shows "(ucast (drop_bit (8 * k) (host_read64 mem a)) :: u8) = mem (a + of_nat k)"
proof -
  have "host_read64 mem a = foldr (\<lambda>b w. ucast b OR push_bit 8 w) (map (\<lambda>i. mem (a + of_nat i)) [0..<8]) 0"
    by (simp add: host_read64_def foldr_map comp_def)
  then show ?thesis using byte_foldr [of k "map (\<lambda>i. mem (a + of_nat i)) [0..<8]"] assms by simp
qed

lemma host_copy64:
  "host_write64 (host_read64 src a) b dst = (\<lambda>x. if x - b < 8 then src (a + (x - b)) else dst x)"
proof
  fix x
  have "unat (x - b) < 8" if "x - b < 8" using that by (simp add: word_less_nat_alt)
  then show "host_write64 (host_read64 src a) b dst x = (if x - b < 8 then src (a + (x - b)) else dst x)"
    by (simp add: host_write64_def host_read64_byte)
qed

text \<open>What copying \<open>n\<close> bytes leaves.\<close>

definition copied :: "(u32 \<Rightarrow> u8) \<Rightarrow> u32 \<Rightarrow> u32 \<Rightarrow> nat \<Rightarrow> (u32 \<Rightarrow> u8) \<Rightarrow> u32 \<Rightarrow> u8" where
  "copied src a b n dst = (\<lambda>x. if unat (x - b) < n then src (a + (x - b)) else dst x)"

lemma copied_0 [simp]: "copied src a b 0 dst = dst"
  by (simp add: copied_def)

lemma copied_step:
  assumes "n + 8 < 2 ^ 32"
  shows "copied src (a + 8) (b + 8) n (host_write64 (host_read64 src a) b dst) = copied src a b (n + 8) dst"
proof
  fix x
  define y where "y = x - b"
  have x8: "x - (b + 8) = y - 8" "x - b = y" by (simp_all add: y_def)
  have small: "y < 8 \<longleftrightarrow> unat y < 8" by (simp add: word_less_nat_alt)
  have y8: "unat (y - 8) = (if unat y < 8 then 2 ^ 32 + unat y - 8 else unat y - 8)"
    by (simp add: unat_sub_if' word_le_nat_alt)
  show "copied src (a + 8) (b + 8) n (host_write64 (host_read64 src a) b dst) x = copied src a b (n + 8) dst x"
    unfolding copied_def host_copy64 x8 small y8 using assms by auto
qed

section \<open>The loop ends\<close>

lemma cnt_set_count [simp]: "cnt_count (set_count v d) = v AND 0x7FFFFFFF"
  by (simp add: cnt_count_def set_count_def bit.conj_disj_distrib2 and.assoc)

lemma set_count_addr [simp]: "MMAddr (set_count v d) = MMAddr d" "ARAddr (set_count v d) = ARAddr d"
  by (simp_all add: set_count_def)

lemma cnt_count_bound: "unat (cnt_count d) \<le> 0x7FFFFFFF"
proof -
  have "cnt_count d \<le> 0x7FFFFFFF" by (simp add: cnt_count_def word_and_le1)
  then show ?thesis by (simp add: word_le_nat_alt)
qed

lemma cnt_advance:
  assumes "8 \<le> unat (cnt_count (s_arDMA s))"
  shows "unat (cnt_count (s_arDMA (dma_advance s))) = unat (cnt_count (s_arDMA s)) - 8"
proof -
  let ?c = "cnt_count (s_arDMA s)"
  have u: "unat (?c - 8) = unat ?c - 8" using assms by (simp add: unat_sub_if' word_le_nat_alt)
  then have "unat (?c - 8) < 2 ^ 31" using cnt_count_bound [of "s_arDMA s"] by simp
  then have "(?c - 8) AND 0x7FFFFFFF = ?c - 8" using and_mask_self [of "?c - 8" 31] by (simp add: mask_eq_exp_minus_1)
  then show ?thesis using u by (simp add: dma_advance_def Let_def)
qed

text \<open>A body of one of the loops, done once.\<close>

definition advances :: "(DSPInterface \<Rightarrow> DSPInterface result) \<Rightarrow> bool" where
  "advances body \<longleftrightarrow> (\<forall>s s'. body s = Inr s' \<longrightarrow> s_arDMA s' = s_arDMA (dma_advance s) \<and>
     s_dspState s' = s_dspState s \<and> dsp_events s' = dsp_events s)"

lemma advancesD:
  "advances body \<Longrightarrow> body s = Inr s' \<Longrightarrow> s_arDMA s' = s_arDMA (dma_advance s) \<and>
     s_dspState s' = s_dspState s \<and> dsp_events s' = dsp_events s"
  by (simp add: advances_def)

lemma advances_bodies: "advances aram_to_mram" "advances zeros_to_mram" "advances mram_to_aram"
  by (auto simp: advances_def aram_to_mram_def zeros_to_mram_def mram_to_aram_def Let_def bind_res_eq_Inr dma_advance_def)

lemma dma_while_returns:
  assumes "advances body" "unat (cnt_count (s_arDMA s)) = 8 * m" "m \<le> n"
  shows "\<exists>r. dma_while n body s = Some r \<and> (\<forall>s'. r = Inr s' \<longrightarrow>
    cnt_count (s_arDMA s') = 0 \<and> s_dspState s' = s_dspState s \<and> dsp_events s' = dsp_events s)"
  using assms(2,3)
proof (induction m arbitrary: s n)
  case 0
  then show ?case by (subst dma_while.simps) (simp add: unat_eq_0)
next
  case (Suc m)
  then obtain k where n: "n = Suc k" "m \<le> k" by (cases n) auto
  have c: "cnt_count (s_arDMA s) \<noteq> 0" using Suc.prems(1) by auto
  show ?case
  proof (cases "body s")
    case (Inl e)
    then show ?thesis using c n by (subst dma_while.simps) simp
  next
    case (Inr s1)
    note * = advancesD [OF assms(1) Inr]
    then have "unat (cnt_count (s_arDMA s1)) = 8 * m" using cnt_advance [of s] Suc.prems(1) by simp
    from Suc.IH [OF this n(2)] * Inr c n show ?thesis by (subst dma_while.simps) simp
  qed
qed

section \<open>What a DMA copies\<close>

text \<open>The registers after \<open>k\<close> bytes have gone through.\<close>

definition dma_done :: "u32 \<Rightarrow> ARAM_DMA \<Rightarrow> ARAM_DMA" where
  "dma_done k d = set_count (cnt_count d - k) (d\<lparr>MMAddr := MMAddr d + k, ARAddr := ARAddr d + k\<rparr>)"

lemma set_count_twice [simp]: "set_count v (set_count w d) = set_count v d"
  by (simp add: set_count_def bit.conj_disj_distrib2 and.assoc)

lemma set_count_fields [simp]:
  "set_count v (d\<lparr>MMAddr := a, ARAddr := b\<rparr>) = (set_count v d)\<lparr>MMAddr := a, ARAddr := b\<rparr>"
  "cnt_count (d\<lparr>MMAddr := a, ARAddr := b\<rparr>) = cnt_count d"
  by (simp_all add: set_count_def cnt_count_def)

lemma set_count_self: "set_count (cnt_count d) d = d"
proof -
  have "(Cnt d AND 0x80000000) OR (Cnt d AND 0x7FFFFFFF) = Cnt d AND (0x80000000 OR 0x7FFFFFFF)"
    by (simp only: bit.conj_disj_distrib)
  also have "\<dots> = Cnt d" by (rule bit_word_eqI) (simp add: word_bit_simps bit_int_low_mask)
  finally show ?thesis by (simp add: set_count_def cnt_count_def and.assoc)
qed

lemma dma_done_0: "dma_done 0 d = d"
  by (simp add: dma_done_def) (simp add: set_count_self flip: set_count_fields)

lemma advance_done: "s_arDMA (dma_advance s) = dma_done 8 (s_arDMA s)"
  by (simp add: dma_advance_def dma_done_def Let_def)

lemma dma_done_add:
  assumes "unat (cnt_count d) = 8 * m" "0 < m"
  shows "dma_done k (dma_done 8 d) = dma_done (k + 8) d"
proof -
  have u: "unat (cnt_count d - 8) = 8 * m - 8" using assms by (simp add: unat_sub_if' word_le_nat_alt)
  then have "unat (cnt_count d - 8) < 2 ^ 31" using cnt_count_bound [of d] assms by simp
  then have c: "(cnt_count d - 8) AND 0x7FFFFFFF = cnt_count d - 8"
    using and_mask_self [of "cnt_count d - 8" 31] by (simp add: mask_eq_exp_minus_1)
  show ?thesis by (simp add: dma_done_def c algebra_simps)
qed

section \<open>GameCube memory\<close>

definition gc_memory :: "DSP \<Rightarrow> bool" where
  "gc_memory e \<longleftrightarrow> \<not> aram_wii_mode (s_ARAM e) \<and> aram_size (s_ARAM e) = 0x1000000 \<and> aram_mask (s_ARAM e) = 0xFFFFFF"

lemma low_address:
  "unat (a :: u32) < 0x1800000 \<Longrightarrow> a AND 0x3FFFFFFF = a \<and> a < 0x1800000"
  using and_mask_self [of a 30] by (simp add: mask_eq_exp_minus_1 word_less_nat_alt)

lemma aram_address: "unat (a :: u32) < 0x1000000 \<Longrightarrow> a AND 0xFFFFFF = a"
  using and_mask_self [of a 24] by (simp add: mask_eq_exp_minus_1)

definition put_aram :: "(u32 \<Rightarrow> u8) \<Rightarrow> DSP \<Rightarrow> DSP" where
  "put_aram f e = e\<lparr>s_ARAM := (s_ARAM e)\<lparr>aram_ptr := f\<rparr>\<rparr>"

lemma put_aram_simps [simp]:
  "gc_memory (put_aram f e) = gc_memory e" "g_cpu_ram (put_aram f e) = g_cpu_ram e"
  "aram_ptr (s_ARAM (put_aram f e)) = f" "put_aram f (put_aram g e) = put_aram f e"
  "put_aram (aram_ptr (s_ARAM e)) e = e" "gc_memory (e\<lparr>g_cpu_ram := r\<rparr>) = gc_memory e"
  by (simp_all add: put_aram_def gc_memory_def)

lemma mram_to_aram_step:
  assumes "gc_memory e" "e = s_dsp_emulator s" "d = s_arDMA s" "s_ARAM_Info s AND 0xf \<noteq> 4"
    and "unat (MMAddr d) < 0x1800000" "unat (ARAddr d) < 0x1000000"
  shows "mram_to_aram s = Inr (s\<lparr>s_arDMA := dma_done 8 d,
    s_dsp_emulator := put_aram (host_write64 (host_read64 (g_cpu_ram e) (MMAddr d)) (ARAddr d) (aram_ptr (s_ARAM e))) e\<rparr>)"
  using assms(1,4) low_address [OF assms(5)] aram_address [OF assms(6)]
  by (simp add: mram_to_aram_def Let_def Read_U64_def GetPointer_def aram_write64_def gc_memory_def put_aram_def
      dma_advance_def dma_done_def assms(2,3))

lemma aram_to_mram_step:
  assumes "gc_memory e" "e = s_dsp_emulator s" "d = s_arDMA s"
    and "unat (MMAddr d) < 0x1800000" "unat (ARAddr d) < 0x1000000"
  shows "aram_to_mram s = Inr (s\<lparr>s_arDMA := dma_done 8 d,
    s_dsp_emulator := e\<lparr>g_cpu_ram := host_write64 (host_read64 (aram_ptr (s_ARAM e)) (ARAddr d)) (MMAddr d) (g_cpu_ram e)\<rparr>\<rparr>)"
  using assms(1) low_address [OF assms(4)] aram_address [OF assms(5)]
  by (simp add: aram_to_mram_def Let_def Write_U64_Swap_def GetPointer_def aram_read64_def gc_memory_def
      dma_advance_def dma_done_def assms(2,3))

lemma done_addr [simp]: "MMAddr (dma_done k d) = MMAddr d + k" "ARAddr (dma_done k d) = ARAddr d + k"
  by (simp_all add: dma_done_def set_count_def)

lemma done_count:
  assumes "unat (cnt_count d) = 8 * Suc m"
  shows "unat (cnt_count (dma_done 8 d)) = 8 * m"
  using cnt_advance [of "undefined\<lparr>s_arDMA := d\<rparr>"] assms by (simp add: advance_done)

lemma unat_add8: "unat (a :: u32) + 8 < 2 ^ 32 \<Longrightarrow> unat (a + 8) = unat a + 8"
  by (simp add: unat_add_lem [THEN iffD1])

lemma mram_to_aram_loop:
  assumes "unat (cnt_count (s_arDMA s)) = 8 * m" "m \<le> n" "gc_memory (s_dsp_emulator s)" "s_ARAM_Info s AND 0xf \<noteq> 4"
    and "unat (MMAddr (s_arDMA s)) + 8 * m \<le> 0x1800000" "unat (ARAddr (s_arDMA s)) + 8 * m \<le> 0x1000000"
  shows "dma_while n mram_to_aram s = Some (Inr (s\<lparr>s_arDMA := dma_done (of_nat (8 * m)) (s_arDMA s),
    s_dsp_emulator := put_aram (copied (g_cpu_ram (s_dsp_emulator s)) (MMAddr (s_arDMA s)) (ARAddr (s_arDMA s)) (8 * m)
      (aram_ptr (s_ARAM (s_dsp_emulator s)))) (s_dsp_emulator s)\<rparr>))"
  using assms
proof (induction m arbitrary: s n)
  case 0
  then show ?case by (subst dma_while.simps) (simp add: unat_eq_0 dma_done_0)
next
  case (Suc m)
  let ?d = "s_arDMA s" and ?e = "s_dsp_emulator s"
  obtain k where n: "n = Suc k" "m \<le> k" using Suc.prems(2) by (cases n) auto
  have c: "cnt_count ?d \<noteq> 0" using Suc.prems(1) by auto
  have lt: "unat (MMAddr ?d) < 0x1800000" "unat (ARAddr ?d) < 0x1000000" using Suc.prems(5,6) by auto
  note st = mram_to_aram_step [OF Suc.prems(3) refl refl Suc.prems(4) lt]
  let ?s = "s\<lparr>s_arDMA := dma_done 8 ?d,
    s_dsp_emulator := put_aram (host_write64 (host_read64 (g_cpu_ram ?e) (MMAddr ?d)) (ARAddr ?d) (aram_ptr (s_ARAM ?e))) ?e\<rparr>"
  have add: "unat (MMAddr ?d + 8) = unat (MMAddr ?d) + 8" "unat (ARAddr ?d + 8) = unat (ARAddr ?d) + 8"
    using lt by (simp_all add: unat_add8)
  have "dma_while n mram_to_aram s = dma_while k mram_to_aram ?s"
    using c n st by (subst dma_while.simps) simp
  also have "\<dots> = Some (Inr (?s\<lparr>s_arDMA := dma_done (of_nat (8 * m)) (s_arDMA ?s),
    s_dsp_emulator := put_aram (copied (g_cpu_ram (s_dsp_emulator ?s)) (MMAddr (s_arDMA ?s)) (ARAddr (s_arDMA ?s)) (8 * m)
      (aram_ptr (s_ARAM (s_dsp_emulator ?s)))) (s_dsp_emulator ?s)\<rparr>))"
    by (rule Suc.IH) (use Suc.prems n(2) add done_count [OF Suc.prems(1)] in simp_all)
  finally show ?case
    using Suc.prems(6) dma_done_add [OF Suc.prems(1), of "of_nat (8 * m)"]
      copied_step [of "8 * m" "g_cpu_ram ?e" "MMAddr ?d" "ARAddr ?d" "aram_ptr (s_ARAM ?e)"]
    by (simp add: algebra_simps)
qed

lemma aram_to_mram_loop:
  assumes "unat (cnt_count (s_arDMA s)) = 8 * m" "m \<le> n" "gc_memory (s_dsp_emulator s)"
    and "unat (MMAddr (s_arDMA s)) + 8 * m \<le> 0x1800000" "unat (ARAddr (s_arDMA s)) + 8 * m \<le> 0x1000000"
  shows "dma_while n aram_to_mram s = Some (Inr (s\<lparr>s_arDMA := dma_done (of_nat (8 * m)) (s_arDMA s),
    s_dsp_emulator := (s_dsp_emulator s)\<lparr>g_cpu_ram := copied (aram_ptr (s_ARAM (s_dsp_emulator s)))
      (ARAddr (s_arDMA s)) (MMAddr (s_arDMA s)) (8 * m) (g_cpu_ram (s_dsp_emulator s))\<rparr>\<rparr>))"
  using assms
proof (induction m arbitrary: s n)
  case 0
  then show ?case by (subst dma_while.simps) (simp add: unat_eq_0 dma_done_0)
next
  case (Suc m)
  let ?d = "s_arDMA s" and ?e = "s_dsp_emulator s"
  obtain k where n: "n = Suc k" "m \<le> k" using Suc.prems(2) by (cases n) auto
  have c: "cnt_count ?d \<noteq> 0" using Suc.prems(1) by auto
  have lt: "unat (MMAddr ?d) < 0x1800000" "unat (ARAddr ?d) < 0x1000000" using Suc.prems(4,5) by auto
  note st = aram_to_mram_step [OF Suc.prems(3) refl refl lt]
  let ?s = "s\<lparr>s_arDMA := dma_done 8 ?d,
    s_dsp_emulator := ?e\<lparr>g_cpu_ram := host_write64 (host_read64 (aram_ptr (s_ARAM ?e)) (ARAddr ?d)) (MMAddr ?d) (g_cpu_ram ?e)\<rparr>\<rparr>"
  have add: "unat (MMAddr ?d + 8) = unat (MMAddr ?d) + 8" "unat (ARAddr ?d + 8) = unat (ARAddr ?d) + 8"
    using lt by (simp_all add: unat_add8)
  have "dma_while n aram_to_mram s = dma_while k aram_to_mram ?s"
    using c n st by (subst dma_while.simps) simp
  also have "\<dots> = Some (Inr (?s\<lparr>s_arDMA := dma_done (of_nat (8 * m)) (s_arDMA ?s),
    s_dsp_emulator := (s_dsp_emulator ?s)\<lparr>g_cpu_ram := copied (aram_ptr (s_ARAM (s_dsp_emulator ?s)))
      (ARAddr (s_arDMA ?s)) (MMAddr (s_arDMA ?s)) (8 * m) (g_cpu_ram (s_dsp_emulator ?s))\<rparr>\<rparr>))"
    by (rule Suc.IH) (use Suc.prems n(2) add done_count [OF Suc.prems(1)] in simp_all)
  finally show ?case
    using Suc.prems(5) dma_done_add [OF Suc.prems(1), of "of_nat (8 * m)"]
      copied_step [of "8 * m" "aram_ptr (s_ARAM ?e)" "ARAddr ?d" "MMAddr ?d" "g_cpu_ram ?e"]
    by (simp add: algebra_simps)
qed

section \<open>Starting a transfer\<close>

text \<open>The low half of the counter loses its five low bits, so a transfer is whole 32-byte chunks.\<close>

definition count_written :: "u16 \<Rightarrow> DSPInterface \<Rightarrow> u32" where
  "count_written v s = ((Cnt (s_arDMA s) AND 0xFFFF0000) OR ucast (v AND NOT 31)) AND 0x7FFFFFFF"

lemma count_written_chunks: "32 dvd unat (count_written v s)"
proof -
  have "take_bit 5 (count_written v s) = 0"
  proof (rule bit_word_eqI)
    fix n :: nat
    have "n < 5 \<Longrightarrow> n \<in> {0, 1, 2, 3, 4}" by auto
    then show "bit (take_bit 5 (count_written v s)) n = bit 0 n"
      by (auto simp: count_written_def bit_take_bit_iff word_bit_simps)
  qed
  then have "take_bit 5 (unat (count_written v s)) = 0"
    by (metis unsigned_take_bit_eq unsigned_0)
  then show ?thesis by (simp add: take_bit_eq_mod dvd_eq_mod_eq_0)
qed

lemma cnt_count_addr [simp]: "cnt_count (d\<lparr>ARAddr := a, MMAddr := b\<rparr>) = cnt_count d"
  by (simp add: cnt_count_def)

lemma Do_ARAM_DMA_returns:
  assumes "unat (cnt_count (s_arDMA s)) = 8 * m" "m \<le> n"
  shows "\<exists>r. Do_ARAM_DMA n s = Some r \<and> (\<forall>s'. r = Inr s' \<longrightarrow>
      cnt_count (s_arDMA s') = 0 \<and> s_dspState s' = s_dspState s OR 0x200 \<and>
      dsp_events s' = dsp_events s @ [(sint (cnt_count (s_arDMA s) div 32 * 246), CompleteARAMEvent)])"
proof -
  let ?t = "s\<lparr>s_dspState := s_dspState s OR 0x200,
    dsp_events := dsp_events s @ [(sint (cnt_count (s_arDMA s) div 32 * 246), CompleteARAMEvent)],
    s_arDMA := (s_arDMA s)\<lparr>ARAddr := ARAddr (s_arDMA s) AND 0x3ffffff, MMAddr := MMAddr (s_arDMA s) AND 0x3ffffff\<rparr>\<rparr>"
  have "unat (cnt_count (s_arDMA ?t)) = 8 * m" using assms(1) by simp
  note * = dma_while_returns [OF _ this assms(2)]
  show ?thesis using * [OF advances_bodies(1)] * [OF advances_bodies(2)] * [OF advances_bodies(3)]
    unfolding Do_ARAM_DMA_def Let_def by simp
qed

lemma CompleteARAM_bits:
  "bit (s_dspState (CompleteARAM s)) 5" "\<not> bit (s_dspState (CompleteARAM s)) 9"
  by (simp_all add: CompleteARAM_def GenerateDSPInterrupt_def UpdateInterrupts_eq bit_or_iff bit_and_iff bit_not_iff)

text \<open>Inside main memory no step of a transfer fails.\<close>

lemma body_goes:
  assumes "unat (MMAddr (s_arDMA s)) < 0x1800000"
  shows "\<exists>s'. aram_to_mram s = Inr s'" "\<exists>s'. zeros_to_mram s = Inr s'" "\<exists>s'. mram_to_aram s = Inr s'"
  using low_address [OF assms]
  by (simp_all add: aram_to_mram_def zeros_to_mram_def mram_to_aram_def Write_U64_def Write_U64_Swap_def Read_U64_def
      GetPointer_def Let_def)

lemma dma_while_goes:
  assumes "advances body" "\<And>s. unat (MMAddr (s_arDMA s)) < 0x1800000 \<Longrightarrow> \<exists>s'. body s = Inr s'"
    and "unat (cnt_count (s_arDMA s)) = 8 * m" "m \<le> n" "unat (MMAddr (s_arDMA s)) + 8 * m \<le> 0x1800000"
  shows "\<exists>s'. dma_while n body s = Some (Inr s')"
  using assms(3-)
proof (induction m arbitrary: s n)
  case 0
  then show ?case by (subst dma_while.simps) (simp add: unat_eq_0)
next
  case (Suc m)
  then obtain k where n: "n = Suc k" "m \<le> k" by (cases n) auto
  have c: "cnt_count (s_arDMA s) \<noteq> 0" using Suc.prems(1) by auto
  obtain s1 where s1: "body s = Inr s1" using assms(2) [of s] Suc.prems(3) by auto
  have d: "s_arDMA s1 = dma_done 8 (s_arDMA s)" using advancesD [OF assms(1) s1] by (simp add: advance_done)
  have "unat (MMAddr (s_arDMA s) + 8) = unat (MMAddr (s_arDMA s)) + 8" using Suc.prems(3) by (simp add: unat_add8)
  then have "\<exists>s'. dma_while k body s1 = Some (Inr s')"
    using Suc.prems n(2) done_count [OF Suc.prems(1)] by (intro Suc.IH) (simp_all add: d)
  then show ?case using c n s1 by (subst dma_while.simps) simp
qed

lemma Do_ARAM_DMA_goes:
  assumes "unat (cnt_count (s_arDMA s)) = 8 * m" "m \<le> n" "unat (MMAddr (s_arDMA s) AND 0x3ffffff) + 8 * m \<le> 0x1800000"
  shows "\<exists>s'. Do_ARAM_DMA n s = Some (Inr s')"
proof -
  let ?t = "s\<lparr>s_dspState := s_dspState s OR 0x200,
    dsp_events := dsp_events s @ [(sint (cnt_count (s_arDMA s) div 32 * 246), CompleteARAMEvent)],
    s_arDMA := (s_arDMA s)\<lparr>ARAddr := ARAddr (s_arDMA s) AND 0x3ffffff, MMAddr := MMAddr (s_arDMA s) AND 0x3ffffff\<rparr>\<rparr>"
  have "unat (cnt_count (s_arDMA ?t)) = 8 * m" "unat (MMAddr (s_arDMA ?t)) + 8 * m \<le> 0x1800000"
    using assms(1,3) by simp_all
  note * = dma_while_goes [OF _ _ this(1) assms(2) this(2)]
  show ?thesis using * [OF advances_bodies(1) body_goes(1)] * [OF advances_bodies(2) body_goes(2)]
      * [OF advances_bodies(3) body_goes(3)]
    unfolding Do_ARAM_DMA_def Let_def by simp
qed

text \<open>The delay, a product of C's type \<^verbatim>\<open>int\<close>.\<close>

lemma dma_delay:
  assumes "unat c div 32 * 246 < 2 ^ 31"
  shows "sint (c div 32 * 246 :: u32) = int (unat c div 32 * 246)"
proof -
  have u: "unat (c div 32 * 246) = unat c div 32 * 246"
    using assms by (simp add: unat_word_ariths unat_div)
  then have "uint (c div 32 * 246) = int (unat c div 32 * 246)" by (metis uint_nat)
  then show ?thesis using assms by (simp add: sint_uint signed_take_bit_int_eq_self)
qed

text \<open>
  C34. Every transfer between main and audio memory ends: whatever the registers hold, writing the
  low half of the counter returns (\<open>2 ^ 28\<close> rounds of eight bytes always suffice), and it succeeds when the
  bytes asked for lie in main memory. When it succeeds, the counter is zero, the DMA status bit is
  set, and exactly one completion event has been scheduled; when it fires, the status bit falls and
  the ARAM interrupt is pending. The event's delay is the 32-bit signed product of the
  number of 32-byte chunks and 246: 246 ticks for each as long as that is below \<open>2 ^ 31\<close> (transfers of
  less than 279 million bytes), but for larger counts it wraps, and with 0x7FFFFFE0 the event lies
  in the past.
\<close>

theorem aram_dma_completes:
  assumes "2 ^ 28 \<le> n"
  shows "\<exists>r. mmio_write16 n 0x502A v s = Some r \<and>
    (unat (MMAddr (s_arDMA s) AND 0x3ffffff) + unat (count_written v s) \<le> 0x1800000 \<longrightarrow> (\<exists>s'. r = Inr s')) \<and>
    (\<forall>s'. r = Inr s' \<longrightarrow> cnt_count (s_arDMA s') = 0 \<and> bit (s_dspState s') 9 \<and>
      (\<exists>ticks. dsp_events s' = dsp_events s @ [(ticks, CompleteARAMEvent)] \<and>
        ticks = sint (count_written v s div 32 * 246) \<and>
        (unat (count_written v s) div 32 * 246 < 2 ^ 31 \<longrightarrow> ticks = int (unat (count_written v s) div 32 * 246)) \<and>
        (count_written v s = 0x7FFFFFE0 \<longrightarrow> ticks = - 671088886)) \<and>
      \<not> bit (s_dspState (CompleteARAM s')) 9 \<and> bit (s_dspState (CompleteARAM s')) 5)"
proof -
  let ?s = "s\<lparr>s_arDMA := (s_arDMA s)\<lparr>Cnt := (Cnt (s_arDMA s) AND 0xFFFF0000) OR ucast (v AND NOT 31)\<rparr>\<rparr>"
  have c: "cnt_count (s_arDMA ?s) = count_written v s" by (simp add: cnt_count_def count_written_def)
  obtain m where m: "unat (count_written v s) = 8 * m"
    using dvd_trans [of 8 32, OF _ count_written_chunks [of v s]] by (auto elim: dvdE)
  have "m \<le> n" using cnt_count_bound [of "s_arDMA ?s"] assms m c by simp
  have "\<exists>r. Do_ARAM_DMA n ?s = Some r \<and> (\<forall>s'. r = Inr s' \<longrightarrow>
      cnt_count (s_arDMA s') = 0 \<and> s_dspState s' = s_dspState s OR 0x200 \<and>
      dsp_events s' = dsp_events s @ [(sint (count_written v s div 32 * 246), CompleteARAMEvent)])"
    using Do_ARAM_DMA_returns [of ?s m n] c m \<open>m \<le> n\<close> by simp
  then obtain r where r: "Do_ARAM_DMA n ?s = Some r" and ret: "\<And>s'. r = Inr s' \<Longrightarrow>
      cnt_count (s_arDMA s') = 0 \<and> s_dspState s' = s_dspState s OR 0x200 \<and>
      dsp_events s' = dsp_events s @ [(sint (count_written v s div 32 * 246), CompleteARAMEvent)]" by blast
  have "mmio_write16 n 0x502A v s = Some r" using r by (simp add: mmio_write16_def write_count_low_def)
  moreover have "\<exists>s'. r = Inr s'" if "unat (MMAddr (s_arDMA s) AND 0x3ffffff) + unat (count_written v s) \<le> 0x1800000"
    using Do_ARAM_DMA_goes [of ?s m n] c m \<open>m \<le> n\<close> that r by simp
  moreover have "bit (s_dspState s OR 0x200) 9" by (simp add: bit_or_iff)
  moreover have "sint (count_written v s div 32 * 246) = - 671088886" if "count_written v s = 0x7FFFFFE0"
    using that by simp
  ultimately show ?thesis using ret CompleteARAM_bits dma_delay by (intro exI [of _ r]) (auto simp only:)
qed

text \<open>A GameCube about to send two chunks of main memory to audio memory.\<close>

theorem aram_dma_completes_witness:
  "\<exists>s'. mmio_write16 (2 ^ 28) 0x502A 0x47 (Reinit False blank_dsp blank_iface) = Some (Inr s') \<and>
     cnt_count (s_arDMA s') = 0 \<and> dsp_events s' = [(492, CompleteARAMEvent)] \<and> bit (s_dspState s') 9 \<and>
     \<not> bit (s_dspState (CompleteARAM s')) 9 \<and> bit (s_dspState (CompleteARAM s')) 5"
proof -
  let ?s = "Reinit False blank_dsp blank_iface"
  have c: "count_written 0x47 ?s = 64" by (simp add: count_written_def Reinit_def)
  then have e: "sint (count_written 0x47 ?s div 32 * 246) = 492" "dsp_events ?s = []"
    "unat (MMAddr (s_arDMA ?s) AND 0x3ffffff) + unat (count_written 0x47 ?s) \<le> 0x1800000"
    by (simp_all add: blank_iface_def Reinit_def)
  show ?thesis using aram_dma_completes [of "2 ^ 28" "0x47" ?s, OF order_refl] e by auto
qed

lemma dma_masks:
  "unat (a :: u32) < 0x1800000 \<Longrightarrow> a AND 0x3FFFFFF = a"
  using and_mask_self [of a 26] by (simp add: mask_eq_exp_minus_1)

lemma Do_ARAM_DMA_copies:
  assumes "e = s_dsp_emulator s" "d = s_arDMA s" "gc_memory e" "s_ARAM_Info s AND 0xf \<noteq> 4"
    and "unat (cnt_count d) = 8 * m" "0 < m" "m \<le> n"
    and "unat (MMAddr d) + 8 * m \<le> 0x1800000" "unat (ARAddr d) + 8 * m \<le> 0x1000000"
  shows "\<exists>s'. Do_ARAM_DMA n s = Some (Inr s') \<and>
    s_dsp_emulator s' =
      (if Cnt d AND 0x80000000 \<noteq> 0
       then e\<lparr>g_cpu_ram := (\<lambda>x. if unat (x - MMAddr d) < 8 * m then aram_ptr (s_ARAM e) (ARAddr d + (x - MMAddr d))
                              else g_cpu_ram e x)\<rparr>
       else e\<lparr>s_ARAM := (s_ARAM e)\<lparr>aram_ptr :=
              (\<lambda>x. if unat (x - ARAddr d) < 8 * m then g_cpu_ram e (MMAddr d + (x - ARAddr d))
                   else aram_ptr (s_ARAM e) x)\<rparr>\<rparr>) \<and>
    cnt_count (s_arDMA s') = 0 \<and> MMAddr (s_arDMA s') = MMAddr d + of_nat (8 * m) \<and>
    ARAddr (s_arDMA s') = ARAddr d + of_nat (8 * m)"
proof -
  have lt: "unat (MMAddr d) < 0x1800000" "unat (ARAddr d) < 0x1800000" "unat (ARAddr d) < 0x1000000"
    using assms(6,8,9) by linarith+
  have d: "d\<lparr>ARAddr := ARAddr d AND 0x3ffffff, MMAddr := MMAddr d AND 0x3ffffff\<rparr> = d"
    using dma_masks [OF lt(1)] dma_masks [OF lt(2)] by simp
  have inside: "ARAddr d < aram_size (s_ARAM e)" using lt(3) assms(3) by (simp add: gc_memory_def word_less_nat_alt)
  let ?t = "s\<lparr>s_dspState := s_dspState s OR 0x200,
    dsp_events := dsp_events s @ [(sint (cnt_count d div 32 * 246), CompleteARAMEvent)]\<rparr>"
  have start: "Do_ARAM_DMA n s = dma_while n (if Cnt d AND 0x80000000 \<noteq> 0 then aram_to_mram else mram_to_aram) ?t"
    using inside d assms(1,2) by (simp add: Do_ARAM_DMA_def Let_def)
  have zero: "cnt_count (dma_done (of_nat (8 * m)) d) = 0"
    using arg_cong [OF assms(5), of "of_nat :: nat \<Rightarrow> u32"] by (simp add: dma_done_def)
  note loops = aram_to_mram_loop [of ?t m n] mram_to_aram_loop [of ?t m n]
  show ?thesis unfolding start
    using loops assms(3-) zero unfolding assms(1,2) by (simp add: copied_def put_aram_def)
qed

text \<open>
  What a transfer moves, on the GameCube. With \<open>8 * m\<close> bytes to go inside both
  memories, a transfer out of audio memory leaves in main memory exactly those bytes at the
  destination, in order and unswapped, and every other byte alone; a transfer into audio memory does the
  same the other way. Neither touches anything else of the engine, and
  both leave the counter at zero and the addresses advanced by the length.
\<close>

theorem aram_dma_copies:
  assumes "e = s_dsp_emulator s" "d = s_arDMA s" "gc_memory e" "s_ARAM_Info s AND 0xf \<noteq> 4"
    and "unat (cnt_count d) = 8 * m" "0 < m" "m \<le> n"
    and "unat (MMAddr d) + 8 * m \<le> 0x1800000" "unat (ARAddr d) + 8 * m \<le> 0x1000000"
  shows "\<exists>s'. Do_ARAM_DMA n s = Some (Inr s') \<and>
    s_dsp_emulator s' =
      (if Cnt d AND 0x80000000 \<noteq> 0
       then e\<lparr>g_cpu_ram := (\<lambda>x. if unat (x - MMAddr d) < 8 * m then aram_ptr (s_ARAM e) (ARAddr d + (x - MMAddr d))
                              else g_cpu_ram e x)\<rparr>
       else e\<lparr>s_ARAM := (s_ARAM e)\<lparr>aram_ptr :=
              (\<lambda>x. if unat (x - ARAddr d) < 8 * m then g_cpu_ram e (MMAddr d + (x - ARAddr d))
                   else aram_ptr (s_ARAM e) x)\<rparr>\<rparr>) \<and>
    cnt_count (s_arDMA s') = 0 \<and> MMAddr (s_arDMA s') = MMAddr d + of_nat (8 * m) \<and>
    ARAddr (s_arDMA s') = ARAddr d + of_nat (8 * m)"
  using assms by (rule Do_ARAM_DMA_copies)

text \<open>A GameCube whose main memory holds a byte pattern, about to send 32 bytes to audio memory.\<close>

definition dma_example :: DSPInterface where
  "dma_example = (Reinit False (blank_dsp\<lparr>g_cpu_ram := ucast\<rparr>) blank_iface)
     \<lparr>s_arDMA := \<lparr>MMAddr = 0, ARAddr = 0x20, Cnt = 0x20\<rparr>\<rparr>"

theorem aram_dma_copies_witness:
  "\<exists>s'. Do_ARAM_DMA 4 dma_example = Some (Inr s') \<and> aram_ptr (s_ARAM (s_dsp_emulator s')) 0x21 = 1"
proof -
  let ?e = "s_dsp_emulator dma_example" and ?d = "s_arDMA dma_example"
  have d: "?d = \<lparr>MMAddr = 0, ARAddr = 0x20, Cnt = 0x20\<rparr>" by (simp add: dma_example_def)
  have gc: "gc_memory ?e" "s_ARAM_Info dma_example AND 0xf \<noteq> 4"
    by (simp_all add: gc_memory_def dma_example_def Reinit_def)
  have cnt: "unat (cnt_count ?d) = 8 * 4" by (simp add: d cnt_count_def)
  have bounds: "unat (MMAddr ?d) + 8 * 4 \<le> 0x1800000" "unat (ARAddr ?d) + 8 * 4 \<le> 0x1000000" by (simp_all add: d)
  have dir: "Cnt ?d AND 0x80000000 = 0" by (simp add: d)
  obtain s' where s': "Do_ARAM_DMA 4 dma_example = Some (Inr s')"
    "s_dsp_emulator s' = ?e\<lparr>s_ARAM := (s_ARAM ?e)\<lparr>aram_ptr :=
      (\<lambda>x. if unat (x - ARAddr ?d) < 8 * 4 then g_cpu_ram ?e (MMAddr ?d + (x - ARAddr ?d)) else aram_ptr (s_ARAM ?e) x)\<rparr>\<rparr>"
    using aram_dma_copies [OF refl refl gc cnt _ order_refl bounds] dir by auto
  have "g_cpu_ram ?e 1 = 1" by (simp add: dma_example_def Reinit_def)
  with s' show ?thesis by (simp add: d)
qed

section \<open>The audio tick\<close>

lemma audio_tick:
  assumes "audio_enabled (s_audioDMA s)" "1 < unat (remaining_blocks_count (s_audioDMA s))"
  shows "UpdateAudioDMA s = s\<lparr>s_audioDMA := (s_audioDMA s)\<lparr>
    remaining_blocks_count := remaining_blocks_count (s_audioDMA s) - 1,
    current_source_address := current_source_address (s_audioDMA s) + 32\<rparr>\<rparr>"
proof -
  have "remaining_blocks_count (s_audioDMA s) \<noteq> 0" "remaining_blocks_count (s_audioDMA s) - 1 \<noteq> 0"
    using assms(2) by (auto simp: unat_eq_0)
  then show ?thesis using assms(1) by (simp add: UpdateAudioDMA_def Let_def)
qed

lemma audio_ticks:
  assumes "audio_enabled a" "NumBlocks a = b" "remaining_blocks_count a = b" "current_source_address a = SourceAddress a"
    and "a = s_audioDMA s" "k < unat b"
  shows "(UpdateAudioDMA ^^ k) s = s\<lparr>s_audioDMA := a\<lparr>remaining_blocks_count := b - of_nat k,
    current_source_address := SourceAddress a + 32 * of_nat k\<rparr>\<rparr>"
  using assms(6)
proof (induction k)
  case 0
  have "a\<lparr>remaining_blocks_count := b, current_source_address := SourceAddress a\<rparr> = a"
    using assms(3,4) by (cases a) simp
  then show ?case using assms(5) by simp
next
  case (Suc k)
  have "of_nat k \<le> b" using Suc.prems by (simp add: word_le_nat_alt unat_of_nat take_bit_eq_mod) 
  then have "unat (b - of_nat k) = unat b - k" using Suc.prems unat_u16_less [of b]
    by (simp add: unat_sub unat_of_nat)
  then show ?case using Suc assms(1)
    by (simp add: audio_tick audio_enabled_def algebra_simps)
qed

text \<open>
  The audio DMA is periodic. Once enabled with \<open>b > 0\<close> blocks, the first \<open>b - 1\<close> ticks only step
  the block counter down and the address on by 32 bytes; tick number \<open>b\<close> reloads both, hands
  the mixer the next buffer of \<open>8 * b\<close> samples, and raises the audio interrupt: the state it
  leaves is the one it started from, up to the buffer sent and the interrupt.
\<close>

theorem audio_dma_period:
  assumes "a = s_audioDMA s" "audio_enabled a" "NumBlocks a = b" "b \<noteq> 0"
    and "remaining_blocks_count a = b" "current_source_address a = SourceAddress a"
  shows "(k < unat b \<longrightarrow> (UpdateAudioDMA ^^ k) s = s\<lparr>s_audioDMA := a\<lparr>remaining_blocks_count := b - of_nat k,
      current_source_address := SourceAddress a + 32 * of_nat k\<rparr>\<rparr>) \<and>
    (UpdateAudioDMA ^^ unat b) s = GenerateDSPInterrupt 0x08 (SendAIBuffer (Some (SourceAddress a)) (8 * unat b) s)"
proof
  show "k < unat b \<longrightarrow> (UpdateAudioDMA ^^ k) s = s\<lparr>s_audioDMA := a\<lparr>remaining_blocks_count := b - of_nat k,
      current_source_address := SourceAddress a + 32 * of_nat k\<rparr>\<rparr>"
    using audio_ticks [OF assms(2,3,5,6,1)] by blast
  from assms(4) have "0 < unat b" by (simp add: unat_gt_0)
  then obtain j where j: "unat b = Suc j" by (cases "unat b") auto
  have last: "b - of_nat j = 1"
    using arg_cong [OF j, of "of_nat :: nat \<Rightarrow> u16"] by simp
  have a: "a\<lparr>current_source_address := SourceAddress a, remaining_blocks_count := b\<rparr> = a"
    "NumBlocks (a\<lparr>remaining_blocks_count := x, current_source_address := y\<rparr>) = b" for x y
    using assms(3,5,6) by (cases a; simp add: NumBlocks_def)+
  have "(UpdateAudioDMA ^^ Suc j) s = UpdateAudioDMA (s\<lparr>s_audioDMA := a\<lparr>remaining_blocks_count := 1,
      current_source_address := SourceAddress a + 32 * of_nat j\<rparr>\<rparr>)"
    using audio_ticks [OF assms(2,3,5,6,1), of j] j last by simp
  also have "\<dots> = GenerateDSPInterrupt 0x08 (SendAIBuffer (Some (SourceAddress a)) (8 * unat b) s)"
    using assms(2-5) a by (simp add: UpdateAudioDMA_def Let_def audio_enabled_def SendAIBuffer_def assms(1) mult.commute)
  finally show "(UpdateAudioDMA ^^ unat b) s = GenerateDSPInterrupt 0x08 (SendAIBuffer (Some (SourceAddress a)) (8 * unat b) s)"
    using j by simp
qed

theorem audio_dma_period_witness:
  "(UpdateAudioDMA ^^ 2) (write_audio_control 0x8002 blank_iface) =
     GenerateDSPInterrupt 0x08 (SendAIBuffer (Some 0) 16 (write_audio_control 0x8002 blank_iface))"
proof -
  let ?s = "write_audio_control 0x8002 blank_iface"
  have a: "s_audioDMA ?s = \<lparr>current_source_address = 0, remaining_blocks_count = 2, SourceAddress = 0, AudioDMAControl = 0x8002\<rparr>"
    by (simp add: write_audio_control_def blank_iface_def audio_enabled_def NumBlocks_def SendAIBuffer_def)
  show ?thesis using audio_dma_period [of _ ?s 2 0, OF refl] unfolding a by (simp add: audio_enabled_def NumBlocks_def)
qed

end
