(* ===== verification/Binary_Heap.thy ===== *)
theory Binary_Heap
  imports Main "HOL-Library.Multiset" "HOL-Library.Product_Lexorder"
begin

text \<open>
  The heap algorithms of the C++ standard library (\<^verbatim>\<open>std::push_heap\<close>, \<^verbatim>\<open>std::pop_heap\<close>,
  \<^verbatim>\<open>std::make_heap\<close> with \<^verbatim>\<open>std::greater\<close>) as the scheduler uses them: a vector whose first element is a least
  one. Elements are compared by a key. The library leaves the layout to the implementation; what its
  users rely on is the locale \<open>min_queue\<close>.
\<close>

section \<open>The contract\<close>

locale min_queue =
  fixes push :: "'a \<Rightarrow> 'q \<Rightarrow> 'q" and pop :: "'q \<Rightarrow> 'q" and make :: "'a list \<Rightarrow> 'q"
    and front :: "'q \<Rightarrow> 'a" and elems :: "'q \<Rightarrow> 'a multiset" and inv :: "'q \<Rightarrow> bool" and key :: "'a \<Rightarrow> 'k::linorder"
  assumes elems_push: "elems (push x q) = add_mset x (elems q)"
    and inv_push: "inv q \<Longrightarrow> inv (push x q)"
    and elems_make: "elems (make xs) = mset xs"
    and inv_make: "inv (make xs)"
    and front_elem: "elems q \<noteq> {#} \<Longrightarrow> front q \<in># elems q"
    and front_least: "inv q \<Longrightarrow> x \<in># elems q \<Longrightarrow> key (front q) \<le> key x"
    and elems_pop: "elems q \<noteq> {#} \<Longrightarrow> elems (pop q) = elems q - {#front q#}"
    and inv_pop: "inv q \<Longrightarrow> elems q \<noteq> {#} \<Longrightarrow> inv (pop q)"
begin

text \<open>Popping until the queue is empty sorts.\<close>

fun drain :: "nat \<Rightarrow> 'q \<Rightarrow> 'a list" where
  "drain 0 q = []"
| "drain (Suc n) q = front q # drain n (pop q)"

lemma drain_sorts:
  "inv q \<Longrightarrow> size (elems q) = n \<Longrightarrow> mset (drain n q) = elems q \<and> sorted (map key (drain n q))"
proof (induction n arbitrary: q)
  case (Suc n)
  then have ne: "elems q \<noteq> {#}" by auto
  note f = front_elem [OF ne] and p = elems_pop [OF ne]
  have n: "size (elems (pop q)) = n" using Suc.prems(2) f p by (simp add: size_Diff_singleton)
  note IH = Suc.IH [OF inv_pop [OF Suc.prems(1) ne] n]
  have "key (front q) \<le> key y" if "y \<in> set (drain n (pop q))" for y
  proof -
    have "y \<in># elems (pop q)" using that IH by (metis set_mset_mset)
    then have "y \<in># elems q" using p by (simp add: in_diffD)
    then show ?thesis by (rule front_least [OF Suc.prems(1)])
  qed
  then show ?case using IH f p by auto
qed simp

end

section \<open>Sifting\<close>

definition swap :: "nat \<Rightarrow> nat \<Rightarrow> 'a list \<Rightarrow> 'a list" where
  "swap i j xs = xs[i := xs ! j, j := xs ! i]"

abbreviation parent :: "nat \<Rightarrow> nat" where
  "parent i \<equiv> (i - 1) div 2"

fun sift_up :: "('a \<Rightarrow> 'k::linorder) \<Rightarrow> nat \<Rightarrow> 'a list \<Rightarrow> 'a list" where
  "sift_up key i xs =
    (if i = 0 then xs
     else if key (xs ! i) < key (xs ! parent i) then sift_up key (parent i) (swap i (parent i) xs)
     else xs)"

declare sift_up.simps [simp del]

text \<open>The smaller child of \<open>i\<close> among the first \<open>n\<close> elements.\<close>

definition least_child :: "('a \<Rightarrow> 'k::linorder) \<Rightarrow> nat \<Rightarrow> nat \<Rightarrow> 'a list \<Rightarrow> nat" where
  "least_child key n i xs =
    (if 2 * i + 2 < n \<and> key (xs ! (2 * i + 2)) < key (xs ! (2 * i + 1)) then 2 * i + 2 else 2 * i + 1)"

function sift_down :: "('a \<Rightarrow> 'k::linorder) \<Rightarrow> nat \<Rightarrow> nat \<Rightarrow> 'a list \<Rightarrow> 'a list" where
  "sift_down key n i xs =
    (if n \<le> 2 * i + 1 then xs
     else let c = least_child key n i xs
          in if key (xs ! c) < key (xs ! i) then sift_down key n c (swap i c xs) else xs)"
  by pat_completeness auto
termination
  by (relation "measure (\<lambda>(key, n, i, xs). n - i)") (auto simp: least_child_def)

declare sift_down.simps [simp del]

section \<open>The algorithms\<close>

definition push_heap :: "('a \<Rightarrow> 'k::linorder) \<Rightarrow> 'a \<Rightarrow> 'a list \<Rightarrow> 'a list" where
  "push_heap key x xs = sift_up key (length xs) (xs @ [x])"

definition pop_heap :: "('a \<Rightarrow> 'k::linorder) \<Rightarrow> 'a list \<Rightarrow> 'a list" where
  "pop_heap key xs =
    (let n = length xs - 1; ys = swap 0 n xs in sift_down key n 0 (butlast ys))"

fun make_heap_from :: "('a \<Rightarrow> 'k::linorder) \<Rightarrow> nat \<Rightarrow> 'a list \<Rightarrow> 'a list" where
  "make_heap_from key 0 xs = xs"
| "make_heap_from key (Suc i) xs = make_heap_from key i (sift_down key (length xs) i xs)"

definition make_heap :: "('a \<Rightarrow> 'k::linorder) \<Rightarrow> 'a list \<Rightarrow> 'a list" where
  "make_heap key xs = make_heap_from key (length xs div 2) xs"

section \<open>Elements are kept\<close>

lemma length_swap [simp]: "length (swap i j xs) = length xs"
  by (simp add: swap_def)

lemma mset_swap: "i < length xs \<Longrightarrow> j < length xs \<Longrightarrow> mset (swap i j xs) = mset xs"
  by (simp add: swap_def mset_swap)

lemma nth_swap:
  "i < length xs \<Longrightarrow> j < length xs \<Longrightarrow> k < length xs \<Longrightarrow>
     swap i j xs ! k = xs ! (if k = i then j else if k = j then i else k)"
  by (auto simp: swap_def nth_list_update)

lemma parent_less: "0 < i \<Longrightarrow> parent i < i"
  by auto

lemma mset_sift_up: "i < length xs \<Longrightarrow> mset (sift_up key i xs) = mset xs \<and> length (sift_up key i xs) = length xs"
proof (induction key i xs rule: sift_up.induct)
  case (1 key i xs)
  then show ?case by (subst (1 2) sift_up.simps) (auto simp: mset_swap less_imp_diff_less div_le_dividend)
qed

lemma least_child_less: "2 * i + 1 < n \<Longrightarrow> least_child key n i xs < n \<and> i < least_child key n i xs"
  by (auto simp: least_child_def)

lemma mset_sift_down:
  "n \<le> length xs \<Longrightarrow> mset (sift_down key n i xs) = mset xs \<and> length (sift_down key n i xs) = length xs"
proof (induction key n i xs rule: sift_down.induct)
  case (1 key n i xs)
  show ?case
  proof (cases "n \<le> 2 * i + 1")
    case False
    then have c: "least_child key n i xs < n" "i < least_child key n i xs" using least_child_less [of i n key xs] by auto
    with False 1 show ?thesis by (subst (1 2) sift_down.simps) (auto simp: Let_def mset_swap)
  qed (simp add: sift_down.simps)
qed

section \<open>The heap order\<close>

definition heap_from :: "('a \<Rightarrow> 'k::linorder) \<Rightarrow> nat \<Rightarrow> nat \<Rightarrow> 'a list \<Rightarrow> bool" where
  "heap_from key n i xs \<longleftrightarrow> (\<forall>j. 0 < j \<longrightarrow> j < n \<longrightarrow> i \<le> parent j \<longrightarrow> key (xs ! parent j) \<le> key (xs ! j))"

definition is_heap :: "('a \<Rightarrow> 'k::linorder) \<Rightarrow> 'a list \<Rightarrow> bool" where
  "is_heap key xs \<longleftrightarrow> heap_from key (length xs) 0 xs"

lemma heap_fromD: "heap_from key n i xs \<Longrightarrow> 0 < j \<Longrightarrow> j < n \<Longrightarrow> i \<le> parent j \<Longrightarrow> key (xs ! parent j) \<le> key (xs ! j)"
  by (simp add: heap_from_def)

text \<open>Everything is in order except above \<open>i\<close>, and what is below \<open>i\<close> is in order with what is above it.\<close>

definition heap_but_up :: "('a \<Rightarrow> 'k::linorder) \<Rightarrow> nat \<Rightarrow> 'a list \<Rightarrow> bool" where
  "heap_but_up key i xs \<longleftrightarrow> (\<forall>j. 0 < j \<longrightarrow> j < length xs \<longrightarrow>
     (j \<noteq> i \<longrightarrow> key (xs ! parent j) \<le> key (xs ! j)) \<and>
     (parent j = i \<longrightarrow> 0 < i \<longrightarrow> key (xs ! parent i) \<le> key (xs ! j)))"

lemma heap_but_upD:
  assumes "heap_but_up key i xs" "0 < j" "j < length xs"
  shows "j \<noteq> i \<Longrightarrow> key (xs ! parent j) \<le> key (xs ! j)"
    and "parent j = i \<Longrightarrow> 0 < i \<Longrightarrow> key (xs ! parent i) \<le> key (xs ! j)"
  using assms by (auto simp: heap_but_up_def)

lemma heap_but_up_step:
  assumes "heap_but_up key i xs" "0 < i" "i < length xs" "key (xs ! i) < key (xs ! parent i)"
  shows "heap_but_up key (parent i) (swap i (parent i) xs)"
  unfolding heap_but_up_def
proof (intro allI impI conjI)
  fix j assume j: "0 < j" "j < length (swap i (parent i) xs)"
  let ?p = "parent i"
  note D = heap_but_upD [OF assms(1)]
  have p: "?p < i" using assms(2) by (rule parent_less)
  have jl: "j < length xs" and pj: "parent j < j" using j by auto
  note nth = nth_swap [of i xs ?p]
  have sw: "swap i ?p xs ! k = xs ! (if k = i then ?p else if k = ?p then i else k)" if "k < length xs" for k
    using nth_swap [of i xs ?p k] that assms(3) p by simp
  show "key (swap i ?p xs ! parent j) \<le> key (swap i ?p xs ! j)" if "j \<noteq> ?p"
  proof (cases "j = i")
    case True
    then show ?thesis using assms(4) sw [of i] sw [of ?p] assms(3) p by auto
  next
    case False
    have "key (xs ! parent j) \<le> key (xs ! j)" using D(1) [OF j(1) jl] False by blast
    moreover have "key (xs ! ?p) \<le> key (xs ! j)" if "parent j = i" using D(2) [OF j(1) jl that] assms(2) by blast
    moreover have "key (xs ! i) \<le> key (xs ! j)" if "parent j = ?p"
    proof -
      have "key (xs ! ?p) \<le> key (xs ! j)" using D(1) [OF j(1) jl False] that by simp
      then show ?thesis using assms(4) by simp
    qed
    ultimately show ?thesis using sw [OF jl] sw [of "parent j"] jl pj False \<open>j \<noteq> ?p\<close> by auto
  qed
  show "key (swap i ?p xs ! parent ?p) \<le> key (swap i ?p xs ! j)" if "parent j = ?p" "0 < ?p"
  proof -
    have pp: "parent ?p < ?p" using that(2) by (rule parent_less)
    have up: "key (xs ! parent ?p) \<le> key (xs ! ?p)" using D(1) [of ?p] that(2) assms(3) p by auto
    have "key (xs ! ?p) \<le> key (xs ! j)" if "j \<noteq> i" using D(1) [OF j(1) jl that] \<open>parent j = ?p\<close> by simp
    then show ?thesis using up sw [OF jl] sw [of "parent ?p"] pp p assms(3) pj that(1) by force
  qed
qed

lemma heap_sift_up:
  "heap_but_up key i xs \<Longrightarrow> i < length xs \<Longrightarrow> is_heap key (sift_up key i xs)"
proof (induction key i xs rule: sift_up.induct)
  case (1 key i xs)
  show ?case
  proof (cases "0 < i \<and> key (xs ! i) < key (xs ! parent i)")
    case True
    have "parent i < length (swap i (parent i) xs)" using parent_less [of i] True "1.prems"(2) by simp
    then show ?thesis
      using 1 heap_but_up_step [OF "1.prems"(1) _ "1.prems"(2)] True by (subst sift_up.simps) simp
  next
    case False
    have "key (xs ! parent j) \<le> key (xs ! j)" if "0 < j" "j < length xs" for j
      using False heap_but_upD(1) [OF "1.prems"(1) that] by (cases "j = i") (use that in auto)
    then show ?thesis using False by (subst sift_up.simps) (auto simp: is_heap_def heap_from_def)
  qed
qed

lemma heap_push_heap: "is_heap key xs \<Longrightarrow> is_heap key (push_heap key x xs)"
  unfolding push_heap_def
  by (rule heap_sift_up)
    (auto simp: heap_but_up_def is_heap_def heap_from_def nth_append)

text \<open>The order holds from \<open>i0\<close> on except below \<open>i\<close>, whose children are in order with its parent.\<close>

definition heap_but_down :: "('a \<Rightarrow> 'k::linorder) \<Rightarrow> nat \<Rightarrow> nat \<Rightarrow> nat \<Rightarrow> 'a list \<Rightarrow> bool" where
  "heap_but_down key n i0 i xs \<longleftrightarrow> (\<forall>j. 0 < j \<longrightarrow> j < n \<longrightarrow>
     (i0 \<le> parent j \<longrightarrow> parent j \<noteq> i \<longrightarrow> key (xs ! parent j) \<le> key (xs ! j)) \<and>
     (parent j = i \<longrightarrow> 0 < i \<longrightarrow> i0 \<le> parent i \<longrightarrow> key (xs ! parent i) \<le> key (xs ! j)))"

lemma heap_but_downD:
  assumes "heap_but_down key n i0 i xs" "0 < j" "j < n"
  shows "i0 \<le> parent j \<Longrightarrow> parent j \<noteq> i \<Longrightarrow> key (xs ! parent j) \<le> key (xs ! j)"
    and "parent j = i \<Longrightarrow> 0 < i \<Longrightarrow> i0 \<le> parent i \<Longrightarrow> key (xs ! parent i) \<le> key (xs ! j)"
  using assms by (auto simp: heap_but_down_def)

lemma children: "0 < j \<Longrightarrow> parent j = i \<longleftrightarrow> j = 2 * i + 1 \<or> j = 2 * i + 2"
  by auto

lemma least_child_least:
  assumes "0 < j" "j < n" "parent j = i"
  shows "key (xs ! least_child key n i xs) \<le> key (xs ! j)"
proof -
  have "j = 2 * i + 1 \<or> j = 2 * i + 2" using assms by auto
  then show ?thesis using assms(2) by (auto simp: least_child_def)
qed

lemma parent_least_child: "parent (least_child key n i xs) = i"
  by (auto simp: least_child_def)

lemma heap_but_down_step:
  assumes h: "heap_but_down key n i0 i xs" and n: "2 * i + 1 < n" "n \<le> length xs" and c: "c = least_child key n i xs"
    and less: "key (xs ! c) < key (xs ! i)"
  shows "heap_but_down key n i0 c (swap i c xs)"
  unfolding heap_but_down_def
proof (intro allI impI conjI)
  fix j assume j: "0 < j" "j < n"
  note D = heap_but_downD [OF h j]
  have ci: "c < n" "i < c" "parent c = i" using least_child_less [OF n(1), of key xs] parent_least_child c by auto
  have sw: "swap i c xs ! k = xs ! (if k = i then c else if k = c then i else k)" if "k < n" for k
    using nth_swap [of i xs c k] that n ci by simp
  have pj: "parent j < j" using j by auto
  show "key (swap i c xs ! parent j) \<le> key (swap i c xs ! j)" if "i0 \<le> parent j" "parent j \<noteq> c"
  proof (cases "parent j = i")
    case True
    have "key (xs ! c) \<le> key (xs ! j)" using least_child_least [OF j True] c by simp
    then show ?thesis using sw [OF j(2)] sw [of "parent j"] True less j pj ci by auto
  next
    case False
    then have "j \<noteq> c" using ci by auto
    have "key (xs ! parent j) \<le> key (xs ! j)" using D(1) that(1) False by blast
    moreover have "key (xs ! parent j) \<le> key (xs ! c)" if "j = i"
      using heap_but_downD(2) [OF h, of c] ci that j \<open>i0 \<le> parent j\<close> by auto
    ultimately show ?thesis using sw [OF j(2)] sw [of "parent j"] False \<open>j \<noteq> c\<close> that(2) j pj by auto
  qed
  show "key (swap i c xs ! parent c) \<le> key (swap i c xs ! j)" if "parent j = c" "0 < c" "i0 \<le> parent c"
  proof -
    have "j \<noteq> c" "j \<noteq> i" using that(1) pj ci by auto
    moreover have "key (xs ! c) \<le> key (xs ! j)" using D(1) that ci by auto
    ultimately show ?thesis using sw [OF j(2)] sw [of i] ci by auto
  qed
qed

lemma heap_sift_down:
  "heap_but_down key n i0 i xs \<Longrightarrow> n \<le> length xs \<Longrightarrow> heap_from key n i0 (sift_down key n i xs)"
proof (induction key n i xs rule: sift_down.induct)
  case (1 key n i xs)
  let ?c = "least_child key n i xs"
  show ?case
  proof (cases "2 * i + 1 < n \<and> key (xs ! ?c) < key (xs ! i)")
    case True
    then show ?thesis
      using 1 heap_but_down_step [OF "1.prems"(1) _ "1.prems"(2) refl] by (subst sift_down.simps) (simp add: Let_def)
  next
    case False
    have "key (xs ! parent j) \<le> key (xs ! j)" if "0 < j" "j < n" "i0 \<le> parent j" for j
    proof (cases "parent j = i")
      case True
      then have "2 * i + 1 < n" using that by (auto simp: children)
      then have "key (xs ! i) \<le> key (xs ! ?c)" using False by auto
      also have "\<dots> \<le> key (xs ! j)" using least_child_least [OF that(1,2) True] .
      finally show ?thesis using True by simp
    qed (use heap_but_downD(1) [OF "1.prems"(1) that(1,2)] that(3) in blast)
    then show ?thesis using False by (subst sift_down.simps) (auto simp: heap_from_def Let_def)
  qed
qed

lemma heap_from_sift:
  "heap_from key n (Suc i) xs \<Longrightarrow> n \<le> length xs \<Longrightarrow> heap_from key n i (sift_down key n i xs)"
  by (rule heap_sift_down) (auto simp: heap_but_down_def heap_from_def Suc_le_eq)

lemma heap_make_from:
  "heap_from key (length xs) i xs \<Longrightarrow> is_heap key (make_heap_from key i xs) \<and> mset (make_heap_from key i xs) = mset xs"
proof (induction i arbitrary: xs)
  case 0
  then show ?case by (simp add: is_heap_def)
next
  case (Suc i)
  note m = mset_sift_down [of "length xs" xs key i]
  show ?case using Suc.IH [of "sift_down key (length xs) i xs"] heap_from_sift [OF Suc.prems] m by simp
qed

lemma heap_make_heap: "is_heap key (make_heap key xs)" "mset (make_heap key xs) = mset xs"
proof -
  have "heap_from key (length xs) (length xs div 2) xs" by (auto simp: heap_from_def)
  from heap_make_from [OF this] show "is_heap key (make_heap key xs)" "mset (make_heap key xs) = mset xs"
    by (simp_all add: make_heap_def)
qed

lemma heap_root:
  assumes "is_heap key xs" "i < length xs"
  shows "key (xs ! 0) \<le> key (xs ! i)"
  using assms(2)
proof (induction i rule: less_induct)
  case (less i)
  show ?case
  proof (cases "i = 0")
    case False
    then have "key (xs ! 0) \<le> key (xs ! parent i)" using less parent_less [of i] by simp
    also have "\<dots> \<le> key (xs ! i)" using assms(1) False less.prems by (auto simp: is_heap_def heap_from_def)
    finally show ?thesis .
  qed simp
qed

lemma pop_heap_swap:
  assumes "xs \<noteq> []"
  shows "mset (butlast (swap 0 (length xs - 1) xs)) = mset xs - {#hd xs#}"
proof -
  let ?ys = "swap 0 (length xs - 1) xs"
  have m: "mset ?ys = mset xs" using assms by (simp add: mset_swap)
  have ne: "?ys \<noteq> []" using assms by (metis length_0_conv length_swap)
  have "last ?ys = hd xs" using assms ne by (simp add: last_conv_nth hd_conv_nth nth_swap)
  then show ?thesis using m ne by (metis add_diff_cancel_right' append_butlast_last_id mset_append mset_single_iff single_is_union mset.simps)
qed


lemma heap_pop_heap:
  assumes "is_heap key xs" "xs \<noteq> []"
  shows "is_heap key (pop_heap key xs)"
proof -
  let ?n = "length xs - 1"
  let ?ys = "butlast (swap 0 ?n xs)"
  have len: "length ?ys = ?n" by simp
  have nth: "?ys ! j = xs ! j" if "0 < j" "j < ?n" for j
    using that assms(2) by (simp add: nth_butlast nth_swap)
  have "heap_from key ?n (Suc 0) ?ys"
    unfolding heap_from_def
  proof (intro allI impI)
    fix j assume j: "0 < j" "j < ?n" "Suc 0 \<le> parent j"
    then have "parent j < ?n" "0 < parent j" by auto
    then show "key (?ys ! parent j) \<le> key (?ys ! j)"
      using assms(1) j nth by (simp add: is_heap_def heap_from_def)
  qed
  then have "heap_from key ?n 0 (sift_down key ?n 0 ?ys)" using len by (intro heap_from_sift) simp_all
  then show ?thesis using mset_sift_down [of ?n ?ys key 0] len by (simp add: pop_heap_def is_heap_def Let_def)
qed

lemma mset_pop_heap: "xs \<noteq> [] \<Longrightarrow> mset (pop_heap key xs) = mset xs - {#hd xs#}"
  using mset_sift_down [of "length xs - 1" "butlast (swap 0 (length xs - 1) xs)" key 0] pop_heap_swap [of xs]
  by (simp add: pop_heap_def Let_def)

lemma mset_push_heap: "mset (push_heap key x xs) = add_mset x (mset xs)"
  using mset_sift_up [of "length xs" "xs @ [x]" key] by (simp add: push_heap_def)

text \<open>A vector kept by these algorithms is such a queue, whatever the key.\<close>

theorem min_queue_heap:
  "min_queue (push_heap key) (pop_heap key) (make_heap key) hd mset (is_heap key) key"
proof
  fix q and x :: 'a
  show "key (hd q) \<le> key x" if "is_heap key q" "x \<in># mset q"
  proof -
    from that(2) obtain i where "i < length q" "x = q ! i" by (auto simp: in_set_conv_nth)
    then show ?thesis using heap_root [OF that(1), of i] by (cases q) auto
  qed
qed (auto simp: mset_push_heap heap_push_heap heap_make_heap mset_pop_heap heap_pop_heap)

end
