(* ===== verification/CoreTiming.thy ===== *)
theory CoreTiming
  imports ProcessorInterface Binary_Heap
begin

text \<open>
  The event scheduler, \<^verbatim>\<open>Core/CoreTiming.cpp\<close>. Devices register event types by name and schedule
  events a number of CPU cycles ahead; the CPU runs until its \<^verbatim>\<open>downcount\<close> is used up and then calls
  \<^verbatim>\<open>Advance\<close>, which runs the callbacks of the events that are due and sizes the next slice.

  An event type stands for the name it was registered with; the callbacks are an argument (\<open>cb\<close>), a
  function on the state. Times are integers: \<open>2 ^ 63\<close> cycles are six centuries of emulation. The
  model is the configuration without overclocking, where the two conversions multiply by 1.0.
  \<open>Advance\<close> also answers the events it ran.
\<close>

section \<open>State\<close>

record Event =
  time :: int
  fifo_order :: nat
  userdata :: u64
  ev_type :: string

datatype FromThread = CPU | NON_CPU | ANY

record CT_State = PI_State +
  s_event_types :: "string list"
  s_event_queue :: "Event list"
  s_event_fifo_id :: nat
  s_ts_queue :: "Event list"
  s_idled_cycles :: int
  s_fake_dec_start_value :: u32
  s_fake_dec_start_ticks :: u64
  s_is_global_timer_sane :: bool
  global_timer :: int
  slice_length :: int
  fake_TB_start_value :: u64
  fake_TB_start_ticks :: u64

abbreviation (input) MAX_SLICE_LENGTH :: int where "MAX_SLICE_LENGTH \<equiv> 20000"

text \<open>\<^verbatim>\<open>operator<\<close> compares the times, then the order of scheduling.\<close>

definition ev_key :: "Event \<Rightarrow> int \<times> nat" where
  "ev_key e = (time e, fifo_order e)"

interpretation ev_queue: min_queue "push_heap ev_key" "pop_heap ev_key" "make_heap ev_key" hd mset "is_heap ev_key" ev_key
  by (rule min_queue_heap)

definition DowncountToCycles :: "int \<Rightarrow> int" where
  "DowncountToCycles downcount = downcount"

definition CyclesToDowncount :: "int \<Rightarrow> int" where
  "CyclesToDowncount cycles = cycles"

section \<open>Event types\<close>

definition RegisterEvent :: "string \<Rightarrow> 'a CT_State_scheme \<Rightarrow> string \<times> 'a CT_State_scheme" where
  "RegisterEvent name s =
    (name, if name \<in> set (s_event_types s) then s else s\<lparr>s_event_types := name # s_event_types s\<rparr>)"

definition UnregisterAllEvents :: "'a CT_State_scheme \<Rightarrow> 'a CT_State_scheme" where
  "UnregisterAllEvents s = s\<lparr>s_event_types := []\<rparr>"

definition CT_Init :: "'a CT_State_scheme \<Rightarrow> 'a CT_State_scheme" where
  "CT_Init s =
    snd (RegisterEvent ''_lost_event''
      (s\<lparr>ppc_downcount := CyclesToDowncount MAX_SLICE_LENGTH, slice_length := MAX_SLICE_LENGTH, global_timer := 0,
         s_idled_cycles := 0, s_is_global_timer_sane := True, s_event_fifo_id := 0\<rparr>))"

section \<open>Time\<close>

definition GetTicks :: "'a CT_State_scheme \<Rightarrow> int" where
  "GetTicks s =
    global_timer s +
    (if \<not> s_is_global_timer_sane s then slice_length s - DowncountToCycles (ppc_downcount s) else 0)"

definition GetIdleTicks :: "'a CT_State_scheme \<Rightarrow> u64" where
  "GetIdleTicks s = of_int (s_idled_cycles s)"

definition ForceExceptionCheck :: "int \<Rightarrow> 'a CT_State_scheme \<Rightarrow> 'a CT_State_scheme" where
  "ForceExceptionCheck cycles s =
    (let c = max 0 cycles
     in if c < DowncountToCycles (ppc_downcount s)
        then s\<lparr>slice_length := slice_length s - (DowncountToCycles (ppc_downcount s) - c),
               ppc_downcount := CyclesToDowncount c\<rparr>
        else s)"

definition Idle :: "'a CT_State_scheme \<Rightarrow> 'a CT_State_scheme" where
  "Idle s = s\<lparr>s_idled_cycles := s_idled_cycles s + DowncountToCycles (ppc_downcount s), ppc_downcount := 0\<rparr>"

section \<open>Scheduling\<close>

definition ClearPendingEvents :: "'a CT_State_scheme \<Rightarrow> 'a CT_State_scheme" where
  "ClearPendingEvents s = s\<lparr>s_event_queue := []\<rparr>"

definition enqueue :: "Event \<Rightarrow> 'a CT_State_scheme \<Rightarrow> 'a CT_State_scheme" where
  "enqueue ev s =
    s\<lparr>s_event_queue := push_heap ev_key (ev\<lparr>fifo_order := s_event_fifo_id s\<rparr>) (s_event_queue s),
      s_event_fifo_id := s_event_fifo_id s + 1\<rparr>"

definition ScheduleEvent ::
  "bool \<Rightarrow> int \<Rightarrow> string \<Rightarrow> u64 \<Rightarrow> FromThread \<Rightarrow> 'a CT_State_scheme \<Rightarrow> 'a CT_State_scheme" where
  "ScheduleEvent is_cpu_thread cycles_into_future ty u from s =
    (let from_cpu_thread = (if from = ANY then is_cpu_thread else from = CPU)
     in if from_cpu_thread then
          (let timeout = GetTicks s + cycles_into_future;
               s1 = (if \<not> s_is_global_timer_sane s then ForceExceptionCheck cycles_into_future s else s)
           in enqueue \<lparr>time = timeout, fifo_order = 0, userdata = u, ev_type = ty\<rparr> s1)
        else
          s\<lparr>s_ts_queue := s_ts_queue s @
              [\<lparr>time = global_timer s + cycles_into_future, fifo_order = 0, userdata = u, ev_type = ty\<rparr>]\<rparr>)"

definition RemoveEvent :: "string \<Rightarrow> 'a CT_State_scheme \<Rightarrow> 'a CT_State_scheme" where
  "RemoveEvent ty s =
    (let q = filter (\<lambda>e. ev_type e \<noteq> ty) (s_event_queue s)
     in if length q \<noteq> length (s_event_queue s) then s\<lparr>s_event_queue := make_heap ev_key q\<rparr> else s)"

text \<open>The loop of \<^verbatim>\<open>MoveEvents\<close> pops the queue of the other threads until it is empty.\<close>

definition MoveEvents :: "'a CT_State_scheme \<Rightarrow> 'a CT_State_scheme" where
  "MoveEvents s = (fold enqueue (s_ts_queue s) s)\<lparr>s_ts_queue := []\<rparr>"

definition RemoveAllEvents :: "string \<Rightarrow> 'a CT_State_scheme \<Rightarrow> 'a CT_State_scheme" where
  "RemoveAllEvents ty s = RemoveEvent ty (MoveEvents s)"

definition CT_Shutdown :: "'a CT_State_scheme \<Rightarrow> 'a CT_State_scheme" where
  "CT_Shutdown s = UnregisterAllEvents (ClearPendingEvents (MoveEvents s))"

text \<open>C's division truncates towards zero.\<close>

definition AdjustEventQueueTimes :: "u32 \<Rightarrow> u32 \<Rightarrow> 'a CT_State_scheme \<Rightarrow> 'a CT_State_scheme" where
  "AdjustEventQueueTimes new_ppc_clock old_ppc_clock s =
    s\<lparr>s_event_queue := map (\<lambda>ev.
        let x = (time ev - global_timer s) * uint new_ppc_clock;
            ticks = (if x < 0 then - (- x div uint old_ppc_clock) else x div uint old_ppc_clock)
        in ev\<lparr>time := global_timer s + ticks\<rparr>) (s_event_queue s)\<rparr>"

section \<open>Advancing\<close>

text \<open>The loop over the due events, with a bound on its rounds; \<open>None\<close> when it is not enough.\<close>

fun run_events :: "(string \<Rightarrow> u64 \<Rightarrow> int \<Rightarrow> 'a CT_State_scheme \<Rightarrow> 'a CT_State_scheme) \<Rightarrow> nat \<Rightarrow> 'a CT_State_scheme \<Rightarrow>
    (Event list \<times> 'a CT_State_scheme) option" where
  "run_events cb n s =
    (if s_event_queue s = [] \<or> global_timer s < time (hd (s_event_queue s)) then Some ([], s)
     else case n of
            0 \<Rightarrow> None
          | Suc m \<Rightarrow>
              (let evt = hd (s_event_queue s);
                   s1 = s\<lparr>s_event_queue := pop_heap ev_key (s_event_queue s)\<rparr>
               in map_option (\<lambda>(es, s'). (evt # es, s'))
                    (run_events cb m (cb (ev_type evt) (userdata evt) (global_timer s1 - time evt) s1))))"

declare run_events.simps [simp del]

definition Advance :: "(string \<Rightarrow> u64 \<Rightarrow> int \<Rightarrow> 'a CT_State_scheme \<Rightarrow> 'a CT_State_scheme) \<Rightarrow> nat \<Rightarrow> 'a CT_State_scheme \<Rightarrow>
    (Event list \<times> 'a CT_State_scheme) option" where
  "Advance cb n s =
    (let s1 = MoveEvents s;
         cyclesExecuted = slice_length s1 - DowncountToCycles (ppc_downcount s1);
         s2 = s1\<lparr>global_timer := global_timer s1 + cyclesExecuted, slice_length := MAX_SLICE_LENGTH,
                 s_is_global_timer_sane := True\<rparr>
     in case run_events cb n s2 of
          None \<Rightarrow> None
        | Some (es, s3) \<Rightarrow>
            let s4 = s3\<lparr>s_is_global_timer_sane := False\<rparr>;
                s5 = (if s_event_queue s4 \<noteq> []
                      then s4\<lparr>slice_length := min (time (hd (s_event_queue s4)) - global_timer s4) MAX_SLICE_LENGTH\<rparr>
                      else s4)
            in Some (es, CheckExternalExceptions (s5\<lparr>ppc_downcount := CyclesToDowncount (slice_length s5)\<rparr>)))"

section \<open>The decrementer and the time base\<close>

definition SetFakeDecStartValue :: "u32 \<Rightarrow> 'a CT_State_scheme \<Rightarrow> 'a CT_State_scheme" where
  "SetFakeDecStartValue val s = s\<lparr>s_fake_dec_start_value := val\<rparr>"

definition SetFakeDecStartTicks :: "u64 \<Rightarrow> 'a CT_State_scheme \<Rightarrow> 'a CT_State_scheme" where
  "SetFakeDecStartTicks val s = s\<lparr>s_fake_dec_start_ticks := val\<rparr>"

definition SetFakeTBStartValue :: "u64 \<Rightarrow> 'a CT_State_scheme \<Rightarrow> 'a CT_State_scheme" where
  "SetFakeTBStartValue val s = s\<lparr>fake_TB_start_value := val\<rparr>"

definition SetFakeTBStartTicks :: "u64 \<Rightarrow> 'a CT_State_scheme \<Rightarrow> 'a CT_State_scheme" where
  "SetFakeTBStartTicks val s = s\<lparr>fake_TB_start_ticks := val\<rparr>"

section \<open>The queue\<close>

definition ct_ok :: "'a CT_State_scheme \<Rightarrow> bool" where
  "ct_ok s \<longleftrightarrow> is_heap ev_key (s_event_queue s) \<and> distinct (map fifo_order (s_event_queue s)) \<and>
     (\<forall>e \<in> set (s_event_queue s). fifo_order e < s_event_fifo_id s)"

text \<open>The events, whatever their layout.\<close>

abbreviation events :: "'a CT_State_scheme \<Rightarrow> Event multiset" where
  "events s \<equiv> mset (s_event_queue s)"

lemma distinct_mset_cong: "mset xs = mset ys \<Longrightarrow> distinct (map f xs) \<longleftrightarrow> distinct (map f ys)"
  by (metis distinct_count_atmost_1 mset_map set_mset_mset)

lemma distinct_fifo_filter: "distinct (map f xs) \<Longrightarrow> distinct (map f (filter P xs))"
  by (rule distinct_map_filter)

lemma events_enqueue: "events (enqueue ev s) = add_mset (ev\<lparr>fifo_order := s_event_fifo_id s\<rparr>) (events s)"
  by (simp add: enqueue_def ev_queue.elems_push)

lemma set_events: "set (s_event_queue s) = set_mset (events s)"
  by simp

lemma ct_ok_enqueue:
  assumes "ct_ok s"
  shows "ct_ok (enqueue ev s)"
proof -
  let ?ev = "ev\<lparr>fifo_order := s_event_fifo_id s\<rparr>"
  let ?q = "push_heap ev_key ?ev (s_event_queue s)"
  have m: "mset ?q = mset (?ev # s_event_queue s)" by (simp add: ev_queue.elems_push)
  have "distinct (map fifo_order (?ev # s_event_queue s))" using assms by (auto simp: ct_ok_def)
  then have "distinct (map fifo_order ?q)" using distinct_mset_cong [OF m] by blast
  moreover have "set ?q = insert ?ev (set (s_event_queue s))" using mset_eq_setD [OF m] by simp
  ultimately show ?thesis using assms ev_queue.inv_push [of "s_event_queue s" ?ev]
    by (auto simp: ct_ok_def enqueue_def less_SucI)
qed

lemma ct_ok_cong:
  "s_event_queue s' = s_event_queue s \<Longrightarrow> s_event_fifo_id s' = s_event_fifo_id s \<Longrightarrow> ct_ok s' = ct_ok s"
  by (simp add: ct_ok_def)

lemma Force_fields [simp]:
  "s_event_queue (ForceExceptionCheck c s) = s_event_queue s"
  "s_event_fifo_id (ForceExceptionCheck c s) = s_event_fifo_id s"
  "global_timer (ForceExceptionCheck c s) = global_timer s"
  "s_is_global_timer_sane (ForceExceptionCheck c s) = s_is_global_timer_sane s"
  "s_ts_queue (ForceExceptionCheck c s) = s_ts_queue s"
  by (simp_all add: ForceExceptionCheck_def Let_def)

lemma enqueue_fields [simp]:
  "global_timer (enqueue e s) = global_timer s" "slice_length (enqueue e s) = slice_length s"
  "ppc_downcount (enqueue e s) = ppc_downcount s" "s_is_global_timer_sane (enqueue e s) = s_is_global_timer_sane s"
  "s_ts_queue (enqueue e s) = s_ts_queue s"
  by (simp_all add: enqueue_def)

lemma ct_ok_Schedule: "ct_ok s \<Longrightarrow> ct_ok (ScheduleEvent b c ty u f s)"
  by (auto simp: ScheduleEvent_def Let_def intro!: ct_ok_enqueue cong: ct_ok_cong)

lemma ct_ok_Remove:
  assumes "ct_ok s"
  shows "ct_ok (RemoveEvent ty s)"
proof -
  let ?q = "filter (\<lambda>e. ev_type e \<noteq> ty) (s_event_queue s)"
  have m: "mset (make_heap ev_key ?q) = mset ?q" by (rule ev_queue.elems_make)
  have "distinct (map fifo_order (make_heap ev_key ?q))"
    using distinct_mset_cong [OF m] distinct_fifo_filter assms by (auto simp: ct_ok_def)
  then show ?thesis using assms mset_eq_setD [OF m] ev_queue.inv_make [of ?q]
    by (auto simp: RemoveEvent_def Let_def ct_ok_def)
qed

lemma events_Remove: "events (RemoveEvent ty s) = filter_mset (\<lambda>e. ev_type e \<noteq> ty) (events s)"
proof (cases "length (filter (\<lambda>e. ev_type e \<noteq> ty) (s_event_queue s)) = length (s_event_queue s)")
  case True
  then have "filter (\<lambda>e. ev_type e \<noteq> ty) (s_event_queue s) = s_event_queue s"
    by (metis filter_id_conv length_filter_less less_irrefl)
  then show ?thesis using True by (simp add: RemoveEvent_def) (metis mset_filter)
qed (simp add: RemoveEvent_def ev_queue.elems_make)

lemma fold_enqueue:
  "ct_ok s \<Longrightarrow> ct_ok (fold enqueue es s)"
  "global_timer (fold enqueue es s) = global_timer s" "slice_length (fold enqueue es s) = slice_length s"
  "ppc_downcount (fold enqueue es s) = ppc_downcount s"
  "s_is_global_timer_sane (fold enqueue es s) = s_is_global_timer_sane s"
  by (induction es arbitrary: s) (simp_all add: ct_ok_enqueue)

lemma ct_ok_Move: "ct_ok s \<Longrightarrow> ct_ok (MoveEvents s)"
  using fold_enqueue(1) [of s "s_ts_queue s"] by (simp add: MoveEvents_def ct_ok_def)

lemma Move_fields [simp]:
  "global_timer (MoveEvents s) = global_timer s" "slice_length (MoveEvents s) = slice_length s"
  "ppc_downcount (MoveEvents s) = ppc_downcount s"
  "s_is_global_timer_sane (MoveEvents s) = s_is_global_timer_sane s" "s_ts_queue (MoveEvents s) = []"
  by (simp_all add: MoveEvents_def fold_enqueue)

lemma Move_none: "s_ts_queue s = [] \<Longrightarrow> MoveEvents s = s"
  by (simp add: MoveEvents_def)

section \<open>The loop\<close>

definition cb_ok :: "(string \<Rightarrow> u64 \<Rightarrow> int \<Rightarrow> 'a CT_State_scheme \<Rightarrow> 'a CT_State_scheme) \<Rightarrow> bool" where
  "cb_ok cb \<longleftrightarrow> (\<forall>ty u l s. ct_ok s \<longrightarrow> ct_ok (cb ty u l s))"

lemma cb_okD: "cb_ok cb \<Longrightarrow> ct_ok s \<Longrightarrow> ct_ok (cb ty u l s)"
  by (simp add: cb_ok_def)

lemma ct_ok_pop:
  assumes "ct_ok s" "s_event_queue s \<noteq> []"
  shows "ct_ok (s\<lparr>s_event_queue := pop_heap ev_key (s_event_queue s)\<rparr>)"
proof -
  let ?q = "s_event_queue s"
  have m: "mset (pop_heap ev_key ?q) = mset (tl ?q)"
    using ev_queue.elems_pop [of ?q] assms(2) by (cases ?q) simp_all
  have "distinct (map fifo_order (tl ?q))" using assms by (cases ?q) (auto simp: ct_ok_def)
  then have "distinct (map fifo_order (pop_heap ev_key ?q))" using distinct_mset_cong [OF m] by blast
  moreover have "set (pop_heap ev_key ?q) \<subseteq> set ?q" using mset_eq_setD [OF m] assms(2) by (auto intro: list.set_sel(2))
  ultimately show ?thesis using assms ev_queue.inv_pop [of ?q] by (auto simp: ct_ok_def)
qed

definition due :: "'a CT_State_scheme \<Rightarrow> bool" where
  "due s \<longleftrightarrow> s_event_queue s \<noteq> [] \<and> time (hd (s_event_queue s)) \<le> global_timer s"

definition popped :: "'a CT_State_scheme \<Rightarrow> 'a CT_State_scheme" where
  "popped s = s\<lparr>s_event_queue := pop_heap ev_key (s_event_queue s)\<rparr>"

definition fire :: "(string \<Rightarrow> u64 \<Rightarrow> int \<Rightarrow> 'a CT_State_scheme \<Rightarrow> 'a CT_State_scheme) \<Rightarrow> 'a CT_State_scheme \<Rightarrow> 'a CT_State_scheme" where
  "fire cb s = (let evt = hd (s_event_queue s) in cb (ev_type evt) (userdata evt) (global_timer s - time evt) (popped s))"

lemma run_events_stop: "\<not> due s \<Longrightarrow> run_events cb n s = Some ([], s)"
  by (subst run_events.simps) (auto simp: due_def)

lemma run_events_0: "due s \<Longrightarrow> run_events cb 0 s = None"
  by (subst run_events.simps) (auto simp: due_def)

lemma run_events_Suc:
  "due s \<Longrightarrow> run_events cb (Suc n) s = map_option (\<lambda>(es, s'). (hd (s_event_queue s) # es, s')) (run_events cb n (fire cb s))"
  by (subst run_events.simps) (auto simp: due_def fire_def popped_def Let_def)

lemma ct_ok_fire: "cb_ok cb \<Longrightarrow> ct_ok s \<Longrightarrow> due s \<Longrightarrow> ct_ok (fire cb s)"
  using ct_ok_pop [of s] by (simp add: fire_def popped_def due_def cb_okD Let_def)

text \<open>The first event is a least one.\<close>

lemma head_least:
  assumes "ct_ok s" "e \<in> set (s_event_queue s)"
  shows "ev_key (hd (s_event_queue s)) \<le> ev_key e" "time (hd (s_event_queue s)) \<le> time e"
proof -
  show "ev_key (hd (s_event_queue s)) \<le> ev_key e"
    using ev_queue.front_least [of "s_event_queue s" e] assms by (simp add: ct_ok_def)
  then show "time (hd (s_event_queue s)) \<le> time e" by (auto simp: ev_key_def less_eq_prod_def)
qed

lemma not_due: "ct_ok s \<Longrightarrow> \<not> due s \<Longrightarrow> e \<in> set (s_event_queue s) \<Longrightarrow> global_timer s < time e"
  using head_least(2) [of s e] by (auto simp: due_def)

text \<open>Whatever the callbacks do, no due event is left behind.\<close>

lemma run_events_clears:
  assumes "cb_ok cb" "ct_ok s" "run_events cb n s = Some (es, s')"
  shows "ct_ok s' \<and> (\<forall>e \<in> set (s_event_queue s'). global_timer s' < time e)"
  using assms(2,3)
proof (induction n arbitrary: s es)
  case 0
  then show ?case by (cases "due s") (auto simp: run_events_0 run_events_stop not_due)
next
  case (Suc n)
  then show ?case using ct_ok_fire [OF assms(1) Suc.prems(1)]
    by (cases "due s") (auto simp: run_events_Suc run_events_stop not_due)
qed

section \<open>Events run in order\<close>

text \<open>
  Callbacks that, called from the loop of \<^verbatim>\<open>Advance\<close>, leave the timer alone and schedule only for later.
\<close>

definition cb_later :: "(string \<Rightarrow> u64 \<Rightarrow> int \<Rightarrow> 'a CT_State_scheme \<Rightarrow> 'a CT_State_scheme) \<Rightarrow> bool" where
  "cb_later cb \<longleftrightarrow> (\<forall>ty u l s. s_is_global_timer_sane s \<longrightarrow>
     s_is_global_timer_sane (cb ty u l s) \<and> global_timer (cb ty u l s) = global_timer s \<and>
     (\<exists>new. events (cb ty u l s) = events s + new \<and> (\<forall>e \<in># new. global_timer s < time e)))"

abbreviation due_events :: "int \<Rightarrow> Event multiset \<Rightarrow> Event multiset" where
  "due_events t es \<equiv> filter_mset (\<lambda>e. time e \<le> t) es"

lemma due_head: "due s \<Longrightarrow> hd (s_event_queue s) \<in># due_events (global_timer s) (events s)"
  by (simp add: due_def)

lemma fire_later:
  assumes "cb_later cb" "due s" "s_is_global_timer_sane s"
  shows "global_timer (fire cb s) = global_timer s" and "s_is_global_timer_sane (fire cb s)"
    and "due_events (global_timer s) (events (fire cb s)) =
      due_events (global_timer s) (events s) - {#hd (s_event_queue s)#}"
proof -
  let ?h = "hd (s_event_queue s)"
  have p: "events (popped s) = events s - {#?h#}" "global_timer (popped s) = global_timer s"
    using ev_queue.elems_pop [of "s_event_queue s"] assms(2) by (simp_all add: popped_def due_def)
  have sane: "s_is_global_timer_sane (popped s)" using assms(3) by (simp add: popped_def)
  obtain new where new: "events (fire cb s) = events (popped s) + new" "\<forall>e \<in># new. global_timer s < time e"
    and t: "global_timer (fire cb s) = global_timer (popped s)" "s_is_global_timer_sane (fire cb s)"
    using assms(1) p(2) sane unfolding cb_later_def fire_def Let_def by metis
  show "s_is_global_timer_sane (fire cb s)" by (rule t(2))
  show "global_timer (fire cb s) = global_timer s" using t p(2) by simp
  have "due_events (global_timer s) new = {#}" using new(2) by (auto simp: filter_mset_eq_mempty_iff)
  then show "due_events (global_timer s) (events (fire cb s)) =
      due_events (global_timer s) (events s) - {#hd (s_event_queue s)#}"
    using new(1) p(1) due_head [OF assms(2)] by (simp add: filter_diff_mset del: filter_mset_eq_mempty_iff)
qed

lemma run_events_order:
  assumes "cb_ok cb" "cb_later cb" "ct_ok s" "size (due_events (global_timer s) (events s)) \<le> n"
    and "s_is_global_timer_sane s"
  shows "\<exists>es s'. run_events cb n s = Some (es, s') \<and> mset es = due_events (global_timer s) (events s) \<and>
    sorted (map ev_key es) \<and> global_timer s' = global_timer s"
  using assms(3-5)
proof (induction n arbitrary: s)
  case 0
  then have "\<not> due s" using due_head [of s] by auto
  then show ?case using 0 by (simp add: run_events_stop)
next
  case (Suc n)
  show ?case
  proof (cases "due s")
    case False
    then have "due_events (global_timer s) (events s) = {#}"
      using not_due [OF Suc.prems(1) False] by (force simp: filter_mset_eq_mempty_iff)
    then show ?thesis using False by (simp add: run_events_stop)
  next
    case True
    let ?h = "hd (s_event_queue s)"
    note f = fire_later [OF assms(2) True Suc.prems(3)] and h = due_head [OF True]
    have "size (due_events (global_timer (fire cb s)) (events (fire cb s))) \<le> n"
      using Suc.prems(2) f h by (simp add: size_Diff_singleton)
    from Suc.IH [OF ct_ok_fire [OF assms(1) Suc.prems(1) True] this f(2)] obtain es s' where
      es: "run_events cb n (fire cb s) = Some (es, s')" "sorted (map ev_key es)" "global_timer s' = global_timer s"
        "mset es = due_events (global_timer s) (events s) - {#?h#}" using f by auto
    have "set es \<subseteq> set (s_event_queue s)"
      using es(4) by (metis (no_types, lifting) in_diffD mem_Collect_eq set_mset_filter set_mset_mset subsetI)
    then have "\<forall>e \<in> set es. ev_key ?h \<le> ev_key e" using head_least(1) [OF Suc.prems(1)] by blast
    then show ?thesis using es h True by (simp add: run_events_Suc)
  qed
qed

text \<open>
  The calls of the loop at time \<open>t\<close>, one for each event of a list: the event leaves the queue, and its callback gets the data
  of the event and how late it is.
\<close>

inductive calls ::
  "(string \<Rightarrow> u64 \<Rightarrow> int \<Rightarrow> 'a CT_State_scheme \<Rightarrow> 'a CT_State_scheme) \<Rightarrow> int \<Rightarrow> Event list \<Rightarrow> 'a CT_State_scheme \<Rightarrow> 'a CT_State_scheme \<Rightarrow> bool"
  for cb t where
  calls_none: "calls cb t [] s s"
| calls_event: "e \<in> set (s_event_queue s) \<Longrightarrow> mset q = mset (s_event_queue s) - {#e#} \<Longrightarrow>
    calls cb t es (cb (ev_type e) (userdata e) (t - time e) (s\<lparr>s_event_queue := q\<rparr>)) s' \<Longrightarrow> calls cb t (e # es) s s'"

lemma run_events_calls:
  assumes "cb_later cb"
  shows "run_events cb n s = Some (es, s') \<Longrightarrow> s_is_global_timer_sane s \<Longrightarrow> calls cb (global_timer s) es s s'"
proof (induction n arbitrary: s es)
  case 0
  then show ?case by (cases "due s") (auto simp: run_events_0 run_events_stop intro: calls_none)
next
  case (Suc n)
  show ?case
  proof (cases "due s")
    case False
    then show ?thesis using Suc.prems by (auto simp: run_events_stop intro: calls_none)
  next
    case True
    let ?h = "hd (s_event_queue s)"
    obtain fs where fs: "run_events cb n (fire cb s) = Some (fs, s')" "es = ?h # fs"
      using Suc.prems(1) True by (auto simp: run_events_Suc)
    note f = fire_later [OF assms True Suc.prems(2)]
    have q: "s_event_queue s \<noteq> []" using True by (simp add: due_def)
    have "calls cb (global_timer s) fs (fire cb s) s'" using Suc.IH [OF fs(1) f(2)] f(1) by simp
    then show ?thesis unfolding fs(2)
      using q ev_queue.elems_pop [of "s_event_queue s"] by (intro calls_event) (auto simp: fire_def popped_def Let_def)
  qed
qed

section \<open>Properties\<close>

lemma CheckExternal_CT [simp]:
  fixes s :: "'a CT_State_scheme"
  shows "s_event_queue (CheckExternalExceptions s) = s_event_queue s" "global_timer (CheckExternalExceptions s) = global_timer s"
  "slice_length (CheckExternalExceptions s) = slice_length s" "ppc_downcount (CheckExternalExceptions s) = ppc_downcount s"
  "s_is_global_timer_sane (CheckExternalExceptions s) = s_is_global_timer_sane s"
  "s_event_fifo_id (CheckExternalExceptions s) = s_event_fifo_id s"
  by (simp_all add: CheckExternalExceptions_def enter_exception_def Let_def)

text \<open>The state in which the loop starts.\<close>

definition advance_start :: "'a CT_State_scheme \<Rightarrow> 'a CT_State_scheme" where
  "advance_start s = (MoveEvents s)\<lparr>global_timer := global_timer s + (slice_length s - ppc_downcount s),
     slice_length := MAX_SLICE_LENGTH, s_is_global_timer_sane := True\<rparr>"

text \<open>What remains to be done after it.\<close>

definition advance_finish :: "'a CT_State_scheme \<Rightarrow> 'a CT_State_scheme" where
  "advance_finish s =
    (let l = (if s_event_queue s = [] then slice_length s
              else min (time (hd (s_event_queue s)) - global_timer s) MAX_SLICE_LENGTH)
     in CheckExternalExceptions (s\<lparr>s_is_global_timer_sane := False, slice_length := l, ppc_downcount := l\<rparr>))"

lemma Advance_eq:
  "Advance cb n s = map_option (\<lambda>(es, s'). (es, advance_finish s')) (run_events cb n (advance_start s))"
  by (auto simp: Advance_def advance_start_def advance_finish_def Let_def DowncountToCycles_def CyclesToDowncount_def
      split: option.splits)

lemma ct_ok_start: "ct_ok s \<Longrightarrow> ct_ok (advance_start s)"
  using ct_ok_Move [of s] by (simp add: advance_start_def ct_ok_def)

lemma finish_fields [simp]:
  "s_event_queue (advance_finish s) = s_event_queue s" "global_timer (advance_finish s) = global_timer s"
  "s_event_fifo_id (advance_finish s) = s_event_fifo_id s" "\<not> s_is_global_timer_sane (advance_finish s)"
  "ppc_downcount (advance_finish s) = slice_length (advance_finish s)"
  by (simp_all add: advance_finish_def Let_def)

lemma finish_slice:
  "slice_length (advance_finish s) = (if s_event_queue s = [] then slice_length s
     else min (time (hd (s_event_queue s)) - global_timer s) MAX_SLICE_LENGTH)"
  by (simp add: advance_finish_def Let_def)

lemma ct_ok_Advance:
  assumes "cb_ok cb" "ct_ok s" "Advance cb n s = Some (es, s')"
  shows "ct_ok s' \<and> (\<forall>e \<in> set (s_event_queue s'). global_timer s' + slice_length s' \<le> time e \<and> global_timer s' < time e)"
proof -
  obtain t where t: "run_events cb n (advance_start s) = Some (es, t)" "s' = advance_finish t"
    using assms(3) by (auto simp: Advance_eq)
  note * = run_events_clears [OF assms(1) ct_ok_start [OF assms(2)] t(1)]
  have "global_timer t + slice_length s' \<le> time e" if "e \<in> set (s_event_queue t)" for e
    using head_least(2) [of t e] * that t(2) by (auto simp: finish_slice)
  then show ?thesis using * t(2) by (auto simp: ct_ok_def)
qed

text \<open>
  C9. Advance runs exactly the events that are due, in order of time and, for equal times, of
  scheduling: for callbacks that schedule for later times only, it returns
  as soon as the bound on its rounds covers the due events. Events of other threads are
  merged in first and the clock moves by the cycles executed; then the callback of each due event is called once, with the
  event's data and its lateness, on a state in which just that event has left the queue, and the
  state goes from one call to the next; nothing else happens before the slice is finished. Afterwards no event is
  due, and the next slice ends at the next event or after 20000 cycles.
\<close>

theorem advance_runs_due_in_order:
  assumes "cb_ok cb" "cb_later cb" "ct_ok s" "t = global_timer s + slice_length s - ppc_downcount s"
    and "size (filter_mset (\<lambda>e. time e \<le> t) (mset (s_event_queue (MoveEvents s)))) \<le> n"
  shows "\<exists>es s'. Advance cb n s = Some (es, s') \<and>
    mset es = filter_mset (\<lambda>e. time e \<le> t) (mset (s_event_queue (MoveEvents s))) \<and>
    sorted (map (\<lambda>e. (time e, fifo_order e)) es) \<and>
    (\<exists>u. calls cb t es ((MoveEvents s)\<lparr>global_timer := t, slice_length := MAX_SLICE_LENGTH, s_is_global_timer_sane := True\<rparr>) u \<and>
       s' = advance_finish u) \<and>
    global_timer s' = t \<and> GetTicks s' = t \<and>
    (\<forall>e \<in> set (s_event_queue s'). t < time e) \<and>
    (s_event_queue s' \<noteq> [] \<longrightarrow>
       slice_length s' = min (Min (time ` set (s_event_queue s')) - t) MAX_SLICE_LENGTH)"
proof -
  have st: "s_event_queue (advance_start s) = s_event_queue (MoveEvents s)" "global_timer (advance_start s) = t"
    by (simp_all add: advance_start_def assms(4))
  have key: "ev_key = (\<lambda>e. (time e, fifo_order e))" by (simp add: fun_eq_iff ev_key_def)
  obtain es u where run: "run_events cb n (advance_start s) = Some (es, u)"
    and es: "mset es = filter_mset (\<lambda>e. time e \<le> t) (mset (s_event_queue (MoveEvents s)))" "sorted (map ev_key es)"
      "global_timer u = t"
    using run_events_order [OF assms(1,2) ct_ok_start [OF assms(3)], of n] assms(5) unfolding st by (auto simp: advance_start_def)
  note cl = run_events_clears [OF assms(1) ct_ok_start [OF assms(3)] run]
  have start: "advance_start s = (MoveEvents s)\<lparr>global_timer := t, slice_length := MAX_SLICE_LENGTH, s_is_global_timer_sane := True\<rparr>"
    by (simp add: advance_start_def assms(4) add_diff_eq)
  have "calls cb t es (advance_start s) u" using run_events_calls [OF assms(2) run] unfolding st by (simp add: advance_start_def)
  moreover have "Min (time ` set (s_event_queue u)) = time (hd (s_event_queue u))" if "s_event_queue u \<noteq> []"
    by (rule Min_eqI) (use that head_least(2) [of u] cl in auto)
  ultimately show ?thesis using run es cl unfolding start
    by (auto simp: Advance_eq start finish_slice GetTicks_def DowncountToCycles_def key)
qed

section \<open>Reachable states\<close>

text \<open>
  Everything that can happen to the scheduler between two instructions, in any order: scheduling from the CPU
  thread, for later or into the past, scheduling from other threads, removing events, executing cycles (possibly past
  the end of the slice), idling, and advancing. Two things are remembered of the current slice: whether an event was scheduled into the
  past, and the set \<open>late\<close> of those events and of the ones that \<^verbatim>\<open>RemoveAllEvents\<close> merged in from other threads; without it
  the latter would wait for the next \<^verbatim>\<open>Advance\<close> outside the queue.
\<close>

inductive timing_state ::
  "(string \<Rightarrow> u64 \<Rightarrow> int \<Rightarrow> 'a CT_State_scheme \<Rightarrow> 'a CT_State_scheme) \<Rightarrow> bool \<Rightarrow> Event set \<Rightarrow> 'a CT_State_scheme \<Rightarrow> bool"
  for cb where
  timing_init: "s_event_queue s = [] \<Longrightarrow> timing_state cb False {} (CT_Init s)"
| timing_register: "timing_state cb past late s \<Longrightarrow> timing_state cb past late (snd (RegisterEvent ty s))"
| timing_schedule: "timing_state cb past late s \<Longrightarrow> 0 \<le> c \<Longrightarrow> timing_state cb past late (ScheduleEvent True c ty u CPU s)"
| timing_schedule_past: "timing_state cb past late s \<Longrightarrow> c < 0 \<Longrightarrow> t = ScheduleEvent True c ty u CPU s \<Longrightarrow>
    timing_state cb True (late \<union> (set (s_event_queue t) - set (s_event_queue s))) t"
| timing_schedule_thread: "timing_state cb past late s \<Longrightarrow> timing_state cb past late (ScheduleEvent False c ty u NON_CPU s)"
| timing_remove: "timing_state cb past late s \<Longrightarrow> timing_state cb past late (RemoveEvent ty s)"
| timing_remove_all: "timing_state cb past late s \<Longrightarrow> t = RemoveAllEvents ty s \<Longrightarrow>
    timing_state cb past (late \<union> (set (s_event_queue t) - set (s_event_queue s))) t"
| timing_force: "timing_state cb past late s \<Longrightarrow> timing_state cb past late (ForceExceptionCheck c s)"
| timing_execute: "timing_state cb past late s \<Longrightarrow> \<not> s_is_global_timer_sane s \<Longrightarrow> 0 \<le> k \<Longrightarrow>
    timing_state cb past late (s\<lparr>ppc_downcount := ppc_downcount s - k\<rparr>)"
| timing_idle: "timing_state cb past late s \<Longrightarrow> \<not> s_is_global_timer_sane s \<Longrightarrow> timing_state cb past late (Idle s)"
| timing_advance: "timing_state cb past late s \<Longrightarrow> Advance cb n s = Some (es, s') \<Longrightarrow> timing_state cb False {} s'"

text \<open>The slice ends no later than any event but the late ones, and is over when one is in the past.\<close>

definition on_time :: "bool \<Rightarrow> Event set \<Rightarrow> 'a CT_State_scheme \<Rightarrow> bool" where
  "on_time past late s \<longleftrightarrow> (\<not> s_is_global_timer_sane s \<longrightarrow>
     (\<forall>e \<in> set (s_event_queue s). e \<in> late \<or> global_timer s + slice_length s \<le> time e) \<and> (past \<longrightarrow> ppc_downcount s \<le> 0))"

lemma on_time_Force: "on_time past late s \<Longrightarrow> on_time past late (ForceExceptionCheck c s)"
  by (force simp: on_time_def ForceExceptionCheck_def Let_def DowncountToCycles_def CyclesToDowncount_def)

lemma set_enqueue:
  "set (s_event_queue (enqueue e s)) = insert (e\<lparr>fifo_order := s_event_fifo_id s\<rparr>) (set (s_event_queue s))"
  using arg_cong [OF events_enqueue [of e s], of set_mset] by simp

lemma Force_slice_end:
  "0 \<le> c \<Longrightarrow> global_timer s + slice_length (ForceExceptionCheck c s) \<le> global_timer s + slice_length s - ppc_downcount s + c"
  by (auto simp: ForceExceptionCheck_def Let_def DowncountToCycles_def)

lemma on_time_Schedule:
  assumes "on_time past late s" "0 \<le> c"
  shows "on_time past late (ScheduleEvent True c ty u CPU s)"
  using on_time_Force [OF assms(1), of c] Force_slice_end [OF assms(2), of s]
  by (auto simp: on_time_def ScheduleEvent_def Let_def set_enqueue GetTicks_def DowncountToCycles_def)

lemma Force_down: "c < 0 \<Longrightarrow> ppc_downcount (ForceExceptionCheck c s) \<le> 0"
  by (auto simp: ForceExceptionCheck_def Let_def DowncountToCycles_def CyclesToDowncount_def)

lemma on_time_Schedule_past:
  assumes "on_time past late s" "c < 0" "t = ScheduleEvent True c ty u CPU s"
  shows "on_time True (late \<union> (set (s_event_queue t) - set (s_event_queue s))) t"
  using on_time_Force [OF assms(1), of c] Force_down [OF assms(2), of s]
  by (auto simp: on_time_def assms(3) ScheduleEvent_def Let_def set_enqueue)

lemma Remove_fields [simp]:
  "global_timer (RemoveEvent ty s) = global_timer s" "slice_length (RemoveEvent ty s) = slice_length s"
  "s_is_global_timer_sane (RemoveEvent ty s) = s_is_global_timer_sane s" "ppc_downcount (RemoveEvent ty s) = ppc_downcount s"
  by (simp_all add: RemoveEvent_def Let_def)

lemma set_Remove: "set (s_event_queue (RemoveEvent ty s)) = {e \<in> set (s_event_queue s). ev_type e \<noteq> ty}"
  using arg_cong [OF events_Remove [of ty s], of set_mset] by auto

lemma timing_ok:
  assumes "timing_state cb past late s" "cb_ok cb"
  shows "ct_ok s \<and> on_time past late s"
  using assms(1)
proof induction
  case (timing_init s)
  then show ?case by (simp add: CT_Init_def RegisterEvent_def ct_ok_def on_time_def is_heap_def heap_from_def)
next
  case (timing_register past late s ty)
  then show ?case by (simp add: RegisterEvent_def ct_ok_def on_time_def)
next
  case (timing_schedule past late s c ty u)
  then show ?case by (simp add: ct_ok_Schedule on_time_Schedule)
next
  case (timing_schedule_past past late s c t ty u)
  then show ?case using on_time_Schedule_past by (simp add: ct_ok_Schedule) blast
next
  case (timing_schedule_thread past late s c ty u)
  then show ?case by (simp add: ct_ok_Schedule) (simp add: ScheduleEvent_def on_time_def)
next
  case (timing_remove past late s ty)
  then show ?case by (auto simp: ct_ok_Remove on_time_def set_Remove)
next
  case (timing_remove_all past late s t ty)
  then show ?case by (auto simp: RemoveAllEvents_def ct_ok_Remove ct_ok_Move on_time_def)
next
  case (timing_force past late s c)
  then show ?case by (simp add: on_time_Force) (simp add: ct_ok_def)
next
  case (timing_execute past late s k)
  then show ?case by (auto simp: ct_ok_def on_time_def)
next
  case (timing_idle past late s)
  then show ?case by (simp add: Idle_def ct_ok_def on_time_def)
next
  case (timing_advance past late s n es s')
  then show ?case using ct_ok_Advance [OF assms(2)] by (auto simp: on_time_def)
qed

text \<open>
  C10. No event is missed. In every reachable state between two slices, whatever order scheduling (into the past too), removing,
  executing, idling and advancing happened in, each event the CPU has scheduled for now or later lies at or after the end of the current slice: while
  the downcount is positive none of them is due, and when the CPU overshoots the slice, the next Advance runs
  none of them later than by the overshoot. Once an event was scheduled into the past the slice is over, so that the next Advance
  follows at once. Only events that came from other threads and were merged in by \<^verbatim>\<open>RemoveAllEvents\<close> may lie inside the slice. The queue stays a heap, and no two of its events share a
  place in the order.
\<close>

theorem no_event_missed:
  assumes "timing_state cb past late s" "cb_ok cb"
  shows "is_heap ev_key (s_event_queue s) \<and> distinct (map ev_key (s_event_queue s)) \<and>
    (\<not> s_is_global_timer_sane s \<longrightarrow> (past \<longrightarrow> ppc_downcount s \<le> 0) \<and> (\<forall>e \<in> set (s_event_queue s) - late.
       GetTicks s + ppc_downcount s \<le> time e \<and> GetTicks s - time e \<le> - ppc_downcount s))"
proof -
  have ok: "ct_ok s" "on_time past late s" using timing_ok [OF assms] by simp_all
  have "distinct (map ev_key (s_event_queue s))"
    using ok(1) distinct_map [of snd "map ev_key (s_event_queue s)"] by (simp add: ct_ok_def comp_def ev_key_def)
  then show ?thesis using ok
    by (force simp: ct_ok_def on_time_def GetTicks_def DowncountToCycles_def)
qed

lemma run_events_timer:
  "cb_later cb \<Longrightarrow> run_events cb n s = Some (es, s') \<Longrightarrow> s_is_global_timer_sane s \<Longrightarrow> global_timer s' = global_timer s"
proof (induction n arbitrary: s es)
  case 0
  then show ?case by (cases "due s") (auto simp: run_events_0 run_events_stop)
next
  case (Suc n)
  then show ?case using fire_later(1,2) [OF Suc.prems(1), of s]
    by (cases "due s") (auto simp: run_events_Suc run_events_stop)
qed

text \<open>
  Time. Asking for an early exception check, scheduling and removing events do not change the number of
  ticks; executing cycles moves it on by exactly that many; idling moves it to the end of the slice and
  counts the cycles skipped as idle; Advance does not change it.
\<close>

theorem ticks_conserved:
  assumes "\<not> s_is_global_timer_sane s"
  shows "GetTicks (ForceExceptionCheck c s) = GetTicks s \<and>
    GetTicks (ScheduleEvent b c ty u f s) = GetTicks s \<and> GetTicks (RemoveAllEvents ty s) = GetTicks s \<and>
    GetTicks (s\<lparr>ppc_downcount := ppc_downcount s - k\<rparr>) = GetTicks s + k \<and>
    GetTicks (Idle s) = GetTicks s + ppc_downcount s \<and>
    s_idled_cycles (Idle s) - s_idled_cycles s = GetTicks (Idle s) - GetTicks s \<and>
    (cb_later cb \<longrightarrow> Advance cb n s = Some (es, s') \<longrightarrow> GetTicks s' = GetTicks s)"
proof -
  have force: "GetTicks (ForceExceptionCheck c s) = GetTicks s"
    by (simp add: GetTicks_def ForceExceptionCheck_def Let_def DowncountToCycles_def CyclesToDowncount_def)
  have enq: "GetTicks (enqueue e x) = GetTicks x" for e and x :: "'a CT_State_scheme" by (simp add: GetTicks_def)
  have "GetTicks (ScheduleEvent b c ty u f s) = GetTicks s"
    using force enq by (simp add: ScheduleEvent_def Let_def) (simp add: GetTicks_def)
  moreover have "GetTicks s' = GetTicks s" if later: "cb_later cb" and adv: "Advance cb n s = Some (es, s')"
  proof -
    obtain t where t: "run_events cb n (advance_start s) = Some (es, t)" "s' = advance_finish t"
      using adv by (auto simp: Advance_eq)
    have "global_timer t = global_timer (advance_start s)" using run_events_timer [OF later t(1)] by (simp add: advance_start_def)
    then show ?thesis using t(2) assms by (simp add: GetTicks_def advance_start_def DowncountToCycles_def)
  qed
  ultimately show ?thesis using assms force
    by (simp add: GetTicks_def RemoveAllEvents_def Idle_def DowncountToCycles_def)
qed


section \<open>Examples\<close>

text \<open>A scheduler that was never used, and a device that schedules its next event a thousand cycles ahead.\<close>

definition blank_ct :: CT_State where
  "blank_ct = PI_State.extend blank_pi (CT_State.fields [] [] 0 [] 0 0 0 True 0 0 0 0)"

definition periodic :: "string \<Rightarrow> u64 \<Rightarrow> int \<Rightarrow> CT_State \<Rightarrow> CT_State" where
  "periodic ty u l s = ScheduleEvent True 1000 ty u CPU s"

lemma periodic_ok: "cb_ok periodic" "cb_later periodic"
proof -
  show "cb_ok periodic" by (simp add: cb_ok_def periodic_def ct_ok_Schedule)
  show "cb_later periodic"
    by (auto simp: cb_later_def periodic_def ScheduleEvent_def GetTicks_def events_enqueue)
qed

text \<open>Three events are scheduled before the first slice; then 600 cycles of it are executed.\<close>

definition busy_ct :: CT_State where
  "busy_ct = ScheduleEvent True 500 ''B'' 2 CPU (ScheduleEvent True 500 ''A'' 1 CPU
     (ScheduleEvent True 900 ''A'' 3 CPU (CT_Init blank_ct)))"

lemma busy_ct_fields:
  "s_event_queue busy_ct = [\<lparr>time = 500, fifo_order = 1, userdata = 1, ev_type = ''A''\<rparr>,
     \<lparr>time = 900, fifo_order = 0, userdata = 3, ev_type = ''A''\<rparr>, \<lparr>time = 500, fifo_order = 2, userdata = 2, ev_type = ''B''\<rparr>]"
  "s_ts_queue busy_ct = []" "global_timer busy_ct = 0" "slice_length busy_ct = 20000" "ppc_downcount busy_ct = 20000"
  by code_simp+

lemma busy_state: "timing_state periodic False {} busy_ct"
  unfolding busy_ct_def by (intro timing_schedule timing_init) (simp_all add: blank_ct_def PI_State.extend_def CT_State.fields_def)

theorem advance_runs_due_in_order_witness:
  "\<exists>es s' u. Advance periodic 2 (busy_ct\<lparr>ppc_downcount := 19400\<rparr>) = Some (es, s') \<and>
     mset (map userdata es) = {#1, 2#} \<and> sorted (map (\<lambda>e. (time e, fifo_order e)) es) \<and>
     calls periodic 600 es (busy_ct\<lparr>ppc_downcount := 19400, global_timer := 600, slice_length := MAX_SLICE_LENGTH, s_is_global_timer_sane := True\<rparr>) u \<and>
     GetTicks s' = 600"
proof -
  let ?s = "busy_ct\<lparr>ppc_downcount := 19400\<rparr>"
  have ok: "ct_ok ?s" using timing_ok [OF busy_state periodic_ok(1)] by (simp add: ct_ok_def)
  have m: "MoveEvents ?s = ?s" by (simp add: Move_none busy_ct_fields)
  have t: "600 = global_timer ?s + slice_length ?s - ppc_downcount ?s" by (simp add: busy_ct_fields)
  show ?thesis
    using advance_runs_due_in_order [OF periodic_ok ok t, of 2] unfolding m mset_map by (auto simp: busy_ct_fields)
qed

text \<open>After the first slice was started, an event is scheduled into the past.\<close>

theorem no_event_missed_witness:
  "\<exists>s'. Advance periodic 0 busy_ct = Some ([], s') \<and> s_event_queue s' \<noteq> [] \<and>
     (\<forall>e \<in> set (s_event_queue s'). GetTicks s' + ppc_downcount s' \<le> time e) \<and>
     ppc_downcount (ScheduleEvent True (- 1000) ''C'' 4 CPU s') \<le> 0"
proof -
  have "\<not> due (advance_start busy_ct)" by (simp add: due_def advance_start_def Move_none busy_ct_fields)
  then have a: "Advance periodic 0 busy_ct = Some ([], advance_finish (advance_start busy_ct))"
    by (simp add: Advance_eq run_events_stop)
  define s' where "s' = advance_finish (advance_start busy_ct)"
  have q: "s_event_queue s' \<noteq> []" "\<not> s_is_global_timer_sane s'" by (simp_all add: s'_def advance_start_def Move_none busy_ct_fields)
  have r: "timing_state periodic False {} s'" unfolding s'_def by (rule timing_advance [OF busy_state a])
  have "\<not> s_is_global_timer_sane (ScheduleEvent True (- 1000) ''C'' 4 CPU s')" using q(2) by (simp add: ScheduleEvent_def)
  then have "ppc_downcount (ScheduleEvent True (- 1000) ''C'' 4 CPU s') \<le> 0"
    using no_event_missed [OF timing_schedule_past [OF r _ refl, of "- 1000" "''C''" 4] periodic_ok(1)] by simp
  then show ?thesis using a q no_event_missed [OF r periodic_ok(1)] unfolding s'_def [symmetric] by auto
qed

theorem ticks_conserved_witness:
  "GetTicks (ForceExceptionCheck 10 (busy_ct\<lparr>s_is_global_timer_sane := False, ppc_downcount := 19400\<rparr>)) = 600"
  using ticks_conserved [of "busy_ct\<lparr>s_is_global_timer_sane := False, ppc_downcount := 19400\<rparr>" 10]
  by (simp add: GetTicks_def [of "busy_ct\<lparr>s_is_global_timer_sane := False, ppc_downcount := 19400\<rparr>"] DowncountToCycles_def busy_ct_fields)

section \<open>Changing the clock\<close>

definition scale :: "int \<Rightarrow> int \<Rightarrow> int \<Rightarrow> int" where
  "scale new old x = (if x * new < 0 then - (- (x * new) div old) else x * new div old)"

lemma scale_mono:
  assumes "x \<le> y" "0 \<le> new" "0 < old"
  shows "scale new old x \<le> scale new old y"
proof -
  have le: "x * new \<le> y * new" using assms(1,2) by (rule mult_right_mono)
  show ?thesis
  proof (cases "x * new < 0")
    case True
    show ?thesis
    proof (cases "y * new < 0")
      case True
      have "- (y * new) div old \<le> - (x * new) div old" using le assms(3) by (intro zdiv_mono1) simp_all
      then show ?thesis using True \<open>x * new < 0\<close> by (simp add: scale_def)
    next
      case False
      have "0 \<le> - (x * new) div old" using True assms(3) by (simp add: pos_imp_zdiv_nonneg_iff)
      moreover have "0 \<le> y * new div old" using False assms(3) by (simp add: pos_imp_zdiv_nonneg_iff)
      ultimately show ?thesis using True False by (simp add: scale_def)
    qed
  next
    case False
    then show ?thesis using le assms(3) zdiv_mono1 [OF le] by (simp add: scale_def)
  qed
qed

lemma Adjust_queue:
  "s_event_queue (AdjustEventQueueTimes new old s) =
     map (\<lambda>e. e\<lparr>time := global_timer s + scale (uint new) (uint old) (time e - global_timer s)\<rparr>) (s_event_queue s)"
  by (simp add: AdjustEventQueueTimes_def scale_def Let_def)

lemma ev_key_time: "ev_key a \<le> ev_key b \<Longrightarrow> time a \<le> time b"
  by (auto simp: ev_key_def less_eq_prod_def)

lemma heap_time: "ct_ok s \<Longrightarrow> is_heap time (s_event_queue s)"
  by (simp add: ct_ok_def is_heap_def heap_from_def ev_key_time)

lemma heap_Adjust:
  assumes "ct_ok s" "0 < old"
  shows "is_heap time (s_event_queue (AdjustEventQueueTimes new old s))"
proof -
  have old: "0 < uint old" using assms(2) by (simp add: word_less_def)
  have h: "time (s_event_queue s ! parent j) \<le> time (s_event_queue s ! j)" if "0 < j" "j < length (s_event_queue s)" for j
    using heap_time [OF assms(1)] that by (simp add: is_heap_def heap_from_def)
  show ?thesis
    unfolding is_heap_def heap_from_def Adjust_queue length_map
  proof (intro allI impI)
    fix j assume j: "0 < j" "j < length (s_event_queue s)"
    then have "parent j < length (s_event_queue s)" by auto
    with j show "time (map (\<lambda>e. e\<lparr>time := global_timer s + scale (uint new) (uint old) (time e - global_timer s)\<rparr>) (s_event_queue s) ! parent j)
      \<le> time (map (\<lambda>e. e\<lparr>time := global_timer s + scale (uint new) (uint old) (time e - global_timer s)\<rparr>) (s_event_queue s) ! j)"
      using h [OF j] scale_mono [OF _ _ old] by simp
  qed
qed

text \<open>Two events a cycle apart, the later one scheduled first.\<close>

definition clock_ct :: CT_State where
  "clock_ct = ScheduleEvent True 0 ''B'' 2 CPU (ScheduleEvent True 1 ''A'' 1 CPU (CT_Init blank_ct))"

lemma clock_state: "timing_state periodic False {} clock_ct"
  unfolding clock_ct_def by (intro timing_schedule timing_init) (simp_all add: blank_ct_def PI_State.extend_def CT_State.fields_def)

text \<open>
  Changing the clock scales the time left of every event and keeps the queue in order of time, so that
  events of different times are still run in order. It does not keep the order among events whose
  times become equal: rounding can leave a queue that is no heap in the order by time and
  scheduling, here when the clock drops from 729 to 486 MHz, and the scheduler then runs two events
  of the same time in the wrong order.
\<close>

theorem clock_change:
  "(ct_ok s \<and> 0 < old \<longrightarrow> is_heap time (s_event_queue (AdjustEventQueueTimes new old s))) \<and>
   timing_state periodic False {} clock_ct \<and>
   (\<exists>es s'. Advance periodic 2 (AdjustEventQueueTimes 486000000 729000000 clock_ct) = Some (es, s') \<and>
      map time es = [0, 0] \<and> map fifo_order es = [1, 0])"
proof (intro conjI)
  show "ct_ok s \<and> 0 < old \<longrightarrow> is_heap time (s_event_queue (AdjustEventQueueTimes new old s))"
    by (simp add: heap_Adjust)
  show "timing_state periodic False {} clock_ct" by (rule clock_state)
  have "map_option (\<lambda>(es, s'). (map time es, map fifo_order es))
      (Advance periodic 2 (AdjustEventQueueTimes 486000000 729000000 clock_ct)) = Some ([0, 0], [1, 0])" by code_simp
  then show "\<exists>es s'. Advance periodic 2 (AdjustEventQueueTimes 486000000 729000000 clock_ct) = Some (es, s') \<and>
      map time es = [0, 0] \<and> map fifo_order es = [1, 0]" by auto
qed

theorem clock_change_witness:
  "is_heap time (s_event_queue (AdjustEventQueueTimes 486000000 729000000 clock_ct))"
  using clock_change [of clock_ct 729000000 486000000] timing_ok [OF clock_state periodic_ok(1)]
  by simp

end
