(* ===== verification/SystemTimers.thy ===== *)
theory SystemTimers
  imports CoreTiming
begin

text \<open>
  The CPU's decrementer and time base, \<^verbatim>\<open>Core/HW/SystemTimers.cpp\<close>, and the cases of
  \<^verbatim>\<open>mtspr\<close>/\<^verbatim>\<open>mfspr\<close> (\<^verbatim>\<open>Interpreter_SystemRegisters.cpp\<close>) that reach them. Neither counts as the CPU
  runs: both are computed from the clock when read, and the decrementer's exception is an event.
\<close>

section \<open>State\<close>

record ST_State = CT_State +
  spr_DEC :: u32
  spr_TL :: u32
  spr_TU :: u32
  s_cpu_core_clock :: u32

datatype Mode = GC | Wii

abbreviation (input) et_Dec :: string where "et_Dec \<equiv> ''DecCallback''"

section \<open>Operations\<close>

definition DecrementerCallback :: "u64 \<Rightarrow> int \<Rightarrow> 'a ST_State_scheme \<Rightarrow> 'a ST_State_scheme" where
  "DecrementerCallback u cyclesLate s =
    s\<lparr>spr_DEC := 0xFFFFFFFF, ppc_Exceptions := ppc_Exceptions s OR EXCEPTION_DECREMENTER\<rparr>"

text \<open>The product \<^verbatim>\<open>decValue * TIMER_RATIO\<close> is one of 32-bit unsigned integers.\<close>

definition DecrementerSet :: "'a ST_State_scheme \<Rightarrow> 'a ST_State_scheme" where
  "DecrementerSet s =
    (let decValue = spr_DEC s;
         s1 = RemoveEvent et_Dec s
     in if decValue AND 0x80000000 = 0 then
          (let s2 = SetFakeDecStartTicks (of_int (GetTicks s1)) s1;
               s3 = SetFakeDecStartValue decValue s2
           in ScheduleEvent True (uint (decValue * 12)) et_Dec 0 CPU s3)
        else s1)"

definition GetFakeDecrementer :: "'a ST_State_scheme \<Rightarrow> u32" where
  "GetFakeDecrementer s =
    s_fake_dec_start_value s - ucast ((of_int (GetTicks s) - s_fake_dec_start_ticks s) div 12 :: u64)"

definition ReadFullTimeBaseValue :: "'a ST_State_scheme \<Rightarrow> u64" where
  "ReadFullTimeBaseValue s = ucast (spr_TL s) OR push_bit 32 (ucast (spr_TU s))"

definition WriteFullTimeBaseValue :: "u64 \<Rightarrow> 'a ST_State_scheme \<Rightarrow> 'a ST_State_scheme" where
  "WriteFullTimeBaseValue value s = s\<lparr>spr_TL := ucast value, spr_TU := ucast (drop_bit 32 value)\<rparr>"

definition TimeBaseSet :: "'a ST_State_scheme \<Rightarrow> 'a ST_State_scheme" where
  "TimeBaseSet s = SetFakeTBStartValue (ReadFullTimeBaseValue s) (SetFakeTBStartTicks (of_int (GetTicks s)) s)"

definition GetFakeTimeBase :: "'a ST_State_scheme \<Rightarrow> u64" where
  "GetFakeTimeBase s = fake_TB_start_value s + (of_int (GetTicks s) - fake_TB_start_ticks s) div 12"

definition ChangePPCClock :: "Mode \<Rightarrow> 'a ST_State_scheme \<Rightarrow> 'a ST_State_scheme" where
  "ChangePPCClock mode s =
    (let previous_clock = s_cpu_core_clock s;
         clock = (if mode = Wii then 729000000 else 486000000)
     in AdjustEventQueueTimes clock previous_clock (s\<lparr>s_cpu_core_clock := clock\<rparr>))"

text \<open>The four special registers, in supervisor mode.\<close>

definition mtspr_DEC :: "u32 \<Rightarrow> 'a ST_State_scheme \<Rightarrow> 'a ST_State_scheme" where
  "mtspr_DEC v s =
    (let old_value = spr_DEC s;
         s1 = s\<lparr>spr_DEC := v\<rparr>
     in DecrementerSet (if drop_bit 31 old_value = 0 \<and> drop_bit 31 v \<noteq> 0
          then s1\<lparr>ppc_Exceptions := ppc_Exceptions s1 OR EXCEPTION_DECREMENTER\<rparr> else s1))"

definition mtspr_TL_W :: "u32 \<Rightarrow> 'a ST_State_scheme \<Rightarrow> 'a ST_State_scheme" where
  "mtspr_TL_W v s = TimeBaseSet (s\<lparr>spr_TL := v\<rparr>)"

definition mtspr_TU_W :: "u32 \<Rightarrow> 'a ST_State_scheme \<Rightarrow> 'a ST_State_scheme" where
  "mtspr_TU_W v s = TimeBaseSet (s\<lparr>spr_TU := v\<rparr>)"

definition mfspr_DEC :: "'a ST_State_scheme \<Rightarrow> u32 \<times> 'a ST_State_scheme" where
  "mfspr_DEC s =
    (let s1 = (if spr_DEC s AND 0x80000000 = 0 then s\<lparr>spr_DEC := GetFakeDecrementer s\<rparr> else s) in (spr_DEC s1, s1))"

definition mfspr_TB :: "'a ST_State_scheme \<Rightarrow> u32 \<times> u32 \<times> 'a ST_State_scheme" where
  "mfspr_TB s = (let s1 = WriteFullTimeBaseValue (GetFakeTimeBase s) s in (spr_TL s1, spr_TU s1, s1))"

section \<open>Counting\<close>

text \<open>The 64-bit difference of two clock readings, in timer ticks.\<close>

lemma clock_difference:
  assumes "0 \<le> k" "k < 2 ^ 64"
  shows "(of_int (t + k) - of_int t :: u64) div 12 = of_int (k div 12)"
proof -
  have "(of_int (t + k) - of_int t :: u64) = of_int k" by simp
  moreover have "uint (of_int k :: u64) = k" using assms by (simp add: uint_word_of_int)
  then have "uint ((of_int k :: u64) div 12) = k div 12" by (simp add: uint_div)
  moreover have "uint (of_int (k div 12) :: u64) = k div 12" using assms by (simp add: uint_word_of_int)
  ultimately show ?thesis by (metis word_uint_eq_iff)
qed

lemma Dec_fields:
  assumes "spr_DEC s AND 0x80000000 = 0"
  shows "s_fake_dec_start_value (DecrementerSet s) = spr_DEC s"
    "s_fake_dec_start_ticks (DecrementerSet s) = of_int (GetTicks s)"
    "spr_DEC (DecrementerSet s) = spr_DEC s"
  using assms
  by (simp_all add: DecrementerSet_def Let_def ScheduleEvent_def SetFakeDecStartTicks_def SetFakeDecStartValue_def
      enqueue_def ForceExceptionCheck_def RemoveEvent_def GetTicks_def)

lemma msb_clear: "\<not> bit (v :: u32) 31 \<Longrightarrow> v AND 0x80000000 = 0" "\<not> bit (v :: u32) 31 \<Longrightarrow> drop_bit 31 v = 0"
proof -
  show "\<not> bit (v :: u32) 31 \<Longrightarrow> v AND 0x80000000 = 0" using and_push_bit_1 [of v 31] by simp
  show "drop_bit 31 v = 0" if "\<not> bit v 31"
  proof (rule bit_word_eqI)
    fix n assume "n < LENGTH(32)"
    then show "bit (drop_bit 31 v) n = bit 0 n" using that bit_imp_le_length [of v "31 + n"]
      by (cases n) (auto simp: bit_drop_bit_eq)
  qed
qed

lemma GetTicks_enqueue [simp]: "GetTicks (enqueue e s) = GetTicks s"
  by (simp add: GetTicks_def)

lemma DecrementerSet_on:
  assumes "spr_DEC s AND 0x80000000 = 0"
  shows "events (DecrementerSet s) = add_mset
      \<lparr>time = GetTicks s + uint (spr_DEC s * 12), fifo_order = s_event_fifo_id s, userdata = 0, ev_type = et_Dec\<rparr>
      (filter_mset (\<lambda>e. ev_type e \<noteq> et_Dec) (events s))"
proof -
  let ?r = "RemoveEvent et_Dec s"
  have "s_event_fifo_id ?r = s_event_fifo_id s" "GetTicks ?r = GetTicks s"
    by (simp_all add: RemoveEvent_def GetTicks_def Let_def)
  moreover have "events (SetFakeDecStartValue v (SetFakeDecStartTicks x ?r)) = events ?r"
      "GetTicks (SetFakeDecStartValue v (SetFakeDecStartTicks x ?r)) = GetTicks ?r"
      "s_event_fifo_id (SetFakeDecStartValue v (SetFakeDecStartTicks x ?r)) = s_event_fifo_id ?r" for v x
    by (simp_all add: SetFakeDecStartValue_def SetFakeDecStartTicks_def GetTicks_def)
  ultimately show ?thesis
    using assms by (simp add: DecrementerSet_def Let_def ScheduleEvent_def events_enqueue events_Remove)
qed

text \<open>
  C11. The decrementer. Writing a value with the top bit clear leaves exactly one decrementer event, replacing
  any earlier one and no other event; after \<open>k\<close> cycles the register reads the value less \<open>k div 12\<close>, the timer's
  rate. The event is due when the register has run down to zero only for values up to 357913941: the product with the ratio
  is computed in 32 bits, so larger values raise the exception too early (\<open>0x7FFFFFFF\<close> after a sixth of the
  time, with the register still at \<open>0x6AAAAAAB\<close>).
\<close>

theorem decrementer_counts:
  assumes "\<not> bit v 31" "s1 = mtspr_DEC v s" "0 \<le> k" "k < 2 ^ 64"
    and "spr_DEC t = spr_DEC s1" "s_fake_dec_start_value t = s_fake_dec_start_value s1"
      "s_fake_dec_start_ticks t = s_fake_dec_start_ticks s1" "GetTicks t = GetTicks s + k"
  shows "mset (s_event_queue s1) = add_mset
      \<lparr>time = GetTicks s + uint (v * 12), fifo_order = s_event_fifo_id s, userdata = 0, ev_type = ''DecCallback''\<rparr>
      (filter_mset (\<lambda>e. ev_type e \<noteq> ''DecCallback'') (mset (s_event_queue s))) \<and>
    fst (mfspr_DEC t) = v - of_int (k div 12) \<and>
    (v \<le> 357913941 \<longrightarrow> uint (v * 12) = 12 * uint v) \<and>
    uint ((0x7FFFFFFF :: u32) * 12) * 6 < 12 * uint (0x7FFFFFFF :: u32) \<and>
    (v = 0x7FFFFFFF \<longrightarrow> k = uint (v * 12) \<longrightarrow> fst (mfspr_DEC t) = 0x6AAAAAAB)"
proof -
  have v: "v AND 0x80000000 = 0" "drop_bit 31 v = 0" using msb_clear [OF assms(1)] by auto
  let ?s = "s\<lparr>spr_DEC := v\<rparr>"
  have s1: "s1 = DecrementerSet ?s" using assms(2) v(2) by (simp add: mtspr_DEC_def)
  have ticks: "GetTicks ?s = GetTicks s" by (simp add: GetTicks_def)
  note f = Dec_fields [of ?s, simplified, OF v(1), folded s1]
  have dec: "fst (mfspr_DEC t) = v - of_int (k div 12)"
  proof -
    have "(of_int (GetTicks t) - s_fake_dec_start_ticks t :: u64) div 12 = of_int (k div 12)"
      using clock_difference [OF assms(3,4), of "GetTicks s"] f(2) assms(7,8) ticks by simp
    then have "GetFakeDecrementer t = v - ucast (of_int (k div 12) :: u64)"
      using f(1) assms(6) by (simp add: GetFakeDecrementer_def)
    moreover have "(of_nat (nat (k div 12)) :: u32) = of_int (k div 12)" using assms(3) by (simp add: of_nat_nat)
    moreover have "take_bit 64 (k div 12) = k div 12" using assms(3,4) by (simp add: take_bit_int_eq_self)
    ultimately show ?thesis using v(1) f(3) assms(5) by (simp add: mfspr_DEC_def Let_def unsigned_of_int)
  qed
  have "uint (v * 12) = 12 * uint v" if "v \<le> 357913941"
  proof -
    have "uint v \<le> 357913941" using that by (simp add: word_le_def)
    then show ?thesis by (simp add: uint_word_ariths mod_pos_pos_trivial)
  qed
  then show ?thesis using dec DecrementerSet_on [of ?s] v(1) s1 ticks by simp
qed

text \<open>
  The time base. After both halves have been written, the 64-bit time base read \<open>k\<close> cycles later is the
  value written plus \<open>k div 12\<close>, however the writes were ordered and whatever it counted before.
\<close>

theorem time_base_counts:
  assumes "s1 \<in> {mtspr_TL_W lo (mtspr_TU_W hi s), mtspr_TU_W hi (mtspr_TL_W lo s)}" "0 \<le> k" "k < 2 ^ 64"
    and "fake_TB_start_value t = fake_TB_start_value s1" "fake_TB_start_ticks t = fake_TB_start_ticks s1"
      "GetTicks t = GetTicks s1 + k"
  shows "(case mfspr_TB t of (l, h, s') \<Rightarrow> (ucast l OR push_bit 32 (ucast h) :: u64)) =
    (ucast lo OR push_bit 32 (ucast hi)) + of_int (k div 12)"
proof -
  have s1: "fake_TB_start_value s1 = ucast lo OR push_bit 32 (ucast hi)" "fake_TB_start_ticks s1 = of_int (GetTicks s1)"
    using assms(1)
    by (auto simp: mtspr_TL_W_def mtspr_TU_W_def TimeBaseSet_def ReadFullTimeBaseValue_def SetFakeTBStartValue_def
        SetFakeTBStartTicks_def GetTicks_def)
  have "GetFakeTimeBase t = (ucast lo OR push_bit 32 (ucast hi)) + of_int (k div 12)"
    using clock_difference [OF assms(2,3), of "GetTicks s1"] assms(4-6) s1 by (simp add: GetFakeTimeBase_def)
  moreover have "ucast (ucast w :: u32) OR push_bit 32 (ucast (ucast (drop_bit 32 w) :: u32)) = w" for w :: u64
    by (rule bit_word_eqI) (auto simp: word_bit_simps)
  ultimately show ?thesis by (simp add: mfspr_TB_def WriteFullTimeBaseValue_def Let_def)
qed

text \<open>A running machine with an event pending.\<close>

definition blank_st :: ST_State where
  "blank_st = CT_State.extend (CT_Init blank_ct) (ST_State.fields 0 0 0 486000000)"

theorem decrementer_counts_witness:
  "size (s_event_queue (mtspr_DEC 100 blank_st)) = 1 \<and>
   fst (mfspr_DEC ((mtspr_DEC 100 blank_st)\<lparr>global_timer := 600\<rparr>)) = 50"
proof -
  let ?s1 = "mtspr_DEC 100 blank_st"
  let ?t = "?s1\<lparr>global_timer := 600\<rparr>"
  have z: "GetTicks blank_st = 0" "s_event_queue blank_st = []" "s_is_global_timer_sane ?s1" by code_simp+
  then have t: "GetTicks ?t = GetTicks blank_st + 600" by (simp add: GetTicks_def)
  have b: "\<not> bit (100 :: u32) 31" by simp
  note * = decrementer_counts [OF b refl, of 600 ?t blank_st, simplified]
  show ?thesis using * t z by (auto dest: arg_cong [where f = size])
qed

theorem time_base_counts_witness:
  "(case mfspr_TB ((mtspr_TL_W 5 (mtspr_TU_W 1 blank_st))\<lparr>global_timer := 25\<rparr>) of
      (l, h, s') \<Rightarrow> (ucast l OR push_bit 32 (ucast h) :: u64)) = 0x100000007"
proof -
  let ?s1 = "mtspr_TL_W 5 (mtspr_TU_W 1 blank_st)"
  have "GetTicks ?s1 = 0" "s_is_global_timer_sane ?s1" "global_timer ?s1 = 0" by code_simp+
  then have t: "GetTicks (?s1\<lparr>global_timer := 25\<rparr>) = GetTicks ?s1 + 25" by (simp add: GetTicks_def)
  show ?thesis
    using time_base_counts [of ?s1 5 1 blank_st 25 "?s1\<lparr>global_timer := 25\<rparr>"] t by simp
qed

end
