(* ===== verification/Console.thy ===== *)
theory Console
  imports DSP_AramDMA SystemTimers
begin

text \<open>
  The parts together: the scheduler, the CPU's timers, the interrupt controller and the DSP
  interface share one state, and the scheduler runs their callbacks. The DSP interface's operations
  see the interrupt controller of the machine, and the events they ask for go into its queue
  (\<^verbatim>\<open>DSP::Init\<close> registers the two event types). Callbacks of parts that are not modelled are an argument.
\<close>

section \<open>State\<close>

record Console = ST_State +
  con_dsp :: DSPInterface

definition put_pi :: "PI_State \<Rightarrow> 'a PI_State_scheme \<Rightarrow> 'a PI_State_scheme" where
  "put_pi p c = PI_State.extend p (PI_State.more c)"

fun schedule_dsp :: "int \<times> dsp_event \<Rightarrow> Console \<Rightarrow> Console" where
  "schedule_dsp (delay, GenerateDSPInterruptEvent ty) c = ScheduleEvent True delay ''DSPint'' ty ANY c"
| "schedule_dsp (delay, CompleteARAMEvent) c = ScheduleEvent True delay ''ARAMint'' 0 CPU c"

text \<open>Installing the result of an operation of the DSP interface, and running one.\<close>

definition dsp_view :: "Console \<Rightarrow> DSPInterface" where
  "dsp_view c = (con_dsp c)\<lparr>s_pi := PI_State.truncate c, dsp_events := []\<rparr>"

definition install_dsp :: "DSPInterface \<Rightarrow> Console \<Rightarrow> Console" where
  "install_dsp d c = fold schedule_dsp (dsp_events d) ((put_pi (s_pi d) c)\<lparr>con_dsp := d\<rparr>)"

definition on_dsp :: "(DSPInterface \<Rightarrow> DSPInterface) \<Rightarrow> Console \<Rightarrow> Console" where
  "on_dsp f c = install_dsp (f (dsp_view c)) c"

section \<open>Callbacks\<close>

definition AudioDMACallback :: "u32 \<Rightarrow> u64 \<Rightarrow> int \<Rightarrow> Console \<Rightarrow> Console" where
  "AudioDMACallback aid_sample_rate u cyclesLate c =
    (let period = uint (s_cpu_core_clock c div (aid_sample_rate * 4 div 32))
     in ScheduleEvent True (period - cyclesLate) ''AudioDMACallback'' 0 CPU (on_dsp UpdateAudioDMA c))"

definition console_cb ::
  "u32 \<Rightarrow> (string \<Rightarrow> u64 \<Rightarrow> int \<Rightarrow> Console \<Rightarrow> Console) \<Rightarrow> string \<Rightarrow> u64 \<Rightarrow> int \<Rightarrow> Console \<Rightarrow> Console" where
  "console_cb rate other ty u late c =
    (if ty = ''DSPint'' then on_dsp (GenerateDSPInterrupt u) c
     else if ty = ''ARAMint'' then on_dsp CompleteARAM c
     else if ty = ''AudioDMACallback'' then AudioDMACallback rate u late c
     else if ty = ''DecCallback'' then DecrementerCallback u late c
     else if ty = ''ToggleResetButton'' then ToggleResetButtonCallback u c
     else if ty = ''_lost_event'' then c
     else other ty u late c)"

section \<open>Frames\<close>

lemma put_pi_fields [simp]:
  fixes c :: Console
  shows "s_event_queue (put_pi p c) = s_event_queue c" "global_timer (put_pi p c) = global_timer c"
    "slice_length (put_pi p c) = slice_length c" "s_is_global_timer_sane (put_pi p c) = s_is_global_timer_sane c"
    "s_event_fifo_id (put_pi p c) = s_event_fifo_id c" "con_dsp (put_pi p c) = con_dsp c"
    "ppc_Exceptions (put_pi p c) = ppc_Exceptions p" "ppc_npc (put_pi p c) = ppc_npc p" "ppc_msr (put_pi p c) = ppc_msr p"
    "m_InterruptCause (put_pi p c) = m_InterruptCause p" "m_InterruptMask (put_pi p c) = m_InterruptMask p"
    "s_ts_queue (put_pi p c) = s_ts_queue c" "ppc_downcount (put_pi p c) = ppc_downcount p"
  by (cases c; simp add: put_pi_def PI_State.extend_def)+

lemma truncate_fields [simp]:
  fixes c :: Console
  shows "ppc_Exceptions (PI_State.truncate c) = ppc_Exceptions c" "ppc_npc (PI_State.truncate c) = ppc_npc c"
    "ppc_msr (PI_State.truncate c) = ppc_msr c" "m_InterruptCause (PI_State.truncate c) = m_InterruptCause c"
    "m_InterruptMask (PI_State.truncate c) = m_InterruptMask c" "ppc_downcount (PI_State.truncate c) = ppc_downcount c"
  by (simp_all add: PI_State.truncate_def)

lemma put_pi_self [simp]: "put_pi (PI_State.truncate c) c = (c :: Console)"
  by (cases c) (simp add: put_pi_def PI_State.truncate_def PI_State.extend_def)

text \<open>Completing a transfer raises the ARAM interrupt, here with it enabled.\<close>

lemma CompleteARAM_raises:
  assumes "bit (s_dspState d) 6"
  shows "m_InterruptCause (s_pi (CompleteARAM d)) AND INT_CAUSE_DSP \<noteq> 0"
    "m_InterruptMask (s_pi (CompleteARAM d)) = m_InterruptMask (s_pi d)"
    "ppc_npc (s_pi (CompleteARAM d)) = ppc_npc (s_pi d)" "ppc_msr (s_pi (CompleteARAM d)) = ppc_msr (s_pi d)"
    "dsp_events (CompleteARAM d) = dsp_events d"
proof -
  have "bit (s_dspState (CompleteARAM d)) 5" "bit (s_dspState (CompleteARAM d)) 6"
    using assms by (simp_all add: CompleteARAM_def GenerateDSPInterrupt_def UpdateInterrupts_eq bit_or_iff bit_and_iff bit_not_iff)
  then show "m_InterruptCause (s_pi (CompleteARAM d)) AND INT_CAUSE_DSP \<noteq> 0"
    using int_line_ok_ops(2) [of d] by (simp add: int_line_ok_def int_pending_def)
qed (simp_all add: CompleteARAM_def GenerateDSPInterrupt_def UpdateInterrupts_eq SetInterrupt_def)

section \<open>A transfer's interrupt\<close>

lemma on_CompleteARAM:
  "on_dsp CompleteARAM c = (put_pi (s_pi (CompleteARAM (dsp_view c))) c)\<lparr>con_dsp := CompleteARAM (dsp_view c)\<rparr>"
  by (simp add: on_dsp_def install_dsp_def dsp_view_def CompleteARAM_def GenerateDSPInterrupt_def UpdateInterrupts_eq)

lemma on_CompleteARAM_raises:
  assumes "bit (s_dspState (con_dsp c)) 6" "m_InterruptMask c AND INT_CAUSE_DSP \<noteq> 0"
  shows "ppc_Exceptions (on_dsp CompleteARAM c) AND EXCEPTION_EXTERNAL_INT \<noteq> 0"
    "ppc_npc (on_dsp CompleteARAM c) = ppc_npc c" "ppc_msr (on_dsp CompleteARAM c) = ppc_msr c"
    "s_event_queue (on_dsp CompleteARAM c) = s_event_queue c" "global_timer (on_dsp CompleteARAM c) = global_timer c"
    "bit (s_dspState (con_dsp (on_dsp CompleteARAM c))) 5" "\<not> bit (s_dspState (con_dsp (on_dsp CompleteARAM c))) 9"
proof -
  let ?d = "CompleteARAM (dsp_view c)"
  have b: "bit (s_dspState (dsp_view c)) 6" using assms(1) by (simp add: dsp_view_def)
  note r = CompleteARAM_raises [OF b]
  have m: "m_InterruptMask (s_pi ?d) AND INT_CAUSE_DSP \<noteq> 0" using r(2) assms(2) by (simp add: dsp_view_def)
  have "m_InterruptCause (s_pi ?d) AND m_InterruptMask (s_pi ?d) \<noteq> 0" using dsp_cause_meets [OF r(1) m] .
  then have "ppc_Exceptions (s_pi ?d) AND EXCEPTION_EXTERNAL_INT \<noteq> 0"
    using int_line_ok_ops(2) [of "dsp_view c"] by (simp add: int_line_ok_def line_ok_def)
  then show "ppc_Exceptions (on_dsp CompleteARAM c) AND EXCEPTION_EXTERNAL_INT \<noteq> 0"
    by (simp add: on_CompleteARAM)
  show "bit (s_dspState (con_dsp (on_dsp CompleteARAM c))) 5" "\<not> bit (s_dspState (con_dsp (on_dsp CompleteARAM c))) 9"
    by (simp_all add: on_CompleteARAM CompleteARAM_bits)
qed (simp_all add: on_CompleteARAM CompleteARAM_raises(3,4) dsp_view_def assms(1))

text \<open>Advancing past exactly one due event runs its callback.\<close>

lemma Advance_one:
  assumes "ct_ok c" "s_ts_queue c = []" "t = global_timer c + slice_length c - ppc_downcount c"
    and "filter_mset (\<lambda>e. time e \<le> t) (events c) = {#ev#}"
    and "s_event_queue (cb (ev_type ev) (userdata ev) (t - time ev) (popped (advance_start c))) =
      s_event_queue (popped (advance_start c))"
      "global_timer (cb (ev_type ev) (userdata ev) (t - time ev) (popped (advance_start c))) = t"
  shows "Advance cb (Suc n) c =
    Some ([ev], advance_finish (cb (ev_type ev) (userdata ev) (t - time ev) (popped (advance_start c))))"
proof -
  let ?c = "advance_start c"
  have q: "s_event_queue ?c = s_event_queue c" "global_timer ?c = t"
    using assms(2,3) by (simp_all add: advance_start_def Move_none)
  have ok: "ct_ok ?c" using ct_ok_start [OF assms(1)] .
  have ev: "ev \<in> set (s_event_queue c)" "time ev \<le> t"
    using arg_cong [OF assms(4), of set_mset] by auto
  have due: "due ?c" using not_due [OF ok, of ev] q ev by (cases "due ?c") auto
  have hd: "hd (s_event_queue c) = ev" using due_head [OF due] assms(4) unfolding q by simp
  have "due_events t (events (popped ?c)) = {#}"
    using ev_queue.elems_pop [of "s_event_queue c"] due assms(4) hd q
    by (simp add: popped_def due_def)
  then have "\<forall>e \<in> set (s_event_queue (popped ?c)). \<not> time e \<le> t" by simp
  then have nd: "\<not> due (fire cb ?c)"
    using assms(5,6) hd q by (auto simp: fire_def Let_def due_def)
  have "run_events cb (Suc n) ?c = Some ([ev], fire cb ?c)"
    using run_events_Suc [OF due, of cb n] run_events_stop [OF nd, of cb n] hd q by simp
  then show ?thesis using hd q by (simp add: Advance_eq fire_def Let_def)
qed


lemma dma_write_events:
  assumes "mmio_write16 n 0x502A v s = Some (Inr d)" "2 ^ 28 \<le> n"
  shows "dsp_events d = dsp_events s @ [(sint (count_written v s div 32 * 246), CompleteARAMEvent)]" "s_pi d = s_pi s"
proof -
  let ?s = "s\<lparr>s_arDMA := (s_arDMA s)\<lparr>Cnt := (Cnt (s_arDMA s) AND 0xFFFF0000) OR ucast (v AND NOT 31)\<rparr>\<rparr>"
  have dma: "Do_ARAM_DMA n ?s = Some (Inr d)" using assms(1) by (simp add: mmio_write16_def write_count_low_def)
  have c: "cnt_count (s_arDMA ?s) = count_written v s" by (simp add: cnt_count_def count_written_def)
  obtain m where m: "unat (count_written v s) = 8 * m"
    using dvd_trans [of 8 32, OF _ count_written_chunks [of v s]] by (auto elim: dvdE)
  have "m \<le> n" using cnt_count_bound [of "s_arDMA ?s"] assms(2) m c by simp
  then show "dsp_events d = dsp_events s @ [(sint (count_written v s div 32 * 246), CompleteARAMEvent)]"
    using Do_ARAM_DMA_returns [of ?s m n] dma m c by simp
  show "s_pi d = s_pi s" using same_line_DMA [OF dma, of s] by (simp add: same_line_def)
qed

text \<open>
  C8. A transfer of audio memory ends with an interrupt of the CPU. When the CPU starts it by writing the
  counter, one event is put into the scheduler's queue, 246 cycles per 32 bytes ahead (a signed 32-bit product, exact below 279 million bytes), next to those
  already there. When the clock has reached such an event and no other is due, Advance runs it: the DMA
  status bit falls and the ARAM interrupt is pending, and with that interrupt enabled in the
  DSP interface, its cause unmasked and external interrupts enabled, the CPU continues
  in the handler at 0x500 with the interrupted address saved and interrupts disabled.
\<close>

theorem aram_dma_interrupts_cpu:
  assumes "mmio_write16 n 0x502A v (dsp_view c0) = Some (Inr d)" "2 ^ 28 \<le> n"
    and "ct_ok c" "s_ts_queue c = []" "t = global_timer c + slice_length c - ppc_downcount c"
      "filter_mset (\<lambda>e. time e \<le> t) (mset (s_event_queue c)) = {#ev#}" "ev_type ev = ''ARAMint''"
    and "bit (s_dspState (con_dsp c)) 6" "m_InterruptMask c AND INT_CAUSE_DSP \<noteq> 0" "MSR_EE c"
  shows "mset (s_event_queue (install_dsp d c0)) = add_mset
      \<lparr>time = GetTicks c0 + sint (count_written v (dsp_view c0) div 32 * 246), fifo_order = s_event_fifo_id c0,
       userdata = 0, ev_type = ''ARAMint''\<rparr> (mset (s_event_queue c0)) \<and>
    (\<exists>c'. Advance (console_cb rate other) (Suc k) c = Some ([ev], c') \<and>
      bit (s_dspState (con_dsp c')) 5 \<and> \<not> bit (s_dspState (con_dsp c')) 9 \<and>
      ppc_pc c' = 0x500 \<and> ppc_srr0 c' = ppc_npc c \<and> \<not> MSR_EE c')"
proof
  have d: "dsp_events d = [(sint (count_written v (dsp_view c0) div 32 * 246), CompleteARAMEvent)]"
    "s_pi d = PI_State.truncate c0"
    using dma_write_events [OF assms(1,2)] by (simp_all add: dsp_view_def)
  let ?i = "c0\<lparr>con_dsp := d\<rparr>"
  have "GetTicks ?i = GetTicks c0" by (simp add: GetTicks_def)
  then show "mset (s_event_queue (install_dsp d c0)) = add_mset
      \<lparr>time = GetTicks c0 + sint (count_written v (dsp_view c0) div 32 * 246), fifo_order = s_event_fifo_id c0,
       userdata = 0, ev_type = ''ARAMint''\<rparr> (mset (s_event_queue c0))"
    by (simp add: install_dsp_def d ScheduleEvent_def events_enqueue)
  let ?p = "popped (advance_start c)"
  have p: "con_dsp ?p = con_dsp c" "m_InterruptMask ?p = m_InterruptMask c" "ppc_npc ?p = ppc_npc c" "ppc_msr ?p = ppc_msr c"
    "global_timer ?p = t"
    using assms(4,5) by (simp_all add: popped_def advance_start_def Move_none)
  have cb: "console_cb rate other (ev_type ev) (userdata ev) (t - time ev) ?p = on_dsp CompleteARAM ?p"
    using assms(7) by (simp add: console_cb_def)
  have on: "bit (s_dspState (con_dsp ?p)) 6" "m_InterruptMask ?p AND INT_CAUSE_DSP \<noteq> 0"
    using assms(8,9) p by simp_all
  note r = on_CompleteARAM_raises [OF on]
  have adv: "Advance (console_cb rate other) (Suc k) c = Some ([ev], advance_finish (on_dsp CompleteARAM ?p))"
    using Advance_one [OF assms(3-6), of "console_cb rate other" k] r(4,5) p(5) unfolding cb by simp
  have "MSR_EE (on_dsp CompleteARAM ?p)" using assms(10) p r(3) by simp
  then have "ppc_pc (advance_finish (on_dsp CompleteARAM ?p)) = 0x500"
    "ppc_srr0 (advance_finish (on_dsp CompleteARAM ?p)) = ppc_npc c" "\<not> MSR_EE (advance_finish (on_dsp CompleteARAM ?p))"
    "con_dsp (advance_finish (on_dsp CompleteARAM ?p)) = con_dsp (on_dsp CompleteARAM ?p)"
    using r(1,2) p(3) by (simp_all add: advance_finish_def Let_def CheckExternal_external enter_exception_fields enter_exception_msr)
      (simp_all add: enter_exception_def Let_def)
  then show "\<exists>c'. Advance (console_cb rate other) (Suc k) c = Some ([ev], c') \<and>
      bit (s_dspState (con_dsp c')) 5 \<and> \<not> bit (s_dspState (con_dsp c')) 9 \<and>
      ppc_pc c' = 0x500 \<and> ppc_srr0 c' = ppc_npc c \<and> \<not> MSR_EE c'"
    using adv r(6,7) by simp
qed

text \<open>A GameCube about to send 32 bytes, and one whose clock has reached the end of that transfer.\<close>

definition idle_console :: Console where
  "idle_console = ST_State.extend blank_st (Console.fields
     (Reinit False blank_dsp blank_iface))"

definition due_console :: Console where
  "due_console = idle_console\<lparr>s_event_queue := [\<lparr>time = 246, fifo_order = 0, userdata = 0, ev_type = ''ARAMint''\<rparr>],
     s_event_fifo_id := 1, ppc_downcount := 19000, m_InterruptMask := INT_CAUSE_DSP,
     con_dsp := (con_dsp idle_console)\<lparr>s_dspState := 0x240\<rparr>\<rparr>"

lemma idle_console_fields:
  "con_dsp idle_console = Reinit False blank_dsp blank_iface" "s_ts_queue idle_console = []" "global_timer idle_console = 0"
  "slice_length idle_console = 20000" "ppc_downcount idle_console = 20000" "s_event_queue idle_console = []"
  "s_is_global_timer_sane idle_console" "ppc_msr idle_console = 0x8032" "s_event_fifo_id idle_console = 0"
  by (simp_all add: idle_console_def ST_State.extend_def Console.fields_def blank_st_def CT_State.extend_def ST_State.fields_def
      CT_Init_def RegisterEvent_def blank_ct_def PI_State.extend_def CT_State.fields_def blank_pi_def CyclesToDowncount_def)

lemma idle_transfer: "\<exists>d. mmio_write16 (2 ^ 28) 0x502A 32 (dsp_view idle_console) = Some (Inr d)"
proof -
  let ?s = "(dsp_view idle_console)\<lparr>s_arDMA := (s_arDMA (dsp_view idle_console))\<lparr>Cnt := 32\<rparr>\<rparr>"
  have w: "mmio_write16 (2 ^ 28) 0x502A 32 (dsp_view idle_console) = Do_ARAM_DMA (2 ^ 28) ?s"
    by (simp add: mmio_write16_def write_count_low_def dsp_view_def idle_console_fields Reinit_def)
  have gc: "gc_memory (s_dsp_emulator ?s)" "s_ARAM_Info ?s AND 0xf \<noteq> 4" "unat (cnt_count (s_arDMA ?s)) = 8 * 4"
    "unat (MMAddr (s_arDMA ?s)) + 8 * 4 \<le> 0x1800000" "unat (ARAddr (s_arDMA ?s)) + 8 * 4 \<le> 0x1000000"
    by (simp_all add: gc_memory_def dsp_view_def idle_console_fields Reinit_def cnt_count_def)
  have "0 < (4 :: nat)" "(4 :: nat) \<le> 2 ^ 28" by simp_all
  from Do_ARAM_DMA_copies [OF refl refl gc(1-3) this gc(4,5)] show ?thesis unfolding w by blast
qed

theorem aram_dma_interrupts_cpu_witness:
  "\<exists>d c'. mmio_write16 (2 ^ 28) 0x502A 32 (dsp_view idle_console) = Some (Inr d) \<and>
     map time (s_event_queue (install_dsp d idle_console)) = [246] \<and>
     Advance (console_cb 32000 (\<lambda>_ _ _ c. c)) 1 due_console =
       Some ([\<lparr>time = 246, fifo_order = 0, userdata = 0, ev_type = ''ARAMint''\<rparr>], c') \<and> ppc_pc c' = 0x500"
proof -
  obtain d where d: "mmio_write16 (2 ^ 28) 0x502A 32 (dsp_view idle_console) = Some (Inr d)" using idle_transfer by blast
  have ok: "ct_ok due_console" "s_ts_queue due_console = []"
    "1000 = global_timer due_console + slice_length due_console - ppc_downcount due_console"
    "filter_mset (\<lambda>e. time e \<le> 1000) (mset (s_event_queue due_console)) =
       {#\<lparr>time = 246, fifo_order = 0, userdata = 0, ev_type = ''ARAMint''\<rparr>#}"
    "bit (s_dspState (con_dsp due_console)) 6" "m_InterruptMask due_console AND INT_CAUSE_DSP \<noteq> 0" "MSR_EE due_console"
    by (simp_all add: due_console_def idle_console_fields ct_ok_def is_heap_def heap_from_def)
  have cnt: "sint (count_written 32 (dsp_view idle_console) div 32 * 246) = 246" "GetTicks idle_console = 0"
    by (simp_all add: count_written_def dsp_view_def idle_console_fields Reinit_def GetTicks_def)
  note * = aram_dma_interrupts_cpu [OF d order_refl ok(1-4) _ ok(5-7), of "32000" "\<lambda>_ _ _ c. c" 0]
  from * have "mset (s_event_queue (install_dsp d idle_console)) =
      {#\<lparr>time = 246, fifo_order = s_event_fifo_id idle_console, userdata = 0, ev_type = ''ARAMint''\<rparr>#}"
    unfolding cnt by (simp add: idle_console_fields)
  then have "s_event_queue (install_dsp d idle_console) =
      [\<lparr>time = 246, fifo_order = s_event_fifo_id idle_console, userdata = 0, ev_type = ''ARAMint''\<rparr>]"
    by (simp only: mset_single_iff)
  with d * show ?thesis by auto
qed

end
