(* ===== verification/PPC_Registers.thy ===== *)
theory PPC_Registers
  imports SystemTimers "HOL-Library.Signed_Division"
begin

text \<open>
  The registers of the CPU that the interpreter works on (\<^verbatim>\<open>PowerPCState\<close>, \<^verbatim>\<open>PowerPC.h\<close>): general registers, the
  condition register in its 64-bit encoding, XER, special purpose and segment registers; and the fields of an
  instruction (\<^verbatim>\<open>Gekko.h\<close>). \<^verbatim>\<open>SRR0\<close>, \<^verbatim>\<open>SRR1\<close>, \<^verbatim>\<open>DEC\<close> and the time base are fields of the records this one extends. The
  condition register encoding is shown to be lossless.
\<close>

section \<open>State\<close>

record CPU_State = ST_State +
  gpr :: "nat \<Rightarrow> u32"
  cr_val :: "nat \<Rightarrow> u64"
  xer_ca :: u8
  xer_so_ov :: u8
  xer_stringctrl :: u16
  spr :: "nat \<Rightarrow> u32"
  sr :: "nat \<Rightarrow> u32"

definition set_gpr :: "nat \<Rightarrow> u32 \<Rightarrow> 'a CPU_State_scheme \<Rightarrow> 'a CPU_State_scheme" where
  "set_gpr r v s = s\<lparr>gpr := (gpr s)(r := v)\<rparr>"

section \<open>Instruction fields\<close>

definition inst_field :: "nat \<Rightarrow> nat \<Rightarrow> u32 \<Rightarrow> nat" where
  "inst_field pos width inst = unat (take_bit width (drop_bit pos inst))"

abbreviation (input) RD :: "u32 \<Rightarrow> nat" where "RD \<equiv> inst_field 21 5"
abbreviation (input) RS :: "u32 \<Rightarrow> nat" where "RS \<equiv> inst_field 21 5"
abbreviation (input) RA :: "u32 \<Rightarrow> nat" where "RA \<equiv> inst_field 16 5"
abbreviation (input) RB :: "u32 \<Rightarrow> nat" where "RB \<equiv> inst_field 11 5"
abbreviation (input) SH :: "u32 \<Rightarrow> nat" where "SH \<equiv> inst_field 11 5"
abbreviation (input) MB :: "u32 \<Rightarrow> nat" where "MB \<equiv> inst_field 6 5"
abbreviation (input) ME :: "u32 \<Rightarrow> nat" where "ME \<equiv> inst_field 1 5"
abbreviation (input) TO :: "u32 \<Rightarrow> nat" where "TO \<equiv> inst_field 21 5"
abbreviation (input) CRFD :: "u32 \<Rightarrow> nat" where "CRFD \<equiv> inst_field 23 3"
abbreviation (input) Rc :: "u32 \<Rightarrow> bool" where "Rc inst \<equiv> bit inst 0"
abbreviation (input) OE :: "u32 \<Rightarrow> bool" where "OE inst \<equiv> bit inst 10"

definition SIMM_16 :: "u32 \<Rightarrow> u32" where
  "SIMM_16 inst = scast (ucast inst :: 16 word)"

definition UIMM :: "u32 \<Rightarrow> u32" where
  "UIMM inst = ucast (ucast inst :: 16 word)"

section \<open>Condition register and XER\<close>

definition PPCCRToInternal :: "u8 \<Rightarrow> u64" where
  "PPCCRToInternal value =
    (let c0 = 0x100000000;
         c1 = c0 OR (if bit value 0 then push_bit 61 1 else 0);
         c2 = c1 OR (if bit value 1 then 0 else 1);
         c3 = c2 OR (if bit value 2 then 0 else push_bit 63 1)
     in c3 OR (if bit value 3 then push_bit 62 1 else 0))"

text \<open>The table \<^verbatim>\<open>m_crTable\<close> holds these values for 0 to 15.\<close>

definition m_crTable :: "u64 list" where
  "m_crTable = map (\<lambda>i. PPCCRToInternal (of_nat i)) [0..<16]"

definition SetCRField :: "nat \<Rightarrow> u32 \<Rightarrow> 'a CPU_State_scheme \<Rightarrow> 'a CPU_State_scheme" where
  "SetCRField cr_field value s = s\<lparr>cr_val := (cr_val s)(cr_field := m_crTable ! unat value)\<rparr>"

definition internal_to_cr :: "u64 \<Rightarrow> u32" where
  "internal_to_cr cr =
    (if bit cr 61 then 1 else 0) OR (if cr AND 0xFFFFFFFF = 0 then 2 else 0) OR
    (if sint cr > 0 then 4 else 0) OR (if bit cr 62 then 8 else 0)"

definition GetCRField :: "nat \<Rightarrow> 'a CPU_State_scheme \<Rightarrow> u32" where
  "GetCRField cr_field s = internal_to_cr (cr_val s cr_field)"

definition GetCRBit :: "nat \<Rightarrow> 'a CPU_State_scheme \<Rightarrow> u32" where
  "GetCRBit b s = drop_bit (3 - b mod 4) (GetCRField (b div 4) s) AND 1"

definition SetCRBit :: "nat \<Rightarrow> u32 \<Rightarrow> 'a CPU_State_scheme \<Rightarrow> 'a CPU_State_scheme" where
  "SetCRBit b value s =
    (if value AND 1 \<noteq> 0
     then SetCRField (b div 4) (GetCRField (b div 4) s OR drop_bit (b mod 4) 8) s
     else SetCRField (b div 4) (GetCRField (b div 4) s AND NOT (drop_bit (b mod 4) 8)) s)"

definition CompactCR :: "'a CPU_State_scheme \<Rightarrow> u32" where
  "CompactCR s = fold (\<lambda>i cr. cr OR push_bit (28 - i * 4) (GetCRField i s)) [0..<8] 0"

definition ExpandCR :: "u32 \<Rightarrow> 'a CPU_State_scheme \<Rightarrow> 'a CPU_State_scheme" where
  "ExpandCR cr s = fold (\<lambda>i s. SetCRField i (drop_bit (28 - i * 4) cr AND 0xF) s) [0..<8] s"

definition SetCarry :: "bool \<Rightarrow> 'a CPU_State_scheme \<Rightarrow> 'a CPU_State_scheme" where
  "SetCarry ca s = s\<lparr>xer_ca := (if ca then 1 else 0)\<rparr>"

definition GetCarry :: "'a CPU_State_scheme \<Rightarrow> u32" where
  "GetCarry s = ucast (xer_ca s)"

definition GetXER_SO :: "'a CPU_State_scheme \<Rightarrow> u32" where
  "GetXER_SO s = ucast (drop_bit 1 (xer_so_ov s))"

definition GetXER_OV :: "'a CPU_State_scheme \<Rightarrow> u32" where
  "GetXER_OV s = ucast (xer_so_ov s AND 1)"

definition SetXER_SO :: "bool \<Rightarrow> 'a CPU_State_scheme \<Rightarrow> 'a CPU_State_scheme" where
  "SetXER_SO value s = s\<lparr>xer_so_ov := xer_so_ov s OR (if value then 2 else 0)\<rparr>"

definition SetXER_OV :: "bool \<Rightarrow> 'a CPU_State_scheme \<Rightarrow> 'a CPU_State_scheme" where
  "SetXER_OV value s = SetXER_SO value (s\<lparr>xer_so_ov := (xer_so_ov s AND 0xFE) OR (if value then 1 else 0)\<rparr>)"

definition GetXER :: "'a CPU_State_scheme \<Rightarrow> u32" where
  "GetXER s = ucast (xer_stringctrl s) OR push_bit 29 (ucast (xer_ca s)) OR push_bit 30 (ucast (xer_so_ov s))"

definition SetXER :: "u32 \<Rightarrow> 'a CPU_State_scheme \<Rightarrow> 'a CPU_State_scheme" where
  "SetXER x s = s\<lparr>xer_stringctrl := take_bit 7 (ucast x) + push_bit 8 (take_bit 8 (drop_bit 8 (ucast x))),
     xer_ca := (if bit x 29 then 1 else 0),
     xer_so_ov := push_bit 1 (if bit x 31 then 1 else 0) + (if bit x 30 then 1 else 0)\<rparr>"

section \<open>Words of 32 bits\<close>

lemma uint_u32: "0 \<le> uint (x :: u32)" "uint x < 4294967296"
  using uint_bounded [of x] by auto

lemma uint_not32: "uint (NOT (x :: u32)) = 4294967295 - uint x"
proof -
  have "uint (NOT x) = take_bit 32 (NOT (uint x))" by (simp add: unsigned_not_eq)
  also have "\<dots> = (- uint x - 1) mod 4294967296" by (simp add: take_bit_eq_mod not_int_def)
  also have "\<dots> = (4294967295 - uint x) mod 4294967296" by (simp add: mod_eq_dvd_iff)
  finally show ?thesis using uint_u32 [of x] by simp
qed

lemma uint_add32: "uint ((x :: u32) + y) = (uint x + uint y) mod 4294967296"
  by (simp add: uint_word_ariths)

lemma uint_add32_if:
  "uint ((x :: u32) + y) = (if uint x + uint y < 4294967296 then uint x + uint y else uint x + uint y - 4294967296)"
  using uint_plus_if_size [of x y] by (simp add: word_size)

lemma sint_u32: "- 2147483648 \<le> sint (x :: u32)" "sint x < 2147483648"
  using sint_greater_eq [of x] sint_less [of x] by auto

lemma sint_neg_bit: "sint (x :: u32) < 0 \<longleftrightarrow> bit x 31"
  using bit_last_iff [of x] by simp

lemma sint_of_int32: "sint (of_int i :: u32) = (i + 2147483648) mod 4294967296 - 2147483648"
  by (simp add: signed_of_int signed_take_bit_eq_take_bit_shift take_bit_eq_mod)

lemma drop_bit_31: "drop_bit 31 (w :: u32) \<noteq> 0 \<longleftrightarrow> bit w 31"
proof -
  have "bit w 31" if nz: "drop_bit 31 w \<noteq> 0"
  proof -
    obtain n where "bit (drop_bit 31 w) n" using nz bit_eqI [of "drop_bit 31 w" 0] by fastforce
    then show ?thesis using bit_imp_le_length [of w "31 + n"] by (cases n) (auto simp: bit_drop_bit_eq)
  qed
  moreover have "drop_bit 31 w \<noteq> 0" if "bit w 31"
  proof -
    have "bit (drop_bit 31 w) 0" using that by (simp add: bit_drop_bit_eq)
    then show ?thesis by force
  qed
  ultimately show ?thesis by blast
qed

lemma sint_zero: "sint (x :: 'a::len word) = 0 \<longleftrightarrow> x = 0"
proof
  assume "sint x = 0"
  moreover have "x = of_int (sint x)" by simp
  ultimately show "x = 0" by simp
qed simp

lemma small_bits:
  assumes "bit (w :: 'a::len word) k" "unat w < 2 ^ n"
  shows "k < n"
proof -
  have "w = w AND mask n" using and_mask_self [OF assms(2)] by simp
  then have "bit (w AND mask n) k" using assms(1) by simp
  then show ?thesis by (simp add: bit_and_iff bit_mask_iff)
qed

lemma and_15_lt: "(v :: u32) AND 0xF < 16"
  using and_mask_less' [of 4 v] by (simp add: mask_eq_exp_minus_1)

lemma bit_and_15: "bit (w AND 0xF :: u32) n \<longleftrightarrow> n < 4 \<and> bit w n"
proof -
  have "(0xF :: u32) = mask 4" by (simp add: mask_eq_exp_minus_1)
  then show ?thesis by (simp only: bit_and_iff bit_mask_iff) auto
qed

section \<open>Instruction fields, XER\<close>

lemma inst_field_less: "inst_field pos width inst < 2 ^ width"
  unfolding inst_field_def by (simp add: take_bit_eq_mask unat_and_mask)

lemma inst_field_5 [simp]: "inst_field pos 5 inst < 32"
  using inst_field_less [of pos 5] by simp

text \<open>A state reached by the instructions: the carry is a bit, and only SO and OV are stored beside it.\<close>

definition xer_ok :: "'a CPU_State_scheme \<Rightarrow> bool" where
  "xer_ok s \<longleftrightarrow> xer_ca s \<le> 1 \<and> xer_so_ov s \<le> 3"

lemma xer_ok_carry: "xer_ok s \<Longrightarrow> uint (GetCarry s) \<le> 1"
  by (simp add: xer_ok_def GetCarry_def word_le_def unsigned_ucast_eq take_bit_int_eq_self)

lemma xer_ok_SO: "xer_ok s \<Longrightarrow> GetXER_SO s = of_bool (bit (xer_so_ov s) 1)"
proof -
  assume "xer_ok s"
  then have b: "bit (xer_so_ov s) n \<Longrightarrow> n < 2" for n
    using small_bits [of "xer_so_ov s" n 2] by (simp add: xer_ok_def word_le_nat_alt)
  show "GetXER_SO s = of_bool (bit (xer_so_ov s) 1)"
    unfolding GetXER_SO_def
    by (rule bit_word_eqI) (use b in \<open>force simp: bit_simps\<close>)
qed

section \<open>The condition register\<close>

lemma cr_table_length [simp]: "length m_crTable = 16"
  by (simp add: m_crTable_def)

lemma cr_table_inverse: "i < 16 \<Longrightarrow> internal_to_cr (m_crTable ! i) = of_nat i"
proof -
  have "\<forall>i \<in> set [0..<16]. internal_to_cr (m_crTable ! i) = of_nat i" by code_simp
  then show "i < 16 \<Longrightarrow> internal_to_cr (m_crTable ! i) = of_nat i" by simp
qed

lemma GetCRField_SetCRField:
  "v < 16 \<Longrightarrow> GetCRField j (SetCRField i v s) = (if i = j then v else GetCRField j s)"
  using cr_table_inverse [of "unat v"] by (simp add: GetCRField_def SetCRField_def word_less_nat_alt)

lemma GetCRField_fold:
  assumes "distinct xs"
  shows "GetCRField j (fold (\<lambda>i s. SetCRField i (f i AND 0xF) s) xs s) = (if j \<in> set xs then f j AND 0xF else GetCRField j s)"
  using assms
proof (induction xs arbitrary: s)
  case (Cons i xs)
  then show ?case by (simp add: GetCRField_SetCRField [OF and_15_lt])
qed simp

lemma GetCRField_ExpandCR: "GetCRField j (ExpandCR cr s) = (if j < 8 then drop_bit (28 - j * 4) cr AND 0xF else GetCRField j s)"
  unfolding ExpandCR_def by (subst GetCRField_fold) auto

text \<open>The bits of a field, most significant first, are the bits of the register.\<close>

lemma cr_index:
  fixes i n t :: nat
  assumes "i < 8" "n = 28 - i * 4 + t" "t < 4"
  shows "7 - n div 4 = i" "n mod 4 = t"
proof -
  have "28 - i * 4 = (7 - i) * 4" by (simp add: diff_mult_distrib)
  then have n: "n = (7 - i) * 4 + t" using assms(2) by simp
  show "7 - n div 4 = i" "n mod 4 = t" unfolding n using assms(1,3) by simp_all
qed

lemma cr_index_inv:
  assumes "n < 32"
  shows "7 - n div 4 < (8 :: nat)" "28 - (7 - n div 4) * 4 + n mod 4 = n"
proof -
  have "n div 4 < 8" using assms by auto
  then have "28 - (7 - n div 4) * 4 = n div 4 * 4" by (simp add: diff_mult_distrib)
  then show "7 - n div 4 < (8 :: nat)" "28 - (7 - n div 4) * 4 + n mod 4 = n" by (simp_all add: mult.commute)
qed

lemma CompactCR_bits:
  assumes "\<And>i. i < 8 \<Longrightarrow> GetCRField i s < 16" "n < 32"
  shows "bit (CompactCR s) n \<longleftrightarrow> bit (GetCRField (7 - n div 4) s) (n mod 4)"
proof -
  have fold: "bit (fold (\<lambda>i cr. cr OR push_bit (28 - i * 4) (GetCRField i s)) is a) n \<longleftrightarrow>
      bit a n \<or> (\<exists>i \<in> set is. 28 - i * 4 \<le> n \<and> bit (GetCRField i s) (n - (28 - i * 4)))" for "is" a
    using assms(2) by (induction "is" arbitrary: a) (auto simp: bit_or_iff bit_push_bit_iff)
  have le: "k < 4" if "i < 8" "bit (GetCRField i s) k" for i k
    using small_bits [OF that(2), of 4] assms(1) [OF that(1)] by (simp add: word_less_nat_alt)
  have "(\<exists>i \<in> set [0..<8]. 28 - i * 4 \<le> n \<and> bit (GetCRField i s) (n - (28 - i * 4))) \<longleftrightarrow>
      bit (GetCRField (7 - n div 4) s) (n mod 4)"
  proof
    assume "\<exists>i \<in> set [0..<8]. 28 - i * 4 \<le> n \<and> bit (GetCRField i s) (n - (28 - i * 4))"
    then obtain i where i: "i < 8" "28 - i * 4 \<le> n" "bit (GetCRField i s) (n - (28 - i * 4))" by auto
    then have t: "n - (28 - i * 4) < 4" using le by blast
    have "7 - n div 4 = i" "n mod 4 = n - (28 - i * 4)" using cr_index [OF i(1) _ t] i(2) by simp_all
    then show "bit (GetCRField (7 - n div 4) s) (n mod 4)" using i(3) by simp
  next
    assume b: "bit (GetCRField (7 - n div 4) s) (n mod 4)"
    have "7 - n div 4 < 8" "28 - (7 - n div 4) * 4 \<le> n" "n - (28 - (7 - n div 4) * 4) = n mod 4"
      using cr_index_inv [OF assms(2)] by linarith+
    then show "\<exists>i \<in> set [0..<8]. 28 - i * 4 \<le> n \<and> bit (GetCRField i s) (n - (28 - i * 4))" using b
      by (intro bexI [of _ "7 - n div 4"]) auto
  qed
  then show ?thesis using fold [of "[0..<8]" 0] by (simp add: CompactCR_def)
qed

theorem CompactCR_ExpandCR: "CompactCR (ExpandCR cr s) = cr"
proof (rule bit_word_eqI)
  fix n assume "n < LENGTH(32)"
  then have n: "n < 32" by simp
  have "bit (CompactCR (ExpandCR cr s)) n \<longleftrightarrow> bit (GetCRField (7 - n div 4) (ExpandCR cr s)) (n mod 4)"
    using n by (intro CompactCR_bits) (simp_all add: GetCRField_ExpandCR and_15_lt)
  also have "\<dots> \<longleftrightarrow> bit cr (28 - (7 - n div 4) * 4 + n mod 4)"
    using cr_index_inv(1) [OF n] by (simp add: GetCRField_ExpandCR bit_and_15 bit_drop_bit_eq)
  also have "28 - (7 - n div 4) * 4 + n mod 4 = n" by (rule cr_index_inv(2) [OF n])
  finally show "bit (CompactCR (ExpandCR cr s)) n = bit cr n" .
qed

lemma internal_to_cr_lt: "internal_to_cr v < 16"
  by (simp add: internal_to_cr_def)

section \<open>Single bits of the condition register\<close>

lemma lt16I: "(\<And>k. bit w k \<Longrightarrow> k < 4) \<Longrightarrow> (w :: u32) < 16"
proof -
  assume b: "\<And>k. bit w k \<Longrightarrow> k < 4"
  have "w = w AND 0xF" by (rule bit_word_eqI) (use b in \<open>auto simp: bit_and_15\<close>)
  then show "w < 16" using and_15_lt [of w] by simp
qed

lemma GetCRField_bit_less: "bit (GetCRField i s) k \<Longrightarrow> k < 4"
  using small_bits [of "GetCRField i s" k 4] internal_to_cr_lt [of "cr_val s i"] by (simp add: GetCRField_def word_less_nat_alt)

lemma GetCRBit_bit: "GetCRBit b s = of_bool (bit (GetCRField (b div 4) s) (3 - b mod 4))"
  by (simp add: GetCRBit_def and_one_eq bit_iff_odd_drop_bit mod_2_eq_odd)

lemma cr_bit_mask: "bit (drop_bit m 8 :: u32) k \<longleftrightarrow> k = 3 - m" if "m < 4"
proof -
  have "m = 0 \<or> m = 1 \<or> m = 2 \<or> m = 3" using that by linarith
  moreover have "bit (2 ^ j :: u32) k \<longleftrightarrow> k = j" if "j < 4" for j using that by (auto simp: bit_exp_iff)
  from this [of 0] this [of 1] this [of 2] this [of 3] have "bit (1 :: u32) k \<longleftrightarrow> k = 0" "bit (2 :: u32) k \<longleftrightarrow> k = 1"
    "bit (4 :: u32) k \<longleftrightarrow> k = 2" "bit (8 :: u32) k \<longleftrightarrow> k = 3" by simp_all
  ultimately show ?thesis by (elim disjE) simp_all
qed

lemma GetCRBit_SetCRBit:
  "GetCRBit b' (SetCRBit b v s) = (if b' = b then v AND 1 else GetCRBit b' s)"
proof -
  define m where "m = b mod 4"
  define F where "F = GetCRField (b div 4) s"
  have m: "m < 4" by (simp add: m_def)
  have lt: "F OR drop_bit m 8 < 16" "F AND NOT (drop_bit m 8) < 16"
    using GetCRField_bit_less m by (auto intro!: lt16I simp: bit_or_iff bit_and_iff cr_bit_mask [OF m] F_def less_imp_diff_less)
  have f: "GetCRField j (SetCRBit b v s) =
      (if b div 4 = j then (if odd v then F OR drop_bit m 8 else F AND NOT (drop_bit m 8)) else GetCRField j s)" for j
  proof -
    have "SetCRBit b v s = SetCRField (b div 4) (if odd v then F OR drop_bit m 8 else F AND NOT (drop_bit m 8)) s"
      by (simp add: SetCRBit_def and_one_eq mod_2_eq_odd m_def F_def)
    then show ?thesis using lt by (simp add: GetCRField_SetCRField)
  qed
  have eq: "b' = b \<longleftrightarrow> b' div 4 = b div 4 \<and> 3 - b' mod 4 = 3 - m"
  proof -
    have "b' mod 4 = b mod 4" if "3 - b' mod 4 = 3 - b mod 4"
      using that mod_less_divisor [of 4 b] mod_less_divisor [of 4 b'] by linarith
    then show ?thesis unfolding m_def by (metis div_mod_decomp)
  qed
  show ?thesis
  proof (cases "b' div 4 = b div 4")
    case True
    then show ?thesis unfolding GetCRBit_bit f using eq
      by (auto simp: bit_or_iff bit_and_iff bit_not_iff cr_bit_mask [OF m] and_one_eq mod_2_eq_odd F_def)
  qed (use eq in \<open>simp add: GetCRBit_bit f\<close>)
qed

end
