(* ===== verification/PPC_MMU.thy ===== *)
theory PPC_MMU
  imports PPC_Registers
begin

text \<open>
  Memory as the CPU sees it, \<^verbatim>\<open>Core/PowerPC/MMU.cpp\<close>: block address translation, page tables behind a two-way
  translation look-aside buffer, loads and stores of one to eight bytes (also across pages), and the
  exceptions of failed translations. The arena behind \<^verbatim>\<open>Memory::physical_base\<close> is one function from physical addresses to
  bytes: \<^verbatim>\<open>physical_regions\<close> (\<^verbatim>\<open>Memmap.cpp\<close>) places \<^verbatim>\<open>m_pRAM\<close>, \<^verbatim>\<open>m_pEXRAM\<close>, \<^verbatim>\<open>m_pFakeVMEM\<close> and \<^verbatim>\<open>m_pL1Cache\<close> in it at 0,
  \<open>0x10000000\<close>, \<open>0x7E000000\<close> and \<open>0xE0000000\<close>. A copy through \<^verbatim>\<open>memcpy\<close> and a byte swap, on the little-endian host, is an
  access in the CPU's byte order. Frame buffer, gather pipe and device registers are reached through the two
  functions of a \<open>Bus\<close>. The host has 64-bit addresses.
\<close>

section \<open>State\<close>

record TLBEntry =
  tlb_tag :: "nat \<Rightarrow> u32"
  tlb_paddr :: "nat \<Rightarrow> u32"
  tlb_pte :: "nat \<Rightarrow> u32"
  tlb_recent :: u8

record TMemCheck =
  start_address :: u32
  end_address :: u32
  is_break_on_read :: bool
  is_break_on_write :: bool
  break_on_hit :: bool
  num_hits :: nat

record MMU_State = CPU_State +
  tlb :: "bool \<Rightarrow> nat \<Rightarrow> TLBEntry"
  pagetable_base :: u32
  pagetable_hashmask :: u32
  ibat_table :: "nat \<Rightarrow> u32"
  dbat_table :: "nat \<Rightarrow> u32"
  physical_base :: "u32 \<Rightarrow> u8"
  m_pEXRAM :: bool
  m_pFakeVMEM :: bool
  bMMU :: bool
  bWii :: bool
  m_mem_checks :: "TMemCheck list"
  cpu_stepping :: bool
  cpu_break :: bool
  panics :: nat

record 'st Bus =
  bus_read :: "nat \<Rightarrow> u32 \<Rightarrow> 'st \<Rightarrow> u64 \<times> 'st"
  bus_write :: "nat \<Rightarrow> u32 \<Rightarrow> u64 \<Rightarrow> 'st \<Rightarrow> 'st"

datatype XCheckTLBFlag = NoException | Read | Write | Opcode | OpcodeNoException

definition IsOpcodeFlag :: "XCheckTLBFlag \<Rightarrow> bool" where
  "IsOpcodeFlag flag \<longleftrightarrow> flag = Opcode \<or> flag = OpcodeNoException"

definition IsNoExceptionFlag :: "XCheckTLBFlag \<Rightarrow> bool" where
  "IsNoExceptionFlag flag \<longleftrightarrow> flag = NoException \<or> flag = OpcodeNoException"

text \<open>\<^verbatim>\<open>TranslateAddressResult\<close>: a kind with an address where there is one.\<close>

datatype TranslateAddressResult =
  BAT_TRANSLATED u32 | PAGE_TABLE_TRANSLATED u32 | DIRECT_STORE_SEGMENT | PAGE_FAULT

fun tr_address :: "TranslateAddressResult \<Rightarrow> u32 option" where
  "tr_address (BAT_TRANSLATED a) = Some a"
| "tr_address (PAGE_TABLE_TRANSLATED a) = Some a"
| "tr_address _ = None"

abbreviation (input) SPR_DSISR :: nat where "SPR_DSISR \<equiv> 18"
abbreviation (input) SPR_DAR :: nat where "SPR_DAR \<equiv> 19"
abbreviation (input) SPR_SDR :: nat where "SPR_SDR \<equiv> 25"
abbreviation (input) SPR_IBAT0U :: nat where "SPR_IBAT0U \<equiv> 528"
abbreviation (input) SPR_DBAT0U :: nat where "SPR_DBAT0U \<equiv> 536"
abbreviation (input) SPR_IBAT4U :: nat where "SPR_IBAT4U \<equiv> 560"
abbreviation (input) SPR_DBAT4U :: nat where "SPR_DBAT4U \<equiv> 568"
abbreviation (input) SPR_HID4 :: nat where "SPR_HID4 \<equiv> 1011"

abbreviation (input) REALRAM_SIZE :: u32 where "REALRAM_SIZE \<equiv> 0x01800000"
abbreviation (input) RAM_MASK :: u32 where "RAM_MASK \<equiv> 0x01FFFFFF"
abbreviation (input) FAKEVMEM_MASK :: u32 where "FAKEVMEM_MASK \<equiv> 0x01FFFFFF"
abbreviation (input) EXRAM_SIZE :: u32 where "EXRAM_SIZE \<equiv> 0x04000000"
abbreviation (input) L1_CACHE_END :: u32 where "L1_CACHE_END \<equiv> 0xE0040000"

abbreviation MSR_DR :: "'a PowerPCState_scheme \<Rightarrow> bool" where "MSR_DR s \<equiv> bit (ppc_msr s) 4"
abbreviation MSR_IR :: "'a PowerPCState_scheme \<Rightarrow> bool" where "MSR_IR s \<equiv> bit (ppc_msr s) 5"

definition set_spr :: "nat \<Rightarrow> u32 \<Rightarrow> 'a CPU_State_scheme \<Rightarrow> 'a CPU_State_scheme" where
  "set_spr i v s = s\<lparr>spr := (spr s)(i := v)\<rparr>"

section \<open>Bytes\<close>

definition read_be :: "nat \<Rightarrow> u32 \<Rightarrow> (u32 \<Rightarrow> u8) \<Rightarrow> u64" where
  "read_be n a mem = fold (\<lambda>i v. push_bit 8 v OR ucast (mem (a + of_nat i))) [0..<n] 0"

definition write_be :: "nat \<Rightarrow> u32 \<Rightarrow> u64 \<Rightarrow> (u32 \<Rightarrow> u8) \<Rightarrow> u32 \<Rightarrow> u8" where
  "write_be n a v mem = fold (\<lambda>i m. m(a + of_nat i := ucast (drop_bit (8 * (n - 1 - i)) v))) [0..<n] mem"

section \<open>Memory checks\<close>

definition GetMemCheck :: "u32 \<Rightarrow> nat \<Rightarrow> TMemCheck list \<Rightarrow> TMemCheck option" where
  "GetMemCheck address sz mcs =
    List.find (\<lambda>mc. address \<le> end_address mc \<and> unat (start_address mc) \<le> unat address + sz - 1) mcs"

definition OverlapsMemcheck :: "u32 \<Rightarrow> u32 \<Rightarrow> TMemCheck list \<Rightarrow> bool" where
  "OverlapsMemcheck address len mcs =
    (let page_end_suffix = len - 1;
         page_end_address = address OR page_end_suffix
     in list_ex (\<lambda>mc. (start_address mc OR page_end_suffix = page_end_address \<or>
                       end_address mc OR page_end_suffix = page_end_address) \<or>
                      (start_address mc OR page_end_suffix < page_end_address \<and>
                       page_end_address < end_address mc OR page_end_suffix)) mcs)"

definition Action :: "bool \<Rightarrow> TMemCheck \<Rightarrow> bool" where
  "Action write mc \<longleftrightarrow> (write \<and> is_break_on_write mc \<or> \<not> write \<and> is_break_on_read mc) \<and> break_on_hit mc"

definition Memcheck :: "u32 \<Rightarrow> bool \<Rightarrow> nat \<Rightarrow> 'a MMU_State_scheme \<Rightarrow> 'a MMU_State_scheme" where
  "Memcheck address write sz s =
    (case GetMemCheck address sz (m_mem_checks s) of
       None \<Rightarrow> s
     | Some mc \<Rightarrow>
         if cpu_stepping s then s
         else let s1 = s\<lparr>m_mem_checks := list_update (m_mem_checks s)
                     (length (takeWhile (\<lambda>m. m \<noteq> mc) (m_mem_checks s))) (mc\<lparr>num_hits := num_hits mc + 1\<rparr>)\<rparr>
              in if Action write mc
                 then s1\<lparr>cpu_break := True,
                        ppc_Exceptions := ppc_Exceptions s1 OR (EXCEPTION_DSI OR EXCEPTION_FAKE_MEMCHECK_HIT)\<rparr>
                 else s1)"

section \<open>Exceptions\<close>

definition GenerateDSIException :: "u32 \<Rightarrow> bool \<Rightarrow> 'a MMU_State_scheme \<Rightarrow> 'a MMU_State_scheme" where
  "GenerateDSIException effective_address write s =
    (if \<not> bMMU s then s\<lparr>panics := panics s + 1\<rparr>
     else let dsisr = (if effective_address \<noteq> 0 then 0x42000000 else 0x40000000);
              s1 = set_spr SPR_DAR effective_address (set_spr SPR_DSISR dsisr s)
          in s1\<lparr>ppc_Exceptions := ppc_Exceptions s1 OR EXCEPTION_DSI\<rparr>)"

definition GenerateISIException :: "u32 \<Rightarrow> 'a MMU_State_scheme \<Rightarrow> 'a MMU_State_scheme" where
  "GenerateISIException effective_address s =
    s\<lparr>ppc_npc := effective_address, ppc_Exceptions := ppc_Exceptions s OR EXCEPTION_ISI\<rparr>"

section \<open>Block address translation\<close>

definition IsValidLowMask :: "u32 \<Rightarrow> bool" where
  "IsValidLowMask m \<longleftrightarrow> m AND (m + 1) = 0"

definition SDRUpdated :: "'a MMU_State_scheme \<Rightarrow> 'a MMU_State_scheme" where
  "SDRUpdated s =
    (let htabmask = spr s SPR_SDR AND 0x1FF;
         htaborg = drop_bit 16 (spr s SPR_SDR) AND 0xFFFF
     in if \<not> IsValidLowMask htabmask then s
        else if htaborg AND htabmask \<noteq> 0 then s
        else s\<lparr>pagetable_base := push_bit 16 htaborg, pagetable_hashmask := push_bit 10 htabmask OR 0x3FF\<rparr>)"

abbreviation (input) bat_VP :: "u32 \<Rightarrow> bool" where "bat_VP u \<equiv> bit u 0"
abbreviation (input) bat_VS :: "u32 \<Rightarrow> bool" where "bat_VS u \<equiv> bit u 1"

definition bat_BL :: "u32 \<Rightarrow> u32" where "bat_BL u = take_bit 11 (drop_bit 2 u)"
definition bat_BEPI :: "u32 \<Rightarrow> u32" where "bat_BEPI u = drop_bit 17 u"
definition bat_BRPN :: "u32 \<Rightarrow> u32" where "bat_BRPN l = drop_bit 17 l"

text \<open>The body of the loop over \<open>j\<close>: the entry for one 128 KB block.\<close>

definition bat_valid_bit :: "u32 \<Rightarrow> u32 \<Rightarrow> 'a MMU_State_scheme \<Rightarrow> u32" where
  "bat_valid_bit virtual_address physical_address s =
    (let physical =
        (if m_pFakeVMEM s \<and> physical_address AND 0xFE000000 = 0x7E000000 then True
         else if physical_address < REALRAM_SIZE then True
         else if m_pEXRAM s \<and> drop_bit 28 physical_address = 1 \<and> physical_address AND 0x0FFFFFFF < EXRAM_SIZE then True
         else drop_bit 28 physical_address = 0xE \<and> physical_address < L1_CACHE_END)
     in if physical \<and> \<not> OverlapsMemcheck virtual_address 0x20000 (m_mem_checks s) then 3 else 1)"

definition bat_set_block :: "u32 \<Rightarrow> u32 \<Rightarrow> 'a MMU_State_scheme \<Rightarrow> u32 \<Rightarrow> (nat \<Rightarrow> u32) \<Rightarrow> nat \<Rightarrow> u32" where
  "bat_set_block batu batl s j bat_table =
    (if j AND bat_BL batu = j then
       (let physical_address = push_bit 17 (bat_BRPN batl OR j);
            virtual_address = push_bit 17 (bat_BEPI batu OR j)
        in bat_table(unat (drop_bit 17 virtual_address) :=
             physical_address OR bat_valid_bit virtual_address physical_address s))
     else bat_table)"

definition update_bat :: "u32 \<Rightarrow> u32 \<Rightarrow> 'a MMU_State_scheme \<Rightarrow> (nat \<Rightarrow> u32) \<Rightarrow> nat \<Rightarrow> u32" where
  "update_bat batu batl s bat_table =
    (if \<not> bat_VS batu \<and> \<not> bat_VP batu then bat_table
     else if bat_BEPI batu AND bat_BL batu \<noteq> 0 then bat_table
     else fold (\<lambda>j. bat_set_block batu batl s (of_nat j)) [0..<Suc (unat (bat_BL batu))] bat_table)"

definition UpdateBATs :: "nat \<Rightarrow> 'a MMU_State_scheme \<Rightarrow> (nat \<Rightarrow> u32) \<Rightarrow> nat \<Rightarrow> u32" where
  "UpdateBATs base_spr s bat_table =
    fold (\<lambda>i. update_bat (spr s (base_spr + i * 2)) (spr s (base_spr + i * 2 + 1)) s) [0..<4] bat_table"

definition UpdateFakeMMUBat :: "u32 \<Rightarrow> 'a MMU_State_scheme \<Rightarrow> (nat \<Rightarrow> u32) \<Rightarrow> nat \<Rightarrow> u32" where
  "UpdateFakeMMUBat start_addr s bat_table =
    fold (\<lambda>i t. let e_address = of_nat i + drop_bit 17 start_addr;
                    p_address = 0x7E000000 OR (push_bit 17 (of_nat i) AND FAKEVMEM_MASK);
                    flags = (if OverlapsMemcheck (push_bit 17 e_address) 0x20000 (m_mem_checks s) then 1 else 3)
                in t(unat e_address := p_address OR flags)) [0..<0x800] bat_table"

text \<open>The tables as the two update functions leave them.\<close>

definition build_bats :: "nat \<Rightarrow> nat \<Rightarrow> 'a MMU_State_scheme \<Rightarrow> nat \<Rightarrow> u32" where
  "build_bats base base_ext s =
    (let t1 = UpdateBATs base s (\<lambda>_. 0);
         t2 = (if bWii s \<and> bit (spr s SPR_HID4) 25 then UpdateBATs base_ext s t1 else t1)
     in if m_pFakeVMEM s then UpdateFakeMMUBat 0x70000000 s (UpdateFakeMMUBat 0x40000000 s t2) else t2)"

definition DBATUpdated :: "'a MMU_State_scheme \<Rightarrow> 'a MMU_State_scheme" where
  "DBATUpdated s = s\<lparr>dbat_table := build_bats SPR_DBAT0U SPR_DBAT4U s\<rparr>"

definition IBATUpdated :: "'a MMU_State_scheme \<Rightarrow> 'a MMU_State_scheme" where
  "IBATUpdated s = s\<lparr>ibat_table := build_bats SPR_IBAT0U SPR_IBAT4U s\<rparr>"

definition TranslateBatAddess :: "(nat \<Rightarrow> u32) \<Rightarrow> u32 \<Rightarrow> u32 option" where
  "TranslateBatAddess bat_table address =
    (let bat_result = bat_table (unat (drop_bit 17 address))
     in if \<not> bit bat_result 0 then None
        else Some ((bat_result AND NOT 3) OR (address AND 0x1FFFF)))"

section \<open>Page translation\<close>

abbreviation (input) INVALID_TAG :: u32 where "INVALID_TAG \<equiv> 0xFFFFFFFF"

datatype TLBLookupResult = Found u32 | NotFound | UpdateC

definition set_tlb :: "bool \<Rightarrow> nat \<Rightarrow> TLBEntry \<Rightarrow> 'a MMU_State_scheme \<Rightarrow> 'a MMU_State_scheme" where
  "set_tlb f k e s = s\<lparr>tlb := (tlb s)(f := (tlb s f)(k := e))\<rparr>"

definition tlb_index :: "u32 \<Rightarrow> nat" where
  "tlb_index address = unat (drop_bit 12 address AND 0x3F)"

text \<open>One of the two ways of an entry, whose tag has matched.\<close>

definition lookup_way :: "XCheckTLBFlag \<Rightarrow> u32 \<Rightarrow> nat \<Rightarrow> 'a MMU_State_scheme \<Rightarrow> TLBLookupResult \<times> 'a MMU_State_scheme" where
  "lookup_way flag vpa w s =
    (let f = IsOpcodeFlag flag; k = tlb_index vpa; tlbe = tlb s f k
     in if flag = Write \<and> \<not> bit (tlb_pte tlbe w) 7
        then (UpdateC, set_tlb f k (tlbe\<lparr>tlb_pte := (tlb_pte tlbe)(w := tlb_pte tlbe w OR 0x80)\<rparr>) s)
        else (Found (tlb_paddr tlbe w OR (vpa AND 0xFFF)),
              if IsNoExceptionFlag flag then s else set_tlb f k (tlbe\<lparr>tlb_recent := of_nat w\<rparr>) s))"

definition LookupTLBPageAddress :: "XCheckTLBFlag \<Rightarrow> u32 \<Rightarrow> 'a MMU_State_scheme \<Rightarrow> TLBLookupResult \<times> 'a MMU_State_scheme" where
  "LookupTLBPageAddress flag vpa s =
    (let tag = drop_bit 12 vpa; tlbe = tlb s (IsOpcodeFlag flag) (tlb_index vpa)
     in if tlb_tag tlbe 0 = tag then lookup_way flag vpa 0 s
        else if tlb_tag tlbe 1 = tag then lookup_way flag vpa 1 s
        else (NotFound, s))"

abbreviation (input) pte2_RPN :: "u32 \<Rightarrow> u32" where "pte2_RPN p \<equiv> drop_bit 12 p"

definition UpdateTLBEntry :: "XCheckTLBFlag \<Rightarrow> u32 \<Rightarrow> u32 \<Rightarrow> 'a MMU_State_scheme \<Rightarrow> 'a MMU_State_scheme" where
  "UpdateTLBEntry flag PTE2 address s =
    (if IsNoExceptionFlag flag then s
     else let f = IsOpcodeFlag flag; k = tlb_index address; tlbe = tlb s f k;
              index = (if tlb_recent tlbe = 0 \<and> tlb_tag tlbe 0 \<noteq> INVALID_TAG then 1 else 0)
          in set_tlb f k (tlbe\<lparr>tlb_recent := of_nat index,
               tlb_paddr := (tlb_paddr tlbe)(index := push_bit 12 (pte2_RPN PTE2)),
               tlb_pte := (tlb_pte tlbe)(index := PTE2),
               tlb_tag := (tlb_tag tlbe)(index := drop_bit 12 address)\<rparr>) s)"

definition invalid_entry :: "TLBEntry \<Rightarrow> TLBEntry" where
  "invalid_entry e = e\<lparr>tlb_tag := (tlb_tag e)(0 := INVALID_TAG, 1 := INVALID_TAG)\<rparr>"

definition InvalidateTLBEntry :: "u32 \<Rightarrow> 'a MMU_State_scheme \<Rightarrow> 'a MMU_State_scheme" where
  "InvalidateTLBEntry address s =
    (let k = tlb_index address;
         s1 = set_tlb False k (invalid_entry (tlb s False k)) s
     in set_tlb True k (invalid_entry (tlb s1 True k)) s1)"

text \<open>The loop over the eight entries of a group; the comparison is of byte-swapped words in the source.\<close>

fun search_pteg :: "u32 \<Rightarrow> u32 \<Rightarrow> nat \<Rightarrow> (u32 \<Rightarrow> u8) \<Rightarrow> u32 option" where
  "search_pteg pte1 pteg_addr 0 mem = None"
| "search_pteg pte1 pteg_addr (Suc n) mem =
    (if ucast pte1 = read_be 4 pteg_addr mem then Some pteg_addr else search_pteg pte1 (pteg_addr + 8) n mem)"

definition pteg_address :: "u32 \<Rightarrow> 'a MMU_State_scheme \<Rightarrow> u32" where
  "pteg_address hash s = push_bit 6 (hash AND pagetable_hashmask s) OR pagetable_base s"

text \<open>Both hash functions: the primary group, then the secondary one with the H bit in the entry.\<close>

definition find_pte :: "u32 \<Rightarrow> u32 \<Rightarrow> 'a MMU_State_scheme \<Rightarrow> u32 option" where
  "find_pte address vsid_api s =
    (let page_index = drop_bit 12 address AND 0xFFFF;
         VSID = vsid_api AND 0xFFFFFF;
         api = drop_bit 22 address AND 0x3F;
         hash = VSID XOR page_index;
         pte1 = push_bit 7 VSID OR api OR push_bit 31 1
     in case search_pteg pte1 (pteg_address hash s) 8 (physical_base s) of
          Some a \<Rightarrow> Some a
        | None \<Rightarrow> search_pteg (pte1 OR 0x40) (pteg_address (NOT hash) s) 8 (physical_base s))"

definition access_bits :: "XCheckTLBFlag \<Rightarrow> u32 \<Rightarrow> u32" where
  "access_bits flag PTE2 =
    (case flag of NoException \<Rightarrow> PTE2 | OpcodeNoException \<Rightarrow> PTE2
     | Read \<Rightarrow> PTE2 OR 0x100 | Write \<Rightarrow> PTE2 OR 0x100 OR 0x80 | Opcode \<Rightarrow> PTE2 OR 0x100)"

definition TranslatePageAddress ::
  "u32 \<Rightarrow> XCheckTLBFlag \<Rightarrow> 'a MMU_State_scheme \<Rightarrow> TranslateAddressResult \<times> 'a MMU_State_scheme" where
  "TranslatePageAddress address flag s0 =
    (case LookupTLBPageAddress flag address s0 of
       (Found translatedAddress, s) \<Rightarrow> (PAGE_TABLE_TRANSLATED translatedAddress, s)
     | (res, s) \<Rightarrow>
         let sr = sr s (unat (drop_bit 28 address AND 0xF))
         in if bit sr 31 then (DIRECT_STORE_SEGMENT, s)
            else if IsOpcodeFlag flag \<and> bit sr 28 then (PAGE_FAULT, s)
            else (case find_pte address sr s of
                    None \<Rightarrow> (PAGE_FAULT, s)
                  | Some pteg_addr \<Rightarrow>
                      let PTE2 = access_bits flag (ucast (read_be 4 (pteg_addr + 4) (physical_base s)));
                          s1 = (if IsNoExceptionFlag flag then s
                                else s\<lparr>physical_base := write_be 4 (pteg_addr + 4) (ucast PTE2) (physical_base s)\<rparr>);
                          s2 = (if res \<noteq> UpdateC then UpdateTLBEntry flag PTE2 address s1 else s1)
                      in (PAGE_TABLE_TRANSLATED (push_bit 12 (pte2_RPN PTE2) OR (address AND 0xFFF)), s2)))"

definition TranslateAddress ::
  "XCheckTLBFlag \<Rightarrow> u32 \<Rightarrow> 'a MMU_State_scheme \<Rightarrow> TranslateAddressResult \<times> 'a MMU_State_scheme" where
  "TranslateAddress flag address s =
    (case TranslateBatAddess (if IsOpcodeFlag flag then ibat_table s else dbat_table s) address of
       Some a \<Rightarrow> (BAT_TRANSLATED a, s)
     | None \<Rightarrow> TranslatePageAddress address flag s)"

section \<open>Loads and stores\<close>

text \<open>The second half of \<^verbatim>\<open>ReadFromHardware\<close>, on a physical address: its instance with \<^verbatim>\<open>never_translate\<close>.\<close>

definition ram_index :: "u32 \<Rightarrow> 'a MMU_State_scheme \<Rightarrow> u32 option" where
  "ram_index em_address s =
    (if em_address AND 0xF8000000 = 0 then Some (em_address AND RAM_MASK)
     else if m_pEXRAM s \<and> drop_bit 28 em_address = 1 \<and> em_address AND 0x0FFFFFFF < EXRAM_SIZE
     then Some (0x10000000 + (em_address AND 0x0FFFFFFF))
     else if drop_bit 28 em_address = 0xE \<and> em_address < L1_CACHE_END
     then Some (0xE0000000 + (em_address AND 0x0FFFFFFF))
     else if m_pFakeVMEM s \<and> em_address AND 0xFE000000 = 0x7E000000
     then Some (0x7E000000 + (em_address AND RAM_MASK))
     else None)"

definition read_physical ::
  "'a MMU_State_scheme Bus \<Rightarrow> XCheckTLBFlag \<Rightarrow> nat \<Rightarrow> u32 \<Rightarrow> 'a MMU_State_scheme \<Rightarrow> u64 \<times> 'a MMU_State_scheme" where
  "read_physical bus flag n em_address s =
    (case ram_index em_address s of
       Some i \<Rightarrow> (read_be n i (physical_base s), s)
     | None \<Rightarrow>
         if flag = Read \<and> em_address AND 0xF8000000 = 0x08000000
         then (let (v, s1) = bus_read bus n em_address s in (take_bit (8 * n) v, s1))
         else (0, s\<lparr>panics := panics s + 1\<rparr>))"

text \<open>
  The loop of a read across two pages: its bound is a 64-bit sum and its counter a 32-bit one, so it may not end.
\<close>

partial_function (option) read_pages ::
  "'a MMU_State_scheme Bus \<Rightarrow> XCheckTLBFlag \<Rightarrow> nat \<Rightarrow> u32 \<Rightarrow> u32 \<Rightarrow> u32 \<Rightarrow> u32 \<Rightarrow> u64 \<Rightarrow> 'a MMU_State_scheme
    \<Rightarrow> (u64 \<times> 'a MMU_State_scheme) option" where
  "read_pages bus flag limit next_page next_addr addr addr_translated var s =
    (if unat addr < limit then
       (let addr_translated = (if addr = next_page then next_addr else addr_translated);
            (b, s1) = read_physical bus flag 1 addr_translated s
        in read_pages bus flag limit next_page next_addr (addr + 1) (addr_translated + 1) (push_bit 8 var OR b) s1)
     else Some (var, s))"

declare read_pages.simps [code]

definition ReadFromHardware ::
  "'a MMU_State_scheme Bus \<Rightarrow> XCheckTLBFlag \<Rightarrow> nat \<Rightarrow> u32 \<Rightarrow> 'a MMU_State_scheme \<Rightarrow> (u64 \<times> 'a MMU_State_scheme) option" where
  "ReadFromHardware bus flag n em_address s =
    (if MSR_DR s then
       (case TranslateAddress flag em_address s of
          (r, s1) \<Rightarrow>
            case tr_address r of
              None \<Rightarrow> Some (0, if flag = Read then GenerateDSIException em_address False s1 else s1)
            | Some a \<Rightarrow>
                if unat (em_address AND 0xFFF) > 4096 - n then
                  (let next_page = of_nat (unat em_address + n - 1) AND NOT 0xFFF
                   in case TranslateAddress flag next_page s1 of
                        (r2, s2) \<Rightarrow>
                          case tr_address r2 of
                            None \<Rightarrow> Some (0, if flag = Read then GenerateDSIException next_page False s2 else s2)
                          | Some a2 \<Rightarrow>
                              map_option (\<lambda>(v, s3). (take_bit (8 * n) v, s3))
                                (read_pages bus flag (unat em_address + n) next_page a2 em_address a 0 s2))
                else Some (read_physical bus flag n a s1))
     else Some (read_physical bus flag n em_address s))"

definition write_physical ::
  "'a MMU_State_scheme Bus \<Rightarrow> XCheckTLBFlag \<Rightarrow> nat \<Rightarrow> u32 \<Rightarrow> u64 \<Rightarrow> 'a MMU_State_scheme \<Rightarrow> 'a MMU_State_scheme" where
  "write_physical bus flag n em_address v s =
    (case ram_index em_address s of
       Some i \<Rightarrow> s\<lparr>physical_base := write_be n i v (physical_base s)\<rparr>
     | None \<Rightarrow>
         if flag = Write \<and> em_address AND 0xF8000000 = 0x08000000
         then bus_write bus n em_address (take_bit (8 * n) v) s
         else s\<lparr>panics := panics s + 1\<rparr>)"

text \<open>
  The loop of a write across two pages, from byte \<open>i\<close> with the address it has reached. The sum with \<^verbatim>\<open>em_address\<close> is one of
  64 bits.
\<close>

function write_pages ::
  "'a MMU_State_scheme Bus \<Rightarrow> XCheckTLBFlag \<Rightarrow> nat \<Rightarrow> u32 \<Rightarrow> u64 \<Rightarrow> u32 \<Rightarrow> u32 \<Rightarrow> nat \<Rightarrow> u32 \<Rightarrow> 'a MMU_State_scheme
    \<Rightarrow> 'a MMU_State_scheme" where
  "write_pages bus flag n em_address v next_page next_addr i addr_translated s =
    (if i < n then
       (let addr_translated = (if unat em_address + i = unat next_page then next_addr else addr_translated)
        in write_pages bus flag n em_address v next_page next_addr (i + 1) (addr_translated + 1)
             (write_physical bus flag 1 addr_translated (take_bit 8 (drop_bit (8 * (n - 1 - i)) v)) s))
     else s)"
  by pat_completeness auto
termination
  by (relation "measure (\<lambda>(bus, flag, n, em, v, np, na, i, a, s). n - i)") auto

declare write_pages.simps [simp del]

definition WriteToHardware ::
  "'a MMU_State_scheme Bus \<Rightarrow> XCheckTLBFlag \<Rightarrow> nat \<Rightarrow> u32 \<Rightarrow> u64 \<Rightarrow> 'a MMU_State_scheme \<Rightarrow> 'a MMU_State_scheme" where
  "WriteToHardware bus flag n em_address v s =
    (if MSR_DR s then
       (case TranslateAddress flag em_address s of
          (r, s1) \<Rightarrow>
            case tr_address r of
              None \<Rightarrow> if flag = Write then GenerateDSIException em_address True s1 else s1
            | Some a \<Rightarrow>
                if unat em_address mod n \<noteq> 0 \<and> unat (em_address AND 0xFFF) > 4096 - n then
                  (let next_page = of_nat (unat em_address + n - 1) AND NOT 0xFFF
                   in case TranslateAddress flag next_page s1 of
                        (r2, s2) \<Rightarrow>
                          case tr_address r2 of
                            None \<Rightarrow> if flag = Write then GenerateDSIException next_page True s2 else s2
                          | Some a2 \<Rightarrow> write_pages bus flag n em_address v next_page a2 0 a s2)
                else write_physical bus flag n a v s1)
     else write_physical bus flag n em_address v s)"

text \<open>\<^verbatim>\<open>Read_U8\<close> to \<^verbatim>\<open>Read_U64\<close> and \<^verbatim>\<open>Write_U8\<close> to \<^verbatim>\<open>Write_U64\<close>, by size.\<close>

definition Read_U ::
  "'a MMU_State_scheme Bus \<Rightarrow> nat \<Rightarrow> u32 \<Rightarrow> 'a MMU_State_scheme \<Rightarrow> (u64 \<times> 'a MMU_State_scheme) option" where
  "Read_U bus n address s =
    map_option (\<lambda>(v, s1). (v, Memcheck address False n s1)) (ReadFromHardware bus Read n address s)"

definition Write_U ::
  "'a MMU_State_scheme Bus \<Rightarrow> nat \<Rightarrow> u64 \<Rightarrow> u32 \<Rightarrow> 'a MMU_State_scheme \<Rightarrow> 'a MMU_State_scheme" where
  "Write_U bus n v address s = WriteToHardware bus Write n address v (Memcheck address True n s)"

definition IsOptimizableRAMAddress :: "u32 \<Rightarrow> 'a MMU_State_scheme \<Rightarrow> bool" where
  "IsOptimizableRAMAddress address s \<longleftrightarrow>
    m_mem_checks s = [] \<and> MSR_DR s \<and> bit (dbat_table s (unat (drop_bit 17 address))) 1"

definition IsRAMAddress :: "XCheckTLBFlag \<Rightarrow> u32 \<Rightarrow> bool \<Rightarrow> 'a MMU_State_scheme \<Rightarrow> bool \<times> 'a MMU_State_scheme" where
  "IsRAMAddress flag address translate s =
    (let (a, s1) = (if translate then (let (r, s1) = TranslateAddress flag address s in (tr_address r, s1)) else (Some address, s))
     in case a of
          None \<Rightarrow> (False, s1)
        | Some p \<Rightarrow>
            (let segment = drop_bit 28 p
             in if segment = 0 \<and> p AND 0x0FFFFFFF < REALRAM_SIZE then True
                else if m_pEXRAM s \<and> segment = 1 \<and> p AND 0x0FFFFFFF < EXRAM_SIZE then True
                else if m_pFakeVMEM s \<and> p AND 0xFE000000 = 0x7E000000 then True
                else segment = 0xE \<and> p < L1_CACHE_END, s1))"

text \<open>\<^verbatim>\<open>dcbz\<close> on a line of 32 bytes.\<close>

definition ClearCacheLine :: "'a MMU_State_scheme Bus \<Rightarrow> u32 \<Rightarrow> 'a MMU_State_scheme \<Rightarrow> 'a MMU_State_scheme" where
  "ClearCacheLine bus address s =
    (let clear = (\<lambda>a s. fold (\<lambda>i. write_physical bus Write 8 (a + of_nat (8 * i)) 0) [0..<4] s)
     in if MSR_DR s then
          (case TranslateAddress Write address s of
             (DIRECT_STORE_SEGMENT, s1) \<Rightarrow> s1
           | (PAGE_FAULT, s1) \<Rightarrow> GenerateDSIException address True s1
           | (BAT_TRANSLATED a, s1) \<Rightarrow> clear a s1
           | (PAGE_TABLE_TRANSLATED a, s1) \<Rightarrow> clear a s1)
        else clear address s)"

end
