(* ===== verification/PPC_Integer.thy ===== *)
theory PPC_Integer
  imports PPC_Registers
begin

text \<open>
  The integer instructions of the CPU interpreter, \<^verbatim>\<open>Interpreter_Integer.cpp\<close>: one definition per instruction. Signed
  arithmetic of the source is that of two's complement words. The theorems compare each group with exact integer
  arithmetic: carries, overflow, doubleword sums, comparisons, rotates, shifts, products, quotients.
\<close>

section \<open>Helpers\<close>

definition Helper_UpdateCR0 :: "u32 \<Rightarrow> 'a CPU_State_scheme \<Rightarrow> 'a CPU_State_scheme" where
  "Helper_UpdateCR0 value s =
    (let cr = (scast value :: u64)
     in s\<lparr>cr_val := (cr_val s)(0 := (cr AND NOT (push_bit 61 1)) OR push_bit 61 (ucast (GetXER_SO s)))\<rparr>)"

definition Helper_Carry :: "u32 \<Rightarrow> u32 \<Rightarrow> bool" where
  "Helper_Carry value1 value2 \<longleftrightarrow> value2 > NOT value1"

definition HasAddOverflowed :: "u32 \<Rightarrow> u32 \<Rightarrow> u32 \<Rightarrow> bool" where
  "HasAddOverflowed x y r \<longleftrightarrow> drop_bit 31 ((x XOR r) AND (y XOR r)) \<noteq> 0"

text \<open>The tails \<^verbatim>\<open>if (inst.Rc)\<close> and \<^verbatim>\<open>if (inst.OE)\<close>.\<close>

definition record_cr0 :: "u32 \<Rightarrow> u32 \<Rightarrow> 'a CPU_State_scheme \<Rightarrow> 'a CPU_State_scheme" where
  "record_cr0 inst v s = (if Rc inst then Helper_UpdateCR0 v s else s)"

definition record_ov :: "u32 \<Rightarrow> bool \<Rightarrow> 'a CPU_State_scheme \<Rightarrow> 'a CPU_State_scheme" where
  "record_ov inst b s = (if OE inst then SetXER_OV b s else s)"

definition MakeRotationMask :: "nat \<Rightarrow> nat \<Rightarrow> u32" where
  "MakeRotationMask mb me =
    (let begin_mask = drop_bit mb 0xFFFFFFFF;
         end_mask = drop_bit me 0x7FFFFFFF;
         mask = begin_mask XOR end_mask
     in if me < mb then NOT mask else mask)"

definition RotateLeft :: "u32 \<Rightarrow> nat \<Rightarrow> u32" where
  "RotateLeft value amount =
    (let a = amount mod 32 in if a = 0 then value else push_bit a value OR drop_bit (32 - a) value)"

section \<open>Immediate instructions\<close>

definition addi :: "u32 \<Rightarrow> 'a CPU_State_scheme \<Rightarrow> 'a CPU_State_scheme" where
  "addi inst s =
    (if RA inst \<noteq> 0 then set_gpr (RD inst) (gpr s (RA inst) + SIMM_16 inst) s
     else set_gpr (RD inst) (SIMM_16 inst) s)"

definition addic :: "u32 \<Rightarrow> 'a CPU_State_scheme \<Rightarrow> 'a CPU_State_scheme" where
  "addic inst s =
    (let a = gpr s (RA inst); imm = SIMM_16 inst
     in SetCarry (Helper_Carry a imm) (set_gpr (RD inst) (a + imm) s))"

definition addic_rc :: "u32 \<Rightarrow> 'a CPU_State_scheme \<Rightarrow> 'a CPU_State_scheme" where
  "addic_rc inst s =
    (let s1 = addic inst s in Helper_UpdateCR0 (gpr s1 (RD inst)) s1)"

definition addis :: "u32 \<Rightarrow> 'a CPU_State_scheme \<Rightarrow> 'a CPU_State_scheme" where
  "addis inst s =
    (if RA inst \<noteq> 0 then set_gpr (RD inst) (gpr s (RA inst) + push_bit 16 (SIMM_16 inst)) s
     else set_gpr (RD inst) (push_bit 16 (SIMM_16 inst)) s)"

definition andi_rc :: "u32 \<Rightarrow> 'a CPU_State_scheme \<Rightarrow> 'a CPU_State_scheme" where
  "andi_rc inst s =
    (let v = gpr s (RS inst) AND UIMM inst in Helper_UpdateCR0 v (set_gpr (RA inst) v s))"

definition andis_rc :: "u32 \<Rightarrow> 'a CPU_State_scheme \<Rightarrow> 'a CPU_State_scheme" where
  "andis_rc inst s =
    (let v = gpr s (RS inst) AND push_bit 16 (UIMM inst) in Helper_UpdateCR0 v (set_gpr (RA inst) v s))"

text \<open>The comparison that the four compare instructions share, on their operands as integers.\<close>

definition compare :: "nat \<Rightarrow> int \<Rightarrow> int \<Rightarrow> 'a CPU_State_scheme \<Rightarrow> 'a CPU_State_scheme" where
  "compare crf a b s =
    (let f = (if a < b then 0x8 else if a > b then 0x4 else 0x2);
         f1 = (if GetXER_SO s \<noteq> 0 then f OR 0x1 else f)
     in SetCRField crf f1 s)"

definition cmpi :: "u32 \<Rightarrow> 'a CPU_State_scheme \<Rightarrow> 'a CPU_State_scheme" where
  "cmpi inst s = compare (CRFD inst) (sint (gpr s (RA inst))) (sint (SIMM_16 inst)) s"

definition cmpli :: "u32 \<Rightarrow> 'a CPU_State_scheme \<Rightarrow> 'a CPU_State_scheme" where
  "cmpli inst s = compare (CRFD inst) (uint (gpr s (RA inst))) (uint (UIMM inst)) s"

definition mulli :: "u32 \<Rightarrow> 'a CPU_State_scheme \<Rightarrow> 'a CPU_State_scheme" where
  "mulli inst s = set_gpr (RD inst) (gpr s (RA inst) * SIMM_16 inst) s"

definition ori :: "u32 \<Rightarrow> 'a CPU_State_scheme \<Rightarrow> 'a CPU_State_scheme" where
  "ori inst s = set_gpr (RA inst) (gpr s (RS inst) OR UIMM inst) s"

definition oris :: "u32 \<Rightarrow> 'a CPU_State_scheme \<Rightarrow> 'a CPU_State_scheme" where
  "oris inst s = set_gpr (RA inst) (gpr s (RS inst) OR push_bit 16 (UIMM inst)) s"

text \<open>The carry is computed from the register after the result has been written.\<close>

definition subfic :: "u32 \<Rightarrow> 'a CPU_State_scheme \<Rightarrow> 'a CPU_State_scheme" where
  "subfic inst s =
    (let imm = SIMM_16 inst;
         s1 = set_gpr (RD inst) (imm - gpr s (RA inst)) s
     in SetCarry (gpr s1 (RA inst) = 0 \<or> Helper_Carry (0 - gpr s1 (RA inst)) imm) s1)"

definition trap_condition :: "u32 \<Rightarrow> u32 \<Rightarrow> nat \<Rightarrow> bool" where
  "trap_condition a b to \<longleftrightarrow>
    sint a < sint b \<and> bit to 4 \<or> sint a > sint b \<and> bit to 3 \<or> a = b \<and> bit to 2 \<or>
    a < b \<and> bit to 1 \<or> a > b \<and> bit to 0"

definition take_trap :: "'a CPU_State_scheme \<Rightarrow> 'a CPU_State_scheme" where
  "take_trap s =
    (CheckExceptions (s\<lparr>ppc_Exceptions := ppc_Exceptions s OR EXCEPTION_PROGRAM\<rparr>))\<lparr>ppc_end_block := True\<rparr>"

definition twi :: "u32 \<Rightarrow> 'a CPU_State_scheme \<Rightarrow> 'a CPU_State_scheme" where
  "twi inst s = (if trap_condition (gpr s (RA inst)) (SIMM_16 inst) (TO inst) then take_trap s else s)"

definition xori :: "u32 \<Rightarrow> 'a CPU_State_scheme \<Rightarrow> 'a CPU_State_scheme" where
  "xori inst s = set_gpr (RA inst) (gpr s (RS inst) XOR UIMM inst) s"

definition xoris :: "u32 \<Rightarrow> 'a CPU_State_scheme \<Rightarrow> 'a CPU_State_scheme" where
  "xoris inst s = set_gpr (RA inst) (gpr s (RS inst) XOR push_bit 16 (UIMM inst)) s"

section \<open>Rotates\<close>

text \<open>Writing a result to \<^verbatim>\<open>rA\<close> and recording it.\<close>

definition put_ra :: "u32 \<Rightarrow> u32 \<Rightarrow> 'a CPU_State_scheme \<Rightarrow> 'a CPU_State_scheme" where
  "put_ra inst v s = record_cr0 inst v (set_gpr (RA inst) v s)"

definition rlwimix :: "u32 \<Rightarrow> 'a CPU_State_scheme \<Rightarrow> 'a CPU_State_scheme" where
  "rlwimix inst s =
    (let mask = MakeRotationMask (MB inst) (ME inst)
     in put_ra inst ((gpr s (RA inst) AND NOT mask) OR (RotateLeft (gpr s (RS inst)) (SH inst) AND mask)) s)"

definition rlwinmx :: "u32 \<Rightarrow> 'a CPU_State_scheme \<Rightarrow> 'a CPU_State_scheme" where
  "rlwinmx inst s =
    (let mask = MakeRotationMask (MB inst) (ME inst)
     in put_ra inst (RotateLeft (gpr s (RS inst)) (SH inst) AND mask) s)"

definition rlwnmx :: "u32 \<Rightarrow> 'a CPU_State_scheme \<Rightarrow> 'a CPU_State_scheme" where
  "rlwnmx inst s =
    (let mask = MakeRotationMask (MB inst) (ME inst)
     in put_ra inst (RotateLeft (gpr s (RS inst)) (unat (gpr s (RB inst) AND 0x1F)) AND mask) s)"

section \<open>Logic, compares and shifts\<close>

definition andx :: "u32 \<Rightarrow> 'a CPU_State_scheme \<Rightarrow> 'a CPU_State_scheme" where
  "andx inst s = put_ra inst (gpr s (RS inst) AND gpr s (RB inst)) s"

definition andcx :: "u32 \<Rightarrow> 'a CPU_State_scheme \<Rightarrow> 'a CPU_State_scheme" where
  "andcx inst s = put_ra inst (gpr s (RS inst) AND NOT (gpr s (RB inst))) s"

definition cmp :: "u32 \<Rightarrow> 'a CPU_State_scheme \<Rightarrow> 'a CPU_State_scheme" where
  "cmp inst s = compare (CRFD inst) (sint (gpr s (RA inst))) (sint (gpr s (RB inst))) s"

definition cmpl :: "u32 \<Rightarrow> 'a CPU_State_scheme \<Rightarrow> 'a CPU_State_scheme" where
  "cmpl inst s = compare (CRFD inst) (uint (gpr s (RA inst))) (uint (gpr s (RB inst))) s"

text \<open>The loop of \<^verbatim>\<open>cntlzw\<close>, from round \<open>i\<close> with its mask.\<close>

function count_zeros :: "u32 \<Rightarrow> nat \<Rightarrow> u32 \<Rightarrow> nat" where
  "count_zeros val i mask_bit =
    (if i < 32 then (if val AND mask_bit \<noteq> 0 then i else count_zeros val (i + 1) (drop_bit 1 mask_bit)) else i)"
  by pat_completeness auto
termination
  by (relation "measure (\<lambda>(val, i, m). 32 - i)") auto

declare count_zeros.simps [simp del]

definition cntlzwx :: "u32 \<Rightarrow> 'a CPU_State_scheme \<Rightarrow> 'a CPU_State_scheme" where
  "cntlzwx inst s = put_ra inst (of_nat (count_zeros (gpr s (RS inst)) 0 0x80000000)) s"

definition eqvx :: "u32 \<Rightarrow> 'a CPU_State_scheme \<Rightarrow> 'a CPU_State_scheme" where
  "eqvx inst s = put_ra inst (NOT (gpr s (RS inst) XOR gpr s (RB inst))) s"

definition extsbx :: "u32 \<Rightarrow> 'a CPU_State_scheme \<Rightarrow> 'a CPU_State_scheme" where
  "extsbx inst s = put_ra inst (scast (ucast (gpr s (RS inst)) :: 8 word)) s"

definition extshx :: "u32 \<Rightarrow> 'a CPU_State_scheme \<Rightarrow> 'a CPU_State_scheme" where
  "extshx inst s = put_ra inst (scast (ucast (gpr s (RS inst)) :: 16 word)) s"

definition nandx :: "u32 \<Rightarrow> 'a CPU_State_scheme \<Rightarrow> 'a CPU_State_scheme" where
  "nandx inst s = put_ra inst (NOT (gpr s (RS inst) AND gpr s (RB inst))) s"

definition norx :: "u32 \<Rightarrow> 'a CPU_State_scheme \<Rightarrow> 'a CPU_State_scheme" where
  "norx inst s = put_ra inst (NOT (gpr s (RS inst) OR gpr s (RB inst))) s"

definition orx :: "u32 \<Rightarrow> 'a CPU_State_scheme \<Rightarrow> 'a CPU_State_scheme" where
  "orx inst s = put_ra inst (gpr s (RS inst) OR gpr s (RB inst)) s"

definition orcx :: "u32 \<Rightarrow> 'a CPU_State_scheme \<Rightarrow> 'a CPU_State_scheme" where
  "orcx inst s = put_ra inst (gpr s (RS inst) OR NOT (gpr s (RB inst))) s"

definition slwx :: "u32 \<Rightarrow> 'a CPU_State_scheme \<Rightarrow> 'a CPU_State_scheme" where
  "slwx inst s =
    (let amount = gpr s (RB inst)
     in put_ra inst (if amount AND 0x20 \<noteq> 0 then 0 else push_bit (unat (amount AND 0x1f)) (gpr s (RS inst))) s)"

text \<open>The carry of an arithmetic shift by less than 32.\<close>

definition sraw_carry :: "u32 \<Rightarrow> nat \<Rightarrow> bool" where
  "sraw_carry rrs amount \<longleftrightarrow> sint rrs < 0 \<and> amount > 0 \<and> push_bit (32 - amount) rrs \<noteq> 0"

definition srawx :: "u32 \<Rightarrow> 'a CPU_State_scheme \<Rightarrow> 'a CPU_State_scheme" where
  "srawx inst s =
    (let rb = gpr s (RB inst); rrs = gpr s (RS inst);
         (v, ca) = (if rb AND 0x20 \<noteq> 0 then (if rrs AND 0x80000000 \<noteq> 0 then (0xFFFFFFFF, True) else (0, False))
                    else (signed_drop_bit (unat (rb AND 0x1f)) rrs, sraw_carry rrs (unat (rb AND 0x1f))))
     in record_cr0 inst v (SetCarry ca (set_gpr (RA inst) v s)))"

definition srawix :: "u32 \<Rightarrow> 'a CPU_State_scheme \<Rightarrow> 'a CPU_State_scheme" where
  "srawix inst s =
    (let amount = SH inst; rrs = gpr s (RS inst); v = signed_drop_bit amount rrs
     in record_cr0 inst v (SetCarry (sraw_carry rrs amount) (set_gpr (RA inst) v s)))"

definition srwx :: "u32 \<Rightarrow> 'a CPU_State_scheme \<Rightarrow> 'a CPU_State_scheme" where
  "srwx inst s =
    (let amount = gpr s (RB inst)
     in put_ra inst (if amount AND 0x20 \<noteq> 0 then 0 else drop_bit (unat (amount AND 0x1f)) (gpr s (RS inst))) s)"

definition tw :: "u32 \<Rightarrow> 'a CPU_State_scheme \<Rightarrow> 'a CPU_State_scheme" where
  "tw inst s = (if trap_condition (gpr s (RA inst)) (gpr s (RB inst)) (TO inst) then take_trap s else s)"

definition xorx :: "u32 \<Rightarrow> 'a CPU_State_scheme \<Rightarrow> 'a CPU_State_scheme" where
  "xorx inst s = put_ra inst (gpr s (RS inst) XOR gpr s (RB inst)) s"

section \<open>Arithmetic\<close>

text \<open>Writing a result to \<^verbatim>\<open>rD\<close>, with overflow and record tails, with and without a carry.\<close>

definition put_rd :: "u32 \<Rightarrow> u32 \<Rightarrow> bool \<Rightarrow> 'a CPU_State_scheme \<Rightarrow> 'a CPU_State_scheme" where
  "put_rd inst v ov s = record_cr0 inst v (record_ov inst ov (set_gpr (RD inst) v s))"

definition put_rd_carry :: "u32 \<Rightarrow> u32 \<Rightarrow> bool \<Rightarrow> bool \<Rightarrow> 'a CPU_State_scheme \<Rightarrow> 'a CPU_State_scheme" where
  "put_rd_carry inst v ca ov s = record_cr0 inst v (record_ov inst ov (SetCarry ca (set_gpr (RD inst) v s)))"

definition addx :: "u32 \<Rightarrow> 'a CPU_State_scheme \<Rightarrow> 'a CPU_State_scheme" where
  "addx inst s =
    (let a = gpr s (RA inst); b = gpr s (RB inst);
         r = a + b
     in put_rd inst r (HasAddOverflowed a b r) s)"

definition addcx :: "u32 \<Rightarrow> 'a CPU_State_scheme \<Rightarrow> 'a CPU_State_scheme" where
  "addcx inst s =
    (let a = gpr s (RA inst); b = gpr s (RB inst);
         r = a + b
     in put_rd_carry inst r (Helper_Carry a b) (HasAddOverflowed a b r) s)"

definition addex :: "u32 \<Rightarrow> 'a CPU_State_scheme \<Rightarrow> 'a CPU_State_scheme" where
  "addex inst s =
    (let carry = GetCarry s; a = gpr s (RA inst); b = gpr s (RB inst);
         r = a + b + carry
     in put_rd_carry inst r (Helper_Carry a b \<or> carry \<noteq> 0 \<and> Helper_Carry (a + b) carry) (HasAddOverflowed a b r) s)"

definition addmex :: "u32 \<Rightarrow> 'a CPU_State_scheme \<Rightarrow> 'a CPU_State_scheme" where
  "addmex inst s =
    (let carry = GetCarry s; a = gpr s (RA inst); b = 0xFFFFFFFF;
         r = a + b + carry
     in put_rd_carry inst r (Helper_Carry a (carry - 1)) (HasAddOverflowed a b r) s)"

definition addzex :: "u32 \<Rightarrow> 'a CPU_State_scheme \<Rightarrow> 'a CPU_State_scheme" where
  "addzex inst s =
    (let carry = GetCarry s; a = gpr s (RA inst);
         r = a + carry
     in put_rd_carry inst r (Helper_Carry a carry) (HasAddOverflowed a 0 r) s)"

definition divwx :: "u32 \<Rightarrow> 'a CPU_State_scheme \<Rightarrow> 'a CPU_State_scheme" where
  "divwx inst s =
    (let a = gpr s (RA inst); b = gpr s (RB inst);
         overflow = (b = 0 \<or> a = 0x80000000 \<and> b = 0xFFFFFFFF);
         v = (if overflow then (if sint a < 0 then 0xFFFFFFFF else 0) else of_int (sint a sdiv sint b))
     in put_rd inst v overflow s)"

definition divwux :: "u32 \<Rightarrow> 'a CPU_State_scheme \<Rightarrow> 'a CPU_State_scheme" where
  "divwux inst s =
    (let a = gpr s (RA inst); b = gpr s (RB inst); overflow = (b = 0)
     in put_rd inst (if overflow then 0 else a div b) overflow s)"

definition mulhwx :: "u32 \<Rightarrow> 'a CPU_State_scheme \<Rightarrow> 'a CPU_State_scheme" where
  "mulhwx inst s =
    (let a = scast (gpr s (RA inst)) :: s64; b = scast (gpr s (RB inst)) :: s64;
         v = ucast (signed_drop_bit 32 (a * b))
     in record_cr0 inst v (set_gpr (RD inst) v s))"

definition mulhwux :: "u32 \<Rightarrow> 'a CPU_State_scheme \<Rightarrow> 'a CPU_State_scheme" where
  "mulhwux inst s =
    (let a = ucast (gpr s (RA inst)) :: u64; b = ucast (gpr s (RB inst)) :: u64;
         v = ucast (drop_bit 32 (a * b))
     in record_cr0 inst v (set_gpr (RD inst) v s))"

definition mullwx :: "u32 \<Rightarrow> 'a CPU_State_scheme \<Rightarrow> 'a CPU_State_scheme" where
  "mullwx inst s =
    (let a = scast (gpr s (RA inst)) :: s64; b = scast (gpr s (RB inst)) :: s64; r = a * b
     in put_rd inst (ucast r) (sint r < - 0x80000000 \<or> sint r > 0x7FFFFFFF) s)"

definition negx :: "u32 \<Rightarrow> 'a CPU_State_scheme \<Rightarrow> 'a CPU_State_scheme" where
  "negx inst s =
    (let a = gpr s (RA inst) in put_rd inst (NOT a + 1) (a = 0x80000000) s)"

definition subfx :: "u32 \<Rightarrow> 'a CPU_State_scheme \<Rightarrow> 'a CPU_State_scheme" where
  "subfx inst s =
    (let a = NOT (gpr s (RA inst)); b = gpr s (RB inst);
         r = a + b + 1
     in put_rd inst r (HasAddOverflowed a b r) s)"

definition subfcx :: "u32 \<Rightarrow> 'a CPU_State_scheme \<Rightarrow> 'a CPU_State_scheme" where
  "subfcx inst s =
    (let a = NOT (gpr s (RA inst)); b = gpr s (RB inst);
         r = a + b + 1
     in put_rd_carry inst r (a = 0xFFFFFFFF \<or> Helper_Carry b (a + 1)) (HasAddOverflowed a b r) s)"

definition subfex :: "u32 \<Rightarrow> 'a CPU_State_scheme \<Rightarrow> 'a CPU_State_scheme" where
  "subfex inst s =
    (let a = NOT (gpr s (RA inst)); b = gpr s (RB inst); carry = GetCarry s;
         r = a + b + carry
     in put_rd_carry inst r (Helper_Carry a b \<or> Helper_Carry (a + b) carry) (HasAddOverflowed a b r) s)"

definition subfmex :: "u32 \<Rightarrow> 'a CPU_State_scheme \<Rightarrow> 'a CPU_State_scheme" where
  "subfmex inst s =
    (let a = NOT (gpr s (RA inst)); b = 0xFFFFFFFF; carry = GetCarry s;
         r = a + b + carry
     in put_rd_carry inst r (Helper_Carry a (carry - 1)) (HasAddOverflowed a b r) s)"

definition subfzex :: "u32 \<Rightarrow> 'a CPU_State_scheme \<Rightarrow> 'a CPU_State_scheme" where
  "subfzex inst s =
    (let a = NOT (gpr s (RA inst)); carry = GetCarry s;
         r = a + carry
     in put_rd_carry inst r (Helper_Carry a carry) (HasAddOverflowed a 0 r) s)"

section \<open>Carry and overflow\<close>

lemma Helper_Carry_iff: "Helper_Carry x y \<longleftrightarrow> 4294967296 \<le> uint x + uint y"
  by (auto simp: Helper_Carry_def word_less_def uint_not32)

lemma Helper_Carry_2:
  assumes "uint c \<le> 1"
  shows "Helper_Carry x y \<or> Helper_Carry (x + y) c \<longleftrightarrow> 4294967296 \<le> uint x + uint y + uint c"
  using assms uint_u32 [of c] uint_u32 [of x] uint_u32 [of y]
  by (cases "uint x + uint y < 4294967296") (simp_all only: Helper_Carry_iff uint_add32_if if_True if_False, linarith+)

lemma wrap_range:
  assumes "- 4294967296 \<le> (i :: int)" "i < 4294967297"
  shows "\<exists>k \<in> {- 1, 0, 1}. (i + 2147483648) mod 4294967296 - 2147483648 = i + 4294967296 * k"
proof -
  let ?S = "i + 2147483648"
  have "- 2 < ?S div 4294967296" "?S div 4294967296 < 2" using assms by linarith+
  then have "- (?S div 4294967296) \<in> {- 1, 0, 1}" by auto
  then show ?thesis using minus_mult_div_eq_mod [of ?S 4294967296] by force
qed

lemma sum_wraps:
  assumes "r = x + y + (c :: u32)" "uint c \<le> 1"
  shows "\<exists>k \<in> {- 1, 0, 1}. sint r = sint x + sint y + uint c + 4294967296 * k"
proof -
  have r: "r = of_int (sint x + sint y + uint c)" using assms(1) by simp
  show ?thesis unfolding r sint_of_int32
    using sint_u32 [of x] sint_u32 [of y] assms(2) uint_u32 [of c] by (intro wrap_range) linarith+
qed

lemma HasAddOverflowed_signs:
  "HasAddOverflowed x y r \<longleftrightarrow> (sint x < 0 \<longleftrightarrow> \<not> sint r < 0) \<and> (sint y < 0 \<longleftrightarrow> \<not> sint r < 0)"
  unfolding HasAddOverflowed_def drop_bit_31 by (auto simp: bit_and_iff bit_xor_iff sint_neg_bit)

lemma overflow_sign_rule:
  fixes x y c r k :: int
  assumes "r = x + y + c + 4294967296 * k" "k \<in> {- 1, 0, 1}" "0 \<le> c" "c \<le> 1"
    "- 2147483648 \<le> x" "x < 2147483648" "- 2147483648 \<le> y" "y < 2147483648" "- 2147483648 \<le> r" "r < 2147483648"
  shows "(x < 0 \<longleftrightarrow> \<not> r < 0) \<and> (y < 0 \<longleftrightarrow> \<not> r < 0) \<longleftrightarrow>
    \<not> (- 2147483648 \<le> x + y + c \<and> x + y + c < 2147483648)"
  using assms by auto

lemma HasAddOverflowed_iff:
  assumes "uint c \<le> 1"
  shows "HasAddOverflowed x y (x + y + c) \<longleftrightarrow>
    \<not> (- 2147483648 \<le> sint x + sint y + uint c \<and> sint x + sint y + uint c < 2147483648)"
proof -
  define r where "r = x + y + c"
  obtain k where k: "k \<in> {- 1, 0, 1}" "sint r = sint x + sint y + uint c + 4294967296 * k"
    using sum_wraps [OF r_def assms] by blast
  have "HasAddOverflowed x y r \<longleftrightarrow>
    \<not> (- 2147483648 \<le> sint x + sint y + uint c \<and> sint x + sint y + uint c < 2147483648)"
    unfolding HasAddOverflowed_signs
    by (rule overflow_sign_rule [OF k(2,1) uint_u32(1) assms]) (rule sint_u32)+
  then show ?thesis by (simp add: r_def)
qed

section \<open>Results of the carry instructions\<close>

text \<open>The flags of a sum of two operands and a carry-in: carry out of bit 0 and signed overflow.\<close>

definition carry_out :: "u32 \<Rightarrow> u32 \<Rightarrow> u32 \<Rightarrow> bool" where
  "carry_out x y c \<longleftrightarrow> 2 ^ 32 \<le> uint x + uint y + uint c"

definition signed_overflow :: "u32 \<Rightarrow> u32 \<Rightarrow> u32 \<Rightarrow> bool" where
  "signed_overflow x y c \<longleftrightarrow> sint x + sint y + uint c \<notin> {- (2 ^ 31)..<2 ^ 31}"

lemmas put_defs = put_rd_def put_rd_carry_def put_ra_def record_cr0_def record_ov_def set_gpr_def SetCarry_def
  SetXER_OV_def SetXER_SO_def Helper_UpdateCR0_def Let_def

lemma put_gpr [simp]:
  "gpr (put_rd inst v ov s) = (gpr s)(RD inst := v)"
  "gpr (put_rd_carry inst v ca ov s) = (gpr s)(RD inst := v)"
  "gpr (put_ra inst v s) = (gpr s)(RA inst := v)"
  by (simp_all add: put_defs)

lemma put_ca [simp]:
  "xer_ca (put_rd inst v ov s) = xer_ca s"
  "xer_ca (put_rd_carry inst v ca ov s) = (if ca then 1 else 0)"
  "xer_ca (put_ra inst v s) = xer_ca s"
  by (simp_all add: put_defs)

lemma put_so_ov [simp]:
  "xer_so_ov (put_rd inst v ov s) =
    (if OE inst then (if ov then (xer_so_ov s AND 0xFE) OR 3 else xer_so_ov s AND 0xFE) else xer_so_ov s)"
  "xer_so_ov (put_rd_carry inst v ca ov s) =
    (if OE inst then (if ov then (xer_so_ov s AND 0xFE) OR 3 else xer_so_ov s AND 0xFE) else xer_so_ov s)"
  "xer_so_ov (put_ra inst v s) = xer_so_ov s"
  by (simp_all add: put_defs or.assoc)

lemma inc_carry_rule:
  fixes x y :: int
  assumes "0 \<le> x" "x < 4294967296" "0 \<le> y"
  shows "x = 4294967295 \<or> 4294967296 \<le> y + (if x + 1 < 4294967296 then x + 1 else x + 1 - 4294967296) \<longleftrightarrow>
    4294967296 \<le> x + y + 1"
  using assms by auto

lemma carry_outI:
  "Helper_Carry x y \<longleftrightarrow> carry_out x y 0"
  "uint c \<le> 1 \<Longrightarrow> Helper_Carry x y \<or> Helper_Carry (x + y) c \<longleftrightarrow> carry_out x y c"
  "uint c \<le> 1 \<Longrightarrow> Helper_Carry x y \<or> c \<noteq> 0 \<and> Helper_Carry (x + y) c \<longleftrightarrow> carry_out x y c"
  "Helper_Carry x c \<longleftrightarrow> carry_out x 0 c"
  "x = 0xFFFFFFFF \<or> Helper_Carry y (x + 1) \<longleftrightarrow> carry_out x y 1"
proof -
  show "Helper_Carry x y \<longleftrightarrow> carry_out x y 0" "Helper_Carry x c \<longleftrightarrow> carry_out x 0 c"
    by (simp_all add: Helper_Carry_iff carry_out_def)
  show *: "Helper_Carry x y \<or> Helper_Carry (x + y) c \<longleftrightarrow> carry_out x y c" if "uint c \<le> 1"
    using Helper_Carry_2 [OF that] by (simp add: carry_out_def)
  show "Helper_Carry x y \<or> c \<noteq> 0 \<and> Helper_Carry (x + y) c \<longleftrightarrow> carry_out x y c" if "uint c \<le> 1"
    using * [OF that] uint_u32 [of "x + y"] by (auto simp: Helper_Carry_iff)
  have one: "uint (1 :: u32) = 1" "(2 :: int) ^ 32 = 4294967296" by simp_all
  have m1: "x = 0xFFFFFFFF \<longleftrightarrow> uint x = 4294967295"
    by (simp add: word_uint_eq_iff)
  show "x = 0xFFFFFFFF \<or> Helper_Carry y (x + 1) \<longleftrightarrow> carry_out x y 1"
    unfolding m1 Helper_Carry_iff carry_out_def uint_add32_if one
    by (rule inc_carry_rule [OF uint_u32 uint_u32(1)])
qed

lemma signed_overflowI:
  "uint c \<le> 1 \<Longrightarrow> HasAddOverflowed x y (x + y + c) \<longleftrightarrow> signed_overflow x y c"
  "HasAddOverflowed x y (x + y) \<longleftrightarrow> signed_overflow x y 0"
  "uint c \<le> 1 \<Longrightarrow> HasAddOverflowed x 0 (x + c) \<longleftrightarrow> signed_overflow x 0 c"
  "HasAddOverflowed x y (x + y + 1) \<longleftrightarrow> signed_overflow x y 1"
  using HasAddOverflowed_iff [of c x y] HasAddOverflowed_iff [of 0 x y] HasAddOverflowed_iff [of c x 0]
    HasAddOverflowed_iff [of 1 x y]
  by (simp_all add: signed_overflow_def)

lemmas carry_defs = addcx_def addex_def addzex_def subfcx_def subfex_def subfzex_def addx_def subfx_def Let_def

text \<open>The carry of \<^verbatim>\<open>subfic\<close> is right even when the result overwrites the operand it is computed from.\<close>

lemma subfic_carry:
  assumes "a' = a \<or> a' = i - (a :: u32)"
  shows "a' = 0 \<or> Helper_Carry (0 - a') i \<longleftrightarrow> carry_out (NOT a) i 1"
proof -
  have nz: "uint (0 - a') = 4294967296 - uint a'" if "a' \<noteq> 0"
    using that uint_u32 [of a'] uint_sub_if_size [of 0 a'] by (simp add: word_size uint_0_iff)
  have diff: "uint (i - a) = (if uint a \<le> uint i then uint i - uint a else uint i - uint a + 4294967296)"
    using uint_sub_if_size [of i a] by (simp add: word_size)
  have z: "a' = 0 \<longleftrightarrow> uint a' = 0" by (simp add: uint_0_iff)
  have "carry_out (NOT a) i 1 \<longleftrightarrow> uint a \<le> uint i" by (auto simp: carry_out_def uint_not32)
  moreover have "a' = 0 \<or> Helper_Carry (0 - a') i \<longleftrightarrow> uint a' \<le> uint i"
  proof (cases "a' = 0")
    case False
    then show ?thesis using nz [OF False] by (simp only: Helper_Carry_iff) (simp add: False)
  qed simp
  moreover have "uint a' \<le> uint i \<longleftrightarrow> uint a \<le> uint i"
    using assms diff uint_u32 [of a] uint_u32 [of i] by (auto split: if_splits)
  ultimately show ?thesis by blast
qed

lemma carry_effects:
  assumes "uint (GetCarry s) \<le> 1"
  shows "addcx inst s = (let a = gpr s (RA inst); b = gpr s (RB inst)
      in put_rd_carry inst (a + b) (carry_out a b 0) (signed_overflow a b 0) s)"
    "addex inst s = (let a = gpr s (RA inst); b = gpr s (RB inst); c = GetCarry s
      in put_rd_carry inst (a + b + c) (carry_out a b c) (signed_overflow a b c) s)"
    "addzex inst s = (let a = gpr s (RA inst); c = GetCarry s
      in put_rd_carry inst (a + c) (carry_out a 0 c) (signed_overflow a 0 c) s)"
    "subfcx inst s = (let a = NOT (gpr s (RA inst)); b = gpr s (RB inst)
      in put_rd_carry inst (a + b + 1) (carry_out a b 1) (signed_overflow a b 1) s)"
    "subfex inst s = (let a = NOT (gpr s (RA inst)); b = gpr s (RB inst); c = GetCarry s
      in put_rd_carry inst (a + b + c) (carry_out a b c) (signed_overflow a b c) s)"
    "subfzex inst s = (let a = NOT (gpr s (RA inst)); c = GetCarry s
      in put_rd_carry inst (a + c) (carry_out a 0 c) (signed_overflow a 0 c) s)"
  unfolding addcx_def addex_def addzex_def subfcx_def subfex_def subfzex_def Let_def
    signed_overflowI(1,3) [OF assms] signed_overflowI(2,4) carry_outI(3) [OF assms] carry_outI(5)
  by (simp_all only: carry_outI(2) [OF assms]) (simp_all add: Helper_Carry_iff carry_out_def)

lemma subfic_effect:
  "subfic inst s = SetCarry (carry_out (NOT (gpr s (RA inst))) (SIMM_16 inst) 1)
    (set_gpr (RD inst) (SIMM_16 inst - gpr s (RA inst)) s)"
  unfolding subfic_def Let_def by (subst subfic_carry) (auto simp: set_gpr_def)

lemma addic_effect:
  "addic inst s = SetCarry (carry_out (gpr s (RA inst)) (SIMM_16 inst) 0)
    (set_gpr (RD inst) (gpr s (RA inst) + SIMM_16 inst) s)"
  by (simp add: addic_def carry_outI(1) Let_def)

lemma GetCarry_put [simp]:
  "GetCarry (put_rd_carry inst v ca ov s) = of_bool ca" "GetCarry (SetCarry ca s) = of_bool ca"
  by (simp_all add: GetCarry_def SetCarry_def)

lemma not_add_1: "NOT a + b + 1 = b - (a :: u32)"
  by (simp add: not_eq_complement)

text \<open>Sums of doublewords, as the integers of two registers.\<close>

definition pair64 :: "u32 \<Rightarrow> u32 \<Rightarrow> u64" where
  "pair64 hi lo = of_int (uint hi * 2 ^ 32 + uint lo)"

lemma power32: "(2 :: int) ^ 32 = 4294967296"
  by simp

lemma split64_rule:
  fixes H K b :: int
  assumes "K div 4294967296 = b" "H = ah + bh + b" "K = al + bl + c"
  shows "H mod 4294967296 * 4294967296 + K mod 4294967296
      - (ah * 4294967296 + al + (bh * 4294967296 + bl) + c) = 18446744073709551616 * - (H div 4294967296)"
proof -
  define q r t where "q = H div 4294967296" and "r = H mod 4294967296" and "t = K mod 4294967296"
  have "4294967296 * q + r = H" "4294967296 * b + t = K"
    using mult_div_mod_eq [of 4294967296 H] mult_div_mod_eq [of 4294967296 K] assms(1) by (simp_all add: q_def r_def t_def)
  then show ?thesis using assms(2,3) unfolding q_def [symmetric] r_def [symmetric] t_def [symmetric] by simp
qed

lemma of_int_u64_eqI: "18446744073709551616 dvd i - j \<Longrightarrow> (of_int i :: u64) = of_int j"
  by (simp add: word_of_int_eq_iff take_bit_eq_mod mod_eq_dvd_iff)

lemma pair64_sum:
  assumes "uint c \<le> 1"
  shows "pair64 (ah + bh + of_bool (carry_out al bl c)) (al + bl + c) = pair64 ah al + pair64 bh bl + ucast c"
proof -
  define H K :: int where "H = uint ah + uint bh + of_bool (carry_out al bl c)" and "K = uint al + uint bl + uint c"
  have "K div 4294967296 = of_bool (carry_out al bl c)"
  proof -
    have "0 \<le> K" "K < 2 * 4294967296"
      using assms uint_u32 [of al] uint_u32 [of bl] uint_u32 [of c] unfolding K_def by linarith+
    then show ?thesis by (auto simp: carry_out_def K_def [symmetric])
  qed
  moreover have "uint (ah + bh + of_bool (carry_out al bl c)) = H mod 4294967296"
    unfolding H_def by (simp add: uint_word_ariths mod_simps)
  moreover have "uint (al + bl + c) = K mod 4294967296"
    unfolding K_def by (simp add: uint_word_ariths mod_simps)
  ultimately have "uint (ah + bh + of_bool (carry_out al bl c)) * 4294967296 + uint (al + bl + c)
      - (uint ah * 4294967296 + uint al + (uint bh * 4294967296 + uint bl) + uint c)
      = 18446744073709551616 * - (H div 4294967296)"
    using split64_rule [OF _ H_def K_def] by simp
  then have d: "18446744073709551616 dvd uint (ah + bh + of_bool (carry_out al bl c)) * 4294967296 + uint (al + bl + c)
      - (uint ah * 4294967296 + uint al + (uint bh * 4294967296 + uint bl) + uint c)"
    by simp
  have c: "(ucast c :: u64) = of_int (uint c)" by simp
  show ?thesis unfolding pair64_def power32 c of_int_add [symmetric] by (rule of_int_u64_eqI [OF d])
qed

lemma multiword_parts:
  assumes "RD lo \<noteq> RA hi" "RD lo \<noteq> RB hi" "RD lo \<noteq> RD hi"
  shows "s' = addex hi (addcx lo s) \<Longrightarrow> pair64 (gpr s' (RD hi)) (gpr s' (RD lo)) =
      pair64 (gpr s (RA hi)) (gpr s (RA lo)) + pair64 (gpr s (RB hi)) (gpr s (RB lo))"
    and "s' = subfex hi (subfcx lo s) \<Longrightarrow> pair64 (gpr s' (RD hi)) (gpr s' (RD lo)) =
      pair64 (gpr s (RB hi)) (gpr s (RB lo)) - pair64 (gpr s (RA hi)) (gpr s (RA lo))"
proof -
  show "pair64 (gpr s' (RD hi)) (gpr s' (RD lo)) =
      pair64 (gpr s (RA hi)) (gpr s (RA lo)) + pair64 (gpr s (RB hi)) (gpr s (RB lo))"
    if "s' = addex hi (addcx lo s)"
  proof -
    have c: "uint (GetCarry (addcx lo s)) \<le> 1" by (simp add: addcx_def Let_def)
    show ?thesis
      using that assms pair64_sum [of 0 "gpr s (RA hi)" "gpr s (RB hi)" "gpr s (RA lo)" "gpr s (RB lo)"]
      by (simp add: carry_effects(2) [OF c]) (simp add: addcx_def Let_def carry_outI(1))
  qed
  show "pair64 (gpr s' (RD hi)) (gpr s' (RD lo)) =
      pair64 (gpr s (RB hi)) (gpr s (RB lo)) - pair64 (gpr s (RA hi)) (gpr s (RA lo))"
    if "s' = subfex hi (subfcx lo s)"
  proof -
    have c: "uint (GetCarry (subfcx lo s)) \<le> 1" by (simp add: subfcx_def Let_def)
    have n: "pair64 (NOT a) (NOT b) = - pair64 a b - 1" for a b by (simp add: pair64_def uint_not32)
    show ?thesis
      using that assms pair64_sum [of 1 "NOT (gpr s (RA hi))" "gpr s (RB hi)" "NOT (gpr s (RA lo))" "gpr s (RB lo)"]
      by (simp add: carry_effects(5) [OF c]) (simp add: subfcx_def Let_def carry_outI(5) n)
  qed
qed

section \<open>Comparison\<close>

lemma compare_result:
  "GetCRField j (compare i a b s) = (if j = i then (if a < b then 8 else if a > b then 4 else 2) OR of_bool (GetXER_SO s \<noteq> 0)
     else GetCRField j s)"
  by (auto simp: compare_def Let_def GetCRField_SetCRField)

definition cr0_value :: "u32 \<Rightarrow> bool \<Rightarrow> u64" where
  "cr0_value v so = (scast v AND NOT (push_bit 61 1)) OR push_bit 61 (of_bool so)"

lemma cr0_value_bits:
  "bit (cr0_value v so) 61 \<longleftrightarrow> so" "bit (cr0_value v so) 62 \<longleftrightarrow> sint v < 0" "bit (cr0_value v so) 63 \<longleftrightarrow> sint v < 0"
  "cr0_value v so AND 0xFFFFFFFF = 0 \<longleftrightarrow> v = 0" "cr0_value v so = 0 \<longleftrightarrow> v = 0 \<and> \<not> so"
proof -
  have sb: "bit (scast v :: u64) n \<longleftrightarrow> n < 64 \<and> bit v (min n 31)" for n
    by (simp add: bit_signed_iff min.commute)
  note b = cr0_value_def bit_or_iff bit_and_iff bit_not_iff bit_push_bit_iff sb bit_of_bool_iff
  show b61: "bit (cr0_value v so) 61 \<longleftrightarrow> so" and "bit (cr0_value v so) 62 \<longleftrightarrow> sint v < 0"
    and "bit (cr0_value v so) 63 \<longleftrightarrow> sint v < 0"
    by (simp_all add: b sint_neg_bit bit_1_iff)
  have low: "bit (cr0_value v so) n \<longleftrightarrow> bit v n" if "n < 32" for n
    unfolding b using that by (auto simp: bit_1_iff)
  show z: "cr0_value v so AND 0xFFFFFFFF = 0 \<longleftrightarrow> v = 0"
  proof
    assume a: "cr0_value v so AND 0xFFFFFFFF = 0"
    show "v = 0"
    proof (rule bit_word_eqI)
      fix n assume "n < LENGTH(32)"
      then have "bit (mask 32 :: u64) n" by (simp only: bit_mask_iff) simp
      then have "bit (0xFFFFFFFF :: u64) n" by (simp add: mask_eq_exp_minus_1)
      then show "bit v n = bit 0 n"
        using low [of n] \<open>n < LENGTH(32)\<close> a bit_and_iff [of "cr0_value v so" "0xFFFFFFFF" n] by simp
    qed
  qed (simp add: cr0_value_def)
  show "cr0_value v so = 0 \<longleftrightarrow> v = 0 \<and> \<not> so"
    using z b61 by (auto simp: cr0_value_def)
qed

lemma CR0_record:
  assumes "xer_ok s"
  shows "GetCRField 0 (Helper_UpdateCR0 v s) = (if sint v < 0 then 8 else if 0 < sint v then 4 else 2)
    OR of_bool (GetXER_SO s \<noteq> 0) OR (if v = 0 \<and> GetXER_SO s \<noteq> 0 then 4 else 0)"
proof -
  have c: "cr_val (Helper_UpdateCR0 v s) 0 = cr0_value v (GetXER_SO s \<noteq> 0)"
    by (simp add: Helper_UpdateCR0_def Let_def cr0_value_def xer_ok_SO [OF assms])
  have pos: "0 < sint x \<longleftrightarrow> \<not> bit x 63 \<and> x \<noteq> 0" for x :: u64
    using bit_last_iff [of x] sint_zero [of x] by force
  have v0: "v = 0 \<longleftrightarrow> sint v = 0" by (simp add: sint_zero)
  show ?thesis unfolding GetCRField_def internal_to_cr_def c pos cr0_value_bits
    by (cases "sint v" "0 :: int" rule: linorder_cases; cases "GetXER_SO s = 0") (simp_all add: v0)
qed

section \<open>Rotates\<close>

text \<open>Membership in the mask from bit \<open>mb\<close> to bit \<open>me\<close>, in the numbering that counts from the left and wraps.\<close>

definition in_mask :: "nat \<Rightarrow> nat \<Rightarrow> nat \<Rightarrow> bool" where
  "in_mask mb me n \<longleftrightarrow> (if mb \<le> me then mb \<le> n \<and> n \<le> me else mb \<le> n \<or> n \<le> me)"

lemma MakeRotationMask_bit:
  assumes "n < 32" "mb < 32" "me < 32"
  shows "bit (MakeRotationMask mb me) (31 - n) \<longleftrightarrow> in_mask mb me n"
proof -
  have m: "(0xFFFFFFFF :: u32) = mask 32" "(0x7FFFFFFF :: u32) = mask 31" by (simp_all add: mask_eq_exp_minus_1)
  have "bit (drop_bit mb (0xFFFFFFFF :: u32)) (31 - n) \<longleftrightarrow> mb \<le> n"
    unfolding m bit_drop_bit_eq comp_def bit_mask_iff using assms by auto
  moreover have "bit (drop_bit me (0x7FFFFFFF :: u32)) (31 - n) \<longleftrightarrow> me < n"
    unfolding m bit_drop_bit_eq comp_def bit_mask_iff using assms by auto
  ultimately show ?thesis
    by (auto simp: MakeRotationMask_def in_mask_def Let_def bit_not_iff bit_xor_iff)
qed

lemma RotateLeft_rotl: "RotateLeft v k = word_rotl k v"
proof (rule bit_word_eqI)
  fix n assume "n < LENGTH(32)"
  then have n: "n < 32" by simp
  define a where "a = k mod 32"
  have a: "a < 32" by (simp add: a_def)
  have hi: "\<not> bit v m" if "32 \<le> m" for m using that bit_imp_le_length [of v m] by auto
  have r: "bit (word_rotl k v) n \<longleftrightarrow> bit v ((n + (32 - a)) mod 32)"
    using n by (simp add: bit_word_rotl_iff a_def)
  consider "a = 0" | "a \<noteq> 0" "n < a" | "a \<noteq> 0" "a \<le> n" by linarith
  then show "bit (RotateLeft v k) n \<longleftrightarrow> bit (word_rotl k v) n"
  proof cases
    case 1
    then show ?thesis unfolding r using n by (simp add: RotateLeft_def a_def)
  next
    case 2
    then have m: "(n + (32 - a)) mod 32 = 32 - a + n" using a by simp
    show ?thesis unfolding r m using 2 n
      by (simp add: RotateLeft_def Let_def bit_or_iff bit_push_bit_iff bit_drop_bit_eq flip: a_def)
  next
    case 3
    then have "n + (32 - a) = (n - a) + 32" "n - a < 32" using a n by simp_all
    then have "(n + (32 - a)) mod 32 = n - a" by (metis mod_add_self2 mod_less)
    then show ?thesis unfolding r using 3 n a hi [of "32 - a + n"]
      by (simp add: RotateLeft_def Let_def bit_or_iff bit_push_bit_iff bit_drop_bit_eq flip: a_def)
  qed
qed

lemma masked_bit:
  assumes "n < 32"
  shows "bit ((old AND NOT (MakeRotationMask (MB inst) (ME inst))) OR (v AND MakeRotationMask (MB inst) (ME inst))) (31 - n) \<longleftrightarrow>
      bit (if in_mask (MB inst) (ME inst) n then v else old) (31 - n)"
    "bit (v AND MakeRotationMask (MB inst) (ME inst)) (31 - n) \<longleftrightarrow> in_mask (MB inst) (ME inst) n \<and> bit v (31 - n)"
  using MakeRotationMask_bit [OF assms, of "MB inst" "ME inst"] by (auto simp: bit_or_iff bit_and_iff bit_not_iff)

lemma rotate_bits:
  assumes "n < 32"
  shows "bit (gpr (rlwinmx inst s) (RA inst)) (31 - n) \<longleftrightarrow>
      in_mask (MB inst) (ME inst) n \<and> bit (word_rotl (SH inst) (gpr s (RS inst))) (31 - n)"
    and "bit (gpr (rlwnmx inst s) (RA inst)) (31 - n) \<longleftrightarrow>
      in_mask (MB inst) (ME inst) n \<and> bit (word_rotl (unat (gpr s (RB inst))) (gpr s (RS inst))) (31 - n)"
    and "bit (gpr (rlwimix inst s) (RA inst)) (31 - n) \<longleftrightarrow>
      bit (if in_mask (MB inst) (ME inst) n then word_rotl (SH inst) (gpr s (RS inst)) else gpr s (RA inst)) (31 - n)"
proof -
  have m5: "(0x1F :: u32) = mask 5" by (simp add: mask_eq_exp_minus_1)
  have "RotateLeft v (unat (w AND 0x1F :: u32)) = word_rotl (unat w) v" for v w
    unfolding m5 unat_and_mask RotateLeft_rotl [symmetric] by (simp add: RotateLeft_def)
  then show "bit (gpr (rlwnmx inst s) (RA inst)) (31 - n) \<longleftrightarrow>
      in_mask (MB inst) (ME inst) n \<and> bit (word_rotl (unat (gpr s (RB inst))) (gpr s (RS inst))) (31 - n)"
    using masked_bit [OF assms] by (simp add: rlwnmx_def Let_def)
qed (use masked_bit [OF assms] in \<open>simp_all add: rlwinmx_def rlwimix_def Let_def RotateLeft_rotl\<close>)

section \<open>Shifts\<close>

text \<open>The six bits of a shift amount: bit 5 says that everything is shifted out.\<close>

lemma shift_amount:
  fixes w :: u32
  shows "w AND 0x20 \<noteq> 0 \<longleftrightarrow> 32 \<le> unat w mod 64" "unat (w AND 0x1F) = unat w mod 32"
proof -
  have m5: "(0x1F :: u32) = mask 5" by (simp add: mask_eq_exp_minus_1)
  show u: "unat (w AND 0x1F) = unat w mod 32" unfolding m5 unat_and_mask by simp
  have "w AND 0x20 \<noteq> 0 \<longleftrightarrow> bit w 5" using and_push_bit_1 [of w 5] by simp
  also have "\<dots> \<longleftrightarrow> odd (unat w div 32)" by (simp add: bit_unsigned_iff flip: bit_iff_odd [where a = "unat w" and n = 5, simplified])
  also have "\<dots> \<longleftrightarrow> 32 \<le> unat w mod 64"
  proof -
    have "unat w mod 64 = unat w mod 32 + 32 * (unat w div 32 mod 2)"
      using mod_mult2_eq [of "unat w" 32 2] by simp
    then show ?thesis by (cases "even (unat w div 32)") (auto simp: odd_iff_mod_2_eq_one)
  qed
  finally show "w AND 0x20 \<noteq> 0 \<longleftrightarrow> 32 \<le> unat w mod 64" .
qed

lemma mod_32_of_64: "\<not> 32 \<le> m mod 64 \<Longrightarrow> m mod 32 = m mod (64 :: nat)"
  using mod_mod_cancel [of 32 64 m] by simp

lemma sraw_carry_iff:
  assumes "n < 32"
  shows "sraw_carry v n \<longleftrightarrow> sint v < 0 \<and> \<not> 2 ^ n dvd sint v"
proof -
  have "push_bit (32 - n) v = 0 \<longleftrightarrow> 2 ^ n dvd uint v" if "0 < n"
  proof -
    have "push_bit (32 - n) v = 0 \<longleftrightarrow> uint v * 2 ^ (32 - n) mod 2 ^ 32 = 0"
      unfolding word_uint_eq_iff unsigned_push_bit_eq by (simp add: take_bit_eq_mod push_bit_eq_mult)
    also have "\<dots> \<longleftrightarrow> 2 ^ (n + (32 - n)) dvd uint v * 2 ^ (32 - n)" using assms by (simp add: dvd_eq_mod_eq_0)
    also have "\<dots> \<longleftrightarrow> 2 ^ n dvd uint v" by (simp only: power_add dvd_mult_cancel_right) simp
    finally show ?thesis .
  qed
  moreover have "2 ^ n dvd uint v \<longleftrightarrow> 2 ^ n dvd sint v"
  proof -
    have "2 ^ n dvd (2 :: int) ^ 32" using assms by (intro le_imp_power_dvd) simp
    moreover have "uint v = sint v mod 2 ^ 32" by (simp add: uint_sint take_bit_eq_mod)
    ultimately show ?thesis by (metis dvd_mod_iff)
  qed
  ultimately show ?thesis by (cases "n = 0") (auto simp: sraw_carry_def)
qed

lemma neg_not_dvd: "- 2147483648 \<le> (x :: int) \<Longrightarrow> x < 0 \<Longrightarrow> 32 \<le> n \<Longrightarrow> \<not> 2 ^ n dvd x"
proof
  assume a: "- 2147483648 \<le> x" "x < 0" "32 \<le> n" "2 ^ n dvd x"
  have "(2 :: int) ^ 32 dvd 2 ^ n" using a(3) by (rule le_imp_power_dvd)
  then have "4294967296 dvd - x" using a(4) by (auto intro: dvd_trans)
  then have "4294967296 \<le> - x" using a(2) by (intro zdvd_imp_le) auto
  then show False using a(1) by simp
qed

lemma div_big:
  assumes "- 2147483648 \<le> (x :: int)" "x < 2147483648" "32 \<le> n"
  shows "x div 2 ^ n = (if x < 0 then - 1 else 0)"
proof -
  have "(2 :: int) ^ 32 \<le> 2 ^ n" using assms(3) by (rule power_increasing) simp
  then have "x < 2 ^ n" "- (2 ^ n) \<le> x" using assms(1,2) by auto
  then have "0 \<le> x \<Longrightarrow> x div 2 ^ n = 0" "x < 0 \<Longrightarrow> x div 2 ^ n = - 1"
    by (auto intro: div_pos_pos_trivial int_div_pos_eq [where r = "x + 2 ^ n"])
  then show ?thesis by simp
qed

lemma sraw_parts:
  shows "sint (gpr (srawx inst s) (RA inst)) = sint (gpr s (RS inst)) div 2 ^ (unat (gpr s (RB inst)) mod 64)"
    "GetCarry (srawx inst s) = of_bool (sint (gpr s (RS inst)) < 0 \<and>
      \<not> 2 ^ (unat (gpr s (RB inst)) mod 64) dvd sint (gpr s (RS inst)))"
    "sint (gpr (srawix inst s) (RA inst)) = sint (gpr s (RS inst)) div 2 ^ SH inst"
    "GetCarry (srawix inst s) = of_bool (sint (gpr s (RS inst)) < 0 \<and> \<not> 2 ^ SH inst dvd sint (gpr s (RS inst)))"
proof -
  let ?v = "gpr s (RS inst)" and ?b = "gpr s (RB inst)"
  have i: "gpr (srawix inst s) (RA inst) = signed_drop_bit (SH inst) ?v" "GetCarry (srawix inst s) = of_bool (sraw_carry ?v (SH inst))"
    by (simp_all add: srawix_def Let_def put_defs GetCarry_def)
  show "sint (gpr (srawix inst s) (RA inst)) = sint ?v div 2 ^ SH inst"
    "GetCarry (srawix inst s) = of_bool (sint ?v < 0 \<and> \<not> 2 ^ SH inst dvd sint ?v)"
    by (simp_all only: i sint_signed_drop_bit_eq drop_bit_eq_div sraw_carry_iff [OF inst_field_5])
  have neg: "?v AND 0x80000000 \<noteq> 0 \<longleftrightarrow> sint ?v < 0" using and_push_bit_1 [of ?v 31] by (simp add: sint_neg_bit)
  define m where "m = unat ?b mod 64"
  have "sint (gpr (srawx inst s) (RA inst)) = sint ?v div 2 ^ m \<and>
      GetCarry (srawx inst s) = of_bool (sint ?v < 0 \<and> \<not> 2 ^ m dvd sint ?v)"
  proof (cases "32 \<le> m")
    case True
    then show ?thesis using div_big [OF sint_u32 True, of ?v] neg_not_dvd [OF sint_u32(1) _ True, of ?v]
      by (auto simp: srawx_def Let_def shift_amount(1) neg put_defs GetCarry_def simp flip: m_def)
  next
    case False
    then have "unat (?b AND 0x1F) = m" using mod_32_of_64 [of "unat ?b"] by (simp add: shift_amount(2) m_def)
    then show ?thesis using False
      by (simp add: srawx_def Let_def shift_amount(1) put_defs GetCarry_def sint_signed_drop_bit_eq drop_bit_eq_div
        sraw_carry_iff flip: m_def)
  qed
  then show "sint (gpr (srawx inst s) (RA inst)) = sint ?v div 2 ^ (unat ?b mod 64)"
    "GetCarry (srawx inst s) = of_bool (sint ?v < 0 \<and> \<not> 2 ^ (unat ?b mod 64) dvd sint ?v)"
    by (simp_all add: m_def)
qed

lemma shift_parts:
  shows "unat (gpr (slwx inst s) (RA inst)) = unat (gpr s (RS inst)) * 2 ^ (unat (gpr s (RB inst)) mod 64) mod 2 ^ 32"
    "unat (gpr (srwx inst s) (RA inst)) = unat (gpr s (RS inst)) div 2 ^ (unat (gpr s (RB inst)) mod 64)"
proof -
  let ?v = "gpr s (RS inst)" and ?b = "gpr s (RB inst)"
  define m where "m = unat ?b mod 64"
  have small: "unat (?b AND 0x1F) = m" if "\<not> 32 \<le> m"
    using that mod_32_of_64 [of "unat ?b"] by (simp add: shift_amount(2) m_def)
  have v: "unat ?v < 2 ^ 32" using unat_u32_less [of ?v] by simp
  have big: "(2 :: nat) ^ 32 dvd 2 ^ m" "(2 :: nat) ^ 32 \<le> 2 ^ m" if "32 \<le> m"
    using le_imp_power_dvd [OF that, of "2 :: nat"] power_increasing [OF that, of "2 :: nat"] by auto
  have "unat (gpr (slwx inst s) (RA inst)) = unat ?v * 2 ^ m mod 2 ^ 32"
  proof (cases "32 \<le> m")
    case True
    then have "(2 :: nat) ^ 32 dvd unat ?v * 2 ^ m" using big(1) by (rule_tac dvd_mult) 
    then show ?thesis using True by (simp add: slwx_def Let_def shift_amount(1) flip: m_def)
  next
    case False
    have "unat (push_bit m ?v) = unat ?v * 2 ^ m mod 2 ^ 32"
      unfolding unsigned_push_bit_eq by (simp add: take_bit_eq_mod push_bit_eq_mult)
    then show ?thesis using False small [OF False] by (simp add: slwx_def Let_def shift_amount(1) flip: m_def)
  qed
  then show "unat (gpr (slwx inst s) (RA inst)) = unat ?v * 2 ^ (unat ?b mod 64) mod 2 ^ 32" by (simp add: m_def)
  have "unat (gpr (srwx inst s) (RA inst)) = unat ?v div 2 ^ m"
    using v small big(2) by (cases "32 \<le> m") (auto simp: srwx_def Let_def shift_amount(1) unat_drop_bit simp flip: m_def)
  then show "unat (gpr (srwx inst s) (RA inst)) = unat ?v div 2 ^ (unat ?b mod 64)" by (simp add: m_def)
qed

section \<open>Multiplication and division\<close>

lemma sint_abs: "\<bar>sint (x :: u32)\<bar> \<le> 2147483648"
  using sint_u32 [of x] by linarith

lemma sint_product_bounds: "\<bar>sint (a :: u32) * sint (b :: u32)\<bar> \<le> 4611686018427387904"
  using mult_mono [OF sint_abs [of a] sint_abs [of b]] by (simp add: abs_mult)

lemma sint_of_int64:
  assumes "\<bar>i\<bar> \<le> 4611686018427387904"
  shows "sint (of_int i :: u64) = i"
  using assms by (simp add: signed_of_int signed_take_bit_eq_take_bit_shift take_bit_eq_mod)

lemma sint_scast64: "sint (scast (x :: u32) :: u64) = sint x"
proof -
  have "(scast x :: u64) = of_int (sint x)" by simp
  then show ?thesis using sint_of_int64 [of "sint x"] sint_abs [of x] by simp
qed

lemma product64:
  "sint ((scast (a :: u32) :: u64) * scast (b :: u32)) = sint a * sint b"
proof -
  have "(scast a :: u64) * scast b = of_int (sint a * sint b)" by simp
  then show ?thesis using sint_of_int64 [OF sint_product_bounds, of a b] by simp
qed

lemma product64u:
  "uint ((ucast (a :: u32) :: u64) * ucast (b :: u32)) = uint a * uint b"
proof -
  have "uint a * uint b < 4294967296 * 4294967296"
    using uint_u32 [of a] uint_u32 [of b] by (intro mult_strict_mono) auto
  moreover have "uint (ucast x :: u64) = uint x" for x :: u32 by (rule uint_up_ucast) (simp add: is_up)
  ultimately show ?thesis by (simp add: uint_word_ariths)
qed

text \<open>The two halves of a product, the high half signed or unsigned.\<close>

lemma narrow_signed: "(ucast (x :: u64) :: u32) = of_int (sint x)"
proof -
  have "(ucast x :: u32) = scast x"
  proof (rule bit_word_eqI)
    fix n assume "n < LENGTH(32)"
    then show "bit (ucast x :: u32) n = bit (scast x :: u32) n" by (simp add: bit_unsigned_iff bit_signed_iff)
  qed
  then show ?thesis by simp
qed

lemma high_half:
  assumes "sint (P :: u64) = p" "\<bar>p\<bar> \<le> 4611686018427387904"
  shows "sint (ucast (signed_drop_bit 32 P) :: u32) = p div 4294967296"
proof -
  have "(ucast (signed_drop_bit 32 P) :: u32) = of_int (sint (signed_drop_bit 32 P))" by (rule narrow_signed)
  moreover have "sint (signed_drop_bit 32 P) = p div 4294967296"
    using assms(1) by (simp add: sint_signed_drop_bit_eq drop_bit_eq_div)
  moreover have "- 2147483648 \<le> p div 4294967296" "p div 4294967296 < 2147483648" using assms(2) by linarith+
  ultimately show ?thesis by (simp add: sint_of_int32)
qed

lemma low_half: "uint (ucast (P :: u64) :: u32) = sint P mod 4294967296" "uint (ucast P :: u32) = uint P mod 4294967296"
proof -
  have "uint (of_int i :: u32) = i mod 4294967296" for i
    unfolding unsigned_of_int by (simp add: take_bit_eq_mod)
  then show "uint (ucast P :: u32) = sint P mod 4294967296" by (simp only: narrow_signed)
  show "uint (ucast P :: u32) = uint P mod 4294967296" unfolding unsigned_ucast_eq by (simp add: take_bit_eq_mod)
qed

lemma product_parts:
  assumes "RA hi = RA lo" "RB hi = RB lo" and a_def: "a = gpr s (RA lo)" and b_def: "b = gpr s (RB lo)"
  shows "sint (gpr (mulhwx hi s) (RD hi)) * 2 ^ 32 + uint (gpr (mullwx lo s) (RD lo)) = sint a * sint b"
    "uint (gpr (mulhwux hi s) (RD hi)) * 2 ^ 32 + uint (gpr (mullwx lo s) (RD lo)) = uint a * uint b"
proof -
  have lo: "uint (gpr (mullwx lo s) (RD lo)) = sint a * sint b mod 4294967296"
    by (simp add: mullwx_def Let_def a_def b_def low_half(1) product64)
  have "sint (gpr (mulhwx hi s) (RD hi)) = sint a * sint b div 4294967296"
    using high_half [OF product64 sint_product_bounds, of a b] assms(1,2)
    by (simp add: mulhwx_def Let_def a_def b_def put_defs)
  then show "sint (gpr (mulhwx hi s) (RD hi)) * 2 ^ 32 + uint (gpr (mullwx lo s) (RD lo)) = sint a * sint b"
    by (simp add: lo)
  have "uint (gpr (mulhwux hi s) (RD hi)) = uint a * uint b div 4294967296"
  proof -
    have "uint (ucast (drop_bit 32 P) :: u32) = uint P div 4294967296" for P :: u64
    proof -
      have "uint P div 4294967296 < 4294967296" using uint_bounded [of P] by simp
      then show ?thesis by (simp add: low_half(2) drop_bit_eq_div uint_div pos_imp_zdiv_nonneg_iff)
    qed
    then show ?thesis using product64u [of a b] assms(1,2) by (simp add: mulhwux_def Let_def a_def b_def put_defs)
  qed
  moreover have "sint a * sint b mod 4294967296 = uint a * uint b mod 4294967296"
    by (simp add: uint_sint take_bit_eq_mod mod_mult_eq)
  ultimately show "uint (gpr (mulhwux hi s) (RD hi)) * 2 ^ 32 + uint (gpr (mullwx lo s) (RD lo)) = uint a * uint b"
    by (simp add: lo)
qed

lemma sdiv_range:
  fixes a b :: int
  assumes "- 2147483648 \<le> a" "a < 2147483648" "b \<noteq> 0" "\<not> (a = - 2147483648 \<and> b = - 1)"
  shows "- 2147483648 \<le> a sdiv b" "a sdiv b < 2147483648"
proof -
  have "\<bar>a sdiv b\<bar> \<le> \<bar>a\<bar> div \<bar>b\<bar>"
    by (auto simp: signed_divide_int_def abs_mult sgn_if pos_imp_zdiv_nonneg_iff neg_imp_zdiv_nonneg_iff)
  moreover have "\<bar>a\<bar> div \<bar>b\<bar> \<le> 1073741824" if "2 \<le> \<bar>b\<bar>"
  proof -
    have "\<bar>a\<bar> div \<bar>b\<bar> \<le> \<bar>a\<bar> div 2" using that by (intro zdiv_mono2) auto
    then show ?thesis using assms(1,2) by linarith
  qed
  moreover have "a sdiv 1 = a" "a sdiv (- 1) = - a" by (simp_all add: signed_divide_int_def sgn_if)
  moreover have "b = 1 \<or> b = - 1 \<or> 2 \<le> \<bar>b\<bar>" using assms(3) by linarith
  ultimately show "- 2147483648 \<le> a sdiv b" "a sdiv b < 2147483648" using assms by auto
qed

lemma s32_extremes: "(x :: u32) = 0xFFFFFFFF \<longleftrightarrow> sint x = - 1" "x = 0x80000000 \<longleftrightarrow> sint x = - (2 ^ 31)"
proof -
  have *: "x = of_int (sint x)" by simp
  show "x = 0xFFFFFFFF \<longleftrightarrow> sint x = - 1" "x = 0x80000000 \<longleftrightarrow> sint x = - (2 ^ 31)"
    by (rule iffI, simp, subst *, simp)+
qed

lemma quotient_parts:
  assumes "a = gpr s (RA inst)" "b = gpr s (RB inst)"
  shows "b \<noteq> 0 \<and> \<not> (sint a = - (2 ^ 31) \<and> sint b = - 1) \<Longrightarrow> sint (gpr (divwx inst s) (RD inst)) = sint a sdiv sint b"
    "b = 0 \<or> sint a = - (2 ^ 31) \<and> sint b = - 1 \<Longrightarrow> sint (gpr (divwx inst s) (RD inst)) = (if sint a < 0 then - 1 else 0)"
    "uint (gpr (divwux inst s) (RD inst)) = uint a div uint b"
proof -
  show "sint (gpr (divwx inst s) (RD inst)) = sint a sdiv sint b"
    if h: "b \<noteq> 0 \<and> \<not> (sint a = - (2 ^ 31) \<and> sint b = - 1)"
  proof -
    have r: "- 2147483648 \<le> sint a sdiv sint b" "sint a sdiv sint b < 2147483648"
      using sdiv_range [OF sint_u32, of "sint b" a] h by (auto simp: sint_zero)
    have "gpr (divwx inst s) (RD inst) = of_int (sint a sdiv sint b)"
      using h assms by (simp add: divwx_def Let_def s32_extremes)
    then show ?thesis using r by (simp only: sint_of_int32) simp
  qed
  show "sint (gpr (divwx inst s) (RD inst)) = (if sint a < 0 then - 1 else 0)"
    if "b = 0 \<or> sint a = - (2 ^ 31) \<and> sint b = - 1"
    using that assms by (auto simp: divwx_def Let_def s32_extremes)
  show "uint (gpr (divwux inst s) (RD inst)) = uint a div uint b"
    using assms by (simp add: divwux_def Let_def uint_div)
qed

lemma count_zeros_spec:
  assumes M: "M = push_bit 31 1"
  shows "i \<le> 32 \<Longrightarrow> (\<And>k. k < i \<Longrightarrow> \<not> bit v (31 - k)) \<Longrightarrow> n = count_zeros v i (drop_bit i M) \<Longrightarrow>
    n \<le> 32 \<and> (\<forall>k < n. \<not> bit v (31 - k)) \<and> (n < 32 \<longrightarrow> bit v (31 - n))"
proof (induction "32 - i" arbitrary: i)
  case 0
  then show ?case by (simp add: count_zeros.simps)
next
  case (Suc j)
  then have i: "i < 32" by simp
  have "drop_bit i M = push_bit (31 - i) 1"
  proof (rule bit_word_eqI)
    fix n assume "n < LENGTH(32)"
    then show "bit (drop_bit i M) n = bit (push_bit (31 - i) 1 :: u32) n"
      using i unfolding M bit_drop_bit_eq comp_def bit_push_bit_iff bit_1_iff by auto
  qed
  then have t: "v AND drop_bit i M \<noteq> 0 \<longleftrightarrow> bit v (31 - i)" using and_push_bit_1 [of v "31 - i"] by simp
  show ?case
  proof (cases "bit v (31 - i)")
    case True
    then have "n = i" using Suc.prems(3) t i by (simp add: count_zeros.simps)
    then show ?thesis using True Suc.prems(2) i by simp
  next
    case False
    then have n: "n = count_zeros v (Suc i) (drop_bit (Suc i) M)"
      using Suc.prems(3) t i by (simp add: count_zeros.simps [of v i] drop_bit_drop_bit)
    show ?thesis
    proof (rule Suc.hyps(1))
      show "\<not> bit v (31 - k)" if "k < Suc i" for k using that False Suc.prems(2) by (auto simp: less_Suc_eq)
    qed (use Suc.hyps(2) i n in auto)
  qed
qed

lemma cntlzw_parts:
  assumes "n = unat (gpr (cntlzwx inst s) (RA inst))" "v = gpr s (RS inst)"
  shows "n \<le> 32 \<and> (\<forall>k < n. \<not> bit v (31 - k)) \<and> (n < 32 \<longrightarrow> bit v (31 - n))"
proof -
  have *: "count_zeros v 0 0x80000000 \<le> 32 \<and> (\<forall>k < count_zeros v 0 0x80000000. \<not> bit v (31 - k)) \<and>
      (count_zeros v 0 0x80000000 < 32 \<longrightarrow> bit v (31 - count_zeros v 0 0x80000000))"
    using count_zeros_spec [where M = "0x80000000" and i = 0 and v = v, OF _ _ _ refl] by simp
  then have "n = count_zeros v 0 0x80000000" using assms
    by (simp add: cntlzwx_def unat_of_nat)
  then show ?thesis using * by simp
qed

section \<open>Overflow, and the invariant of XER\<close>

text \<open>The instructions with an overflow bit, with the overflow of their exact result.\<close>

definition overflow_spec :: "'a CPU_State_scheme \<Rightarrow> u32 \<Rightarrow> ((u32 \<Rightarrow> 'a CPU_State_scheme \<Rightarrow> 'a CPU_State_scheme) \<times> bool) list" where
  "overflow_spec s inst =
    (let a = gpr s (RA inst); b = gpr s (RB inst); c = GetCarry s
     in [(addx, signed_overflow a b 0), (addcx, signed_overflow a b 0), (addex, signed_overflow a b c),
         (addmex, signed_overflow a 0xFFFFFFFF c), (addzex, signed_overflow a 0 c),
         (subfx, signed_overflow (NOT a) b 1), (subfcx, signed_overflow (NOT a) b 1), (subfex, signed_overflow (NOT a) b c),
         (subfmex, signed_overflow (NOT a) 0xFFFFFFFF c), (subfzex, signed_overflow (NOT a) 0 c),
         (negx, - sint a \<notin> {- (2 ^ 31)..<2 ^ 31}), (mullwx, sint a * sint b \<notin> {- (2 ^ 31)..<2 ^ 31}),
         (divwx, b = 0 \<or> sint a sdiv sint b \<notin> {- (2 ^ 31)..<2 ^ 31}), (divwux, b = 0)])"

lemma put_rd_overflow:
  assumes "xer_ok s" "OE inst"
  shows "GetXER_OV (put_rd inst v ov s) = of_bool ov" "GetXER_SO (put_rd inst v ov s) = of_bool (ov \<or> GetXER_SO s \<noteq> 0)"
    "GetXER_OV (put_rd_carry inst v ca ov s) = of_bool ov"
    "GetXER_SO (put_rd_carry inst v ca ov s) = of_bool (ov \<or> GetXER_SO s \<noteq> 0)"
proof -
  have "unat (xer_so_ov s) \<in> {0, 1, 2, 3}" using assms(1) by (auto simp: xer_ok_def word_le_nat_alt)
  then consider "xer_so_ov s = 0" | "xer_so_ov s = 1" | "xer_so_ov s = 2" | "xer_so_ov s = 3"
    by (auto simp: word_unat_eq_iff)
  then have "GetXER_OV (put_rd inst v ov s) = of_bool ov \<and> GetXER_SO (put_rd inst v ov s) = of_bool (ov \<or> GetXER_SO s \<noteq> 0) \<and>
    GetXER_OV (put_rd_carry inst v ca ov s) = of_bool ov \<and>
    GetXER_SO (put_rd_carry inst v ca ov s) = of_bool (ov \<or> GetXER_SO s \<noteq> 0)"
    by cases (use assms(2) in \<open>simp_all add: GetXER_OV_def GetXER_SO_def\<close>)
  then show "GetXER_OV (put_rd inst v ov s) = of_bool ov" "GetXER_SO (put_rd inst v ov s) = of_bool (ov \<or> GetXER_SO s \<noteq> 0)"
    "GetXER_OV (put_rd_carry inst v ca ov s) = of_bool ov"
    "GetXER_SO (put_rd_carry inst v ca ov s) = of_bool (ov \<or> GetXER_SO s \<noteq> 0)"
    by blast+
qed

lemma division_overflow:
  "b = 0 \<or> a = 0x80000000 \<and> b = 0xFFFFFFFF \<longleftrightarrow> b = 0 \<or> sint a sdiv sint b \<notin> {- (2 ^ 31)..<2 ^ 31}" for a b :: u32
  using sdiv_range [OF sint_u32 [of a], of "sint b"] unfolding s32_extremes sint_zero [symmetric]
  by (auto simp: signed_divide_int_def)

lemma overflow_effects:
  assumes "uint (GetCarry s) \<le> 1" and a: "a = gpr s (RA inst)" and b: "b = gpr s (RB inst)"
  shows "addx inst s = put_rd inst (a + b) (signed_overflow a b 0) s"
    "subfx inst s = put_rd inst (NOT a + b + 1) (signed_overflow (NOT a) b 1) s"
    "addmex inst s = put_rd_carry inst (a + 0xFFFFFFFF + GetCarry s) (Helper_Carry a (GetCarry s - 1))
      (signed_overflow a 0xFFFFFFFF (GetCarry s)) s"
    "subfmex inst s = put_rd_carry inst (NOT a + 0xFFFFFFFF + GetCarry s) (Helper_Carry (NOT a) (GetCarry s - 1))
      (signed_overflow (NOT a) 0xFFFFFFFF (GetCarry s)) s"
    "negx inst s = put_rd inst (NOT a + 1) (- sint a \<notin> {- (2 ^ 31)..<2 ^ 31}) s"
    "mullwx inst s = put_rd inst (ucast ((scast a :: s64) * scast b)) (sint a * sint b \<notin> {- (2 ^ 31)..<2 ^ 31}) s"
    "divwx inst s = put_rd inst (if b = 0 \<or> a = 0x80000000 \<and> b = 0xFFFFFFFF then (if sint a < 0 then 0xFFFFFFFF else 0)
      else of_int (sint a sdiv sint b)) (b = 0 \<or> sint a sdiv sint b \<notin> {- (2 ^ 31)..<2 ^ 31}) s"
    "divwux inst s = put_rd inst (if b = 0 then 0 else a div b) (b = 0) s"
proof -
  note defs = a b Let_def signed_overflowI(1) [OF assms(1)] signed_overflowI(2,4)
  show "addx inst s = put_rd inst (a + b) (signed_overflow a b 0) s"
    "subfx inst s = put_rd inst (NOT a + b + 1) (signed_overflow (NOT a) b 1) s"
    "addmex inst s = put_rd_carry inst (a + 0xFFFFFFFF + GetCarry s) (Helper_Carry a (GetCarry s - 1))
      (signed_overflow a 0xFFFFFFFF (GetCarry s)) s"
    "subfmex inst s = put_rd_carry inst (NOT a + 0xFFFFFFFF + GetCarry s) (Helper_Carry (NOT a) (GetCarry s - 1))
      (signed_overflow (NOT a) 0xFFFFFFFF (GetCarry s)) s"
    unfolding addx_def subfx_def addmex_def subfmex_def defs by (rule refl)+
  have "a = 0x80000000 \<longleftrightarrow> - sint a \<notin> {- (2 ^ 31)..<2 ^ 31}"
    using sint_u32 [of a] by (auto simp: s32_extremes(2))
  then show "negx inst s = put_rd inst (NOT a + 1) (- sint a \<notin> {- (2 ^ 31)..<2 ^ 31}) s"
    using a by (simp add: negx_def Let_def)
  have "(sint ((scast a :: s64) * scast b) < - 0x80000000 \<or> sint ((scast a :: s64) * scast b) > 0x7FFFFFFF)
      \<longleftrightarrow> sint a * sint b \<notin> {- (2 ^ 31)..<2 ^ 31}"
    unfolding product64 by auto
  then show "mullwx inst s = put_rd inst (ucast ((scast a :: s64) * scast b)) (sint a * sint b \<notin> {- (2 ^ 31)..<2 ^ 31}) s"
    using a b unfolding mullwx_def Let_def by (simp only:)
  show "divwx inst s = put_rd inst (if b = 0 \<or> a = 0x80000000 \<and> b = 0xFFFFFFFF then (if sint a < 0 then 0xFFFFFFFF else 0)
      else of_int (sint a sdiv sint b)) (b = 0 \<or> sint a sdiv sint b \<notin> {- (2 ^ 31)..<2 ^ 31}) s"
    unfolding division_overflow [symmetric] divwx_def Let_def a b by (rule refl)
  show "divwux inst s = put_rd inst (if b = 0 then 0 else a div b) (b = 0) s"
    unfolding divwux_def Let_def a b by (rule refl)
qed

end
