(* ===== verification/PPC_IntegerSpec.thy ===== *)
theory PPC_IntegerSpec
  imports PPC_Integer
begin

text \<open>
  What the integer instructions of the CPU interpreter compute, compared with exact integer arithmetic, and what the
  condition register then reads. Each property covers a group of instructions of \<^verbatim>\<open>Interpreter_Integer.cpp\<close>.
\<close>

definition blank_cpu :: CPU_State where
  "blank_cpu = ST_State.extend blank_st (CPU_State.fields (\<lambda>r. of_nat r * 0x10000001) (\<lambda>_. 0) 1 2 0 (\<lambda>_. 0) (\<lambda>_. 0))"

lemma blank_cpu_fields [simp]:
  "gpr blank_cpu r = of_nat r * 0x10000001" "xer_ca blank_cpu = 1" "xer_so_ov blank_cpu = 2"
  by (simp_all add: blank_cpu_def blank_st_def CPU_State.defs ST_State.defs)

section \<open>Carries\<close>

text \<open>
  Carries. On a state whose XER fields are bits, \<^verbatim>\<open>addc\<close>, \<^verbatim>\<open>adde\<close>, \<^verbatim>\<open>addze\<close>, \<^verbatim>\<open>addic\<close>, \<^verbatim>\<open>subfc\<close>, \<^verbatim>\<open>subfe\<close>, \<^verbatim>\<open>subfze\<close> and
  \<^verbatim>\<open>subfic\<close> write the sum of their operands and carry-in to rD, change no other general register, and leave in CA
  exactly the carry out of that sum; \<^verbatim>\<open>subfic\<close> does so even when rD is rA, where the code computes the carry from the
  register it has just overwritten.
\<close>

theorem carries_exact:
  assumes "xer_ok s"
    "(f, x, y, c) \<in> set
     [(addcx, gpr s (RA inst), gpr s (RB inst), 0), (addex, gpr s (RA inst), gpr s (RB inst), GetCarry s),
      (addzex, gpr s (RA inst), 0, GetCarry s), (addic, gpr s (RA inst), SIMM_16 inst, 0),
      (subfcx, NOT (gpr s (RA inst)), gpr s (RB inst), 1), (subfex, NOT (gpr s (RA inst)), gpr s (RB inst), GetCarry s),
      (subfzex, NOT (gpr s (RA inst)), 0, GetCarry s), (subfic, NOT (gpr s (RA inst)), SIMM_16 inst, 1)]"
  shows "gpr (f inst s) = (gpr s)(RD inst := x + y + c) \<and> GetCarry (f inst s) = of_bool (carry_out x y c)"
proof -
  note e = carry_effects [OF xer_ok_carry [OF assms(1)]] subfic_effect addic_effect
  have g: "gpr (SetCarry ca (set_gpr r v t)) = (gpr t)(r := v)" for ca r v t by (simp add: SetCarry_def set_gpr_def)
  consider "(f, x, y, c) = (addcx, gpr s (RA inst), gpr s (RB inst), 0)"
    | "(f, x, y, c) = (addex, gpr s (RA inst), gpr s (RB inst), GetCarry s)"
    | "(f, x, y, c) = (addzex, gpr s (RA inst), 0, GetCarry s)"
    | "(f, x, y, c) = (addic, gpr s (RA inst), SIMM_16 inst, 0)"
    | "(f, x, y, c) = (subfcx, NOT (gpr s (RA inst)), gpr s (RB inst), 1)"
    | "(f, x, y, c) = (subfex, NOT (gpr s (RA inst)), gpr s (RB inst), GetCarry s)"
    | "(f, x, y, c) = (subfzex, NOT (gpr s (RA inst)), 0, GetCarry s)"
    | "(f, x, y, c) = (subfic, NOT (gpr s (RA inst)), SIMM_16 inst, 1)"
    using assms(2) by auto
  then show ?thesis
    by cases (simp_all add: e Let_def g not_add_1)
qed

theorem carries_exact_witness:
  "GetCarry (addex 0x7C011114 blank_cpu) = 0 \<and> gpr (addex 0x7C011114 blank_cpu) 0 = 0x30000004"
proof -
  have "xer_ok blank_cpu" by (simp add: xer_ok_def)
  from carries_exact [OF this, of addex "gpr blank_cpu (RA 0x7C011114)" "gpr blank_cpu (RB 0x7C011114)" "GetCarry blank_cpu" "0x7C011114"]
  show ?thesis by (simp add: inst_field_def carry_out_def GetCarry_def)
qed

text \<open>
  C23. Doubleword arithmetic. The sequence \<^verbatim>\<open>addc\<close>, \<^verbatim>\<open>adde\<close> on two register pairs leaves the 64-bit sum of the pairs, and
  \<^verbatim>\<open>subfc\<close>, \<^verbatim>\<open>subfe\<close> their 64-bit difference, whatever the carry was before, when the low result register is not an
  operand or the result of the second instruction.
\<close>

theorem multiword_exact:
  assumes "RD lo \<noteq> RA hi" "RD lo \<noteq> RB hi" "RD lo \<noteq> RD hi" "s1 = addex hi (addcx lo s)" "s2 = subfex hi (subfcx lo s)"
  shows "pair64 (gpr s1 (RD hi)) (gpr s1 (RD lo)) =
      pair64 (gpr s (RA hi)) (gpr s (RA lo)) + pair64 (gpr s (RB hi)) (gpr s (RB lo)) \<and>
    pair64 (gpr s2 (RD hi)) (gpr s2 (RD lo)) =
      pair64 (gpr s (RB hi)) (gpr s (RB lo)) - pair64 (gpr s (RA hi)) (gpr s (RA lo))"
  using multiword_parts(1) [OF assms(1-4)] multiword_parts(2) [OF assms(1-3,5)] by simp

text \<open>The words are \<^verbatim>\<open>addc r5,r1,r3\<close> and \<^verbatim>\<open>adde r6,r2,r4\<close>, and the same with \<^verbatim>\<open>subfc\<close> and \<^verbatim>\<open>subfe\<close>.\<close>

theorem multiword_exact_witness:
  "pair64 (gpr (addex 0x7CC22114 (addcx 0x7CA11814 blank_cpu)) 6) (gpr (addex 0x7CC22114 (addcx 0x7CA11814 blank_cpu)) 5)
    = pair64 0x20000002 0x10000001 + pair64 0x40000004 0x30000003"
  using multiword_exact [of "0x7CA11814" "0x7CC22114" _ blank_cpu, OF _ _ _ refl refl] by (simp add: inst_field_def)

section \<open>Overflow\<close>

text \<open>
  Overflow. With the OE bit, each of the fourteen instructions of \<^const>\<open>overflow_spec\<close> sets OV exactly when the
  integer sum, difference, negation, product or quotient of its operands does not fit a register (for a division also
  when the divisor is zero), and SO exactly when it was set or OV is: overflow is sticky.
\<close>

theorem overflows_exact:
  assumes "xer_ok s" "OE inst" "(f, ov) \<in> set (overflow_spec s inst)"
  shows "GetXER_OV (f inst s) = of_bool ov \<and> GetXER_SO (f inst s) = of_bool (ov \<or> GetXER_SO s \<noteq> 0)"
proof -
  note e = carry_effects [OF xer_ok_carry [OF assms(1)]] overflow_effects [OF xer_ok_carry [OF assms(1)] refl refl]
  have "\<exists>v ca. f inst s = put_rd inst v ov s \<or> f inst s = put_rd_carry inst v ca ov s"
    using assms(3) unfolding overflow_spec_def Let_def list.set
    by (elim insertE emptyE Pair_inject; simp only: e Let_def) blast+
  then show ?thesis using put_rd_overflow [OF assms(1,2)] by metis
qed

theorem overflows_exact_witness:
  "GetXER_OV (addx 0x7CC41E14 (blank_cpu\<lparr>xer_so_ov := 0\<rparr>)) = 0 \<and> GetXER_SO (addx 0x7CC43E14 (blank_cpu\<lparr>xer_so_ov := 0\<rparr>)) = 1"
proof -
  let ?s = "blank_cpu\<lparr>xer_so_ov := 0\<rparr>"
  have ok: "xer_ok ?s" by (simp add: xer_ok_def)
  have mem: "(addx, signed_overflow (gpr ?s (RA inst)) (gpr ?s (RB inst)) 0) \<in> set (overflow_spec ?s inst)" for inst
    by (simp add: overflow_spec_def Let_def)
  from overflows_exact [OF ok _ mem, of "0x7CC41E14"] overflows_exact [OF ok _ mem, of "0x7CC43E14"]
  show ?thesis by (simp add: inst_field_def signed_overflow_def GetXER_SO_def)
qed

section \<open>Condition register\<close>

text \<open>
  C24. Comparison. \<^verbatim>\<open>cmp\<close>, \<^verbatim>\<open>cmpi\<close>, \<^verbatim>\<open>cmpl\<close> and \<^verbatim>\<open>cmpli\<close> leave in the field they name exactly one of LT, GT and EQ, the
  order of their operands as signed or unsigned integers, with the summary overflow, and every other field as it was.
  The record forms leave the sign of their result in field 0 in the same way, with one exception of the 64-bit encoding:
  a zero result with the summary overflow set reads as both EQ and GT.
\<close>

theorem cpu_comparisons:
  assumes "xer_ok s" "cr = (\<lambda>a b :: int. (if a < b then 8 else if a > b then 4 else 2) OR of_bool (GetXER_SO s \<noteq> 0) :: u32)"
  shows "GetCRField j (cmp inst s) =
      (if j = CRFD inst then cr (sint (gpr s (RA inst))) (sint (gpr s (RB inst))) else GetCRField j s) \<and>
    GetCRField j (cmpi inst s) =
      (if j = CRFD inst then cr (sint (gpr s (RA inst))) (sint (SIMM_16 inst)) else GetCRField j s) \<and>
    GetCRField j (cmpl inst s) =
      (if j = CRFD inst then cr (uint (gpr s (RA inst))) (uint (gpr s (RB inst))) else GetCRField j s) \<and>
    GetCRField j (cmpli inst s) =
      (if j = CRFD inst then cr (uint (gpr s (RA inst))) (uint (UIMM inst)) else GetCRField j s) \<and>
    GetCRField j (Helper_UpdateCR0 v s) =
      (if j = 0 then cr (sint v) 0 OR (if v = 0 \<and> GetXER_SO s \<noteq> 0 then 4 else 0) else GetCRField j s)"
proof -
  have other: "GetCRField k (Helper_UpdateCR0 v s) = GetCRField k s" if "k \<noteq> 0" for k
    using that by (simp add: GetCRField_def Helper_UpdateCR0_def Let_def)
  show ?thesis
    by (simp add: assms(2) cmp_def cmpi_def cmpl_def cmpli_def compare_result other CR0_record [OF assms(1)])
qed

theorem cpu_comparisons_witness:
  "GetCRField 1 (cmp 0x7C841800 blank_cpu) = 5 \<and> GetCRField 0 (Helper_UpdateCR0 0 blank_cpu) = 7"
  using cpu_comparisons [of blank_cpu, OF _ refl, of 1 "0x7C841800"] cpu_comparisons [of blank_cpu, OF _ refl, of 0 _ 0]
  by (simp add: xer_ok_def inst_field_def GetXER_SO_def)

text \<open>
  The condition register. Writing a 32-bit value and reading it back gives the value, through the table of 64-bit
  encodings; and writing one bit makes that bit read as written and leaves the other 31 as they were.
\<close>

theorem cr_roundtrip:
  assumes "b' < 32"
  shows "CompactCR (ExpandCR cr s) = cr \<and>
    GetCRBit b' (SetCRBit b v (ExpandCR cr s)) = (if b' = b then v AND 1 else of_bool (bit cr (31 - b')))"
proof -
  have "b' div 4 < 8" "b' mod 4 < 4" using assms by auto
  moreover from this have "28 - b' div 4 * 4 + (3 - b' mod 4) = 31 - (b' div 4 * 4 + b' mod 4)" by linarith
  then have "28 - b' div 4 * 4 + (3 - b' mod 4) = 31 - b'" by simp
  ultimately have "GetCRBit b' (ExpandCR cr s) = of_bool (bit cr (31 - b'))"
    by (simp add: GetCRBit_bit GetCRField_ExpandCR bit_and_15 bit_drop_bit_eq less_imp_diff_less)
  then show ?thesis by (simp add: CompactCR_ExpandCR GetCRBit_SetCRBit)
qed

theorem cr_roundtrip_witness:
  "CompactCR (ExpandCR 0x84000002 blank_cpu) = 0x84000002 \<and> GetCRBit 30 (SetCRBit 0 0 (ExpandCR 0x84000002 blank_cpu)) = 1"
  using cr_roundtrip [of 30 "0x84000002" blank_cpu 0 0] by simp

section \<open>Rotates and shifts\<close>

text \<open>
  C25. Rotates. Bit \<open>n\<close>, counted from the left, of the result of \<^verbatim>\<open>rlwinm\<close> and \<^verbatim>\<open>rlwnm\<close> is that bit of the rotated
  source inside the mask from MB to ME, which wraps around when MB is greater than ME, and zero outside it;
  \<^verbatim>\<open>rlwimi\<close> keeps the bits of the target outside the mask. The rotation is that of the library for every amount.
\<close>

theorem rotates_exact:
  assumes "n < 32"
  shows "bit (gpr (rlwinmx inst s) (RA inst)) (31 - n) =
      (in_mask (MB inst) (ME inst) n \<and> bit (word_rotl (SH inst) (gpr s (RS inst))) (31 - n)) \<and>
    bit (gpr (rlwnmx inst s) (RA inst)) (31 - n) =
      (in_mask (MB inst) (ME inst) n \<and> bit (word_rotl (unat (gpr s (RB inst))) (gpr s (RS inst))) (31 - n)) \<and>
    bit (gpr (rlwimix inst s) (RA inst)) (31 - n) =
      bit (if in_mask (MB inst) (ME inst) n then word_rotl (SH inst) (gpr s (RS inst)) else gpr s (RA inst)) (31 - n)"
  using rotate_bits [OF assms, of inst s] by simp

text \<open>\<^verbatim>\<open>rlwinm r4,r3,8,24,31\<close> extracts the top byte.\<close>

theorem rotates_exact_witness:
  "bit (gpr (rlwinmx 0x5464463E blank_cpu) 4) 4 \<and> \<not> bit (gpr (rlwinmx 0x5464463E blank_cpu) 4) 8"
  using rotates_exact [of 27 "0x5464463E" blank_cpu] rotates_exact [of 23 "0x5464463E" blank_cpu]
  by (simp add: inst_field_def in_mask_def bit_word_rotl_iff)

text \<open>
  Shifts. The amount is taken modulo 64. \<^verbatim>\<open>sraw\<close> and \<^verbatim>\<open>srawi\<close> divide the signed operand by the power of two,
  rounding down, and set CA exactly when the operand is negative and the division is inexact; \<^verbatim>\<open>slw\<close> multiplies
  modulo 2^32 and \<^verbatim>\<open>srw\<close> divides the unsigned operand. \<^verbatim>\<open>cntlzw\<close> counts the zero bits before the first one.
\<close>

theorem cpu_shifts:
  assumes "v = gpr s (RS inst)" "m = unat (gpr s (RB inst)) mod 64" "n = unat (gpr (cntlzwx inst s) (RA inst))"
  shows "sint (gpr (srawx inst s) (RA inst)) = sint v div 2 ^ m \<and>
    GetCarry (srawx inst s) = of_bool (sint v < 0 \<and> \<not> 2 ^ m dvd sint v) \<and>
    sint (gpr (srawix inst s) (RA inst)) = sint v div 2 ^ SH inst \<and>
    GetCarry (srawix inst s) = of_bool (sint v < 0 \<and> \<not> 2 ^ SH inst dvd sint v) \<and>
    unat (gpr (slwx inst s) (RA inst)) = unat v * 2 ^ m mod 2 ^ 32 \<and>
    unat (gpr (srwx inst s) (RA inst)) = unat v div 2 ^ m \<and>
    n \<le> 32 \<and> (\<forall>k < n. \<not> bit v (31 - k)) \<and> (n < 32 \<longrightarrow> bit v (31 - n))"
  using cntlzw_parts [OF assms(3,1)] unfolding assms(1,2)
  by (intro conjI sraw_parts shift_parts) auto

theorem cpu_shifts_witness:
  "sint (gpr (srawix 0x7D280670 blank_cpu) 8) = - 1879048183 \<and> GetCarry (srawix 0x7D280670 blank_cpu) = 0 \<and>
   sint (gpr (srawix 0x7D282670 blank_cpu) 8) = - 117440512 \<and> GetCarry (srawix 0x7D282670 blank_cpu) = 1"
  using cpu_shifts [OF refl refl refl, where s = blank_cpu and inst = "0x7D280670"]
    cpu_shifts [OF refl refl refl, where s = blank_cpu and inst = "0x7D282670"]
  by (simp add: inst_field_def)

section \<open>Products and quotients\<close>

text \<open>
  Products and quotients. \<^verbatim>\<open>mulhw\<close> with \<^verbatim>\<open>mullw\<close> is the exact signed product of the operands and \<^verbatim>\<open>mulhwu\<close> with
  \<^verbatim>\<open>mullw\<close> the unsigned one; \<^verbatim>\<open>divw\<close> is the quotient rounded towards zero unless the divisor is zero or the quotient
  does not fit, where it is -1 or 0 by the sign of the dividend; \<^verbatim>\<open>divwu\<close> is the quotient, zero for a zero divisor.
\<close>

theorem products_quotients:
  assumes "RA hi = RA lo" "RB hi = RB lo" "a = gpr s (RA lo)" "b = gpr s (RB lo)"
  shows "sint (gpr (mulhwx hi s) (RD hi)) * 2 ^ 32 + uint (gpr (mullwx lo s) (RD lo)) = sint a * sint b \<and>
    uint (gpr (mulhwux hi s) (RD hi)) * 2 ^ 32 + uint (gpr (mullwx lo s) (RD lo)) = uint a * uint b \<and>
    sint (gpr (divwx lo s) (RD lo)) =
      (if b = 0 \<or> sint a = - (2 ^ 31) \<and> sint b = - 1 then (if sint a < 0 then - 1 else 0) else sint a sdiv sint b) \<and>
    uint (gpr (divwux lo s) (RD lo)) = (if b = 0 then 0 else uint a div uint b)"
  using product_parts [OF assms] quotient_parts [OF assms(3,4)] by auto

theorem products_quotients_witness:
  "sint (gpr (divwx 0x7CA91BD6 blank_cpu) 5) = - 2 \<and> uint (gpr (divwux 0x7CA91BD6 blank_cpu) 5) = 3"
  using products_quotients [of "0x7CA91BD6" "0x7CA91BD6", OF refl refl refl refl, of blank_cpu]
  by (simp add: inst_field_def signed_divide_int_def)

section \<open>A lost carry\<close>

text \<open>
  \<^verbatim>\<open>addme\<close> and \<^verbatim>\<open>subfme\<close> write the right sum, with minus one as their second operand, but with the carry set on
  entry they always clear CA, where the sum always carries: the code passes the operand and \<^verbatim>\<open>carry - 1\<close>, which is
  zero, to the carry test.
\<close>

theorem addme_carry_lost:
  assumes "GetCarry s = 1" "(f, x) = (addmex, gpr s (RA inst)) \<or> (f, x) = (subfmex, NOT (gpr s (RA inst)))"
  shows "gpr (f inst s) (RD inst) = x + 0xFFFFFFFF + 1 \<and> carry_out x 0xFFFFFFFF 1 \<and> GetCarry (f inst s) = 0"
proof -
  have "carry_out x 0xFFFFFFFF 1" using uint_u32 [of x] by (simp add: carry_out_def)
  moreover have "\<not> Helper_Carry x 0" using uint_u32 [of x] by (simp add: Helper_Carry_iff)
  ultimately show ?thesis using assms by (auto simp: addmex_def subfmex_def Let_def)
qed

theorem addme_carry_lost_witness:
  "GetCarry (addmex 0x7C8301D4 blank_cpu) = 0 \<and> carry_out 0x30000003 0xFFFFFFFF 1"
  using addme_carry_lost [of blank_cpu addmex "gpr blank_cpu 3" "0x7C8301D4"] by (simp add: GetCarry_def inst_field_def)

end
