(* ===== verification/PPC_Translation.thy ===== *)
theory PPC_Translation
  imports PPC_MMU PPC_IntegerSpec
begin

text \<open>
  Address translation is what the registers and tables in memory say. The block tables that \<^verbatim>\<open>DBATUpdated\<close> and
  \<^verbatim>\<open>IBATUpdated\<close> precompute are compared with a direct reading of the BAT registers, and the two-way look-aside buffer
  with a walk of the page table: an invariant says that every valid entry holds what a walk would give, every
  operation on the buffer keeps it, and a generic cache interface turns this into a statement about sequences of
  translations.
\<close>

section \<open>The tables are the registers\<close>

text \<open>A pair of BAT registers that covers a block, and the physical block it gives.\<close>

definition bat_match :: "u32 \<Rightarrow> u32 \<Rightarrow> bool" where
  "bat_match u blk \<longleftrightarrow> (bat_VS u \<or> bat_VP u) \<and> bat_BEPI u AND bat_BL u = 0 \<and> blk AND NOT (bat_BL u) = bat_BEPI u"

definition bat_phys :: "u32 \<Rightarrow> u32 \<Rightarrow> u32 \<Rightarrow> u32" where
  "bat_phys u l blk = push_bit 17 (bat_BRPN l OR (blk AND bat_BL u))"

definition bat_entry :: "'a MMU_State_scheme \<Rightarrow> u32 \<Rightarrow> u32 \<Rightarrow> u32 \<Rightarrow> u32" where
  "bat_entry s u l blk = bat_phys u l blk OR bat_valid_bit (push_bit 17 blk) (bat_phys u l blk) s"

lemma block_split:
  fixes e m j k :: u32
  assumes "e AND m = 0" "j AND m = j"
  shows "e OR j = k \<longleftrightarrow> j = k AND m \<and> k AND NOT m = e"
proof -
  have em: "\<not> (bit e n \<and> bit m n)" for n using assms(1) by (metis bit_0_eq bit_and_iff bot_apply bot_bool_def)
  have jm: "bit j n \<Longrightarrow> bit m n" for n using assms(2) by (metis bit_and_iff)
  show ?thesis
  proof
    assume k: "e OR j = k"
    show "j = k AND m \<and> k AND NOT m = e"
      unfolding k [symmetric] using em jm by (auto intro!: bit_word_eqI simp: word_bit_simps bit_not_iff)
  next
    assume "j = k AND m \<and> k AND NOT m = e"
    then show "e OR j = k" by (auto intro!: bit_word_eqI simp: word_bit_simps bit_not_iff)
  qed
qed

lemma bat_field_less: "unat (bat_BEPI u) < 32768" "unat (bat_BL u) < 2048" "unat (bat_BRPN u) < 32768"
proof -
  show "unat (bat_BEPI u) < 32768" "unat (bat_BRPN u) < 32768"
    using unat_u32_less [of u] by (simp_all add: bat_BEPI_def bat_BRPN_def unat_drop_bit)
  show "unat (bat_BL u) < 2048"
    by (simp add: bat_BL_def take_bit_eq_mask unat_and_mask)
qed

lemma or_less_pow: "unat (x :: u32) < 2 ^ n \<Longrightarrow> unat y < 2 ^ n \<Longrightarrow> unat (x OR y) < 2 ^ n"
proof -
  assume "unat x < 2 ^ n" "unat y < 2 ^ n"
  then have "x OR y = (x OR y) AND mask n"
    by (simp add: and_mask_self bit.conj_disj_distrib2)
  then show ?thesis by (metis unat_and_mask mod_less_divisor zero_less_numeral zero_less_power)
qed

lemma shift_back: "unat (x :: u32) < 32768 \<Longrightarrow> drop_bit 17 (push_bit 17 x) = x"
proof (rule bit_word_eqI)
  fix n assume x: "unat x < 32768"
  have "bit x n \<Longrightarrow> n < 15" using small_bits [of x n 15] x by simp
  then show "bit (drop_bit 17 (push_bit 17 x)) n = bit x n" by (auto simp: bit_drop_bit_eq bit_push_bit_iff)
qed

lemma fold_bat_blocks:
  assumes "bat_BEPI u AND bat_BL u = 0" "m \<le> 2048" "n < 32768"
  shows "fold (\<lambda>j. bat_set_block u l s (of_nat j)) [0..<m] t n =
    (if unat (of_nat n AND bat_BL u) < m \<and> of_nat n AND NOT (bat_BL u) = bat_BEPI u then bat_entry s u l (of_nat n) else t n)"
  using assms(2)
proof (induction m)
  case (Suc m)
  let ?j = "of_nat m :: u32" and ?k = "of_nat n :: u32"
  have m: "m < 2048" using Suc.prems by simp
  have uj: "unat ?j = m" using m by (simp add: unat_of_nat)
  have uk: "unat ?k = n" using assms(3) by (simp add: unat_of_nat)
  have ih: "fold (\<lambda>j. bat_set_block u l s (of_nat j)) [0..<m] t n =
    (if unat (?k AND bat_BL u) < m \<and> ?k AND NOT (bat_BL u) = bat_BEPI u then bat_entry s u l ?k else t n)"
    using Suc by simp
  have lt: "unat (bat_BEPI u OR ?j) < 32768"
    using or_less_pow [of "bat_BEPI u" 15 ?j] bat_field_less(1) [of u] m by (simp add: uj)
  show ?case
  proof (cases "?j AND bat_BL u = ?j")
    case True
    note sp = block_split [OF assms(1) True, of ?k]
    have key: "unat (drop_bit 17 (push_bit 17 (bat_BEPI u OR ?j))) = n \<longleftrightarrow> ?j = ?k AND bat_BL u \<and> ?k AND NOT (bat_BL u) = bat_BEPI u"
      using sp by (simp only: shift_back [OF lt]) (metis uk word_unat_eq_iff)
    have eq: "?j = ?k AND bat_BL u \<longleftrightarrow> unat (?k AND bat_BL u) = m" by (metis uj word_unat_eq_iff)
    have ent: "bat_set_block u l s ?j X n = bat_entry s u l ?k"
      if "?j = ?k AND bat_BL u" "?k AND NOT (bat_BL u) = bat_BEPI u" for X
    proof -
      have "bat_BEPI u OR ?j = ?k" using sp that by blast
      then show ?thesis using key that True
        by (simp add: bat_set_block_def Let_def bat_entry_def bat_phys_def)
    qed
    have oth: "bat_set_block u l s ?j X n = X n"
      if "\<not> (?j = ?k AND bat_BL u \<and> ?k AND NOT (bat_BL u) = bat_BEPI u)" for X
    proof -
      have "n \<noteq> unat (drop_bit 17 (push_bit 17 (bat_BEPI u OR ?j)))" using that key by blast
      then show ?thesis using True unfolding bat_set_block_def Let_def by (simp only: if_True fun_upd_other simp_thms)
    qed
    show ?thesis
      using ent oth ih eq by (cases "?j = ?k AND bat_BL u \<and> ?k AND NOT (bat_BL u) = bat_BEPI u") (auto simp: less_Suc_eq)
  next
    case False
    then have "unat (?k AND bat_BL u) \<noteq> m"
      by (metis (no_types, lifting) and.assoc and.idem uj word_unat_eq_iff)
    moreover have "bat_set_block u l s ?j X = X" for X using False by (simp add: bat_set_block_def)
    ultimately show ?thesis using ih by (auto simp: less_Suc_eq)
  qed
qed simp

lemma update_bat_apply:
  assumes "n < 32768"
  shows "update_bat u l s t n = (if bat_match u (of_nat n) then bat_entry s u l (of_nat n) else t n)"
proof -
  have "unat (of_nat n AND bat_BL u :: u32) < Suc (unat (bat_BL u))"
    by (metis word_and_le1 word_le_nat_alt le_imp_less_Suc)
  then show ?thesis
    using fold_bat_blocks [of u "Suc (unat (bat_BL u))" n l s t] assms bat_field_less(2) [of u]
    by (auto simp: update_bat_def bat_match_def Suc_le_eq)
qed

text \<open>
  What a translation by blocks is to give: the fake virtual memory regions first, else the last pair of registers that
  matches.
\<close>

definition bat_registers :: "nat \<Rightarrow> nat \<Rightarrow> 'a MMU_State_scheme \<Rightarrow> (u32 \<times> u32) list" where
  "bat_registers base ext s =
    map (\<lambda>i. (spr s (base + i * 2), spr s (base + i * 2 + 1))) [0..<4] @
    (if bWii s \<and> bit (spr s SPR_HID4) 25 then map (\<lambda>i. (spr s (ext + i * 2), spr s (ext + i * 2 + 1))) [0..<4] else [])"

definition bat_spec :: "(u32 \<times> u32) list \<Rightarrow> 'a MMU_State_scheme \<Rightarrow> u32 \<Rightarrow> u32 option" where
  "bat_spec bats s a =
    (if m_pFakeVMEM s \<and> drop_bit 28 a \<in> {4, 7} then Some (0x7E000000 OR (a AND 0x01FFFFFF))
     else map_option (\<lambda>(u, l). bat_phys u l (drop_bit 17 a) OR (a AND 0x1FFFF))
       (List.find (\<lambda>(u, l). bat_match u (drop_bit 17 a)) (rev bats)))"

lemma fold_bats:
  assumes "n < 32768"
  shows "fold (\<lambda>(u, l). update_bat u l s) bats t n =
    (case List.find (\<lambda>(u, l). bat_match u (of_nat n)) (rev bats) of None \<Rightarrow> t n | Some (u, l) \<Rightarrow> bat_entry s u l (of_nat n))"
proof (induction bats rule: rev_induct)
  case (snoc b bats)
  then show ?case by (cases b) (simp add: update_bat_apply [OF assms])
qed simp

lemma UpdateBATs_fold:
  "UpdateBATs base s t = fold (\<lambda>(u, l). update_bat u l s) (map (\<lambda>i. (spr s (base + i * 2), spr s (base + i * 2 + 1))) [0..<4]) t"
  by (simp add: UpdateBATs_def fold_map comp_def)

text \<open>The fake blocks start at a multiple of 2048 blocks and are 2048.\<close>

lemma fake_index:
  assumes "i < 2048" "c = 8192 \<or> c = 14336"
  shows "unat (of_nat i + of_nat c :: u32) = i + c"
  using assms by (auto simp: unat_of_nat unat_add_lem [THEN iffD1])

lemma UpdateFakeMMUBat_apply:
  assumes "drop_bit 17 start = (of_nat c :: u32)" "c = 8192 \<or> c = 14336"
  shows "\<exists>fl. (fl = 1 \<or> fl = 3) \<and> UpdateFakeMMUBat start s t n =
    (if c \<le> n \<and> n < c + 2048 then (0x7E000000 OR (push_bit 17 (of_nat (n - c)) AND FAKEVMEM_MASK)) OR fl else t n)"
proof -
  define fl :: "nat \<Rightarrow> u32" where
    "fl i = (if OverlapsMemcheck (push_bit 17 (of_nat i + of_nat c)) 0x20000 (m_mem_checks s) then 1 else 3)" for i
  define E where "E i = (0x7E000000 OR (push_bit 17 (of_nat i) AND FAKEVMEM_MASK)) OR fl i" for i
  have "fold (\<lambda>i t. t(unat (of_nat i + of_nat c :: u32) := E i)) [0..<m] t n =
    (if c \<le> n \<and> n < c + m then E (n - c) else t n)" if "m \<le> 2048" for m
    using that
  proof (induction m)
    case (Suc m)
    then show ?case using fake_index [OF _ assms(2), of m] by (auto simp: fun_upd_apply)
  qed auto
  from this [of 2048] have "UpdateFakeMMUBat start s t n = (if c \<le> n \<and> n < c + 2048 then E (n - c) else t n)"
    unfolding UpdateFakeMMUBat_def Let_def assms(1) E_def fl_def by simp
  moreover have "fl (n - c) = 1 \<or> fl (n - c) = 3" by (simp add: fl_def)
  ultimately show ?thesis unfolding E_def by blast
qed

lemma valid_bit_cases: "bat_valid_bit v p s = 1 \<or> bat_valid_bit v p s = 3"
  by (simp add: bat_valid_bit_def Let_def)

lemma low17: "bit (push_bit 17 x :: u32) 0 = False" "bit (push_bit 17 x :: u32) 1 = False"
  by (simp_all add: bit_push_bit_iff)

lemma strip_flags:
  assumes "fl = 1 \<or> fl = 3" "\<not> bit p 0" "\<not> bit (p :: u32) 1"
  shows "bit (p OR fl) 0" "(p OR fl) AND NOT 3 = p"
proof -
  show "bit (p OR fl) 0" using assms(1) by (auto simp: bit_or_iff)
  have "p AND NOT 3 = p"
  proof (rule bit_word_eqI)
    fix n assume n: "n < LENGTH(32)"
    have three: "(3 :: u32) = mask 2" by (simp add: mask_eq_exp_minus_1)
    have "n < 2 \<Longrightarrow> \<not> bit p n" using assms(2,3) by (auto simp: less_2_cases_iff)
    then show "bit (p AND NOT 3) n = bit p n" unfolding three bit_and_iff bit_not_iff bit_mask_iff using n by auto
  qed
  then show "(p OR fl) AND NOT 3 = p" using assms(1) by (auto simp: bit.conj_disj_distrib2)
qed

lemma TranslateBat_flags:
  assumes "T (unat (drop_bit 17 a)) = p OR fl" "fl = 1 \<or> fl = 3" "\<not> bit p 0" "\<not> bit p 1"
  shows "TranslateBatAddess T a = Some (p OR (a AND 0x1FFFF))"
  using strip_flags [OF assms(2-4)] assms(1) by (simp add: TranslateBatAddess_def)

lemma fake_low: "\<not> bit (0x7E000000 OR (push_bit 17 x AND M) :: u32) 0" "\<not> bit (0x7E000000 OR (push_bit 17 x AND M) :: u32) 1"
  by (simp_all add: bit_or_iff bit_and_iff bit_push_bit_iff)

lemma bat_phys_low: "\<not> bit (bat_phys u l b) 0" "\<not> bit (bat_phys u l b) 1"
  unfolding bat_phys_def bit_push_bit_iff by simp_all

lemma fake_target:
  assumes "n = unat (drop_bit 17 (a :: u32))" "c = 8192 \<or> c = 14336" "c \<le> n"
  shows "(0x7E000000 OR (push_bit 17 (of_nat (n - c)) AND FAKEVMEM_MASK)) OR (a AND 0x1FFFF) = 0x7E000000 OR (a AND 0x01FFFFFF)"
proof -
  have m: "(0x1FFFFFF :: u32) = mask 25" "(0x1FFFF :: u32) = mask 17" by (simp_all add: mask_eq_exp_minus_1)
  have shift: "take_bit 25 (push_bit 17 x) = push_bit 17 (take_bit 8 x)" for x :: u32
    by (rule bit_word_eqI) (auto simp: bit_take_bit_iff bit_push_bit_iff)
  obtain q where q: "c = 256 * q" "256 * q \<le> n"
  proof -
    have "c = 256 * 32 \<or> c = 256 * 56" using assms(2) by simp
    then show ?thesis using that assms(3) by blast
  qed
  have "(n - c) mod 256 = n mod 256" using mod_mult_self2 [of "n - 256 * q" 256 q] q by simp
  then have "take_bit 8 (of_nat (n - c) :: u32) = take_bit 8 (of_nat n)"
    unfolding take_bit_of_nat by (simp add: take_bit_eq_mod)
  then have "take_bit 25 (push_bit 17 (of_nat (n - c) :: u32)) = take_bit 25 (push_bit 17 (drop_bit 17 a))"
    by (simp only: shift) (simp add: assms(1))
  moreover have "take_bit 25 (push_bit 17 (drop_bit 17 a)) OR take_bit 17 a = take_bit 25 a"
    by (rule bit_word_eqI) (auto simp: bit_or_iff bit_take_bit_iff bit_push_bit_iff bit_drop_bit_eq)
  ultimately show ?thesis unfolding m by (simp add: or.assoc flip: take_bit_eq_mask)
qed

lemma fake_region:
  assumes "n = unat (drop_bit 17 (a :: u32))"
  shows "drop_bit 28 a = 4 \<longleftrightarrow> 8192 \<le> n \<and> n < 8192 + 2048" "drop_bit 28 a = 7 \<longleftrightarrow> 14336 \<le> n \<and> n < 14336 + 2048"
proof -
  have "unat (drop_bit 28 a) = n div 2048" by (simp add: assms unat_drop_bit flip: div_mult2_eq)
  then show "drop_bit 28 a = 4 \<longleftrightarrow> 8192 \<le> n \<and> n < 8192 + 2048" "drop_bit 28 a = 7 \<longleftrightarrow> 14336 \<le> n \<and> n < 14336 + 2048"
    by (auto simp: word_unat_eq_iff)
qed

lemma translate_registers:
  assumes "n = unat (drop_bit 17 a)" "T n = fold (\<lambda>(u, l). update_bat u l s) bats (\<lambda>_. 0) n"
  shows "TranslateBatAddess T a = map_option (\<lambda>(u, l). bat_phys u l (drop_bit 17 a) OR (a AND 0x1FFFF))
    (List.find (\<lambda>(u, l). bat_match u (drop_bit 17 a)) (rev bats))"
proof -
  have n: "n < 32768" using unat_u32_less [of a] by (simp add: assms(1) unat_drop_bit)
  have bn: "(of_nat n :: u32) = drop_bit 17 a" by (simp add: assms(1))
  have tn: "T n = (case List.find (\<lambda>(u, l). bat_match u (drop_bit 17 a)) (rev bats) of
      None \<Rightarrow> 0 | Some (u, l) \<Rightarrow> bat_entry s u l (drop_bit 17 a))"
    unfolding assms(2) fold_bats [OF n] bn by (rule refl)
  show ?thesis
  proof (cases "List.find (\<lambda>(u, l). bat_match u (drop_bit 17 a)) (rev bats)")
    case None
    then show ?thesis using tn by (simp add: TranslateBatAddess_def assms(1))
  next
    case (Some b)
    then have "T (unat (drop_bit 17 a)) = bat_phys (fst b) (snd b) (drop_bit 17 a) OR
        bat_valid_bit (push_bit 17 (drop_bit 17 a)) (bat_phys (fst b) (snd b) (drop_bit 17 a)) s"
      using tn by (simp add: bat_entry_def split_def assms(1))
    from TranslateBat_flags [where T = T and a = a, OF this valid_bit_cases bat_phys_low] show ?thesis using Some by (simp add: split_def)
  qed
qed

lemma translate_fake:
  assumes "n = unat (drop_bit 17 a)" "T n = (0x7E000000 OR (push_bit 17 (of_nat (n - c)) AND FAKEVMEM_MASK)) OR fl" "fl = 1 \<or> fl = 3"
    "c = 8192 \<or> c = 14336" "c \<le> n"
  shows "TranslateBatAddess T a = Some (0x7E000000 OR (a AND 0x01FFFFFF))"
  using TranslateBat_flags [where T = T and a = a, OF assms(2) [unfolded assms(1)] assms(3) fake_low] fake_target [OF assms(1,4,5)]
  by (simp only: assms(1))

lemma build_bats_translate: "TranslateBatAddess (build_bats base ext s) a = bat_spec (bat_registers base ext s) s a"
proof -
  define n where "n = unat (drop_bit 17 a)"
  define t where "t = fold (\<lambda>(u, l). update_bat u l s) (bat_registers base ext s) (\<lambda>_. 0)"
  let ?t4 = "UpdateFakeMMUBat 0x40000000 s t" and ?T = "UpdateFakeMMUBat 0x70000000 s (UpdateFakeMMUBat 0x40000000 s t)"
  have bb: "build_bats base ext s = (if m_pFakeVMEM s then ?T else t)"
    by (simp add: build_bats_def Let_def UpdateBATs_fold t_def bat_registers_def)
  note d28 = fake_region [OF n_def]
  have dt: "drop_bit 17 (0x40000000 :: u32) = of_nat 8192" "drop_bit 17 (0x70000000 :: u32) = of_nat 14336" by simp_all
  obtain f4 where f4: "f4 = 1 \<or> f4 = 3" "?t4 n =
      (if 8192 \<le> n \<and> n < 8192 + 2048 then (0x7E000000 OR (push_bit 17 (of_nat (n - 8192)) AND FAKEVMEM_MASK)) OR f4 else t n)"
    using UpdateFakeMMUBat_apply [OF dt(1), of s t n] by auto
  obtain f7 where f7: "f7 = 1 \<or> f7 = 3" "?T n =
      (if 14336 \<le> n \<and> n < 14336 + 2048 then (0x7E000000 OR (push_bit 17 (of_nat (n - 14336)) AND FAKEVMEM_MASK)) OR f7 else ?t4 n)"
    using UpdateFakeMMUBat_apply [OF dt(2), of s ?t4 n] by auto
  consider "m_pFakeVMEM s" "drop_bit 28 a = 7" | "m_pFakeVMEM s" "drop_bit 28 a = 4" "drop_bit 28 a \<noteq> 7"
    | "\<not> (m_pFakeVMEM s \<and> drop_bit 28 a \<in> {4, 7})" by auto
  then show ?thesis
  proof cases
    case 1
    have "TranslateBatAddess ?T a = Some (0x7E000000 OR (a AND 0x01FFFFFF))"
      using 1 f7(2) d28(2) by (intro translate_fake [where c = 14336, OF n_def _ f7(1)]) (simp_all only: if_True simp_thms)
    then show ?thesis unfolding bat_spec_def bb using 1 by simp
  next
    case 2
    have "TranslateBatAddess ?T a = Some (0x7E000000 OR (a AND 0x01FFFFFF))"
      using 2 f4(2) f7(2) d28 by (intro translate_fake [where c = 8192, OF n_def _ f4(1)]) (simp_all only: if_True if_False simp_thms)
    then show ?thesis unfolding bat_spec_def bb using 2 by simp
  next
    case 3
    then have "build_bats base ext s n = t n" unfolding bb using f4(2) f7(2) d28 by auto
    then show ?thesis unfolding bat_spec_def if_not_P [OF 3] t_def by (rule translate_registers [OF n_def])
  qed
qed

text \<open>
  C16. Block address translation. Whatever the BAT registers hold, after \<^verbatim>\<open>DBATUpdated\<close> and \<^verbatim>\<open>IBATUpdated\<close> a look-up in the
  tables of 32768 blocks gives, for every address, what the registers say: in the fake virtual memory regions \<open>0x4\<close> and \<open>0x7\<close>
  of an emulator without an MMU the fake memory; otherwise the physical address by the last register pair (of the four,
  or on a Wii with the extended BATs on of the eight) whose block contains the address, with the bits of the
  address inside the block kept; and no translation if no pair is valid for it.
\<close>

theorem bat_translation:
  "TranslateBatAddess (dbat_table (DBATUpdated s)) a = bat_spec (bat_registers SPR_DBAT0U SPR_DBAT4U s) s a \<and>
   TranslateBatAddess (ibat_table (IBATUpdated s)) a = bat_spec (bat_registers SPR_IBAT0U SPR_IBAT4U s) s a"
  by (simp add: DBATUpdated_def IBATUpdated_def build_bats_translate)

section \<open>Bytes in memory\<close>

lemma fold_read_snoc: "read_be (Suc n) a mem = push_bit 8 (read_be n a mem) OR ucast (mem (a + of_nat n))"
  by (simp add: read_be_def)

lemma read_be_cong: "(\<And>i. i < n \<Longrightarrow> mem (a + of_nat i) = mem' (a + of_nat i)) \<Longrightarrow> read_be n a mem = read_be n a mem'"
  by (induction n) (simp_all add: fold_read_snoc read_be_def)

lemma write_be_apply:
  assumes "n < 2 ^ 32"
  shows "write_be n a v mem x = (if unat (x - a) < n then ucast (drop_bit (8 * (n - 1 - unat (x - a))) v) else mem x)"
proof -
  have "fold (\<lambda>i m. m(a + of_nat i := f i)) [0..<m] mem x = (if unat (x - a) < m then f (unat (x - a)) else mem x)"
    if "m < 2 ^ 32" for m and f :: "nat \<Rightarrow> u8"
    using that
  proof (induction m)
    case (Suc m)
    have "x = a + of_nat m \<longleftrightarrow> unat (x - a) = m"
    proof
      assume "x = a + of_nat m"
      then show "unat (x - a) = m" using Suc.prems by (simp add: unat_of_nat)
    next
      assume "unat (x - a) = m"
      moreover have "of_nat (unat (x - a)) = x - a" by simp
      ultimately show "x = a + of_nat m" by simp
    qed
    then show ?case using Suc by (auto simp: less_Suc_eq fun_upd_apply)
  qed simp
  from this [OF assms, of "\<lambda>i. ucast (drop_bit (8 * (n - 1 - i)) v)"] show ?thesis by (simp add: write_be_def)
qed

lemma bit_read_be:
  assumes "n \<le> 8" "k < 8 * n"
  shows "bit (read_be n a mem) k \<longleftrightarrow> bit (mem (a + of_nat (n - 1 - k div 8))) (k mod 8)"
  using assms
proof (induction n arbitrary: k)
  case (Suc n)
  show ?case
  proof (cases "k < 8")
    case True
    then show ?thesis using Suc.prems by (simp add: fold_read_snoc bit_or_iff bit_push_bit_iff bit_unsigned_iff)
  next
    case False
    then have "bit (read_be n a mem) (k - 8) \<longleftrightarrow> bit (mem (a + of_nat (n - 1 - (k - 8) div 8))) ((k - 8) mod 8)"
      using Suc.prems by (intro Suc.IH) auto
    moreover have "n - 1 - (k - 8) div 8 = n - k div 8" "(k - 8) mod 8 = k mod 8"
      using False by (simp_all add: le_div_geq le_mod_geq)
    moreover have "\<not> bit (mem x) k" for x using False bit_imp_le_length [of "mem x" k] by auto
    ultimately show ?thesis using Suc.prems False by (simp add: fold_read_snoc bit_or_iff bit_push_bit_iff bit_unsigned_iff)
  qed
qed simp

lemma read_be_high: "n \<le> 8 \<Longrightarrow> 8 * n \<le> k \<Longrightarrow> \<not> bit (read_be n a mem) k"
proof (induction n arbitrary: k)
  case (Suc n)
  then have "\<not> bit (read_be n a mem) (k - 8)" by (intro Suc.IH) auto
  moreover have "\<not> bit (mem x) k" for x using Suc.prems bit_imp_le_length [of "mem x" k] by auto
  ultimately show ?case by (simp add: fold_read_snoc bit_or_iff bit_push_bit_iff bit_unsigned_iff)
qed (simp add: read_be_def)

lemma read_write_be:
  assumes "n \<le> 8"
  shows "read_be n a (write_be n a v mem) = take_bit (8 * n) v"
proof (rule bit_word_eqI)
  fix k assume "k < LENGTH(64)"
  show "bit (read_be n a (write_be n a v mem)) k = bit (take_bit (8 * n) v) k"
  proof (cases "k < 8 * n")
    case True
    define i where "i = n - 1 - k div 8"
    have i: "i < n" "8 * (n - 1 - i) + k mod 8 = k"
    proof -
      have "k div 8 < n" using True by (simp add: less_mult_imp_div_less mult.commute)
      then show "i < n" "8 * (n - 1 - i) + k mod 8 = k" by (auto simp: i_def)
    qed
    have "bit (read_be n a (write_be n a v mem)) k \<longleftrightarrow> bit (write_be n a v mem (a + of_nat i)) (k mod 8)"
      using bit_read_be [OF assms True] by (simp add: i_def)
    also have "\<dots> \<longleftrightarrow> bit v (8 * (n - 1 - i) + k mod 8)"
      using i(1) assms by (simp add: write_be_apply unat_of_nat bit_unsigned_iff bit_drop_bit_eq)
    finally show ?thesis using True i(2) by (simp add: bit_take_bit_iff)
  qed (use assms read_be_high in \<open>auto simp: bit_take_bit_iff\<close>)
qed

section \<open>The look-aside buffer\<close>

text \<open>What the segment registers and the page table say of an address, without the buffer.\<close>

definition page_walk :: "XCheckTLBFlag \<Rightarrow> u32 \<Rightarrow> 'a MMU_State_scheme \<Rightarrow> TranslateAddressResult" where
  "page_walk flag address s =
    (let seg = sr s (unat (drop_bit 28 address AND 0xF))
     in if bit seg 31 then DIRECT_STORE_SEGMENT
        else if IsOpcodeFlag flag \<and> bit seg 28 then PAGE_FAULT
        else (case find_pte address seg s of
                None \<Rightarrow> PAGE_FAULT
              | Some p \<Rightarrow> PAGE_TABLE_TRANSLATED
                  ((ucast (read_be 4 (p + 4) (physical_base s)) AND 0xFFFFF000) OR (address AND 0xFFF))))"

text \<open>Every valid entry holds what a walk gives for its page, in the set of its index; page groups are aligned.\<close>

definition tlb_ok :: "'a MMU_State_scheme \<Rightarrow> bool" where
  "tlb_ok s \<longleftrightarrow> pagetable_base s AND 0x3F = 0 \<and>
    (\<forall>f k. \<forall>w < 2. let e = tlb s f k in tlb_tag e w \<noteq> INVALID_TAG \<longrightarrow>
       page_walk (if f then Opcode else Read) (push_bit 12 (tlb_tag e w)) s = PAGE_TABLE_TRANSLATED (tlb_paddr e w))"

lemma unat_add_mod8: "unat (x + y :: u32) mod 8 = (unat x + unat y) mod 8"
  by (simp add: unat_word_ariths mod_mod_cancel)

lemma mod8_sum: "P mod 8 = 0 \<Longrightarrow> (C + (P + k)) mod 8 = (C + k) mod (8 :: nat)"
  by (metis (no_types) add.left_commute add.left_neutral mod_add_left_eq)

lemma aligned_first_word:
  assumes "unat p mod 8 = 0" "unat q mod 8 = 0" "i < 4"
  shows "\<not> unat (q + of_nat i - (p + 4) :: u32) < 4"
proof
  define c where "c = q + of_nat i - (p + 4 :: u32)"
  assume "unat (q + of_nat i - (p + 4)) < 4"
  then have c: "unat c < 4" by (simp add: c_def)
  have "c + 4 + p = of_nat i + q" by (simp add: c_def)
  then have "(unat (c + 4) + (unat p + 0)) mod 8 = (unat (of_nat i :: u32) + (unat q + 0)) mod 8"
    using unat_add_mod8 [of "c + 4" p] unat_add_mod8 [of "of_nat i" q] by simp
  then have "unat (c + 4) mod 8 = i"
    using assms unfolding mod8_sum [OF assms(1)] mod8_sum [OF assms(2)] by (simp add: unat_of_nat)
  moreover have "unat (c + 4) mod 8 = unat c + 4" using c unat_add_mod8 [of c 4] by simp
  ultimately show False using assms(3) by simp
qed

lemma aligned_second_word:
  assumes "unat p mod 8 = 0" "unat q mod 8 = 0" "i < 4" "unat (q + 4 + of_nat i - (p + 4) :: u32) < 4"
  shows "q = p"
proof -
  define c where "c = q + 4 + of_nat i - (p + 4 :: u32)"
  have s: "c + p = of_nat i + q" by (simp add: c_def)
  then have "(unat c + (unat p + 0)) mod 8 = (unat (of_nat i :: u32) + (unat q + 0)) mod 8"
    using unat_add_mod8 [of c p] unat_add_mod8 [of "of_nat i" q] by simp
  then have "unat c = i"
    using assms(3,4) unfolding mod8_sum [OF assms(1)] mod8_sum [OF assms(2)] c_def [symmetric] by (simp add: unat_of_nat)
  moreover have "of_nat (unat c) = c" by simp
  ultimately show "q = p" using s by (simp add: add.commute)
qed

definition same_pages :: "(u32 \<Rightarrow> u8) \<Rightarrow> (u32 \<Rightarrow> u8) \<Rightarrow> bool" where
  "same_pages mem mem' \<longleftrightarrow> (\<forall>q. unat q mod 8 = 0 \<longrightarrow> read_be 4 q mem = read_be 4 q mem' \<and>
     (ucast (read_be 4 (q + 4) mem) :: u32) AND 0xFFFFF000 = ucast (read_be 4 (q + 4) mem') AND 0xFFFFF000)"

text \<open>Setting the referenced and changed bits of an entry changes no translation.\<close>

lemma access_bits_rpn: "access_bits flag p AND 0xFFFFF000 = p AND 0xFFFFF000"
  by (cases flag) (simp_all add: access_bits_def bit.conj_disj_distrib2)

lemma same_pages_access:
  assumes "unat p mod 8 = 0"
  shows "same_pages (write_be 4 (p + 4) (ucast (access_bits flag (ucast (read_be 4 (p + 4) mem)))) mem) mem"
proof -
  let ?v = "ucast (access_bits flag (ucast (read_be 4 (p + 4) mem))) :: u64"
  let ?m = "write_be 4 (p + 4) ?v mem"
  have "read_be 4 q ?m = read_be 4 q mem \<and>
      (ucast (read_be 4 (q + 4) ?m) :: u32) AND 0xFFFFF000 = ucast (read_be 4 (q + 4) mem) AND 0xFFFFF000"
    if q: "unat q mod 8 = 0" for q
  proof
    show "read_be 4 q ?m = read_be 4 q mem"
      using aligned_first_word [OF assms q] by (intro read_be_cong) (simp add: write_be_apply)
    show "(ucast (read_be 4 (q + 4) ?m) :: u32) AND 0xFFFFF000 = ucast (read_be 4 (q + 4) mem) AND 0xFFFFF000"
    proof (cases "q = p")
      case True
      have "(ucast (take_bit 32 (ucast w :: u64)) :: u32) = w" for w :: u32
        by (rule bit_word_eqI) (simp add: bit_unsigned_iff bit_take_bit_iff)
      then show ?thesis using True read_write_be [of 4 "p + 4" ?v mem] by (simp add: access_bits_rpn)
    next
      case False
      then have "read_be 4 (q + 4) ?m = read_be 4 (q + 4) mem"
        using aligned_second_word [OF assms q] by (intro read_be_cong) (auto simp: write_be_apply)
      then show ?thesis by simp
    qed
  qed
  then show ?thesis by (simp add: same_pages_def)
qed

lemma aligned_bits: "(\<And>n. n < 3 \<Longrightarrow> \<not> bit w n) \<Longrightarrow> unat (w :: u32) mod 8 = 0"
proof -
  assume b: "\<And>n. n < 3 \<Longrightarrow> \<not> bit w n"
  have "w AND mask 3 = 0" by (rule bit_word_eqI) (use b in \<open>auto simp: bit_and_iff bit_mask_iff\<close>)
  then show "unat w mod 8 = 0" using unat_and_mask [of w 3] by simp
qed

lemma pteg_aligned:
  assumes "pagetable_base s AND 0x3F = 0"
  shows "unat (pteg_address hash s) mod 8 = 0"
proof (rule aligned_bits)
  fix n :: nat assume n: "n < 3"
  have m: "(0x3F :: u32) = mask 6" by (simp add: mask_eq_exp_minus_1)
  have "\<not> bit (pagetable_base s AND mask 6) n" using assms unfolding m by simp
  then have "\<not> bit (pagetable_base s) n" using n by (simp add: bit_and_iff bit_mask_iff)
  then show "\<not> bit (pteg_address hash s) n" unfolding pteg_address_def bit_or_iff bit_push_bit_iff using n by simp
qed

lemma search_pteg_aligned:
  "search_pteg pte1 a n mem = Some p \<Longrightarrow> unat a mod 8 = 0 \<Longrightarrow> unat p mod 8 = 0"
proof (induction n arbitrary: a)
  case (Suc n)
  have "unat (a + 8) mod 8 = 0" using Suc.prems(2) unat_add_mod8 [of a 8] by (simp add: mod_add_left_eq [symmetric])
  then show ?case using Suc by (auto split: if_splits)
qed simp

lemma search_pteg_same:
  "same_pages mem mem' \<Longrightarrow> unat a mod 8 = 0 \<Longrightarrow> search_pteg pte1 a n mem = search_pteg pte1 a n mem'"
proof (induction n arbitrary: a)
  case (Suc n)
  have "unat (a + 8) mod 8 = 0" using Suc.prems(2) unat_add_mod8 [of a 8] by (simp add: mod_add_left_eq [symmetric])
  then show ?case using Suc by (auto simp: same_pages_def)
qed simp

lemma find_pte_aligned: "find_pte a seg s = Some p \<Longrightarrow> pagetable_base s AND 0x3F = 0 \<Longrightarrow> unat p mod 8 = 0"
  by (auto simp: find_pte_def Let_def split: option.splits intro: search_pteg_aligned [OF _ pteg_aligned])

text \<open>States that agree on segment registers and page tables.\<close>

definition same_tables :: "'a MMU_State_scheme \<Rightarrow> 'a MMU_State_scheme \<Rightarrow> bool" where
  "same_tables s s' \<longleftrightarrow> sr s' = sr s \<and> pagetable_base s' = pagetable_base s \<and>
     pagetable_hashmask s' = pagetable_hashmask s \<and> same_pages (physical_base s') (physical_base s)"

lemma same_pages_refl [simp]: "same_pages mem mem"
  by (simp add: same_pages_def)

lemma find_pte_same:
  assumes "same_tables s s'" "pagetable_base s AND 0x3F = 0"
  shows "find_pte a seg s' = find_pte a seg s"
proof -
  have b: "pagetable_base s' AND 0x3F = 0" "\<And>h. pteg_address h s' = pteg_address h s"
    using assms by (auto simp: same_tables_def pteg_address_def)
  have "search_pteg p (pteg_address h s') n (physical_base s') = search_pteg p (pteg_address h s) n (physical_base s)" for p h n
    using assms(1) search_pteg_same [OF _ pteg_aligned [OF b(1)]] b(2) by (simp add: same_tables_def)
  then show ?thesis by (simp only: find_pte_def Let_def)
qed

lemma page_walk_same:
  assumes "same_tables s s'" "pagetable_base s AND 0x3F = 0"
  shows "page_walk flag a s' = page_walk flag a s"
proof -
  have "sr s' = sr s" using assms(1) by (simp add: same_tables_def)
  moreover have "(ucast (read_be 4 (p + 4) (physical_base s')) :: u32) AND 0xFFFFF000 = ucast (read_be 4 (p + 4) (physical_base s)) AND 0xFFFFF000"
    if "find_pte a seg s = Some p" for p seg
    using assms find_pte_aligned [OF that assms(2)] by (simp add: same_tables_def same_pages_def)
  ultimately show ?thesis using find_pte_same [OF assms] by (auto simp: page_walk_def Let_def split: option.splits)
qed

lemma page_walk_flag: "IsOpcodeFlag flag = IsOpcodeFlag flag' \<Longrightarrow> page_walk flag a s = page_walk flag' a s"
  by (simp add: page_walk_def Let_def)

lemma page_walk_table: "page_walk (if IsOpcodeFlag flag then Opcode else Read) a s = page_walk flag a s"
  by (rule page_walk_flag) (simp add: IsOpcodeFlag_def)

lemma page_of: "drop_bit 12 (push_bit 12 (drop_bit 12 a)) = drop_bit 12 (a :: u32)"
  "drop_bit 22 (push_bit 12 (drop_bit 12 a)) = drop_bit 22 a" "drop_bit 28 (push_bit 12 (drop_bit 12 a)) = drop_bit 28 a"
  "push_bit 12 (drop_bit 12 a) AND 0xFFF = 0"
proof -
  have m: "(0xFFF :: u32) = mask 12" by (simp add: mask_eq_exp_minus_1)
  show "push_bit 12 (drop_bit 12 a) AND 0xFFF = 0" unfolding m
    by (rule bit_word_eqI) (auto simp: bit_and_iff bit_mask_iff bit_push_bit_iff)
qed (rule bit_word_eqI; auto simp: bit_drop_bit_eq bit_push_bit_iff dest: bit_imp_le_length)+

lemma page_walk_page:
  "page_walk flag a s = (case page_walk flag (push_bit 12 (drop_bit 12 a)) s of
     PAGE_TABLE_TRANSLATED p \<Rightarrow> PAGE_TABLE_TRANSLATED (p OR (a AND 0xFFF)) | r \<Rightarrow> r)"
  unfolding page_walk_def Let_def find_pte_def page_of by (auto split: option.splits)

lemma rpn_mask: "push_bit 12 (drop_bit 12 p) = (p :: u32) AND 0xFFFFF000"
proof -
  have e: "(0xFFFFF000 :: u32) = NOT (mask 12)" by (simp add: mask_eq_exp_minus_1)
  show ?thesis
  proof (rule bit_word_eqI)
    fix n assume "n < LENGTH(32)"
    then show "bit (push_bit 12 (drop_bit 12 p)) n = bit (p AND 0xFFFFF000) n"
      unfolding e bit_and_iff bit_not_iff bit_mask_iff bit_push_bit_iff bit_drop_bit_eq comp_def by auto
  qed
qed

lemma tlb_okI:
  assumes "tlb_ok s" "same_tables s s'"
    and "\<And>f k w. w < 2 \<Longrightarrow> tlb_tag (tlb s' f k) w \<noteq> INVALID_TAG \<Longrightarrow>
      tlb_tag (tlb s' f k) w = tlb_tag (tlb s f k) w \<and> tlb_paddr (tlb s' f k) w = tlb_paddr (tlb s f k) w \<or>
      page_walk (if f then Opcode else Read) (push_bit 12 (tlb_tag (tlb s' f k) w)) s = PAGE_TABLE_TRANSLATED (tlb_paddr (tlb s' f k) w)"
  shows "tlb_ok s'"
proof -
  have b: "pagetable_base s AND 0x3F = 0" using assms(1) by (simp add: tlb_ok_def)
  moreover have "pagetable_base s' = pagetable_base s" using assms(2) by (simp add: same_tables_def)
  ultimately show ?thesis
    using assms(1,3) unfolding tlb_ok_def Let_def page_walk_same [OF assms(2) b] by metis
qed

lemma same_tables_tlb [simp]: "same_tables s (set_tlb f k e s)" "same_tables s s"
  by (simp_all add: same_tables_def set_tlb_def)

lemma set_tlb_get: "tlb (set_tlb f k e s) f' k' = (if f' = f \<and> k' = k then e else tlb s f' k')"
  by (auto simp: set_tlb_def)

text \<open>A look-up changes no tag and no address.\<close>

lemma lookup_way_shape:
  assumes "lookup_way flag a w s = (r, s')"
  shows "s' = s \<or> (\<exists>f k x y. s' = set_tlb f k ((tlb s f k)\<lparr>tlb_pte := x, tlb_recent := y\<rparr>) s)"
    "r = Found pa \<Longrightarrow> pa = tlb_paddr (tlb s (IsOpcodeFlag flag) (tlb_index a)) w OR (a AND 0xFFF)"
proof -
  let ?f = "IsOpcodeFlag flag" and ?k = "tlb_index a"
  have e: "e\<lparr>tlb_pte := x\<rparr> = e\<lparr>tlb_pte := x, tlb_recent := tlb_recent e\<rparr>"
    "e\<lparr>tlb_recent := y\<rparr> = e\<lparr>tlb_pte := tlb_pte e, tlb_recent := y\<rparr>" for e :: TLBEntry and x y by simp_all
  have "s' = s \<or> (\<exists>x. s' = set_tlb ?f ?k ((tlb s ?f ?k)\<lparr>tlb_pte := x\<rparr>) s) \<or> (\<exists>y. s' = set_tlb ?f ?k ((tlb s ?f ?k)\<lparr>tlb_recent := y\<rparr>) s)"
    using assms by (auto simp: lookup_way_def Let_def split: if_splits)
  then show "s' = s \<or> (\<exists>f k x y. s' = set_tlb f k ((tlb s f k)\<lparr>tlb_pte := x, tlb_recent := y\<rparr>) s)"
    using e by metis
  show "r = Found pa \<Longrightarrow> pa = tlb_paddr (tlb s ?f ?k) w OR (a AND 0xFFF)"
    using assms by (auto simp: lookup_way_def Let_def split: if_splits)
qed

lemma lookup_shape:
  assumes "LookupTLBPageAddress flag a s = (r, s')"
  shows "s' = s \<or> (\<exists>f k x y. s' = set_tlb f k ((tlb s f k)\<lparr>tlb_pte := x, tlb_recent := y\<rparr>) s)"
proof -
  consider "lookup_way flag a 0 s = (r, s')" | "lookup_way flag a 1 s = (r, s')" | "s' = s"
    using assms by (auto simp: LookupTLBPageAddress_def Let_def split: if_splits)
  then show ?thesis using lookup_way_shape(1) by cases blast+
qed

lemma lookup_keeps:
  assumes "LookupTLBPageAddress flag a s = (r, s')"
  shows "same_tables s s'" "tlb_tag (tlb s' f k) = tlb_tag (tlb s f k)" "tlb_paddr (tlb s' f k) = tlb_paddr (tlb s f k)"
    "sr s' = sr s" "physical_base s' = physical_base s"
  using lookup_shape [OF assms] by (auto simp: set_tlb_get) (simp_all add: set_tlb_def)

lemma lookup_found:
  assumes "LookupTLBPageAddress flag a s = (Found pa, s')" "tlb_ok s"
  shows "page_walk flag a s = PAGE_TABLE_TRANSLATED pa"
proof -
  let ?f = "IsOpcodeFlag flag" and ?e = "tlb s (IsOpcodeFlag flag) (tlb_index a)"
  obtain w where w: "w < 2" "tlb_tag ?e w = drop_bit 12 a" "pa = tlb_paddr ?e w OR (a AND 0xFFF)"
  proof -
    consider "lookup_way flag a 0 s = (Found pa, s')" "tlb_tag ?e 0 = drop_bit 12 a"
      | "lookup_way flag a 1 s = (Found pa, s')" "tlb_tag ?e 1 = drop_bit 12 a"
      using assms(1) by (auto simp: LookupTLBPageAddress_def Let_def split: if_splits)
    then show ?thesis
    proof cases
      case 1
      then show ?thesis using that [of 0] lookup_way_shape(2) [OF 1(1) refl] by simp
    next
      case 2
      then show ?thesis using that [of 1] lookup_way_shape(2) [OF 2(1) refl] by simp
    qed
  qed
  have "drop_bit 12 a \<noteq> INVALID_TAG"
  proof
    assume "drop_bit 12 a = INVALID_TAG"
    then have "unat (drop_bit 12 a) = 4294967295" by simp
    then show False using unat_u32_less [of a] by (simp add: unat_drop_bit)
  qed
  then have "page_walk (if ?f then Opcode else Read) (push_bit 12 (drop_bit 12 a)) s = PAGE_TABLE_TRANSLATED (tlb_paddr ?e w)"
    using assms(2) w(1,2) unfolding tlb_ok_def Let_def by metis
  then have "page_walk flag (push_bit 12 (drop_bit 12 a)) s = PAGE_TABLE_TRANSLATED (tlb_paddr ?e w)"
    unfolding page_walk_table .
  then show ?thesis using page_walk_page [of flag a s] w(3) by simp
qed

lemma update_tlb_ok:
  assumes "tlb_ok s" "page_walk flag (push_bit 12 (drop_bit 12 a)) s = PAGE_TABLE_TRANSLATED (PTE2 AND 0xFFFFF000)"
  shows "tlb_ok (UpdateTLBEntry flag PTE2 a s)" "same_tables s (UpdateTLBEntry flag PTE2 a s)"
proof -
  let ?s = "UpdateTLBEntry flag PTE2 a s" and ?f = "IsOpcodeFlag flag" and ?k = "tlb_index a"
  show st: "same_tables s ?s" by (simp add: UpdateTLBEntry_def Let_def)
  have pw: "page_walk (if ?f then Opcode else Read) (push_bit 12 (drop_bit 12 a)) s = PAGE_TABLE_TRANSLATED (PTE2 AND 0xFFFFF000)"
    unfolding page_walk_table by (rule assms(2))
  show "tlb_ok ?s"
  proof (cases "IsNoExceptionFlag flag")
    case True
    then show ?thesis using assms(1) by (simp add: UpdateTLBEntry_def)
  next
    case False
    obtain ix y where u: "?s = set_tlb ?f ?k ((tlb s ?f ?k)\<lparr>tlb_recent := y, tlb_paddr := (tlb_paddr (tlb s ?f ?k))(ix := PTE2 AND 0xFFFFF000),
        tlb_pte := (tlb_pte (tlb s ?f ?k))(ix := PTE2), tlb_tag := (tlb_tag (tlb s ?f ?k))(ix := drop_bit 12 a)\<rparr>) s"
      using False by (auto simp: UpdateTLBEntry_def Let_def rpn_mask)
    show ?thesis
      by (rule tlb_okI [OF assms(1) st]) (use pw in \<open>auto simp: u set_tlb_get split: if_splits\<close>)
  qed
qed

lemma page_walk_at_page:
  assumes "\<not> bit (sr s (unat (drop_bit 28 a AND 0xF))) 31" "\<not> (IsOpcodeFlag flag \<and> bit (sr s (unat (drop_bit 28 a AND 0xF))) 28)"
    "find_pte a (sr s (unat (drop_bit 28 a AND 0xF))) s = Some p"
  shows "page_walk flag (push_bit 12 (drop_bit 12 a)) s =
    PAGE_TABLE_TRANSLATED (ucast (read_be 4 (p + 4) (physical_base s)) AND 0xFFFFF000)"
proof -
  have "find_pte (push_bit 12 (drop_bit 12 a)) seg s = find_pte a seg s" for seg
    unfolding find_pte_def page_of by (rule refl)
  then show ?thesis unfolding page_walk_def Let_def page_of using assms by simp
qed

lemma translate_page_walk:
  assumes "tlb_ok s" "TranslatePageAddress a flag s = (r, s')"
  shows "r = page_walk flag a s \<and> tlb_ok s' \<and> same_tables s s'"
proof -
  obtain res s1 where l: "LookupTLBPageAddress flag a s = (res, s1)" by fastforce
  note k = lookup_keeps [OF l]
  have base: "pagetable_base s AND 0x3F = 0" "pagetable_base s1 AND 0x3F = 0"
    using assms(1) k(1) by (auto simp: tlb_ok_def same_tables_def)
  have ok1: "tlb_ok s1" by (rule tlb_okI [OF assms(1) k(1)]) (simp add: k)
  note pw1 = page_walk_same [OF k(1) base(1)]
  let ?seg = "sr s1 (unat (drop_bit 28 a AND 0xF))"
  show ?thesis
  proof (cases "\<exists>pa. res = Found pa")
    case True
    then obtain pa where "res = Found pa" by blast
    then show ?thesis using l assms(2) lookup_found [OF _ assms(1)] ok1 k(1) by (auto simp: TranslatePageAddress_def)
  next
    case nf: False
    show ?thesis
    proof (cases "bit ?seg 31 \<or> IsOpcodeFlag flag \<and> bit ?seg 28 \<or> find_pte a ?seg s1 = None")
      case True
      then have "r = page_walk flag a s1 \<and> s' = s1"
        using l assms(2) nf by (cases res) (auto simp: TranslatePageAddress_def page_walk_def Let_def split: if_splits)
      then show ?thesis using ok1 k(1) pw1 by simp
    next
      case False
      then obtain p where p: "find_pte a ?seg s1 = Some p" by auto
      define P where "P = (ucast (read_be 4 (p + 4) (physical_base s1)) :: u32)"
      define s2 where "s2 = (if IsNoExceptionFlag flag then s1
        else s1\<lparr>physical_base := write_be 4 (p + 4) (ucast (access_bits flag P)) (physical_base s1)\<rparr>)"
      have "TranslatePageAddress a flag s = (PAGE_TABLE_TRANSLATED ((access_bits flag P AND 0xFFFFF000) OR (a AND 0xFFF)),
          if res \<noteq> UpdateC then UpdateTLBEntry flag (access_bits flag P) a s2 else s2)"
        using l nf False p unfolding TranslatePageAddress_def Let_def P_def s2_def rpn_mask [symmetric]
        by (cases res) simp_all
      then have r: "r = PAGE_TABLE_TRANSLATED ((P AND 0xFFFFF000) OR (a AND 0xFFF))"
        and s': "s' = s2 \<or> s' = UpdateTLBEntry flag (access_bits flag P) a s2"
        using assms(2) unfolding access_bits_rpn by (simp_all split: if_splits)
      have st: "same_tables s1 s2"
        using same_pages_access [OF find_pte_aligned [OF p base(2)], of flag "physical_base s1"] unfolding P_def s2_def
        by (simp add: same_tables_def)
      have ok2: "tlb_ok s2" by (rule tlb_okI [OF ok1 st]) (simp add: s2_def)
      have "page_walk flag (push_bit 12 (drop_bit 12 a)) s2 = PAGE_TABLE_TRANSLATED (access_bits flag P AND 0xFFFFF000)"
        using page_walk_same [OF st base(2)] page_walk_at_page [OF _ _ p] False by (simp add: access_bits_rpn P_def)
      note up = update_tlb_ok [OF ok2 this]
      have tr: "same_tables s s'" using s' up(2) st k(1) by (auto simp: same_tables_def same_pages_def)
      have "r = page_walk flag a s1" unfolding r page_walk_def Let_def using False p by (simp add: P_def)
      then show ?thesis using tr s' up(1) ok2 pw1 by auto
    qed
  qed
qed

section \<open>Sequences of translations\<close>

text \<open>Look-ups one after the other, the state threaded through them.\<close>

primrec lookups :: "('k \<Rightarrow> 's \<Rightarrow> 'r \<times> 's) \<Rightarrow> 'k list \<Rightarrow> 's \<Rightarrow> 'r list \<times> 's" where
  "lookups f [] s = ([], s)"
| "lookups f (k # ks) s = (let (r, s1) = f k s; (rs, s2) = lookups f ks s1 in (r # rs, s2))"

text \<open>
  The interface of a cache: a legal look-up answers as the reference does, keeps the invariant of the cache, and changes no
  answer of the reference and no legality.
\<close>

locale cache =
  fixes lookup :: "'k \<Rightarrow> 's \<Rightarrow> 'r \<times> 's" and reference :: "'k \<Rightarrow> 's \<Rightarrow> 'r" and inv :: "'s \<Rightarrow> bool"
    and legal :: "'k \<Rightarrow> 's \<Rightarrow> bool"
  assumes answers: "inv s \<Longrightarrow> legal k s \<Longrightarrow> fst (lookup k s) = reference k s"
    and keeps: "inv s \<Longrightarrow> legal k s \<Longrightarrow> inv (snd (lookup k s))"
    and stable: "inv s \<Longrightarrow> legal k s \<Longrightarrow> reference k' (snd (lookup k s)) = reference k' s"
    and legal_stable: "inv s \<Longrightarrow> legal k s \<Longrightarrow> legal k' (snd (lookup k s)) = legal k' s"
begin

lemma lookups_spec:
  "inv s \<Longrightarrow> (\<And>k. k \<in> set ks \<Longrightarrow> legal k s) \<Longrightarrow>
    fst (lookups lookup ks s) = map (\<lambda>k. reference k s) ks \<and> inv (snd (lookups lookup ks s))"
proof (induction ks arbitrary: s)
  case (Cons k ks)
  have k: "legal k s" using Cons.prems by simp
  let ?s = "snd (lookup k s)"
  have "\<And>k'. k' \<in> set ks \<Longrightarrow> legal k' ?s" using Cons.prems legal_stable [OF Cons.prems(1) k] by simp
  from Cons.IH [OF keeps [OF Cons.prems(1) k] this] show ?case
    using answers [OF Cons.prems(1) k] stable [OF Cons.prems(1) k] by (simp add: split_def Let_def)
qed simp

end

definition translate_page :: "XCheckTLBFlag \<times> u32 \<Rightarrow> 'a MMU_State_scheme \<Rightarrow> TranslateAddressResult \<times> 'a MMU_State_scheme" where
  "translate_page k s = TranslatePageAddress (snd k) (fst k) s"

definition walk_page :: "XCheckTLBFlag \<times> u32 \<Rightarrow> 'a MMU_State_scheme \<Rightarrow> TranslateAddressResult" where
  "walk_page k s = page_walk (fst k) (snd k) s"

interpretation tlb: cache translate_page walk_page tlb_ok "\<lambda>_ _. True"
proof
  fix s :: "'a MMU_State_scheme" and k k'
  assume ok: "tlb_ok s"
  obtain r s' where t: "TranslatePageAddress (snd k) (fst k) s = (r, s')" by fastforce
  note p = translate_page_walk [OF ok t]
  show "fst (translate_page k s) = walk_page k s" "tlb_ok (snd (translate_page k s))"
    using p by (simp_all add: translate_page_def walk_page_def t)
  have "pagetable_base s AND 0x3F = 0" using ok by (simp add: tlb_ok_def)
  then show "walk_page k' (snd (translate_page k s)) = walk_page k' s"
    using p page_walk_same [of s s'] by (simp add: translate_page_def walk_page_def t)
qed (rule refl)

lemma invalidate_tlb:
  assumes "tlb_ok s"
  shows "tlb_ok (InvalidateTLBEntry b s)" "fst (LookupTLBPageAddress flag b (InvalidateTLBEntry b s)) = NotFound"
proof -
  have "same_tables s (InvalidateTLBEntry b s)" by (simp add: InvalidateTLBEntry_def Let_def same_tables_def set_tlb_def)
  then show "tlb_ok (InvalidateTLBEntry b s)"
    by (rule tlb_okI [OF assms])
      (auto simp: InvalidateTLBEntry_def Let_def set_tlb_get invalid_entry_def less_2_cases_iff split: if_splits)
  have "unat (drop_bit 12 b) < 1048576" using unat_u32_less [of b] by (simp add: unat_drop_bit)
  then have "drop_bit 12 b \<noteq> 0xFFFFFFFF" by (auto simp: word_unat_eq_iff)
  then show "fst (LookupTLBPageAddress flag b (InvalidateTLBEntry b s)) = NotFound"
    by (auto simp: LookupTLBPageAddress_def InvalidateTLBEntry_def Let_def set_tlb_get invalid_entry_def)
qed

text \<open>
  C15. The look-aside buffer is invisible. From a state where the valid entries agree with the page tables, any sequence
  of page translations (loads, stores, fetches and look-ups without exceptions, in any order) answers, each time, what a
  walk of the segment registers and of the hashed page table of the first state answers: the evictions of the
  two-way buffer and the referenced and changed bits written back into the table by the translations change no later answer.
  The agreement still holds at the end, and \<^verbatim>\<open>InvalidateTLBEntry\<close> keeps it and leaves no entry for its page.
\<close>

theorem tlb_transparent:
  assumes "tlb_ok s"
  shows "fst (lookups translate_page ks s) = map (\<lambda>(flag, a). page_walk flag a s) ks \<and> tlb_ok (snd (lookups translate_page ks s)) \<and>
    tlb_ok (InvalidateTLBEntry b s) \<and> fst (LookupTLBPageAddress flag b (InvalidateTLBEntry b s)) = NotFound"
  using tlb.lookups_spec [OF assms, of ks] invalidate_tlb [OF assms] by (simp add: walk_page_def split_def)

section \<open>A witness\<close>

text \<open>A machine with one entry in its page table, at address 0: page 0 of segment 0 is page 5 of memory.\<close>

definition page_mmu :: MMU_State where
  "page_mmu = CPU_State.extend blank_cpu (MMU_State.fields
    (\<lambda>_ _. \<lparr>tlb_tag = \<lambda>_. INVALID_TAG, tlb_paddr = \<lambda>_. 0, tlb_pte = \<lambda>_. 0, tlb_recent = 0\<rparr>) 0 0x3FF (\<lambda>_. 0)
    (\<lambda>n. if n = 0 then 3 else 0) ((\<lambda>_. 0)(0 := 0x80, 6 := 0x50)) False False True False [] False False 0)"

lemma page_mmu_fields [simp]:
  "tlb page_mmu = (\<lambda>_ _. \<lparr>tlb_tag = \<lambda>_. INVALID_TAG, tlb_paddr = \<lambda>_. 0, tlb_pte = \<lambda>_. 0, tlb_recent = 0\<rparr>)"
  "pagetable_base page_mmu = 0" "pagetable_hashmask page_mmu = 0x3FF" "dbat_table page_mmu = (\<lambda>n. if n = 0 then 3 else 0)"
  "physical_base page_mmu = (\<lambda>_. 0)(0 := 0x80, 6 := 0x50)" "sr page_mmu = (\<lambda>_. 0)" "m_mem_checks page_mmu = []" "bMMU page_mmu"
  "\<not> m_pEXRAM page_mmu" "\<not> m_pFakeVMEM page_mmu"
  by (simp_all add: page_mmu_def CPU_State.defs MMU_State.defs blank_cpu_def ST_State.defs blank_st_def)

theorem tlb_transparent_witness:
  "fst (lookups translate_page [(Read, 0x123), (Write, 0x123), (Read, 0x456), (Read, 0x1000)] page_mmu) =
     [PAGE_TABLE_TRANSLATED 0x5123, PAGE_TABLE_TRANSLATED 0x5123, PAGE_TABLE_TRANSLATED 0x5456, PAGE_FAULT]"
proof -
  have ok: "tlb_ok page_mmu" by (simp add: tlb_ok_def)
  have w: "page_walk Read 0x123 page_mmu = PAGE_TABLE_TRANSLATED 0x5123" "page_walk Write 0x123 page_mmu = PAGE_TABLE_TRANSLATED 0x5123"
    "page_walk Read 0x456 page_mmu = PAGE_TABLE_TRANSLATED 0x5456" "page_walk Read 0x1000 page_mmu = PAGE_FAULT"
    by code_simp+
  show ?thesis using tlb_transparent [OF ok, of "[(Read, 0x123), (Write, 0x123), (Read, 0x456), (Read, 0x1000)]"] by (simp add: w)
qed

end
