(* ===== verification/PPC_Memory.thy ===== *)
theory PPC_Memory
  imports PPC_Translation
begin

text \<open>
  Loads and stores on top of the translation: the byte loops of accesses that cross a page, when a load returns, that a
  store is read back, and what a failed translation leaves behind.
\<close>

section \<open>Loads across pages\<close>

text \<open>A loop whose bound is past the counter's range never ends.\<close>

lemma read_pages_hangs:
  assumes "2 ^ 32 \<le> limit"
  shows "read_pages bus flag limit np na a at v s = None"
proof -
  have "limit < 2 ^ 32" if h: "read_pages bus flag limit np na a at v s = Some y" for y
  proof (rule read_pages.raw_induct [where P = "\<lambda>bus flag limit np na a at v s y. limit < 2 ^ 32", OF _ h])
    fix rp bus flag limit and np na a at :: u32 and v :: u64 and s :: "'a MMU_State_scheme" and y
    assume ih: "\<And>bus flag limit np na a at v s y. rp bus flag limit np na a at v s = Some y \<Longrightarrow> limit < 2 ^ 32"
      and b: "(if unat a < limit then (let at = (if a = np then na else at); (b, s1) = read_physical bus flag 1 at s
         in rp bus flag limit np na (a + 1) (at + 1) (push_bit 8 v OR b) s1) else Some (v, s)) = Some y"
    show "limit < 2 ^ 32"
    proof (cases "unat a < limit")
      case True
      then show ?thesis using b ih unfolding Let_def split_def by (metis (no_types, lifting))
    next
      case False
      then show ?thesis using unat_u32_less [of a] by simp
    qed
  qed
  then show ?thesis using assms by (cases "read_pages bus flag limit np na a at v s") auto
qed

definition page_bytes :: "u32 \<Rightarrow> u32 \<Rightarrow> nat \<Rightarrow> nat \<Rightarrow> u32" where
  "page_bytes p p2 m k = (if k < m then p + of_nat k else p2 + of_nat (k - m))"

lemma read_pages_bytes:
  assumes "unat em + n < 2 ^ 32" "unat np = unat em + m" "i \<le> n" "m < n"
    and "at = (if i \<le> m then p + of_nat i else p2 + of_nat (i - m))"
  shows "read_pages bus flag (unat em + n) np p2 (em + of_nat i) at v s =
    Some (fold (\<lambda>k (v, s). let (b, s1) = read_physical bus flag 1 (page_bytes p p2 m k) s in (push_bit 8 v OR b, s1)) [i..<n] (v, s))"
  using assms(3,5)
proof (induction "n - i" arbitrary: i at v s)
  case 0
  then have "i = n" by simp
  moreover have "unat (em + of_nat n) = unat em + n" using assms(1) by (simp add: unat_word_ariths unat_of_nat)
  ultimately show ?case by (subst read_pages.simps) simp
next
  case (Suc j)
  then have i: "i < n" by simp
  have u: "unat (em + of_nat i) = unat em + i" using assms(1) i by (simp add: unat_word_ariths unat_of_nat)
  have np: "em + of_nat i = np \<longleftrightarrow> i = m" using u assms(2) by (metis add_left_cancel word_unat_eq_iff)
  define at' where "at' = (if em + of_nat i = np then p2 else at)"
  have at': "at' = page_bytes p p2 m i" using Suc.prems np by (auto simp: at'_def page_bytes_def)
  obtain b s1 where b: "read_physical bus flag 1 at' s = (b, s1)" by fastforce
  have nx: "at' + 1 = (if Suc i \<le> m then p + of_nat (Suc i) else p2 + of_nat (Suc i - m))"
    unfolding at' page_bytes_def by (auto simp: Suc_diff_le not_less)
  have "read_pages bus flag (unat em + n) np p2 (em + of_nat (Suc i)) (at' + 1) (push_bit 8 v OR b) s1 =
    Some (fold (\<lambda>k (v, s). let (b, s1) = read_physical bus flag 1 (page_bytes p p2 m k) s in (push_bit 8 v OR b, s1)) [Suc i..<n]
      (push_bit 8 v OR b, s1))"
    using Suc.hyps i by (intro Suc.hyps(1) nx) auto
  moreover have e: "em + of_nat (Suc i) = em + of_nat i + 1" by simp
  ultimately show ?case using i u b unfolding e
    by (subst read_pages.simps) (simp add: Let_def upt_conv_Cons at'_def [symmetric] at' [symmetric])
qed

lemma write_pages_bytes:
  assumes "unat np = unat em + m" "i \<le> n" "m < n"
    and "at = (if i \<le> m then p + of_nat i else p2 + of_nat (i - m))"
  shows "write_pages bus flag n em v np p2 i at s =
    fold (\<lambda>k. write_physical bus flag 1 (page_bytes p p2 m k) (take_bit 8 (drop_bit (8 * (n - 1 - k)) v))) [i..<n] s"
  using assms(2,4)
proof (induction "n - i" arbitrary: i at s)
  case 0
  then show ?case by (simp add: write_pages.simps)
next
  case (Suc j)
  then have i: "i < n" by simp
  define at' where "at' = (if unat em + i = unat np then p2 else at)"
  have at': "at' = page_bytes p p2 m i" using Suc.prems assms(1) by (auto simp: at'_def page_bytes_def)
  have nx: "at' + 1 = (if Suc i \<le> m then p + of_nat (Suc i) else p2 + of_nat (Suc i - m))"
    unfolding at' page_bytes_def by (auto simp: Suc_diff_le not_less)
  have "write_pages bus flag n em v np p2 (Suc i) (at' + 1) t =
    fold (\<lambda>k. write_physical bus flag 1 (page_bytes p p2 m k) (take_bit 8 (drop_bit (8 * (n - 1 - k)) v))) [Suc i..<n] t" for t
    using Suc.hyps i by (intro Suc.hyps(1) nx) auto
  then show ?case using i by (subst write_pages.simps) (simp add: Let_def upt_conv_Cons at'_def [symmetric] at' [symmetric])
qed

section \<open>Stores and loads\<close>

lemma ram_index_mem [simp]: "ram_index a (s\<lparr>physical_base := mem\<rparr>) = ram_index a s"
  by (simp add: ram_index_def)

lemma ram_index_offset: "ram_index a s = Some j \<Longrightarrow> j AND 0xFFF = a AND 0xFFF"
proof -
  assume h: "ram_index a s = Some j"
  have add: "x + y = x OR y" if "x AND y = 0" for x y :: u32 using that by (rule disjunctive_add_eq_or)
  have e: "(0x10000000 + (a AND 0x0FFFFFFF)) AND 0xFFF = a AND 0xFFF" "(0xE0000000 + (a AND 0x0FFFFFFF)) AND 0xFFF = a AND 0xFFF"
    "(0x7E000000 + (a AND 0x01FFFFFF)) AND 0xFFF = a AND 0xFFF"
    by (subst add, simp add: and.left_commute, simp add: bit.conj_disj_distrib2 and.assoc)+
  show ?thesis using h e by (auto simp: ram_index_def and.assoc split: if_splits)
qed

lemma write_be_1: "write_be (Suc 0) i v mem = mem(i := ucast v)"
  by (simp add: write_be_def)

lemma fold_write:
  assumes "\<And>k. k < n \<Longrightarrow> ram_index (pb k) s = Some (f k)"
  shows "fold (\<lambda>k. write_physical bus flag 1 (pb k) (B k)) [0..<n] s =
    s\<lparr>physical_base := fold (\<lambda>k mem. mem(f k := ucast (B k))) [0..<n] (physical_base s)\<rparr>"
  using assms
proof (induction n)
  case (Suc n)
  then show ?case by (simp add: write_physical_def write_be_1 fun_upd_def)
qed simp

lemma fold_read:
  assumes "\<And>k. k < n \<Longrightarrow> ram_index (pb k) s = Some (f k)"
  shows "fold (\<lambda>k (v, s). let (b, s1) = read_physical bus flag 1 (pb k) s in (push_bit 8 v OR b, s1)) [0..<n] (0, s) =
    (fold (\<lambda>k v. push_bit 8 v OR ucast (physical_base s (f k))) [0..<n] 0, s)"
  using assms
proof (induction n)
  case (Suc n)
  then show ?case by (simp add: read_physical_def read_be_def)
qed simp

lemma fold_update_apply:
  "inj_on f {..<n} \<Longrightarrow> k < n \<Longrightarrow> fold (\<lambda>k mem. mem(f k := g k)) [0..<n] mem (f k) = g k"
proof (induction n)
  case (Suc n)
  show ?case
  proof (cases "k = n")
    case False
    then have k: "k < n" using Suc.prems(2) by simp
    then have "f k \<noteq> f n" using inj_onD [OF Suc.prems(1), of k n] by auto
    moreover have "inj_on f {..<n}" using Suc.prems(1) by (rule inj_on_subset) auto
    ultimately show ?thesis using Suc.IH k by simp
  qed simp
qed simp

lemma bytes_value:
  assumes "n \<le> 8"
  shows "fold (\<lambda>k w. push_bit 8 w OR ucast (ucast (take_bit 8 (drop_bit (8 * (n - 1 - k)) v)) :: u8)) [0..<n] 0 = take_bit (8 * n) (v :: u64)"
proof -
  have u: "(ucast (take_bit 8 w) :: u8) = ucast w" for w :: u64
    by (rule bit_word_eqI) (simp add: bit_unsigned_iff bit_take_bit_iff)
  have "fold (\<lambda>k w. push_bit 8 w OR ucast (ucast (take_bit 8 (drop_bit (8 * (n - 1 - k)) v)) :: u8)) [0..<n] 0 =
      read_be n 0 (write_be n 0 v (\<lambda>_. 0))"
    unfolding read_be_def using assms by (intro fold_cong) (auto simp: write_be_apply unat_of_nat u)
  then show ?thesis by (simp add: read_write_be [OF assms])
qed

lemma bytes_roundtrip:
  assumes "n \<le> 8" "\<And>k. k < n \<Longrightarrow> ram_index (pb k) s = Some (f k)" "inj_on f {..<n}"
    and "s' = fold (\<lambda>k. write_physical bus flag 1 (pb k) (take_bit 8 (drop_bit (8 * (n - 1 - k)) v))) [0..<n] s"
  shows "fold (\<lambda>k (v, s). let (b, s1) = read_physical bus flag' 1 (pb k) s in (push_bit 8 v OR b, s1)) [0..<n] (0, s') =
    (take_bit (8 * n) v, s')"
proof -
  let ?B = "\<lambda>k. take_bit 8 (drop_bit (8 * (n - 1 - k)) v)"
  have s': "s' = s\<lparr>physical_base := fold (\<lambda>k mem. mem(f k := ucast (?B k))) [0..<n] (physical_base s)\<rparr>"
    unfolding assms(4) by (rule fold_write [OF assms(2)])
  have "physical_base s' (f k) = ucast (?B k)" if "k < n" for k
    unfolding s' using fold_update_apply [OF assms(3) that, of "\<lambda>k. ucast (?B k)"] by simp
  then have "fold (\<lambda>k v. push_bit 8 v OR ucast (physical_base s' (f k))) [0..<n] 0 =
      fold (\<lambda>k w. push_bit 8 w OR ucast (ucast (?B k) :: u8)) [0..<n] (0 :: u64)"
    by (intro fold_cong) auto
  then show ?thesis using fold_read [of n pb s' f bus flag'] assms(2) bytes_value [OF assms(1), of v] by (simp add: s')
qed

text \<open>The bytes of an access across two pages are different bytes of memory: they differ in their offset in a page.\<close>

lemma page_bytes_inj:
  assumes "\<And>k. k < n \<Longrightarrow> ram_index (page_bytes p p2 m k) s = Some (f k)"
    and "unat (p AND 0xFFF) + m = 4096" "p2 AND 0xFFF = 0" "m < n" "n \<le> 8"
  shows "inj_on f {..<n}"
proof -
  have m12: "(0xFFF :: u32) = mask 12" by (simp add: mask_eq_exp_minus_1)
  define g where "g k = (if k < m then 4096 - m + k else k - m)" for k
  have off: "unat ((x + of_nat k) AND 0xFFF) = (unat (x AND 0xFFF) + k) mod 4096" if "k < 8" for x :: u32 and k
  proof -
    have "unat (x + of_nat k) mod 4096 = (unat x + k) mod 4096"
      using that by (simp add: unat_word_ariths unat_of_nat mod_mod_cancel)
    then show ?thesis unfolding m12 unat_and_mask by (simp add: mod_add_left_eq)
  qed
  have "unat (f k AND 0xFFF) = g k" if k: "k < n" for k
  proof -
    have "unat (f k AND 0xFFF) = unat (page_bytes p p2 m k AND 0xFFF)" using ram_index_offset [OF assms(1) [OF k]] by simp
    also have "\<dots> = g k"
    proof (cases "k < m")
      case True
      then show ?thesis using off [of k p] assms(2,4,5) k by (simp add: page_bytes_def g_def)
    next
      case False
      then show ?thesis using off [of "k - m" p2] assms(3,4,5) k by (simp add: page_bytes_def g_def)
    qed
    finally show ?thesis .
  qed
  moreover have "inj_on g {..<n}" using assms(4,5) by (auto simp: inj_on_def g_def split: if_splits)
  ultimately show ?thesis by (metis (mono_tags, lifting) inj_on_def lessThan_iff)
qed

section \<open>Page crossings\<close>

definition crosses :: "u32 \<Rightarrow> nat \<Rightarrow> bool" where
  "crosses a n \<longleftrightarrow> 4096 - n < unat (a AND 0xFFF)"

definition next_page :: "u32 \<Rightarrow> nat \<Rightarrow> u32" where
  "next_page a n = of_nat (unat a + n - 1) AND NOT 0xFFF"

lemma unat_offset: "unat (a AND 0xFFF :: u32) = unat a mod 4096"
proof -
  have "(0xFFF :: u32) = mask 12" by (simp add: mask_eq_exp_minus_1)
  then show ?thesis by (simp only: unat_and_mask) simp
qed

text \<open>An aligned access crosses no page, so loads and stores split the same accesses.\<close>

lemma crosses_unaligned:
  assumes "n \<in> {1, 2, 4, 8}" "crosses a n"
  shows "unat a mod n \<noteq> 0"
proof
  assume "unat a mod n = 0"
  then have "unat a mod 4096 mod n = 0" using assms(1) by (auto simp: mod_mod_cancel)
  then obtain q where q: "unat a mod 4096 = n * q" by (auto simp: mod_eq_0_iff_dvd elim: dvdE)
  have "4096 - n < n * q" "n * q < 4096" using assms(2) by (simp_all add: crosses_def unat_offset flip: q)
  then show False using assms(1) by auto
qed

lemma unat_page: "unat (w AND NOT 0xFFF :: u32) = unat w div 4096 * 4096"
proof -
  have "(0xFFFFF000 :: u32) = NOT 0xFFF" by simp
  then have "w AND NOT 0xFFF = push_bit 12 (drop_bit 12 w)" by (simp only: rpn_mask)
  moreover have "unat (drop_bit 12 w) * 2 ^ 12 < 2 ^ LENGTH(32)" using unat_u32_less [of w] by (simp add: unat_drop_bit)
  ultimately show ?thesis using unat_push_bit [of "drop_bit 12 w" 12] by (simp add: unat_drop_bit)
qed

lemma unat_small: "k < 2 ^ 32 \<Longrightarrow> unat (of_nat k :: u32) = k"
  by (simp add: unat_of_nat)

lemma next_page_unat:
  assumes "0 < n" "n \<le> 8" "crosses a n" "unat a + n \<le> 2 ^ 32"
  shows "unat (next_page a n) = unat a + (4096 - unat a mod 4096)" "unat a + n < 2 ^ 32"
    "4096 - unat a mod 4096 < n" "next_page a n AND 0xFFF = 0"
proof -
  define Q r where "Q = unat a div 4096" and "r = unat a mod 4096"
  have U: "unat a = 4096 * Q + r" and r: "r < 4096" "4096 - n < r"
    using assms(3) by (simp_all add: Q_def r_def crosses_def unat_offset)
  show m: "4096 - unat a mod 4096 < n" using r assms(1,2) by (simp add: r_def [symmetric])
  show lt: "unat a + n < 2 ^ 32"
  proof (rule ccontr)
    assume "\<not> unat a + n < 2 ^ 32"
    then have "4096 * Q + (r + n) = 4096 * 1048576" using assms(4) U by simp
    then have "(r + n) mod 4096 = 0" by (metis mod_mult_self1_is_0 mod_mult_self4)
    moreover have "r + n = (r + n - 4096) + 4096" "r + n - 4096 < 4096" "0 < r + n - 4096" using r assms(1,2) by linarith+
    ultimately show False by (metis mod_add_self2 mod_less not_less_zero)
  qed
  have "unat (of_nat (unat a + n - 1) :: u32) = unat a + n - 1" using lt by (intro unat_small) simp
  then have np: "unat (next_page a n) = (unat a + n - 1) div 4096 * 4096" by (simp only: next_page_def unat_page)
  have "(unat a + n - 1) div 4096 = Q + 1"
  proof (rule div_nat_eqI)
    show "4096 * (Q + 1) \<le> unat a + n - 1" unfolding U using r assms(1,2) by simp
    show "unat a + n - 1 < 4096 * Suc (Q + 1)" unfolding U using r assms(1,2) by simp
  qed
  then show "unat (next_page a n) = unat a + (4096 - unat a mod 4096)" unfolding np r_def [symmetric] using U r by (simp add: distrib_right)
  have "unat (next_page a n AND 0xFFF) = 0" unfolding unat_offset np by simp
  then show "next_page a n AND 0xFFF = 0" by (simp add: unat_eq_0)
qed

definition bat_aligned :: "(nat \<Rightarrow> u32) \<Rightarrow> bool" where
  "bat_aligned t \<longleftrightarrow> (\<forall>n. t n AND 0x1FFFC = 0)"

lemma bat_entry_parts:
  assumes "bat_aligned t" "TranslateBatAddess t x = Some p"
  shows "p = (t (unat (drop_bit 17 x)) AND NOT 3) + (x AND 0x1FFFF)" "(t (unat (drop_bit 17 x)) AND NOT 3) AND 0x1FFFF = 0"
proof -
  let ?e = "t (unat (drop_bit 17 x))"
  have "NOT 3 AND (0x1FFFF :: u32) = 0x1FFFC" by simp
  then show z: "(?e AND NOT 3) AND 0x1FFFF = 0" using assms(1) by (simp only: and.assoc bat_aligned_def)
  have "(?e AND NOT 3) AND (x AND 0x1FFFF) = ((?e AND NOT 3) AND 0x1FFFF) AND x" by (simp only: ac_simps)
  also have "\<dots> = 0" unfolding z by simp
  finally have "(?e AND NOT 3) AND (x AND 0x1FFFF) = 0" .
  from disjunctive_add_eq_or [OF this] assms(2)
  show "p = (?e AND NOT 3) + (x AND 0x1FFFF)" by (auto simp: TranslateBatAddess_def Let_def split: if_splits)
qed

lemma bat_within_page:
  assumes "bat_aligned t" "TranslateBatAddess t x = Some p" "unat x mod 4096 + k < 4096"
  shows "TranslateBatAddess t (x + of_nat k) = Some (p + of_nat k)"
proof -
  note e = bat_entry_parts [OF assms(1,2)]
  define Q r where "Q = unat x div 4096" and "r = unat x mod 4096"
  have U: "unat x = 4096 * Q + r" and r: "r + k < 4096" using assms(3) by (simp_all add: Q_def r_def)
  have Q: "4096 * Q + r < 2 ^ 32" using unat_u32_less [of x] U by simp
  then have "Q < 1048576" by simp
  then have "4096 * Q + r + k < 2 ^ 32" using r by simp
  then have u: "unat (x + of_nat k) = unat x + k" using r U by (simp add: unat_word_ariths unat_of_nat)
  have dm: "(unat x + k) div 131072 = unat x div 131072 \<and> (unat x + k) mod 131072 = unat x mod 131072 + k"
  proof -
    have q: "unat x div 131072 = Q div 32" "(unat x + k) div 131072 = Q div 32"
      unfolding U using r div_mult2_eq [of "4096 * Q + r" 4096 32] div_mult2_eq [of "4096 * Q + r + k" 4096 32] by (simp_all add: add.assoc)
    moreover have "unat x mod 131072 + 131072 * (unat x div 131072) = unat x" by simp
    moreover have "(unat x + k) mod 131072 + 131072 * ((unat x + k) div 131072) = unat x + k" by simp
    ultimately show ?thesis by linarith
  qed
  have d: "drop_bit 17 (x + of_nat k) = drop_bit 17 x" by (simp add: word_unat_eq_iff unat_drop_bit u dm)
  have mk: "(0x1FFFF :: u32) = mask 17" by (simp add: mask_eq_exp_minus_1)
  have o: "(x + of_nat k) AND 0x1FFFF = (x AND 0x1FFFF) + of_nat k"
  proof -
    have "unat x mod 131072 + k < 2 ^ 32" using conjunct2 [OF dm] mod_less_divisor [of 131072 "unat x + k"] by simp
    then show ?thesis unfolding mk using dm u r
      by (simp add: word_unat_eq_iff unat_and_mask unat_word_ariths unat_of_nat)
  qed
  have "TranslateBatAddess t (x + of_nat k) = map_option (\<lambda>p. (t (unat (drop_bit 17 x)) AND NOT 3) OR ((x + of_nat k) AND 0x1FFFF)) (TranslateBatAddess t x)"
    by (simp add: TranslateBatAddess_def Let_def d)
  then obtain q where q: "TranslateBatAddess t (x + of_nat k) = Some q" using assms(2) by simp
  have "q = p + of_nat k" using bat_entry_parts(1) [OF assms(1) q] e(1) by (simp add: d o)
  then show ?thesis using q by simp
qed

lemma bat_page_offset:
  assumes "bat_aligned t" "TranslateBatAddess t x = Some p"
  shows "p AND 0xFFF = x AND 0xFFF"
proof -
  note e = bat_entry_parts [OF assms]
  have f: "(0xFFF :: u32) = 0x1FFFF AND 0xFFF" by simp
  have "(t (unat (drop_bit 17 x)) AND NOT 3) AND (x AND 0x1FFFF) = ((t (unat (drop_bit 17 x)) AND NOT 3) AND 0x1FFFF) AND x" by (simp only: ac_simps)
  then have "(t (unat (drop_bit 17 x)) AND NOT 3) AND (x AND 0x1FFFF) = 0" by (simp only: e(2) bit.conj_zero_left)
  then have "p = (t (unat (drop_bit 17 x)) AND NOT 3) OR (x AND 0x1FFFF)" using e(1) disjunctive_add_eq_or by metis
  moreover have "((t (unat (drop_bit 17 x)) AND NOT 3) AND 0x1FFFF) AND 0xFFF = 0" by (simp only: e(2) bit.conj_zero_left)
  ultimately show ?thesis by (simp add: bit.conj_disj_distrib2 and.assoc)
qed

definition data_phys :: "u32 \<Rightarrow> 'a MMU_State_scheme \<Rightarrow> u32 option" where
  "data_phys a s = (if MSR_DR s then TranslateBatAddess (dbat_table s) a else Some a)"

lemma Memcheck_empty [simp]: "m_mem_checks s = [] \<Longrightarrow> Memcheck a w n s = s"
  by (simp add: Memcheck_def GetMemCheck_def)

lemma data_phys_translate:
  "data_phys a s = Some p \<Longrightarrow> MSR_DR s \<Longrightarrow> TranslateAddress Read a s = (BAT_TRANSLATED p, s) \<and> TranslateAddress Write a s = (BAT_TRANSLATED p, s)"
  by (simp add: data_phys_def TranslateAddress_def IsOpcodeFlag_def)

lemma data_phys_mem [simp]: "data_phys a (s\<lparr>physical_base := m\<rparr>) = data_phys a s"
  by (simp add: data_phys_def)

lemma one_piece:
  assumes "n \<le> 8" "data_phys a s = Some p" "ram_index p s = Some j" "\<not> (MSR_DR s \<and> crosses a n)"
  shows "WriteToHardware bus Write n a v s = s\<lparr>physical_base := write_be n j v (physical_base s)\<rparr>"
    "ReadFromHardware bus Read n a s = Some (read_be n j (physical_base s), s)"
  using assms data_phys_translate [OF assms(2)]
  by (cases "MSR_DR s"; simp add: WriteToHardware_def ReadFromHardware_def crosses_def data_phys_def write_physical_def read_physical_def)+

lemma two_pieces:
  assumes "0 < n" "n \<le> 8" "n \<in> {1, 2, 4, 8}" "unat a + n \<le> 2 ^ 32" "MSR_DR s" "crosses a n"
    and "data_phys a s = Some p" "data_phys (next_page a n) s = Some p2"
  defines "m \<equiv> 4096 - unat a mod 4096"
  shows "WriteToHardware bus Write n a v s =
      fold (\<lambda>k. write_physical bus Write 1 (page_bytes p p2 m k) (take_bit 8 (drop_bit (8 * (n - 1 - k)) v))) [0..<n] s"
    "ReadFromHardware bus Read n a s = Some (let (v, s) =
      fold (\<lambda>k (v, s). let (b, s1) = read_physical bus Read 1 (page_bytes p p2 m k) s in (push_bit 8 v OR b, s1)) [0..<n] (0, s) in (take_bit (8 * n) v, s))"
proof -
  note np = next_page_unat [OF assms(1,2,6,4)]
  note tr = data_phys_translate [OF assms(7,5)] data_phys_translate [OF assms(8,5)]
  show "WriteToHardware bus Write n a v s =
      fold (\<lambda>k. write_physical bus Write 1 (page_bytes p p2 m k) (take_bit 8 (drop_bit (8 * (n - 1 - k)) v))) [0..<n] s"
    using tr assms(5,6) crosses_unaligned [OF assms(3,6)] write_pages_bytes [OF np(1) le0 np(3), of p p p2 bus Write v s]
    unfolding WriteToHardware_def Let_def crosses_def [symmetric] next_page_def [symmetric] m_def by simp
  show "ReadFromHardware bus Read n a s = Some (let (v, s) =
      fold (\<lambda>k (v, s). let (b, s1) = read_physical bus Read 1 (page_bytes p p2 m k) s in (push_bit 8 v OR b, s1)) [0..<n] (0, s) in (take_bit (8 * n) v, s))"
    using tr assms(5,6) read_pages_bytes [OF np(2,1) le0 np(3), of p p p2 bus Read 0 s]
    unfolding ReadFromHardware_def Let_def crosses_def [symmetric] next_page_def [symmetric] m_def by (simp add: split_def)
qed

lemma store_load:
  assumes "n \<in> {1, 2, 4, 8}" "m_mem_checks s = []" "bat_aligned (dbat_table s)" "unat a + n \<le> 2 ^ 32"
    and mem: "\<And>k. k < n \<Longrightarrow> \<exists>p j. data_phys (a + of_nat k) s = Some p \<and> ram_index p s = Some j"
  shows "\<exists>m. Write_U bus n v a s = s\<lparr>physical_base := m\<rparr> \<and>
    Read_U bus n a (Write_U bus n v a s) = Some (take_bit (8 * n) v, Write_U bus n v a s)"
proof -
  have n: "0 < n" "n \<le> 8" using assms(1) by auto
  obtain p j where p: "data_phys a s = Some p" "ram_index p s = Some j" using mem [of 0] n by auto
  show ?thesis
  proof (cases "MSR_DR s \<and> crosses a n")
    case False
    let ?s = "s\<lparr>physical_base := write_be n j v (physical_base s)\<rparr>"
    have "Write_U bus n v a s = ?s" using one_piece(1) [OF n(2) p False] assms(2) by (simp add: Write_U_def)
    moreover have "Read_U bus n a ?s = Some (take_bit (8 * n) v, ?s)"
      using one_piece(2) [of n a ?s p j bus] n p False assms(2) by (simp add: Read_U_def read_write_be)
    ultimately show ?thesis by auto
  next
    case True
    define m where "m = 4096 - unat a mod 4096"
    note np = next_page_unat [OF n conjunct2 [OF True] assms(4), folded m_def]
    have nm: "next_page a n = a + of_nat m" using np by (simp add: word_unat_eq_iff unat_word_ariths unat_of_nat)
    obtain p2 j2 where p2: "data_phys (next_page a n) s = Some p2" using mem [OF np(3)] nm by auto
    have bat: "data_phys x s = TranslateBatAddess (dbat_table s) x" for x using True by (simp add: data_phys_def)
    define pb where "pb = page_bytes p p2 m"
    have pb: "data_phys (a + of_nat k) s = Some (pb k)" if k: "k < n" for k
    proof (cases "k < m")
      case True
      then show ?thesis using bat_within_page [OF assms(3), of a p k] p(1) by (simp add: bat pb_def page_bytes_def m_def)
    next
      case False
      then have e: "a + of_nat k = next_page a n + of_nat (k - m)" unfolding nm by (simp add: of_nat_diff)
      have "unat (next_page a n) mod 4096 = 0" using np(4) unat_offset [of "next_page a n"] by simp
      then have "data_phys (next_page a n + of_nat (k - m)) s = Some (p2 + of_nat (k - m))"
        using bat_within_page [OF assms(3), of "next_page a n" p2 "k - m"] p2 k n unfolding bat by simp
      then show ?thesis using False unfolding e pb_def page_bytes_def by simp
    qed
    define f where "f k = the (ram_index (pb k) s)" for k
    have f: "ram_index (pb k) s = Some (f k)" if "k < n" for k using mem [OF that] pb [OF that] by (auto simp: f_def)
    have off: "unat (p AND 0xFFF) + m = 4096" "p2 AND 0xFFF = 0"
      using bat_page_offset [OF assms(3)] p(1) p2 np(4) unat_offset [of a] mod_less_divisor [of 4096 "unat a"] by (simp_all add: bat m_def)
    have inj: "inj_on f {..<n}" by (rule page_bytes_inj [OF _ off np(3) n(2)]) (use f in \<open>simp add: pb_def\<close>)
    have w: "Write_U bus n v a s = fold (\<lambda>k. write_physical bus Write 1 (pb k) (take_bit 8 (drop_bit (8 * (n - 1 - k)) v))) [0..<n] s"
      using two_pieces(1) [OF n assms(1,4) conjunct1 [OF True] conjunct2 [OF True] p(1) p2] assms(2) by (simp add: Write_U_def pb_def m_def)
    define s' where "s' = Write_U bus n v a s"
    have "\<exists>M. s' = s\<lparr>physical_base := M\<rparr>"
      unfolding s'_def by (rule exI, rule trans [OF w], rule fold_write, rule f)
    then obtain M where s': "s' = s\<lparr>physical_base := M\<rparr>" ..
    have "fold (\<lambda>k (v, s). let (b, s1) = read_physical bus Read 1 (pb k) s in (push_bit 8 v OR b, s1)) [0..<n] (0, s') =
      (take_bit (8 * n) v, s')" by (rule bytes_roundtrip [OF n(2) _ inj w [folded s'_def]], rule f)
    then have "ReadFromHardware bus Read n a s' = Some (take_bit (8 * n) v, s')"
      using two_pieces(2) [of n a s' p p2 bus]
        n assms(1,4) True p(1) p2 by (simp add: s' pb_def m_def)
    then have "Read_U bus n a s' = Some (take_bit (8 * n) v, s')" using assms(2) by (simp add: Read_U_def s')
    then show ?thesis using s' unfolding s'_def by blast
  qed
qed

section \<open>Tables are aligned\<close>

lemma aligned_update: "bat_aligned t \<Longrightarrow> e AND 0x1FFFC = 0 \<Longrightarrow> bat_aligned (t(n := e))"
  by (simp add: bat_aligned_def)

lemma aligned_fold: "bat_aligned t \<Longrightarrow> (\<And>i t. bat_aligned t \<Longrightarrow> bat_aligned (f i t)) \<Longrightarrow> bat_aligned (fold f xs t)"
  by (induction xs arbitrary: t) auto

lemma block_aligned: "fl = 1 \<or> fl = 3 \<Longrightarrow> (push_bit 17 x OR fl :: u32) AND 0x1FFFC = 0"
proof -
  assume fl: "fl = 1 \<or> fl = 3"
  have "push_bit 17 x AND (0x1FFFF :: u32) = 0"
  proof -
    have m: "(0x1FFFF :: u32) = mask 17" by (simp add: mask_eq_exp_minus_1)
    show ?thesis unfolding m by (rule bit_word_eqI) (auto simp: bit_and_iff bit_mask_iff bit_push_bit_iff)
  qed
  then have "push_bit 17 x AND (0x1FFFF :: u32) AND 0x1FFFC = 0" by (simp only: and.assoc [symmetric] bit.conj_zero_left)
  then have "push_bit 17 x AND (0x1FFFC :: u32) = 0" by simp
  then show ?thesis using fl by (auto simp: bit.conj_disj_distrib2)
qed

lemma fake_aligned: "fl = 1 \<or> fl = 3 \<Longrightarrow> ((0x7E000000 OR (push_bit 17 x AND FAKEVMEM_MASK)) OR fl :: u32) AND 0x1FFFC = 0"
proof -
  assume fl: "fl = 1 \<or> fl = 3"
  have "0x7E000000 OR (push_bit 17 x AND FAKEVMEM_MASK) = push_bit 17 (0x3F00 OR (x AND 0xFF)) "
  proof -
    have m: "(0x1FFFFFF :: u32) = mask 25" "(0xFF :: u32) = mask 8" by (simp_all add: mask_eq_exp_minus_1)
    have "push_bit 17 x AND 0x1FFFFFF = push_bit 17 (x AND (0xFF :: u32))"
      unfolding m by (rule bit_word_eqI) (auto simp: bit_and_iff bit_mask_iff bit_push_bit_iff)
    moreover have "(0x7E000000 :: u32) = push_bit 17 0x3F00" by simp
    ultimately show ?thesis by (simp only: push_bit_or)
  qed
  then show ?thesis using block_aligned [OF fl, of "0x3F00 OR (x AND 0xFF)"] by (simp only:)
qed

lemma build_bats_aligned: "bat_aligned (build_bats base ext s)"
proof -
  have blk: "bat_aligned (bat_set_block u l s j t)" if "bat_aligned t" for u l j t
    unfolding bat_set_block_def Let_def using that by (simp only: if_split simp_thms aligned_update [OF that block_aligned [OF valid_bit_cases]])
  have upd: "bat_aligned (update_bat u l s t)" if "bat_aligned t" for u l t
  proof -
    have "bat_aligned (fold (\<lambda>j. bat_set_block u l s (of_nat j)) xs t)" for xs by (rule aligned_fold [OF that blk])
    then show ?thesis unfolding update_bat_def using that by (simp only: if_split simp_thms)
  qed
  have bats: "bat_aligned (UpdateBATs b s t)" if "bat_aligned t" for b t
    unfolding UpdateBATs_def using that upd by (intro aligned_fold)
  have fake: "bat_aligned (UpdateFakeMMUBat a s t)" if "bat_aligned t" for a t
    unfolding UpdateFakeMMUBat_def Let_def using that by (intro aligned_fold aligned_update fake_aligned) auto
  have "bat_aligned (\<lambda>_. 0)" by (simp add: bat_aligned_def)
  then show ?thesis unfolding build_bats_def Let_def using bats fake by auto
qed

section \<open>What loads and stores do\<close>

text \<open>
  C17. A store is read back. With no memory check set, real addressing or block translation by tables as
  \<^verbatim>\<open>DBATUpdated\<close> builds them (it always builds aligned ones), and every byte of the access in memory: after a store of 1, 2, 4 or 8 bytes at any
  address, aligned or not, from which they do not run past the end of the address space, also across two pages that lie apart in physical memory, a load of that size at that
  address returns the value stored, and store and load together change nothing but memory.
\<close>

theorem store_load_roundtrip:
  assumes "n \<in> {1, 2, 4, 8}" "m_mem_checks s = []" "bat_aligned (dbat_table s)" "unat a + n \<le> 2 ^ 32"
    and "\<forall>k < n. \<exists>p j. data_phys (a + of_nat k) s = Some p \<and> ram_index p s = Some j"
  shows "(\<exists>m. Write_U bus n v a s = s\<lparr>physical_base := m\<rparr>) \<and>
    Read_U bus n a (Write_U bus n v a s) = Some (take_bit (8 * n) v, Write_U bus n v a s) \<and>
    bat_aligned (dbat_table (DBATUpdated s))"
  using store_load [OF assms(1-4), of bus v] assms(5) build_bats_aligned by (auto simp: DBATUpdated_def)

text \<open>Two blocks of memory, block 0 at physical \<open>0x20000\<close> and block 1 at 0.\<close>

definition block_mmu :: MMU_State where
  "block_mmu = page_mmu\<lparr>ppc_msr := 0x10, dbat_table := (\<lambda>n. if n = 0 then 0x20003 else if n = 1 then 3 else 0)\<rparr>"

definition no_bus :: "MMU_State Bus" where
  "no_bus = \<lparr>bus_read = \<lambda>_ _ s. (0, s), bus_write = \<lambda>_ _ _ s. s\<rparr>"

theorem store_load_roundtrip_witness:
  "map_option fst (Read_U no_bus 4 0x1FFFE (Write_U no_bus 4 0x11223344 0x1FFFE block_mmu)) = Some 0x11223344"
proof -
  have four: "k \<in> {0, 1, 2, 3}" if "k < 4" for k :: nat using that by auto
  have k: "\<forall>k < 4. \<exists>p j. data_phys (0x1FFFE + of_nat k) block_mmu = Some p \<and> ram_index p block_mmu = Some j"
    using four by (fastforce simp: data_phys_def block_mmu_def TranslateBatAddess_def ram_index_def)
  have al: "bat_aligned (dbat_table block_mmu)" by (simp add: bat_aligned_def block_mmu_def)
  have mc: "m_mem_checks block_mmu = []" by (simp add: block_mmu_def)
  show ?thesis using store_load_roundtrip [OF _ mc al _ k, where bus = no_bus and v = "0x11223344"] by simp
qed

lemma read_hangs:
  assumes "MSR_DR s" "crosses a n" "2 ^ 32 < unat a + n" "TranslateAddress flag a s = (r, s1)" "tr_address r = Some p"
    "TranslateAddress flag (next_page a n) s1 = (r2, s2)" "tr_address r2 = Some p2"
  shows "ReadFromHardware bus flag n a s = None"
  using assms read_pages_hangs [of "unat a + n"] by (simp add: ReadFromHardware_def Let_def crosses_def next_page_def)

lemma read_returns:
  assumes "0 < n" "n \<le> 8" "unat a + n \<le> 2 ^ 32"
  shows "\<exists>v s'. ReadFromHardware bus flag n a s = Some (v, s')"
proof (cases "MSR_DR s \<and> crosses a n")
  case False
  then show ?thesis by (auto simp: ReadFromHardware_def crosses_def split: prod.splits option.splits)
next
  case True
  note np = next_page_unat [OF assms(1,2) conjunct2 [OF True] assms(3)]
  have rp: "\<exists>x. read_pages bus flag (unat a + n) (next_page a n) p2 a p 0 t = Some x" for p p2 t
    using read_pages_bytes [OF np(2) np(1) le0 np(3), of p p p2 bus flag 0 t] by simp
  show ?thesis
    using True rp unfolding ReadFromHardware_def Let_def crosses_def [symmetric] next_page_def [symmetric]
    by (fastforce split: prod.splits option.splits)
qed

text \<open>
  C30. When a load returns. A load of 1 to 8 bytes that does not reach past the top of the address space returns, whatever
  the tables, the registers and memory hold. A load that does, with both of its pages mapped, never returns: the sum
  \<^verbatim>\<open>em_address + sizeof(T)\<close> that bounds the byte loop is computed in 64 bits and the 32-bit counter never reaches it.
\<close>

theorem load_returns:
  assumes "0 < n" "n \<le> 8"
  shows "(unat a + n \<le> 2 ^ 32 \<longrightarrow> (\<exists>v s'. Read_U bus n a s = Some (v, s'))) \<and>
    (2 ^ 32 < unat a + n \<and> MSR_DR s \<and> TranslateBatAddess (dbat_table s) a \<noteq> None \<and>
       TranslateBatAddess (dbat_table s) 0 \<noteq> None \<longrightarrow> Read_U bus n a s = None)"
proof (intro conjI impI)
  assume "unat a + n \<le> 2 ^ 32"
  then show "\<exists>v s'. Read_U bus n a s = Some (v, s')"
    using read_returns [OF assms, of a bus Read s] by (auto simp: Read_U_def)
next
  assume h: "2 ^ 32 < unat a + n \<and> MSR_DR s \<and> TranslateBatAddess (dbat_table s) a \<noteq> None \<and> TranslateBatAddess (dbat_table s) 0 \<noteq> None"
  then obtain p p2 where p: "TranslateBatAddess (dbat_table s) a = Some p" "TranslateBatAddess (dbat_table s) 0 = Some p2" by auto
  then have t: "TranslateAddress Read a s = (BAT_TRANSLATED p, s)" "TranslateAddress Read 0 s = (BAT_TRANSLATED p2, s)"
    by (simp_all add: TranslateAddress_def IsOpcodeFlag_def)
  define U where "U = unat a"
  have U: "U < 4294967296" "4294967296 < U + n" using h unat_u32_less [of a] by (simp_all add: U_def)
  then obtain d where d: "U + n = 4294967297 + d" "d + 2 \<le> n" by (auto simp: less_iff_Suc_add)
  have np: "next_page a n = 0"
  proof -
    have "U + n - 1 = 4294967296 + d" using d(1) by simp
    moreover have "unat (of_nat (4294967296 + d) :: u32) = d" using d(2) assms unfolding unat_of_nat by simp
    ultimately have "unat (next_page a n) = d div 4096 * 4096" unfolding next_page_def U_def [symmetric] unat_page by (simp only:)
    then show ?thesis using d(2) assms by (simp add: unat_eq_0)
  qed
  have "crosses a n"
  proof -
    have "U = (4097 + d - n) + 4096 * 1048575" using d assms by simp
    then have "U mod 4096 = (4097 + d - n) mod 4096" by (simp only: mod_mult_self2)
    then have "U mod 4096 = 4097 + d - n" using d assms by simp
    then show ?thesis using d assms unfolding crosses_def unat_offset U_def [symmetric] by simp
  qed
  then show "Read_U bus n a s = None"
    using read_hangs [of s a n Read "BAT_TRANSLATED p" s p "BAT_TRANSLATED p2" s p2 bus] h t np by (simp add: Read_U_def)
qed

theorem load_returns_witness:
  "(\<exists>v s'. Read_U no_bus 8 0xFFFFFFF8 block_mmu = Some (v, s')) \<and>
   Read_U no_bus 8 0xFFFFFFF9 (block_mmu\<lparr>dbat_table := \<lambda>_. 3\<rparr>) = None"
  using load_returns [of 8 "0xFFFFFFF8" no_bus block_mmu] load_returns [of 8 "0xFFFFFFF9" no_bus "block_mmu\<lparr>dbat_table := \<lambda>_. 3\<rparr>"]
  by (simp add: block_mmu_def TranslateBatAddess_def)

lemma page_fault_state:
  assumes "TranslatePageAddress a flag s = (PAGE_FAULT, s1)"
  shows "\<exists>e. s1 = s\<lparr>tlb := e\<rparr>"
proof -
  obtain res s2 where l: "LookupTLBPageAddress flag a s = (res, s2)" by fastforce
  have "\<exists>e. s2 = s\<lparr>tlb := e\<rparr>"
    using l by (auto simp: LookupTLBPageAddress_def lookup_way_def Let_def set_tlb_def split: if_splits intro: exI [of _ "tlb s"])
  moreover have "s1 = s2"
    using assms l by (auto simp: TranslatePageAddress_def Let_def split: TLBLookupResult.splits if_splits option.splits)
  ultimately show ?thesis by simp
qed

lemma dsi_state:
  assumes "bMMU s"
  shows "physical_base (GenerateDSIException a w s) = physical_base s" "bit (ppc_Exceptions (GenerateDSIException a w s)) 3"
    "spr (GenerateDSIException a w s) SPR_DAR = a"
    "spr (GenerateDSIException a w s) SPR_DSISR = (if a \<noteq> 0 then 0x42000000 else 0x40000000)"
  using assms by (simp_all add: GenerateDSIException_def set_spr_def Let_def bit_or_iff)

text \<open>
  C31. A failed access. With the MMU on, a load or store whose first page has no translation changes no memory and
  raises a DSI with the address in DAR; the load returns 0. Both leave the same DSISR: the store bit \<open>0x02000000\<close> is
  set exactly when the address is not 0, by loads too, because \<^verbatim>\<open>GenerateDSIException\<close> tests the address and not
  its argument \<^verbatim>\<open>write\<close>.
\<close>

theorem failed_access:
  assumes "bMMU s" "MSR_DR s" "m_mem_checks s = []" "TranslateBatAddess (dbat_table s) a = None"
    and "tlb_ok s" "page_walk Read a s = PAGE_FAULT"
  shows "\<exists>s1 s2. Read_U bus n a s = Some (0, s1) \<and> Write_U bus n v a s = s2 \<and>
    (\<forall>t \<in> {s1, s2}. physical_base t = physical_base s \<and> bit (ppc_Exceptions t) 3 \<and> spr t SPR_DAR = a \<and>
       spr t SPR_DSISR = (if a \<noteq> 0 then 0x42000000 else 0x40000000))"
proof -
  have tr: "\<exists>e. TranslateAddress flag a s = (PAGE_FAULT, s\<lparr>tlb := e\<rparr>)" if "flag = Read \<or> flag = Write" for flag
  proof -
    obtain r s1 where t: "TranslatePageAddress a flag s = (r, s1)" by fastforce
    have "page_walk flag a s = page_walk Read a s" using that by (intro page_walk_flag) (auto simp: IsOpcodeFlag_def)
    then have r: "r = PAGE_FAULT" using translate_page_walk [OF assms(5) t] assms(6) by simp
    have "\<exists>e. s1 = s\<lparr>tlb := e\<rparr>" by (rule page_fault_state) (use t r in simp)
    then show ?thesis using assms(4) t r that by (auto simp: TranslateAddress_def IsOpcodeFlag_def)
  qed
  obtain e1 e2 where e: "TranslateAddress Read a s = (PAGE_FAULT, s\<lparr>tlb := e1\<rparr>)" "TranslateAddress Write a s = (PAGE_FAULT, s\<lparr>tlb := e2\<rparr>)"
    using tr by blast
  have mc: "Memcheck a w n (GenerateDSIException a False (s\<lparr>tlb := e1\<rparr>)) = GenerateDSIException a False (s\<lparr>tlb := e1\<rparr>)" for w
    using assms(3) by (intro Memcheck_empty) (simp add: GenerateDSIException_def set_spr_def Let_def)
  show ?thesis
    using e assms(1-3) mc dsi_state [of "s\<lparr>tlb := e1\<rparr>" a False] dsi_state [of "s\<lparr>tlb := e2\<rparr>" a True]
    by (simp add: Read_U_def Write_U_def ReadFromHardware_def WriteToHardware_def)
qed

theorem failed_access_witness:
  "map_option fst (Read_U no_bus 4 0x80001234 block_mmu) = Some 0 \<and>
   spr (Write_U no_bus 4 7 0x80001234 block_mmu) SPR_DSISR = 0x42000000"
proof -
  have h: "bMMU block_mmu" "MSR_DR block_mmu" "m_mem_checks block_mmu = []" "TranslateBatAddess (dbat_table block_mmu) 0x80001234 = None"
    "tlb_ok block_mmu"
    by (simp_all add: block_mmu_def TranslateBatAddess_def tlb_ok_def)
  have w: "page_walk Read 0x80001234 block_mmu = PAGE_FAULT" by code_simp
  show ?thesis using failed_access [OF h w, of no_bus 4 7] by auto
qed

end
