(* ===== verification/PPC_ICache.thy ===== *)
theory PPC_ICache
  imports PPC_Memory
begin

text \<open>
  The instruction cache of \<^verbatim>\<open>PPCCache.cpp\<close>: 128 sets of 8 ways of 32 bytes with a pseudo-LRU choice of the way to replace,
  and three tables indexed by line that find the way of a line without comparing tags. A block is kept as its bytes; a word
  of it, byte-swapped on the little-endian host, is the big-endian word of four bytes. Memory is reached through
  \<^verbatim>\<open>GetPointer\<close> (\<^verbatim>\<open>Memmap.cpp\<close>), whose null pointer is \<open>None\<close>; reading through it is an invalid access, \<open>None\<close> of the
  whole read.
\<close>

section \<open>State\<close>

record InstructionCache =
  ic_data :: "nat \<Rightarrow> nat \<Rightarrow> nat \<Rightarrow> u8"
  ic_tags :: "nat \<Rightarrow> nat \<Rightarrow> u32"
  ic_plru :: "nat \<Rightarrow> u32"
  ic_valid :: "nat \<Rightarrow> u32"
  lookup_table :: "nat \<Rightarrow> u8"
  lookup_table_ex :: "nat \<Rightarrow> u8"
  lookup_table_vmem :: "nat \<Rightarrow> u8"

record IC_State = MMU_State +
  iCache :: InstructionCache

abbreviation (input) SPR_HID0 :: nat where "SPR_HID0 \<equiv> 1008"
abbreviation HID0_ICE :: "'a CPU_State_scheme \<Rightarrow> bool" where "HID0_ICE s \<equiv> bit (spr s SPR_HID0) 15"
abbreviation HID0_ILOCK :: "'a CPU_State_scheme \<Rightarrow> bool" where "HID0_ILOCK s \<equiv> bit (spr s SPR_HID0) 13"
abbreviation (input) EXRAM_MASK :: u32 where "EXRAM_MASK \<equiv> 0x03FFFFFF"
abbreviation (input) ICACHE_EXRAM_BIT :: u32 where "ICACHE_EXRAM_BIT \<equiv> 0x10000000"
abbreviation (input) ICACHE_VMEM_BIT :: u32 where "ICACHE_VMEM_BIT \<equiv> 0x20000000"

section \<open>Memory by pointer\<close>

text \<open>\<^verbatim>\<open>GetPointer\<close>, as the place in the arena; the alert of its last line is counted by the callers.\<close>

definition mem_pointer :: "u32 \<Rightarrow> 'a MMU_State_scheme \<Rightarrow> u32 option" where
  "mem_pointer address s =
    (let address = address AND 0x3FFFFFFF
     in if address < REALRAM_SIZE then Some address
        else if m_pEXRAM s \<and> drop_bit 28 address = 1 \<and> address AND 0x0FFFFFFF < EXRAM_SIZE
        then Some (0x10000000 + (address AND EXRAM_MASK))
        else None)"

definition Memory_Read_U32 :: "u32 \<Rightarrow> 'a MMU_State_scheme \<Rightarrow> u32 option" where
  "Memory_Read_U32 address s = map_option (\<lambda>p. ucast (read_be 4 p (physical_base s))) (mem_pointer address s)"

text \<open>\<^verbatim>\<open>CopyFromEmu\<close> into one block: the block, and the alerts of a bad range.\<close>

definition CopyFromEmu :: "(nat \<Rightarrow> u8) \<Rightarrow> u32 \<Rightarrow> 'a MMU_State_scheme \<Rightarrow> (nat \<Rightarrow> u8) \<times> 'a MMU_State_scheme" where
  "CopyFromEmu block address s =
    (case mem_pointer address s of
       None \<Rightarrow> (block, s\<lparr>panics := panics s + 2\<rparr>)
     | Some p \<Rightarrow>
         (if mem_pointer (address + 32 - 1) s = None then (block, s\<lparr>panics := panics s + 2\<rparr>)
          else (\<lambda>k. if k < 32 then physical_base s (p + of_nat k) else block k, s)))"

section \<open>Ways\<close>

definition s_plru_mask :: "u32 list" where
  "s_plru_mask = [11, 11, 19, 19, 37, 37, 69, 69]"

definition s_plru_value :: "u32 list" where
  "s_plru_value = [11, 3, 17, 1, 36, 4, 64, 0]"

definition way_from_valid :: "u32 \<Rightarrow> nat" where
  "way_from_valid m = length (takeWhile (bit m) [0..<8])"

definition way_from_plru :: "u32 \<Rightarrow> nat" where
  "way_from_plru m =
    (if bit m 0 then
       if bit m 2 then (if bit m 6 then 7 else 6)
       else if bit m 5 then 5 else 4
     else if bit m 1 then (if bit m 4 then 3 else 2)
     else if bit m 3 then 1 else 0)"

definition update_plru :: "u32 \<Rightarrow> nat \<Rightarrow> u32" where
  "update_plru m t = (m AND NOT (s_plru_mask ! t)) OR s_plru_value ! t"

section \<open>Operations\<close>

definition Reset_ic :: "InstructionCache \<Rightarrow> InstructionCache" where
  "Reset_ic c = c\<lparr>ic_valid := \<lambda>_. 0, ic_plru := \<lambda>_. 0, lookup_table := \<lambda>_. 0xff, lookup_table_ex := \<lambda>_. 0xff,
     lookup_table_vmem := \<lambda>_. 0xff\<rparr>"

definition Init_ic :: "InstructionCache \<Rightarrow> InstructionCache" where
  "Init_ic c = Reset_ic (c\<lparr>ic_data := \<lambda>_ _ _. 0, ic_tags := \<lambda>_ _. 0\<rparr>)"

definition line_set :: "u32 \<Rightarrow> nat" where
  "line_set addr = unat (drop_bit 5 addr AND 0x7f)"

definition get_lookup :: "u32 \<Rightarrow> InstructionCache \<Rightarrow> u8" where
  "get_lookup addr c =
    (if addr AND ICACHE_VMEM_BIT \<noteq> 0 then lookup_table_vmem c (unat (drop_bit 5 addr AND 0xfffff))
     else if addr AND ICACHE_EXRAM_BIT \<noteq> 0 then lookup_table_ex c (unat (drop_bit 5 addr AND 0x1fffff))
     else lookup_table c (unat (drop_bit 5 addr AND 0xfffff)))"

definition set_lookup :: "u32 \<Rightarrow> u8 \<Rightarrow> InstructionCache \<Rightarrow> InstructionCache" where
  "set_lookup addr t c =
    (if addr AND ICACHE_VMEM_BIT \<noteq> 0
     then c\<lparr>lookup_table_vmem := (lookup_table_vmem c)(unat (drop_bit 5 addr AND 0xfffff) := t)\<rparr>
     else if addr AND ICACHE_EXRAM_BIT \<noteq> 0
     then c\<lparr>lookup_table_ex := (lookup_table_ex c)(unat (drop_bit 5 addr AND 0x1fffff) := t)\<rparr>
     else c\<lparr>lookup_table := (lookup_table c)(unat (drop_bit 5 addr AND 0xfffff) := t)\<rparr>)"

text \<open>The table entry of the line with a tag in a set.\<close>

definition clear_lookup :: "u32 \<Rightarrow> nat \<Rightarrow> InstructionCache \<Rightarrow> InstructionCache" where
  "clear_lookup tag st c =
    (let line = push_bit 7 tag OR of_nat st
     in if tag AND drop_bit 12 ICACHE_VMEM_BIT \<noteq> 0
        then c\<lparr>lookup_table_vmem := (lookup_table_vmem c)(unat (line AND 0xfffff) := 0xff)\<rparr>
        else if tag AND drop_bit 12 ICACHE_EXRAM_BIT \<noteq> 0
        then c\<lparr>lookup_table_ex := (lookup_table_ex c)(unat (line AND 0x1fffff) := 0xff)\<rparr>
        else c\<lparr>lookup_table := (lookup_table c)(unat (line AND 0xfffff) := 0xff)\<rparr>)"

definition Invalidate :: "u32 \<Rightarrow> 'a IC_State_scheme \<Rightarrow> 'a IC_State_scheme" where
  "Invalidate addr s =
    (if \<not> HID0_ICE s then s
     else let st = line_set addr; c = iCache s;
              c1 = fold (\<lambda>i c. if bit (ic_valid c st) i then clear_lookup (ic_tags c st i) st c else c) [0..<8] c
          in s\<lparr>iCache := c1\<lparr>ic_valid := (ic_valid c1)(st := 0)\<rparr>\<rparr>)"

text \<open>The part of \<^verbatim>\<open>ReadInstruction\<close> that loads a line into way \<open>t\<close>.\<close>

definition load_line :: "u32 \<Rightarrow> nat \<Rightarrow> 'a IC_State_scheme \<Rightarrow> 'a IC_State_scheme" where
  "load_line addr t s =
    (let st = line_set addr; c = iCache s;
         (block, s1) = CopyFromEmu (ic_data c st t) (addr AND NOT 0x1f) s;
         c1 = c\<lparr>ic_data := (ic_data c)(st := (ic_data c st)(t := block))\<rparr>;
         c2 = (if bit (ic_valid c1 st) t then clear_lookup (ic_tags c1 st t) st c1 else c1);
         c3 = set_lookup addr (of_nat t) c2;
         c4 = c3\<lparr>ic_tags := (ic_tags c3)(st := (ic_tags c3 st)(t := drop_bit 12 addr))\<rparr>
     in s1\<lparr>iCache := c4\<lparr>ic_valid := (ic_valid c4)(st := ic_valid c4 st OR push_bit t 1)\<rparr>\<rparr>)"

text \<open>The word of way \<open>t\<close>, with the way marked as used.\<close>

definition use_line :: "u32 \<Rightarrow> nat \<Rightarrow> 'a IC_State_scheme \<Rightarrow> u32 \<times> 'a IC_State_scheme" where
  "use_line addr t s =
    (let st = line_set addr; c = iCache s; k = 4 * unat (drop_bit 2 addr AND 7)
     in (ucast (read_be 4 (of_nat k) (\<lambda>i. ic_data c st t (unat i))),
         s\<lparr>iCache := c\<lparr>ic_plru := (ic_plru c)(st := update_plru (ic_plru c st) t)\<rparr>\<rparr>))"

definition ReadInstruction :: "u32 \<Rightarrow> 'a IC_State_scheme \<Rightarrow> (u32 \<times> 'a IC_State_scheme) option" where
  "ReadInstruction addr s =
    (if \<not> HID0_ICE s then map_option (\<lambda>v. (v, s)) (Memory_Read_U32 addr s)
     else let st = line_set addr; c = iCache s; t = get_lookup addr c
          in if t = 0xff then
               (if HID0_ILOCK s then map_option (\<lambda>v. (v, s)) (Memory_Read_U32 addr s)
                else let w = (if ic_valid c st \<noteq> 0xff then way_from_valid (ic_valid c st) else way_from_plru (ic_plru c st))
                     in Some (use_line addr w (load_line addr w s)))
             else Some (use_line addr (unat t) s))"

section \<open>Lines and their table entries\<close>

datatype line_class = Line_RAM | Line_EXRAM | Line_VMEM

definition lkey :: "u32 \<Rightarrow> line_class \<times> nat" where
  "lkey a = (if bit a 29 then (Line_VMEM, unat (take_bit 20 (drop_bit 5 a)))
             else if bit a 28 then (Line_EXRAM, unat (take_bit 21 (drop_bit 5 a)))
             else (Line_RAM, unat (take_bit 20 (drop_bit 5 a))))"

definition tab :: "InstructionCache \<Rightarrow> line_class \<times> nat \<Rightarrow> u8" where
  "tab c k = (case fst k of Line_RAM \<Rightarrow> lookup_table c (snd k) | Line_EXRAM \<Rightarrow> lookup_table_ex c (snd k)
     | Line_VMEM \<Rightarrow> lookup_table_vmem c (snd k))"

definition line_addr :: "u32 \<Rightarrow> nat \<Rightarrow> u32" where
  "line_addr tag st = push_bit 12 tag OR push_bit 5 (of_nat st)"

lemma masks:
  "(0xfffff :: u32) = mask 20" "(0x1fffff :: u32) = mask 21" "(0x7f :: u32) = mask 7" "(0x1f :: u32) = mask 5" "(7 :: u32) = mask 3"
  by (simp_all add: mask_eq_exp_minus_1)

lemma single_bits: "a AND (0x20000000 :: u32) \<noteq> 0 \<longleftrightarrow> bit a 29" "a AND (0x10000000 :: u32) \<noteq> 0 \<longleftrightarrow> bit a 28"
  "a AND (0x20000 :: u32) \<noteq> 0 \<longleftrightarrow> bit a 17" "a AND (0x10000 :: u32) \<noteq> 0 \<longleftrightarrow> bit a 16"
proof -
  have *: "a AND push_bit n 1 \<noteq> 0 \<longleftrightarrow> bit a n" for n
    by (metis and_exp_eq_0_iff_not_bit push_bit_eq_mult mult_1)
  show "a AND (0x20000000 :: u32) \<noteq> 0 \<longleftrightarrow> bit a 29" "a AND (0x10000000 :: u32) \<noteq> 0 \<longleftrightarrow> bit a 28"
    "a AND (0x20000 :: u32) \<noteq> 0 \<longleftrightarrow> bit a 17" "a AND (0x10000 :: u32) \<noteq> 0 \<longleftrightarrow> bit a 16"
    using * [of 29] * [of 28] * [of 17] * [of 16] by simp_all
qed

lemma get_lookup_tab: "get_lookup a c = tab c (lkey a)"
  unfolding get_lookup_def single_bits masks take_bit_eq_mask [symmetric] by (simp add: tab_def lkey_def)

lemma tab_set_lookup: "tab (set_lookup a t c) k = (if k = lkey a then t else tab c k)"
  unfolding set_lookup_def single_bits masks take_bit_eq_mask [symmetric]
  by (cases k; cases "fst k") (auto simp: tab_def lkey_def)

lemma line_addr_bits:
  assumes "st < 128"
  shows "bit (line_addr tag st) 29 = bit tag 17" "bit (line_addr tag st) 28 = bit tag 16"
    "take_bit 20 (drop_bit 5 (line_addr tag st)) = take_bit 20 (push_bit 7 tag OR of_nat st)"
    "take_bit 21 (drop_bit 5 (line_addr tag st)) = take_bit 21 (push_bit 7 tag OR of_nat st)"
proof -
  have st: "\<not> bit (of_nat st :: u32) n" if "7 \<le> n" for n
    using small_bits [of "of_nat st :: u32" n 7] assms that by (auto simp: unat_of_nat)
  show "bit (line_addr tag st) 29 = bit tag 17" "bit (line_addr tag st) 28 = bit tag 16"
    unfolding line_addr_def bit_or_iff bit_push_bit_iff using st by simp_all
  show "take_bit 20 (drop_bit 5 (line_addr tag st)) = take_bit 20 (push_bit 7 tag OR of_nat st)"
    "take_bit 21 (drop_bit 5 (line_addr tag st)) = take_bit 21 (push_bit 7 tag OR of_nat st)"
    by (rule bit_word_eqI; auto simp: line_addr_def bit_take_bit_iff bit_drop_bit_eq bit_or_iff bit_push_bit_iff add.commute)+
qed

lemma tab_clear_lookup:
  assumes "st < 128"
  shows "tab (clear_lookup tag st c) k = (if k = lkey (line_addr tag st) then 0xff else tab c k)"
proof -
  have e: "drop_bit 12 (0x20000000 :: u32) = 0x20000" "drop_bit 12 (0x10000000 :: u32) = 0x10000" by simp_all
  show ?thesis unfolding clear_lookup_def Let_def e single_bits masks take_bit_eq_mask [symmetric] lkey_def line_addr_bits [OF assms]
    by (cases k; cases "fst k") (auto simp: tab_def)
qed

lemma clear_lookup_other [simp]:
  "ic_data (clear_lookup tag st c) = ic_data c" "ic_tags (clear_lookup tag st c) = ic_tags c"
  "ic_valid (clear_lookup tag st c) = ic_valid c" "ic_plru (clear_lookup tag st c) = ic_plru c"
  by (simp_all add: clear_lookup_def Let_def)

lemma set_lookup_other [simp]:
  "ic_data (set_lookup a t c) = ic_data c" "ic_tags (set_lookup a t c) = ic_tags c"
  "ic_valid (set_lookup a t c) = ic_valid c" "ic_plru (set_lookup a t c) = ic_plru c"
  by (simp_all add: set_lookup_def)

lemma tab_other [simp]:
  "tab (c\<lparr>ic_data := d\<rparr>) k = tab c k" "tab (c\<lparr>ic_tags := g\<rparr>) k = tab c k" "tab (c\<lparr>ic_valid := v\<rparr>) k = tab c k"
  "tab (c\<lparr>ic_plru := p\<rparr>) k = tab c k"
  by (simp_all add: tab_def split: line_class.splits)

lemma line_set_less [simp]: "line_set a < 128"
proof -
  have "unat (drop_bit 5 a AND mask 7) < 128" unfolding unat_and_mask by simp
  then show ?thesis by (simp add: line_set_def mask_eq_exp_minus_1)
qed

lemma line_addr_line: "line_addr (drop_bit 12 a) (line_set a) = a AND NOT 0x1f"
proof (rule bit_word_eqI)
  fix n assume n: "n < LENGTH(32)"
  consider "n < 5" | "5 \<le> n" "n < 12" | "12 \<le> n" by linarith
  then show "bit (line_addr (drop_bit 12 a) (line_set a)) n = bit (a AND NOT 0x1f) n"
    unfolding line_addr_def line_set_def masks
    by cases (use n in \<open>auto simp: bit_or_iff bit_and_iff bit_not_iff bit_mask_iff bit_push_bit_iff bit_drop_bit_eq\<close>)
qed

lemma lkey_line: "lkey (a AND NOT 0x1f) = lkey a"
proof -
  have b: "bit (a AND NOT 0x1f) n = bit a n" if "5 \<le> n" "n < 32" for n
    using that unfolding masks bit_and_iff bit_not_iff bit_mask_iff by auto
  have "drop_bit 5 (a AND NOT 0x1f) = drop_bit 5 a"
  proof (rule bit_word_eqI)
    fix n
    show "bit (drop_bit 5 (a AND NOT 0x1f)) n = bit (drop_bit 5 a) n"
      unfolding bit_drop_bit_eq comp_def using b [of "5 + n"] bit_imp_le_length [of a "5 + n"] bit_imp_le_length [of "a AND NOT 0x1f" "5 + n"]
      by fastforce
  qed
  then show ?thesis using b [of 29] b [of 28] by (simp add: lkey_def)
qed

text \<open>The set of a line is part of its table index.\<close>

lemma lkey_set: "snd (lkey a) mod 128 = line_set a"
proof -
  have "unat (take_bit n (drop_bit 5 a)) mod 128 = line_set a" if "7 \<le> n" for n
  proof -
    have "take_bit 7 (take_bit n (drop_bit 5 a)) = take_bit 7 (drop_bit 5 a)" using that by (simp add: min_def)
    then have "take_bit 7 (unat (take_bit n (drop_bit 5 a))) = line_set a"
      unfolding line_set_def masks take_bit_eq_mask [symmetric] by (simp only: unsigned_take_bit_eq [symmetric])
    then show ?thesis by (simp add: take_bit_eq_mod)
  qed
  then show ?thesis by (simp add: lkey_def)
qed

lemma lkey_line_addr_set: "st < 128 \<Longrightarrow> snd (lkey (line_addr tag st)) mod 128 = st"
proof -
  assume st: "st < 128"
  have "drop_bit 5 (line_addr tag st) AND mask 7 = of_nat st"
  proof (rule bit_word_eqI)
    fix n assume "n < LENGTH(32)"
    have "bit (of_nat st :: u32) n \<Longrightarrow> n < 7" using small_bits [of "of_nat st :: u32" n 7] st by (auto simp: unat_of_nat)
    then show "bit (drop_bit 5 (line_addr tag st) AND mask 7) n = bit (of_nat st :: u32) n"
      by (auto simp: line_addr_def bit_and_iff bit_mask_iff bit_drop_bit_eq bit_or_iff bit_push_bit_iff add.commute)
  qed
  then have "line_set (line_addr tag st) = st" using st by (simp add: line_set_def masks unat_of_nat)
  then show ?thesis by (simp add: lkey_set)
qed

section \<open>The replacement\<close>

lemma way_from_valid_free:
  assumes "unat m < 256" "m \<noteq> 0xff"
  shows "way_from_valid m < 8" "\<not> bit m (way_from_valid m)"
proof -
  let ?w = "way_from_valid m"
  have "\<exists>i<8. \<not> bit m i"
  proof (rule ccontr)
    assume "\<not> (\<exists>i<8. \<not> bit m i)"
    moreover have "bit m i \<Longrightarrow> i < 8" for i using small_bits [of m i 8] assms(1) by simp
    ultimately have "m = mask 8" by (auto intro!: bit_word_eqI simp: bit_mask_iff)
    then show False using assms(2) by (simp add: mask_eq_exp_minus_1)
  qed
  then have "takeWhile (bit m) [0..<8] \<noteq> [0..<8]" by (metis atLeastLessThan_iff set_takeWhileD set_upt zero_le)
  then show w: "?w < 8" unfolding way_from_valid_def
    by (metis length_takeWhile_le length_upt minus_nat.diff_0 order_le_less takeWhile_eq_take take_all_iff)
  have "\<not> bit m ([0..<8] ! ?w)"
    using nth_length_takeWhile [of "bit m" "[0..<8]"] w by (simp add: way_from_valid_def)
  then show "\<not> bit m ?w" using w by simp
qed

lemma way_from_plru_less: "way_from_plru m < 8"
  by (simp add: way_from_plru_def)

lemma plru_victim:
  assumes "t < 8"
  shows "way_from_plru (update_plru m t) \<noteq> t"
proof -
  consider "t = 0" | "t = 1" | "t = 2" | "t = 3" | "t = 4" | "t = 5" | "t = 6" | "t = 7" using assms by linarith
  then show ?thesis
    by cases (simp_all add: way_from_plru_def update_plru_def s_plru_mask_def s_plru_value_def bit_or_iff bit_and_iff bit_not_iff)
qed

lemma update_plru_less:
  assumes "t < 8" "unat m < 128"
  shows "unat (update_plru m t) < 128"
proof -
  have b: "n < 7" if "bit m n" for n using small_bits [of m n 7] assms(2) that by auto
  have v: "n < 7" if "bit (s_plru_value ! t) n" for n
  proof -
    have "\<forall>v \<in> set s_plru_value. unat v < 128" by (simp add: s_plru_value_def)
    moreover have "s_plru_value ! t \<in> set s_plru_value" using assms(1) by (intro nth_mem) (simp add: s_plru_value_def)
    ultimately show ?thesis using small_bits [of "s_plru_value ! t" n 7] that by auto
  qed
  have "update_plru m t AND mask 7 = update_plru m t"
    by (rule bit_word_eqI) (use b v in \<open>auto simp: update_plru_def bit_and_iff bit_or_iff bit_mask_iff\<close>)
  then show ?thesis using unat_and_mask [of "update_plru m t" 7] by simp
qed

section \<open>The invariant\<close>

text \<open>Valid ways and table entries determine each other.\<close>

definition ic_index_ok :: "InstructionCache \<Rightarrow> bool" where
  "ic_index_ok c \<longleftrightarrow>
    (\<forall>st. unat (ic_valid c st) < 256 \<and> unat (ic_plru c st) < 128) \<and>
    (\<forall>st < 128. \<forall>t < 8. bit (ic_valid c st) t \<longrightarrow> tab c (lkey (line_addr (ic_tags c st t) st)) = of_nat t) \<and>
    (\<forall>k. tab c k \<noteq> 0xff \<longrightarrow> unat (tab c k) < 8 \<and> bit (ic_valid c (snd k mod 128)) (unat (tab c k)) \<and>
       lkey (line_addr (ic_tags c (snd k mod 128) (unat (tab c k))) (snd k mod 128)) = k)"

definition loaded :: "nat \<Rightarrow> nat \<Rightarrow> 'a IC_State_scheme \<Rightarrow> bool" where
  "loaded st t s \<longleftrightarrow> (case mem_pointer (line_addr (ic_tags (iCache s) st t) st) s of None \<Rightarrow> False
     | Some p \<Rightarrow> (\<forall>i < 32. ic_data (iCache s) st t i = physical_base s (p + of_nat i)))"

text \<open>The cache is consistent, and its lines hold what memory holds.\<close>

definition ic_ok :: "'a IC_State_scheme \<Rightarrow> bool" where
  "ic_ok s \<longleftrightarrow> ic_index_ok (iCache s) \<and> (\<forall>st < 128. \<forall>t < 8. bit (ic_valid (iCache s) st) t \<longrightarrow> loaded st t s)"

lemma ic_index_okD:
  assumes "ic_index_ok c"
  shows "unat (ic_valid c st) < 256" "unat (ic_plru c st) < 128"
    "st < 128 \<Longrightarrow> t < 8 \<Longrightarrow> bit (ic_valid c st) t \<Longrightarrow> tab c (lkey (line_addr (ic_tags c st t) st)) = of_nat t"
    "tab c k \<noteq> 0xff \<Longrightarrow> unat (tab c k) < 8" "tab c k \<noteq> 0xff \<Longrightarrow> bit (ic_valid c (snd k mod 128)) (unat (tab c k))"
    "tab c k \<noteq> 0xff \<Longrightarrow> lkey (line_addr (ic_tags c (snd k mod 128) (unat (tab c k))) (snd k mod 128)) = k"
  using assms unfolding ic_index_ok_def by blast+

lemma reset_ok: "ic_index_ok (Reset_ic c)"
  by (simp add: ic_index_ok_def Reset_ic_def tab_def split: line_class.splits)

lemma way_of_nat: "t < 8 \<Longrightarrow> unat (of_nat t :: u8) = t" "t < 8 \<Longrightarrow> (of_nat t :: u8) \<noteq> 0xff"
  "t < 8 \<Longrightarrow> t' < 8 \<Longrightarrow> (of_nat t :: u8) = of_nat t' \<longleftrightarrow> t = t'"
proof -
  have u: "unat (of_nat t :: u8) = t" if "t < 8" for t using that by (simp add: unat_of_nat)
  show "t < 8 \<Longrightarrow> unat (of_nat t :: u8) = t" by (rule u)
  show "t < 8 \<Longrightarrow> (of_nat t :: u8) \<noteq> 0xff" using u [of t] by (auto dest: arg_cong [where f = unat])
  show "t < 8 \<Longrightarrow> t' < 8 \<Longrightarrow> (of_nat t :: u8) = of_nat t' \<longleftrightarrow> t = t'" using u by metis
qed

text \<open>A new line in way \<open>t\<close> of its set; the line it replaces loses its entry.\<close>

lemma index_ok_load:
  assumes "ic_index_ok c" "t < 8" "tab c (lkey a) = 0xff"
    and "unat V < 256" "\<And>i. bit V i \<longleftrightarrow> bit (ic_valid c st) i \<or> i = t" "st = line_set a"
    and "\<And>k. tab c' k = (if k = lkey a then of_nat t
        else if bit (ic_valid c st) t \<and> k = lkey (line_addr (ic_tags c st t) st) then 0xff else tab c k)"
    and "ic_tags c' = (ic_tags c)(st := (ic_tags c st)(t := drop_bit 12 a))" "ic_valid c' = (ic_valid c)(st := V)" "ic_plru c' = ic_plru c"
  shows "ic_index_ok c'"
proof -
  note D = ic_index_okD [OF assms(1)]
  have ka: "lkey (line_addr (drop_bit 12 a) st) = lkey a" by (simp only: assms(6) line_addr_line lkey_line)
  have st: "st < 128" by (simp add: assms(6))
  have two: "tab c' (lkey (line_addr (ic_tags c' st' t') st')) = of_nat t'" if h: "st' < 128" "t' < 8" "bit (ic_valid c' st') t'" for st' t'
  proof (cases "st' = st \<and> t' = t")
    case True
    then show ?thesis using ka by (simp add: assms(7,8))
  next
    case False
    then have g: "ic_tags c' st' t' = ic_tags c st' t'" and v: "bit (ic_valid c st') t'"
      using h(3) assms(5) by (auto simp: assms(8,9) split: if_splits)
    let ?k = "lkey (line_addr (ic_tags c st' t') st')"
    have tk: "tab c ?k = of_nat t'" using D(3) [OF h(1,2) v] .
    then have "?k \<noteq> lkey a" using assms(3) way_of_nat(2) [OF h(2)] by auto
    moreover have "\<not> (bit (ic_valid c st) t \<and> ?k = lkey (line_addr (ic_tags c st t) st))"
      using D(3) [OF st assms(2)] tk way_of_nat(3) [OF assms(2) h(2)] lkey_line_addr_set [OF h(1)] lkey_line_addr_set [OF st] False by metis
    ultimately show ?thesis unfolding g assms(7) using tk by (simp only: if_False if_not_P)
  qed
  have three: "unat (tab c' k) < 8 \<and> bit (ic_valid c' (snd k mod 128)) (unat (tab c' k)) \<and>
      lkey (line_addr (ic_tags c' (snd k mod 128) (unat (tab c' k))) (snd k mod 128)) = k" if h: "tab c' k \<noteq> 0xff" for k
  proof (cases "k = lkey a")
    case True
    then show ?thesis using assms(2,5) ka way_of_nat(1) [OF assms(2)] lkey_set [of a] by (simp add: assms(6-9))
  next
    case False
    then have nk: "\<not> (bit (ic_valid c st) t \<and> k = lkey (line_addr (ic_tags c st t) st))" and tk: "tab c' k = tab c k"
      using h unfolding assms(7) by (auto split: if_splits)
    have c: "tab c k \<noteq> 0xff" using h tk by simp
    have ne: "\<not> (snd k mod 128 = st \<and> unat (tab c k) = t)" using nk D(5,6) [OF c] by metis
    then have g: "ic_tags c' (snd k mod 128) (unat (tab c k)) = ic_tags c (snd k mod 128) (unat (tab c k))"
      unfolding assms(8) by (simp only: fun_upd_apply) auto
    show ?thesis unfolding tk g using D(4-6) [OF c] assms(5) by (auto simp: assms(9))
  qed
  have "unat (ic_valid c' st') < 256 \<and> unat (ic_plru c' st') < 128" for st' using D(1,2) assms(4) by (simp add: assms(9,10))
  then show ?thesis unfolding ic_index_ok_def using two three by blast
qed

section \<open>Memory behind the cache\<close>

text \<open>Two readable lines with one table entry are one place in memory.\<close>

lemma small_word: "unat (w :: u32) < 2 ^ n \<Longrightarrow> bit w k \<Longrightarrow> k < n"
  using small_bits [of w k n] by auto

lemma base_or: "n \<le> 28 \<Longrightarrow> 0x10000000 + take_bit n a = 0x10000000 OR take_bit n (a :: u32)"
proof -
  assume n: "n \<le> 28"
  have p: "(0x10000000 :: u32) = push_bit 28 1" by simp
  have "push_bit 28 1 AND take_bit n a = (0 :: u32)"
  proof (rule bit_word_eqI)
    fix k show "bit (push_bit 28 1 AND take_bit n a) k = bit (0 :: u32) k"
      unfolding bit_and_iff bit_push_bit_iff bit_take_bit_iff using n by auto
  qed
  then show ?thesis unfolding p by (rule disjunctive_add_eq_or)
qed

lemma pointer_low:
  assumes "mem_pointer a s = Some p"
  shows "\<not> bit a 29" "\<not> bit a 28 \<Longrightarrow> p = take_bit 25 a" "bit a 28 \<Longrightarrow> p = 0x10000000 OR take_bit 26 a"
    "bit a 28 \<Longrightarrow> m_pEXRAM s"
proof -
  define x where "x = take_bit 30 a"
  have m: "(0x3FFFFFFF :: u32) = mask 30" "(0x0FFFFFFF :: u32) = mask 28" "(0x03FFFFFF :: u32) = mask 26" by (simp_all add: mask_eq_exp_minus_1)
  have bx: "bit x n \<longleftrightarrow> n < 30 \<and> bit a n" for n by (simp add: x_def bit_take_bit_iff)
  have "(\<not> bit a 29 \<and> \<not> bit a 28 \<and> p = take_bit 25 a) \<or> (\<not> bit a 29 \<and> bit a 28 \<and> p = 0x10000000 OR take_bit 26 a \<and> m_pEXRAM s)"
  proof (cases "x < 0x01800000")
    case True
    then have lt: "unat x < 2 ^ 25" by (simp add: word_less_nat_alt)
    have b: "bit x n \<Longrightarrow> n < 25" for n by (rule small_word [OF lt])
    have "p = x" using assms True unfolding mem_pointer_def Let_def m take_bit_eq_mask [symmetric] x_def by simp
    moreover have "x = take_bit 25 a" by (rule bit_word_eqI) (use bx b in \<open>auto simp: bit_take_bit_iff\<close>)
    moreover have "\<not> bit a 29" "\<not> bit a 28" using b [of 29] b [of 28] bx by auto
    ultimately show ?thesis by simp
  next
    case False
    then have h: "m_pEXRAM s" "drop_bit 28 x = 1" "take_bit 28 x < 0x04000000" "p = 0x10000000 + take_bit 26 x"
      using assms unfolding mem_pointer_def Let_def m take_bit_eq_mask [symmetric] x_def by (auto split: if_splits)
    have d: "bit x (28 + n) = bit (1 :: u32) n" for n using h(2) by (metis bit_drop_bit_eq comp_apply)
    have "bit x 28" "\<not> bit x 29" using d [of 0] d [of 1] by simp_all
    then have ab: "bit a 28" "\<not> bit a 29" using bx by auto
    have t: "take_bit 26 x = take_bit 26 a" by (simp add: x_def)
    have "p = 0x10000000 OR take_bit 26 a" unfolding h(4) t by (rule base_or) simp
    then show ?thesis using h(1) ab by blast
  qed
  then show "\<not> bit a 29" "\<not> bit a 28 \<Longrightarrow> p = take_bit 25 a" "bit a 28 \<Longrightarrow> p = 0x10000000 OR take_bit 26 a" "bit a 28 \<Longrightarrow> m_pEXRAM s" by auto
qed

lemma low_index:
  assumes "take_bit n (drop_bit 5 a) = take_bit n (drop_bit 5 (b :: u32))" "a AND 0x1f = 0" "b AND 0x1f = 0"
  shows "take_bit (5 + n) a = take_bit (5 + n) b"
proof (rule bit_word_eqI)
  fix k :: nat
  show "bit (take_bit (5 + n) a) k = bit (take_bit (5 + n) b) k"
  proof (cases "k < 5")
    case True
    have "\<not> bit (a AND mask 5) k" "\<not> bit (b AND mask 5) k" using assms(2,3) unfolding masks by simp_all
    then show ?thesis using True by (simp add: bit_take_bit_iff bit_and_iff bit_mask_iff)
  next
    case False
    then have "bit (take_bit n (drop_bit 5 w)) (k - 5) = bit (take_bit (5 + n) w) k" for w :: u32
      by (auto simp: bit_take_bit_iff bit_drop_bit_eq)
    then show ?thesis using assms(1) by metis
  qed
qed

lemma pointer_lkey:
  assumes "mem_pointer a s = Some p" "mem_pointer b s = Some q" "lkey a = lkey b" "a AND 0x1f = 0" "b AND 0x1f = 0"
  shows "p = q"
proof -
  note A = pointer_low [OF assms(1)] and B = pointer_low [OF assms(2)]
  have c: "bit a 28 = bit b 28" using assms(3) A(1) B(1) by (auto simp: lkey_def split: if_splits)
  show ?thesis
  proof (cases "bit a 28")
    case True
    then have "take_bit 21 (drop_bit 5 a) = take_bit 21 (drop_bit 5 b)" using assms(3) A(1) B(1) c by (simp add: lkey_def word_unat_eq_iff)
    then show ?thesis using low_index [OF _ assms(4,5), of 21] A(3) B(3) c True by simp
  next
    case False
    then have "take_bit 20 (drop_bit 5 a) = take_bit 20 (drop_bit 5 b)" using assms(3) A(1) B(1) c by (simp add: lkey_def word_unat_eq_iff)
    then show ?thesis using low_index [OF _ assms(4,5), of 20] A(2) B(2) c False by simp
  qed
qed

lemma unat_line: "unat (w AND NOT 0x1f :: u32) = unat w div 32 * 32"
proof -
  have "w AND NOT 0x1f = push_bit 5 (drop_bit 5 w)"
    unfolding masks by (rule bit_word_eqI) (auto simp: bit_and_iff bit_not_iff bit_mask_iff bit_push_bit_iff bit_drop_bit_eq)
  moreover have "unat (drop_bit 5 w) * 2 ^ 5 < 2 ^ LENGTH(32)" using unat_u32_less [of w] by (simp add: unat_drop_bit)
  ultimately show ?thesis using unat_push_bit [of "drop_bit 5 w" 5] by (simp add: unat_drop_bit)
qed

lemma line_less: "c mod 32 = 0 \<Longrightarrow> unat (w AND NOT 0x1f :: u32) < c \<longleftrightarrow> unat w < c"
proof -
  assume "c mod 32 = 0"
  then obtain q where q: "c = q * 32" by (metis dvd_eq_mod_eq_0 dvd_div_mult_self)
  have "unat w div 32 * 32 < q * 32 \<longleftrightarrow> unat w div 32 < q" by simp
  also have "\<dots> \<longleftrightarrow> unat w < q * 32" by (simp add: div_less_iff_less_mult)
  finally show ?thesis unfolding unat_line q .
qed

lemma line_parts: "w = (w AND NOT 0x1f) + (w AND 0x1f :: u32)"
proof -
  have z: "(w AND NOT 0x1f) AND (w AND 0x1f) = (0 :: u32)" by (simp add: ac_simps)
  have "w = (w AND NOT 0x1f) OR (w AND 0x1f)" by (simp add: bit.conj_disj_distrib [symmetric])
  then show ?thesis using disjunctive_add_eq_or [OF z] by metis
qed

lemma pointer_line_map: "mem_pointer (a AND NOT 0x1f) s = map_option (\<lambda>p. p AND NOT 0x1f) (mem_pointer a s)"
proof -
  define x where "x = a AND 0x3FFFFFFF"
  have x': "(a AND NOT 0x1f) AND 0x3FFFFFFF = x AND NOT 0x1f" by (simp only: x_def ac_simps)
  have u: "w < 0x01800000 \<longleftrightarrow> unat w < 0x01800000" "w < 0x04000000 \<longleftrightarrow> unat w < 0x04000000" for w :: u32
    by (simp_all add: word_less_nat_alt)
  have l: "x AND NOT 0x1f < 0x01800000 \<longleftrightarrow> x < 0x01800000"
    unfolding u by (rule line_less) simp
  have l2: "(x AND NOT 0x1f) AND 0x0FFFFFFF < 0x04000000 \<longleftrightarrow> x AND 0x0FFFFFFF < 0x04000000"
  proof -
    have "(x AND NOT 0x1f) AND 0x0FFFFFFF = (x AND 0x0FFFFFFF) AND NOT 0x1f" by (simp only: ac_simps)
    then show ?thesis unfolding u by (simp only:) (rule line_less, simp)
  qed
  have d: "drop_bit 28 (x AND NOT 0x1f) = drop_bit 28 x"
    unfolding masks by (rule bit_word_eqI) (auto simp: bit_drop_bit_eq bit_and_iff bit_not_iff bit_mask_iff dest: bit_imp_le_length)
  have m: "(0x03FFFFFF :: u32) = mask 26" by (simp add: mask_eq_exp_minus_1)
  have q: "0x10000000 + ((x AND NOT 0x1f) AND 0x03FFFFFF) = (0x10000000 + (x AND 0x03FFFFFF)) AND NOT 0x1f"
  proof -
    have "(x AND NOT 0x1f) AND mask 26 = take_bit 26 (x AND NOT 0x1f)" by (simp only: take_bit_eq_mask)
    then have "0x10000000 + ((x AND NOT 0x1f) AND mask 26) = 0x10000000 OR ((x AND NOT 0x1f) AND mask 26)" using base_or [of 26 "x AND NOT 0x1f"] by simp
    moreover have "0x10000000 + (x AND mask 26) = 0x10000000 OR (x AND mask 26)" using base_or [of 26 x] by (simp add: take_bit_eq_mask)
    moreover have "(0x10000000 OR (x AND mask 26)) AND NOT 0x1f = 0x10000000 OR ((x AND NOT 0x1f) AND mask 26)"
      by (simp only: bit.conj_disj_distrib2) (simp add: ac_simps)
    ultimately show ?thesis unfolding m by simp
  qed
  show ?thesis unfolding mem_pointer_def Let_def x' x_def [symmetric] l l2 d q by simp
qed

lemma pointer_none: "mem_pointer a s = None \<Longrightarrow> mem_pointer (a AND NOT 0x1f) s = None"
  by (simp only: pointer_line_map option.map)

lemma pointer_line:
  assumes "mem_pointer a s = Some p"
  shows "mem_pointer (a AND NOT 0x1f) s = Some (p AND NOT 0x1f)" "p = (p AND NOT 0x1f) + (a AND 0x1f)"
proof -
  show "mem_pointer (a AND NOT 0x1f) s = Some (p AND NOT 0x1f)" by (simp only: pointer_line_map assms option.map)
  have "p AND 0x1f = a AND 0x1f"
  proof (cases "bit a 28")
    case True
    have "(0x10000000 OR take_bit 26 a) AND mask 5 = a AND mask 5"
      by (rule bit_word_eqI) (auto simp: bit_and_iff bit_or_iff bit_mask_iff bit_take_bit_iff numeral_eq_Suc less_Suc_eq)
    then show ?thesis using pointer_low(3) [OF assms True] unfolding masks by simp
  next
    case False
    have "take_bit 25 a AND mask 5 = a AND mask 5"
      by (rule bit_word_eqI) (auto simp: bit_and_iff bit_mask_iff bit_take_bit_iff)
    then show ?thesis using pointer_low(2) [OF assms False] unfolding masks by simp
  qed
  then show "p = (p AND NOT 0x1f) + (a AND 0x1f)" using line_parts [of p] by metis
qed

section \<open>Reading through the cache\<close>

lemma mem_pointer_ic [simp]: "mem_pointer a (s\<lparr>iCache := c\<rparr>) = mem_pointer a s"
  by (simp add: mem_pointer_def Let_def)

lemma mem_pointer_mem [simp]: "mem_pointer a (s\<lparr>physical_base := m\<rparr>) = mem_pointer a s"
  by (simp add: mem_pointer_def Let_def)

lemma loaded_word:
  assumes "loaded (line_set a) t s" "lkey (line_addr (ic_tags (iCache s) (line_set a) t) (line_set a)) = lkey a"
    "mem_pointer a s = Some p" "a AND 3 = 0"
  shows "fst (use_line a t s) = ucast (read_be 4 p (physical_base s))"
proof -
  let ?st = "line_set a" and ?k = "4 * unat (drop_bit 2 a AND 7)"
  obtain q where q: "mem_pointer (line_addr (ic_tags (iCache s) ?st t) ?st) s = Some q"
    and d: "\<And>i. i < 32 \<Longrightarrow> ic_data (iCache s) ?st t i = physical_base s (q + of_nat i)"
    using assms(1) by (auto simp: loaded_def split: option.splits)
  have al: "line_addr g ?st AND 0x1f = 0" for g
    unfolding line_addr_def masks
    by (rule bit_word_eqI) (auto simp: bit_and_iff bit_or_iff bit_mask_iff bit_push_bit_iff)
  have "q = p AND NOT 0x1f"
  proof (rule pointer_lkey [OF q pointer_line(1) [OF assms(3)] _ al])
    show "lkey (line_addr (ic_tags (iCache s) ?st t) ?st) = lkey (a AND NOT 0x1f)" by (simp only: assms(2) lkey_line)
    show "(a AND NOT 0x1f) AND 0x1f = 0" by (simp add: and.assoc)
  qed
  then have p: "p = q + (a AND 0x1f)" using pointer_line(2) [OF assms(3)] by simp
  have k: "(of_nat ?k :: u32) = a AND 0x1f" "?k \<le> 28"
  proof -
    have "unat (drop_bit 2 a AND mask 3) < 8" unfolding unat_and_mask by simp
    then have lt: "unat (drop_bit 2 a AND 7) < 8" by (simp add: masks(5))
    then show "?k \<le> 28" by simp
    have "(of_nat ?k :: u32) = push_bit 2 (drop_bit 2 a AND 7)" by (simp add: push_bit_eq_mult)
    also have "\<dots> = a AND 0x1f"
    proof (rule bit_word_eqI)
      fix n :: nat assume "n < LENGTH(32)"
      have "\<not> bit (a AND mask 2) n" using assms(4) by (simp add: mask_eq_exp_minus_1)
      then have "n < 2 \<Longrightarrow> \<not> bit a n" by (simp add: bit_and_iff bit_mask_iff)
      then show "bit (push_bit 2 (drop_bit 2 a AND 7)) n = bit (a AND 0x1f) n"
        unfolding masks bit_push_bit_iff bit_and_iff bit_mask_iff bit_drop_bit_eq comp_def using \<open>n < LENGTH(32)\<close> le_add_diff_inverse [of 2 n]
        by (cases "n < 2") (auto simp only: not_less, auto)
    qed
    finally show "(of_nat ?k :: u32) = a AND 0x1f" .
  qed
  have "read_be 4 (of_nat ?k) (\<lambda>i. ic_data (iCache s) ?st t (unat i)) = read_be 4 p (physical_base s)"
  proof -
    have "ic_data (iCache s) ?st t (unat (of_nat ?k + of_nat i :: u32)) = physical_base s (p + of_nat i)" if "i < 4" for i
    proof -
      have "unat (of_nat (?k + i) :: u32) = ?k + i" using k(2) that by (intro unat_small) simp
      then have "ic_data (iCache s) ?st t (unat (of_nat ?k + of_nat i :: u32)) = physical_base s (q + of_nat (?k + i))"
        using d [of "?k + i"] k(2) that by (simp only: of_nat_add [symmetric])
      also have "q + of_nat (?k + i) = p + of_nat i" unfolding p k(1) [symmetric] by (simp only: of_nat_add ac_simps)
      finally show ?thesis .
    qed
    then show ?thesis unfolding read_be_def by (intro fold_cong) auto
  qed
  then show ?thesis by (simp only: use_line_def Let_def fst_conv)
qed

lemma use_line_ok:
  assumes "ic_ok s" "t < 8"
  shows "ic_ok (snd (use_line a t s))" "\<exists>c. snd (use_line a t s) = s\<lparr>iCache := c\<rparr>"
proof -
  show "\<exists>c. snd (use_line a t s) = s\<lparr>iCache := c\<rparr>" by (auto simp: use_line_def Let_def)
  have "ic_index_ok (iCache s)" "\<And>st u. st < 128 \<Longrightarrow> u < 8 \<Longrightarrow> bit (ic_valid (iCache s) st) u \<Longrightarrow> loaded st u s"
    using assms(1) by (auto simp: ic_ok_def)
  moreover have "loaded st u (snd (use_line a t s)) = loaded st u s" for st u
    by (simp add: loaded_def use_line_def Let_def split: option.splits)
  moreover have "ic_index_ok (iCache (snd (use_line a t s)))"
    using calculation(1) update_plru_less [OF assms(2)] unfolding ic_index_ok_def use_line_def Let_def by simp
  ultimately show "ic_ok (snd (use_line a t s))" by (simp add: ic_ok_def use_line_def Let_def)
qed

lemma valid_or:
  assumes "unat (v :: u32) < 256" "t < 8"
  shows "unat (v OR push_bit t 1) < 256" "bit (v OR push_bit t 1) i \<longleftrightarrow> bit v i \<or> i = t"
proof -
  have p: "bit (push_bit t 1 :: u32) i \<longleftrightarrow> i = t" for i unfolding bit_push_bit_iff using assms(2) by (auto simp: bit_1_iff)
  show "bit (v OR push_bit t 1) i \<longleftrightarrow> bit v i \<or> i = t" unfolding bit_or_iff p by (rule refl)
  have "bit v i \<Longrightarrow> i < 8" for i using small_word [of v 8 i] assms(1) by simp
  then have "(v OR push_bit t 1) AND mask 8 = v OR push_bit t 1"
  proof (intro bit_word_eqI)
    fix n assume "\<And>i. bit v i \<Longrightarrow> i < 8" "n < LENGTH(32)"
    then show "bit ((v OR push_bit t 1) AND mask 8) n = bit (v OR push_bit t 1) n"
      unfolding bit_and_iff bit_or_iff p bit_mask_iff using assms(2) by fastforce
  qed
  then show "unat (v OR push_bit t 1) < 256" using unat_and_mask [of "v OR push_bit t 1" 8] by simp
qed

lemma pointer_line_end:
  assumes "mem_pointer a s = Some p"
  shows "mem_pointer ((a AND NOT 0x1f) + 32 - 1) s \<noteq> None"
proof -
  let ?b = "(a AND NOT 0x1f) + 32 - 1"
  have z: "(a AND NOT 0x1f) AND 0x1f = 0" by (simp add: and.assoc)
  have e: "?b = (a AND NOT 0x1f) OR 0x1f" using disjunctive_add_eq_or [OF z] by (simp add: add.commute)
  have "?b AND NOT 0x1f = a AND NOT 0x1f" unfolding e by (simp add: bit.conj_disj_distrib2 and.assoc)
  moreover have "mem_pointer x s = None \<longleftrightarrow> mem_pointer (x AND NOT 0x1f) s = None" for x
    using pointer_none [of x s] pointer_line(1) [of x s] by (cases "mem_pointer x s") auto
  ultimately show ?thesis using assms by (metis option.distinct(1))
qed

lemma load_line_ok:
  assumes "ic_ok s" "t < 8" "tab (iCache s) (lkey a) = 0xff" "mem_pointer a s = Some p"
  shows "ic_ok (load_line a t s)" "\<exists>c. load_line a t s = s\<lparr>iCache := c\<rparr>" "bit (ic_valid (iCache (load_line a t s)) (line_set a)) t"
    "ic_tags (iCache (load_line a t s)) (line_set a) t = drop_bit 12 a"
proof -
  let ?st = "line_set a" and ?c = "iCache s" and ?s' = "load_line a t s"
  let ?q = "p AND NOT 0x1f"
  define c' where "c' = iCache ?s'"
  have ix: "ic_index_ok ?c" and ld: "\<And>st u. st < 128 \<Longrightarrow> u < 8 \<Longrightarrow> bit (ic_valid ?c st) u \<Longrightarrow> loaded st u s"
    using assms(1) by (auto simp: ic_ok_def)
  note q = pointer_line(1) [OF assms(4)]
  have "mem_pointer ((a AND NOT 0x1f) + 32 - 1) s \<noteq> None" by (rule pointer_line_end [OF assms(4)])
  then have cp: "CopyFromEmu (ic_data ?c ?st t) (a AND NOT 0x1f) s = (\<lambda>k. if k < 32 then physical_base s (?q + of_nat k) else ic_data ?c ?st t k, s)"
    using q by (auto simp: CopyFromEmu_def)
  have c': "c' = (let c1 = ?c\<lparr>ic_data := (ic_data ?c)(?st := (ic_data ?c ?st)(t := \<lambda>k. if k < 32 then physical_base s (?q + of_nat k) else ic_data ?c ?st t k))\<rparr>;
      c2 = (if bit (ic_valid ?c ?st) t then clear_lookup (ic_tags ?c ?st t) ?st c1 else c1); c3 = set_lookup a (of_nat t) c2
    in c3\<lparr>ic_tags := (ic_tags ?c)(?st := (ic_tags ?c ?st)(t := drop_bit 12 a)), ic_valid := (ic_valid ?c)(?st := ic_valid ?c ?st OR push_bit t 1)\<rparr>)"
    unfolding c'_def load_line_def cp Let_def by simp
  have s': "?s' = s\<lparr>iCache := c'\<rparr>" unfolding c'_def load_line_def cp Let_def by simp
  then show "\<exists>c. ?s' = s\<lparr>iCache := c\<rparr>" by blast
  have g: "ic_tags c' = (ic_tags ?c)(?st := (ic_tags ?c ?st)(t := drop_bit 12 a))" "ic_valid c' = (ic_valid ?c)(?st := ic_valid ?c ?st OR push_bit t 1)"
    "ic_plru c' = ic_plru ?c"
    "ic_data c' = (ic_data ?c)(?st := (ic_data ?c ?st)(t := \<lambda>k. if k < 32 then physical_base s (?q + of_nat k) else ic_data ?c ?st t k))"
    unfolding c' Let_def by simp_all
  note vo = valid_or [OF ic_index_okD(1) [OF ix, of ?st] assms(2)]
  have "bit (ic_valid c' ?st) t" "ic_tags c' ?st t = drop_bit 12 a" using vo(2) by (simp_all add: g)
  then show "bit (ic_valid (iCache ?s') ?st) t" "ic_tags (iCache ?s') ?st t = drop_bit 12 a" by (simp_all add: s')
  have tb: "tab c' k = (if k = lkey a then of_nat t
        else if bit (ic_valid ?c ?st) t \<and> k = lkey (line_addr (ic_tags ?c ?st t) ?st) then 0xff else tab ?c k)" for k
    unfolding c' Let_def by (simp add: tab_set_lookup tab_clear_lookup)
  have ix': "ic_index_ok c'" by (rule index_ok_load [OF ix assms(2,3) vo refl tb g(1-3)])
  have "loaded st u ?s'" if h: "st < 128" "u < 8" "bit (ic_valid c' st) u" for st u
  proof (cases "st = ?st \<and> u = t")
    case True
    then show ?thesis using q unfolding loaded_def s' by (simp add: g line_addr_line)
  next
    case False
    then have "bit (ic_valid ?c st) u" using h(3) vo(2) by (auto simp: g split: if_splits)
    moreover have "ic_tags c' st u = ic_tags ?c st u" "ic_data c' st u = ic_data ?c st u" using False by (auto simp: g)
    ultimately show ?thesis using ld [OF h(1,2)] unfolding loaded_def s' by (simp split: option.splits)
  qed
  then show "ic_ok ?s'" using ix' unfolding ic_ok_def by (simp add: s')
qed

lemma tab_hit:
  assumes "ic_ok s" "tab (iCache s) (lkey a) \<noteq> 0xff"
  defines "t \<equiv> unat (tab (iCache s) (lkey a))"
  shows "t < 8" "loaded (line_set a) t s" "lkey (line_addr (ic_tags (iCache s) (line_set a) t) (line_set a)) = lkey a"
proof -
  have ix: "ic_index_ok (iCache s)" using assms(1) by (simp add: ic_ok_def)
  show t: "t < 8" using ic_index_okD(4) [OF ix assms(2)] by (simp add: t_def)
  have "bit (ic_valid (iCache s) (line_set a)) t" using ic_index_okD(5) [OF ix assms(2)] by (simp add: t_def lkey_set)
  then show "loaded (line_set a) t s" using assms(1) t by (simp add: ic_ok_def)
  show "lkey (line_addr (ic_tags (iCache s) (line_set a) t) (line_set a)) = lkey a"
    using ic_index_okD(6) [OF ix assms(2)] by (simp add: t_def lkey_set)
qed

lemma read_instruction:
  assumes "ic_ok s" "mem_pointer a s = Some p" "a AND 3 = 0"
  shows "\<exists>c. ReadInstruction a s = Some (ucast (read_be 4 p (physical_base s)), s\<lparr>iCache := c\<rparr>) \<and> ic_ok (s\<lparr>iCache := c\<rparr>)"
proof -
  have mr: "Memory_Read_U32 a s = Some (ucast (read_be 4 p (physical_base s)))" by (simp add: Memory_Read_U32_def assms(2))
  have use: "\<exists>c. use_line a t s' = (ucast (read_be 4 p (physical_base s)), s\<lparr>iCache := c\<rparr>) \<and> ic_ok (s\<lparr>iCache := c\<rparr>)"
    if h: "ic_ok s'" "t < 8" "loaded (line_set a) t s'" "lkey (line_addr (ic_tags (iCache s') (line_set a) t) (line_set a)) = lkey a"
      "s' = s\<lparr>iCache := c'\<rparr>" for s' t c'
  proof -
    have "mem_pointer a s' = Some p" "physical_base s' = physical_base s" using assms(2) by (simp_all add: h(5))
    then have "fst (use_line a t s') = ucast (read_be 4 p (physical_base s))" using loaded_word [OF h(3,4) _ assms(3)] by simp
    moreover have "\<exists>c. snd (use_line a t s') = s\<lparr>iCache := c\<rparr>" using use_line_ok(2) [OF h(1,2), of a] by (auto simp: h(5))
    ultimately show ?thesis using use_line_ok(1) [OF h(1,2), of a] by (metis prod.collapse)
  qed
  have same: "s = s\<lparr>iCache := iCache s\<rparr>" by simp
  consider "\<not> HID0_ICE s" | "HID0_ICE s" "get_lookup a (iCache s) = 0xff" "HID0_ILOCK s"
    | "HID0_ICE s" "get_lookup a (iCache s) = 0xff" "\<not> HID0_ILOCK s" | "HID0_ICE s" "get_lookup a (iCache s) \<noteq> 0xff" by blast
  then show ?thesis
  proof cases
    case 3
    let ?V = "ic_valid (iCache s) (line_set a)"
    define w where "w = (if ?V \<noteq> 0xff then way_from_valid ?V else way_from_plru (ic_plru (iCache s) (line_set a)))"
    have "unat ?V < 256" using assms(1) ic_index_okD(1) by (auto simp: ic_ok_def)
    then have w: "w < 8" using way_from_valid_free(1) way_from_plru_less by (simp add: w_def)
    note L = load_line_ok [OF assms(1) w 3(2) [unfolded get_lookup_tab] assms(2)]
    have k: "lkey (line_addr (drop_bit 12 a) (line_set a)) = lkey a" by (simp only: line_addr_line lkey_line)
    obtain c' where c': "load_line a w s = s\<lparr>iCache := c'\<rparr>" using L(2) by blast
    have "loaded (line_set a) w (load_line a w s)" using L(1,3) w by (simp add: ic_ok_def)
    from use [OF L(1) w this _ c'] k L(4) show ?thesis using 3 by (auto simp: ReadInstruction_def Let_def w_def)
  next
    case 4
    note H = tab_hit [OF assms(1) 4(2) [unfolded get_lookup_tab]]
    show ?thesis using use [OF assms(1) H same] 4 by (auto simp: ReadInstruction_def Let_def get_lookup_tab)
  qed (use mr assms(1) in \<open>auto simp: ReadInstruction_def Let_def intro!: exI [of _ "iCache s"]\<close>)
qed

section \<open>Invalidation\<close>

lemma fold_clear:
  assumes "st < 128"
  shows "tab (fold (\<lambda>i c. if bit (ic_valid c st) i then clear_lookup (ic_tags c st i) st c else c) [0..<n] c) k =
    (if \<exists>i<n. bit (ic_valid c st) i \<and> k = lkey (line_addr (ic_tags c st i) st) then 0xff else tab c k)"
    "ic_data (fold (\<lambda>i c. if bit (ic_valid c st) i then clear_lookup (ic_tags c st i) st c else c) [0..<n] c) = ic_data c"
    "ic_tags (fold (\<lambda>i c. if bit (ic_valid c st) i then clear_lookup (ic_tags c st i) st c else c) [0..<n] c) = ic_tags c"
    "ic_valid (fold (\<lambda>i c. if bit (ic_valid c st) i then clear_lookup (ic_tags c st i) st c else c) [0..<n] c) = ic_valid c"
    "ic_plru (fold (\<lambda>i c. if bit (ic_valid c st) i then clear_lookup (ic_tags c st i) st c else c) [0..<n] c) = ic_plru c"
  by (induction n) (auto simp: tab_clear_lookup [OF assms] less_Suc_eq)

lemma line_set_offset:
  assumes "q AND 0x1f = 0" "i < 32"
  shows "line_set (q + of_nat i) = line_set q"
proof -
  have i: "bit (of_nat i :: u32) n \<Longrightarrow> n < 5" for n using small_word [of "of_nat i" 5 n] assms(2) by (simp add: unat_of_nat)
  have q: "5 \<le> n" if "bit q n" for n
  proof -
    have "\<not> bit (q AND mask 5) n" using assms(1) unfolding masks by simp
    then show ?thesis using that bit_imp_le_length [OF that] by (simp add: bit_and_iff bit_mask_iff)
  qed
  have z: "q AND of_nat i = 0" by (rule bit_word_eqI) (use i q in \<open>fastforce simp: bit_and_iff\<close>)
  have "drop_bit 5 (q OR of_nat i) = drop_bit 5 q"
    by (rule bit_word_eqI) (use i in \<open>fastforce simp: bit_drop_bit_eq bit_or_iff\<close>)
  then show ?thesis by (simp only: line_set_def disjunctive_add_eq_or [OF z])
qed

lemma pointer_set: "mem_pointer x s = Some q \<Longrightarrow> line_set q = line_set x"
proof -
  assume h: "mem_pointer x s = Some q"
  have "drop_bit 5 q AND mask 7 = drop_bit 5 x AND mask 7"
  proof (cases "bit x 28")
    case True
    have p: "(0x10000000 :: u32) = push_bit 28 1" by simp
    show ?thesis unfolding pointer_low(3) [OF h True] p
      by (rule bit_word_eqI, unfold bit_and_iff bit_mask_iff bit_drop_bit_eq comp_def bit_or_iff bit_push_bit_iff bit_take_bit_iff) auto
  next
    case False
    show ?thesis unfolding pointer_low(2) [OF h False]
      by (rule bit_word_eqI) (auto simp: bit_and_iff bit_mask_iff bit_drop_bit_eq bit_take_bit_iff)
  qed
  then show ?thesis by (simp only: line_set_def masks)
qed

lemma line_addr_aligned: "line_addr g st AND 0x1f = 0"
  unfolding line_addr_def masks
  by (rule bit_word_eqI) (auto simp: bit_and_iff bit_or_iff bit_mask_iff bit_push_bit_iff)

lemma invalidate_ok:
  assumes "ic_ok s" "HID0_ICE s" "\<And>q. line_set q \<noteq> line_set a \<Longrightarrow> mem q = physical_base s q"
  shows "ic_ok (Invalidate a (s\<lparr>physical_base := mem\<rparr>))"
proof -
  let ?st = "line_set a" and ?c = "iCache s"
  let ?s' = "Invalidate a (s\<lparr>physical_base := mem\<rparr>)"
  define c' where "c' = iCache ?s'"
  have st: "?st < 128" by simp
  have ix: "ic_index_ok ?c" and ld: "\<And>st u. st < 128 \<Longrightarrow> u < 8 \<Longrightarrow> bit (ic_valid ?c st) u \<Longrightarrow> loaded st u s"
    using assms(1) by (auto simp: ic_ok_def)
  note D = ic_index_okD [OF ix]
  have s': "?s' = s\<lparr>physical_base := mem, iCache := c'\<rparr>" using assms(2) by (simp add: c'_def Invalidate_def Let_def)
  have g: "ic_data c' = ic_data ?c" "ic_tags c' = ic_tags ?c" "ic_valid c' = (ic_valid ?c)(?st := 0)" "ic_plru c' = ic_plru ?c"
    using assms(2) by (simp_all add: c'_def Invalidate_def Let_def fold_clear [OF st])
  have tb: "tab c' k = (if \<exists>i<8. bit (ic_valid ?c ?st) i \<and> k = lkey (line_addr (ic_tags ?c ?st i) ?st) then 0xff else tab ?c k)" for k
    using assms(2) by (simp add: c'_def Invalidate_def Let_def fold_clear [OF st])
  have other: "tab c' k = tab ?c k" if "snd k mod 128 \<noteq> ?st" for k
    unfolding tb using that lkey_line_addr_set [OF st] by auto
  have gone: "snd k mod 128 \<noteq> ?st" if "tab c' k \<noteq> 0xff" for k
    using that D(4-6) [of k] unfolding tb by (metis (no_types, lifting))
  have two: "tab c' (lkey (line_addr (ic_tags c' u t) u)) = of_nat t" if "u < 128" "t < 8" "bit (ic_valid c' u) t" for u t
    using that D(3) [of u t] other [of "lkey (line_addr (ic_tags ?c u t) u)"] lkey_line_addr_set [of u] by (auto simp: g split: if_splits)
  have three: "unat (tab c' k) < 8 \<and> bit (ic_valid c' (snd k mod 128)) (unat (tab c' k)) \<and>
      lkey (line_addr (ic_tags c' (snd k mod 128) (unat (tab c' k))) (snd k mod 128)) = k" if h: "tab c' k \<noteq> 0xff" for k
    using D(4-6) [of k] gone [OF h] other [OF gone [OF h]] h by (simp add: g)
  have "ic_index_ok c'" unfolding ic_index_ok_def using two three D(1,2) by (simp add: g)
  moreover have "loaded u t ?s'" if h: "u < 128" "t < 8" "bit (ic_valid c' u) t" for u t
  proof -
    have u: "u \<noteq> ?st" "bit (ic_valid ?c u) t" using h(3) by (auto simp: g split: if_splits)
    let ?x = "line_addr (ic_tags ?c u t) u"
    obtain q where q: "mem_pointer ?x s = Some q" and d: "\<And>i. i < 32 \<Longrightarrow> ic_data ?c u t i = physical_base s (q + of_nat i)"
      using ld [OF h(1,2) u(2)] by (auto simp: loaded_def split: option.splits)
    have "q AND 0x1f = 0" using pointer_line(2) [OF q] line_addr_aligned by (metis add.right_neutral and.assoc bit.conj_cancel_left bit.conj_zero_right)
    then have "line_set (q + of_nat i) = u" if "i < 32" for i
      using line_set_offset [OF _ that] pointer_set [OF q] lkey_line_addr_set [OF h(1)] lkey_set by metis
    then have "mem (q + of_nat i) = physical_base s (q + of_nat i)" if "i < 32" for i using that u(1) assms(3) by metis
    then show ?thesis using q d unfolding s' loaded_def by (simp add: g)
  qed
  ultimately show ?thesis unfolding ic_ok_def by (simp add: s')
qed

section \<open>Sequences of fetches\<close>

definition fetch :: "u32 \<Rightarrow> 'a IC_State_scheme \<Rightarrow> u32 option \<times> 'a IC_State_scheme" where
  "fetch a s = (case ReadInstruction a s of None \<Rightarrow> (None, s) | Some (v, s1) \<Rightarrow> (Some v, s1))"

definition fetchable :: "u32 \<Rightarrow> 'a IC_State_scheme \<Rightarrow> bool" where
  "fetchable a s \<longleftrightarrow> a AND 3 = 0 \<and> mem_pointer a s \<noteq> None"

interpretation icache: cache fetch Memory_Read_U32 ic_ok fetchable
proof
  fix s :: "'a IC_State_scheme" and a b
  assume ok: "ic_ok s" and "fetchable a s"
  then obtain p where p: "mem_pointer a s = Some p" "a AND 3 = 0" by (auto simp: fetchable_def)
  obtain c where c: "fetch a s = (Some (ucast (read_be 4 p (physical_base s))), s\<lparr>iCache := c\<rparr>)" "ic_ok (s\<lparr>iCache := c\<rparr>)"
    using read_instruction [OF ok p] by (auto simp: fetch_def)
  show "fst (fetch a s) = Memory_Read_U32 a s" "ic_ok (snd (fetch a s))" "Memory_Read_U32 b (snd (fetch a s)) = Memory_Read_U32 b s"
    "fetchable b (snd (fetch a s)) = fetchable b s"
    using c p by (simp_all add: Memory_Read_U32_def fetchable_def)
qed

text \<open>
  C22. The instruction cache is invisible. From a state where every valid line holds what memory holds and the look-up
  tables agree with the tags, any sequence of aligned fetches from memory returns the words memory holds, whatever
  lines are loaded and evicted on the way and whether the cache is enabled, locked or neither, and the
  agreement still holds at the end; a cache after \<^verbatim>\<open>Reset\<close> agrees. After a change of memory inside the lines of one set, \<^verbatim>\<open>Invalidate\<close> of
  an address of that set restores the agreement if the cache is enabled (so \<^verbatim>\<open>icbi\<close> makes new code visible); while it is disabled, \<^verbatim>\<open>Invalidate\<close> does nothing, and
  lines that were valid stay as they were. The way used last is never the next
  victim.
\<close>

theorem icache_transparent:
  assumes "ic_ok s" "\<forall>a \<in> set as. fetchable a s"
  shows "fst (lookups fetch as s) = map (\<lambda>a. Memory_Read_U32 a s) as \<and> ic_ok (snd (lookups fetch as s)) \<and>
    ic_ok (s\<lparr>iCache := Reset_ic (iCache s)\<rparr>) \<and>
    (HID0_ICE s \<and> (\<forall>q. line_set q \<noteq> line_set b \<longrightarrow> mem q = physical_base s q) \<longrightarrow> ic_ok (Invalidate b (s\<lparr>physical_base := mem\<rparr>))) \<and>
    (\<not> HID0_ICE s \<longrightarrow> Invalidate b (s\<lparr>physical_base := mem\<rparr>) = s\<lparr>physical_base := mem\<rparr>) \<and>
    (\<forall>m. \<forall>t < 8. way_from_plru (update_plru m t) \<noteq> t)"
proof -
  have "ic_ok (s\<lparr>iCache := Reset_ic (iCache s)\<rparr>)" using reset_ok by (simp add: ic_ok_def) (simp add: Reset_ic_def)
  moreover have "\<not> HID0_ICE s \<longrightarrow> Invalidate b (s\<lparr>physical_base := mem\<rparr>) = s\<lparr>physical_base := mem\<rparr>"
    by (simp add: Invalidate_def)
  ultimately show ?thesis
    using icache.lookups_spec [OF assms(1)] assms(2) invalidate_ok [OF assms(1)] plru_victim by blast
qed

text \<open>An enabled, empty cache over a memory with one word at 0.\<close>

definition fetch_machine :: IC_State where
  "fetch_machine = MMU_State.extend (page_mmu\<lparr>spr := (\<lambda>_. 0)(SPR_HID0 := 0x8000)\<rparr>) (IC_State.fields
    \<lparr>ic_data = \<lambda>_ _ _. 0, ic_tags = \<lambda>_ _. 0, ic_plru = \<lambda>_. 0, ic_valid = \<lambda>_. 0, lookup_table = \<lambda>_. 0xff,
      lookup_table_ex = \<lambda>_. 0xff, lookup_table_vmem = \<lambda>_. 0xff\<rparr>)"

lemma fetch_machine_fields [simp]:
  "physical_base fetch_machine = (\<lambda>_. 0)(0 := 0x80, 6 := 0x50)" "spr fetch_machine = (\<lambda>_. 0)(SPR_HID0 := 0x8000)"
  "iCache fetch_machine = \<lparr>ic_data = \<lambda>_ _ _. 0, ic_tags = \<lambda>_ _. 0, ic_plru = \<lambda>_. 0, ic_valid = \<lambda>_. 0, lookup_table = \<lambda>_. 0xff,
      lookup_table_ex = \<lambda>_. 0xff, lookup_table_vmem = \<lambda>_. 0xff\<rparr>"
  "m_pEXRAM fetch_machine = False"
  by (simp_all add: fetch_machine_def MMU_State.defs IC_State.defs page_mmu_def CPU_State.defs blank_cpu_def ST_State.defs blank_st_def)

theorem icache_transparent_witness:
  "fst (lookups fetch [0, 4, 0x1000, 0, 0x80000004] fetch_machine) = map Some [0x80000000, 0x5000, 0, 0x80000000, 0x5000] \<and>
   ic_ok (Invalidate 4 (fetch_machine\<lparr>physical_base := (\<lambda>_. 0)(0 := 0x80, 6 := 0x60)\<rparr>))"
proof -
  have ok: "ic_ok fetch_machine" by (simp add: ic_ok_def ic_index_ok_def tab_def split: line_class.splits)
  have f: "\<forall>a \<in> set [0, 4, 0x1000, 0, 0x80000004]. fetchable a fetch_machine" by (simp add: fetchable_def mem_pointer_def)
  have r: "map (\<lambda>a. Memory_Read_U32 a fetch_machine) [0, 4, 0x1000, 0, 0x80000004] = map Some [0x80000000, 0x5000, 0, 0x80000000, 0x5000]"
    by code_simp
  have ice: "HID0_ICE fetch_machine" by simp
  have mem: "\<forall>q. line_set q \<noteq> line_set 4 \<longrightarrow> ((\<lambda>_. 0)(0 := 0x80, 6 := 0x60)) q = physical_base fetch_machine q"
    by (auto simp: line_set_def)
  show ?thesis using icache_transparent [OF ok f, of 4 "(\<lambda>_. 0)(0 := 0x80, 6 := 0x60)"] ice mem by (simp only: r)
qed

end
