(* ===== verification/PPC_Float.thy ===== *)
theory PPC_Float
  imports PPC_Registers
begin

text \<open>
  Single and double precision as bit patterns: the conversions of \<^verbatim>\<open>Interpreter_FPUtils.h\<close> that floating-point loads and
  stores use. The floating-point arithmetic itself is the host's and is not modelled.
\<close>

section \<open>Conversions\<close>

abbreviation (input) DOUBLE_SIGN :: u64 where "DOUBLE_SIGN \<equiv> 0x8000000000000000"
abbreviation (input) DOUBLE_FRAC :: u64 where "DOUBLE_FRAC \<equiv> 0x000FFFFFFFFFFFFF"

definition ConvertToSingle :: "u64 \<Rightarrow> u32" where
  "ConvertToSingle x =
    (let exp = unat (drop_bit 52 x AND 0x7ff)
     in if exp > 896 \<or> x AND NOT DOUBLE_SIGN = 0
        then ucast ((drop_bit 32 x AND 0xc0000000) OR (drop_bit 29 x AND 0x3fffffff))
        else if exp \<ge> 874
        then (let t = ucast (0x80000000 OR drop_bit 21 (x AND DOUBLE_FRAC)) :: u32;
                  t1 = drop_bit (905 - exp) t
              in t1 OR ucast (drop_bit 32 x AND 0x80000000))
        else ucast ((drop_bit 32 x AND 0xc0000000) OR (drop_bit 29 x AND 0x3fffffff)))"

definition ConvertToSingleFTZ :: "u64 \<Rightarrow> u32" where
  "ConvertToSingleFTZ x =
    (let exp = unat (drop_bit 52 x AND 0x7ff)
     in if exp > 896 \<or> x AND NOT DOUBLE_SIGN = 0
        then ucast ((drop_bit 32 x AND 0xc0000000) OR (drop_bit 29 x AND 0x3fffffff))
        else ucast (drop_bit 32 x AND 0x80000000))"

text \<open>The loop that normalises a subnormal fraction; on 0 it would not end.\<close>

partial_function (option) normalise :: "u64 \<Rightarrow> u64 \<Rightarrow> (u64 \<times> u64) option" where
  "normalise frac exp =
    (let frac = push_bit 1 frac; exp = exp - 1
     in if frac AND 0x00800000 = 0 then normalise frac exp else Some (frac, exp))"

declare normalise.simps [code]

definition wide_pattern :: "u64 \<Rightarrow> u64 \<Rightarrow> u64" where
  "wide_pattern y x = (let z = push_bit 61 y OR push_bit 60 y OR push_bit 59 y
     in push_bit 32 (x AND 0xc0000000) OR z OR push_bit 29 (x AND 0x3fffffff))"

definition ConvertToDouble :: "u32 \<Rightarrow> u64 option" where
  "ConvertToDouble value =
    (let x = ucast value :: u64;
         exp = drop_bit 23 x AND 0xff;
         frac = x AND 0x007fffff
     in if 0 < exp \<and> exp < 255 then Some (wide_pattern (of_bool (drop_bit 7 exp = 0)) x)
        else if exp = 0 \<and> frac \<noteq> 0
        then map_option (\<lambda>(frac, exp). push_bit 32 (x AND 0x80000000) OR push_bit 52 exp OR push_bit 29 (frac AND 0x007fffff))
               (normalise frac (1023 - 126))
        else Some (wide_pattern (drop_bit 7 exp) x))"

section \<open>Every single survives the trip\<close>

lemma float_masks:
  "(0x7ff :: u64) = mask 11" "(0x3fffffff :: u64) = mask 30" "(0xff :: u64) = mask 8" "(0x7fffff :: u64) = mask 23"
  "(0x000FFFFFFFFFFFFF :: u64) = mask 52" "(0xc0000000 :: u64) = push_bit 30 (mask 2)" "(0x80000000 :: u64) = push_bit 31 1"
  "(0x800000 :: u64) = push_bit 23 1" "(0x8000000000000000 :: u64) = push_bit 63 1"
  by (simp_all add: mask_eq_exp_minus_1)

lemmas float_bits = bit_or_iff bit_and_iff bit_push_bit_iff bit_drop_bit_eq comp_def bit_mask_iff bit_unsigned_iff bit_1_iff bit_take_bit_iff

lemma narrow_wide:
  assumes "y = 0 \<or> y = 1"
  shows "ucast ((drop_bit 32 (wide_pattern y (ucast v)) AND 0xc0000000) OR (drop_bit 29 (wide_pattern y (ucast v)) AND 0x3fffffff)) = (v :: u32)"
proof (rule bit_word_eqI)
  fix n assume n: "n < LENGTH(32)"
  have y: "bit y k \<longleftrightarrow> y = 1 \<and> k = 0" for k using assms by (auto simp: bit_1_iff)
  show "bit (ucast ((drop_bit 32 (wide_pattern y (ucast v)) AND 0xc0000000) OR (drop_bit 29 (wide_pattern y (ucast v)) AND 0x3fffffff)) :: u32) n = bit v n"
    unfolding wide_pattern_def Let_def float_masks float_bits y using n
    by (cases "n < 30") (auto simp: le_diff_conv2 dest: bit_imp_le_length)
qed

lemma bit_le_unat: "bit (w :: 'a::len word) n \<Longrightarrow> 2 ^ n \<le> unat w"
  using small_bits [of w n n] by fastforce

lemma wide_exp:
  assumes "y = 0 \<or> y = 1"
  shows "drop_bit 52 (wide_pattern y (ucast (v :: u32))) AND 0x7ff =
    push_bit 10 (of_bool (bit v 30)) OR push_bit 9 y OR push_bit 8 y OR push_bit 7 y OR take_bit 7 (drop_bit 23 (ucast v))"
proof (rule bit_word_eqI)
  fix n assume n: "n < LENGTH(64)"
  have y: "bit y k \<longleftrightarrow> y = 1 \<and> k = 0" for k using assms by (auto simp: bit_1_iff)
  have o: "bit (of_bool b :: u64) k \<longleftrightarrow> b \<and> k = 0" for b k by (simp add: bit_1_iff)
  consider "n < 7" | "n = 7" | "n = 8" | "n = 9" | "n = 10" | "11 \<le> n" by linarith
  then show "bit (drop_bit 52 (wide_pattern y (ucast v)) AND 0x7ff) n = bit (push_bit 10 (of_bool (bit v 30)) OR push_bit 9 y OR push_bit 8 y OR
      push_bit 7 y OR take_bit 7 (drop_bit 23 (ucast v)) :: u64) n"
    unfolding wide_pattern_def Let_def float_masks float_bits y o
    by cases (auto simp: add.commute dest: bit_imp_le_length)
qed

lemma wide_exp_large:
  assumes "y = 0 \<or> y = 1" "bit v 30 \<or> y = 1 \<and> take_bit 7 (drop_bit 23 (ucast v :: u64)) \<noteq> 0"
  shows "896 < unat (drop_bit 52 (wide_pattern y (ucast (v :: u32))) AND 0x7ff)"
proof -
  let ?E = "drop_bit 52 (wide_pattern y (ucast v)) AND 0x7ff"
  let ?f = "take_bit 7 (drop_bit 23 (ucast v)) :: u64"
  show ?thesis
  proof (cases "bit v 30")
    case True
    have "bit ?E 10" unfolding wide_exp [OF assms(1)] using True by (simp add: bit_or_iff)
    then show ?thesis using bit_le_unat [of ?E 10] by simp
  next
    case False
    then have y: "y = 1" and f: "?f \<noteq> 0" using assms(2) by auto
    have m: "0x380 AND ?f = 0"
    proof (rule bit_word_eqI)
      fix n
      have b: "(0x380 :: u64) = push_bit 7 7" by simp
      show "bit (0x380 AND ?f) n = bit (0 :: u64) n" unfolding b bit_and_iff bit_push_bit_iff bit_take_bit_iff by auto
    qed
    have "?E = 0x380 OR ?f" unfolding wide_exp [OF assms(1)] using False y by (simp add: or.assoc [symmetric])
    then have "?E = 0x380 + ?f" using disjunctive_add_eq_or [OF m] by simp
    moreover have "unat ?f < 128" by (simp add: take_bit_eq_mask unat_and_mask)
    moreover have "0 < unat ?f" using f by (simp add: unat_gt_0)
    ultimately show ?thesis by (simp add: unat_word_ariths)
  qed
qed

lemma wide_roundtrip:
  assumes "y = 0 \<or> y = 1" "bit v 30 \<or> y = 1 \<and> take_bit 7 (drop_bit 23 (ucast v :: u64)) \<noteq> 0 \<or> y = 0 \<and> take_bit 31 v = 0"
  shows "ConvertToSingle (wide_pattern y (ucast v)) = v"
proof (cases "bit v 30 \<or> y = 1 \<and> take_bit 7 (drop_bit 23 (ucast v :: u64)) \<noteq> 0")
  case True
  then show ?thesis using wide_exp_large [OF assms(1) True] narrow_wide [OF assms(1), of v] by (simp only: ConvertToSingle_def Let_def) simp
next
  case False
  then have y: "y = 0" and z: "take_bit 31 v = 0" using assms(2) by auto
  have zb: "\<not> bit v n" if "n < 31" for n using z that by (metis bit_take_bit_iff bit_0_eq bot_apply bot_bool_def)
  have "wide_pattern y (ucast v) AND NOT 0x8000000000000000 = 0"
  proof (rule bit_word_eqI)
    fix n assume "n < LENGTH(64)"
    moreover have "n < 63 \<Longrightarrow> \<not> bit v (n - 32)" using zb [of "n - 32"] by simp
    ultimately show "bit (wide_pattern y (ucast v) AND NOT 0x8000000000000000) n = bit (0 :: u64) n"
      unfolding wide_pattern_def Let_def float_masks float_bits bit_not_iff y using zb [of "n - 29"] by auto
  qed
  then show ?thesis using narrow_wide [OF assms(1), of v] by (simp only: ConvertToSingle_def Let_def) simp
qed

text \<open>A fraction whose highest bit is \<open>23 - k\<close> is shifted \<open>k\<close> times.\<close>

lemma normalise_shift:
  assumes "bit frac (23 - k)" "unat frac < 2 ^ (24 - k)" "0 < k" "k \<le> 23"
  shows "normalise frac e = Some (push_bit k frac, e - of_nat k)"
  using assms
proof (induction k arbitrary: frac e)
  case (Suc k)
  have top: "push_bit 1 frac AND 0x800000 = 0 \<longleftrightarrow> 0 < k"
  proof -
    have "push_bit 1 frac AND 0x800000 = 0 \<longleftrightarrow> \<not> bit (push_bit 1 frac) 23" unfolding float_masks by (metis and_exp_eq_0_iff_not_bit push_bit_eq_mult mult_1)
    also have "\<dots> \<longleftrightarrow> \<not> bit frac 22" unfolding bit_push_bit_iff by simp
    also have "\<dots> \<longleftrightarrow> 0 < k" using Suc.prems small_bits [of frac 22 "24 - Suc k"] by (cases k) auto
    finally show ?thesis .
  qed
  show ?case
  proof (cases "k = 0")
    case True
    then show ?thesis using top by (subst normalise.simps) (simp add: Let_def)
  next
    case False
    have f: "bit (push_bit 1 frac) (23 - k)" unfolding bit_push_bit_iff using Suc.prems False by auto
    have u: "unat (push_bit 1 frac) < 2 ^ (24 - k)"
    proof -
      have "24 - k = Suc (24 - Suc k)" using Suc.prems by simp
      then have "2 * unat frac < 2 ^ (24 - k)" using Suc.prems(2) by simp
      moreover have "2 ^ (24 - k) \<le> (2 :: nat) ^ 24" by (rule power_increasing) auto
      ultimately show ?thesis by (simp add: unat_word_ariths push_bit_eq_mult)
    qed
    have "normalise (push_bit 1 frac) (e - 1) = Some (push_bit k (push_bit 1 frac), e - 1 - of_nat k)"
      using Suc.IH [OF f u] Suc.prems False by simp
    then show ?thesis using top False by (subst normalise.simps) (simp add: Let_def push_bit_push_bit diff_diff_add)
  qed
qed simp

lemma top_bit:
  assumes "(w :: 'a::len word) \<noteq> 0"
  obtains m where "bit w m" "unat w < 2 ^ Suc m"
proof -
  have fin: "finite {n. bit w n}" using finite_subset [of "{n. bit w n}" "{..<LENGTH('a)}"] by (auto dest: bit_imp_le_length)
  moreover have "{n. bit w n} \<noteq> {}" using assms by (auto simp: bit_eq_iff)
  ultimately have "Max {n. bit w n} \<in> {n. bit w n}" by (rule Max_in)
  moreover have "w AND mask (Suc (Max {n. bit w n})) = w"
    by (rule bit_word_eqI) (use fin in \<open>auto simp: bit_and_iff bit_mask_iff less_Suc_eq_le\<close>)
  then have "unat w < 2 ^ Suc (Max {n. bit w n})" using unat_and_mask [of w "Suc (Max {n. bit w n})"] by (metis mod_less_divisor zero_less_numeral zero_less_power)
  ultimately show ?thesis using that by blast
qed

lemma subnormal_roundtrip:
  fixes v :: u32
  defines "frac \<equiv> (ucast v :: u64) AND 0x7fffff"
  assumes "frac \<noteq> 0" "drop_bit 23 (ucast v :: u64) AND 0xff = 0"
  shows "\<exists>d. ConvertToDouble v = Some d \<and> ConvertToSingle d = v"
proof -
  obtain m where m: "bit frac m" "unat frac < 2 ^ Suc m" using top_bit [OF assms(2)] .
  have "unat frac < 2 ^ 23" unfolding frac_def float_masks unat_and_mask by simp
  then have m23: "m < 23" using small_bits [OF m(1)] by simp
  define k where "k = 23 - m"
  have k: "0 < k" "k \<le> 23" "23 - k = m" "24 - k = Suc m" using m23 by (auto simp: k_def)
  have nz: "normalise frac 897 = Some (push_bit k frac, 897 - of_nat k)" using normalise_shift [of frac k 897] m k by simp
  define d where "d = push_bit 32 ((ucast v :: u64) AND 0x80000000) OR push_bit 52 (897 - of_nat k) OR push_bit 29 (push_bit k frac AND 0x7fffff)"
  have cd: "ConvertToDouble v = Some d" using nz assms(2,3) by (simp add: ConvertToDouble_def Let_def d_def frac_def)
  define E where "E = (897 - of_nat k :: u64)"
  have Eu: "unat E = 897 - k"
  proof -
    have "unat (of_nat j :: u64) = j" if "j < 1024" for j using that by (simp add: unat_of_nat)
    from this [of "897 - k"] have "unat (of_nat (897 - k) :: u64) = 897 - k" by linarith
    moreover have "E = of_nat (897 - k)" using k(2) by (simp add: E_def of_nat_diff)
    ultimately show ?thesis by (simp only:)
  qed
  have Eb: "bit E n \<Longrightarrow> n < 10" for n using small_bits [of E n 10] Eu by simp
  have fb: "bit frac n \<longleftrightarrow> n < 23 \<and> bit v n" for n unfolding frac_def float_masks float_bits by (auto dest: bit_imp_le_length)
  have fm: "bit frac n \<Longrightarrow> n \<le> m" for n using small_bits [OF _ m(2), of n] by simp
  have dn: "bit d n \<longleftrightarrow> n = 63 \<and> bit v 31 \<or> 52 \<le> n \<and> n < 62 \<and> bit E (n - 52) \<or> 29 + k \<le> n \<and> n < 52 \<and> bit frac (n - 29 - k)" for n
  proof -
    have "bit (push_bit 32 ((ucast v :: u64) AND 0x80000000)) n \<longleftrightarrow> n = 63 \<and> bit v 31"
      unfolding float_masks float_bits by (cases "n = 63") auto
    moreover have "bit (push_bit 52 E) n \<longleftrightarrow> 52 \<le> n \<and> n < 62 \<and> bit E (n - 52)"
      unfolding bit_push_bit_iff using Eb [of "n - 52"] by (cases "52 \<le> n") auto
    moreover have "bit (push_bit 29 (push_bit k frac AND 0x7fffff)) n \<longleftrightarrow> 29 + k \<le> n \<and> n < 52 \<and> bit frac (n - 29 - k)"
      unfolding float_masks bit_push_bit_iff bit_and_iff bit_mask_iff by (cases "29 + k \<le> n") auto
    ultimately show ?thesis unfolding d_def E_def [symmetric] bit_or_iff by (simp only: disj_assoc)
  qed
  have e: "drop_bit 52 d AND 0x7ff = E"
    unfolding float_masks by (rule bit_word_eqI) (use Eb in \<open>fastforce simp: bit_and_iff bit_mask_iff bit_drop_bit_eq dn\<close>)
  have nz2: "\<not> (896 < unat E \<or> d AND NOT 0x8000000000000000 = 0)" "874 \<le> unat E" "905 - unat E = 8 + k"
  proof -
    have "E \<noteq> 0" using Eu k(2) by auto
    then obtain n where n: "bit E n" by (metis bit_eq_iff bit_0_eq bot_apply bot_bool_def)
    then have "bit (d AND NOT 0x8000000000000000) (52 + n)"
      unfolding float_masks float_bits bit_not_iff dn using Eb [OF n] by auto
    then have "d AND NOT 0x8000000000000000 \<noteq> 0" by auto
    then show "\<not> (896 < unat E \<or> d AND NOT 0x8000000000000000 = 0)" "874 \<le> unat E" "905 - unat E = 8 + k" using Eu k(1,2) by auto
  qed
  let ?t = "ucast (0x80000000 OR drop_bit 21 (d AND 0x000FFFFFFFFFFFFF)) :: u32"
  have tb: "bit ?t n \<longleftrightarrow> n < 32 \<and> 8 + k \<le> n \<and> bit frac (n - 8 - k)" for n
  proof -
    have top: "n = 31 \<and> 8 + k \<le> n \<Longrightarrow> bit frac (n - 8 - k)" using m(1) k by (auto simp: k_def)
    have "bit frac (n - 8 - k) \<Longrightarrow> n - 8 - k \<le> m" by (rule fm)
    then show ?thesis unfolding float_masks float_bits dn using top k
      by (cases "n < 31"; cases "n = 31") (auto simp: add.commute)
  qed
  have "bit (drop_bit (8 + k) ?t OR ucast (drop_bit 32 d AND 0x80000000)) n = bit v n" if "n < 32" for n
  proof -
    have hi: "\<not> bit v n" if "23 \<le> n" "n < 31" for n
    proof -
      have "\<not> bit (drop_bit 23 (ucast v :: u64) AND mask 8) (n - 23)" using assms(3) unfolding float_masks by simp
      then show ?thesis using that unfolding float_bits by auto
    qed
    have "bit frac n \<Longrightarrow> 8 + k + n < 32" using fm [of n] k m23 by (auto simp: k_def)
    moreover have "bit (drop_bit (8 + k) ?t) n \<longleftrightarrow> 8 + k + n < 32 \<and> bit frac n"
      unfolding bit_drop_bit_eq comp_def tb by auto
    moreover have "bit (ucast (drop_bit 32 d AND 0x80000000) :: u32) n \<longleftrightarrow> n = 31 \<and> bit v 31"
      unfolding float_masks float_bits dn using that by auto
    ultimately show ?thesis unfolding bit_or_iff using that fb [of n] hi [of n] by (cases "n < 23"; cases "n = 31") auto
  qed
  then have "ConvertToSingle d = v" unfolding ConvertToSingle_def e Let_def if_not_P [OF nz2(1)] if_P [OF nz2(2)] nz2(3)
    by (intro bit_word_eqI) simp
  then show ?thesis using cd by blast
qed

lemma single_back: "\<exists>d. ConvertToDouble v = Some d \<and> ConvertToSingle d = v"
proof -
  let ?x = "ucast v :: u64"
  let ?e = "drop_bit 23 ?x AND 0xff" and ?f = "?x AND 0x7fffff"
  have eb: "bit ?e n \<longleftrightarrow> n < 8 \<and> bit v (23 + n)" for n unfolding float_masks float_bits by auto
  have low: "take_bit 7 (drop_bit 23 ?x) \<noteq> 0" if e0: "?e \<noteq> 0" and v30: "\<not> bit v 30"
  proof -
    obtain n where "bit ?e n" by (rule top_bit [OF e0])
    then have b: "n < 8" "bit v (23 + n)" by (simp_all only: eb)
    have "n \<noteq> 7" using b(2) v30 by auto
    then have "n < 7" using b(1) by simp
    then have "bit (take_bit 7 (drop_bit 23 ?x)) n" using b(2) unfolding float_bits by simp
    then show ?thesis by auto
  qed
  have top: "drop_bit 7 ?e = of_bool (bit v 30)"
  proof (rule bit_word_eqI)
    fix n
    have o: "bit (of_bool b :: u64) n \<longleftrightarrow> b \<and> n = 0" for b by (simp add: bit_1_iff)
    show "bit (drop_bit 7 ?e) n = bit (of_bool (bit v 30) :: u64) n"
      unfolding o bit_drop_bit_eq comp_def eb by auto
  qed
  show ?thesis
  proof (cases "?e = 0 \<and> ?f \<noteq> 0")
    case True
    then show ?thesis using subnormal_roundtrip [of v] by simp
  next
    case False
    show ?thesis
    proof (cases "0 < ?e \<and> ?e < 255")
      case True
      then have "?e \<noteq> 0" by auto
      then have "ConvertToSingle (wide_pattern (of_bool (\<not> bit v 30)) ?x) = v" by (intro wide_roundtrip) (use low in auto)
      moreover have "(drop_bit 7 ?e = 0) = (\<not> bit v 30)" unfolding top by simp
      ultimately show ?thesis using True unfolding ConvertToDouble_def Let_def by (simp only: if_True simp_thms) blast
    next
      case nf: False
      have "bit v 30 \<or> take_bit 31 v = 0"
      proof (cases "?e = 0")
        case True
        then have f: "?f = 0" using False by simp
        have "\<not> bit v n" if "n < 31" for n
        proof (cases "n < 23")
          case lt: True
          have "\<not> bit (?x AND mask 23) n" using f unfolding float_masks by simp
          then show ?thesis using lt unfolding float_bits by simp
        next
          case ge: False
          then show ?thesis using eb [of "n - 23"] True that by simp
        qed
        then show ?thesis by (auto intro!: bit_word_eqI simp: bit_take_bit_iff)
      next
        case False
        have "?e \<le> 255" by (rule word_and_le1)
        then have "?e = 255" using False nf by (auto simp: word_neq_0_conv not_less)
        then show ?thesis using eb [of 7] by simp
      qed
      then have "ConvertToSingle (wide_pattern (drop_bit 7 ?e) ?x) = v"
        unfolding top by (intro wide_roundtrip) auto
      then show ?thesis unfolding ConvertToDouble_def Let_def if_not_P [OF nf] if_not_P [OF False] by blast
    qed
  qed
qed

text \<open>
  C28. Single precision survives. Every bit pattern of a single, normal, subnormal, zero, infinite or not a number, is
  widened by \<^verbatim>\<open>ConvertToDouble\<close> (whose normalising loop ends) to a double that \<^verbatim>\<open>ConvertToSingle\<close> narrows back to the same pattern.
\<close>

theorem single_roundtrip: "\<exists>d. ConvertToDouble v = Some d \<and> ConvertToSingle d = v"
  by (rule single_back)

end
