(* ===== verification/PPC_LoadStore.thy ===== *)
theory PPC_LoadStore
  imports PPC_ICache PPC_Float PPC_Integer Common_Swap
begin

text \<open>
  The load and store instructions of \<^verbatim>\<open>Interpreter_LoadStore.cpp\<close>, one definition per handler. A load returns an option
  because the read may not end; a handler tests for a pending DSI after its access and then leaves the registers as they
  are. The cache hints only clear blocks of the recompiler, which is not part of the model.
\<close>

section \<open>State\<close>

record LS_State = IC_State +
  ps0 :: "nat \<Rightarrow> u64"
  ps1 :: "nat \<Rightarrow> u64"
  m_reserve :: bool
  m_reserve_address :: u32
  bLowDCBZHack :: bool

abbreviation (input) FD :: "u32 \<Rightarrow> nat" where "FD \<equiv> inst_field 21 5"
abbreviation (input) FS :: "u32 \<Rightarrow> nat" where "FS \<equiv> inst_field 21 5"
abbreviation (input) NB :: "u32 \<Rightarrow> nat" where "NB \<equiv> inst_field 11 5"
abbreviation (input) SPR_EAR :: nat where "SPR_EAR \<equiv> 282"
abbreviation (input) SPR_HID2 :: nat where "SPR_HID2 \<equiv> 920"
abbreviation MSR_LE :: "'a PowerPCState_scheme \<Rightarrow> bool" where "MSR_LE s \<equiv> bit (ppc_msr s) 0"
abbreviation HID0_DCE :: "'a CPU_State_scheme \<Rightarrow> bool" where "HID0_DCE s \<equiv> bit (spr s SPR_HID0) 14"
abbreviation HID2_LCE :: "'a CPU_State_scheme \<Rightarrow> bool" where "HID2_LCE s \<equiv> bit (spr s SPR_HID2) 28"

text \<open>\<^verbatim>\<open>Exceptions & EXCEPTION_DSI\<close>.\<close>

definition dsi_pending :: "'a PowerPCState_scheme \<Rightarrow> bool" where
  "dsi_pending s \<longleftrightarrow> ppc_Exceptions s AND EXCEPTION_DSI \<noteq> 0"

definition GenerateAlignmentException :: "u32 \<Rightarrow> 'a CPU_State_scheme \<Rightarrow> 'a CPU_State_scheme" where
  "GenerateAlignmentException address s =
    set_spr SPR_DAR address (s\<lparr>ppc_Exceptions := ppc_Exceptions s OR EXCEPTION_ALIGNMENT\<rparr>)"

text \<open>The function of \<^verbatim>\<open>ExceptionUtils.h\<close>, not the one of the MMU.\<close>

definition GenerateDSIException_util :: "u32 \<Rightarrow> 'a CPU_State_scheme \<Rightarrow> 'a CPU_State_scheme" where
  "GenerateDSIException_util address s =
    set_spr SPR_DAR address (s\<lparr>ppc_Exceptions := ppc_Exceptions s OR EXCEPTION_DSI\<rparr>)"

section \<open>Addresses\<close>

definition Helper_Get_EA :: "u32 \<Rightarrow> 'a CPU_State_scheme \<Rightarrow> u32" where
  "Helper_Get_EA inst s = (if RA inst \<noteq> 0 then gpr s (RA inst) + SIMM_16 inst else SIMM_16 inst)"

definition Helper_Get_EA_U :: "u32 \<Rightarrow> 'a CPU_State_scheme \<Rightarrow> u32" where
  "Helper_Get_EA_U inst s = gpr s (RA inst) + SIMM_16 inst"

definition Helper_Get_EA_X :: "u32 \<Rightarrow> 'a CPU_State_scheme \<Rightarrow> u32" where
  "Helper_Get_EA_X inst s = (if RA inst \<noteq> 0 then gpr s (RA inst) + gpr s (RB inst) else gpr s (RB inst))"

definition Helper_Get_EA_UX :: "u32 \<Rightarrow> 'a CPU_State_scheme \<Rightarrow> u32" where
  "Helper_Get_EA_UX inst s = gpr s (RA inst) + gpr s (RB inst)"

section \<open>The shapes of the handlers\<close>

text \<open>A load into a register, with the conversion of the value read; with update, the address goes to rA afterwards.\<close>

definition load_gpr ::
  "'a LS_State_scheme Bus \<Rightarrow> nat \<Rightarrow> (u64 \<Rightarrow> u32) \<Rightarrow> u32 \<Rightarrow> u32 \<Rightarrow> 'a LS_State_scheme \<Rightarrow> 'a LS_State_scheme option" where
  "load_gpr bus n conv address inst s =
    map_option (\<lambda>(v, s1). if dsi_pending s1 then s1 else set_gpr (RD inst) (conv v) s1) (Read_U bus n address s)"

definition load_gpr_update ::
  "'a LS_State_scheme Bus \<Rightarrow> nat \<Rightarrow> (u64 \<Rightarrow> u32) \<Rightarrow> u32 \<Rightarrow> u32 \<Rightarrow> 'a LS_State_scheme \<Rightarrow> 'a LS_State_scheme option" where
  "load_gpr_update bus n conv address inst s =
    map_option (\<lambda>(v, s1). if dsi_pending s1 then s1 else set_gpr (RA inst) address (set_gpr (RD inst) (conv v) s1)) (Read_U bus n address s)"

definition store_gpr ::
  "'a LS_State_scheme Bus \<Rightarrow> nat \<Rightarrow> (u32 \<Rightarrow> u64) \<Rightarrow> u32 \<Rightarrow> u32 \<Rightarrow> 'a LS_State_scheme \<Rightarrow> 'a LS_State_scheme" where
  "store_gpr bus n conv address inst s = Write_U bus n (conv (gpr s (RS inst))) address s"

definition store_gpr_update ::
  "'a LS_State_scheme Bus \<Rightarrow> nat \<Rightarrow> (u32 \<Rightarrow> u64) \<Rightarrow> u32 \<Rightarrow> u32 \<Rightarrow> 'a LS_State_scheme \<Rightarrow> 'a LS_State_scheme" where
  "store_gpr_update bus n conv address inst s =
    (let s1 = store_gpr bus n conv address inst s in if dsi_pending s1 then s1 else set_gpr (RA inst) address s1)"

definition set_ps :: "nat \<Rightarrow> u64 \<Rightarrow> u64 \<Rightarrow> 'a LS_State_scheme \<Rightarrow> 'a LS_State_scheme" where
  "set_ps i v w s = s\<lparr>ps0 := (ps0 s)(i := v), ps1 := (ps1 s)(i := w)\<rparr>"

definition load_double ::
  "'a LS_State_scheme Bus \<Rightarrow> bool \<Rightarrow> u32 \<Rightarrow> u32 \<Rightarrow> 'a LS_State_scheme \<Rightarrow> 'a LS_State_scheme option" where
  "load_double bus update address inst s =
    (if address AND 3 \<noteq> 0 then Some (GenerateAlignmentException address s)
     else map_option (\<lambda>(v, s1).
            if dsi_pending s1 then s1
            else let s2 = set_ps (FD inst) v (ps1 s1 (FD inst)) s1 in if update then set_gpr (RA inst) address s2 else s2)
          (Read_U bus 8 address s))"

definition load_single ::
  "'a LS_State_scheme Bus \<Rightarrow> bool \<Rightarrow> u32 \<Rightarrow> u32 \<Rightarrow> 'a LS_State_scheme \<Rightarrow> 'a LS_State_scheme option" where
  "load_single bus update address inst s =
    (if address AND 3 \<noteq> 0 then Some (GenerateAlignmentException address s)
     else (case Read_U bus 4 address s of
             None \<Rightarrow> None
           | Some (v, s1) \<Rightarrow>
               if dsi_pending s1 then Some s1
               else map_option (\<lambda>d. let s2 = set_ps (FD inst) d d s1 in if update then set_gpr (RA inst) address s2 else s2)
                      (ConvertToDouble (ucast v))))"

definition store_float ::
  "'a LS_State_scheme Bus \<Rightarrow> nat \<Rightarrow> u64 \<Rightarrow> bool \<Rightarrow> u32 \<Rightarrow> u32 \<Rightarrow> 'a LS_State_scheme \<Rightarrow> 'a LS_State_scheme" where
  "store_float bus n v update address inst s =
    (if address AND 3 \<noteq> 0 then GenerateAlignmentException address s
     else let s1 = Write_U bus n v address s
          in if update \<and> \<not> dsi_pending s1 then set_gpr (RA inst) address s1 else s1)"

section \<open>Loads\<close>

definition lbz :: "'a LS_State_scheme Bus \<Rightarrow> u32 \<Rightarrow> 'a LS_State_scheme \<Rightarrow> 'a LS_State_scheme option" where
  "lbz bus inst s = load_gpr bus 1 ucast (Helper_Get_EA inst s) inst s"

definition lbzu :: "'a LS_State_scheme Bus \<Rightarrow> u32 \<Rightarrow> 'a LS_State_scheme \<Rightarrow> 'a LS_State_scheme option" where
  "lbzu bus inst s = load_gpr_update bus 1 ucast (Helper_Get_EA_U inst s) inst s"

definition lbzx :: "'a LS_State_scheme Bus \<Rightarrow> u32 \<Rightarrow> 'a LS_State_scheme \<Rightarrow> 'a LS_State_scheme option" where
  "lbzx bus inst s = load_gpr bus 1 ucast (Helper_Get_EA_X inst s) inst s"

definition lbzux :: "'a LS_State_scheme Bus \<Rightarrow> u32 \<Rightarrow> 'a LS_State_scheme \<Rightarrow> 'a LS_State_scheme option" where
  "lbzux bus inst s = load_gpr_update bus 1 ucast (Helper_Get_EA_UX inst s) inst s"

definition lha :: "'a LS_State_scheme Bus \<Rightarrow> u32 \<Rightarrow> 'a LS_State_scheme \<Rightarrow> 'a LS_State_scheme option" where
  "lha bus inst s = load_gpr bus 2 (\<lambda>v. scast (ucast v :: u16)) (Helper_Get_EA inst s) inst s"

definition lhau :: "'a LS_State_scheme Bus \<Rightarrow> u32 \<Rightarrow> 'a LS_State_scheme \<Rightarrow> 'a LS_State_scheme option" where
  "lhau bus inst s = load_gpr_update bus 2 (\<lambda>v. scast (ucast v :: u16)) (Helper_Get_EA_U inst s) inst s"

definition lhax :: "'a LS_State_scheme Bus \<Rightarrow> u32 \<Rightarrow> 'a LS_State_scheme \<Rightarrow> 'a LS_State_scheme option" where
  "lhax bus inst s = load_gpr bus 2 (\<lambda>v. scast (ucast v :: u16)) (Helper_Get_EA_X inst s) inst s"

definition lhaux :: "'a LS_State_scheme Bus \<Rightarrow> u32 \<Rightarrow> 'a LS_State_scheme \<Rightarrow> 'a LS_State_scheme option" where
  "lhaux bus inst s = load_gpr_update bus 2 (\<lambda>v. scast (ucast v :: u16)) (Helper_Get_EA_UX inst s) inst s"

definition lhz :: "'a LS_State_scheme Bus \<Rightarrow> u32 \<Rightarrow> 'a LS_State_scheme \<Rightarrow> 'a LS_State_scheme option" where
  "lhz bus inst s = load_gpr bus 2 ucast (Helper_Get_EA inst s) inst s"

definition lhzu :: "'a LS_State_scheme Bus \<Rightarrow> u32 \<Rightarrow> 'a LS_State_scheme \<Rightarrow> 'a LS_State_scheme option" where
  "lhzu bus inst s = load_gpr_update bus 2 ucast (Helper_Get_EA_U inst s) inst s"

definition lhzx :: "'a LS_State_scheme Bus \<Rightarrow> u32 \<Rightarrow> 'a LS_State_scheme \<Rightarrow> 'a LS_State_scheme option" where
  "lhzx bus inst s = load_gpr bus 2 ucast (Helper_Get_EA_X inst s) inst s"

definition lhzux :: "'a LS_State_scheme Bus \<Rightarrow> u32 \<Rightarrow> 'a LS_State_scheme \<Rightarrow> 'a LS_State_scheme option" where
  "lhzux bus inst s = load_gpr_update bus 2 ucast (Helper_Get_EA_UX inst s) inst s"

definition lwz :: "'a LS_State_scheme Bus \<Rightarrow> u32 \<Rightarrow> 'a LS_State_scheme \<Rightarrow> 'a LS_State_scheme option" where
  "lwz bus inst s = load_gpr bus 4 ucast (Helper_Get_EA inst s) inst s"

definition lwzu :: "'a LS_State_scheme Bus \<Rightarrow> u32 \<Rightarrow> 'a LS_State_scheme \<Rightarrow> 'a LS_State_scheme option" where
  "lwzu bus inst s = load_gpr_update bus 4 ucast (Helper_Get_EA_U inst s) inst s"

definition lwzx :: "'a LS_State_scheme Bus \<Rightarrow> u32 \<Rightarrow> 'a LS_State_scheme \<Rightarrow> 'a LS_State_scheme option" where
  "lwzx bus inst s = load_gpr bus 4 ucast (Helper_Get_EA_X inst s) inst s"

definition lwzux :: "'a LS_State_scheme Bus \<Rightarrow> u32 \<Rightarrow> 'a LS_State_scheme \<Rightarrow> 'a LS_State_scheme option" where
  "lwzux bus inst s = load_gpr_update bus 4 ucast (Helper_Get_EA_UX inst s) inst s"

definition lhbrx :: "'a LS_State_scheme Bus \<Rightarrow> u32 \<Rightarrow> 'a LS_State_scheme \<Rightarrow> 'a LS_State_scheme option" where
  "lhbrx bus inst s = load_gpr bus 2 (\<lambda>v. ucast (swap16 (ucast v))) (Helper_Get_EA_X inst s) inst s"

definition lwbrx :: "'a LS_State_scheme Bus \<Rightarrow> u32 \<Rightarrow> 'a LS_State_scheme \<Rightarrow> 'a LS_State_scheme option" where
  "lwbrx bus inst s = load_gpr bus 4 (\<lambda>v. swap32 (ucast v)) (Helper_Get_EA_X inst s) inst s"

definition lfd :: "'a LS_State_scheme Bus \<Rightarrow> u32 \<Rightarrow> 'a LS_State_scheme \<Rightarrow> 'a LS_State_scheme option" where
  "lfd bus inst s = load_double bus False (Helper_Get_EA inst s) inst s"

definition lfdu :: "'a LS_State_scheme Bus \<Rightarrow> u32 \<Rightarrow> 'a LS_State_scheme \<Rightarrow> 'a LS_State_scheme option" where
  "lfdu bus inst s = load_double bus True (Helper_Get_EA_U inst s) inst s"

definition lfdx :: "'a LS_State_scheme Bus \<Rightarrow> u32 \<Rightarrow> 'a LS_State_scheme \<Rightarrow> 'a LS_State_scheme option" where
  "lfdx bus inst s = load_double bus False (Helper_Get_EA_X inst s) inst s"

definition lfdux :: "'a LS_State_scheme Bus \<Rightarrow> u32 \<Rightarrow> 'a LS_State_scheme \<Rightarrow> 'a LS_State_scheme option" where
  "lfdux bus inst s = load_double bus True (Helper_Get_EA_UX inst s) inst s"

definition lfs :: "'a LS_State_scheme Bus \<Rightarrow> u32 \<Rightarrow> 'a LS_State_scheme \<Rightarrow> 'a LS_State_scheme option" where
  "lfs bus inst s = load_single bus False (Helper_Get_EA inst s) inst s"

definition lfsu :: "'a LS_State_scheme Bus \<Rightarrow> u32 \<Rightarrow> 'a LS_State_scheme \<Rightarrow> 'a LS_State_scheme option" where
  "lfsu bus inst s = load_single bus True (Helper_Get_EA_U inst s) inst s"

definition lfsx :: "'a LS_State_scheme Bus \<Rightarrow> u32 \<Rightarrow> 'a LS_State_scheme \<Rightarrow> 'a LS_State_scheme option" where
  "lfsx bus inst s = load_single bus False (Helper_Get_EA_X inst s) inst s"

definition lfsux :: "'a LS_State_scheme Bus \<Rightarrow> u32 \<Rightarrow> 'a LS_State_scheme \<Rightarrow> 'a LS_State_scheme option" where
  "lfsux bus inst s = load_single bus True (Helper_Get_EA_UX inst s) inst s"

section \<open>Stores\<close>

definition stb :: "'a LS_State_scheme Bus \<Rightarrow> u32 \<Rightarrow> 'a LS_State_scheme \<Rightarrow> 'a LS_State_scheme" where
  "stb bus inst s = store_gpr bus 1 ucast (Helper_Get_EA inst s) inst s"

definition stbu :: "'a LS_State_scheme Bus \<Rightarrow> u32 \<Rightarrow> 'a LS_State_scheme \<Rightarrow> 'a LS_State_scheme" where
  "stbu bus inst s = store_gpr_update bus 1 ucast (Helper_Get_EA_U inst s) inst s"

definition stbx :: "'a LS_State_scheme Bus \<Rightarrow> u32 \<Rightarrow> 'a LS_State_scheme \<Rightarrow> 'a LS_State_scheme" where
  "stbx bus inst s = store_gpr bus 1 ucast (Helper_Get_EA_X inst s) inst s"

definition stbux :: "'a LS_State_scheme Bus \<Rightarrow> u32 \<Rightarrow> 'a LS_State_scheme \<Rightarrow> 'a LS_State_scheme" where
  "stbux bus inst s = store_gpr_update bus 1 ucast (Helper_Get_EA_UX inst s) inst s"

definition sth :: "'a LS_State_scheme Bus \<Rightarrow> u32 \<Rightarrow> 'a LS_State_scheme \<Rightarrow> 'a LS_State_scheme" where
  "sth bus inst s = store_gpr bus 2 ucast (Helper_Get_EA inst s) inst s"

definition sthu :: "'a LS_State_scheme Bus \<Rightarrow> u32 \<Rightarrow> 'a LS_State_scheme \<Rightarrow> 'a LS_State_scheme" where
  "sthu bus inst s = store_gpr_update bus 2 ucast (Helper_Get_EA_U inst s) inst s"

definition sthx :: "'a LS_State_scheme Bus \<Rightarrow> u32 \<Rightarrow> 'a LS_State_scheme \<Rightarrow> 'a LS_State_scheme" where
  "sthx bus inst s = store_gpr bus 2 ucast (Helper_Get_EA_X inst s) inst s"

definition sthux :: "'a LS_State_scheme Bus \<Rightarrow> u32 \<Rightarrow> 'a LS_State_scheme \<Rightarrow> 'a LS_State_scheme" where
  "sthux bus inst s = store_gpr_update bus 2 ucast (Helper_Get_EA_UX inst s) inst s"

definition stw :: "'a LS_State_scheme Bus \<Rightarrow> u32 \<Rightarrow> 'a LS_State_scheme \<Rightarrow> 'a LS_State_scheme" where
  "stw bus inst s = store_gpr bus 4 ucast (Helper_Get_EA inst s) inst s"

definition stwu :: "'a LS_State_scheme Bus \<Rightarrow> u32 \<Rightarrow> 'a LS_State_scheme \<Rightarrow> 'a LS_State_scheme" where
  "stwu bus inst s = store_gpr_update bus 4 ucast (Helper_Get_EA_U inst s) inst s"

definition stwx :: "'a LS_State_scheme Bus \<Rightarrow> u32 \<Rightarrow> 'a LS_State_scheme \<Rightarrow> 'a LS_State_scheme" where
  "stwx bus inst s = store_gpr bus 4 ucast (Helper_Get_EA_X inst s) inst s"

definition stwux :: "'a LS_State_scheme Bus \<Rightarrow> u32 \<Rightarrow> 'a LS_State_scheme \<Rightarrow> 'a LS_State_scheme" where
  "stwux bus inst s = store_gpr_update bus 4 ucast (Helper_Get_EA_UX inst s) inst s"

definition sthbrx :: "'a LS_State_scheme Bus \<Rightarrow> u32 \<Rightarrow> 'a LS_State_scheme \<Rightarrow> 'a LS_State_scheme" where
  "sthbrx bus inst s = store_gpr bus 2 (\<lambda>r. ucast (swap16 (ucast r))) (Helper_Get_EA_X inst s) inst s"

definition stwbrx :: "'a LS_State_scheme Bus \<Rightarrow> u32 \<Rightarrow> 'a LS_State_scheme \<Rightarrow> 'a LS_State_scheme" where
  "stwbrx bus inst s = store_gpr bus 4 (\<lambda>r. ucast (swap32 r)) (Helper_Get_EA_X inst s) inst s"

definition stfd :: "'a LS_State_scheme Bus \<Rightarrow> u32 \<Rightarrow> 'a LS_State_scheme \<Rightarrow> 'a LS_State_scheme" where
  "stfd bus inst s = store_float bus 8 (ps0 s (FS inst)) False (Helper_Get_EA inst s) inst s"

definition stfdu :: "'a LS_State_scheme Bus \<Rightarrow> u32 \<Rightarrow> 'a LS_State_scheme \<Rightarrow> 'a LS_State_scheme" where
  "stfdu bus inst s = store_float bus 8 (ps0 s (FS inst)) True (Helper_Get_EA_U inst s) inst s"

definition stfdx :: "'a LS_State_scheme Bus \<Rightarrow> u32 \<Rightarrow> 'a LS_State_scheme \<Rightarrow> 'a LS_State_scheme" where
  "stfdx bus inst s = store_float bus 8 (ps0 s (FS inst)) False (Helper_Get_EA_X inst s) inst s"

definition stfdux :: "'a LS_State_scheme Bus \<Rightarrow> u32 \<Rightarrow> 'a LS_State_scheme \<Rightarrow> 'a LS_State_scheme" where
  "stfdux bus inst s = store_float bus 8 (ps0 s (FS inst)) True (Helper_Get_EA_UX inst s) inst s"

definition stfs :: "'a LS_State_scheme Bus \<Rightarrow> u32 \<Rightarrow> 'a LS_State_scheme \<Rightarrow> 'a LS_State_scheme" where
  "stfs bus inst s = store_float bus 4 (ucast (ConvertToSingle (ps0 s (FS inst)))) False (Helper_Get_EA inst s) inst s"

definition stfsu :: "'a LS_State_scheme Bus \<Rightarrow> u32 \<Rightarrow> 'a LS_State_scheme \<Rightarrow> 'a LS_State_scheme" where
  "stfsu bus inst s = store_float bus 4 (ucast (ConvertToSingle (ps0 s (FS inst)))) True (Helper_Get_EA_U inst s) inst s"

definition stfsx :: "'a LS_State_scheme Bus \<Rightarrow> u32 \<Rightarrow> 'a LS_State_scheme \<Rightarrow> 'a LS_State_scheme" where
  "stfsx bus inst s = store_float bus 4 (ucast (ConvertToSingle (ps0 s (FS inst)))) False (Helper_Get_EA_X inst s) inst s"

definition stfsux :: "'a LS_State_scheme Bus \<Rightarrow> u32 \<Rightarrow> 'a LS_State_scheme \<Rightarrow> 'a LS_State_scheme" where
  "stfsux bus inst s = store_float bus 4 (ucast (ConvertToSingle (ps0 s (FS inst)))) True (Helper_Get_EA_UX inst s) inst s"

definition stfiwx :: "'a LS_State_scheme Bus \<Rightarrow> u32 \<Rightarrow> 'a LS_State_scheme \<Rightarrow> 'a LS_State_scheme" where
  "stfiwx bus inst s = store_float bus 4 (ucast (ucast (ps0 s (FS inst)) :: u32)) False (Helper_Get_EA_X inst s) inst s"

section \<open>Several registers\<close>

fun lmw_regs :: "'a LS_State_scheme Bus \<Rightarrow> nat \<Rightarrow> nat \<Rightarrow> u32 \<Rightarrow> 'a LS_State_scheme \<Rightarrow> 'a LS_State_scheme option" where
  "lmw_regs bus 0 i address s = Some s"
| "lmw_regs bus (Suc n) i address s =
    (case Read_U bus 4 address s of
       None \<Rightarrow> None
     | Some (v, s1) \<Rightarrow>
         if dsi_pending s1 then Some (s1\<lparr>panics := panics s1 + 1\<rparr>)
         else lmw_regs bus n (i + 1) (address + 4) (set_gpr i (ucast v) s1))"

definition lmw :: "'a LS_State_scheme Bus \<Rightarrow> u32 \<Rightarrow> 'a LS_State_scheme \<Rightarrow> 'a LS_State_scheme option" where
  "lmw bus inst s =
    (let address = Helper_Get_EA inst s
     in if address AND 3 \<noteq> 0 \<or> MSR_LE s then Some (GenerateAlignmentException address s)
        else lmw_regs bus (32 - RD inst) (RD inst) address s)"

fun stmw_regs :: "'a LS_State_scheme Bus \<Rightarrow> nat \<Rightarrow> nat \<Rightarrow> u32 \<Rightarrow> 'a LS_State_scheme \<Rightarrow> 'a LS_State_scheme" where
  "stmw_regs bus 0 i address s = s"
| "stmw_regs bus (Suc n) i address s =
    (let s1 = Write_U bus 4 (ucast (gpr s i)) address s
     in if dsi_pending s1 then s1\<lparr>panics := panics s1 + 1\<rparr>
        else stmw_regs bus n (i + 1) (address + 4) s1)"

definition stmw :: "'a LS_State_scheme Bus \<Rightarrow> u32 \<Rightarrow> 'a LS_State_scheme \<Rightarrow> 'a LS_State_scheme" where
  "stmw bus inst s =
    (let address = Helper_Get_EA inst s
     in if address AND 3 \<noteq> 0 \<or> MSR_LE s then GenerateAlignmentException address s
        else stmw_regs bus (32 - RS inst) (RS inst) address s)"

section \<open>Strings\<close>

text \<open>\<^verbatim>\<open>lswx\<close>: byte \<open>k\<close> of \<open>k + n\<close>.\<close>

fun lswx_bytes :: "'a LS_State_scheme Bus \<Rightarrow> u32 \<Rightarrow> nat \<Rightarrow> nat \<Rightarrow> u32 \<Rightarrow> 'a LS_State_scheme \<Rightarrow> 'a LS_State_scheme option" where
  "lswx_bytes bus inst 0 k address s = Some s"
| "lswx_bytes bus inst (Suc n) k address s =
    (let r = (RD inst + k div 4) mod 32;
         offset = 8 * (k mod 4);
         s1 = (if k mod 4 = 0 then set_gpr r 0 s else s)
     in case Read_U bus 1 address s1 of
          None \<Rightarrow> None
        | Some (v, s2) \<Rightarrow>
            if dsi_pending s2 then Some s2
            else lswx_bytes bus inst n (k + 1) (address + 1) (set_gpr r (gpr s2 r OR push_bit (24 - offset) (ucast v)) s2))"

definition lswx :: "'a LS_State_scheme Bus \<Rightarrow> u32 \<Rightarrow> 'a LS_State_scheme \<Rightarrow> 'a LS_State_scheme option" where
  "lswx bus inst s =
    (let address = Helper_Get_EA_X inst s
     in if MSR_LE s then Some (GenerateAlignmentException address s)
        else lswx_bytes bus inst (unat (ucast (xer_stringctrl s) :: u8)) 0 address s)"

text \<open>
  \<^verbatim>\<open>lswi\<close> and \<^verbatim>\<open>stswi\<close> step a register number and a shift. The register before the first is rD - 1, kept as rD + 31: only
  its successor modulo 32 is used.
\<close>

definition string_address :: "u32 \<Rightarrow> 'a CPU_State_scheme \<Rightarrow> u32" where
  "string_address inst s = (if RA inst = 0 then 0 else gpr s (RA inst))"

definition string_count :: "u32 \<Rightarrow> nat" where
  "string_count inst = (if NB inst = 0 then 32 else NB inst)"

fun lswi_bytes :: "'a LS_State_scheme Bus \<Rightarrow> nat \<Rightarrow> nat \<Rightarrow> nat \<Rightarrow> u32 \<Rightarrow> 'a LS_State_scheme \<Rightarrow> 'a LS_State_scheme option" where
  "lswi_bytes bus 0 r i address s = Some s"
| "lswi_bytes bus (Suc n) r i address s =
    (let r1 = (if i = 0 then (r + 1) mod 32 else r);
         s1 = (if i = 0 then set_gpr r1 0 s else s)
     in case Read_U bus 1 address s1 of
          None \<Rightarrow> None
        | Some (v, s2) \<Rightarrow>
            if dsi_pending s2 then Some (s2\<lparr>panics := panics s2 + 1\<rparr>)
            else lswi_bytes bus n r1 (if i + 8 = 32 then 0 else i + 8) (address + 1)
                   (set_gpr r1 (gpr s2 r1 OR push_bit (24 - i) (ucast v)) s2))"

definition lswi :: "'a LS_State_scheme Bus \<Rightarrow> u32 \<Rightarrow> 'a LS_State_scheme \<Rightarrow> 'a LS_State_scheme option" where
  "lswi bus inst s =
    (let address = string_address inst s
     in if MSR_LE s then Some (GenerateAlignmentException address s)
        else lswi_bytes bus (string_count inst) (RD inst + 31) 0 address s)"

fun stswi_bytes :: "'a LS_State_scheme Bus \<Rightarrow> nat \<Rightarrow> nat \<Rightarrow> nat \<Rightarrow> u32 \<Rightarrow> 'a LS_State_scheme \<Rightarrow> 'a LS_State_scheme" where
  "stswi_bytes bus 0 r i address s = s"
| "stswi_bytes bus (Suc n) r i address s =
    (let r1 = (if i = 0 then (r + 1) mod 32 else r);
         s1 = Write_U bus 1 (ucast (drop_bit (24 - i) (gpr s r1) AND 0xff)) address s
     in if dsi_pending s1 then s1
        else stswi_bytes bus n r1 (if i + 8 = 32 then 0 else i + 8) (address + 1) s1)"

definition stswi :: "'a LS_State_scheme Bus \<Rightarrow> u32 \<Rightarrow> 'a LS_State_scheme \<Rightarrow> 'a LS_State_scheme" where
  "stswi bus inst s =
    (let address = string_address inst s
     in if MSR_LE s then GenerateAlignmentException address s
        else stswi_bytes bus (string_count inst) (RS inst + 31) 0 address s)"

text \<open>\<^verbatim>\<open>stswx\<close> does not stop at a DSI.\<close>

fun stswx_bytes :: "'a LS_State_scheme Bus \<Rightarrow> nat \<Rightarrow> nat \<Rightarrow> nat \<Rightarrow> u32 \<Rightarrow> 'a LS_State_scheme \<Rightarrow> 'a LS_State_scheme" where
  "stswx_bytes bus 0 r i address s = s"
| "stswx_bytes bus (Suc n) r i address s =
    (let s1 = Write_U bus 1 (ucast (drop_bit (24 - i) (gpr s r) AND 0xff)) address s
     in if i + 8 = 32 then stswx_bytes bus n ((r + 1) mod 32) 0 (address + 1) s1
        else stswx_bytes bus n r (i + 8) (address + 1) s1)"

definition stswx :: "'a LS_State_scheme Bus \<Rightarrow> u32 \<Rightarrow> 'a LS_State_scheme \<Rightarrow> 'a LS_State_scheme" where
  "stswx bus inst s =
    (let address = Helper_Get_EA_X inst s
     in if MSR_LE s then GenerateAlignmentException address s
        else stswx_bytes bus (unat (ucast (xer_stringctrl s) :: u8)) (RS inst) 0 address s)"

section \<open>Caches and devices\<close>

definition dcba :: "u32 \<Rightarrow> 'a LS_State_scheme \<Rightarrow> 'a LS_State_scheme" where
  "dcba inst s = s\<lparr>panics := panics s + 1\<rparr>"

text \<open>\<^verbatim>\<open>dcbf\<close>, \<^verbatim>\<open>dcbst\<close>, \<^verbatim>\<open>dcbt\<close> and \<^verbatim>\<open>dcbtst\<close> change nothing but the recompiler's blocks.\<close>

definition dcbf :: "u32 \<Rightarrow> 'a LS_State_scheme \<Rightarrow> 'a LS_State_scheme" where
  "dcbf inst s = s"

definition dcbst :: "u32 \<Rightarrow> 'a LS_State_scheme \<Rightarrow> 'a LS_State_scheme" where
  "dcbst inst s = s"

definition dcbt :: "u32 \<Rightarrow> 'a LS_State_scheme \<Rightarrow> 'a LS_State_scheme" where
  "dcbt inst s = s"

definition dcbtst :: "u32 \<Rightarrow> 'a LS_State_scheme \<Rightarrow> 'a LS_State_scheme" where
  "dcbtst inst s = s"

definition dcbi :: "u32 \<Rightarrow> 'a LS_State_scheme \<Rightarrow> 'a LS_State_scheme" where
  "dcbi inst s = (if MSR_PR s then GenerateProgramException s else s)"

definition dcbz :: "'a LS_State_scheme Bus \<Rightarrow> u32 \<Rightarrow> 'a LS_State_scheme \<Rightarrow> 'a LS_State_scheme" where
  "dcbz bus inst s =
    (let dcbz_addr = Helper_Get_EA_X inst s
     in if \<not> HID0_DCE s then GenerateAlignmentException dcbz_addr s
        else if bLowDCBZHack s \<and> dcbz_addr < 0x80008000 \<and> dcbz_addr \<ge> 0x80000000 then s
        else ClearCacheLine bus (dcbz_addr AND NOT 31) s)"

definition dcbz_l :: "'a LS_State_scheme Bus \<Rightarrow> u32 \<Rightarrow> 'a LS_State_scheme \<Rightarrow> 'a LS_State_scheme" where
  "dcbz_l bus inst s =
    (if \<not> HID2_LCE s then GenerateProgramException s
     else let address = Helper_Get_EA_X inst s
          in if \<not> HID0_DCE s then GenerateAlignmentException address s
             else ClearCacheLine bus (address AND NOT 31) s)"

definition eciwx :: "'a LS_State_scheme Bus \<Rightarrow> u32 \<Rightarrow> 'a LS_State_scheme \<Rightarrow> 'a LS_State_scheme option" where
  "eciwx bus inst s =
    (let EA = Helper_Get_EA_X inst s
     in if spr s SPR_EAR AND 0x80000000 = 0 then Some (GenerateDSIException_util EA s)
        else if EA AND 3 \<noteq> 0 then Some (GenerateAlignmentException EA s)
        else map_option (\<lambda>(v, s1). set_gpr (RD inst) (ucast v) s1) (Read_U bus 4 EA s))"

definition ecowx :: "'a LS_State_scheme Bus \<Rightarrow> u32 \<Rightarrow> 'a LS_State_scheme \<Rightarrow> 'a LS_State_scheme" where
  "ecowx bus inst s =
    (let EA = Helper_Get_EA_X inst s
     in if spr s SPR_EAR AND 0x80000000 = 0 then GenerateDSIException_util EA s
        else if EA AND 3 \<noteq> 0 then GenerateAlignmentException EA s
        else Write_U bus 4 (ucast (gpr s (RS inst))) EA s)"

definition eieio :: "u32 \<Rightarrow> 'a LS_State_scheme \<Rightarrow> 'a LS_State_scheme" where
  "eieio inst s = s"

definition icbi :: "u32 \<Rightarrow> 'a LS_State_scheme \<Rightarrow> 'a LS_State_scheme" where
  "icbi inst s = Invalidate (Helper_Get_EA_X inst s) s"

section \<open>Reservations and translation\<close>

definition lwarx :: "'a LS_State_scheme Bus \<Rightarrow> u32 \<Rightarrow> 'a LS_State_scheme \<Rightarrow> 'a LS_State_scheme option" where
  "lwarx bus inst s =
    (let address = Helper_Get_EA_X inst s
     in if address AND 3 \<noteq> 0 then Some (GenerateAlignmentException address s)
        else map_option (\<lambda>(v, s1).
               if dsi_pending s1 then s1
               else (set_gpr (RD inst) (ucast v) s1)\<lparr>m_reserve := True, m_reserve_address := address\<rparr>)
             (Read_U bus 4 address s))"

definition stwcxd :: "'a LS_State_scheme Bus \<Rightarrow> u32 \<Rightarrow> 'a LS_State_scheme \<Rightarrow> 'a LS_State_scheme" where
  "stwcxd bus inst s =
    (let address = Helper_Get_EA_X inst s;
         failed = (\<lambda>s. SetCRField 0 (GetXER_SO s) s)
     in if address AND 3 \<noteq> 0 then GenerateAlignmentException address s
        else if m_reserve s \<and> address = m_reserve_address s
        then (let s1 = Write_U bus 4 (ucast (gpr s (RS inst))) address s
              in if dsi_pending s1 then failed s1
                 else let s2 = s1\<lparr>m_reserve := False\<rparr> in SetCRField 0 (2 OR GetXER_SO s2) s2)
        else failed s)"

definition sync :: "u32 \<Rightarrow> 'a LS_State_scheme \<Rightarrow> 'a LS_State_scheme" where
  "sync inst s = s"

definition tlbie :: "u32 \<Rightarrow> 'a LS_State_scheme \<Rightarrow> 'a LS_State_scheme" where
  "tlbie inst s = (if MSR_PR s then GenerateProgramException s else InvalidateTLBEntry (gpr s (RB inst)) s)"

definition tlbsync :: "u32 \<Rightarrow> 'a LS_State_scheme \<Rightarrow> 'a LS_State_scheme" where
  "tlbsync inst s = (if MSR_PR s then GenerateProgramException s else s)"

end
