(* ===== verification/PPC_LoadStoreSpec.thy ===== *)
theory PPC_LoadStoreSpec
  imports PPC_LoadStore
begin

text \<open>
  What the load and store instructions do to memory that is mapped: stores are read back by the loads of their size,
  \<^verbatim>\<open>stmw\<close> and \<^verbatim>\<open>lmw\<close> save and restore registers, and a reservation allows one conditional store.
\<close>

section \<open>Mapped memory\<close>

definition byte_loc :: "u32 \<Rightarrow> 'a MMU_State_scheme \<Rightarrow> u32 option" where
  "byte_loc a s = (case data_phys a s of None \<Rightarrow> None | Some p \<Rightarrow> ram_index p s)"

text \<open>Every byte of an access is in memory, by real addressing or block translation, and no memory check is set.\<close>

definition mapped :: "nat \<Rightarrow> u32 \<Rightarrow> 'a MMU_State_scheme \<Rightarrow> bool" where
  "mapped n a s \<longleftrightarrow> m_mem_checks s = [] \<and> bat_aligned (dbat_table s) \<and> unat a + n \<le> 2 ^ 32 \<and>
    (\<forall>k < n. byte_loc (a + of_nat k) s \<noteq> None)"

lemma mapped_store_load:
  assumes "mapped n a s" "n \<in> {1, 2, 4, 8}"
  shows "\<exists>m. Write_U bus n v a s = s\<lparr>physical_base := m\<rparr> \<and>
    Read_U bus n a (s\<lparr>physical_base := m\<rparr>) = Some (take_bit (8 * n) v, s\<lparr>physical_base := m\<rparr>)"
proof -
  have "\<exists>p j. data_phys (a + of_nat k) s = Some p \<and> ram_index p s = Some j" if "k < n" for k
    using assms(1) that by (fastforce simp: mapped_def byte_loc_def split: option.splits)
  then obtain m where "Write_U bus n v a s = s\<lparr>physical_base := m\<rparr>"
      "Read_U bus n a (Write_U bus n v a s) = Some (take_bit (8 * n) v, Write_U bus n v a s)"
    using store_load [OF assms(2), of s a bus v] assms(1) by (auto simp: mapped_def)
  then show ?thesis by metis
qed

lemma dsi_pending_upd [simp]:
  "dsi_pending (s\<lparr>physical_base := m\<rparr>) = dsi_pending s" "dsi_pending (s'\<lparr>gpr := g\<rparr>) = dsi_pending s'"
  by (simp_all add: dsi_pending_def)

lemma EA_mem [simp]:
  "Helper_Get_EA i (s\<lparr>physical_base := m\<rparr>) = Helper_Get_EA i s" "Helper_Get_EA_X i (s\<lparr>physical_base := m\<rparr>) = Helper_Get_EA_X i s"
  "Helper_Get_EA_U i (s\<lparr>physical_base := m\<rparr>) = Helper_Get_EA_U i s" "Helper_Get_EA_UX i (s\<lparr>physical_base := m\<rparr>) = Helper_Get_EA_UX i s"
  by (simp_all add: Helper_Get_EA_def Helper_Get_EA_X_def Helper_Get_EA_U_def Helper_Get_EA_UX_def)

text \<open>A load that follows a store of the same size at the same address.\<close>

lemma store_then_load:
  assumes "mapped n a s" "n \<in> {1, 2, 4, 8}" "\<not> dsi_pending s"
  shows "load_gpr bus n conv a inst (Write_U bus n v a s) = Some (set_gpr (RD inst) (conv (take_bit (8 * n) v)) (Write_U bus n v a s))"
    "dsi_pending (Write_U bus n v a s) = False" "gpr (Write_U bus n v a s) = gpr s"
    "Helper_Get_EA inst (Write_U bus n v a s) = Helper_Get_EA inst s" "Helper_Get_EA_X inst (Write_U bus n v a s) = Helper_Get_EA_X inst s"
proof -
  obtain m where m: "Write_U bus n v a s = s\<lparr>physical_base := m\<rparr>"
    "Read_U bus n a (s\<lparr>physical_base := m\<rparr>) = Some (take_bit (8 * n) v, s\<lparr>physical_base := m\<rparr>)"
    using mapped_store_load [OF assms(1,2), of bus v] by blast
  show "load_gpr bus n conv a inst (Write_U bus n v a s) = Some (set_gpr (RD inst) (conv (take_bit (8 * n) v)) (Write_U bus n v a s))"
    "dsi_pending (Write_U bus n v a s) = False" "gpr (Write_U bus n v a s) = gpr s"
    "Helper_Get_EA inst (Write_U bus n v a s) = Helper_Get_EA inst s" "Helper_Get_EA_X inst (Write_U bus n v a s) = Helper_Get_EA_X inst s"
    using assms(3) by (simp_all add: m load_gpr_def)
qed

lemma single_bytes: "ucast (take_bit 8 (ucast r :: u64)) = (ucast (ucast r :: u8) :: u32)"
  "ucast (take_bit 16 (ucast r :: u64)) = (ucast (ucast r :: u16) :: u32)" "ucast (take_bit 32 (ucast r :: u64)) = (r :: u32)"
  "(ucast (take_bit 16 (ucast h :: u64)) :: u16) = h" "(ucast (take_bit 16 (ucast r :: u64)) :: u16) = ucast (r :: u32)"
  by (rule bit_word_eqI; auto simp: bit_unsigned_iff bit_take_bit_iff)+

lemma word_pairs:
  assumes "\<not> dsi_pending s"
  shows "mapped 4 (Helper_Get_EA i s) s \<Longrightarrow> Helper_Get_EA j s = Helper_Get_EA i s \<Longrightarrow>
      lwz bus j (stw bus i s) = Some (set_gpr (RD j) (gpr s (RS i)) (stw bus i s))"
    "mapped 2 (Helper_Get_EA i s) s \<Longrightarrow> Helper_Get_EA j s = Helper_Get_EA i s \<Longrightarrow>
      lhz bus j (sth bus i s) = Some (set_gpr (RD j) (ucast (ucast (gpr s (RS i)) :: u16)) (sth bus i s))"
    "mapped 2 (Helper_Get_EA i s) s \<Longrightarrow> Helper_Get_EA j s = Helper_Get_EA i s \<Longrightarrow>
      lha bus j (sth bus i s) = Some (set_gpr (RD j) (scast (ucast (gpr s (RS i)) :: u16)) (sth bus i s))"
    "mapped 1 (Helper_Get_EA i s) s \<Longrightarrow> Helper_Get_EA j s = Helper_Get_EA i s \<Longrightarrow>
      lbz bus j (stb bus i s) = Some (set_gpr (RD j) (ucast (ucast (gpr s (RS i)) :: u8)) (stb bus i s))"
    "mapped 4 (Helper_Get_EA_X i s) s \<Longrightarrow> Helper_Get_EA_X j s = Helper_Get_EA_X i s \<Longrightarrow>
      lwbrx bus j (stwbrx bus i s) = Some (set_gpr (RD j) (gpr s (RS i)) (stwbrx bus i s))"
    "mapped 4 (Helper_Get_EA_X i s) s \<Longrightarrow> Helper_Get_EA_X j s = Helper_Get_EA_X i s \<Longrightarrow>
      lwbrx bus j (stwx bus i s) = Some (set_gpr (RD j) (swap32 (gpr s (RS i))) (stwx bus i s))"
    "mapped 2 (Helper_Get_EA_X i s) s \<Longrightarrow> Helper_Get_EA_X j s = Helper_Get_EA_X i s \<Longrightarrow>
      lhbrx bus j (sthbrx bus i s) = Some (set_gpr (RD j) (ucast (ucast (gpr s (RS i)) :: u16)) (sthbrx bus i s))"
  unfolding lwz_def lhz_def lha_def lbz_def lwbrx_def lhbrx_def stw_def sth_def stb_def stwbrx_def stwx_def sthbrx_def store_gpr_def
  using store_then_load [OF _ _ assms] by (simp_all add: single_bytes)

lemma double_pair:
  assumes "\<not> dsi_pending s" "mapped 8 (Helper_Get_EA i s) s" "Helper_Get_EA j s = Helper_Get_EA i s" "Helper_Get_EA i s AND 3 = 0"
  shows "lfd bus j (stfd bus i s) = Some (set_ps (FD j) (ps0 s (FS i)) (ps1 s (FD j)) (stfd bus i s))"
proof -
  obtain m where "Write_U bus 8 (ps0 s (FS i)) (Helper_Get_EA i s) s = s\<lparr>physical_base := m\<rparr>"
    "Read_U bus 8 (Helper_Get_EA i s) (s\<lparr>physical_base := m\<rparr>) = Some (take_bit (8 * 8) (ps0 s (FS i)), s\<lparr>physical_base := m\<rparr>)"
    using mapped_store_load [OF assms(2), of bus "ps0 s (FS i)"] by auto
  then show ?thesis using assms by (simp add: lfd_def stfd_def load_double_def store_float_def take_bit_length_eq [where 'a = 64, simplified])
qed

lemma single_pair:
  assumes "\<not> dsi_pending s" "mapped 4 (Helper_Get_EA i s) s" "Helper_Get_EA j s = Helper_Get_EA i s" "Helper_Get_EA i s AND 3 = 0"
    "ConvertToDouble v = Some (ps0 s (FS i))"
  shows "lfs bus j (stfs bus i s) = Some (set_ps (FD j) (ps0 s (FS i)) (ps0 s (FS i)) (stfs bus i s))"
proof -
  have c: "ConvertToSingle (ps0 s (FS i)) = v" using single_back [of v] assms(5) by auto
  obtain m where "Write_U bus 4 (ucast v) (Helper_Get_EA i s) s = s\<lparr>physical_base := m\<rparr>"
    "Read_U bus 4 (Helper_Get_EA i s) (s\<lparr>physical_base := m\<rparr>) = Some (take_bit (8 * 4) (ucast v), s\<lparr>physical_base := m\<rparr>)"
    using mapped_store_load [OF assms(2), of bus "ucast v"] by auto
  then show ?thesis using assms c by (simp add: lfs_def stfs_def load_single_def store_float_def single_bytes)
qed

section \<open>Runs of words\<close>

lemma same_map:
  assumes "MSR_DR t = MSR_DR s" "dbat_table t = dbat_table s" "m_pEXRAM t = m_pEXRAM s" "m_pFakeVMEM t = m_pFakeVMEM s"
  shows "byte_loc a t = byte_loc a s" "m_mem_checks t = m_mem_checks s \<Longrightarrow> mapped n a t = mapped n a s"
proof -
  have r: "ram_index p t = ram_index p s" for p using assms(3,4) by (simp add: ram_index_def)
  show b: "byte_loc a t = byte_loc a s" for a using assms(1,2) by (simp add: byte_loc_def data_phys_def r split: option.splits)
  show "m_mem_checks t = m_mem_checks s \<Longrightarrow> mapped n a t = mapped n a s" using assms(2) by (simp add: mapped_def b)
qed

lemma byte_loc_upd [simp]:
  "byte_loc a (s\<lparr>physical_base := m\<rparr>) = byte_loc a s" "byte_loc a (s\<lparr>gpr := g\<rparr>) = byte_loc a s"
  "mapped n a (s\<lparr>physical_base := m\<rparr>) = mapped n a s" "mapped n a (s\<lparr>gpr := g\<rparr>) = mapped n a s"
  by (rule same_map; simp)+

lemma byte_loc_offset:
  assumes "bat_aligned (dbat_table s)" "byte_loc a s = Some j"
  shows "unat j mod 4096 = unat a mod 4096"
proof -
  obtain p where p: "data_phys a s = Some p" "ram_index p s = Some j" using assms(2) by (auto simp: byte_loc_def split: option.splits)
  have "p AND 0xFFF = a AND 0xFFF" using p(1) bat_page_offset [OF assms(1), of a p] by (auto simp: data_phys_def split: if_splits)
  then show ?thesis using ram_index_offset [OF p(2)] unat_offset by metis
qed

lemma word_access:
  assumes "mapped 4 a s" "unat a mod 4 = 0" "byte_loc a s = Some j"
  shows "Write_U bus 4 v a s = s\<lparr>physical_base := write_be 4 j v (physical_base s)\<rparr>"
    "Read_U bus 4 a s = Some (read_be 4 j (physical_base s), s)"
proof -
  obtain p where p: "data_phys a s = Some p" "ram_index p s = Some j" using assms(3) by (auto simp: byte_loc_def split: option.splits)
  have "\<not> (MSR_DR s \<and> crosses a 4)" using crosses_unaligned [of 4 a] assms(2) by auto
  then show "Write_U bus 4 v a s = s\<lparr>physical_base := write_be 4 j v (physical_base s)\<rparr>"
    "Read_U bus 4 a s = Some (read_be 4 j (physical_base s), s)"
    using one_piece [OF _ p, of 4] assms(1) by (simp_all add: mapped_def Write_U_def Read_U_def)
qed

lemma words_apart:
  assumes "unat (j :: u32) mod 4 = 0" "unat (j' :: u32) mod 4 = 0" "unat j mod 4096 \<noteq> unat j' mod 4096" "c < 4"
  shows "\<not> unat (j' + of_nat c - j) < 4"
proof
  assume h: "unat (j' + of_nat c - j) < 4"
  define b where "b = unat (j' + of_nat c - j)"
  have "unat (j + of_nat b) = unat (j' + of_nat c)" by (simp add: b_def)
  then have "(unat j + b) mod 2 ^ 32 = (unat j' + c) mod 2 ^ 32" by (simp add: unat_word_ariths unat_of_nat mod_simps)
  then have "(unat j + b) mod 2 ^ 32 mod 4096 = (unat j' + c) mod 2 ^ 32 mod 4096" by simp
  then have e: "(unat j + b) mod 4096 = (unat j' + c) mod 4096" by (simp add: mod_mod_cancel)
  have p: "(x + d) mod 4096 = 4 * (x div 4 mod 1024) + d" if "x mod 4 = 0" "d < 4" for x d :: nat
  proof -
    have "(x + d) div 4 = x div 4" "(x + d) mod 4 = d" using that by presburger+
    then show ?thesis using mod_mult2_eq [of "x + d" 4 1024] by simp
  qed
  have "4 * (unat j div 4 mod 1024) + b = 4 * (unat j' div 4 mod 1024) + c"
    using e p [OF assms(1), of b] p [OF assms(2,4)] h by (simp add: b_def)
  moreover have "x = y" if "4 * x + b' = 4 * y + c'" "b' < 4" "c' < 4" for x y b' c' :: nat using that by presburger
  ultimately have "unat j div 4 mod 1024 = unat j' div 4 mod 1024" using h [folded b_def] assms(4) by blast
  then show False using p [OF assms(1), of 0] p [OF assms(2), of 0] assms(3) by simp
qed

lemma read_other_word:
  assumes "unat (j :: u32) mod 4 = 0" "unat (j' :: u32) mod 4 = 0" "unat j mod 4096 \<noteq> unat j' mod 4096"
  shows "read_be 4 j' (write_be 4 j v mem) = read_be 4 j' mem"
  by (rule read_be_cong) (use words_apart [OF assms] in \<open>simp add: write_be_apply\<close>)

text \<open>The addresses of \<open>n\<close> words from an aligned one.\<close>

definition words_mapped :: "nat \<Rightarrow> u32 \<Rightarrow> 'a MMU_State_scheme \<Rightarrow> bool" where
  "words_mapped n a s \<longleftrightarrow> unat a mod 4 = 0 \<and> n \<le> 32 \<and> unat a + 4 * n \<le> 2 ^ 32 \<and> (\<forall>k < n. mapped 4 (a + of_nat (4 * k)) s)"

definition word_loc :: "u32 \<Rightarrow> 'a MMU_State_scheme \<Rightarrow> u32" where
  "word_loc a s = the (byte_loc a s)"

lemma words_mapped_upd [simp]:
  "words_mapped n a (s\<lparr>physical_base := m\<rparr>) = words_mapped n a s" "words_mapped n a (s\<lparr>gpr := g\<rparr>) = words_mapped n a s"
  "word_loc a (s\<lparr>physical_base := m\<rparr>) = word_loc a s" "word_loc a (s\<lparr>gpr := g\<rparr>) = word_loc a s"
  by (simp_all add: words_mapped_def word_loc_def)

lemma unat_word_at:
  "words_mapped n a s \<Longrightarrow> k < n \<Longrightarrow> unat (a + of_nat (4 * k)) = unat a + 4 * k"
  by (simp add: words_mapped_def unat_word_ariths unat_of_nat)

lemma words_mapped_at:
  assumes "words_mapped n a s" "k < n"
  shows "mapped 4 (a + of_nat (4 * k)) s" "unat (a + of_nat (4 * k)) mod 4 = 0"
    "byte_loc (a + of_nat (4 * k)) s = Some (word_loc (a + of_nat (4 * k)) s)"
    "unat (word_loc (a + of_nat (4 * k)) s) mod 4096 = (unat a + 4 * k) mod 4096"
    "unat (word_loc (a + of_nat (4 * k)) s) mod 4 = 0"
proof -
  show m: "mapped 4 (a + of_nat (4 * k)) s" using assms by (simp add: words_mapped_def)
  note u = unat_word_at [OF assms]
  have a4: "unat a mod 4 = 0" using assms by (simp add: words_mapped_def)
  then show "unat (a + of_nat (4 * k)) mod 4 = 0" unfolding u by presburger
  show l: "byte_loc (a + of_nat (4 * k)) s = Some (word_loc (a + of_nat (4 * k)) s)"
    using m by (auto simp: mapped_def word_loc_def dest: spec [of _ 0])
  show o: "unat (word_loc (a + of_nat (4 * k)) s) mod 4096 = (unat a + 4 * k) mod 4096"
    using byte_loc_offset [OF _ l] m u by (simp add: mapped_def)
  have "unat (word_loc (a + of_nat (4 * k)) s) mod 4096 mod 4 = (unat a + 4 * k) mod 4096 mod 4" by (simp only: o)
  then show "unat (word_loc (a + of_nat (4 * k)) s) mod 4 = 0" using a4 by (simp add: mod_mod_cancel)
qed

lemma words_mapped_Suc:
  assumes "words_mapped (Suc n) a s" "0 < n"
  shows "words_mapped n (a + 4) s"
proof -
  have "unat (a + 4) = unat a + 4" using unat_word_at [OF assms(1), of 1] assms(2) by simp
  moreover have "mapped 4 (a + 4 + of_nat (4 * k)) s" if "k < n" for k
    using words_mapped_at(1) [OF assms(1), of "Suc k"] that by (simp add: ac_simps)
  ultimately show ?thesis using assms(1) by (auto simp: words_mapped_def)
qed

lemma take_word: "take_bit 32 (ucast (r :: u32) :: u64) = ucast r"
  by (rule bit_word_eqI) (auto simp: bit_take_bit_iff bit_unsigned_iff dest: bit_imp_le_length)

lemma stmw_regs_words:
  assumes "\<not> dsi_pending s" "words_mapped n a s"
  shows "\<exists>m. stmw_regs bus n i a s = s\<lparr>physical_base := m\<rparr> \<and>
    (\<forall>k < n. read_be 4 (word_loc (a + of_nat (4 * k)) s) m = ucast (gpr s (i + k))) \<and>
    (\<forall>j. unat j mod 4 = 0 \<and> (\<forall>k < n. unat j mod 4096 \<noteq> (unat a + 4 * k) mod 4096) \<longrightarrow> read_be 4 j m = read_be 4 j (physical_base s))"
  using assms
proof (induction n arbitrary: i a s)
  case (Suc n)
  note at = words_mapped_at [OF Suc.prems(2), of 0, simplified]
  define s1 where "s1 = s\<lparr>physical_base := write_be 4 (word_loc a s) (ucast (gpr s i)) (physical_base s)\<rparr>"
  have st: "stmw_regs bus (Suc n) i a s = stmw_regs bus n (i + 1) (a + 4) s1"
    using word_access(1) [OF at(1,2,3)] Suc.prems(1) by (simp add: s1_def)
  have first: "read_be 4 (word_loc a s) (physical_base s1) = ucast (gpr s i)"
    by (simp add: s1_def read_write_be take_word)
  show ?case
  proof (cases "n = 0")
    case True
    then show ?thesis using st first at(4,5) by (auto simp: s1_def intro!: exI read_other_word)
  next
    case False
    note w = words_mapped_Suc [OF Suc.prems(2)]
    have u4: "unat (a + 4) = unat a + 4" using unat_word_at [OF Suc.prems(2), of 1] False by simp
    obtain m where m: "stmw_regs bus n (i + 1) (a + 4) s1 = s1\<lparr>physical_base := m\<rparr>"
      "\<And>k. k < n \<Longrightarrow> read_be 4 (word_loc (a + 4 + of_nat (4 * k)) s1) m = ucast (gpr s1 (i + 1 + k))"
      "\<And>j. unat j mod 4 = 0 \<and> (\<forall>k < n. unat j mod 4096 \<noteq> (unat (a + 4) + 4 * k) mod 4096) \<Longrightarrow> read_be 4 j m = read_be 4 j (physical_base s1)"
      using Suc.IH [of s1 "a + 4" "i + 1"] w Suc.prems(1) False by (auto simp: s1_def)
    have n32: "n < 32" using Suc.prems(2) by (simp add: words_mapped_def)
    have apart: "unat a mod 4096 \<noteq> (unat a + 4 + 4 * k) mod 4096" if "k < n" for k
      using that n32 mod_eq_dvd_iff_nat [of "unat a" "unat a + 4 + 4 * k" 4096] by (auto dest!: dvd_imp_le)
    have "read_be 4 (word_loc a s) m = ucast (gpr s i)" using m(3) [of "word_loc a s"] first at(4,5) apart u4 by simp
    then have "read_be 4 (word_loc (a + of_nat (4 * k)) s) m = ucast (gpr s (i + k))" if "k < Suc n" for k
      using that m(2) [of "k - 1"] by (cases k) (auto simp: s1_def ac_simps)
    moreover have "read_be 4 j m = read_be 4 j (physical_base s)"
      if h: "unat j mod 4 = 0" "\<forall>k < Suc n. unat j mod 4096 \<noteq> (unat a + 4 * k) mod 4096" for j
    proof -
      have "\<forall>k < n. unat j mod 4096 \<noteq> (unat (a + 4) + 4 * k) mod 4096"
        using h(2) u4 by (metis (no_types, opaque_lifting) Suc_less_eq add.assoc mult_Suc_right)
      then have "read_be 4 j m = read_be 4 j (physical_base s1)" using m(3) h(1) by simp
      moreover have "read_be 4 j (physical_base s1) = read_be 4 j (physical_base s)"
        unfolding s1_def using h at(4,5) by (auto intro!: read_other_word dest: spec [of _ 0])
      ultimately show ?thesis by simp
    qed
    ultimately show ?thesis using st m(1) by (auto simp: s1_def intro!: exI [of _ m])
  qed
qed (auto intro!: exI [of _ "physical_base _"])

lemma lmw_regs_words:
  assumes "\<not> dsi_pending s" "words_mapped n a s"
  shows "lmw_regs bus n i a s = Some (s\<lparr>gpr := \<lambda>r. if i \<le> r \<and> r < i + n
    then ucast (read_be 4 (word_loc (a + of_nat (4 * (r - i))) s) (physical_base s)) else gpr s r\<rparr>)"
  using assms
proof (induction n arbitrary: i a s)
  case (Suc n)
  note at = words_mapped_at [OF Suc.prems(2), of 0, simplified]
  define s1 where "s1 = s\<lparr>gpr := (gpr s)(i := ucast (read_be 4 (word_loc a s) (physical_base s)))\<rparr>"
  have st: "lmw_regs bus (Suc n) i a s = lmw_regs bus n (i + 1) (a + 4) s1"
    using word_access(2) [OF at(1,2,3)] Suc.prems(1) by (simp add: s1_def set_gpr_def)
  show ?case
  proof (cases "n = 0")
    case True
    have "(gpr s)(i := ucast (read_be 4 (word_loc a s) (physical_base s))) =
      (\<lambda>r. if i \<le> r \<and> r < i + 1 then ucast (read_be 4 (word_loc (a + of_nat (4 * (r - i))) s) (physical_base s)) else gpr s r)"
      by (auto simp: fun_eq_iff)
    then show ?thesis using st True by (simp add: s1_def)
  next
    case False
    note w = words_mapped_Suc [OF Suc.prems(2)]
    have "(\<lambda>r. if i + 1 \<le> r \<and> r < i + 1 + n then ucast (read_be 4 (word_loc (a + 4 + of_nat (4 * (r - (i + 1)))) s1) (physical_base s1)) else gpr s1 r)
      = (\<lambda>r. if i \<le> r \<and> r < i + Suc n then ucast (read_be 4 (word_loc (a + of_nat (4 * (r - i))) s) (physical_base s)) else gpr s r)"
    proof (rule ext)
      fix r
      have "a + 4 + of_nat (4 * (r - (i + 1))) = a + of_nat (4 * (r - i))" if "i < r"
        using that by (simp add: of_nat_diff algebra_simps)
      then show "(if i + 1 \<le> r \<and> r < i + 1 + n then ucast (read_be 4 (word_loc (a + 4 + of_nat (4 * (r - (i + 1)))) s1) (physical_base s1)) else gpr s1 r)
        = (if i \<le> r \<and> r < i + Suc n then ucast (read_be 4 (word_loc (a + of_nat (4 * (r - i))) s) (physical_base s)) else gpr s r)"
        by (auto simp: s1_def)
    qed
    then show ?thesis using st Suc.IH [of s1 "a + 4" "i + 1"] w Suc.prems(1) False by (simp add: s1_def)
  qed
next
  case 0
  have "(\<lambda>r. if i \<le> r \<and> r < i + 0 then ucast (read_be 4 (word_loc (a + of_nat (4 * (r - i))) s) (physical_base s)) else gpr s r) = gpr s"
    by (rule ext) auto
  then show ?case by (simp only: lmw_regs.simps) simp
qed

section \<open>Properties\<close>

lemma set_gpr_mem [simp]: "set_gpr r v (s\<lparr>physical_base := m\<rparr>) = (set_gpr r v s)\<lparr>physical_base := m\<rparr>"
  "mapped n a (set_gpr r v s) = mapped n a s" "byte_loc a (set_gpr r v s) = byte_loc a s" "dsi_pending (set_gpr r v t) = dsi_pending t"
  "physical_base (set_gpr r v s) = physical_base s"
  by (simp_all add: set_gpr_def)

lemma aligned_4: "(a :: u32) AND 3 = 0 \<longleftrightarrow> unat a mod 4 = 0"
proof -
  have "(3 :: u32) = mask 2" by (simp add: mask_eq_exp_minus_1)
  then have "unat (a AND 3) = unat a mod 4" by (simp only: unat_and_mask) simp
  then show ?thesis by (metis unat_eq_zero)
qed

lemma back_word: "ucast (ucast r :: u64) = (r :: u32)"
  by (rule bit_word_eqI) (auto simp: bit_unsigned_iff)

lemma mapped_loc: "mapped n a s \<Longrightarrow> 0 < n \<Longrightarrow> \<exists>j. byte_loc a s = Some j"
  by (auto simp: mapped_def dest: spec [of _ 0])

text \<open>A store with update to an aligned word, as a function pushes its frame, and the load through the new pointer.\<close>

lemma update_pair:
  assumes "\<not> dsi_pending s" "mapped 4 (Helper_Get_EA_U i s) s" "Helper_Get_EA_U i s AND 3 = 0"
    and "Helper_Get_EA j (stwu bus i s) = Helper_Get_EA_U i s"
  shows "gpr (stwu bus i s) (RA i) = Helper_Get_EA_U i s \<and>
    lwz bus j (stwu bus i s) = Some (set_gpr (RD j) (gpr s (RS i)) (stwu bus i s))"
proof -
  let ?a = "Helper_Get_EA_U i s"
  obtain l where l: "byte_loc ?a s = Some l" using mapped_loc [OF assms(2)] by auto
  define t where "t = set_gpr (RA i) ?a s"
  define m where "m = write_be 4 l (ucast (gpr s (RS i))) (physical_base s)"
  have st: "stwu bus i s = t\<lparr>physical_base := m\<rparr>"
    using word_access(1) [OF assms(2) _ l] assms(1,3) by (simp add: stwu_def store_gpr_update_def store_gpr_def aligned_4 t_def m_def)
  have "Read_U bus 4 ?a (stwu bus i s) = Some (read_be 4 l m, stwu bus i s)"
    unfolding st using word_access(2) [of ?a "t\<lparr>physical_base := m\<rparr>" l] assms(2,3) l by (simp add: t_def aligned_4)
  moreover have "read_be 4 l m = ucast (gpr s (RS i))" by (simp add: m_def read_write_be take_word)
  moreover have "\<not> dsi_pending (stwu bus i s)" using assms(1) by (simp add: st t_def)
  ultimately show ?thesis using assms(4) by (simp add: lwz_def load_gpr_def) (simp add: st t_def set_gpr_def back_word)
qed

lemma take_word_back: "ucast (ucast v :: u32) = (take_bit 32 v :: u64)"
  by (rule bit_word_eqI) (auto simp: bit_unsigned_iff bit_take_bit_iff)

lemma read_word: "ucast (ucast (read_be 4 l m) :: u32) = read_be 4 l m"
  unfolding take_word_back
  using read_be_high [of 4 _ l m] by (intro bit_word_eqI) (simp add: bit_take_bit_iff, metis not_less)

lemma SO_small: "xer_ok s \<Longrightarrow> GetXER_SO s < 16" "xer_ok s \<Longrightarrow> 2 OR GetXER_SO s < 16"
  by (auto simp: xer_ok_SO)


lemma map_same [simp]:
  "byte_loc a (SetCRField f v s) = byte_loc a s" "mapped n a (SetCRField f v s) = mapped n a s"
  "byte_loc a (t\<lparr>m_reserve := b\<rparr>) = byte_loc a t" "mapped n a (t\<lparr>m_reserve := b\<rparr>) = mapped n a t"
  "byte_loc a (t\<lparr>m_reserve_address := q\<rparr>) = byte_loc a t" "mapped n a (t\<lparr>m_reserve_address := q\<rparr>) = mapped n a t"
  by (rule same_map; simp add: SetCRField_def)+

lemma field_same [simp]:
  "physical_base (SetCRField f v s) = physical_base s" "m_reserve (SetCRField f v t) = m_reserve t" "gpr (SetCRField f v s) = gpr s"
  "GetXER_SO (SetCRField f v s) = GetXER_SO s" "dsi_pending (SetCRField f v s) = dsi_pending s"
  "GetXER_SO (t\<lparr>m_reserve := b\<rparr>) = GetXER_SO t" "dsi_pending (t\<lparr>m_reserve := b\<rparr>) = dsi_pending t"
  "GetXER_SO (t\<lparr>m_reserve_address := q\<rparr>) = GetXER_SO t" "dsi_pending (t\<lparr>m_reserve_address := q\<rparr>) = dsi_pending t"
  by (simp_all add: SetCRField_def GetXER_SO_def dsi_pending_def)

lemma GetXER_SO_same [simp]: "GetXER_SO (s\<lparr>physical_base := m\<rparr>) = GetXER_SO s" "GetXER_SO (set_gpr r v t) = GetXER_SO t"
  by (simp_all add: GetXER_SO_def set_gpr_def)

text \<open>A conditional store to a mapped, aligned word, with and without a reservation of its address.\<close>

lemma stwcxd_store:
  assumes "\<not> dsi_pending s" "mapped 4 a s" "a AND 3 = 0" "Helper_Get_EA_X i s = a" "byte_loc a s = Some l"
  shows "m_reserve s \<Longrightarrow> m_reserve_address s = a \<Longrightarrow>
      stwcxd bus i s = SetCRField 0 (2 OR GetXER_SO s) (s\<lparr>physical_base := write_be 4 l (ucast (gpr s (RS i))) (physical_base s), m_reserve := False\<rparr>)"
  using assms word_access(1) [OF assms(2) _ assms(5), of bus "ucast (gpr s (RS i))"]
  by (auto simp: stwcxd_def aligned_4 Let_def)

lemma stwcxd_fails:
  "Helper_Get_EA_X i s AND 3 = 0 \<Longrightarrow> \<not> (m_reserve s \<and> Helper_Get_EA_X i s = m_reserve_address s) \<Longrightarrow>
    stwcxd bus i s = SetCRField 0 (GetXER_SO s) s"
  by (auto simp: stwcxd_def Let_def)

lemma lwarx_reserves:
  assumes "\<not> dsi_pending s" "mapped 4 a s" "a AND 3 = 0" "Helper_Get_EA_X i s = a" "byte_loc a s = Some l"
  shows "lwarx bus i s = Some ((set_gpr (RD i) (ucast (read_be 4 l (physical_base s))) s)\<lparr>m_reserve := True, m_reserve_address := a\<rparr>)"
  using assms word_access(2) [OF assms(2) _ assms(5), of bus] by (simp add: lwarx_def aligned_4)

lemma float_misaligned:
  "Helper_Get_EA i s AND 3 \<noteq> 0 \<Longrightarrow> stfd bus i s = GenerateAlignmentException (Helper_Get_EA i s) s"
  "Helper_Get_EA i s AND 3 \<noteq> 0 \<Longrightarrow> stfs bus i s = GenerateAlignmentException (Helper_Get_EA i s) s"
  "Helper_Get_EA i s AND 3 \<noteq> 0 \<Longrightarrow> lfd bus i s = Some (GenerateAlignmentException (Helper_Get_EA i s) s)"
  "Helper_Get_EA i s AND 3 \<noteq> 0 \<Longrightarrow> lfs bus i s = Some (GenerateAlignmentException (Helper_Get_EA i s) s)"
  by (simp_all add: stfd_def stfs_def lfd_def lfs_def store_float_def load_double_def load_single_def)

text \<open>
  C18. What the store instructions write, the load instructions read. Let the bytes of the access be in memory, by real
  addressing or by block translation with aligned tables, and not run past the end of the address space, with no memory check set and no DSI pending.
  A load that addresses what a store has just written gets the register stored: at any address words, halfwords (zero or sign extended)
  and bytes, byte-reversed words and halfwords (a reversed load of a plain store swaps the bytes); at a multiple of 4, doubles, and singles whose register holds
  the double of a single. A store with update to a multiple of 4 leaves its address in rA, and the word is read back through it. At other addresses
  the loads and stores of doubles and singles raise the alignment exception and do nothing else.
\<close>

theorem loads_read_stores:
  assumes "\<not> dsi_pending s"
  shows
    "(\<forall>i j. mapped 4 (Helper_Get_EA i s) s \<and> Helper_Get_EA j s = Helper_Get_EA i s \<longrightarrow>
        lwz bus j (stw bus i s) = Some (set_gpr (RD j) (gpr s (RS i)) (stw bus i s))) \<and>
     (\<forall>i j. mapped 2 (Helper_Get_EA i s) s \<and> Helper_Get_EA j s = Helper_Get_EA i s \<longrightarrow>
        lhz bus j (sth bus i s) = Some (set_gpr (RD j) (ucast (ucast (gpr s (RS i)) :: u16)) (sth bus i s)) \<and>
        lha bus j (sth bus i s) = Some (set_gpr (RD j) (scast (ucast (gpr s (RS i)) :: u16)) (sth bus i s))) \<and>
     (\<forall>i j. mapped 1 (Helper_Get_EA i s) s \<and> Helper_Get_EA j s = Helper_Get_EA i s \<longrightarrow>
        lbz bus j (stb bus i s) = Some (set_gpr (RD j) (ucast (ucast (gpr s (RS i)) :: u8)) (stb bus i s))) \<and>
     (\<forall>i j. mapped 4 (Helper_Get_EA_X i s) s \<and> Helper_Get_EA_X j s = Helper_Get_EA_X i s \<longrightarrow>
        lwbrx bus j (stwbrx bus i s) = Some (set_gpr (RD j) (gpr s (RS i)) (stwbrx bus i s)) \<and>
        lwbrx bus j (stwx bus i s) = Some (set_gpr (RD j) (swap32 (gpr s (RS i))) (stwx bus i s))) \<and>
     (\<forall>i j. mapped 2 (Helper_Get_EA_X i s) s \<and> Helper_Get_EA_X j s = Helper_Get_EA_X i s \<longrightarrow>
        lhbrx bus j (sthbrx bus i s) = Some (set_gpr (RD j) (ucast (ucast (gpr s (RS i)) :: u16)) (sthbrx bus i s))) \<and>
     (\<forall>i j. mapped 8 (Helper_Get_EA i s) s \<and> Helper_Get_EA j s = Helper_Get_EA i s \<and> Helper_Get_EA i s AND 3 = 0 \<longrightarrow>
        lfd bus j (stfd bus i s) = Some (set_ps (FD j) (ps0 s (FS i)) (ps1 s (FD j)) (stfd bus i s))) \<and>
     (\<forall>i j v. mapped 4 (Helper_Get_EA i s) s \<and> Helper_Get_EA j s = Helper_Get_EA i s \<and> Helper_Get_EA i s AND 3 = 0 \<and> ConvertToDouble v = Some (ps0 s (FS i)) \<longrightarrow>
        lfs bus j (stfs bus i s) = Some (set_ps (FD j) (ps0 s (FS i)) (ps0 s (FS i)) (stfs bus i s))) \<and>
     (\<forall>i j. mapped 4 (Helper_Get_EA_U i s) s \<and> Helper_Get_EA_U i s AND 3 = 0 \<and> Helper_Get_EA j (stwu bus i s) = Helper_Get_EA_U i s \<longrightarrow>
        gpr (stwu bus i s) (RA i) = Helper_Get_EA_U i s \<and>
        lwz bus j (stwu bus i s) = Some (set_gpr (RD j) (gpr s (RS i)) (stwu bus i s))) \<and>
     (\<forall>i. Helper_Get_EA i s AND 3 \<noteq> 0 \<longrightarrow>
        stfd bus i s = GenerateAlignmentException (Helper_Get_EA i s) s \<and> stfs bus i s = GenerateAlignmentException (Helper_Get_EA i s) s \<and>
        lfd bus i s = Some (GenerateAlignmentException (Helper_Get_EA i s) s) \<and>
        lfs bus i s = Some (GenerateAlignmentException (Helper_Get_EA i s) s))"
  by (intro conjI allI impI; (elim conjE)?)
    (rule float_misaligned word_pairs double_pair single_pair update_pair [THEN conjunct1] update_pair [THEN conjunct2]; (rule assms | assumption))+

text \<open>
  C19. \<^verbatim>\<open>stmw\<close> and \<^verbatim>\<open>lmw\<close> save and restore registers. With the words in memory and aligned, in big-endian mode and no DSI pending: after
  \<^verbatim>\<open>stmw\<close> from rS on, whatever the general registers hold by then, an \<^verbatim>\<open>lmw\<close> of the same registers from the same address restores
  rS to r31 and touches no other register nor memory, also when the words lie on two pages.
\<close>

theorem registers_saved:
  assumes "\<not> dsi_pending s" "\<not> MSR_LE s" "words_mapped (32 - RS i) (Helper_Get_EA i s) s"
    and "RD j = RS i" "Helper_Get_EA j ((stmw bus i s)\<lparr>gpr := g\<rparr>) = Helper_Get_EA i s"
  shows "lmw bus j ((stmw bus i s)\<lparr>gpr := g\<rparr>) =
    Some ((stmw bus i s)\<lparr>gpr := \<lambda>r. if RS i \<le> r \<and> r < 32 then gpr s r else g r\<rparr>)"
proof -
  let ?a = "Helper_Get_EA i s" and ?n = "32 - RS i"
  have n: "RS i + ?n = 32" by (rule le_add_diff_inverse) (simp add: less_imp_le)
  have al: "?a AND 3 = 0" using assms(3) by (simp add: words_mapped_def aligned_4)
  obtain m where m: "stmw_regs bus ?n (RS i) ?a s = s\<lparr>physical_base := m\<rparr>"
    "\<And>k. k < ?n \<Longrightarrow> read_be 4 (word_loc (?a + of_nat (4 * k)) s) m = ucast (gpr s (RS i + k))"
    using stmw_regs_words [OF assms(1,3), of bus "RS i"] by blast
  define t where "t = s\<lparr>physical_base := m, gpr := g\<rparr>"
  have t: "(stmw bus i s)\<lparr>gpr := g\<rparr> = t" using m(1) al assms(2) by (simp add: stmw_def t_def)
  have "lmw bus j t = lmw_regs bus ?n (RS i) ?a t" using assms(2,4,5) al unfolding t by (simp add: lmw_def t_def)
  also have "\<dots> = Some (t\<lparr>gpr := \<lambda>r. if RS i \<le> r \<and> r < RS i + ?n
    then ucast (read_be 4 (word_loc (?a + of_nat (4 * (r - RS i))) t) (physical_base t)) else gpr t r\<rparr>)"
    by (rule lmw_regs_words) (use assms(1,3) in \<open>simp_all add: t_def\<close>)
  also have "(\<lambda>r. if RS i \<le> r \<and> r < RS i + ?n then ucast (read_be 4 (word_loc (?a + of_nat (4 * (r - RS i))) t) (physical_base t)) else gpr t r)
    = (\<lambda>r. if RS i \<le> r \<and> r < 32 then gpr s r else g r)"
  proof (rule ext)
    fix r
    show "(if RS i \<le> r \<and> r < RS i + ?n then ucast (read_be 4 (word_loc (?a + of_nat (4 * (r - RS i))) t) (physical_base t)) else gpr t r)
      = (if RS i \<le> r \<and> r < 32 then gpr s r else g r)"
      unfolding n using m(2) [of "r - RS i"] by (auto simp: t_def back_word simp del: of_nat_mult of_nat_diff)
  qed
  finally have "lmw bus j t = Some (t\<lparr>gpr := \<lambda>r. if RS i \<le> r \<and> r < 32 then gpr s r else g r\<rparr>)" .
  moreover have "(stmw bus i s)\<lparr>gpr := h\<rparr> = t\<lparr>gpr := h\<rparr>" for h using m(1) al assms(2) by (simp add: stmw_def t_def)
  ultimately show ?thesis using t by metis
qed

text \<open>
  C20. A reservation is good for one store. On an aligned word in memory, \<^verbatim>\<open>lwarx\<close> loads the word and reserves it; the next
  \<^verbatim>\<open>stwcx.\<close> to that address stores its register and reports success in CR0, and after it no \<^verbatim>\<open>stwcx.\<close>, wherever it goes, stores
  anything or reports success until there is another reservation. A \<^verbatim>\<open>stwcx.\<close> to another address than the reserved one fails too.
\<close>

theorem reservation_once:
  assumes "\<not> dsi_pending s" "xer_ok s" "mapped 4 a s" "a AND 3 = 0" "Helper_Get_EA_X i s = a"
  shows "\<exists>s1. lwarx bus i s = Some s1 \<and> Read_U bus 4 a s = Some (ucast (gpr s1 (RD i)), s) \<and>
    (\<forall>k. Helper_Get_EA_X k s1 = a \<longrightarrow>
       (let s2 = stwcxd bus k s1
        in GetCRField 0 s2 = 2 OR GetXER_SO s \<and> Read_U bus 4 a s2 = Some (ucast (gpr s1 (RS k)), s2) \<and>
           (\<forall>k'. Helper_Get_EA_X k' s2 AND 3 = 0 \<longrightarrow> stwcxd bus k' s2 = SetCRField 0 (GetXER_SO s) s2))) \<and>
    (\<forall>k. Helper_Get_EA_X k s1 \<noteq> a \<and> Helper_Get_EA_X k s1 AND 3 = 0 \<longrightarrow> stwcxd bus k s1 = SetCRField 0 (GetXER_SO s) s1)"
proof -
  obtain l where l: "byte_loc a s = Some l" using mapped_loc [OF assms(3)] by auto
  have al: "unat a mod 4 = 0" using assms(4) by (simp add: aligned_4)
  define s1 where "s1 = (set_gpr (RD i) (ucast (read_be 4 l (physical_base s))) s)\<lparr>m_reserve := True, m_reserve_address := a\<rparr>"
  have lw: "lwarx bus i s = Some s1" using lwarx_reserves [OF assms(1,3-5) l] by (simp add: s1_def)
  have m1: "\<not> dsi_pending s1" "mapped 4 a s1" "byte_loc a s1 = Some l" "m_reserve s1" "m_reserve_address s1 = a" "GetXER_SO s1 = GetXER_SO s"
    using assms(1,3) l by (simp_all add: s1_def)
  have r: "Read_U bus 4 a s = Some (ucast (gpr s1 (RD i)), s)"
    using word_access(2) [OF assms(3) al l] by (simp add: s1_def set_gpr_def read_word)
  have "GetCRField 0 (stwcxd bus k s1) = 2 OR GetXER_SO s \<and> Read_U bus 4 a (stwcxd bus k s1) = Some (ucast (gpr s1 (RS k)), stwcxd bus k s1) \<and>
      (\<forall>k'. Helper_Get_EA_X k' (stwcxd bus k s1) AND 3 = 0 \<longrightarrow> stwcxd bus k' (stwcxd bus k s1) = SetCRField 0 (GetXER_SO s) (stwcxd bus k s1))"
    if k: "Helper_Get_EA_X k s1 = a" for k
  proof -
    define s2 where "s2 = stwcxd bus k s1"
    have s2: "s2 = SetCRField 0 (2 OR GetXER_SO s) (s1\<lparr>physical_base := write_be 4 l (ucast (gpr s1 (RS k))) (physical_base s1), m_reserve := False\<rparr>)"
      unfolding s2_def using stwcxd_store [OF m1(1,2) assms(4) k m1(3-5), of bus] by (simp add: m1(6))
    have "GetCRField 0 s2 = 2 OR GetXER_SO s" by (simp add: s2 GetCRField_SetCRField SO_small [OF assms(2)])
    moreover have "Read_U bus 4 a s2 = Some (ucast (gpr s1 (RS k)), s2)"
      using word_access(2) [of a s2 l bus] m1(2,3) al by (simp add: s2 read_write_be take_word)
    moreover have "stwcxd bus k' s2 = SetCRField 0 (GetXER_SO s) s2" if "Helper_Get_EA_X k' s2 AND 3 = 0" for k'
      using stwcxd_fails [OF that, of bus] m1(6) by (simp add: s2)
    ultimately show ?thesis by (simp add: s2_def)
  qed
  moreover have "stwcxd bus k s1 = SetCRField 0 (GetXER_SO s) s1" if "Helper_Get_EA_X k s1 \<noteq> a" "Helper_Get_EA_X k s1 AND 3 = 0" for k
    using stwcxd_fails [OF that(2), of bus] m1(5,6) that(1) by simp
  ultimately show ?thesis using lw r by (auto simp: Let_def)
qed

section \<open>A machine\<close>

text \<open>Real addressing, with r1 and r2 pointing into memory.\<close>

definition ls_machine :: LS_State where
  "ls_machine = IC_State.extend (fetch_machine\<lparr>ppc_msr := 0, ppc_Exceptions := 0, xer_ca := 0, xer_so_ov := 0, gpr := (\<lambda>_. 0)(1 := 0x1000, 3 := 0x12345678, 31 := 0x99)\<rparr>)
    (LS_State.fields (\<lambda>_. 0x3FF0000000000000) (\<lambda>_. 0) False 0 False)"

definition ls_bus :: "LS_State Bus" where
  "ls_bus = \<lparr>bus_read = \<lambda>_ _ s. (0, s), bus_write = \<lambda>_ _ _ s. s\<rparr>"

lemma ls_machine_fields [simp]:
  "ppc_msr ls_machine = 0" "gpr ls_machine = (\<lambda>_. 0)(1 := 0x1000, 3 := 0x12345678, 31 := 0x99)" "m_mem_checks ls_machine = []"
  "dbat_table ls_machine = (\<lambda>n. if n = 0 then 3 else 0)" "ppc_Exceptions ls_machine = 0" "xer_ca ls_machine = 0" "xer_so_ov ls_machine = 0"
  by (simp_all add: ls_machine_def fetch_machine_def MMU_State.defs IC_State.defs LS_State.defs page_mmu_def CPU_State.defs blank_cpu_def
      ST_State.defs blank_st_def)

lemma ls_machine_ready: "\<not> dsi_pending ls_machine" "xer_ok ls_machine"
  by (simp_all add: dsi_pending_def xer_ok_def)

lemma ls_machine_mapped: "unat a + n \<le> 0x8000000 \<Longrightarrow> mapped n a ls_machine"
proof -
  assume a: "unat a + n \<le> 0x8000000"
  have high: "(0xF8000000 :: u32) = NOT (mask 27)" by (simp add: mask_eq_exp_minus_1)
  have "byte_loc (a + of_nat k) ls_machine \<noteq> None" if "k < n" for k
  proof -
    have "unat (a + of_nat k) < 0x8000000" using a that by (simp add: unat_word_ariths unat_of_nat)
    then have "(a + of_nat k) AND 0xF8000000 = 0"
      using small_word [of "a + of_nat k" 27] unfolding high by (auto intro!: bit_word_eqI simp: bit_and_iff bit_not_iff bit_mask_iff)
    then show ?thesis by (simp add: byte_loc_def data_phys_def ram_index_def)
  qed
  then show ?thesis using a by (simp add: mapped_def bat_aligned_def)
qed

text \<open>\<^verbatim>\<open>stw r3, 8(r1)\<close> and \<^verbatim>\<open>lwz r4, 8(r1)\<close>.\<close>

theorem loads_read_stores_witness:
  "map_option (\<lambda>s. gpr s 4) (lwz ls_bus 0x80810008 (stw ls_bus 0x90610008 ls_machine)) = Some 0x12345678"
proof -
  have ea: "Helper_Get_EA 0x90610008 ls_machine = 0x1008" "Helper_Get_EA 0x80810008 ls_machine = 0x1008" by code_simp+
  have f: "RS 0x90610008 = 3" "RD 0x80810008 = 4" by code_simp+
  have "lwz ls_bus 0x80810008 (stw ls_bus 0x90610008 ls_machine) =
    Some (set_gpr (RD 0x80810008) (gpr ls_machine (RS 0x90610008)) (stw ls_bus 0x90610008 ls_machine))"
    using loads_read_stores [OF ls_machine_ready(1), where bus = ls_bus, THEN conjunct1] ls_machine_mapped [of "0x1008" 4] ea by simp
  then show ?thesis unfolding f by (simp add: set_gpr_def)
qed

text \<open>\<^verbatim>\<open>stmw r30, 0xFFC(r1)\<close>, then the register file cleared but for r1, then \<^verbatim>\<open>lmw r30, 0xFFC(r1)\<close>.\<close>

theorem registers_saved_witness:
  "map_option (\<lambda>s. map (gpr s) [29, 30, 31]) (lmw ls_bus 0xBBC10FFC ((stmw ls_bus 0xBFC10FFC ls_machine)\<lparr>gpr := (\<lambda>_. 7)(1 := 0x1000)\<rparr>))
    = Some [7, 0, 0x99]"
proof -
  have f: "RS 0xBFC10FFC = 30" "RD 0xBBC10FFC = 30" by code_simp+
  have ea: "Helper_Get_EA 0xBFC10FFC ls_machine = 0x1FFC" by code_simp
  have ea2: "Helper_Get_EA 0xBBC10FFC ((stmw ls_bus 0xBFC10FFC ls_machine)\<lparr>gpr := (\<lambda>_. 7)(1 := 0x1000)\<rparr>) = 0x1FFC" by code_simp
  have two: "k = 0 \<or> k = 1" if "k < 2" for k :: nat using that by auto
  have w: "words_mapped (32 - RS 0xBFC10FFC) (Helper_Get_EA 0xBFC10FFC ls_machine) ls_machine"
    unfolding f ea words_mapped_def by (auto dest!: two intro!: ls_machine_mapped)
  show ?thesis
    using registers_saved [OF ls_machine_ready(1) _ w, where j = "0xBBC10FFC" and bus = ls_bus and g = "(\<lambda>_. 7)(1 := 0x1000)"] unfolding ea ea2 f by simp
qed

text \<open>\<^verbatim>\<open>lwarx r5, 0, r1\<close>.\<close>

theorem reservation_once_witness:
  "\<exists>s1. lwarx ls_bus 0x7CA00828 ls_machine = Some s1 \<and> Read_U ls_bus 4 0x1000 ls_machine = Some (ucast (gpr s1 5), ls_machine)"
proof -
  have ea: "Helper_Get_EA_X 0x7CA00828 ls_machine = 0x1000" by code_simp
  have f: "RD 0x7CA00828 = 5" by code_simp
  show ?thesis using reservation_once [OF ls_machine_ready ls_machine_mapped [of "0x1000" 4] _ ea, where bus = ls_bus] unfolding f by auto
qed

end
