(* ===== verification/PPC_System.thy ===== *)
theory PPC_System
  imports PPC_LoadStoreSpec
begin

text \<open>
  The branch instructions (\<^verbatim>\<open>Interpreter_Branch.cpp\<close>) and the system register instructions
  (\<^verbatim>\<open>Interpreter_SystemRegisters.cpp\<close>), with the locked cache DMA of \<^verbatim>\<open>MMU.cpp\<close>. \<^verbatim>\<open>rSPR\<close> joins the special registers kept as
  fields of their own with the others. Assertions and alerts count in \<open>panics\<close>; the host's rounding mode is not modelled.
  The frame buffer and the device registers are reached through the \<open>Bus\<close>.
\<close>

section \<open>State\<close>

record SYS_State = LS_State +
  fpscr :: u32
  gather_pipe_count :: nat
  last_pc :: u32
  m_prev_inst :: u32

abbreviation (input) SPR_XER :: nat where "SPR_XER \<equiv> 1"
abbreviation (input) SPR_LR :: nat where "SPR_LR \<equiv> 8"
abbreviation (input) SPR_CTR :: nat where "SPR_CTR \<equiv> 9"
abbreviation (input) SPR_DEC :: nat where "SPR_DEC \<equiv> 22"
abbreviation (input) SPR_SRR0 :: nat where "SPR_SRR0 \<equiv> 26"
abbreviation (input) SPR_SRR1 :: nat where "SPR_SRR1 \<equiv> 27"
abbreviation (input) SPR_TL :: nat where "SPR_TL \<equiv> 268"
abbreviation (input) SPR_TU :: nat where "SPR_TU \<equiv> 269"
abbreviation (input) SPR_TL_W :: nat where "SPR_TL_W \<equiv> 284"
abbreviation (input) SPR_TU_W :: nat where "SPR_TU_W \<equiv> 285"
abbreviation (input) SPR_PVR :: nat where "SPR_PVR \<equiv> 287"
abbreviation (input) SPR_WPAR :: nat where "SPR_WPAR \<equiv> 921"
abbreviation (input) SPR_DMAU :: nat where "SPR_DMAU \<equiv> 922"
abbreviation (input) SPR_DMAL :: nat where "SPR_DMAL \<equiv> 923"
abbreviation (input) SPR_HID1 :: nat where "SPR_HID1 \<equiv> 1009"

abbreviation (input) LK :: "u32 \<Rightarrow> bool" where "LK inst \<equiv> bit inst 0"
abbreviation (input) AA :: "u32 \<Rightarrow> bool" where "AA inst \<equiv> bit inst 1"
abbreviation (input) BI :: "u32 \<Rightarrow> nat" where "BI \<equiv> inst_field 16 5"
abbreviation (input) CRBD :: "u32 \<Rightarrow> nat" where "CRBD \<equiv> inst_field 21 5"
abbreviation (input) CRBA :: "u32 \<Rightarrow> nat" where "CRBA \<equiv> inst_field 16 5"
abbreviation (input) CRBB :: "u32 \<Rightarrow> nat" where "CRBB \<equiv> inst_field 11 5"
abbreviation (input) CRFS :: "u32 \<Rightarrow> nat" where "CRFS \<equiv> inst_field 18 3"
abbreviation (input) SR :: "u32 \<Rightarrow> nat" where "SR \<equiv> inst_field 16 4"
abbreviation (input) FB :: "u32 \<Rightarrow> nat" where "FB \<equiv> inst_field 11 5"

text \<open>Bit \<open>k\<close> of \<^verbatim>\<open>BO\<close>, from the least significant one.\<close>

abbreviation (input) BO :: "nat \<Rightarrow> u32 \<Rightarrow> bool" where "BO k inst \<equiv> bit inst (21 + k)"

definition rSPR :: "nat \<Rightarrow> 'a CPU_State_scheme \<Rightarrow> u32" where
  "rSPR i s =
    (if i = SPR_DEC then spr_DEC s else if i = SPR_SRR0 then ppc_srr0 s else if i = SPR_SRR1 then ppc_srr1 s
     else if i = SPR_TL then spr_TL s else if i = SPR_TU then spr_TU s else spr s i)"

definition set_rSPR :: "nat \<Rightarrow> u32 \<Rightarrow> 'a CPU_State_scheme \<Rightarrow> 'a CPU_State_scheme" where
  "set_rSPR i v s =
    (if i = SPR_DEC then s\<lparr>spr_DEC := v\<rparr> else if i = SPR_SRR0 then s\<lparr>ppc_srr0 := v\<rparr> else if i = SPR_SRR1 then s\<lparr>ppc_srr1 := v\<rparr>
     else if i = SPR_TL then s\<lparr>spr_TL := v\<rparr> else if i = SPR_TU then s\<lparr>spr_TU := v\<rparr> else set_spr i v s)"

section \<open>Branches\<close>

definition SignExt16 :: "u16 \<Rightarrow> u32" where
  "SignExt16 x = scast x"

definition SignExt26 :: "u32 \<Rightarrow> u32" where
  "SignExt26 x = (if x AND 0x2000000 \<noteq> 0 then x OR 0xFC000000 else x)"

definition HostRead_U32 :: "'a MMU_State_scheme Bus \<Rightarrow> u32 \<Rightarrow> 'a MMU_State_scheme \<Rightarrow> (u32 \<times> 'a MMU_State_scheme) option" where
  "HostRead_U32 bus address s = map_option (\<lambda>(v, s1). (ucast v, s1)) (ReadFromHardware bus NoException 4 address s)"

definition bx :: "u32 \<Rightarrow> 'a CPU_State_scheme \<Rightarrow> 'a CPU_State_scheme" where
  "bx inst s =
    (let s1 = (if LK inst then set_spr SPR_LR (ppc_pc s + 4) s else s);
         target = SignExt26 (push_bit 2 (of_nat (inst_field 2 24 inst)));
         s2 = s1\<lparr>ppc_npc := (if AA inst then target else ppc_pc s1 + target), ppc_end_block := True\<rparr>
     in if ppc_npc s2 = ppc_pc s2 then Idle s2 else s2)"

text \<open>The branch of \<^verbatim>\<open>bcx\<close> itself, before the detection of the idle loop.\<close>

definition bcx_branch :: "u32 \<Rightarrow> 'a CPU_State_scheme \<Rightarrow> 'a CPU_State_scheme" where
  "bcx_branch inst s =
    (let s1 = (if \<not> BO 2 inst then set_spr SPR_CTR (spr s SPR_CTR - 1) s else s);
         true_false = BO 3 inst;
         only_counter_check = BO 4 inst;
         only_condition_check = BO 2 inst;
         ctr_check = ((spr s1 SPR_CTR \<noteq> 0) \<noteq> BO 1 inst);
         counter = (only_condition_check \<or> ctr_check);
         condition = (only_counter_check \<or> GetCRBit (BI inst) s1 = of_bool true_false);
         target = SignExt16 (push_bit 2 (of_nat (inst_field 2 14 inst)));
         s2 = (if counter \<and> condition then
                 (let s' = (if LK inst then set_spr SPR_LR (ppc_pc s1 + 4) s1 else s1)
                  in s'\<lparr>ppc_npc := (if AA inst then target else ppc_pc s' + target)\<rparr>)
               else s1)
     in s2\<lparr>ppc_end_block := True\<rparr>)"

definition bcx :: "'a MMU_State_scheme Bus \<Rightarrow> u32 \<Rightarrow> 'a MMU_State_scheme \<Rightarrow> 'a MMU_State_scheme option" where
  "bcx bus inst s =
    (let s3 = bcx_branch inst s
     in if ppc_npc s3 = ppc_pc s3 - 8 \<and> inst = 0x4182fff8 then
          (case HostRead_U32 bus (ppc_pc s3 - 8) s3 of
             None \<Rightarrow> None
           | Some (v, s4) \<Rightarrow>
               if drop_bit 16 v = 0x800D then
                 map_option (\<lambda>(last_inst, s5). if last_inst = 0x28000000 \<or> last_inst = 0x2C000000 \<and> bWii s5 then Idle s5 else s5)
                   (HostRead_U32 bus (ppc_pc s4 - 4) s4)
               else Some s4)
        else Some s3)"

definition bcctrx :: "u32 \<Rightarrow> 'a CPU_State_scheme \<Rightarrow> 'a CPU_State_scheme" where
  "bcctrx inst s =
    (let condition = (BO 4 inst \<or> GetCRBit (BI inst) s = of_bool (BO 3 inst));
         s1 = (if condition then
                 (let s' = s\<lparr>ppc_npc := spr s SPR_CTR AND NOT 3\<rparr>
                  in if LK inst then set_spr SPR_LR (ppc_pc s' + 4) s' else s')
               else s)
     in s1\<lparr>ppc_end_block := True\<rparr>)"

definition bclrx :: "u32 \<Rightarrow> 'a CPU_State_scheme \<Rightarrow> 'a CPU_State_scheme" where
  "bclrx inst s =
    (let s1 = (if \<not> BO 2 inst then set_spr SPR_CTR (spr s SPR_CTR - 1) s else s);
         counter = (BO 2 inst \<or> ((spr s1 SPR_CTR \<noteq> 0) \<noteq> BO 1 inst));
         condition = (BO 4 inst \<or> GetCRBit (BI inst) s1 = of_bool (BO 3 inst));
         s2 = (if counter \<and> condition then
                 (let s' = s1\<lparr>ppc_npc := spr s1 SPR_LR AND NOT 3\<rparr>
                  in if LK inst then set_spr SPR_LR (ppc_pc s' + 4) s' else s')
               else s1)
     in s2\<lparr>ppc_end_block := True\<rparr>)"

definition sc :: "u32 \<Rightarrow> 'a CPU_State_scheme \<Rightarrow> 'a CPU_State_scheme" where
  "sc inst s = (CheckExceptions (s\<lparr>ppc_Exceptions := ppc_Exceptions s OR EXCEPTION_SYSCALL\<rparr>))\<lparr>ppc_end_block := True\<rparr>"

section \<open>The floating point status\<close>

definition put_bit :: "nat \<Rightarrow> bool \<Rightarrow> u32 \<Rightarrow> u32" where
  "put_bit k b w = (if b then w OR push_bit k 1 else w AND NOT (push_bit k 1))"

abbreviation (input) FPSCR_VX_ANY :: u32 where "FPSCR_VX_ANY \<equiv> 0x01F80700"
abbreviation (input) FPSCR_ANY_X :: u32 where "FPSCR_ANY_X \<equiv> 0x1FF80700"

text \<open>Assignment to the register as a whole leaves its reserved bit 0.\<close>

definition set_FPSCR :: "u32 \<Rightarrow> 'a SYS_State_scheme \<Rightarrow> 'a SYS_State_scheme" where
  "set_FPSCR v s = s\<lparr>fpscr := v AND 0xFFFFF7FF\<rparr>"

definition SetFPException :: "u32 \<Rightarrow> 'a SYS_State_scheme \<Rightarrow> 'a SYS_State_scheme" where
  "SetFPException flags s =
    (let f1 = (if fpscr s AND flags \<noteq> flags then put_bit 31 True (fpscr s) else fpscr s);
         f2 = f1 OR flags
     in s\<lparr>fpscr := put_bit 29 (f2 AND FPSCR_VX_ANY \<noteq> 0) f2\<rparr>)"

definition UpdateFPSCR :: "'a SYS_State_scheme \<Rightarrow> 'a SYS_State_scheme" where
  "UpdateFPSCR s =
    (let f = put_bit 29 (fpscr s AND FPSCR_VX_ANY \<noteq> 0) (fpscr s)
     in s\<lparr>fpscr := put_bit 30 (bit f 29 \<and> bit f 7 \<or> bit f 28 \<and> bit f 6 \<or> bit f 27 \<and> bit f 5 \<or> bit f 26 \<and> bit f 4
            \<or> bit f 25 \<and> bit f 3) f\<rparr>)"

definition Helper_UpdateCR1 :: "'a SYS_State_scheme \<Rightarrow> 'a SYS_State_scheme" where
  "Helper_UpdateCR1 s =
    SetCRField 1 (push_bit 3 (of_bool (bit (fpscr s) 31)) OR push_bit 2 (of_bool (bit (fpscr s) 30))
      OR push_bit 1 (of_bool (bit (fpscr s) 29)) OR of_bool (bit (fpscr s) 28)) s"

definition mtfsb0x :: "u32 \<Rightarrow> 'a SYS_State_scheme \<Rightarrow> 'a SYS_State_scheme" where
  "mtfsb0x inst s =
    (let b = drop_bit (CRBD inst) 0x80000000;
         s1 = s\<lparr>fpscr := fpscr s AND NOT b\<rparr>
     in if Rc inst then Helper_UpdateCR1 s1 else s1)"

definition mtfsb1x :: "u32 \<Rightarrow> 'a SYS_State_scheme \<Rightarrow> 'a SYS_State_scheme" where
  "mtfsb1x inst s =
    (let b = drop_bit (CRBD inst) 0x80000000;
         s1 = (if b AND FPSCR_ANY_X \<noteq> 0 then SetFPException b s else s\<lparr>fpscr := fpscr s OR (b AND 0xFFFFF7FF)\<rparr>)
     in if Rc inst then Helper_UpdateCR1 s1 else s1)"

definition mtfsfix :: "u32 \<Rightarrow> 'a SYS_State_scheme \<Rightarrow> 'a SYS_State_scheme" where
  "mtfsfix inst s =
    (let mask = drop_bit (4 * CRFD inst) 0xF0000000;
         imm = push_bit 16 inst AND 0xF0000000;
         s1 = set_FPSCR ((fpscr s AND NOT mask) OR drop_bit (4 * CRFD inst) imm) s
     in if Rc inst then Helper_UpdateCR1 s1 else s1)"

text \<open>The loop that widens a mask of eight bits to one of eight fields.\<close>

definition field_mask :: "nat \<Rightarrow> u32" where
  "field_mask m = fold (\<lambda>i mask. if bit m i then mask OR push_bit (i * 4) 0xF else mask) [0..<8] 0"

definition mtfsfx :: "u32 \<Rightarrow> 'a SYS_State_scheme \<Rightarrow> 'a SYS_State_scheme" where
  "mtfsfx inst s =
    (let m = field_mask (inst_field 17 8 inst);
         s1 = set_FPSCR ((fpscr s AND NOT m) OR (ucast (ps0 s (FB inst)) AND m)) s
     in if Rc inst then Helper_UpdateCR1 s1 else s1)"

definition mcrfs :: "u32 \<Rightarrow> 'a SYS_State_scheme \<Rightarrow> 'a SYS_State_scheme" where
  "mcrfs inst s =
    (let s1 = UpdateFPSCR s;
         fpflags = drop_bit (4 * (7 - CRFS inst)) (fpscr s1) AND 0xF;
         clear = (if CRFS inst = 0 then [31, 28] else if CRFS inst = 1 then [27, 26, 25, 24]
                  else if CRFS inst = 2 then [23, 22, 21, 20] else if CRFS inst = 3 then [19]
                  else if CRFS inst = 5 then [10, 9, 8] else [])
     in SetCRField (CRFD inst) fpflags (s1\<lparr>fpscr := fold (\<lambda>k. put_bit k False) clear (fpscr s1)\<rparr>))"

definition mffsx :: "u32 \<Rightarrow> 'a SYS_State_scheme \<Rightarrow> 'a SYS_State_scheme" where
  "mffsx inst s =
    (let s1 = UpdateFPSCR s;
         s2 = set_ps (FD inst) (0xFFF8000000000000 OR ucast (fpscr s1)) (ps1 s1 (FD inst)) s1
     in if Rc inst then Helper_UpdateCR1 s2 else s2)"

section \<open>The condition register\<close>

definition mcrxr :: "u32 \<Rightarrow> 'a CPU_State_scheme \<Rightarrow> 'a CPU_State_scheme" where
  "mcrxr inst s = (SetCRField (CRFD inst) (drop_bit 28 (GetXER s)) s)\<lparr>xer_ca := 0, xer_so_ov := 0\<rparr>"

definition mfcr :: "u32 \<Rightarrow> 'a CPU_State_scheme \<Rightarrow> 'a CPU_State_scheme" where
  "mfcr inst s = set_gpr (RD inst) (CompactCR s) s"

definition mtcrf :: "u32 \<Rightarrow> 'a CPU_State_scheme \<Rightarrow> 'a CPU_State_scheme" where
  "mtcrf inst s =
    (let crm = inst_field 12 8 inst
     in if crm = 0xFF then ExpandCR (gpr s (RS inst)) s
        else let mask = field_mask crm in ExpandCR ((CompactCR s AND NOT mask) OR (gpr s (RS inst) AND mask)) s)"

definition crand :: "u32 \<Rightarrow> 'a CPU_State_scheme \<Rightarrow> 'a CPU_State_scheme" where
  "crand inst s = SetCRBit (CRBD inst) (GetCRBit (CRBA inst) s AND GetCRBit (CRBB inst) s) s"

definition crandc :: "u32 \<Rightarrow> 'a CPU_State_scheme \<Rightarrow> 'a CPU_State_scheme" where
  "crandc inst s = SetCRBit (CRBD inst) (GetCRBit (CRBA inst) s AND (1 XOR GetCRBit (CRBB inst) s)) s"

definition creqv :: "u32 \<Rightarrow> 'a CPU_State_scheme \<Rightarrow> 'a CPU_State_scheme" where
  "creqv inst s = SetCRBit (CRBD inst) (1 XOR (GetCRBit (CRBA inst) s XOR GetCRBit (CRBB inst) s)) s"

definition crnand :: "u32 \<Rightarrow> 'a CPU_State_scheme \<Rightarrow> 'a CPU_State_scheme" where
  "crnand inst s = SetCRBit (CRBD inst) (1 XOR (GetCRBit (CRBA inst) s AND GetCRBit (CRBB inst) s)) s"

definition crnor :: "u32 \<Rightarrow> 'a CPU_State_scheme \<Rightarrow> 'a CPU_State_scheme" where
  "crnor inst s = SetCRBit (CRBD inst) (1 XOR (GetCRBit (CRBA inst) s OR GetCRBit (CRBB inst) s)) s"

definition cror :: "u32 \<Rightarrow> 'a CPU_State_scheme \<Rightarrow> 'a CPU_State_scheme" where
  "cror inst s = SetCRBit (CRBD inst) (GetCRBit (CRBA inst) s OR GetCRBit (CRBB inst) s) s"

definition crorc :: "u32 \<Rightarrow> 'a CPU_State_scheme \<Rightarrow> 'a CPU_State_scheme" where
  "crorc inst s = SetCRBit (CRBD inst) (GetCRBit (CRBA inst) s OR (1 XOR GetCRBit (CRBB inst) s)) s"

definition crxor :: "u32 \<Rightarrow> 'a CPU_State_scheme \<Rightarrow> 'a CPU_State_scheme" where
  "crxor inst s = SetCRBit (CRBD inst) (GetCRBit (CRBA inst) s XOR GetCRBit (CRBB inst) s) s"

definition mcrf :: "u32 \<Rightarrow> 'a CPU_State_scheme \<Rightarrow> 'a CPU_State_scheme" where
  "mcrf inst s = SetCRField (CRFD inst) (GetCRField (CRFS inst) s) s"

definition isync :: "u32 \<Rightarrow> 'a CPU_State_scheme \<Rightarrow> 'a CPU_State_scheme" where
  "isync inst s = s"

section \<open>Machine state and segment registers\<close>

definition mfmsr :: "u32 \<Rightarrow> 'a CPU_State_scheme \<Rightarrow> 'a CPU_State_scheme" where
  "mfmsr inst s = (if MSR_PR s then GenerateProgramException s else set_gpr (RD inst) (ppc_msr s) s)"

definition mfsr :: "u32 \<Rightarrow> 'a CPU_State_scheme \<Rightarrow> 'a CPU_State_scheme" where
  "mfsr inst s = (if MSR_PR s then GenerateProgramException s else set_gpr (RD inst) (sr s (SR inst)) s)"

definition mfsrin :: "u32 \<Rightarrow> 'a CPU_State_scheme \<Rightarrow> 'a CPU_State_scheme" where
  "mfsrin inst s =
    (if MSR_PR s then GenerateProgramException s
     else set_gpr (RD inst) (sr s (unat (drop_bit 28 (gpr s (RB inst)) AND 0xF))) s)"

definition mtmsr :: "u32 \<Rightarrow> 'a CPU_State_scheme \<Rightarrow> 'a CPU_State_scheme" where
  "mtmsr inst s =
    (if MSR_PR s then GenerateProgramException s
     else (CheckExceptions (s\<lparr>ppc_msr := gpr s (RS inst)\<rparr>))\<lparr>ppc_end_block := True\<rparr>)"

definition SetSR :: "nat \<Rightarrow> u32 \<Rightarrow> 'a CPU_State_scheme \<Rightarrow> 'a CPU_State_scheme" where
  "SetSR index v s = s\<lparr>sr := (sr s)(index := v)\<rparr>"

definition mtsr :: "u32 \<Rightarrow> 'a CPU_State_scheme \<Rightarrow> 'a CPU_State_scheme" where
  "mtsr inst s = (if MSR_PR s then GenerateProgramException s else SetSR (SR inst) (gpr s (RS inst)) s)"

definition mtsrin :: "u32 \<Rightarrow> 'a CPU_State_scheme \<Rightarrow> 'a CPU_State_scheme" where
  "mtsrin inst s =
    (if MSR_PR s then GenerateProgramException s
     else SetSR (unat (drop_bit 28 (gpr s (RB inst)) AND 0xF)) (gpr s (RS inst)) s)"

section \<open>The locked cache DMA\<close>

text \<open>The cache is the part of memory at \<open>0xE0000000\<close>. \<^verbatim>\<open>GetPointer\<close> raises an alert when it fails.\<close>

definition l1_index :: "u32 \<Rightarrow> u32" where
  "l1_index a = 0xE0000000 + (a AND 0x3FFFF)"

definition copy_bytes :: "u32 \<Rightarrow> u32 \<Rightarrow> nat \<Rightarrow> (u32 \<Rightarrow> u8) \<Rightarrow> u32 \<Rightarrow> u8" where
  "copy_bytes dst src n mem x = (if unat (x - dst) < n then mem (src + (x - dst)) else mem x)"

definition DMA_LCToMemory ::
  "'a MMU_State_scheme Bus \<Rightarrow> u32 \<Rightarrow> u32 \<Rightarrow> nat \<Rightarrow> 'a MMU_State_scheme \<Rightarrow> 'a MMU_State_scheme" where
  "DMA_LCToMemory bus mem_address cache_address num_blocks s =
    (if mem_address AND 0x0F000000 = 0x08000000 \<or> mem_address AND 0x0F000000 = 0x0C000000
     then fold (\<lambda>i s. bus_write bus 4 (mem_address + of_nat (4 * i)) (read_be 4 (l1_index (cache_address + of_nat (4 * i))) (physical_base s)) s)
            [0..<8 * num_blocks] s
     else case mem_pointer mem_address s of
            None \<Rightarrow> s\<lparr>panics := panics s + 1\<rparr>
          | Some dst \<Rightarrow> s\<lparr>physical_base := copy_bytes dst (l1_index cache_address) (32 * num_blocks) (physical_base s)\<rparr>)"

definition DMA_MemoryToLC ::
  "'a MMU_State_scheme Bus \<Rightarrow> u32 \<Rightarrow> u32 \<Rightarrow> nat \<Rightarrow> 'a MMU_State_scheme \<Rightarrow> 'a MMU_State_scheme" where
  "DMA_MemoryToLC bus cache_address mem_address num_blocks s =
    (let src = mem_pointer mem_address s;
         s1 = (if src = None then s\<lparr>panics := panics s + 1\<rparr> else s)
     in if mem_address AND 0x0F000000 = 0x08000000 \<or> mem_address AND 0x0F000000 = 0x0C000000
        then fold (\<lambda>i s. let (v, s1) = bus_read bus 4 (mem_address + of_nat (4 * i)) s
                     in s1\<lparr>physical_base := write_be 4 (l1_index (cache_address + of_nat (4 * i))) (take_bit 32 v) (physical_base s1)\<rparr>)
               [0..<8 * num_blocks] s1
        else case src of
               None \<Rightarrow> s1
             | Some p \<Rightarrow> s1\<lparr>physical_base := copy_bytes (l1_index cache_address) p (32 * num_blocks) (physical_base s1)\<rparr>)"

section \<open>Special registers\<close>

definition spr_index :: "u32 \<Rightarrow> nat" where
  "spr_index inst = 32 * inst_field 11 5 inst + inst_field 16 5 inst"

definition mfspr :: "u32 \<Rightarrow> 'a CPU_State_scheme \<Rightarrow> 'a CPU_State_scheme" where
  "mfspr inst s =
    (let index = spr_index inst
     in if MSR_PR s \<and> index \<notin> {SPR_XER, SPR_LR, SPR_CTR, SPR_TL, SPR_TU} then GenerateProgramException s
        else let s1 = (if index = SPR_DEC then snd (mfspr_DEC s)
                       else if index = SPR_TL \<or> index = SPR_TU then WriteFullTimeBaseValue (GetFakeTimeBase s) s
                       else if index = SPR_WPAR then set_rSPR index (rSPR index s AND NOT 1) s
                       else if index = SPR_XER then set_rSPR index (GetXER s) s
                       else s)
             in set_gpr (RD inst) (rSPR index s1) s1)"

definition mftb :: "u32 \<Rightarrow> 'a CPU_State_scheme \<Rightarrow> 'a CPU_State_scheme" where
  "mftb inst s = mfspr inst s"

definition is_ibat :: "nat \<Rightarrow> bool" where
  "is_ibat i \<longleftrightarrow> 528 \<le> i \<and> i \<le> 535 \<or> 560 \<le> i \<and> i \<le> 567"

definition is_dbat :: "nat \<Rightarrow> bool" where
  "is_dbat i \<longleftrightarrow> 536 \<le> i \<and> i \<le> 543 \<or> 568 \<le> i \<and> i \<le> 575"

text \<open>A write of \<^verbatim>\<open>DMAL\<close>: the transfer it triggers, and the trigger bit cleared.\<close>

definition dma_trigger :: "'a MMU_State_scheme Bus \<Rightarrow> 'a MMU_State_scheme \<Rightarrow> 'a MMU_State_scheme" where
  "dma_trigger bus s =
    (let dmau = spr s SPR_DMAU; dmal = spr s SPR_DMAL;
         mem_address = push_bit 5 (drop_bit 5 dmau);
         cache_address = push_bit 5 (drop_bit 5 dmal);
         len = unat (push_bit 2 (take_bit 5 dmau) OR take_bit 2 (drop_bit 2 dmal));
         len = (if len = 0 then 128 else len);
         s1 = (if bit dmal 1 then
                 (if bit dmal 4 then DMA_MemoryToLC bus cache_address mem_address len s
                  else DMA_LCToMemory bus mem_address cache_address len s)
               else s)
     in set_spr SPR_DMAL (spr s1 SPR_DMAL AND NOT 2) s1)"

definition mtspr :: "'a SYS_State_scheme Bus \<Rightarrow> u32 \<Rightarrow> 'a SYS_State_scheme \<Rightarrow> 'a SYS_State_scheme" where
  "mtspr bus inst s =
    (let index = spr_index inst; v = gpr s (RD inst)
     in if MSR_PR s \<and> index \<notin> {SPR_XER, SPR_LR, SPR_CTR} then GenerateProgramException s
        else let old_value = rSPR index s; s1 = set_rSPR index v s
             in if index = SPR_TL \<or> index = SPR_TU then s1\<lparr>panics := panics s1 + 1\<rparr>
                else if index = SPR_TL_W then mtspr_TL_W v s1
                else if index = SPR_TU_W then mtspr_TU_W v s1
                else if index = SPR_PVR then set_rSPR index old_value s1
                else if index = SPR_HID0 then
                  (if bit v 11 then (set_rSPR index (put_bit 11 False v) s1)\<lparr>iCache := Reset_ic (iCache s1)\<rparr> else s1)
                else if index = SPR_HID1 then set_rSPR index (rSPR index s1 AND 0xF8000000) s1
                else if index = SPR_HID4 then (if old_value \<noteq> rSPR index s1 then DBATUpdated (IBATUpdated s1) else s1)
                else if index = SPR_WPAR then
                  (if v = 0x0C008000 then s1 else s1\<lparr>panics := panics s1 + 1\<rparr>)\<lparr>gather_pipe_count := 0\<rparr>
                else if index = SPR_DMAL then dma_trigger bus s1
                else if index = SPR_DEC then mtspr_DEC v s
                else if index = SPR_SDR then SDRUpdated s1
                else if index = SPR_XER then SetXER (rSPR index s1) s1
                else if is_dbat index then (if old_value \<noteq> rSPR index s1 then DBATUpdated s1 else s1)
                else if is_ibat index then (if old_value \<noteq> rSPR index s1 then IBATUpdated s1 else s1)
                else s1)"

section \<open>Special registers\<close>

text \<open>What is read back of \<open>v\<close> written to register \<open>k\<close> that held \<open>old\<close>.\<close>

definition spr_readback :: "nat \<Rightarrow> u32 \<Rightarrow> u32 \<Rightarrow> u32" where
  "spr_readback k v old =
    (if k = SPR_PVR then old
     else if k = SPR_HID0 then v AND NOT 0x800
     else if k = SPR_HID1 then v AND 0xF8000000
     else if k = SPR_WPAR then v AND NOT 1
     else if k = SPR_XER then v AND 0xE000FF7F
     else v)"

lemma updates_keep:
  "spr (DBATUpdated s) = spr s" "spr (IBATUpdated s) = spr s" "spr (SDRUpdated s) = spr s" "ppc_msr (SDRUpdated s) = ppc_msr s"
  "ppc_srr0 (DBATUpdated s) = ppc_srr0 s"
  by (simp_all add: DBATUpdated_def IBATUpdated_def SDRUpdated_def Let_def)

lemma GetXER_SetXER: "GetXER (SetXER x s) = x AND 0xE000FF7F"
proof -
  have a: "take_bit 7 (ucast x) + push_bit 8 (take_bit 8 (drop_bit 8 (ucast x))) = (take_bit 7 (ucast x) OR push_bit 8 (take_bit 8 (drop_bit 8 (ucast x))) :: u16)"
    by (rule disjunctive_add_eq_or) (rule bit_word_eqI, auto simp: bit_simps)
  have c: "xer_stringctrl (SetXER x s) = (take_bit 7 (ucast x) OR push_bit 8 (take_bit 8 (drop_bit 8 (ucast x))))"
    "xer_ca (SetXER x s) = of_bool (bit x 29)" "xer_so_ov (SetXER x s) = (of_bool (bit x 30) OR push_bit 1 (of_bool (bit x 31)))"
    using a by (simp_all add: SetXER_def)
  have m: "(0xE000FF7F :: u32) = mask 7 OR push_bit 8 (mask 8) OR push_bit 29 (mask 3)" by (simp add: mask_eq_exp_minus_1)
  show ?thesis
  proof (rule bit_word_eqI)
    fix n assume "n < LENGTH(32)"
    then have n: "n < 32" by simp
    have "bit (ucast (xer_stringctrl (SetXER x s)) :: u32) n \<longleftrightarrow> bit x n \<and> (n < 7 \<or> 8 \<le> n \<and> n < 16)"
      unfolding c by (auto simp: bit_unsigned_iff bit_or_iff bit_take_bit_iff bit_push_bit_iff bit_drop_bit_eq)
    moreover have "bit (push_bit 29 (ucast (xer_ca (SetXER x s))) :: u32) n \<longleftrightarrow> bit x n \<and> n = 29"
      unfolding c using n by (auto simp: bit_push_bit_iff bit_unsigned_iff bit_of_bool_iff)
    moreover have "bit (push_bit 30 (ucast (xer_so_ov (SetXER x s))) :: u32) n \<longleftrightarrow> bit x n \<and> (n = 30 \<or> n = 31)"
    proof -
      consider "n < 30" | "n = 30" | "n = 31" using n by linarith
      then show ?thesis
        unfolding c by cases (simp_all add: bit_push_bit_iff bit_unsigned_iff bit_or_iff)
    qed
    moreover have "bit (x AND 0xE000FF7F) n \<longleftrightarrow> bit x n \<and> (n < 7 \<or> 8 \<le> n \<and> n < 16 \<or> 29 \<le> n)"
      unfolding m using n by (auto simp: bit_and_iff bit_or_iff bit_mask_iff bit_push_bit_iff)
    ultimately show "bit (GetXER (SetXER x s)) n = bit (x AND 0xE000FF7F) n"
      using n by (auto simp: GetXER_def bit_or_iff)
  qed
qed

lemma put_bit_11: "put_bit 11 False v = v AND NOT 0x800"
  by (simp add: put_bit_def)

lemma clear_unset: "\<not> bit (v :: u32) k \<Longrightarrow> v AND NOT (push_bit k 1) = v"
  by (rule bit_word_eqI) (auto simp: bit_and_iff bit_not_iff bit_exp_iff)

text \<open>The state after \<^verbatim>\<open>mtspr\<close> in supervisor mode, as far as \<^verbatim>\<open>mfspr\<close> reads it.\<close>

lemma mtspr_value:
  assumes "\<not> MSR_PR s" "spr_index i = k" "k \<notin> {SPR_DEC, SPR_TL, SPR_TU}" "k = SPR_DMAL \<longrightarrow> \<not> bit (gpr s (RD i)) 1"
  shows "ppc_msr (mtspr bus i s) = ppc_msr s"
    "k = SPR_XER \<Longrightarrow> GetXER (mtspr bus i s) = gpr s (RD i) AND 0xE000FF7F"
    "k \<noteq> SPR_XER \<Longrightarrow> k \<noteq> SPR_WPAR \<Longrightarrow> rSPR k (mtspr bus i s) = spr_readback k (gpr s (RD i)) (rSPR k s)"
    "k = SPR_WPAR \<Longrightarrow> rSPR k (mtspr bus i s) = gpr s (RD i)"
proof -
  define v where "v = gpr s (RD i)"
  note d = mtspr_def Let_def set_rSPR_def rSPR_def set_spr_def spr_readback_def v_def [symmetric]
  note t = mtspr_TL_W_def mtspr_TU_W_def TimeBaseSet_def SetFakeTBStartValue_def SetFakeTBStartTicks_def ReadFullTimeBaseValue_def
  show "ppc_msr (mtspr bus i s) = ppc_msr s"
    using assms by (simp add: d t DBATUpdated_def IBATUpdated_def updates_keep SetXER_def dma_trigger_def)
  show "k = SPR_XER \<Longrightarrow> GetXER (mtspr bus i s) = gpr s (RD i) AND 0xE000FF7F"
    using assms(1-3) by (simp add: d GetXER_SetXER)
  show "k \<noteq> SPR_XER \<Longrightarrow> k \<noteq> SPR_WPAR \<Longrightarrow> rSPR k (mtspr bus i s) = spr_readback k (gpr s (RD i)) (rSPR k s)"
    using assms clear_unset [of v 11] clear_unset [of v 1]
    by (auto simp: d t DBATUpdated_def IBATUpdated_def updates_keep dma_trigger_def put_bit_11)
  show "k = SPR_WPAR \<Longrightarrow> rSPR k (mtspr bus i s) = gpr s (RD i)"
    using assms(1-3) by (simp add: d)
qed

text \<open>
  C21. Special registers are read back. In supervisor mode, \<^verbatim>\<open>mfspr\<close> after \<^verbatim>\<open>mtspr\<close> to the same register gives the value written, except
  that PVR keeps its value, HID1 its upper five bits only, HID0 loses the cache flush bit, WPAR its busy bit and XER
  the bits it does not define. (The decrementer and the time base count on, and a write of DMAL that starts a transfer is not included.) In user mode
  either instruction, on any register but XER, LR and CTR (and the time base for reading), changes nothing but to raise a program exception.
\<close>

theorem spr_roundtrip:
  assumes "spr_index i = k" "spr_index j = k"
  shows "(\<not> MSR_PR s \<and> k \<notin> {SPR_DEC, SPR_TL, SPR_TU} \<and> (k = SPR_DMAL \<longrightarrow> \<not> bit (gpr s (RD i)) 1) \<longrightarrow>
      gpr (mfspr j (mtspr bus i s)) (RD j) = spr_readback k (gpr s (RD i)) (rSPR k s)) \<and>
    (MSR_PR s \<and> k \<notin> {SPR_XER, SPR_LR, SPR_CTR} \<longrightarrow> mtspr bus i s = GenerateProgramException s \<and>
      (k \<notin> {SPR_TL, SPR_TU} \<longrightarrow> mfspr j s = GenerateProgramException s))"
proof (intro conjI impI)
  assume h: "\<not> MSR_PR s \<and> k \<notin> {SPR_DEC, SPR_TL, SPR_TU} \<and> (k = SPR_DMAL \<longrightarrow> \<not> bit (gpr s (RD i)) 1)"
  define t where "t = mtspr bus i s"
  note v = mtspr_value [OF _ assms(1), of s bus, folded t_def]
  have pr: "\<not> MSR_PR t" using v(1) h by simp
  have "gpr (mfspr j t) (RD j) = (if k = SPR_WPAR then rSPR k t AND NOT 1 else if k = SPR_XER then GetXER t else rSPR k t)"
    using pr assms(2) h by (simp add: mfspr_def Let_def set_gpr_def rSPR_def set_rSPR_def set_spr_def)
  also have "\<dots> = spr_readback k (gpr s (RD i)) (rSPR k s)"
    using v(2-4) h by (auto simp: spr_readback_def)
  finally show "gpr (mfspr j (mtspr bus i s)) (RD j) = spr_readback k (gpr s (RD i)) (rSPR k s)" by (simp add: t_def)
next
  assume h: "MSR_PR s \<and> k \<notin> {SPR_XER, SPR_LR, SPR_CTR}"
  then show "mtspr bus i s = GenerateProgramException s" using assms(1) by (simp add: mtspr_def Let_def)
  assume "k \<notin> {SPR_TL, SPR_TU}"
  then show "mfspr j s = GenerateProgramException s" using h assms(2) by (simp add: mfspr_def Let_def)
qed

text \<open>A machine whose floating-point registers hold -2.5.\<close>

definition sys_machine :: SYS_State where
  "sys_machine = LS_State.extend (ls_machine\<lparr>ps0 := \<lambda>_. 0xC004000000000000\<rparr>) (SYS_State.fields 0 0 0 0)"

text \<open>\<^verbatim>\<open>mtspr HID1, r3\<close> and \<^verbatim>\<open>mfspr r4, HID1\<close>.\<close>

theorem spr_roundtrip_witness:
  "gpr (mfspr 0x7C91FAA6 (mtspr (undefined :: SYS_State Bus) 0x7C71FBA6 sys_machine)) 4 = 0x10000000"
proof -
  have k: "spr_index 0x7C71FBA6 = SPR_HID1" "spr_index 0x7C91FAA6 = SPR_HID1" "RD 0x7C71FBA6 = 3" "RD 0x7C91FAA6 = 4"
    by (simp_all add: spr_index_def inst_field_def)
  have m: "\<not> MSR_PR sys_machine" "gpr sys_machine 3 = 0x12345678"
    by (simp_all add: sys_machine_def LS_State.defs SYS_State.defs)
  show ?thesis
    using spr_roundtrip [OF k(1,2), of sys_machine "undefined :: SYS_State Bus"] m unfolding k(3,4) by (simp add: spr_readback_def)
qed

end
