(* ===== verification/PPC_FloatOps.thy ===== *)
theory PPC_FloatOps
  imports PPC_System
begin

text \<open>
  The floating-point instructions that do no rounding: moves and sign changes, selection, comparison and conversion to
  an integer towards zero (\<^verbatim>\<open>Interpreter_FloatingPoint.cpp\<close>, \<^verbatim>\<open>Interpreter_Paired.cpp\<close>). A double is its 64-bit pattern; the
  comparisons of C++ are defined on patterns and shown to be the order of the values. A move of a double keeps its
  pattern, as on a host with SSE registers; its denormals-are-zero mode is not modelled.
\<close>

section \<open>Doubles\<close>

definition dbl_exp :: "u64 \<Rightarrow> nat" where
  "dbl_exp d = unat (take_bit 11 (drop_bit 52 d))"

definition dbl_frac :: "u64 \<Rightarrow> nat" where
  "dbl_frac d = unat (take_bit 52 d)"

definition dbl_isnan :: "u64 \<Rightarrow> bool" where
  "dbl_isnan d \<longleftrightarrow> dbl_exp d = 2047 \<and> dbl_frac d \<noteq> 0"

definition IsSNAN :: "u64 \<Rightarrow> bool" where
  "IsSNAN d \<longleftrightarrow> d AND 0x7FF0000000000000 = 0x7FF0000000000000 \<and> d AND 0x000FFFFFFFFFFFFF \<noteq> 0 \<and> d AND 0x0008000000000000 = 0"

text \<open>\<^verbatim>\<open>a < b\<close>: the magnitudes are ordered as the patterns without sign, and the two zeros are equal.\<close>

definition dbl_less :: "u64 \<Rightarrow> u64 \<Rightarrow> bool" where
  "dbl_less a b \<longleftrightarrow>
    (let x = take_bit 63 a; y = take_bit 63 b
     in \<not> dbl_isnan a \<and> \<not> dbl_isnan b \<and>
        (if bit a 63 then (if bit b 63 then y < x else x \<noteq> 0 \<or> y \<noteq> 0)
         else \<not> bit b 63 \<and> x < y))"

text \<open>\<^verbatim>\<open>a >= -0.0\<close>.\<close>

definition dbl_ge_zero :: "u64 \<Rightarrow> bool" where
  "dbl_ge_zero d \<longleftrightarrow> \<not> dbl_isnan d \<and> \<not> dbl_less d 0x8000000000000000"

section \<open>Moves\<close>

abbreviation (input) FA :: "u32 \<Rightarrow> nat" where "FA \<equiv> inst_field 16 5"
abbreviation (input) FC :: "u32 \<Rightarrow> nat" where "FC \<equiv> inst_field 6 5"
abbreviation (input) SIGN :: u64 where "SIGN \<equiv> 0x8000000000000000"

text \<open>The end of a handler: with \<^verbatim>\<open>Rc\<close>, CR1 is updated.\<close>

definition rc1 :: "u32 \<Rightarrow> 'a SYS_State_scheme \<Rightarrow> 'a SYS_State_scheme" where
  "rc1 inst s = (if Rc inst then Helper_UpdateCR1 s else s)"

definition fmrx :: "u32 \<Rightarrow> 'a SYS_State_scheme \<Rightarrow> 'a SYS_State_scheme" where
  "fmrx inst s = rc1 inst (set_ps (FD inst) (ps0 s (FB inst)) (ps1 s (FD inst)) s)"

definition fabsx :: "u32 \<Rightarrow> 'a SYS_State_scheme \<Rightarrow> 'a SYS_State_scheme" where
  "fabsx inst s = rc1 inst (set_ps (FD inst) (ps0 s (FB inst) AND NOT SIGN) (ps1 s (FD inst)) s)"

definition fnabsx :: "u32 \<Rightarrow> 'a SYS_State_scheme \<Rightarrow> 'a SYS_State_scheme" where
  "fnabsx inst s = rc1 inst (set_ps (FD inst) (ps0 s (FB inst) OR SIGN) (ps1 s (FD inst)) s)"

definition fnegx :: "u32 \<Rightarrow> 'a SYS_State_scheme \<Rightarrow> 'a SYS_State_scheme" where
  "fnegx inst s = rc1 inst (set_ps (FD inst) (ps0 s (FB inst) XOR SIGN) (ps1 s (FD inst)) s)"

definition fselx :: "u32 \<Rightarrow> 'a SYS_State_scheme \<Rightarrow> 'a SYS_State_scheme" where
  "fselx inst s =
    rc1 inst (set_ps (FD inst) (if dbl_ge_zero (ps0 s (FA inst)) then ps0 s (FC inst) else ps0 s (FB inst)) (ps1 s (FD inst)) s)"

text \<open>\<^verbatim>\<open>ps_sel\<close> sets ps0 before it reads the operands of ps1, which it does not change.\<close>

definition ps_sel :: "u32 \<Rightarrow> 'a SYS_State_scheme \<Rightarrow> 'a SYS_State_scheme" where
  "ps_sel inst s =
    rc1 inst (set_ps (FD inst) (if dbl_ge_zero (ps0 s (FA inst)) then ps0 s (FC inst) else ps0 s (FB inst))
      (if dbl_ge_zero (ps1 s (FA inst)) then ps1 s (FC inst) else ps1 s (FB inst)) s)"

definition ps_neg :: "u32 \<Rightarrow> 'a SYS_State_scheme \<Rightarrow> 'a SYS_State_scheme" where
  "ps_neg inst s = rc1 inst (set_ps (FD inst) (ps0 s (FB inst) XOR SIGN) (ps1 s (FB inst) XOR SIGN) s)"

definition ps_mr :: "u32 \<Rightarrow> 'a SYS_State_scheme \<Rightarrow> 'a SYS_State_scheme" where
  "ps_mr inst s = rc1 inst (set_ps (FD inst) (ps0 s (FB inst)) (ps1 s (FB inst)) s)"

definition ps_nabs :: "u32 \<Rightarrow> 'a SYS_State_scheme \<Rightarrow> 'a SYS_State_scheme" where
  "ps_nabs inst s = rc1 inst (set_ps (FD inst) (ps0 s (FB inst) OR SIGN) (ps1 s (FB inst) OR SIGN) s)"

definition ps_abs :: "u32 \<Rightarrow> 'a SYS_State_scheme \<Rightarrow> 'a SYS_State_scheme" where
  "ps_abs inst s = rc1 inst (set_ps (FD inst) (ps0 s (FB inst) AND NOT SIGN) (ps1 s (FB inst) AND NOT SIGN) s)"

definition ps_merge00 :: "u32 \<Rightarrow> 'a SYS_State_scheme \<Rightarrow> 'a SYS_State_scheme" where
  "ps_merge00 inst s = rc1 inst (set_ps (FD inst) (ps0 s (FA inst)) (ps0 s (FB inst)) s)"

definition ps_merge01 :: "u32 \<Rightarrow> 'a SYS_State_scheme \<Rightarrow> 'a SYS_State_scheme" where
  "ps_merge01 inst s = rc1 inst (set_ps (FD inst) (ps0 s (FA inst)) (ps1 s (FB inst)) s)"

definition ps_merge10 :: "u32 \<Rightarrow> 'a SYS_State_scheme \<Rightarrow> 'a SYS_State_scheme" where
  "ps_merge10 inst s = rc1 inst (set_ps (FD inst) (ps1 s (FA inst)) (ps0 s (FB inst)) s)"

definition ps_merge11 :: "u32 \<Rightarrow> 'a SYS_State_scheme \<Rightarrow> 'a SYS_State_scheme" where
  "ps_merge11 inst s = rc1 inst (set_ps (FD inst) (ps1 s (FA inst)) (ps1 s (FB inst)) s)"

section \<open>Comparisons\<close>

abbreviation (input) FPSCR_VXSNAN :: u32 where "FPSCR_VXSNAN \<equiv> 0x01000000"
abbreviation (input) FPSCR_VXVC :: u32 where "FPSCR_VXVC \<equiv> 0x00080000"
abbreviation (input) FPSCR_VXCVI :: u32 where "FPSCR_VXCVI \<equiv> 0x00000100"
abbreviation (input) FPSCR_XX :: u32 where "FPSCR_XX \<equiv> 0x02000000"

text \<open>The condition of two operands: unordered, less, greater or equal.\<close>

definition compare_result :: "u64 \<Rightarrow> u64 \<Rightarrow> u32" where
  "compare_result fa fb =
    (if dbl_isnan fa \<or> dbl_isnan fb then 1 else if dbl_less fa fb then 8 else if dbl_less fb fa then 4 else 2)"

text \<open>The condition goes to the FPCC bits and to the field of the instruction.\<close>

definition set_compare :: "u32 \<Rightarrow> u32 \<Rightarrow> 'a SYS_State_scheme \<Rightarrow> 'a SYS_State_scheme" where
  "set_compare inst v s = SetCRField (CRFD inst) v (s\<lparr>fpscr := (fpscr s AND NOT 0xF000) OR push_bit 12 v\<rparr>)"

definition Helper_FloatCompareOrdered :: "u32 \<Rightarrow> u64 \<Rightarrow> u64 \<Rightarrow> 'a SYS_State_scheme \<Rightarrow> 'a SYS_State_scheme" where
  "Helper_FloatCompareOrdered inst fa fb s =
    set_compare inst (compare_result fa fb)
      (if dbl_isnan fa \<or> dbl_isnan fb then
         (if IsSNAN fa \<or> IsSNAN fb then
            (let s1 = SetFPException FPSCR_VXSNAN s in if \<not> bit (fpscr s1) 7 then SetFPException FPSCR_VXVC s1 else s1)
          else SetFPException FPSCR_VXVC s)
       else s)"

definition Helper_FloatCompareUnordered :: "u32 \<Rightarrow> u64 \<Rightarrow> u64 \<Rightarrow> 'a SYS_State_scheme \<Rightarrow> 'a SYS_State_scheme" where
  "Helper_FloatCompareUnordered inst fa fb s =
    set_compare inst (compare_result fa fb)
      (if (dbl_isnan fa \<or> dbl_isnan fb) \<and> (IsSNAN fa \<or> IsSNAN fb) then SetFPException FPSCR_VXSNAN s else s)"

definition fcmpo :: "u32 \<Rightarrow> 'a SYS_State_scheme \<Rightarrow> 'a SYS_State_scheme" where
  "fcmpo inst s = Helper_FloatCompareOrdered inst (ps0 s (FA inst)) (ps0 s (FB inst)) s"

definition fcmpu :: "u32 \<Rightarrow> 'a SYS_State_scheme \<Rightarrow> 'a SYS_State_scheme" where
  "fcmpu inst s = Helper_FloatCompareUnordered inst (ps0 s (FA inst)) (ps0 s (FB inst)) s"

definition ps_cmpu0 :: "u32 \<Rightarrow> 'a SYS_State_scheme \<Rightarrow> 'a SYS_State_scheme" where
  "ps_cmpu0 inst s = Helper_FloatCompareUnordered inst (ps0 s (FA inst)) (ps0 s (FB inst)) s"

definition ps_cmpo0 :: "u32 \<Rightarrow> 'a SYS_State_scheme \<Rightarrow> 'a SYS_State_scheme" where
  "ps_cmpo0 inst s = Helper_FloatCompareOrdered inst (ps0 s (FA inst)) (ps0 s (FB inst)) s"

definition ps_cmpu1 :: "u32 \<Rightarrow> 'a SYS_State_scheme \<Rightarrow> 'a SYS_State_scheme" where
  "ps_cmpu1 inst s = Helper_FloatCompareUnordered inst (ps1 s (FA inst)) (ps1 s (FB inst)) s"

definition ps_cmpo1 :: "u32 \<Rightarrow> 'a SYS_State_scheme \<Rightarrow> 'a SYS_State_scheme" where
  "ps_cmpo1 inst s = Helper_FloatCompareOrdered inst (ps1 s (FA inst)) (ps1 s (FB inst)) s"

section \<open>Conversion to an integer\<close>

text \<open>\<^verbatim>\<open>static_cast<s32>\<close> of a double in range: its value without the bits below the binary point.\<close>

definition dbl_trunc :: "u64 \<Rightarrow> int" where
  "dbl_trunc d =
    (let e = dbl_exp d;
         m = (if e = 0 then dbl_frac d else 2 ^ 52 + dbl_frac d);
         i = (if 1075 \<le> e then m * 2 ^ (e - 1075) else m div 2 ^ (1075 - e))
     in if bit d 63 then - int i else int i)"

text \<open>Whether that loses nothing: \<^verbatim>\<open>di == b\<close>.\<close>

definition dbl_integral :: "u64 \<Rightarrow> bool" where
  "dbl_integral d \<longleftrightarrow>
    (let e = dbl_exp d; m = (if e = 0 then dbl_frac d else 2 ^ 52 + dbl_frac d)
     in 1075 \<le> e \<or> m mod 2 ^ (1075 - e) = 0)"

definition ClearFIFR :: "'a SYS_State_scheme \<Rightarrow> 'a SYS_State_scheme" where
  "ClearFIFR s = s\<lparr>fpscr := put_bit 18 False (put_bit 17 False (fpscr s))\<rparr>"

definition SetFI :: "bool \<Rightarrow> 'a SYS_State_scheme \<Rightarrow> 'a SYS_State_scheme" where
  "SetFI fi s = (let s1 = (if fi then SetFPException FPSCR_XX s else s) in s1\<lparr>fpscr := put_bit 17 fi (fpscr s1)\<rparr>)"

text \<open>
  \<^verbatim>\<open>ConvertToInteger\<close> with \<^verbatim>\<open>RoundingMode::TowardsZero\<close>; the bounds are the patterns of 0x7fffffff and -0x80000000. The result is
  nowhere greater in magnitude than the operand, so FR is cleared.
\<close>

definition fctiwzx :: "u32 \<Rightarrow> 'a SYS_State_scheme \<Rightarrow> 'a SYS_State_scheme" where
  "fctiwzx inst s =
    (let b = ps0 s (FB inst);
         (v, invalid, s1) =
           (if dbl_isnan b then
              (0x80000000, True, SetFPException FPSCR_VXCVI (if IsSNAN b then SetFPException FPSCR_VXSNAN s else s))
            else if dbl_less 0x41DFFFFFFFC00000 b then (0x7fffffff, True, SetFPException FPSCR_VXCVI s)
            else if dbl_less b 0xC1E0000000000000 then (0x80000000, True, SetFPException FPSCR_VXCVI s)
            else (of_int (dbl_trunc b), False,
                  if dbl_integral b then ClearFIFR s
                  else let s' = SetFI True s in s'\<lparr>fpscr := put_bit 18 False (fpscr s')\<rparr>));
         s2 = (if invalid then ClearFIFR s1 else s1);
         r = 0xfff8000000000000 OR ucast (v :: u32);
         r' = (if v = 0 \<and> bit b 63 then r OR 0x100000000 else r);
         s3 = (if \<not> invalid \<or> \<not> bit (fpscr s2) 7 then set_ps (FD inst) r' (ps1 s2 (FD inst)) s2 else s2)
     in rc1 inst s3)"

section \<open>The order of the values\<close>

text \<open>The value of a double that is not a NaN, in units of \<open>2 ^ -1074\<close>; an infinity lies beyond every finite one.\<close>

definition dbl_mag :: "u64 \<Rightarrow> nat" where
  "dbl_mag d = (if dbl_exp d = 0 then dbl_frac d else (2 ^ 52 + dbl_frac d) * 2 ^ (dbl_exp d - 1))"

definition dbl_val :: "u64 \<Rightarrow> int" where
  "dbl_val d = (if bit d 63 then - int (dbl_mag d) else int (dbl_mag d))"

lemma dbl_frac_less: "dbl_frac d < 2 ^ 52"
  using take_bit_nat_less_exp [of 52 "unat d"] by (simp only: dbl_frac_def unsigned_take_bit_eq)

lemma dbl_fields: "unat (take_bit 63 d) = dbl_exp d * 2 ^ 52 + dbl_frac d"
proof -
  let ?p = "unat (take_bit 63 d)"
  have "?p div 2 ^ 52 = dbl_exp d"
    using drop_bit_take_bit [of 52 63 d] unat_drop_bit [of 52 "take_bit 63 d"] by (simp add: dbl_exp_def)
  moreover have "?p mod 2 ^ 52 = dbl_frac d"
    by (simp only: dbl_frac_def unsigned_take_bit_eq) (simp add: take_bit_eq_mod mod_mod_cancel)
  ultimately show ?thesis using div_mult_mod_eq [of ?p "2 ^ 52"] by simp
qed

lemma mag_exp_less:
  assumes "dbl_exp a < dbl_exp b"
  shows "dbl_mag a < dbl_mag b"
proof -
  have a: "dbl_mag a < 2 ^ 52 * 2 ^ dbl_exp a"
  proof (cases "dbl_exp a")
    case (Suc e)
    have "2 ^ 52 + dbl_frac a < 2 ^ 53" using dbl_frac_less [of a] by simp
    then have "(2 ^ 52 + dbl_frac a) * 2 ^ e < 2 ^ 53 * 2 ^ e" by (simp only: mult_less_cancel2) simp
    then show ?thesis using Suc by (simp add: dbl_mag_def)
  qed (use dbl_frac_less [of a] in \<open>simp add: dbl_mag_def\<close>)
  have "(2 :: nat) ^ 52 * 2 ^ dbl_exp a \<le> 2 ^ 52 * 2 ^ (dbl_exp b - 1)" using assms by (intro mult_left_mono power_increasing) auto
  also have "\<dots> \<le> dbl_mag b" using assms by (simp add: dbl_mag_def)
  finally show ?thesis using a by simp
qed

lemma mag_less: "dbl_mag a < dbl_mag b \<longleftrightarrow> take_bit 63 a < take_bit 63 b"
proof -
  consider "dbl_exp a < dbl_exp b" | "dbl_exp b < dbl_exp a" | "dbl_exp a = dbl_exp b" by linarith
  then show ?thesis
  proof cases
    case 1
    have "dbl_exp a * 2 ^ 52 + dbl_frac a < Suc (dbl_exp a) * 2 ^ 52" using dbl_frac_less [of a] by simp
    also have "\<dots> \<le> dbl_exp b * 2 ^ 52" using 1 by (intro mult_right_mono) auto
    finally show ?thesis using mag_exp_less [OF 1] by (simp add: word_less_nat_alt dbl_fields)
  next
    case 2
    have "dbl_exp b * 2 ^ 52 + dbl_frac b < Suc (dbl_exp b) * 2 ^ 52" using dbl_frac_less [of b] by simp
    also have "\<dots> \<le> dbl_exp a * 2 ^ 52" using 2 by (intro mult_right_mono) auto
    finally show ?thesis using mag_exp_less [OF 2] by (simp add: word_less_nat_alt dbl_fields)
  next
    case 3
    then show ?thesis by (simp add: word_less_nat_alt dbl_fields dbl_mag_def)
  qed
qed

lemma mag_zero: "dbl_mag a = 0 \<longleftrightarrow> take_bit 63 a = 0"
proof -
  have "take_bit 63 a = 0 \<longleftrightarrow> unat (take_bit 63 a) = 0" by (simp add: unat_eq_zero)
  then show ?thesis unfolding dbl_fields by (simp add: dbl_mag_def)
qed

lemma dbl_less_val:
  assumes "\<not> dbl_isnan a" "\<not> dbl_isnan b"
  shows "dbl_less a b \<longleftrightarrow> dbl_val a < dbl_val b"
  using assms mag_less [of a b] mag_less [of b a] mag_zero [of a] mag_zero [of b]
  by (auto simp: dbl_less_def Let_def dbl_val_def)

lemma compare_value:
  "compare_result a b = (if dbl_isnan a \<or> dbl_isnan b then 1 else if dbl_val a < dbl_val b then 8 else if dbl_val b < dbl_val a then 4 else 2)"
  by (simp add: compare_result_def dbl_less_val)

lemma compare_small: "compare_result a b < 16"
  by (simp add: compare_result_def)

lemma SNAN_isnan: "IsSNAN d \<Longrightarrow> dbl_isnan d"
proof -
  assume s: "IsSNAN d"
  have m: "(0x7FF0000000000000 :: u64) = push_bit 52 (mask 11)" "(0x000FFFFFFFFFFFFF :: u64) = mask 52" by (simp_all add: mask_eq_exp_minus_1)
  have "take_bit 52 d \<noteq> 0" using s by (simp add: IsSNAN_def m take_bit_eq_mask)
  then have f: "dbl_frac d \<noteq> 0" by (simp add: dbl_frac_def unat_eq_zero)
  have "take_bit 11 (drop_bit 52 d) = drop_bit 52 (d AND 0x7FF0000000000000)"
    unfolding m by (rule bit_word_eqI) (auto simp: bit_take_bit_iff bit_drop_bit_eq bit_and_iff bit_push_bit_iff bit_mask_iff)
  also have "\<dots> = 0x7FF" using s by (simp add: IsSNAN_def)
  finally show "dbl_isnan d" using f by (simp add: dbl_isnan_def dbl_exp_def)
qed

lemma cc_bits: "v < 16 \<Longrightarrow> drop_bit 12 ((f AND NOT 0xF000) OR push_bit 12 v) AND 0xF = (v :: u32)"
proof -
  assume "v < 16"
  then have b: "bit v n \<Longrightarrow> n < 4" for n using small_bits [of v n 4] by (simp add: word_less_nat_alt)
  have m: "(0xF000 :: u32) = push_bit 12 (mask 4)" "(0xF :: u32) = mask 4" by (simp_all add: mask_eq_exp_minus_1)
  show ?thesis unfolding m
    by (rule bit_word_eqI) (use b in \<open>force simp: bit_simps\<close>)
qed

section \<open>Comparison and conversion\<close>

definition value_order :: "u64 \<Rightarrow> u64 \<Rightarrow> u32" where
  "value_order a b =
    (if dbl_isnan a \<or> dbl_isnan b then 1 else if dbl_val a < dbl_val b then 8 else if dbl_val b < dbl_val a then 4 else 2)"

text \<open>
  C26. Floating-point comparisons compare values. \<^verbatim>\<open>fcmpu\<close> and \<^verbatim>\<open>fcmpo\<close> put the same condition into the field of CR and the
  FPCC bits of FPSCR: unordered when an operand is a NaN, otherwise less, greater or equal as the values are (the zeros
  are equal, infinities at the ends). Without a NaN nothing else of FPSCR changes, and with quiet ones only \<^verbatim>\<open>fcmpo\<close>
  raises an exception.
\<close>

theorem float_compare:
  "(let cc = value_order (ps0 s (FA inst)) (ps0 s (FB inst))
    in GetCRField (CRFD inst) (fcmpu inst s) = cc \<and> GetCRField (CRFD inst) (fcmpo inst s) = cc \<and>
       drop_bit 12 (fpscr (fcmpu inst s)) AND 0xF = cc \<and> drop_bit 12 (fpscr (fcmpo inst s)) AND 0xF = cc \<and>
       (if IsSNAN (ps0 s (FA inst)) \<or> IsSNAN (ps0 s (FB inst)) then bit (fpscr (fcmpu inst s)) 24 \<and> bit (fpscr (fcmpo inst s)) 24
        else fpscr (fcmpu inst s) = (fpscr s AND NOT 0xF000) OR push_bit 12 cc \<and>
             (if cc = 1 then bit (fpscr (fcmpo inst s)) 19 else fpscr (fcmpo inst s) = fpscr (fcmpu inst s))))"
proof -
  let ?a = "ps0 s (FA inst)" and ?b = "ps0 s (FB inst)"
  have cc: "value_order ?a ?b = compare_result ?a ?b" by (simp add: value_order_def compare_value)
  have nan: "compare_result ?a ?b = 1 \<longleftrightarrow> dbl_isnan ?a \<or> dbl_isnan ?b" by (simp add: compare_result_def)
  have sc: "fpscr (set_compare inst v t) = (fpscr t AND NOT 0xF000) OR push_bit 12 v" for v and t :: "'a SYS_State_scheme"
    by (simp add: set_compare_def SetCRField_def)
  have cr: "GetCRField (CRFD inst) (set_compare inst v t) = v" if "v < 16" for v and t :: "'a SYS_State_scheme"
    using that by (simp add: set_compare_def GetCRField_SetCRField)
  have raised: "bit (fpscr (SetFPException (push_bit k 1) t)) k" if "k = 24 \<or> k = 19" for k and t :: "'a SYS_State_scheme"
    using that by (auto simp: SetFPException_def Let_def put_bit_def bit_simps)
  have kept: "bit (fpscr (SetFPException v t)) 24" if "bit (fpscr t) 24" for v and t :: "'a SYS_State_scheme"
    using that by (simp add: SetFPException_def Let_def put_bit_def bit_simps)
  have set24: "bit (fpscr (set_compare inst v t)) k \<longleftrightarrow> bit (fpscr t) k" if "v < 16" "k = 24 \<or> k = 19" for v k and t :: "'a SYS_State_scheme"
    using that small_bits [of v "k - 12" 4] by (auto simp: sc bit_simps word_less_nat_alt)
  have p: "FPSCR_VXSNAN = push_bit 24 1" "FPSCR_VXVC = push_bit 19 1" by simp_all
  note d = fcmpu_def fcmpo_def Helper_FloatCompareUnordered_def Helper_FloatCompareOrdered_def
  have "GetCRField (CRFD inst) (fcmpu inst s) = compare_result ?a ?b" "GetCRField (CRFD inst) (fcmpo inst s) = compare_result ?a ?b"
    by (simp_all only: d cr [OF compare_small])
  moreover have "drop_bit 12 (fpscr (fcmpu inst s)) AND 0xF = compare_result ?a ?b" "drop_bit 12 (fpscr (fcmpo inst s)) AND 0xF = compare_result ?a ?b"
    by (simp_all only: d sc cc_bits [OF compare_small])
  moreover have "bit (fpscr (fcmpu inst s)) 24" "bit (fpscr (fcmpo inst s)) 24" if "IsSNAN ?a \<or> IsSNAN ?b"
    using that SNAN_isnan raised [of 24] kept unfolding d set24 [OF compare_small, of 24, simplified] p Let_def by (auto simp del: push_bit_of_1)
  moreover have "fpscr (fcmpu inst s) = (fpscr s AND NOT 0xF000) OR push_bit 12 (compare_result ?a ?b)" if "\<not> (IsSNAN ?a \<or> IsSNAN ?b)"
    using that by (simp add: d sc)
  moreover have "bit (fpscr (fcmpo inst s)) 19" if "\<not> (IsSNAN ?a \<or> IsSNAN ?b)" "compare_result ?a ?b = 1"
    using that nan raised [of 19] unfolding d set24 [OF compare_small, of 19, simplified] p by (auto simp del: push_bit_of_1)
  moreover have "fpscr (fcmpo inst s) = fpscr (fcmpu inst s)" if "\<not> (IsSNAN ?a \<or> IsSNAN ?b)" "compare_result ?a ?b \<noteq> 1"
    using that nan by (simp add: d)
  ultimately show ?thesis unfolding cc Let_def by simp
qed

lemma dbl_trunc_val: "dbl_trunc d = sgn (dbl_val d) * (\<bar>dbl_val d\<bar> div 2 ^ 1074)"
proof -
  define e where "e = dbl_exp d"
  define m where "m = (if e = 0 then dbl_frac d else 2 ^ 52 + dbl_frac d)"
  define i where "i = (if 1075 \<le> e then m * 2 ^ (e - 1075) else m div 2 ^ (1075 - e))"
  have i: "i = dbl_mag d div 2 ^ 1074"
  proof (cases "1075 \<le> e")
    case True
    then have "(2 :: nat) ^ (e - 1) = 2 ^ (e - 1075) * 2 ^ 1074" by (simp only: flip: power_add) simp
    then have "dbl_mag d = m * 2 ^ (e - 1075) * 2 ^ 1074" using True by (simp add: dbl_mag_def m_def e_def)
    then show ?thesis using True by (simp only: i_def if_True) simp
  next
    case False
    show ?thesis
    proof (cases "e = 0")
      case True
      have "m < 2 ^ 52" using True dbl_frac_less by (simp add: m_def)
      also have "(2 :: nat) ^ 52 \<le> 2 ^ 1074" by (rule power_increasing) auto
      finally have "m < 2 ^ 1074" .
      moreover have "(2 :: nat) ^ 1074 \<le> 2 ^ 1075" by (rule power_increasing) auto
      ultimately have "m < 2 ^ 1074" "m < 2 ^ 1075" by (blast, rule less_le_trans)
      then have "m div 2 ^ 1074 = 0" "m div 2 ^ 1075 = 0" by (blast intro: div_less)+
      then show ?thesis using True by (simp only: i_def dbl_mag_def m_def e_def if_True) simp
    next
      case e0: False
      have "(2 :: nat) ^ 1074 = 2 ^ (1075 - e) * 2 ^ (e - 1)" using False e0 by (simp only: flip: power_add) simp
      moreover have "dbl_mag d = m * 2 ^ (e - 1)" using e0 by (simp add: dbl_mag_def m_def e_def)
      moreover have "m * 2 ^ (e - 1) div (2 ^ (1075 - e) * 2 ^ (e - 1)) = m div 2 ^ (1075 - e)" by (rule div_mult_mult2) simp
      moreover have "i = m div 2 ^ (1075 - e)" using False by (simp add: i_def)
      ultimately show ?thesis by metis
    qed
  qed
  have "dbl_trunc d = (if bit d 63 then - int i else int i)" by (simp add: dbl_trunc_def Let_def i_def m_def e_def)
  then show ?thesis by (auto simp: i dbl_val_def sgn_if zdiv_int)
qed

lemma bound_patterns: "dbl_val 0x41DFFFFFFFC00000 = 2147483647 * 2 ^ 1074" "\<not> dbl_isnan 0x41DFFFFFFFC00000"
  "dbl_val 0xC1E0000000000000 = - 2147483648 * 2 ^ 1074" "\<not> dbl_isnan 0xC1E0000000000000"
proof -
  have f: "dbl_exp 0x41DFFFFFFFC00000 = 1053" "dbl_frac 0x41DFFFFFFFC00000 = 0xFFFFFFFC00000" "bit (0x41DFFFFFFFC00000 :: u64) 63 = False"
    "dbl_exp 0xC1E0000000000000 = 1054" "dbl_frac 0xC1E0000000000000 = 0" "bit (0xC1E0000000000000 :: u64) 63 = True" by (simp_all add: dbl_exp_def dbl_frac_def)
  show "dbl_val 0x41DFFFFFFFC00000 = 2147483647 * 2 ^ 1074" "\<not> dbl_isnan 0x41DFFFFFFFC00000"
    "dbl_val 0xC1E0000000000000 = - 2147483648 * 2 ^ 1074" "\<not> dbl_isnan 0xC1E0000000000000"
    by (simp_all add: dbl_val_def dbl_mag_def dbl_isnan_def f)
qed

lemma low_word: "ucast (0xfff8000000000000 OR ucast v :: u64) = (v :: u32)" "ucast ((0xfff8000000000000 OR ucast v :: u64) OR 0x100000000) = (v :: u32)"
proof -
  have low: "ucast (push_bit 51 x OR ucast v :: u64) = v" "ucast ((push_bit 51 x OR ucast v :: u64) OR push_bit 32 y) = v" for x y
    by (rule bit_word_eqI; auto simp: bit_unsigned_iff bit_or_iff bit_push_bit_iff)+
  show "ucast (0xfff8000000000000 OR ucast v :: u64) = (v :: u32)" "ucast ((0xfff8000000000000 OR ucast v :: u64) OR 0x100000000) = (v :: u32)"
    using low(1) [of "0x1FFF"] low(2) [of "0x1FFF" 1] by simp_all
qed

lemma VE_kept [simp]:
  "\<not> bit v 7 \<Longrightarrow> bit (fpscr (SetFPException v s)) 7 = bit (fpscr s) 7" "bit (fpscr (ClearFIFR s)) 7 = bit (fpscr s) 7"
  by (simp_all add: SetFPException_def Let_def put_bit_def ClearFIFR_def bit_simps)

lemma trunc_clamp:
  fixes x :: int
  shows "x > 2147483647 * N \<Longrightarrow> 0 < N \<Longrightarrow> 2147483647 \<le> sgn x * (\<bar>x\<bar> div N)"
    "x < - 2147483648 * N \<Longrightarrow> 0 < N \<Longrightarrow> sgn x * (\<bar>x\<bar> div N) \<le> - 2147483648"
    "x \<le> 2147483647 * N \<Longrightarrow> - 2147483648 * N \<le> x \<Longrightarrow> 0 < N \<Longrightarrow> sgn x * (\<bar>x\<bar> div N) \<in> {- 2147483648 .. 2147483647}"
proof -
  have d: "k * N div N = k" if "0 < N" for k using that by simp
  show "2147483647 \<le> sgn x * (\<bar>x\<bar> div N)" if h: "x > 2147483647 * N" "0 < N"
  proof -
    have "0 < x" using h by (smt (verit) mult_nonneg_nonneg)
    moreover have "2147483647 \<le> x div N" using zdiv_mono1 [of "2147483647 * N" x N] h d by simp
    ultimately show ?thesis by simp
  qed
  show "sgn x * (\<bar>x\<bar> div N) \<le> - 2147483648" if h: "x < - 2147483648 * N" "0 < N"
  proof -
    have "x < 0" using h by (smt (verit) mult_nonneg_nonneg)
    moreover have "2147483648 \<le> (- x) div N" using zdiv_mono1 [of "2147483648 * N" "- x" N] h d by simp
    ultimately show ?thesis by simp
  qed
  show "sgn x * (\<bar>x\<bar> div N) \<in> {- 2147483648 .. 2147483647}" if h: "x \<le> 2147483647 * N" "- 2147483648 * N \<le> x" "0 < N"
  proof (cases "0 \<le> x")
    case True
    have "x div N \<le> 2147483647" using zdiv_mono1 [of x "2147483647 * N" N] h d by simp
    moreover have "0 \<le> x div N" using True h(3) by (simp add: pos_imp_zdiv_nonneg_iff)
    ultimately show ?thesis using True by (auto simp: sgn_if)
  next
    case False
    have "(- x) div N \<le> 2147483648" using zdiv_mono1 [of "- x" "2147483648 * N" N] h d by simp
    moreover have "0 \<le> (- x) div N" using False h(3) by (simp add: pos_imp_zdiv_nonneg_iff)
    ultimately show ?thesis using False by (auto simp: sgn_if)
  qed
qed

text \<open>
  C27. \<^verbatim>\<open>fctiwz\<close> truncates and saturates. With invalid-operation exceptions disabled, the low word of the result is, as a signed integer, the
  value of the operand rounded towards zero, held within the range of 32 bits; a NaN gives the least integer.
\<close>

theorem conversion_truncates:
  assumes "\<not> bit (fpscr s) 7" and b_def: "b = ps0 s (FB inst)"
  shows "sint (ucast (ps0 (fctiwzx inst s) (FD inst)) :: u32) =
    (if dbl_isnan b then - 2147483648
     else max (- 2147483648) (min 2147483647 (sgn (dbl_val b) * (\<bar>dbl_val b\<bar> div 2 ^ 1074))))"
proof -
  have rc: "ps0 (rc1 inst t) = ps0 t" for t :: "'a SYS_State_scheme" by (simp add: rc1_def Helper_UpdateCR1_def SetCRField_def)
  have N: "0 < (2 ^ 1074 :: int)" by simp
  show ?thesis
  proof (cases "dbl_isnan b")
    case True
    then show ?thesis using assms(1) by (simp add: fctiwzx_def b_def Let_def rc set_ps_def low_word)
  next
    case nan: False
    note l = dbl_less_val [OF bound_patterns(2) nan] dbl_less_val [OF nan bound_patterns(4)]
    consider (big) "dbl_less 0x41DFFFFFFFC00000 b" | (small) "\<not> dbl_less 0x41DFFFFFFFC00000 b" "dbl_less b 0xC1E0000000000000"
      | (fits) "\<not> dbl_less 0x41DFFFFFFFC00000 b" "\<not> dbl_less b 0xC1E0000000000000" by blast
    then show ?thesis
    proof cases
      case big
      then have "sint (ucast (ps0 (fctiwzx inst s) (FD inst)) :: u32) = 2147483647"
        using nan assms(1) by (simp add: fctiwzx_def b_def Let_def rc set_ps_def low_word)
      then show ?thesis using nan trunc_clamp(1) [OF _ N, of "dbl_val b"] big unfolding l bound_patterns by simp
    next
      case small
      then have "sint (ucast (ps0 (fctiwzx inst s) (FD inst)) :: u32) = - 2147483648"
        using nan assms(1) by (simp add: fctiwzx_def b_def Let_def rc set_ps_def low_word)
      then show ?thesis using nan trunc_clamp(2) [OF _ N, of "dbl_val b"] small unfolding l bound_patterns by simp
    next
      case fits
      have t: "sgn (dbl_val b) * (\<bar>dbl_val b\<bar> div 2 ^ 1074) \<in> {- 2147483648 .. 2147483647}"
        using trunc_clamp(3) [OF _ _ N, of "dbl_val b"] fits unfolding l bound_patterns by simp
      have "ucast (ps0 (fctiwzx inst s) (FD inst)) = (of_int (dbl_trunc b) :: u32)"
        using nan fits by (simp add: fctiwzx_def b_def Let_def rc set_ps_def low_word)
      then have "sint (ucast (ps0 (fctiwzx inst s) (FD inst)) :: u32) = sgn (dbl_val b) * (\<bar>dbl_val b\<bar> div 2 ^ 1074)"
        unfolding dbl_trunc_val using t by (simp only: sint_of_int32) (auto simp: mod_pos_pos_trivial)
      then show ?thesis using nan t by simp
    qed
  qed
qed

theorem conversion_truncates_witness:
  "sint (ucast (ps0 (fctiwzx 0xFC20181E sys_machine) (FD 0xFC20181E)) :: u32) = - 2"
proof -
  have f: "\<not> bit (fpscr sys_machine) 7" "ps0 sys_machine (FB 0xFC20181E) = 0xC004000000000000"
    by (simp_all add: sys_machine_def LS_State.defs SYS_State.defs)
  have v: "dbl_exp 0xC004000000000000 = 1024" "dbl_frac 0xC004000000000000 = 0x4000000000000" "bit (0xC004000000000000 :: u64) 63 = True"
    by (simp_all add: dbl_exp_def dbl_frac_def)
  show ?thesis
    using conversion_truncates [OF f(1), of "0xC004000000000000" "0xFC20181E"] f(2)
    by (simp add: dbl_isnan_def dbl_val_def dbl_mag_def v)
qed

end
