(* ===== verification/PPC_Interpreter.thy ===== *)
theory PPC_Interpreter
  imports PPC_FloatOps
begin

text \<open>
  The interpreter of the main processor (\<^verbatim>\<open>Interpreter.cpp\<close>): its instruction tables (\<^verbatim>\<open>Interpreter_Tables.cpp\<close>,
  \<^verbatim>\<open>PPCTables.cpp\<close>), the fetch of an instruction (\<^verbatim>\<open>Read_Opcode\<close>, \<^verbatim>\<open>MMU.cpp\<close>), one step and the loops around it. An entry of a
  table holds its handler, whether it uses the floating-point unit and its cycles. What the step calls and the model
  does not define is in a \<open>Host\<close>: the bus, the function hooks of the high-level emulation and the handlers of floating-point arithmetic,
  by their names. A step returns \<open>None\<close> where the program does not return or dereferences a null pointer.
\<close>

section \<open>Handlers\<close>

record 'st Host =
  host_bus :: "'st Bus"
  hooks :: "u32 \<Rightarrow> 'st \<Rightarrow> bool \<times> 'st"
  fpu :: "string \<Rightarrow> u32 \<Rightarrow> 'st \<Rightarrow> 'st option"

record 'st GekkoOP =
  op_inst :: "u32 \<Rightarrow> 'st \<Rightarrow> 'st option"
  op_use_fpu :: bool
  op_numCycles :: nat

definition gekko_op :: "(u32 \<Rightarrow> 'st \<Rightarrow> 'st option) \<Rightarrow> bool \<Rightarrow> nat \<Rightarrow> 'st GekkoOP" where
  "gekko_op f uses cycles = \<lparr>op_inst = f, op_use_fpu = uses, op_numCycles = cycles\<rparr>"

definition plain :: "(u32 \<Rightarrow> 'st \<Rightarrow> 'st) \<Rightarrow> u32 \<Rightarrow> 'st \<Rightarrow> 'st option" where
  "plain f inst s = Some (f inst s)"

abbreviation (input) OPCD :: "u32 \<Rightarrow> nat" where "OPCD \<equiv> inst_field 26 6"
abbreviation (input) SUBOP10 :: "u32 \<Rightarrow> nat" where "SUBOP10 \<equiv> inst_field 1 10"
abbreviation (input) SUBOP5 :: "u32 \<Rightarrow> nat" where "SUBOP5 \<equiv> inst_field 1 5"
abbreviation MSR_FP :: "'a PowerPCState_scheme \<Rightarrow> bool" where "MSR_FP s \<equiv> bit (ppc_msr s) 13"

text \<open>The report of an unknown instruction reads the last opcode; its walk of the stack for the log is not modelled.\<close>

definition unknown_instruction :: "'a SYS_State_scheme Host \<Rightarrow> u32 \<Rightarrow> 'a SYS_State_scheme \<Rightarrow> 'a SYS_State_scheme option" where
  "unknown_instruction host inst s =
    map_option (\<lambda>(opcode, s1). s1\<lparr>panics := panics s1 + 1\<rparr>) (HostRead_U32 (host_bus host) (last_pc s) s)"

definition unknownopinfo :: "'a SYS_State_scheme Host \<Rightarrow> 'a SYS_State_scheme GekkoOP" where
  "unknownopinfo host = gekko_op (unknown_instruction host) False 0"

section \<open>The tables\<close>

definition table4 :: "'a SYS_State_scheme Host \<Rightarrow> (nat \<times> 'a SYS_State_scheme GekkoOP) list" where
  "table4 host = [
    (0, gekko_op (plain ps_cmpu0) True 1),
    (32, gekko_op (plain ps_cmpo0) True 1),
    (40, gekko_op (plain ps_neg) True 1),
    (136, gekko_op (plain ps_nabs) True 1),
    (264, gekko_op (plain ps_abs) True 1),
    (64, gekko_op (plain ps_cmpu1) True 1),
    (72, gekko_op (plain ps_mr) True 1),
    (96, gekko_op (plain ps_cmpo1) True 1),
    (528, gekko_op (plain ps_merge00) True 1),
    (560, gekko_op (plain ps_merge01) True 1),
    (592, gekko_op (plain ps_merge10) True 1),
    (624, gekko_op (plain ps_merge11) True 1),
    (1014, gekko_op (plain (dcbz_l (host_bus host))) False 1)]"

definition table4_2 :: "'a SYS_State_scheme Host \<Rightarrow> (nat \<times> 'a SYS_State_scheme GekkoOP) list" where
  "table4_2 host = [
    (10, gekko_op (fpu host ''ps_sum0'') True 1),
    (11, gekko_op (fpu host ''ps_sum1'') True 1),
    (12, gekko_op (fpu host ''ps_muls0'') True 1),
    (13, gekko_op (fpu host ''ps_muls1'') True 1),
    (14, gekko_op (fpu host ''ps_madds0'') True 1),
    (15, gekko_op (fpu host ''ps_madds1'') True 1),
    (18, gekko_op (fpu host ''ps_div'') True 17),
    (20, gekko_op (fpu host ''ps_sub'') True 1),
    (21, gekko_op (fpu host ''ps_add'') True 1),
    (23, gekko_op (plain ps_sel) True 1),
    (24, gekko_op (fpu host ''ps_res'') True 1),
    (25, gekko_op (fpu host ''ps_mul'') True 1),
    (26, gekko_op (fpu host ''ps_rsqrte'') True 2),
    (28, gekko_op (fpu host ''ps_msub'') True 1),
    (29, gekko_op (fpu host ''ps_madd'') True 1),
    (30, gekko_op (fpu host ''ps_nmsub'') True 1),
    (31, gekko_op (fpu host ''ps_nmadd'') True 1)]"

definition table4_3 :: "'a SYS_State_scheme Host \<Rightarrow> (nat \<times> 'a SYS_State_scheme GekkoOP) list" where
  "table4_3 host = [
    (6, gekko_op (fpu host ''psq_lx'') True 1),
    (7, gekko_op (fpu host ''psq_stx'') True 1),
    (38, gekko_op (fpu host ''psq_lux'') True 1),
    (39, gekko_op (fpu host ''psq_stux'') True 1)]"

definition table19 :: "'a SYS_State_scheme Host \<Rightarrow> (nat \<times> 'a SYS_State_scheme GekkoOP) list" where
  "table19 host = [
    (528, gekko_op (plain bcctrx) False 1),
    (16, gekko_op (plain bclrx) False 1),
    (257, gekko_op (plain crand) False 1),
    (129, gekko_op (plain crandc) False 1),
    (289, gekko_op (plain creqv) False 1),
    (225, gekko_op (plain crnand) False 1),
    (33, gekko_op (plain crnor) False 1),
    (449, gekko_op (plain cror) False 1),
    (417, gekko_op (plain crorc) False 1),
    (193, gekko_op (plain crxor) False 1),
    (150, gekko_op (plain isync) False 1),
    (0, gekko_op (plain mcrf) False 1),
    (50, gekko_op (plain (\<lambda>_. rfi)) False 2)]"

definition table31 :: "'a SYS_State_scheme Host \<Rightarrow> (nat \<times> 'a SYS_State_scheme GekkoOP) list" where
  "table31 host = [
    (266, gekko_op (plain addx) False 1),
    (778, gekko_op (plain addx) False 1),
    (10, gekko_op (plain addcx) False 1),
    (522, gekko_op (plain addcx) False 1),
    (138, gekko_op (plain addex) False 1),
    (650, gekko_op (plain addex) False 1),
    (234, gekko_op (plain addmex) False 1),
    (746, gekko_op (plain addmex) False 1),
    (202, gekko_op (plain addzex) False 1),
    (714, gekko_op (plain addzex) False 1),
    (491, gekko_op (plain divwx) False 40),
    (1003, gekko_op (plain divwx) False 40),
    (459, gekko_op (plain divwux) False 40),
    (971, gekko_op (plain divwux) False 40),
    (75, gekko_op (plain mulhwx) False 5),
    (11, gekko_op (plain mulhwux) False 5),
    (235, gekko_op (plain mullwx) False 5),
    (747, gekko_op (plain mullwx) False 5),
    (104, gekko_op (plain negx) False 1),
    (616, gekko_op (plain negx) False 1),
    (40, gekko_op (plain subfx) False 1),
    (552, gekko_op (plain subfx) False 1),
    (8, gekko_op (plain subfcx) False 1),
    (520, gekko_op (plain subfcx) False 1),
    (136, gekko_op (plain subfex) False 1),
    (648, gekko_op (plain subfex) False 1),
    (232, gekko_op (plain subfmex) False 1),
    (744, gekko_op (plain subfmex) False 1),
    (200, gekko_op (plain subfzex) False 1),
    (712, gekko_op (plain subfzex) False 1),
    (28, gekko_op (plain andx) False 1),
    (60, gekko_op (plain andcx) False 1),
    (444, gekko_op (plain orx) False 1),
    (124, gekko_op (plain norx) False 1),
    (316, gekko_op (plain xorx) False 1),
    (412, gekko_op (plain orcx) False 1),
    (476, gekko_op (plain nandx) False 1),
    (284, gekko_op (plain eqvx) False 1),
    (0, gekko_op (plain cmp) False 1),
    (32, gekko_op (plain cmpl) False 1),
    (26, gekko_op (plain cntlzwx) False 1),
    (922, gekko_op (plain extshx) False 1),
    (954, gekko_op (plain extsbx) False 1),
    (536, gekko_op (plain srwx) False 1),
    (792, gekko_op (plain srawx) False 1),
    (824, gekko_op (plain srawix) False 1),
    (24, gekko_op (plain slwx) False 1),
    (54, gekko_op (plain dcbst) False 5),
    (86, gekko_op (plain dcbf) False 5),
    (246, gekko_op (plain dcbtst) False 2),
    (278, gekko_op (plain dcbt) False 2),
    (470, gekko_op (plain dcbi) False 5),
    (758, gekko_op (plain dcba) False 5),
    (1014, gekko_op (plain (dcbz (host_bus host))) False 5),
    (23, gekko_op (lwzx (host_bus host)) False 1),
    (55, gekko_op (lwzux (host_bus host)) False 1),
    (279, gekko_op (lhzx (host_bus host)) False 1),
    (311, gekko_op (lhzux (host_bus host)) False 1),
    (343, gekko_op (lhax (host_bus host)) False 1),
    (375, gekko_op (lhaux (host_bus host)) False 1),
    (87, gekko_op (lbzx (host_bus host)) False 1),
    (119, gekko_op (lbzux (host_bus host)) False 1),
    (534, gekko_op (lwbrx (host_bus host)) False 1),
    (790, gekko_op (lhbrx (host_bus host)) False 1),
    (150, gekko_op (plain (stwcxd (host_bus host))) False 1),
    (20, gekko_op (lwarx (host_bus host)) False 1),
    (533, gekko_op (lswx (host_bus host)) False 1),
    (597, gekko_op (lswi (host_bus host)) False 1),
    (151, gekko_op (plain (stwx (host_bus host))) False 1),
    (183, gekko_op (plain (stwux (host_bus host))) False 1),
    (407, gekko_op (plain (sthx (host_bus host))) False 1),
    (439, gekko_op (plain (sthux (host_bus host))) False 1),
    (215, gekko_op (plain (stbx (host_bus host))) False 1),
    (247, gekko_op (plain (stbux (host_bus host))) False 1),
    (662, gekko_op (plain (stwbrx (host_bus host))) False 1),
    (918, gekko_op (plain (sthbrx (host_bus host))) False 1),
    (661, gekko_op (plain (stswx (host_bus host))) False 1),
    (725, gekko_op (plain (stswi (host_bus host))) False 1),
    (535, gekko_op (lfsx (host_bus host)) True 1),
    (567, gekko_op (lfsux (host_bus host)) True 1),
    (599, gekko_op (lfdx (host_bus host)) True 1),
    (631, gekko_op (lfdux (host_bus host)) True 1),
    (663, gekko_op (plain (stfsx (host_bus host))) True 1),
    (695, gekko_op (plain (stfsux (host_bus host))) True 1),
    (727, gekko_op (plain (stfdx (host_bus host))) True 1),
    (759, gekko_op (plain (stfdux (host_bus host))) True 1),
    (983, gekko_op (plain (stfiwx (host_bus host))) True 1),
    (19, gekko_op (plain mfcr) False 1),
    (83, gekko_op (plain mfmsr) False 1),
    (144, gekko_op (plain mtcrf) False 1),
    (146, gekko_op (plain mtmsr) False 1),
    (210, gekko_op (plain mtsr) False 1),
    (242, gekko_op (plain mtsrin) False 1),
    (339, gekko_op (plain mfspr) False 1),
    (467, gekko_op (plain (mtspr (host_bus host))) False 2),
    (371, gekko_op (plain mftb) False 1),
    (512, gekko_op (plain mcrxr) False 1),
    (595, gekko_op (plain mfsr) False 3),
    (659, gekko_op (plain mfsrin) False 3),
    (4, gekko_op (plain tw) False 2),
    (598, gekko_op (plain sync) False 3),
    (982, gekko_op (plain icbi) False 4),
    (310, gekko_op (eciwx (host_bus host)) False 1),
    (438, gekko_op (plain (ecowx (host_bus host))) False 1),
    (854, gekko_op (plain eieio) False 1),
    (306, gekko_op (plain tlbie) False 1),
    (566, gekko_op (plain tlbsync) False 1)]"

definition table59 :: "'a SYS_State_scheme Host \<Rightarrow> (nat \<times> 'a SYS_State_scheme GekkoOP) list" where
  "table59 host = [
    (18, gekko_op (fpu host ''fdivsx'') True 17),
    (20, gekko_op (fpu host ''fsubsx'') True 1),
    (21, gekko_op (fpu host ''faddsx'') True 1),
    (24, gekko_op (fpu host ''fresx'') True 1),
    (25, gekko_op (fpu host ''fmulsx'') True 1),
    (28, gekko_op (fpu host ''fmsubsx'') True 1),
    (29, gekko_op (fpu host ''fmaddsx'') True 1),
    (30, gekko_op (fpu host ''fnmsubsx'') True 1),
    (31, gekko_op (fpu host ''fnmaddsx'') True 1)]"

definition table63 :: "'a SYS_State_scheme Host \<Rightarrow> (nat \<times> 'a SYS_State_scheme GekkoOP) list" where
  "table63 host = [
    (264, gekko_op (plain fabsx) True 1),
    (32, gekko_op (plain fcmpo) True 1),
    (0, gekko_op (plain fcmpu) True 1),
    (14, gekko_op (fpu host ''fctiwx'') True 1),
    (15, gekko_op (plain fctiwzx) True 1),
    (72, gekko_op (plain fmrx) True 1),
    (136, gekko_op (plain fnabsx) True 1),
    (40, gekko_op (plain fnegx) True 1),
    (12, gekko_op (fpu host ''frspx'') True 1),
    (64, gekko_op (plain mcrfs) True 1),
    (583, gekko_op (plain mffsx) True 1),
    (70, gekko_op (plain mtfsb0x) True 3),
    (38, gekko_op (plain mtfsb1x) True 3),
    (134, gekko_op (plain mtfsfix) True 3),
    (711, gekko_op (plain mtfsfx) True 3)]"

definition table63_2 :: "'a SYS_State_scheme Host \<Rightarrow> (nat \<times> 'a SYS_State_scheme GekkoOP) list" where
  "table63_2 host = [
    (18, gekko_op (fpu host ''fdivx'') True 31),
    (20, gekko_op (fpu host ''fsubx'') True 1),
    (21, gekko_op (fpu host ''faddx'') True 1),
    (23, gekko_op (plain fselx) True 1),
    (25, gekko_op (fpu host ''fmulx'') True 1),
    (26, gekko_op (fpu host ''frsqrtex'') True 1),
    (28, gekko_op (fpu host ''fmsubx'') True 1),
    (29, gekko_op (fpu host ''fmaddx'') True 1),
    (30, gekko_op (fpu host ''fnmsubx'') True 1),
    (31, gekko_op (fpu host ''fnmaddx'') True 1)]"

text \<open>
  The filled tables. \<^verbatim>\<open>InitializeInstructionTables\<close> writes the entries of \<^verbatim>\<open>table4_2\<close> and \<^verbatim>\<open>table63_2\<close> at every distance of 32, those of
  \<^verbatim>\<open>table4_3\<close> at every distance of 64; what is written later wins.
\<close>

definition table_entry :: "'st GekkoOP \<Rightarrow> (nat \<times> 'st GekkoOP) list \<Rightarrow> nat \<Rightarrow> 'st GekkoOP" where
  "table_entry d t op = (case map_of t op of Some x \<Rightarrow> x | None \<Rightarrow> d)"

definition m_op_table4 :: "'a SYS_State_scheme Host \<Rightarrow> nat \<Rightarrow> 'a SYS_State_scheme GekkoOP" where
  "m_op_table4 host op =
    table_entry (table_entry (table_entry (unknownopinfo host) (table4_2 host) (op mod 32)) (table4_3 host) (op mod 64)) (table4 host) op"

definition m_op_table19 :: "'a SYS_State_scheme Host \<Rightarrow> nat \<Rightarrow> 'a SYS_State_scheme GekkoOP" where
  "m_op_table19 host op = table_entry (unknownopinfo host) (table19 host) op"

definition m_op_table31 :: "'a SYS_State_scheme Host \<Rightarrow> nat \<Rightarrow> 'a SYS_State_scheme GekkoOP" where
  "m_op_table31 host op = table_entry (unknownopinfo host) (table31 host) op"

definition m_op_table59 :: "'a SYS_State_scheme Host \<Rightarrow> nat \<Rightarrow> 'a SYS_State_scheme GekkoOP" where
  "m_op_table59 host op = table_entry (unknownopinfo host) (table59 host) op"

definition m_op_table63 :: "'a SYS_State_scheme Host \<Rightarrow> nat \<Rightarrow> 'a SYS_State_scheme GekkoOP" where
  "m_op_table63 host op = table_entry (table_entry (unknownopinfo host) (table63 host) op) (table63_2 host) (op mod 32)"

definition RunTable4 :: "'a SYS_State_scheme Host \<Rightarrow> u32 \<Rightarrow> 'a SYS_State_scheme \<Rightarrow> 'a SYS_State_scheme option" where
  "RunTable4 host inst = op_inst (m_op_table4 host (SUBOP10 inst)) inst"

definition RunTable19 :: "'a SYS_State_scheme Host \<Rightarrow> u32 \<Rightarrow> 'a SYS_State_scheme \<Rightarrow> 'a SYS_State_scheme option" where
  "RunTable19 host inst = op_inst (m_op_table19 host (SUBOP10 inst)) inst"

definition RunTable31 :: "'a SYS_State_scheme Host \<Rightarrow> u32 \<Rightarrow> 'a SYS_State_scheme \<Rightarrow> 'a SYS_State_scheme option" where
  "RunTable31 host inst = op_inst (m_op_table31 host (SUBOP10 inst)) inst"

definition RunTable59 :: "'a SYS_State_scheme Host \<Rightarrow> u32 \<Rightarrow> 'a SYS_State_scheme \<Rightarrow> 'a SYS_State_scheme option" where
  "RunTable59 host inst = op_inst (m_op_table59 host (SUBOP5 inst)) inst"

definition RunTable63 :: "'a SYS_State_scheme Host \<Rightarrow> u32 \<Rightarrow> 'a SYS_State_scheme \<Rightarrow> 'a SYS_State_scheme option" where
  "RunTable63 host inst = op_inst (m_op_table63 host (SUBOP10 inst)) inst"

definition primarytable :: "'a SYS_State_scheme Host \<Rightarrow> (nat \<times> 'a SYS_State_scheme GekkoOP) list" where
  "primarytable host = [
    (4, gekko_op (RunTable4 host) False 0),
    (19, gekko_op (RunTable19 host) False 0),
    (31, gekko_op (RunTable31 host) False 0),
    (59, gekko_op (RunTable59 host) False 0),
    (63, gekko_op (RunTable63 host) False 0),
    (16, gekko_op (bcx (host_bus host)) False 1),
    (18, gekko_op (plain bx) False 1),
    (3, gekko_op (plain twi) False 1),
    (17, gekko_op (plain sc) False 2),
    (7, gekko_op (plain mulli) False 3),
    (8, gekko_op (plain subfic) False 1),
    (10, gekko_op (plain cmpli) False 1),
    (11, gekko_op (plain cmpi) False 1),
    (12, gekko_op (plain addic) False 1),
    (13, gekko_op (plain addic_rc) False 1),
    (14, gekko_op (plain addi) False 1),
    (15, gekko_op (plain addis) False 1),
    (20, gekko_op (plain rlwimix) False 1),
    (21, gekko_op (plain rlwinmx) False 1),
    (23, gekko_op (plain rlwnmx) False 1),
    (24, gekko_op (plain ori) False 1),
    (25, gekko_op (plain oris) False 1),
    (26, gekko_op (plain xori) False 1),
    (27, gekko_op (plain xoris) False 1),
    (28, gekko_op (plain andi_rc) False 1),
    (29, gekko_op (plain andis_rc) False 1),
    (32, gekko_op (lwz (host_bus host)) False 1),
    (33, gekko_op (lwzu (host_bus host)) False 1),
    (34, gekko_op (lbz (host_bus host)) False 1),
    (35, gekko_op (lbzu (host_bus host)) False 1),
    (40, gekko_op (lhz (host_bus host)) False 1),
    (41, gekko_op (lhzu (host_bus host)) False 1),
    (42, gekko_op (lha (host_bus host)) False 1),
    (43, gekko_op (lhau (host_bus host)) False 1),
    (44, gekko_op (plain (sth (host_bus host))) False 1),
    (45, gekko_op (plain (sthu (host_bus host))) False 1),
    (36, gekko_op (plain (stw (host_bus host))) False 1),
    (37, gekko_op (plain (stwu (host_bus host))) False 1),
    (38, gekko_op (plain (stb (host_bus host))) False 1),
    (39, gekko_op (plain (stbu (host_bus host))) False 1),
    (46, gekko_op (lmw (host_bus host)) False 11),
    (47, gekko_op (plain (stmw (host_bus host))) False 11),
    (48, gekko_op (lfs (host_bus host)) True 1),
    (49, gekko_op (lfsu (host_bus host)) True 1),
    (50, gekko_op (lfd (host_bus host)) True 1),
    (51, gekko_op (lfdu (host_bus host)) True 1),
    (52, gekko_op (plain (stfs (host_bus host))) True 1),
    (53, gekko_op (plain (stfsu (host_bus host))) True 1),
    (54, gekko_op (plain (stfd (host_bus host))) True 1),
    (55, gekko_op (plain (stfdu (host_bus host))) True 1),
    (56, gekko_op (fpu host ''psq_l'') True 1),
    (57, gekko_op (fpu host ''psq_lu'') True 1),
    (60, gekko_op (fpu host ''psq_st'') True 1),
    (61, gekko_op (fpu host ''psq_stu'') True 1)]"

definition m_op_table :: "'a SYS_State_scheme Host \<Rightarrow> nat \<Rightarrow> 'a SYS_State_scheme GekkoOP" where
  "m_op_table host op = table_entry (unknownopinfo host) (primarytable host) op"

definition GetOpInfo :: "'a SYS_State_scheme Host \<Rightarrow> u32 \<Rightarrow> 'a SYS_State_scheme GekkoOP" where
  "GetOpInfo host inst =
    (if OPCD inst = 4 then m_op_table4 host (SUBOP10 inst)
     else if OPCD inst = 19 then m_op_table19 host (SUBOP10 inst)
     else if OPCD inst = 31 then m_op_table31 host (SUBOP10 inst)
     else if OPCD inst = 59 then m_op_table59 host (SUBOP5 inst)
     else if OPCD inst = 63 then m_op_table63 host (SUBOP10 inst)
     else m_op_table host (OPCD inst))"

definition UsesFPU :: "'a SYS_State_scheme Host \<Rightarrow> u32 \<Rightarrow> bool" where
  "UsesFPU host inst = op_use_fpu (GetOpInfo host inst)"

section \<open>Fetching\<close>

record TryReadInstResult =
  tri_valid :: bool
  tri_from_bat :: bool
  tri_hex :: u32
  tri_physical_address :: u32

definition read_fetched ::
  "bool \<Rightarrow> u32 \<Rightarrow> 'a IC_State_scheme \<Rightarrow> (TryReadInstResult \<times> 'a IC_State_scheme) option" where
  "read_fetched from_bat address s =
    (if m_pFakeVMEM s \<and> address AND 0xFE000000 = 0x7E000000
     then Some (\<lparr>tri_valid = True, tri_from_bat = from_bat,
                 tri_hex = ucast (read_be 4 (0x7E000000 + (address AND FAKEVMEM_MASK)) (physical_base s)), tri_physical_address = address\<rparr>, s)
     else map_option (\<lambda>(v, s1). (\<lparr>tri_valid = True, tri_from_bat = from_bat, tri_hex = v, tri_physical_address = address\<rparr>, s1))
            (ReadInstruction address s))"

definition TryReadInstruction :: "u32 \<Rightarrow> 'a IC_State_scheme \<Rightarrow> (TryReadInstResult \<times> 'a IC_State_scheme) option" where
  "TryReadInstruction address s =
    (if MSR_IR s then
       (case TranslateAddress Opcode address s of
          (r, s1) \<Rightarrow>
            case tr_address r of
              None \<Rightarrow> Some (\<lparr>tri_valid = False, tri_from_bat = False, tri_hex = 0, tri_physical_address = 0\<rparr>, s1)
            | Some a \<Rightarrow> read_fetched (case r of BAT_TRANSLATED _ \<Rightarrow> True | _ \<Rightarrow> False) a s1)
     else read_fetched True address s)"

definition Read_Opcode :: "u32 \<Rightarrow> 'a IC_State_scheme \<Rightarrow> (u32 \<times> 'a IC_State_scheme) option" where
  "Read_Opcode address s =
    map_option (\<lambda>(r, s1). if tri_valid r then (tri_hex r, s1) else (0, GenerateISIException address s1)) (TryReadInstruction address s)"

section \<open>Stepping\<close>

text \<open>The part of \<^verbatim>\<open>SingleStepInner\<close> that runs the fetched instruction.\<close>

definition execute :: "'a SYS_State_scheme Host \<Rightarrow> u32 \<Rightarrow> 'a SYS_State_scheme \<Rightarrow> 'a SYS_State_scheme option" where
  "execute host inst s =
    (if inst \<noteq> 0 then
       (if MSR_FP s \<or> \<not> UsesFPU host inst then
          map_option (\<lambda>s1. if dsi_pending s1 then (CheckExceptions s1)\<lparr>ppc_end_block := True\<rparr> else s1)
            (op_inst (m_op_table host (OPCD inst)) inst s)
        else Some ((CheckExceptions (s\<lparr>ppc_Exceptions := ppc_Exceptions s OR EXCEPTION_FPU_UNAVAILABLE\<rparr>))\<lparr>ppc_end_block := True\<rparr>))
     else Some ((CheckExceptions s)\<lparr>ppc_end_block := True\<rparr>))"

text \<open>Its end: the program counter moves on, and the cycles of the instruction are returned.\<close>

definition finish_step :: "'a SYS_State_scheme Host \<Rightarrow> 'a SYS_State_scheme \<Rightarrow> nat \<times> 'a SYS_State_scheme" where
  "finish_step host s =
    (op_numCycles (GetOpInfo host (m_prev_inst s)), s\<lparr>last_pc := ppc_pc s, ppc_pc := ppc_npc s\<rparr>)"

definition SingleStepInner :: "'a SYS_State_scheme Host \<Rightarrow> 'a SYS_State_scheme \<Rightarrow> (nat \<times> 'a SYS_State_scheme) option" where
  "SingleStepInner host s =
    (case hooks host (ppc_pc s) s of
       (hooked, s0) \<Rightarrow>
         if hooked then Some (finish_step host s0)
         else let s1 = s0\<lparr>ppc_npc := ppc_pc s0 + 4\<rparr>
              in case Read_Opcode (ppc_pc s1) s1 of
                   None \<Rightarrow> None
                 | Some (hex, s2) \<Rightarrow> map_option (finish_step host) (execute host hex (s2\<lparr>m_prev_inst := hex\<rparr>)))"

definition Interpreter_Init :: "'a SYS_State_scheme \<Rightarrow> 'a SYS_State_scheme" where
  "Interpreter_Init s = s\<lparr>m_reserve := False, ppc_end_block := False\<rparr>"

text \<open>\<open>cb\<close> are the callbacks of the scheduled events and \<open>n\<close> bounds their number, as in \<^verbatim>\<open>Advance\<close>.\<close>

definition SingleStep ::
  "(string \<Rightarrow> u64 \<Rightarrow> int \<Rightarrow> 'a SYS_State_scheme \<Rightarrow> 'a SYS_State_scheme) \<Rightarrow> nat \<Rightarrow> 'a SYS_State_scheme Host \<Rightarrow> 'a SYS_State_scheme
    \<Rightarrow> 'a SYS_State_scheme option" where
  "SingleStep cb n host s =
    (case Advance cb n s of
       None \<Rightarrow> None
     | Some (es, s1) \<Rightarrow>
         map_option (\<lambda>(c, s2).
           let s3 = s2\<lparr>slice_length := 1, ppc_downcount := 0\<rparr>
           in if ppc_Exceptions s3 \<noteq> 0 then let s4 = CheckExceptions s3 in s4\<lparr>ppc_pc := ppc_npc s4\<rparr> else s3)
         (SingleStepInner host s1))"

text \<open>The loops of \<^verbatim>\<open>Run\<close> without debugging: a block of instructions, a slice, and one round of the outer loop.\<close>

partial_function (option) run_block ::
  "'a SYS_State_scheme Host \<Rightarrow> nat \<Rightarrow> 'a SYS_State_scheme \<Rightarrow> (nat \<times> 'a SYS_State_scheme) option" where
  "run_block host cycles s =
    (if ppc_end_block s then Some (cycles, s)
     else case SingleStepInner host s of
            None \<Rightarrow> None
          | Some (c, s1) \<Rightarrow> run_block host (cycles + c) s1)"

partial_function (option) run_slice :: "'a SYS_State_scheme Host \<Rightarrow> 'a SYS_State_scheme \<Rightarrow> 'a SYS_State_scheme option" where
  "run_slice host s =
    (if 0 < ppc_downcount s then
       (case run_block host 0 (s\<lparr>ppc_end_block := False\<rparr>) of
          None \<Rightarrow> None
        | Some (c, s1) \<Rightarrow> run_slice host (s1\<lparr>ppc_downcount := ppc_downcount s1 - int c\<rparr>))
     else Some s)"

declare run_block.simps [code] run_slice.simps [code]

definition Run_round ::
  "(string \<Rightarrow> u64 \<Rightarrow> int \<Rightarrow> 'a SYS_State_scheme \<Rightarrow> 'a SYS_State_scheme) \<Rightarrow> nat \<Rightarrow> 'a SYS_State_scheme Host \<Rightarrow> 'a SYS_State_scheme
    \<Rightarrow> 'a SYS_State_scheme option" where
  "Run_round cb n host s =
    (case Advance cb n s of None \<Rightarrow> None | Some (es, s1) \<Rightarrow> run_slice host s1)"

end
