(* ===== verification/PPC_InterpreterSpec.thy ===== *)
theory PPC_InterpreterSpec
  imports PPC_Interpreter
begin

text \<open>
  What the interpreter does: its tables are consistent, a loop runs as often as its counter says, faults are taken
  with the address of the instruction that caused them, and program exceptions are left pending.
\<close>

section \<open>The tables\<close>

lemma entry_found: "distinct (map fst t) \<Longrightarrow> (op, x) \<in> set t \<Longrightarrow> table_entry d t op = x"
  by (simp add: table_entry_def)

lemma entry_missing: "op \<notin> fst ` set t \<Longrightarrow> table_entry d t op = d"
  by (simp add: table_entry_def map_of_eq_None_iff [symmetric])

lemma table_keys:
  "fst ` set (table4 host) = {0, 32, 40, 136, 264, 64, 72, 96, 528, 560, 592, 624, 1014}"
  "fst ` set (table4_2 host) = {10, 11, 12, 13, 14, 15, 18, 20, 21, 23, 24, 25, 26, 28, 29, 30, 31}"
  "fst ` set (table4_3 host) = {6, 7, 38, 39}"
  "fst ` set (table63 host) = {264, 32, 0, 14, 15, 72, 136, 40, 12, 64, 583, 70, 38, 134, 711}"
  "fst ` set (table63_2 host) = {18, 20, 21, 23, 25, 26, 28, 29, 30, 31}"
  unfolding table4_def table4_2_def table4_3_def table63_def table63_2_def by (simp_all only: list.set image_insert image_empty fst_conv)

lemma table_distinct:
  "distinct (map fst (primarytable host))" "distinct (map fst (table4 host))" "distinct (map fst (table4_2 host))"
  "distinct (map fst (table4_3 host))" "distinct (map fst (table19 host))" "distinct (map fst (table31 host))"
  "distinct (map fst (table59 host))" "distinct (map fst (table63 host))" "distinct (map fst (table63_2 host))"
  unfolding primarytable_def table4_def table4_2_def table4_3_def table19_def table31_def table59_def table63_def table63_2_def
  by (simp_all only: list.map fst_conv) simp_all

text \<open>
  C14. The instruction tables are consistent. Whatever the order in which they are filled and however often the short opcodes are repeated, every entry is
  found at each of its opcodes: no entry of \<^verbatim>\<open>table4\<close>, \<^verbatim>\<open>table4_2\<close> and \<^verbatim>\<open>table4_3\<close>, or of \<^verbatim>\<open>table63\<close> and \<^verbatim>\<open>table63_2\<close>, hides one of another, and none is
  listed twice.
\<close>

theorem tables_consistent:
  "(\<forall>(op, x) \<in> set (primarytable host). m_op_table host op = x) \<and>
   (\<forall>(op, x) \<in> set (table19 host). m_op_table19 host op = x) \<and>
   (\<forall>(op, x) \<in> set (table31 host). m_op_table31 host op = x) \<and>
   (\<forall>(op, x) \<in> set (table59 host). m_op_table59 host op = x) \<and>
   (\<forall>(op, x) \<in> set (table4 host). m_op_table4 host op = x) \<and>
   (\<forall>(op, x) \<in> set (table4_3 host). \<forall>i < 16. m_op_table4 host (64 * i + op) = x) \<and>
   (\<forall>(op, x) \<in> set (table4_2 host). \<forall>i < 32. m_op_table4 host (32 * i + op) = x) \<and>
   (\<forall>(op, x) \<in> set (table63 host). m_op_table63 host op = x) \<and>
   (\<forall>(op, x) \<in> set (table63_2 host). \<forall>i < 32. m_op_table63 host (32 * i + op) = x)"
proof -
  note D = table_distinct [of host]
  have "m_op_table host op = x" if "(op, x) \<in> set (primarytable host)" for op x
    using that D(1) by (simp add: m_op_table_def entry_found)
  moreover have "m_op_table19 host op = x" if "(op, x) \<in> set (table19 host)" for op x
    using that D(5) by (simp add: m_op_table19_def entry_found)
  moreover have "m_op_table31 host op = x" if "(op, x) \<in> set (table31 host)" for op x
    using that D(6) by (simp add: m_op_table31_def entry_found)
  moreover have "m_op_table59 host op = x" if "(op, x) \<in> set (table59 host)" for op x
    using that D(7) by (simp add: m_op_table59_def entry_found)
  moreover have "m_op_table4 host op = x" if "(op, x) \<in> set (table4 host)" for op x
    using that D(2) by (simp add: m_op_table4_def entry_found)
  moreover have "m_op_table4 host (64 * i + op) = x" if h: "(op, x) \<in> set (table4_3 host)" for op x i
  proof -
    have op: "op \<in> {6, 7, 38, 39}" using image_eqI [OF _ h, of op fst] table_keys(3) [of host] by simp
    then have m: "(64 * i + op) mod 64 = op" by auto
    have "64 * i + op \<notin> fst ` set (table4 host)" unfolding table_keys using op by (auto, presburger+)
    then show ?thesis unfolding m_op_table4_def m using h D(4) by (simp add: entry_missing entry_found)
  qed
  moreover have "m_op_table4 host (32 * i + op) = x" if h: "(op, x) \<in> set (table4_2 host)" for op x i
  proof -
    have op: "op \<in> {10, 11, 12, 13, 14, 15, 18, 20, 21, 23, 24, 25, 26, 28, 29, 30, 31}"
      using image_eqI [OF _ h, of op fst] table_keys(2) [of host] by simp
    then have m: "(32 * i + op) mod 32 = op" by auto
    have "k mod 32 \<in> {0, 8, 16, 22}" if "k \<in> fst ` set (table4 host)" for k using that unfolding table_keys by auto
    then have a: "32 * i + op \<notin> fst ` set (table4 host)" using op m by fastforce
    have "(32 * i + op) mod 64 mod 32 = op" using m by (simp add: mod_mod_cancel)
    then have b: "(32 * i + op) mod 64 \<notin> fst ` set (table4_3 host)" unfolding table_keys using op by auto
    show ?thesis unfolding m_op_table4_def m using h D(3) a b by (simp add: entry_missing entry_found)
  qed
  moreover have "m_op_table63 host op = x" if h: "(op, x) \<in> set (table63 host)" for op x
  proof -
    have "op \<in> {264, 32, 0, 14, 15, 72, 136, 40, 12, 64, 583, 70, 38, 134, 711}"
      using image_eqI [OF _ h, of op fst] table_keys(4) [of host] by simp
    then have "op mod 32 \<notin> fst ` set (table63_2 host)" unfolding table_keys by auto
    then show ?thesis using h D(8) by (simp add: m_op_table63_def entry_missing entry_found)
  qed
  moreover have "m_op_table63 host (32 * i + op) = x" if h: "(op, x) \<in> set (table63_2 host)" for op x i
  proof -
    have "op < 32" using image_eqI [OF _ h, of op fst] table_keys(5) [of host] by auto
    then have m: "(32 * i + op) mod 32 = op" by simp
    show ?thesis unfolding m_op_table63_def m using h D(9) by (simp add: entry_found)
  qed
  ultimately show ?thesis by auto
qed

text \<open>A machine with no devices, no hooked functions and no floating-point arithmetic.\<close>

definition sys_host :: "SYS_State Host" where
  "sys_host = \<lparr>host_bus = \<lparr>bus_read = \<lambda>_ _ s. (0, s), bus_write = \<lambda>_ _ _ s. s\<rparr>, hooks = \<lambda>_ s. (False, s), fpu = \<lambda>_ _ _. None\<rparr>"

theorem tables_consistent_witness:
  "m_op_table4 sys_host (32 * 3 + 21) = gekko_op (fpu sys_host ''ps_add'') True 1"
proof -
  have m: "(21, gekko_op (fpu sys_host ''ps_add'') True 1) \<in> set (table4_2 sys_host)" unfolding table4_2_def by (simp only: list.set insert_iff) blast
  have "\<forall>(op, x) \<in> set (table4_2 sys_host). \<forall>i < 32. m_op_table4 sys_host (32 * i + op) = x"
    using tables_consistent [of sys_host] by (elim conjE)
  from bspec [OF this m] show ?thesis unfolding prod.case by (elim allE [of _ 3]) simp
qed

section \<open>Steps\<close>

text \<open>The word at the program counter, with real addressing and the instruction cache off; no function is hooked.\<close>

definition fetches :: "u32 \<Rightarrow> 'a IC_State_scheme \<Rightarrow> bool" where
  "fetches w s \<longleftrightarrow> \<not> MSR_IR s \<and> \<not> HID0_ICE s \<and> \<not> m_pFakeVMEM s \<and> Memory_Read_U32 (ppc_pc s) s = Some w"

definition unhooked :: "'st Host \<Rightarrow> bool" where
  "unhooked host \<longleftrightarrow> (\<forall>a s. hooks host a s = (False, s))"

lemma mem_pointer_npc [simp]: "mem_pointer a (s\<lparr>ppc_npc := n\<rparr>) = mem_pointer a s"
  by (simp add: mem_pointer_def Let_def)

lemma step_fetch:
  assumes "unhooked host" "fetches w s"
  shows "SingleStepInner host s = map_option (finish_step host) (execute host w (s\<lparr>ppc_npc := ppc_pc s + 4, m_prev_inst := w\<rparr>))"
  using assms
  by (auto simp: unhooked_def fetches_def SingleStepInner_def Read_Opcode_def TryReadInstruction_def read_fetched_def ReadInstruction_def
      Memory_Read_U32_def)

text \<open>The entries the properties below run.\<close>

lemma table_ops:
  "m_op_table host 14 = gekko_op (plain addi) False 1" "m_op_table host 16 = gekko_op (bcx (host_bus host)) False 1"
  "m_op_table host 18 = gekko_op (plain bx) False 1" "m_op_table host 17 = gekko_op (plain sc) False 2"
  "m_op_table host 32 = gekko_op (lwz (host_bus host)) False 1"
  "m_op_table host 31 = gekko_op (RunTable31 host) False 0" "m_op_table31 host 83 = gekko_op (plain mfmsr) False 1"
  by (simp_all add: m_op_table_def m_op_table31_def table_entry_def primarytable_def table31_def)

lemma op_fields [simp]: "op_inst (gekko_op f u c) = f" "op_use_fpu (gekko_op f u c) = u" "op_numCycles (gekko_op f u c) = c"
  by (simp_all add: gekko_op_def)

lemma execute_plain:
  assumes "m_op_table host (OPCD w) = gekko_op f False c" "w \<noteq> 0" "OPCD w \<notin> {4, 19, 31, 59, 63}"
  shows "execute host w s = map_option (\<lambda>s1. if dsi_pending s1 then (CheckExceptions s1)\<lparr>ppc_end_block := True\<rparr> else s1) (f w s)"
    "op_numCycles (GetOpInfo host w) = c"
  using assms by (simp_all add: execute_def UsesFPU_def GetOpInfo_def)

text \<open>One step of \<^verbatim>\<open>addi\<close>, and one of \<^verbatim>\<open>bdnz\<close> to the instruction before.\<close>

lemma addi_step:
  assumes "unhooked host" "fetches w s" "OPCD w = 14" "w \<noteq> 0" "\<not> dsi_pending s" "RD w = r" "RA w = r" "r \<noteq> 0"
  shows "SingleStepInner host s = Some (1, (set_gpr r (gpr s r + SIMM_16 w) s)
    \<lparr>ppc_npc := ppc_pc s + 4, m_prev_inst := w, last_pc := ppc_pc s, ppc_pc := ppc_pc s + 4\<rparr>)"
proof -
  note e = execute_plain [of host w "plain addi" 1] 
  have t: "m_op_table host (OPCD w) = gekko_op (plain addi) False 1" by (simp add: assms(3) table_ops)
  show ?thesis
    using step_fetch [OF assms(1,2)] e [OF t assms(4)] assms(3,5-8)
    by (simp add: plain_def addi_def set_gpr_def finish_step_def dsi_pending_def)
qed

lemma bdnz_branch:
  "bcx_branch 0x4200FFFC s = (set_spr SPR_CTR (spr s SPR_CTR - 1) s)
     \<lparr>ppc_npc := (if spr s SPR_CTR - 1 \<noteq> 0 then ppc_pc s - 4 else ppc_npc s), ppc_end_block := True\<rparr>"
proof -
  have b: "bit (0x4200FFFC :: u32) 0 = False" "bit (0x4200FFFC :: u32) 1 = False" "bit (0x4200FFFC :: u32) 22 = False"
    "bit (0x4200FFFC :: u32) 23 = False" "bit (0x4200FFFC :: u32) 25 = True" by simp_all
  have x: "SignExt16 (push_bit 2 (of_nat (inst_field 2 14 0x4200FFFC))) = - 4" by (simp add: SignExt16_def inst_field_def)
  show ?thesis by (cases "spr s SPR_CTR - 1 = 0") (simp_all add: bcx_branch_def Let_def b x set_spr_def)
qed

lemma bdnz_step:
  assumes "unhooked host" "fetches 0x4200FFFC s" "\<not> dsi_pending s"
  defines "n \<equiv> spr s SPR_CTR - 1"
  shows "SingleStepInner host s = Some (1, (set_spr SPR_CTR n s)
    \<lparr>ppc_npc := (if n \<noteq> 0 then ppc_pc s - 4 else ppc_pc s + 4), m_prev_inst := 0x4200FFFC, last_pc := ppc_pc s, ppc_end_block := True,
     ppc_pc := (if n \<noteq> 0 then ppc_pc s - 4 else ppc_pc s + 4)\<rparr>)"
proof -
  have f: "OPCD 0x4200FFFC = 16" by (simp add: inst_field_def)
  have t: "m_op_table host (OPCD 0x4200FFFC) = gekko_op (bcx (host_bus host)) False 1" by (simp add: f table_ops)
  have "bcx (host_bus host) 0x4200FFFC t = Some (bcx_branch 0x4200FFFC t)" for t :: "'a SYS_State_scheme" by (simp add: bcx_def)
  then show ?thesis
    using step_fetch [OF assms(1,2)] execute_plain [OF t] assms(3)
    by (simp add: f bdnz_branch set_spr_def finish_step_def dsi_pending_def n_def)
qed

section \<open>A loop\<close>

text \<open>At \<open>p\<close>, an \<^verbatim>\<open>addi r, r, k\<close> and a \<^verbatim>\<open>bdnz\<close> back to it.\<close>

definition loop_at :: "u32 \<Rightarrow> u32 \<Rightarrow> 'a SYS_State_scheme \<Rightarrow> bool" where
  "loop_at p w s \<longleftrightarrow> \<not> MSR_IR s \<and> \<not> HID0_ICE s \<and> \<not> m_pFakeVMEM s \<and> \<not> dsi_pending s \<and>
    Memory_Read_U32 p s = Some w \<and> Memory_Read_U32 (p + 4) s = Some 0x4200FFFC"

lemma Memory_Read_cong:
  "m_pEXRAM t = m_pEXRAM s \<Longrightarrow> physical_base t = physical_base s \<Longrightarrow> Memory_Read_U32 a t = Memory_Read_U32 a s"
  by (simp add: Memory_Read_U32_def mem_pointer_def Let_def)

lemma loop_at_cong:
  assumes "loop_at p w s" "ppc_msr t = ppc_msr s" "spr t SPR_HID0 = spr s SPR_HID0" "m_pFakeVMEM t = m_pFakeVMEM s"
    "ppc_Exceptions t = ppc_Exceptions s" "m_pEXRAM t = m_pEXRAM s" "physical_base t = physical_base s"
  shows "loop_at p w t"
  using assms Memory_Read_cong [of t s] by (simp add: loop_at_def dsi_pending_def)

text \<open>One turn of the loop is one block of the interpreter, of two cycles.\<close>

definition turn :: "u32 \<Rightarrow> u32 \<Rightarrow> nat \<Rightarrow> 'a SYS_State_scheme \<Rightarrow> 'a SYS_State_scheme" where
  "turn p w r s =
    (let n = spr s SPR_CTR - 1; q = (if n \<noteq> 0 then p else p + 8)
     in (set_spr SPR_CTR n (set_gpr r (gpr s r + SIMM_16 w) s))
          \<lparr>ppc_npc := q, m_prev_inst := 0x4200FFFC, last_pc := p + 4, ppc_end_block := True, ppc_pc := q\<rparr>)"

lemma one_turn:
  assumes "unhooked host" "loop_at p w s" "ppc_pc s = p" "\<not> ppc_end_block s"
    "OPCD w = 14" "w \<noteq> 0" "RD w = r" "RA w = r" "r \<noteq> 0"
  shows "run_block host 0 s = Some (2, turn p w r s)"
proof -
  define s1 where "s1 = (set_gpr r (gpr s r + SIMM_16 w) s)\<lparr>ppc_npc := p + 4, m_prev_inst := w, last_pc := p, ppc_pc := p + 4\<rparr>"
  have "fetches w s" using assms(2,3) by (simp add: loop_at_def fetches_def)
  then have a: "SingleStepInner host s = Some (1, s1)"
    using addi_step [OF assms(1) _ assms(5,6)] assms(2,3,7-9) by (simp add: loop_at_def s1_def)
  have "loop_at p w s1" by (rule loop_at_cong [OF assms(2)]) (simp_all add: s1_def set_gpr_def)
  then have f: "fetches 0x4200FFFC s1" "\<not> dsi_pending s1" by (simp_all add: loop_at_def fetches_def s1_def)
  have b: "SingleStepInner host s1 = Some (1, turn p w r s)"
    unfolding bdnz_step [OF assms(1) f] by (simp add: turn_def Let_def s1_def set_gpr_def set_spr_def)
  have e: "\<not> ppc_end_block s1" "ppc_end_block (turn p w r s)" using assms(4) by (simp_all add: s1_def set_gpr_def turn_def Let_def)
  show ?thesis
    by (subst run_block.simps, simp add: assms(4) a, subst run_block.simps, simp add: e b, subst run_block.simps, simp add: e)
qed

text \<open>How often the loop turns: a counter of 0 wraps.\<close>

definition loop_turns :: "u32 \<Rightarrow> nat" where
  "loop_turns c = (if c = 0 then 2 ^ 32 else unat c)"

lemma loop_turns_step: "1 < loop_turns c \<Longrightarrow> c - 1 \<noteq> 0 \<and> loop_turns (c - 1) = loop_turns c - 1"
  by (auto simp: loop_turns_def unat_minus_one unsigned_minus_1_eq_mask mask_eq_exp_minus_1 split: if_splits)

lemma loop_turns_one: "loop_turns c = 1 \<longleftrightarrow> c = 1"
  by (auto simp: loop_turns_def word_unat_eq_iff)

lemma turn_fields:
  assumes "t = (turn p w r (s\<lparr>ppc_end_block := False\<rparr>))\<lparr>ppc_downcount := ppc_downcount s - 2\<rparr>"
  shows "spr t SPR_CTR = spr s SPR_CTR - 1" "gpr t = (gpr s)(r := gpr s r + SIMM_16 w)" "physical_base t = physical_base s"
    "ppc_pc t = (if spr s SPR_CTR - 1 \<noteq> 0 then p else p + 8)" "ppc_downcount t = ppc_downcount s - 2"
    "loop_at p w s \<Longrightarrow> loop_at p w t"
proof -
  show "loop_at p w t" if "loop_at p w s"
    by (rule loop_at_cong [OF that]) (simp_all add: assms turn_def Let_def set_gpr_def set_spr_def)
qed (simp_all add: assms turn_def Let_def set_gpr_def set_spr_def)

lemma slice_turn:
  assumes "unhooked host" "OPCD w = 14" "w \<noteq> 0" "RD w = r" "RA w = r" "r \<noteq> 0"
    and "loop_at p w s" "ppc_pc s = p" "0 < ppc_downcount s"
  shows "run_slice host s = run_slice host ((turn p w r (s\<lparr>ppc_end_block := False\<rparr>))\<lparr>ppc_downcount := ppc_downcount s - 2\<rparr>)"
proof -
  let ?s = "s\<lparr>ppc_end_block := False\<rparr>"
  have l: "loop_at p w ?s" by (rule loop_at_cong [OF assms(7)]) simp_all
  have "run_block host 0 ?s = Some (2, turn p w r ?s)"
    by (rule one_turn [OF assms(1) l _ _ assms(2-6)]) (simp_all add: assms(8))
  moreover have "ppc_downcount (turn p w r ?s) = ppc_downcount s" by (simp add: turn_def Let_def set_gpr_def set_spr_def)
  ultimately show ?thesis using assms(9) by (subst run_slice.simps) simp
qed

lemma loop_slice:
  assumes "unhooked host" "OPCD w = 14" "w \<noteq> 0" "RD w = r" "RA w = r" "r \<noteq> 0"
    and "loop_at p w s" "ppc_pc s = p" "0 < n" "n \<le> loop_turns (spr s SPR_CTR)"
    and "2 * int n - 1 \<le> ppc_downcount s" "ppc_downcount s \<le> 2 * int n"
  shows "\<exists>t. run_slice host s = Some t \<and> ppc_pc t = (if n = loop_turns (spr s SPR_CTR) then p + 8 else p) \<and>
    spr t SPR_CTR = spr s SPR_CTR - of_nat n \<and> ppc_downcount t = ppc_downcount s - 2 * int n \<and>
    gpr t = (gpr s)(r := gpr s r + of_nat n * SIMM_16 w) \<and> physical_base t = physical_base s \<and> loop_at p w t"
  using assms(7-)
proof (induction n arbitrary: s)
  case (Suc n)
  define t where "t = (turn p w r (s\<lparr>ppc_end_block := False\<rparr>))\<lparr>ppc_downcount := ppc_downcount s - 2\<rparr>"
  have st: "run_slice host s = run_slice host t"
    unfolding t_def by (rule slice_turn [OF assms(1-6) Suc.prems(1,2)]) (use Suc.prems(5) in simp)
  note t = turn_fields [OF t_def]
  show ?case
  proof (cases "n = 0")
    case True
    then have "run_slice host t = Some t" using t(5) Suc.prems(6) by (subst run_slice.simps) simp
    moreover have "(1 = loop_turns (spr s SPR_CTR)) = (spr s SPR_CTR - 1 = 0)"
      using loop_turns_one [of "spr s SPR_CTR"] by auto
    ultimately show ?thesis using st t t(6) [OF Suc.prems(1)] True by (simp add: fun_upd_def)
  next
    case False
    then have c: "spr s SPR_CTR - 1 \<noteq> 0" "loop_turns (spr s SPR_CTR - 1) = loop_turns (spr s SPR_CTR) - 1"
      using Suc.prems(4) loop_turns_step [of "spr s SPR_CTR"] by simp_all
    have pre: "ppc_pc t = p" "0 < n" "n \<le> loop_turns (spr t SPR_CTR)" "2 * int n - 1 \<le> ppc_downcount t" "ppc_downcount t \<le> 2 * int n"
      using t(1,4,5) c False Suc.prems(4-6) by simp_all
    have e: "(n = loop_turns (spr t SPR_CTR)) = (Suc n = loop_turns (spr s SPR_CTR))" using Suc.prems(4) t(1) c by auto
    obtain u where "run_slice host t = Some u" "ppc_pc u = (if Suc n = loop_turns (spr s SPR_CTR) then p + 8 else p)"
      "spr u SPR_CTR = spr t SPR_CTR - of_nat n" "ppc_downcount u = ppc_downcount t - 2 * int n"
      "gpr u = (gpr t)(r := gpr t r + of_nat n * SIMM_16 w)" "physical_base u = physical_base t" "loop_at p w u"
      using Suc.IH [OF t(6) [OF Suc.prems(1)] pre] unfolding e by blast
    then show ?thesis using st t(1-3,5) by (auto simp: algebra_simps fun_upd_def)
  qed
qed simp

text \<open>
  C12. The interpreter runs a loop. With real addressing, the instruction cache off, no hooked function and no exception pending, take the
  program \<^verbatim>\<open>addi r, r, k; bdnz\<close> back to it, for a register \<open>r\<close> other than \<open>r0\<close> (which \<^verbatim>\<open>addi\<close> reads as 0), and CTR \<open>c\<close>; it turns \<open>N\<close> times, \<open>N\<close> being \<open>c\<close> or,
  when \<open>c\<close> is 0, \<open>2 ^ 32\<close>. A slice of \<open>d\<close> cycles (\<open>0 < d < 2 ^ 31\<close>, the counter is a C \<^verbatim>\<open>int\<close>) fetches, decodes and executes exactly \<open>n = \<lceil>d / 2\<rceil>\<close> turns, for any \<open>n\<close> up to \<open>N\<close>:
  the slice ends with \<open>d - 2 n\<close> cycles left, \<open>n k\<close> (modulo \<open>2 ^ 32\<close>) added to the register, CTR down by \<open>n\<close>, and the program counter back at the loop or, after
  turn \<open>N\<close>, behind it; memory and the other registers are unchanged and the loop is still in place, so that slices follow one another.
\<close>

theorem counted_loop:
  assumes "unhooked host" "OPCD w = 14" "RD w = r" "RA w = r" "r \<noteq> 0"
    and "loop_at p w s" "ppc_pc s = p" "N = (if spr s SPR_CTR = 0 then 2 ^ 32 else unat (spr s SPR_CTR))"
    and "0 < ppc_downcount s" "ppc_downcount s < 2 ^ 31" "n = nat ((ppc_downcount s + 1) div 2)" "n \<le> N"
  shows "\<exists>t. run_slice host s = Some t \<and> ppc_pc t = (if n = N then p + 8 else p) \<and>
    spr t SPR_CTR = spr s SPR_CTR - of_nat n \<and> ppc_downcount t = ppc_downcount s - 2 * int n \<and>
    gpr t = (gpr s)(r := gpr s r + of_nat n * SIMM_16 w) \<and> physical_base t = physical_base s \<and> loop_at p w t"
proof -
  have w: "w \<noteq> 0" using assms(2) by (auto simp: inst_field_def)
  have N: "N = loop_turns (spr s SPR_CTR)" using assms(8) by (simp add: loop_turns_def)
  have "0 < n" "2 * int n - 1 \<le> ppc_downcount s" "ppc_downcount s \<le> 2 * int n" using assms(9,11) by auto
  then show ?thesis using loop_slice [OF assms(1,2) w assms(3-7)] assms(12) unfolding N by blast
qed

text \<open>
  \<^verbatim>\<open>addi r3, r3, 5; bdnz -4\<close> at \<open>0x100\<close>: a slice of 8 cycles with CTR 4 runs the loop to its end, and with CTR 0 it makes the first 4 of \<open>2 ^ 32\<close> turns.
\<close>

definition loop_machine :: "u32 \<Rightarrow> SYS_State" where
  "loop_machine c = sys_machine\<lparr>ppc_pc := 0x100, ppc_downcount := 8, spr := (\<lambda>_. 0)(SPR_CTR := c),
     physical_base := write_be 8 0x100 0x386300054200FFFC (\<lambda>_. 0)\<rparr>"

lemma loop_machine_loop: "loop_at 0x100 0x38630005 (loop_machine c)"
proof -
  have "loop_at 0x100 0x38630005 (loop_machine 4)" unfolding loop_at_def dsi_pending_def by (intro conjI; code_simp)
  then show ?thesis by (rule loop_at_cong) (simp_all add: loop_machine_def)
qed

theorem counted_loop_witness:
  "(\<exists>t. run_slice sys_host (loop_machine 4) = Some t \<and> ppc_pc t = 0x108 \<and> gpr t 3 = 0x12345678 + 20) \<and>
   (\<exists>t. run_slice sys_host (loop_machine 0) = Some t \<and> ppc_pc t = 0x100 \<and> gpr t 3 = 0x12345678 + 20)"
proof -
  have u: "unhooked sys_host" by (simp add: unhooked_def sys_host_def)
  have f: "OPCD 0x38630005 = 14" "RD 0x38630005 = 3" "RA 0x38630005 = 3" by (simp_all add: inst_field_def)
  have m: "ppc_pc (loop_machine c) = 0x100" "spr (loop_machine c) SPR_CTR = c" "ppc_downcount (loop_machine c) = 8"
    "gpr (loop_machine c) 3 = 0x12345678" for c
    by (simp_all add: loop_machine_def sys_machine_def LS_State.defs SYS_State.defs)
  note l = counted_loop [OF u f _ loop_machine_loop m(1) refl]
  show ?thesis using l [of 4] l [of 0] by (simp add: m SIMM_16_def) (metis fun_upd_same)
qed

section \<open>Exceptions\<close>

lemma check_dsi:
  assumes "ppc_Exceptions s = EXCEPTION_DSI"
  shows "CheckExceptions s = enter_exception (ppc_pc s) 0 0x300 EXCEPTION_DSI s"
  using assms by (simp add: CheckExceptions_def)

lemma check_isi:
  assumes "ppc_Exceptions s = EXCEPTION_ISI"
  shows "CheckExceptions s = enter_exception (ppc_npc s) (push_bit 30 1) 0x400 EXCEPTION_ISI s"
  using assms by (simp add: CheckExceptions_def)

lemma check_fpu:
  assumes "ppc_Exceptions s = EXCEPTION_FPU_UNAVAILABLE"
  shows "CheckExceptions s = enter_exception (ppc_pc s) 0 0x800 EXCEPTION_FPU_UNAVAILABLE s"
  using assms by (simp add: CheckExceptions_def)

text \<open>What entering an exception leaves alone.\<close>

lemma enter_keeps [simp]:
  "gpr (enter_exception r b v e s) = gpr s" "spr (enter_exception r b v e s) = spr s" "physical_base (enter_exception r b v e s) = physical_base s"
  "ps0 (enter_exception r b v e t) = ps0 t" "m_prev_inst (enter_exception r b v e u) = m_prev_inst u"
  by (simp_all add: enter_exception_def Let_def)

lemma read_fault:
  assumes "bMMU s" "MSR_DR s" "m_mem_checks s = []" "TranslateBatAddess (dbat_table s) a = None" "tlb_ok s" "page_walk Read a s = PAGE_FAULT"
  shows "\<exists>e. Read_U bus n a s = Some (0, GenerateDSIException a False (s\<lparr>tlb := e\<rparr>))"
proof -
  obtain r s1 where t: "TranslatePageAddress a Read s = (r, s1)" by fastforce
  then have r: "r = PAGE_FAULT" using translate_page_walk [OF assms(5) t] assms(6) by simp
  obtain e where e: "s1 = s\<lparr>tlb := e\<rparr>" using page_fault_state [of a Read s s1] t r by auto
  have "TranslateAddress Read a s = (PAGE_FAULT, s\<lparr>tlb := e\<rparr>)" using assms(4) t r e by (simp add: TranslateAddress_def IsOpcodeFlag_def)
  moreover have "Memcheck a False n (GenerateDSIException a False (s\<lparr>tlb := e\<rparr>)) = GenerateDSIException a False (s\<lparr>tlb := e\<rparr>)"
    using assms(3) by (intro Memcheck_empty) (simp add: GenerateDSIException_def set_spr_def Let_def)
  ultimately show ?thesis using assms(2) by (auto simp: Read_U_def ReadFromHardware_def)
qed

lemma walk_same:
  "tlb_ok s \<Longrightarrow> tlb_ok (s\<lparr>ppc_npc := n, m_prev_inst := w\<rparr>)"
  "tlb_ok s \<Longrightarrow> page_walk f a (s\<lparr>ppc_npc := n, m_prev_inst := w\<rparr>) = page_walk f a s"
proof -
  have st: "same_tables s (s\<lparr>ppc_npc := n, m_prev_inst := w\<rparr>)" by (simp add: same_tables_def)
  show "tlb_ok s \<Longrightarrow> tlb_ok (s\<lparr>ppc_npc := n, m_prev_inst := w\<rparr>)" by (rule tlb_okI [OF _ st]) auto
  show "tlb_ok s \<Longrightarrow> page_walk f a (s\<lparr>ppc_npc := n, m_prev_inst := w\<rparr>) = page_walk f a s"
    by (rule page_walk_same [OF st]) (simp add: tlb_ok_def)
qed

text \<open>
  C13. Faults are precise. From a state with no exception pending and no hooked function: (1) with instruction translation on, when the address of the
  instruction is in no block and its page walk faults, the step ends at the ISI vector; (2) with the emulation of the MMU and data translation on, no memory checks set and a
  TLB that agrees with the page table, a load word whose address is in no block and whose page walk faults ends at the DSI vector with the address in DAR;
  (3) an instruction of the floating-point unit with that unit disabled ends at its vector. In (2) and (3) the instruction is fetched by its real address
  with the instruction cache off. Each time SRR0 holds the address of the instruction, which can so be run again, the
  exception is no longer pending, and the general registers and memory are those before the step.
\<close>

theorem faults_precise:
  assumes "unhooked host" "ppc_Exceptions s = 0"
  shows "(MSR_IR s \<and> TranslateBatAddess (ibat_table s) (ppc_pc s) = None \<and>
      fst (TranslatePageAddress (ppc_pc s) Opcode (s\<lparr>ppc_npc := ppc_pc s + 4\<rparr>)) = PAGE_FAULT \<longrightarrow>
        (\<exists>c t. SingleStepInner host s = Some (c, t) \<and> ppc_pc t = 0x400 \<and> ppc_srr0 t = ppc_pc s \<and> ppc_Exceptions t = 0 \<and>
           gpr t = gpr s \<and> physical_base t = physical_base s)) \<and>
    (fetches w s \<and> OPCD w = 32 \<and> bMMU s \<and> MSR_DR s \<and> m_mem_checks s = [] \<and> tlb_ok s \<and>
      TranslateBatAddess (dbat_table s) (Helper_Get_EA w s) = None \<and> page_walk Read (Helper_Get_EA w s) s = PAGE_FAULT \<longrightarrow>
        (\<exists>c t. SingleStepInner host s = Some (c, t) \<and> ppc_pc t = 0x300 \<and> ppc_srr0 t = ppc_pc s \<and> ppc_Exceptions t = 0 \<and>
           spr t SPR_DAR = Helper_Get_EA w s \<and> gpr t = gpr s \<and> physical_base t = physical_base s)) \<and>
    (fetches w s \<and> w \<noteq> 0 \<and> UsesFPU host w \<and> \<not> MSR_FP s \<longrightarrow>
        (\<exists>c t. SingleStepInner host s = Some (c, t) \<and> ppc_pc t = 0x800 \<and> ppc_srr0 t = ppc_pc s \<and> ppc_Exceptions t = 0 \<and>
           gpr t = gpr s \<and> physical_base t = physical_base s))"
proof (intro conjI impI)
  assume h: "MSR_IR s \<and> TranslateBatAddess (ibat_table s) (ppc_pc s) = None \<and>
      fst (TranslatePageAddress (ppc_pc s) Opcode (s\<lparr>ppc_npc := ppc_pc s + 4\<rparr>)) = PAGE_FAULT"
  define s1 where "s1 = s\<lparr>ppc_npc := ppc_pc s + 4\<rparr>"
  obtain r s2 where t: "TranslatePageAddress (ppc_pc s) Opcode s1 = (r, s2)" by fastforce
  then have r: "r = PAGE_FAULT" using h by (simp add: s1_def)
  obtain e where e: "s2 = s1\<lparr>tlb := e\<rparr>" using page_fault_state [of "ppc_pc s" Opcode s1 s2] t r by auto
  have "Read_Opcode (ppc_pc s) s1 = Some (0, GenerateISIException (ppc_pc s) (s1\<lparr>tlb := e\<rparr>))"
    using h t r e by (simp add: Read_Opcode_def TryReadInstruction_def TranslateAddress_def IsOpcodeFlag_def s1_def)
  then have "SingleStepInner host s = Some (finish_step host ((CheckExceptions ((GenerateISIException (ppc_pc s) (s1\<lparr>tlb := e\<rparr>))\<lparr>m_prev_inst := 0\<rparr>))\<lparr>ppc_end_block := True\<rparr>))"
    using assms(1) by (simp add: SingleStepInner_def unhooked_def execute_def s1_def)
  moreover have "ppc_Exceptions ((GenerateISIException (ppc_pc s) (s1\<lparr>tlb := e\<rparr>))\<lparr>m_prev_inst := 0\<rparr>) = EXCEPTION_ISI"
    using assms(2) by (simp add: GenerateISIException_def s1_def)
  ultimately show "\<exists>c t. SingleStepInner host s = Some (c, t) \<and> ppc_pc t = 0x400 \<and> ppc_srr0 t = ppc_pc s \<and> ppc_Exceptions t = 0 \<and>
           gpr t = gpr s \<and> physical_base t = physical_base s"
    by (simp add: check_isi finish_step_def enter_exception_fields) (simp add: GenerateISIException_def s1_def assms(2))
next
  assume h: "fetches w s \<and> OPCD w = 32 \<and> bMMU s \<and> MSR_DR s \<and> m_mem_checks s = [] \<and> tlb_ok s \<and>
      TranslateBatAddess (dbat_table s) (Helper_Get_EA w s) = None \<and> page_walk Read (Helper_Get_EA w s) s = PAGE_FAULT"
  define a where "a = Helper_Get_EA w s"
  define s1 where "s1 = s\<lparr>ppc_npc := ppc_pc s + 4, m_prev_inst := w\<rparr>"
  have w: "w \<noteq> 0" using h by (auto simp: inst_field_def)
  have t: "m_op_table host (OPCD w) = gekko_op (lwz (host_bus host)) False 1" using h by (simp add: table_ops)
  obtain e where e: "Read_U (host_bus host) 4 a s1 = Some (0, GenerateDSIException a False (s1\<lparr>tlb := e\<rparr>))"
    using read_fault [of s1 a "host_bus host" 4] h walk_same(1) [of s w "ppc_pc s + 4"] walk_same(2) [of s Read a w "ppc_pc s + 4"]
    by (auto simp: s1_def a_def)
  define s2 where "s2 = GenerateDSIException a False (s1\<lparr>tlb := e\<rparr>)"
  have x: "ppc_Exceptions s2 = EXCEPTION_DSI" "spr s2 SPR_DAR = a" "gpr s2 = gpr s" "physical_base s2 = physical_base s" "ppc_pc s2 = ppc_pc s"
    using h assms(2) by (simp_all add: s2_def GenerateDSIException_def set_spr_def Let_def s1_def)
  have "lwz (host_bus host) w s1 = Some s2"
  proof -
    have "Helper_Get_EA w s1 = a" by (simp add: a_def s1_def Helper_Get_EA_def)
    then show ?thesis using e [folded s2_def] x(1) by (simp add: lwz_def load_gpr_def dsi_pending_def)
  qed
  then have "execute host w s1 = Some ((enter_exception (ppc_pc s2) 0 0x300 EXCEPTION_DSI s2)\<lparr>ppc_end_block := True\<rparr>)"
    using execute_plain(1) [OF t w] h check_dsi [OF x(1)] x(1) by (simp add: dsi_pending_def)
  then show "\<exists>c t. SingleStepInner host s = Some (c, t) \<and> ppc_pc t = 0x300 \<and> ppc_srr0 t = ppc_pc s \<and> ppc_Exceptions t = 0 \<and>
           spr t SPR_DAR = Helper_Get_EA w s \<and> gpr t = gpr s \<and> physical_base t = physical_base s"
    using step_fetch [OF assms(1) conjunct1 [OF h]] x by (simp add: s1_def finish_step_def enter_exception_fields a_def)
next
  assume h: "fetches w s \<and> w \<noteq> 0 \<and> UsesFPU host w \<and> \<not> MSR_FP s"
  then show "\<exists>c t. SingleStepInner host s = Some (c, t) \<and> ppc_pc t = 0x800 \<and> ppc_srr0 t = ppc_pc s \<and> ppc_Exceptions t = 0 \<and>
           gpr t = gpr s \<and> physical_base t = physical_base s"
    using step_fetch [OF assms(1) conjunct1 [OF h]] assms(2) by (simp add: execute_def check_fpu finish_step_def enter_exception_fields)
qed

text \<open>
  C29. A privileged instruction in user mode is not trapped at once. \<^verbatim>\<open>mfmsr\<close> run by a user program leaves its register alone and
  marks a program exception, but \<^verbatim>\<open>SingleStepInner\<close> only looks for a DSI: the step ends at the next instruction with the exception pending.
\<close>

theorem privileged_deferred:
  assumes "unhooked host" "fetches 0x7C6000A6 s" "MSR_PR s" "ppc_Exceptions s = 0"
  shows "\<exists>t. SingleStepInner host s = Some (1, t) \<and> ppc_pc t = ppc_pc s + 4 \<and> ppc_Exceptions t = EXCEPTION_PROGRAM \<and>
    gpr t = gpr s \<and> ppc_srr0 t = ppc_srr0 s \<and> MSR_PR t"
proof -
  have f: "OPCD 0x7C6000A6 = 31" "inst_field (Suc 0) 10 0x7C6000A6 = 83" by (simp_all add: inst_field_def)
  define s1 where "s1 = s\<lparr>ppc_npc := ppc_pc s + 4, m_prev_inst := 0x7C6000A6\<rparr>"
  have "op_inst (m_op_table host (OPCD 0x7C6000A6)) 0x7C6000A6 s1 = Some (s1\<lparr>ppc_Exceptions := EXCEPTION_PROGRAM\<rparr>)"
    using assms(3,4) by (simp add: f table_ops RunTable31_def plain_def mfmsr_def GenerateProgramException_def s1_def)
  moreover have g: "GetOpInfo host 0x7C6000A6 = gekko_op (plain mfmsr) False 1" by (simp add: GetOpInfo_def f table_ops)
  ultimately have "execute host 0x7C6000A6 s1 = Some (s1\<lparr>ppc_Exceptions := EXCEPTION_PROGRAM\<rparr>)"
    by (simp add: execute_def UsesFPU_def dsi_pending_def)
  then show ?thesis using step_fetch [OF assms(1,2)] assms(3) by (simp add: s1_def [symmetric] finish_step_def) (simp add: s1_def g)
qed

text \<open>Machines for the three faults and for a user program.\<close>

definition fault_machine :: "u32 \<Rightarrow> u32 \<Rightarrow> SYS_State" where
  "fault_machine msr w = sys_machine\<lparr>ppc_pc := 0x100, ppc_msr := msr, ppc_Exceptions := 0, spr := (\<lambda>_. 0),
     physical_base := write_be 4 0x100 (ucast w) (\<lambda>_. 0), dbat_table := (\<lambda>_. 0), gpr := (\<lambda>_. 0)(1 := 0x80001234)\<rparr>"

lemma sys_host_unhooked: "unhooked sys_host"
  by (simp add: unhooked_def sys_host_def)

lemma fault_machine_pc: "ppc_pc (fault_machine msr w) = 0x100" "ppc_Exceptions (fault_machine msr w) = 0"
  by (simp_all add: fault_machine_def)

lemma fault_machine_fields:
  "pagetable_base (fault_machine msr w) = pagetable_base page_mmu" "tlb (fault_machine msr w) = tlb page_mmu"
  "m_mem_checks (fault_machine msr w) = []" "bMMU (fault_machine msr w)"
  by (simp_all add: fault_machine_def sys_machine_def ls_machine_def fetch_machine_def page_mmu_def
      CPU_State.defs MMU_State.defs IC_State.defs LS_State.defs SYS_State.defs)

lemma fault_machine_tlb: "tlb_ok (fault_machine msr w)"
proof -
  have "pagetable_base page_mmu = 0" "tlb_tag (tlb page_mmu f k) i = INVALID_TAG" for f k i
    by (simp_all add: page_mmu_def CPU_State.defs MMU_State.defs)
  then show ?thesis unfolding tlb_ok_def fault_machine_fields Let_def by simp
qed

lemma fault_machine_isi:
  "TranslateBatAddess (ibat_table (fault_machine 0x20 0x60000000)) 0x100 = None"
  "fst (TranslatePageAddress 0x100 Opcode ((fault_machine 0x20 0x60000000)\<lparr>ppc_npc := 0x104\<rparr>)) = PAGE_FAULT"
  by code_simp+

lemma fault_machine_dsi:
  "Helper_Get_EA 0x80610000 (fault_machine 0x10 0x80610000) = 0x80001234"
  "TranslateBatAddess (dbat_table (fault_machine 0x10 0x80610000)) 0x80001234 = None"
  "page_walk Read 0x80001234 (fault_machine 0x10 0x80610000) = PAGE_FAULT"
  by code_simp+

text \<open>A fetch from an unmapped page, \<^verbatim>\<open>lwz r3, 0(r1)\<close> from an unmapped page, and \<^verbatim>\<open>lfs f1, 0(r1)\<close> with the unit disabled.\<close>

theorem faults_precise_witness:
  "(\<exists>c t. SingleStepInner sys_host (fault_machine 0x20 0x60000000) = Some (c, t) \<and> ppc_pc t = 0x400 \<and> ppc_srr0 t = 0x100) \<and>
   (\<exists>c t. SingleStepInner sys_host (fault_machine 0x10 0x80610000) = Some (c, t) \<and> ppc_pc t = 0x300 \<and> ppc_srr0 t = 0x100 \<and>
      spr t SPR_DAR = 0x80001234) \<and>
   (\<exists>c t. SingleStepInner sys_host (fault_machine 0 0xC0210000) = Some (c, t) \<and> ppc_pc t = 0x800 \<and> ppc_srr0 t = 0x100)"
proof -
  note precise = faults_precise [OF sys_host_unhooked fault_machine_pc(2)]
  have i: "MSR_IR (fault_machine 0x20 0x60000000)" by (simp add: fault_machine_def)
  have d: "fetches 0x80610000 (fault_machine 0x10 0x80610000)" unfolding fetches_def by (intro conjI; code_simp)
  have dr: "MSR_DR (fault_machine 0x10 0x80610000)" "OPCD 0x80610000 = 32" by (simp_all add: fault_machine_def inst_field_def)
  have f: "fetches 0xC0210000 (fault_machine 0 0xC0210000)" unfolding fetches_def by (intro conjI; code_simp)
  have u: "UsesFPU sys_host 0xC0210000"
    by (simp add: UsesFPU_def GetOpInfo_def inst_field_def m_op_table_def table_entry_def primarytable_def)
  have n: "\<not> MSR_FP (fault_machine 0 0xC0210000)" by (simp add: fault_machine_def)
  have "\<exists>c t. SingleStepInner sys_host (fault_machine 0x20 0x60000000) = Some (c, t) \<and> ppc_pc t = 0x400 \<and> ppc_srr0 t = 0x100"
    using precise [THEN conjunct1, of "0x20" "0x60000000"] i fault_machine_isi unfolding fault_machine_pc by auto
  moreover have "\<exists>c t. SingleStepInner sys_host (fault_machine 0x10 0x80610000) = Some (c, t) \<and> ppc_pc t = 0x300 \<and> ppc_srr0 t = 0x100 \<and>
      spr t SPR_DAR = 0x80001234"
    using precise [THEN conjunct2, THEN conjunct1, of "0x80610000" "0x10" "0x80610000"] d dr fault_machine_tlb fault_machine_fields(3,4)
    unfolding fault_machine_pc fault_machine_dsi(1) using fault_machine_dsi(2,3) by blast
  moreover have "\<exists>c t. SingleStepInner sys_host (fault_machine 0 0xC0210000) = Some (c, t) \<and> ppc_pc t = 0x800 \<and> ppc_srr0 t = 0x100"
    using precise [THEN conjunct2, THEN conjunct2, of "0xC0210000" 0 "0xC0210000"] f u n unfolding fault_machine_pc by auto
  ultimately show ?thesis by blast
qed

theorem privileged_deferred_witness:
  "\<exists>t. SingleStepInner sys_host (fault_machine 0x4000 0x7C6000A6) = Some (1, t) \<and> ppc_pc t = 0x104 \<and> ppc_Exceptions t = EXCEPTION_PROGRAM"
proof -
  have f: "fetches 0x7C6000A6 (fault_machine 0x4000 0x7C6000A6)" unfolding fetches_def by (intro conjI; code_simp)
  have "MSR_PR (fault_machine 0x4000 0x7C6000A6)" by (simp add: fault_machine_def)
  then show ?thesis using privileged_deferred [OF sys_host_unhooked f _ fault_machine_pc(2)] fault_machine_pc(1) by auto
qed

end
