(* ===== verification/Spec2Isabelle.thy ===== *)
theory Spec2Isabelle
  imports DSP_Progress Console PPC_InterpreterSpec
begin

text \<open>
  Verification of the two processor interpreters of the Dolphin fork Faster Melee: the audio processor's, and the main
  processor's with its memory management and caches, and of the event scheduler, timers and interrupts between them.

  \<^bold>\<open>The program.\<close> The console's audio processor is emulated instruction by instruction by the code
  under \<^verbatim>\<open>src/Source/Core/Core/DSP\<close> (the low-level engine). \<^verbatim>\<open>DSPLLE\<close> owns the
  processor: it loads the ROMs, hands the CPU's accesses of the mailboxes and of the control
  register on, and runs the processor for a number of cycles. The interpreter fetches a word, looks
  its template up in the opcode tables, runs the handler of the extension part and of the main part,
  and closes hardware loops. Handlers work on the registers, on the four register stacks, on
  data memory and through data memory addresses \<^verbatim>\<open>0xFFxx\<close> on the hardware interface: mailboxes, DMA
  and the sample accelerator. The CPU sees the engine through the memory-mapped registers of
  \<^verbatim>\<open>Core/HW/DSP.cpp\<close>, which also copies between main and audio memory and feeds the
  speakers; its interrupts go to the interrupt controller (\<^verbatim>\<open>ProcessorInterface.cpp\<close>) and
  from there to the CPU's exceptions (\<^verbatim>\<open>PowerPC.cpp\<close>). Everything that takes time is an event of the scheduler
  (\<^verbatim>\<open>CoreTiming.cpp\<close>), which also drives the CPU's timers (\<^verbatim>\<open>SystemTimers.cpp\<close>). The CPU itself is emulated by the code under
  \<^verbatim>\<open>src/Source/Core/Core/PowerPC\<close>: its interpreter fetches through the instruction cache (\<^verbatim>\<open>PPCCache.cpp\<close>), looks handlers up in tables, and
  the handlers reach memory through address translation (\<^verbatim>\<open>MMU.cpp\<close>), whose faults become exceptions; a slice runs until its cycles
  are used up, and then the scheduler advances.

  \<^bold>\<open>The theories.\<close>
  \<^item> \<open>Prelude\<close>: machine integers, results, sixteen-bit lanes, 40-bit sign extension.
  \<^item> \<open>DSP_Tables\<close> (\<^verbatim>\<open>DSPTables.cpp\<close>): opcode templates and the lookup tables.
  \<^item> \<open>DSP_State\<close> (\<^verbatim>\<open>DSPCore.h\<close>): the record \<open>DSP\<close>, the globals the code shares.
  \<^item> \<open>DSP_Stacks\<close> (\<^verbatim>\<open>DSPStacks.cpp\<close>): the stacks; interface locale \<open>hw_stack\<close>, interpreted for each;
    a bounded list refines each stack.
  \<^item> \<open>Common_Hash\<close> (\<^verbatim>\<open>Common/Hash.cpp\<close>): \<^verbatim>\<open>HashAdler32\<close> against the textbook checksum.
  \<^item> \<open>DSP_Accelerator\<close> (\<^verbatim>\<open>DSPAccelerator.cpp\<close>): sample reads and raw writes; ADPCM decoding is exact.
  \<^item> \<open>DSP_Analyzer\<close> (\<^verbatim>\<open>DSPAnalyzer.cpp\<close>): code flags, against what they mean.
  \<^item> \<open>DSP_Core\<close> (\<^verbatim>\<open>DSPCore.cpp\<close>): initialisation, reset, exceptions, debugger access.
  \<^item> \<open>DSP_HW\<close> (\<^verbatim>\<open>DSPHWInterface.cpp\<close>, \<^verbatim>\<open>DSPMemoryMap.cpp\<close>, \<^verbatim>\<open>DSPHost.cpp\<close>): hardware interface, memory;
    the vector DMA path equals the plain one.
  \<^item> \<open>DSP_IntUtil\<close> (\<^verbatim>\<open>DSPIntUtil.h\<close>, \<^verbatim>\<open>DSPIntCCUtil.cpp\<close>): accumulators, condition codes.
  \<^item> \<open>DSP_AddrReg\<close>: the address registers as ring cursors (locale \<open>ring_cursor\<close>).
  \<^item> \<open>DSP_Arithmetic\<close>, \<open>DSP_Multiplier\<close>, \<open>DSP_LoadStore\<close>, \<open>DSP_Branch\<close>, \<open>DSP_ExtOps\<close>: the handlers, one
    definition each, with exactness of the arithmetic, loops, calls and exceptions.
  \<^item> \<open>DSP_Interpreter\<close> (\<^verbatim>\<open>DSPInterpreter.cpp\<close>, \<^verbatim>\<open>DSPIntTables.cpp\<close>): dispatch, steps, cycle loops.
  \<^item> \<open>DSP_Dispatch\<close>: what a step keeps: the machine invariant, program counters, the write-back log.
  \<^item> \<open>DSP_Progress\<close>: no instruction gets stuck except by a memory fault of its DMA.
  \<^item> \<open>DSP_LLE\<close> (\<^verbatim>\<open>DSPLLE.cpp\<close>): the engine; its reachable states, mail in both directions.
  \<^item> \<open>PPC_Exceptions\<close> (\<^verbatim>\<open>PowerPC.cpp\<close>, \<^verbatim>\<open>Interpreter_Branch.cpp\<close>): exceptions of the CPU and their return.
  \<^item> \<open>ProcessorInterface\<close> (\<^verbatim>\<open>ProcessorInterface.cpp\<close>): interrupt causes and masks; locale
    \<open>interrupt_line\<close>, interpreted for the DSP's and for the reset button's cause.
  \<^item> \<open>DSP_Interface\<close> (\<^verbatim>\<open>DSP.cpp\<close>): memory-mapped registers, interrupts, DMA, time slices; the interrupt
    line follows the registers in every reachable state, whatever the CPU does at the interrupt controller.
  \<^item> \<open>DSP_AramDMA\<close>: DMA transfers end and copy what they should; the audio DMA is periodic.
  \<^item> \<open>Binary_Heap\<close>: the heap algorithms of the standard library and their contract, locale \<open>min_queue\<close>.
  \<^item> \<open>CoreTiming\<close> (\<^verbatim>\<open>CoreTiming.cpp\<close>): the event scheduler on that queue (interpretation \<open>ev_queue\<close>); events
    run in order and with their lateness, none that was scheduled ahead of time is missed, time is conserved.
  \<^item> \<open>SystemTimers\<close> (\<^verbatim>\<open>SystemTimers.cpp\<close>, \<^verbatim>\<open>Interpreter_SystemRegisters.cpp\<close>): decrementer and time base.
  \<^item> \<open>Common_Swap\<close> (\<^verbatim>\<open>Common/Swap.h\<close>): byte order.
  \<^item> \<open>PPC_Registers\<close> (\<^verbatim>\<open>PowerPC.h\<close>, \<^verbatim>\<open>Gekko.h\<close>): registers, instruction fields, the 64-bit format of the condition fields.
  \<^item> \<open>PPC_Integer\<close> (\<^verbatim>\<open>Interpreter_Integer.cpp\<close>): the integer handlers; \<open>PPC_IntegerSpec\<close>: what they compute, and where they do not.
  \<^item> \<open>PPC_MMU\<close> (\<^verbatim>\<open>MMU.cpp\<close>, \<^verbatim>\<open>BreakPoints.cpp\<close>): block and page translation, accesses, faults. \<open>PPC_Translation\<close>: the look-aside
    buffers are invisible (locale \<open>cache\<close>, interpreted for both), block registers mean what the architecture says. \<open>PPC_Memory\<close>: loads
    read what was stored, also across pages; they return; what a fault reports.
  \<^item> \<open>PPC_ICache\<close> (\<^verbatim>\<open>PPCCache.cpp\<close>): the instruction cache; another interpretation of \<open>cache\<close>: as long as lines are invalidated
    after stores it cannot be told from memory.
  \<^item> \<open>PPC_Float\<close> (\<^verbatim>\<open>Interpreter_FPUtils.h\<close>): the conversions between singles and doubles of loads and stores.
  \<^item> \<open>PPC_LoadStore\<close> (\<^verbatim>\<open>Interpreter_LoadStore.cpp\<close>): the load and store handlers; \<open>PPC_LoadStoreSpec\<close>: round trips, reservations.
  \<^item> \<open>PPC_System\<close> (\<^verbatim>\<open>Interpreter_Branch.cpp\<close>, \<^verbatim>\<open>Interpreter_SystemRegisters.cpp\<close>): branches, system registers, locked cache DMA.
  \<^item> \<open>PPC_FloatOps\<close> (\<^verbatim>\<open>Interpreter_FloatingPoint.cpp\<close>, \<^verbatim>\<open>Interpreter_Paired.cpp\<close>): floating-point instructions that do not round.
  \<^item> \<open>PPC_Interpreter\<close> (\<^verbatim>\<open>Interpreter.cpp\<close>, \<^verbatim>\<open>Interpreter_Tables.cpp\<close>, \<^verbatim>\<open>PPCTables.cpp\<close>): tables, fetch, step and run loops.
    \<open>PPC_InterpreterSpec\<close>: the tables agree, a counted loop runs as many turns as its slices allow, faults are precise.
  \<^item> \<open>Console\<close>: scheduler, timers, interrupt controller and DSP interface on one state; from a DMA
    transfer to the CPU's interrupt handler.

  \<^bold>\<open>State and effects.\<close> Shared globals are records passed along. A run that the code would end by a
  panic or an invalid access is \<open>Inl\<close> of an error. Requests to parts outside the model (scheduled events, buffers
  for the mixer) are appended to lists in the state.

  \<^bold>\<open>Loops.\<close> Loops over data are structural recursions. Four loops carry a bound on their rounds and
  answer \<open>None\<close> beyond it: the DSP's cycle loop (each instruction takes a cycle, so as many rounds as
  cycles suffice), waiting for the debugger to leave a stepping state, whose successive values are an
  argument, the DMA loops (\<open>2 ^ 28\<close> rounds of eight bytes cover the 31-bit
  counter), and the scheduler's loop over due events (as many rounds as events are due, for callbacks
  that schedule for later). That the bounds are enough is proved where the loops are used. The loops of the CPU that may not end
  are partial functions with \<open>None\<close> for not returning: the bytes of a load across pages (\<open>read_pages\<close>), the shifts of a
  denormalised single (\<open>normalise\<close>), a block and a slice of the interpreter (\<open>run_block\<close>, \<open>run_slice\<close>); that they return is proved
  for every single, for every load that does not reach the end of the address space, and for a counted loop.

  \<^bold>\<open>Numbers and memories.\<close> Registers and counters are words of their width. Times (\<^verbatim>\<open>s64\<close>) and the cycle counts of a slice
  (\<^verbatim>\<open>int\<close>) are integers, which the theorems keep within those types where they speak of large values; products that the code
  computes in 32 bits wrap. Without overclocking the conversions between cycles and downcount are the identity. A memory is a function of all
  32-bit addresses behind the bounds checks of the code: an access that begins in range and straddles the end of a buffer succeeds in the model.

  \<^bold>\<open>Arguments.\<close> A \<open>Bus\<close> stands for the frame buffer, the gather pipe and the device registers of the CPU's physical
  addresses; a \<open>Host\<close> adds the function hooks of the high-level emulation and the floating-point handlers that round.

  \<^bold>\<open>Not modelled.\<close> Save states, logging, the settings dialogs and the debugger windows; the worker
  thread of the engine (the model is the single-threaded configuration); overclocking; floating-point arithmetic, which the code
  leaves to the host's processor, and its rounding modes; the recompilers, whose meaning
  needs a model of the host processor; the high-level engine; everything of the emulator outside the
  files named here.
\<close>

end
